(* ===== verification/Go_Prelude.thy ===== *)
theory Go_Prelude
  imports Complex_Main "HOL-Library.Char_ord" "HOL-Library.List_Lexorder"
begin

text \<open>
  Shared vocabulary of the development: Go strings as byte lists, the parts of the Go packages
  \<^verbatim>\<open>strings\<close>, \<^verbatim>\<open>strconv\<close>, \<^verbatim>\<open>encoding/hex\<close> and \<^verbatim>\<open>sort\<close> that the program
  uses, results with an error side, and the generic lemmas on lists and results that the component
  theories rely on. A Go string is a \<^typ>\<open>string\<close> whose characters are bytes, so
  \<^const>\<open>length\<close> is Go's \<^verbatim>\<open>len\<close> and the order on strings is Go's bytewise order.
\<close>

named_theorems go_simps \<open>evaluation rules of the modelled Go library functions\<close>
named_theorems model_defs \<open>definitions a component proof unfolds\<close>

section \<open>Results\<close>

text \<open>A Go call that returns \<^verbatim>\<open>(value, error)\<close> is an element of a sum: the error on the left.\<close>

fun bind_res :: "'e + 'a \<Rightarrow> ('a \<Rightarrow> 'e + 'b) \<Rightarrow> 'e + 'b" where
  "bind_res (Inl e) f = Inl e"
| "bind_res (Inr a) f = f a"

definition is_ok :: "'e + 'a \<Rightarrow> bool" where
  "is_ok r = (case r of Inl _ \<Rightarrow> False | Inr _ \<Rightarrow> True)"

lemma is_ok_simps [simp]: "is_ok (Inr a)" "\<not> is_ok (Inl e)"
  by (simp_all add: is_ok_def)

lemma is_ok_iff: "is_ok r \<longleftrightarrow> (\<exists>a. r = Inr a)"
  by (cases r) simp_all

lemma bind_res_eq_Inr [simp]: "bind_res r f = Inr b \<longleftrightarrow> (\<exists>a. r = Inr a \<and> f a = Inr b)"
  by (cases r) simp_all

lemma bind_res_eq_Inl: "bind_res r f = Inl e \<longleftrightarrow> r = Inl e \<or> (\<exists>a. r = Inr a \<and> f a = Inl e)"
  by (cases r) simp_all

section \<open>Bytes\<close>

abbreviation byte :: "nat \<Rightarrow> char" where
  "byte n \<equiv> char_of n"

abbreviation ord :: "char \<Rightarrow> nat" where
  "ord c \<equiv> of_char c"

lemma ord_byte: "n < 256 \<Longrightarrow> ord (byte n) = n"
  by (simp add: of_char_of)

lemma ord_less [simp]: "ord c < 256"
  using nat_of_char_less_256 [of c] .

lemma ord_eq_iff: "c = d \<longleftrightarrow> ord c = ord d"
  by simp

lemma byte_eq_iff: "m < 256 \<Longrightarrow> n < 256 \<Longrightarrow> byte m = byte n \<longleftrightarrow> m = n"
  by (metis of_char_of mod_less)

section \<open>The package strings\<close>

text \<open>
  \<^verbatim>\<open>unicode.IsSpace\<close> in UTF-8: the six ASCII characters, U+0085, U+00A0, U+1680, U+2000 to U+200A,
  U+2028, U+2029, U+202F, U+205F and U+3000.
\<close>

definition space_encodings :: "string list" where
  "space_encodings =
     map (\<lambda>n. [byte n]) [9, 10, 11, 12, 13, 32] @
     [[byte 0xC2, byte 0x85], [byte 0xC2, byte 0xA0], [byte 0xE1, byte 0x9A, byte 0x80]] @
     map (\<lambda>n. [byte 0xE2, byte 0x80, byte n])
       [0x80, 0x81, 0x82, 0x83, 0x84, 0x85, 0x86, 0x87, 0x88, 0x89, 0x8A, 0xA8, 0xA9, 0xAF] @
     [[byte 0xE2, byte 0x81, byte 0x9F], [byte 0xE3, byte 0x80, byte 0x80]]"

fun HasPrefix :: "string \<Rightarrow> string \<Rightarrow> bool" where
  "HasPrefix s [] = True"
| "HasPrefix [] (p # ps) = False"
| "HasPrefix (c # s) (p # ps) = (c = p \<and> HasPrefix s ps)"

lemma HasPrefix_iff: "HasPrefix s p \<longleftrightarrow> (\<exists>r. s = p @ r)"
  by (induction s p rule: HasPrefix.induct) auto

lemma HasPrefix_append [simp]: "HasPrefix (p @ s) p"
  by (simp add: HasPrefix_iff)

lemma space_encodings_code [code]:
  "space_encodings =
     [[CHR 0x09], [CHR 0x0A], [CHR 0x0B], [CHR 0x0C], [CHR 0x0D], [CHR 0x20], [CHR 0xC2, CHR 0x85], [CHR 0xC2, CHR 0xA0],
      [CHR 0xE1, CHR 0x9A, CHR 0x80], [CHR 0xE2, CHR 0x80, CHR 0x80], [CHR 0xE2, CHR 0x80, CHR 0x81],
      [CHR 0xE2, CHR 0x80, CHR 0x82], [CHR 0xE2, CHR 0x80, CHR 0x83], [CHR 0xE2, CHR 0x80, CHR 0x84],
      [CHR 0xE2, CHR 0x80, CHR 0x85], [CHR 0xE2, CHR 0x80, CHR 0x86], [CHR 0xE2, CHR 0x80, CHR 0x87],
      [CHR 0xE2, CHR 0x80, CHR 0x88], [CHR 0xE2, CHR 0x80, CHR 0x89], [CHR 0xE2, CHR 0x80, CHR 0x8A],
      [CHR 0xE2, CHR 0x80, CHR 0xA8], [CHR 0xE2, CHR 0x80, CHR 0xA9], [CHR 0xE2, CHR 0x80, CHR 0xAF],
      [CHR 0xE2, CHR 0x81, CHR 0x9F], [CHR 0xE3, CHR 0x80, CHR 0x80]]"
  by (simp add: space_encodings_def ord_eq_iff ord_byte)

lemma space_encodings_nonempty: "w \<in> set space_encodings \<Longrightarrow> w \<noteq> []"
  unfolding space_encodings_def by auto

function trim_prefixes :: "string list \<Rightarrow> string \<Rightarrow> string" where
  "trim_prefixes ws s =
     (case find (\<lambda>w. w \<noteq> [] \<and> HasPrefix s w) ws of
        None \<Rightarrow> s
      | Some w \<Rightarrow> trim_prefixes ws (drop (length w) s))"
  by pat_completeness auto
termination
  by (relation "measure (\<lambda>(ws, s). length s)")
    (auto simp: find_Some_iff HasPrefix_iff)

declare trim_prefixes.simps [simp del]

definition TrimSpace :: "string \<Rightarrow> string" where
  "TrimSpace s =
     rev (trim_prefixes (map rev space_encodings) (rev (trim_prefixes space_encodings s)))"

lemma trim_prefixes_Nil [simp]: "trim_prefixes ws [] = []"
proof -
  have "find (\<lambda>w. w \<noteq> [] \<and> HasPrefix [] w) ws = None"
    by (auto simp: find_None_iff HasPrefix_iff)
  then show ?thesis by (subst trim_prefixes.simps) simp
qed

lemma TrimSpace_Nil [simp]: "TrimSpace [] = []"
  by (simp add: TrimSpace_def)

lemma length_trim_prefixes: "length (trim_prefixes ws s) \<le> length s"
proof (induction ws s rule: trim_prefixes.induct)
  case (1 ws s)
  show ?case
  proof (cases "find (\<lambda>w. w \<noteq> [] \<and> HasPrefix s w) ws")
    case None
    then show ?thesis by (subst trim_prefixes.simps) simp
  next
    case (Some w)
    with 1 have "length (trim_prefixes ws (drop (length w) s)) \<le> length (drop (length w) s)"
      by simp
    also have "\<dots> \<le> length s" by simp
    finally show ?thesis using Some by (subst trim_prefixes.simps) simp
  qed
qed

lemma length_TrimSpace: "length (TrimSpace s) \<le> length s"
  unfolding TrimSpace_def length_rev
  by (metis length_rev length_trim_prefixes order_trans)

lemma trim_prefixes_no_more:
  "w \<in> set ws \<Longrightarrow> w \<noteq> [] \<Longrightarrow> \<not> HasPrefix (trim_prefixes ws s) w"
proof (induction ws s rule: trim_prefixes.induct)
  case (1 ws s)
  show ?case
  proof (cases "find (\<lambda>w. w \<noteq> [] \<and> HasPrefix s w) ws")
    case None
    then have "trim_prefixes ws s = s" by (subst trim_prefixes.simps) simp
    with None 1(2,3) show ?thesis by (auto simp: find_None_iff)
  next
    case (Some v)
    with 1 show ?thesis by (subst trim_prefixes.simps) simp
  qed
qed

lemma trim_prefixes_id:
  "(\<And>w. w \<in> set ws \<Longrightarrow> w \<noteq> [] \<Longrightarrow> \<not> HasPrefix s w) \<Longrightarrow> trim_prefixes ws s = s"
  by (subst trim_prefixes.simps) (auto simp: find_None_iff split: option.splits dest: find_Some_iff [THEN iffD1])

definition HasSuffix :: "string \<Rightarrow> string \<Rightarrow> bool" where
  "HasSuffix s p = HasPrefix (rev s) (rev p)"

definition TrimPrefix :: "string \<Rightarrow> string \<Rightarrow> string" where
  "TrimPrefix s p = (if HasPrefix s p then drop (length p) s else s)"

fun Contains :: "string \<Rightarrow> string \<Rightarrow> bool" where
  "Contains [] p = (p = [])"
| "Contains (c # s) p = (HasPrefix (c # s) p \<or> Contains s p)"

lemma Contains_iff: "Contains s p \<longleftrightarrow> (\<exists>a b. s = a @ p @ b)"
proof (induction s)
  case Nil
  show ?case by auto
next
  case (Cons c s)
  have "(\<exists>a b. c # s = a @ p @ b) \<longleftrightarrow> (\<exists>b. c # s = p @ b) \<or> (\<exists>a b. s = a @ p @ b)"
    by (metis append_Cons append_Nil append_eq_Cons_conv)
  with Cons show ?case by (auto simp: HasPrefix_iff)
qed

text \<open>\<^verbatim>\<open>strings.Join\<close> and \<^verbatim>\<open>strings.Split\<close> on a one-byte separator.\<close>

fun Join :: "string list \<Rightarrow> string \<Rightarrow> string" where
  "Join [] sep = []"
| "Join [x] sep = x"
| "Join (x # y # xs) sep = x @ sep @ Join (y # xs) sep"

fun split_acc :: "char \<Rightarrow> string \<Rightarrow> string \<Rightarrow> string list" where
  "split_acc sep acc [] = [rev acc]"
| "split_acc sep acc (c # s) =
     (if c = sep then rev acc # split_acc sep [] s else split_acc sep (c # acc) s)"

definition Split :: "string \<Rightarrow> char \<Rightarrow> string list" where
  "Split s sep = split_acc sep [] s"

lemma split_acc_nonempty [simp]: "split_acc sep acc s \<noteq> []"
  by (induction sep acc s rule: split_acc.induct) auto

lemma Split_nonempty [simp]: "Split s sep \<noteq> []"
  by (simp add: Split_def)

text \<open>\<^verbatim>\<open>strings.ToUpper\<close> and \<^verbatim>\<open>strings.ToLower\<close> on the ASCII letters.\<close>

definition lower_char :: "char \<Rightarrow> char" where
  "lower_char c = (if 65 \<le> ord c \<and> ord c \<le> 90 then byte (ord c + 32) else c)"

definition ToLower :: "string \<Rightarrow> string" where
  "ToLower s = map lower_char s"

section \<open>The packages strconv, encoding/hex and sort\<close>

function int_digits :: "int \<Rightarrow> nat list" where
  "int_digits c = (if c < 10 then [nat c] else int_digits (c div 10) @ [nat (c mod 10)])"
  by pat_completeness auto
termination
  by (relation "measure nat") auto

declare int_digits.simps [simp del]

definition show_digits :: "nat list \<Rightarrow> string" where
  "show_digits ds = map (\<lambda>d. byte (48 + d)) ds"

definition show_int :: "int \<Rightarrow> string" where
  "show_int i = (if i < 0 then ''-'' else []) @ show_digits (int_digits \<bar>i\<bar>)"

abbreviation show_nat :: "nat \<Rightarrow> string" where
  "show_nat n \<equiv> show_int (int n)"

definition hex_digit :: "nat \<Rightarrow> char" where
  "hex_digit n = (if n < 10 then byte (48 + n) else byte (87 + n))"

definition hex_encode :: "string \<Rightarrow> string" where
  "hex_encode s = concat (map (\<lambda>c. [hex_digit (ord c div 16), hex_digit (ord c mod 16)]) s)"

lemma length_hex_encode [simp]: "length (hex_encode s) = 2 * length s"
  by (induction s) (simp_all add: hex_encode_def)

lemma hex_digit_inj: "m < 16 \<Longrightarrow> n < 16 \<Longrightarrow> hex_digit m = hex_digit n \<Longrightarrow> m = n"
  by (auto simp: hex_digit_def byte_eq_iff split: if_splits)

lemma hex_encode_inj: "hex_encode s = hex_encode t \<Longrightarrow> s = t"
proof (induction s arbitrary: t)
  case Nil
  then show ?case by (cases t) (auto simp: hex_encode_def)
next
  case (Cons c s)
  then obtain d u where t: "t = d # u" by (cases t) (auto simp: hex_encode_def)
  have bound: "ord c div 16 < 16" "ord d div 16 < 16"
    using ord_less [of c] ord_less [of d] by linarith+
  from Cons.prems t have eqs: "hex_digit (ord c div 16) = hex_digit (ord d div 16)"
    "hex_digit (ord c mod 16) = hex_digit (ord d mod 16)" and rest: "hex_encode s = hex_encode u"
    by (auto simp: hex_encode_def)
  have "ord c div 16 = ord d div 16" by (rule hex_digit_inj) (use eqs bound in auto)
  moreover have "ord c mod 16 = ord d mod 16" by (rule hex_digit_inj) (use eqs in auto)
  ultimately have "ord c = ord d" by (metis div_mult_mod_eq)
  with Cons.IH [OF rest] t show ?case by simp
qed

text \<open>\<^verbatim>\<open>sort.Strings\<close>: the bytewise order of the model's strings is Go's.\<close>

definition SortStrings :: "string list \<Rightarrow> string list" where
  "SortStrings xs = sort xs"

lemma set_SortStrings [simp]: "set (SortStrings xs) = set xs"
  by (simp add: SortStrings_def)

lemma sorted_SortStrings [simp]: "sorted (SortStrings xs)"
  by (simp add: SortStrings_def)

lemma distinct_SortStrings [simp]: "distinct (SortStrings xs) = distinct xs"
  by (simp add: SortStrings_def)

section \<open>Sorting with a comparison function\<close>

text \<open>
  \<^verbatim>\<open>sort.Slice\<close> and \<^verbatim>\<open>slices.SortFunc\<close> take a \<open>less\<close> function. The model sorts by insertion and
  keeps the order of elements that compare equal; when \<open>less\<close> compares the values of a key function
  the result is the library's \<open>sort_key\<close>.
\<close>

fun insort_by :: "('a \<Rightarrow> 'a \<Rightarrow> bool) \<Rightarrow> 'a \<Rightarrow> 'a list \<Rightarrow> 'a list" where
  "insort_by lt x [] = [x]"
| "insort_by lt x (y # ys) = (if lt y x then y # insort_by lt x ys else x # y # ys)"

definition sort_by :: "('a \<Rightarrow> 'a \<Rightarrow> bool) \<Rightarrow> 'a list \<Rightarrow> 'a list" where
  "sort_by lt xs = foldr (insort_by lt) xs []"

lemma set_insort_by [simp]: "set (insort_by lt x ys) = insert x (set ys)"
  by (induction ys) auto

lemma length_insort_by [simp]: "length (insort_by lt x ys) = Suc (length ys)"
  by (induction ys) auto

lemma set_sort_by [simp]: "set (sort_by lt xs) = set xs"
  by (induction xs) (simp_all add: sort_by_def)

lemma length_sort_by [simp]: "length (sort_by lt xs) = length xs"
  by (induction xs) (simp_all add: sort_by_def)

lemma sort_by_key:
  fixes f :: "'a \<Rightarrow> 'b::linorder"
  assumes "\<And>x y. lt x y \<longleftrightarrow> f x < f y"
  shows "sort_by lt xs = sort_key f xs"
proof -
  have ins: "insort_by lt x ys = insort_key f x ys" for x ys
    by (induction ys) (auto simp: assms)
  show ?thesis by (induction xs) (simp_all add: sort_by_def ins)
qed

lemma sort_key_cong_set:
  fixes f :: "'a \<Rightarrow> 'b::linorder"
  assumes "set xs = set ys" "distinct (map f xs)" "distinct (map f ys)"
  shows "sort_key f xs = sort_key f ys"
proof -
  have "map f (sort_key f xs) = map f (sort_key f ys)"
    using assms by (intro sorted_distinct_set_unique) (simp_all add: distinct_map)
  moreover have "inj_on f (set (sort_key f xs) \<union> set (sort_key f ys))"
    using assms by (simp add: distinct_map)
  ultimately show ?thesis by (simp add: inj_on_map_eq_map)
qed

lemma distinct_map_sort_key [simp]: "distinct (map g (sort_key f xs)) = distinct (map g xs)"
  by (simp add: distinct_map)

lemma map_of_sort_key: "distinct (map fst m) \<Longrightarrow> map_of (sort_key f m) = map_of m"
  by (subst map_of_inject_set) simp_all

lemma map_sort_key:
  assumes "\<And>x. x \<in> set xs \<Longrightarrow> g (h x) = f x"
  shows "map h (sort_key f xs) = sort_key g (map h xs)"
proof -
  have ins: "map h (insort_key f x ys) = insort_key g (h x) (map h ys)"
    if "g (h x) = f x" "\<And>y. y \<in> set ys \<Longrightarrow> g (h y) = f y" for x ys
    using that by (induction ys) auto
  show ?thesis using assms
  proof (induction xs)
    case (Cons a xs)
    then show ?case using ins [of a "sort_key f xs"] by simp
  qed simp
qed

section \<open>Digits\<close>

lemma int_digits_nonempty [simp]: "int_digits n \<noteq> []"
  by (subst int_digits.simps) simp

lemma int_digits_small: "0 \<le> n \<Longrightarrow> d \<in> set (int_digits n) \<Longrightarrow> d < 10"
proof (induction n rule: int_digits.induct)
  case (1 n)
  show ?case
  proof (cases "n < 10")
    case True
    with 1 show ?thesis by (simp add: int_digits.simps [of n])
  next
    case False
    with 1 show ?thesis by (auto simp: int_digits.simps [of n] nat_less_iff)
  qed
qed

definition digits_value :: "nat list \<Rightarrow> int" where
  "digits_value ds = foldl (\<lambda>n d. 10 * n + int d) 0 ds"

lemma digits_value_Nil [simp]: "digits_value [] = 0"
  by (simp add: digits_value_def)

lemma digits_value_snoc [simp]: "digits_value (ds @ [d]) = 10 * digits_value ds + int d"
  by (simp add: digits_value_def)

lemma digits_value_append: "digits_value (ds @ es) = digits_value ds * 10 ^ length es + digits_value es"
  by (induction es rule: rev_induct) (simp_all add: algebra_simps flip: append_assoc)

lemma digits_value_int_digits [simp]: "0 \<le> n \<Longrightarrow> digits_value (int_digits n) = n"
proof (induction n rule: int_digits.induct)
  case (1 n)
  show ?case
  proof (cases "n < 10")
    case True
    with 1 show ?thesis by (simp add: int_digits.simps [of n] digits_value_def)
  next
    case False
    with 1 show ?thesis by (simp add: int_digits.simps [of n])
  qed
qed

section \<open>Go maps\<close>

text \<open>
  A Go map is an association list; its order stands for the iteration order, which Go leaves open.
  Lookup takes the first entry, and a store replaces the entry in place or appends a new one.
\<close>

fun map_store :: "('k \<times> 'v) list \<Rightarrow> 'k \<Rightarrow> 'v \<Rightarrow> ('k \<times> 'v) list" where
  "map_store [] k v = [(k, v)]"
| "map_store ((k', v') # m) k v = (if k' = k then (k, v) # m else (k', v') # map_store m k v)"

lemma map_of_map_store [simp]: "map_of (map_store m k v) = (map_of m)(k \<mapsto> v)"
  by (induction m k v rule: map_store.induct) auto

lemma keys_map_store: "set (map fst (map_store m k v)) = insert k (set (map fst m))"
  by (induction m k v rule: map_store.induct) auto

lemma distinct_map_store: "distinct (map fst m) \<Longrightarrow> distinct (map fst (map_store m k v))"
proof (induction m k v rule: map_store.induct)
  case (2 k' v' m k v)
  then show ?case using keys_map_store [of m k v] by auto
qed simp

lemma map_store_new: "k \<notin> fst ` set m \<Longrightarrow> map_store m k v = m @ [(k, v)]"
  by (induction m k v rule: map_store.induct) auto

lemma list_all2_mono_set:
  assumes "list_all2 P xs ys" "\<And>x y. x \<in> set xs \<Longrightarrow> P x y \<Longrightarrow> Q x y"
  shows "list_all2 Q xs ys"
  using assms by (induction rule: list_all2_induct) auto

section \<open>Deduplication\<close>

text \<open>The loop shared by the three \<^verbatim>\<open>appendUniqueStrings\<close> of the program: keep a value not seen yet.\<close>

fun append_unique :: "'a list \<Rightarrow> 'a list \<Rightarrow> 'a list" where
  "append_unique dst [] = dst"
| "append_unique dst (v # vs) = append_unique (if v \<in> set dst then dst else dst @ [v]) vs"

lemma set_append_unique [simp]: "set (append_unique dst vs) = set dst \<union> set vs"
  by (induction dst vs rule: append_unique.induct) auto

lemma distinct_append_unique [simp]: "distinct dst \<Longrightarrow> distinct (append_unique dst vs)"
  by (induction dst vs rule: append_unique.induct) auto

lemma append_unique_prefix: "\<exists>ys. append_unique dst vs = dst @ ys"
  by (induction dst vs rule: append_unique.induct) (auto split: if_splits)

end
