(* ===== verification/Float64.thy ===== *)
theory Float64
  imports Go_Prelude
begin

text \<open>
  Go's \<^verbatim>\<open>float64\<close>: finite values are rational numbers, and every arithmetic operation rounds its
  exact result to the nearest double, ties to even (IEEE 754 binary64, gradual underflow included).
  The scores of the program stay far below the overflow threshold, so only the conversion of a decimal
  literal reports overflow. The second half is \<^verbatim>\<open>strconv.FormatFloat\<close> with precision \<^verbatim>\<open>-1\<close>: the
  shortest decimal that reads back as the same double, in the formats \<^verbatim>\<open>f\<close> and \<^verbatim>\<open>e\<close>.
\<close>

section \<open>Rounding\<close>

function ilog2 :: "int \<Rightarrow> int" where
  "ilog2 n = (if n < 2 then 0 else 1 + ilog2 (n div 2))"
  by pat_completeness auto
termination
  by (relation "measure nat") auto

declare ilog2.simps [simp del]

definition pow2 :: "int \<Rightarrow> rat" where
  "pow2 e = (if 0 \<le> e then 2 ^ nat e else 1 / 2 ^ nat (- e))"

definition fexp :: "rat \<Rightarrow> int" where
  \<comment> \<open>the binary exponent of a positive number: \<open>2 ^ fexp x \<le> x < 2 ^ (fexp x + 1)\<close>\<close>
  "fexp x =
     (if 1 \<le> x then ilog2 \<lfloor>x\<rfloor> else - (1 + ilog2 (\<lceil>1 / x\<rceil> - 1)))"

definition round_even :: "rat \<Rightarrow> int" where
  "round_even x =
     (let n = \<lfloor>x\<rfloor>; d = x - of_int n
      in if d < 1 / 2 then n else if 1 / 2 < d then n + 1 else if even n then n else n + 1)"

definition ulp :: "rat \<Rightarrow> rat" where
  "ulp x = pow2 (max (fexp x) (- 1022) - 52)"

definition fl_pos :: "rat \<Rightarrow> rat" where
  "fl_pos x = of_int (round_even (x / ulp x)) * ulp x"

definition fl :: "rat \<Rightarrow> rat" where
  "fl x = (if x = 0 then 0 else if 0 < x then fl_pos x else - fl_pos (- x))"

abbreviation fadd :: "rat \<Rightarrow> rat \<Rightarrow> rat" where "fadd a b \<equiv> fl (a + b)"
abbreviation fmul :: "rat \<Rightarrow> rat \<Rightarrow> rat" where "fmul a b \<equiv> fl (a * b)"
abbreviation fdiv :: "rat \<Rightarrow> rat \<Rightarrow> rat" where "fdiv a b \<equiv> fl (a / b)"

subsection \<open>The binary exponent\<close>

lemma pow2_pos [simp]: "0 < pow2 e"
  by (simp add: pow2_def)

lemma pow2_neq_0 [simp]: "pow2 e \<noteq> 0"
  using pow2_pos [of e] by linarith

lemma pow2_powi: "pow2 e = 2 powi e"
  by (simp add: pow2_def power_int_def inverse_eq_divide power_one_over)

lemma pow2_add: "pow2 (a + b) = pow2 a * pow2 b"
  by (simp add: pow2_powi power_int_add)

lemma pow2_mono: "a \<le> b \<Longrightarrow> pow2 a \<le> pow2 b"
  by (simp add: pow2_powi power_int_increasing)

lemma pow2_of_nat: "pow2 (int n) = 2 ^ n"
  by (simp add: pow2_def)

lemma pow2_neg_of_nat: "pow2 (- int n) = 1 / 2 ^ n"
  by (simp add: pow2_powi power_int_minus_divide)

text \<open>Powers of two by repeated squaring, for evaluation.\<close>

function ipow2 :: "int \<Rightarrow> int" where
  "ipow2 n =
     (if n \<le> 0 then 1
      else let h = ipow2 (n div 2) in if even n then h * h else 2 * (h * h))"
  by pat_completeness auto
termination
  by (relation "measure nat") auto

declare ipow2.simps [simp del]

lemma ipow2_power: "0 \<le> n \<Longrightarrow> ipow2 n = 2 ^ nat n"
proof (induction n rule: ipow2.induct)
  case (1 n)
  show ?case
  proof (cases "n = 0")
    case False
    with 1 have h: "ipow2 (n div 2) = 2 ^ nat (n div 2)" by simp
    have "nat n = (if even n then nat (n div 2) + nat (n div 2) else Suc (nat (n div 2) + nat (n div 2)))"
      using 1(2) by (auto simp: nat_eq_iff elim!: oddE evenE)
    with h False 1(2) show ?thesis by (subst ipow2.simps) (simp add: Let_def power_add)
  qed (simp add: ipow2.simps)
qed

lemma pow2_code [code]:
  "pow2 e = (if 0 \<le> e then of_int (ipow2 e) else 1 / of_int (ipow2 (- e)))"
  by (simp add: pow2_def ipow2_power)

lemma ilog2_bounds:
  "0 < n \<Longrightarrow> 0 \<le> ilog2 n \<and> pow2 (ilog2 n) \<le> of_int n \<and> of_int n + 1 \<le> pow2 (ilog2 n + 1)"
proof (induction n rule: ilog2.induct)
  case (1 n)
  show ?case
  proof (cases "n < 2")
    case True
    with 1 have "n = 1" by simp
    then show ?thesis by (subst (1 2 3) ilog2.simps) (simp add: pow2_def)
  next
    case False
    define m where "m = n div 2"
    have m: "0 < m" "2 * m \<le> n" "n \<le> 2 * m + 1" using False by (simp_all add: m_def)
    from False have e: "ilog2 n = 1 + ilog2 m" by (subst ilog2.simps) (simp add: m_def)
    have IH: "0 \<le> ilog2 m" "pow2 (ilog2 m) \<le> of_int m" "of_int m + 1 \<le> pow2 (ilog2 m + 1)"
      using 1(1) False m(1) by (auto simp: m_def)
    have "2 * (of_int m :: rat) \<le> of_int n" "(of_int n :: rat) \<le> 2 * of_int m + 1"
      using m(2,3) by linarith+
    with IH show ?thesis
      using pow2_add [of 1 "ilog2 m"] pow2_add [of 1 "ilog2 m + 1"]
      unfolding e by (simp add: pow2_def [of 1] add.assoc)
  qed
qed

lemma fexp_ge_1:
  assumes "1 \<le> x"
  shows "pow2 (fexp x) \<le> x \<and> x < pow2 (fexp x + 1)"
proof -
  have "0 < \<lfloor>x\<rfloor>" using assms by simp
  from ilog2_bounds [OF this] have "pow2 (fexp x) \<le> of_int \<lfloor>x\<rfloor>" "of_int \<lfloor>x\<rfloor> + 1 \<le> pow2 (fexp x + 1)"
    using assms by (simp_all add: fexp_def)
  then show ?thesis by linarith
qed

lemma fexp_less_1:
  assumes "0 < x" "x < 1"
  shows "pow2 (fexp x) \<le> x \<and> x < pow2 (fexp x + 1)"
proof -
  define n where "n = \<lceil>1 / x\<rceil> - 1"
  have "1 < 1 / x" using assms by simp
  then have n: "0 < n" unfolding n_def by linarith
  have lo: "of_int n < 1 / x" and hi: "1 / x \<le> of_int n + 1" unfolding n_def by linarith+
  define k where "k = ilog2 n"
  have e: "fexp x = - (k + 1)" using assms unfolding fexp_def n_def k_def by simp
  have inv: "pow2 (- j) = 1 / pow2 j" for j by (simp add: pow2_powi power_int_minus_divide)
  have "pow2 k < 1 / x" "1 / x \<le> pow2 (k + 1)"
    using ilog2_bounds [OF n] lo hi unfolding k_def by linarith+
  then have "x < 1 / pow2 k" "1 / pow2 (k + 1) \<le> x" using assms by (simp_all add: field_simps)
  then show ?thesis unfolding e using inv [of "k + 1"] inv [of k] by simp
qed

lemma fexp_bounds: "0 < x \<Longrightarrow> pow2 (fexp x) \<le> x \<and> x < pow2 (fexp x + 1)"
  using fexp_ge_1 fexp_less_1 by (cases "1 \<le> x") auto

lemma fexp_mono:
  assumes "0 < x" "x \<le> y"
  shows "fexp x \<le> fexp y"
proof (rule ccontr)
  assume "\<not> fexp x \<le> fexp y"
  then have "pow2 (fexp y + 1) \<le> pow2 (fexp x)" by (intro pow2_mono) simp
  moreover have "pow2 (fexp x) \<le> x" "y < pow2 (fexp y + 1)"
    using assms fexp_bounds [of x] fexp_bounds [of y] by auto
  ultimately show False using assms by linarith
qed

subsection \<open>Rounding to an integer\<close>

lemma round_even_bounds: "\<bar>of_int (round_even x) - x\<bar> \<le> 1 / 2"
proof -
  have "of_int \<lfloor>x\<rfloor> \<le> x" "x < of_int \<lfloor>x\<rfloor> + 1" by linarith+
  then show ?thesis unfolding round_even_def Let_def abs_le_iff by (simp split: if_split) linarith
qed

lemma round_even_of_int [simp]: "round_even (of_int n) = n"
  by (simp add: round_even_def)

lemma round_even_mono: "x \<le> y \<Longrightarrow> round_even x \<le> round_even y"
proof -
  assume le: "x \<le> y"
  have f: "\<lfloor>x\<rfloor> \<le> \<lfloor>y\<rfloor>" using le by (rule floor_mono)
  show ?thesis
  proof (cases "\<lfloor>x\<rfloor> = \<lfloor>y\<rfloor>")
    case True
    with le show ?thesis unfolding round_even_def Let_def by (auto split: if_splits)
  next
    case False
    with f have "\<lfloor>x\<rfloor> + 1 \<le> \<lfloor>y\<rfloor>" by simp
    then show ?thesis unfolding round_even_def Let_def by (auto split: if_splits)
  qed
qed

lemma round_even_le_of_int: "x \<le> of_int n \<Longrightarrow> round_even x \<le> n"
  using round_even_mono [of x "of_int n"] by simp

lemma round_even_ge_of_int: "of_int n \<le> x \<Longrightarrow> n \<le> round_even x"
  using round_even_mono [of "of_int n" x] by simp

subsection \<open>Rounding to a double\<close>

lemma ulp_pos [simp]: "0 < ulp x"
  by (simp add: ulp_def)

lemma fl_pos_nonneg: "0 < x \<Longrightarrow> 0 \<le> fl_pos x"
proof -
  assume x: "0 < x"
  have "0 \<le> round_even (x / ulp x)"
    by (rule round_even_ge_of_int) (use x ulp_pos [of x] in \<open>simp add: less_imp_le\<close>)
  then show ?thesis by (simp add: fl_pos_def less_imp_le)
qed

lemma pow2_split_52: "pow2 (e + 1) = of_int (2 ^ 53) * pow2 (e - 52)"
  using pow2_add [of 53 "e - 52"] by (simp add: pow2_def [of 53] algebra_simps)

lemma pow2_split_52': "pow2 e = of_int (2 ^ 52) * pow2 (e - 52)"
  using pow2_add [of 52 "e - 52"] by (simp add: pow2_def [of 52])

lemma fl_pos_le_binade:
  assumes "0 < x" "fexp x \<le> e" "- 1022 \<le> e"
  shows "fl_pos x \<le> pow2 (e + 1)"
proof -
  define m where "m = max (fexp x) (- 1022)"
  have u: "ulp x = pow2 (m - 52)" by (simp add: ulp_def m_def)
  have "x \<le> pow2 (m + 1)"
    using fexp_bounds [OF assms(1)] pow2_mono [of "fexp x + 1" "m + 1"] by (simp add: m_def)
  then have "x / ulp x \<le> of_int (2 ^ 53)"
    using pow2_split_52 [of m] by (simp add: u pos_divide_le_eq)
  then have "round_even (x / ulp x) \<le> 2 ^ 53" by (rule round_even_le_of_int)
  then have "of_int (round_even (x / ulp x)) \<le> (of_int (2 ^ 53) :: rat)"
    by (simp only: of_int_le_iff)
  then have "fl_pos x \<le> of_int (2 ^ 53) * ulp x"
    unfolding fl_pos_def by (intro mult_right_mono) (auto simp: less_imp_le)
  also have "\<dots> = pow2 (m + 1)" by (simp add: u pow2_split_52)
  also have "\<dots> \<le> pow2 (e + 1)" using assms by (intro pow2_mono) (simp add: m_def)
  finally show ?thesis .
qed

lemma fl_pos_ge_binade:
  assumes "0 < x" "- 1022 \<le> fexp x"
  shows "pow2 (fexp x) \<le> fl_pos x"
proof -
  have u: "ulp x = pow2 (fexp x - 52)" using assms by (simp add: ulp_def)
  have "of_int (2 ^ 52) \<le> x / ulp x"
    using fexp_bounds [OF assms(1)] pow2_split_52' [of "fexp x"] by (simp add: u pos_le_divide_eq)
  then have "2 ^ 52 \<le> round_even (x / ulp x)" by (rule round_even_ge_of_int)
  then have "(of_int (2 ^ 52) :: rat) \<le> of_int (round_even (x / ulp x))"
    by (simp only: of_int_le_iff)
  then have "of_int (2 ^ 52) * ulp x \<le> fl_pos x"
    unfolding fl_pos_def by (intro mult_right_mono) (auto simp: less_imp_le)
  then show ?thesis by (simp add: u pow2_split_52' [of "fexp x"])
qed

lemma fl_pos_mono:
  assumes "0 < x" "x \<le> y"
  shows "fl_pos x \<le> fl_pos y"
proof (cases "ulp x = ulp y")
  case True
  then have "round_even (x / ulp x) \<le> round_even (y / ulp y)"
    using assms ulp_pos [of y] by (intro round_even_mono) (simp add: divide_right_mono less_imp_le)
  with True show ?thesis
    unfolding fl_pos_def by (simp add: mult_right_mono less_imp_le)
next
  case False
  then have max_ulp: "max (fexp x) (- 1022) \<noteq> max (fexp y) (- 1022)" by (auto simp: ulp_def)
  then have lt: "max (fexp x) (- 1022) < fexp y" and y: "- 1022 \<le> fexp y"
    using fexp_mono [OF assms] max_ulp by auto
  have "fl_pos x \<le> pow2 (max (fexp x) (- 1022) + 1)"
    by (rule fl_pos_le_binade) (use assms in auto)
  also have "\<dots> \<le> pow2 (fexp y)" using lt by (intro pow2_mono) linarith
  also have "\<dots> \<le> fl_pos y" by (rule fl_pos_ge_binade) (use assms y in auto)
  finally show ?thesis .
qed

lemma fl_0 [simp]: "fl 0 = 0"
  by (simp add: fl_def)

lemma fl_minus: "fl (- x) = - fl x"
  by (auto simp: fl_def)

theorem fl_mono: "x \<le> y \<Longrightarrow> fl x \<le> fl y"
proof -
  assume le: "x \<le> y"
  consider "0 < x" | "x \<le> 0" "0 \<le> y" | "y < 0" using le by linarith
  then show ?thesis
  proof cases
    case 1
    with le fl_pos_mono [of x y] show ?thesis by (simp add: fl_def)
  next
    case 2
    then show ?thesis
      using fl_pos_nonneg [of y] fl_pos_nonneg [of "- x"] by (auto simp: fl_def)
  next
    case 3
    with le fl_pos_mono [of "- y" "- x"] show ?thesis by (simp add: fl_def)
  qed
qed

lemma fl_nonneg: "0 \<le> x \<Longrightarrow> 0 \<le> fl x"
  using fl_mono [of 0 x] by simp

text \<open>Doubles are the fixed points of rounding: an integer multiple of a power of two, 53 bits long.\<close>

lemma fl_pos_exact:
  assumes "0 < x" "x = of_int m * ulp x"
  shows "fl_pos x = x"
proof -
  have "x / ulp x = of_int m" using assms(2) ulp_pos [of x] by (metis less_irrefl nonzero_mult_div_cancel_right)
  then show ?thesis using assms(2) by (simp add: fl_pos_def)
qed

lemma fl_of_int:
  assumes "0 \<le> n" "n \<le> 2 ^ 53"
  shows "fl (of_int n) = of_int n"
proof (cases "n = 0")
  case True
  then show ?thesis by simp
next
  case False
  define x where "x = (of_int n :: rat)"
  have x: "1 \<le> x" using False assms(1) by (simp add: x_def)
  define k where "k = ilog2 n"
  have fe: "fexp x = k" using x by (simp add: fexp_def x_def k_def)
  have k: "0 \<le> k" "pow2 k \<le> of_int n" using ilog2_bounds [of n] False assms(1) by (auto simp: k_def)
  show ?thesis
  proof (cases "k \<le> 52")
    case True
    define j where "j = nat (52 - k)"
    have "ulp x = pow2 (- int j)" using True k by (simp add: ulp_def fe j_def)
    then have "x = of_int (n * 2 ^ j) * ulp x" by (simp add: pow2_neg_of_nat x_def)
    then have "fl_pos x = x" using x by (intro fl_pos_exact [where m = "n * 2 ^ j"]) simp_all
    with x show ?thesis by (simp add: fl_def x_def)
  next
    case False
    then have "pow2 53 \<le> pow2 k" by (intro pow2_mono) simp
    with k have "(of_int (2 ^ 53) :: rat) \<le> of_int n" by (simp add: pow2_def [of 53])
    then have n: "n = 2 ^ 53" using assms(2) by (simp only: of_int_le_iff)
    have "k = 53"
    proof (rule ccontr)
      assume "k \<noteq> 53"
      with False have "pow2 54 \<le> pow2 k" by (intro pow2_mono) simp
      with k n show False by (simp add: pow2_def [of 54])
    qed
    then have "ulp x = 2" by (simp add: ulp_def fe pow2_def)
    then have "x = of_int (2 ^ 52) * ulp x" by (simp add: x_def n)
    then have "fl_pos x = x" using x by (intro fl_pos_exact [where m = "2 ^ 52"]) simp_all
    with x show ?thesis by (simp add: fl_def x_def)
  qed
qed

text \<open>Rounding is idempotent: its results are doubles.\<close>

lemma pow2_strict_mono: "a < b \<Longrightarrow> pow2 a < pow2 b"
  by (simp add: pow2_powi power_int_strict_increasing)

lemma fexp_unique:
  assumes "0 < x" "pow2 e \<le> x" "x < pow2 (e + 1)"
  shows "fexp x = e"
proof (rule ccontr)
  assume "fexp x \<noteq> e"
  then consider "fexp x + 1 \<le> e" | "e + 1 \<le> fexp x" by linarith
  then show False
    using fexp_bounds [OF assms(1)] assms(2,3) pow2_mono [of "fexp x + 1" e] pow2_mono [of "e + 1" "fexp x"]
    by cases linarith+
qed

lemma fl_pos_idem:
  assumes "0 < x" "0 < fl_pos x"
  shows "fl_pos (fl_pos x) = fl_pos x"
proof -
  define y where "y = fl_pos x"
  define m where "m = max (fexp x) (- 1022)"
  have u: "ulp x = pow2 (m - 52)" by (simp add: ulp_def m_def)
  have y: "y = of_int (round_even (x / ulp x)) * ulp x" by (simp add: y_def fl_pos_def)
  have pos: "0 < y" using assms(2) by (simp add: y_def)
  have le: "y \<le> pow2 (m + 1)" unfolding y_def by (rule fl_pos_le_binade) (use assms in \<open>auto simp: m_def\<close>)
  have "\<exists>n. y = of_int n * ulp y"
  proof (cases "y = pow2 (m + 1)")
    case True
    then have "fexp y = m + 1" using pos by (intro fexp_unique) (auto intro: pow2_strict_mono)
    then have "ulp y = pow2 (m + 1 - 52)" by (simp add: ulp_def m_def)
    with True pow2_split_52' [of "m + 1"] show ?thesis by (intro exI [of _ "2 ^ 52"]) simp
  next
    case False
    with le have lt: "y < pow2 (m + 1)" by simp
    have "max (fexp y) (- 1022) = m"
    proof (cases "- 1022 \<le> fexp x")
      case True
      then have "pow2 m \<le> y" using fl_pos_ge_binade [OF assms(1) True] by (simp add: m_def y_def max_def)
      with lt pos fexp_unique [of y m] True show ?thesis by (auto simp: m_def)
    next
      case False
      have "fexp y \<le> - 1022"
      proof (rule ccontr)
        assume "\<not> fexp y \<le> - 1022"
        then have "pow2 (m + 1) \<le> pow2 (fexp y)" using False by (intro pow2_mono) (simp add: m_def)
        with fexp_bounds [OF pos] lt show False by linarith
      qed
      with False show ?thesis by (simp add: m_def)
    qed
    then have "ulp y = ulp x" by (simp add: u ulp_def [of y])
    with y show ?thesis by metis
  qed
  then show ?thesis using pos fl_pos_exact unfolding y_def by blast
qed

lemma fl_idem [simp]: "fl (fl x) = fl x"
proof -
  have pos: "fl (fl_pos x) = fl_pos x" if "0 < x" for x
    using fl_pos_idem [OF that] fl_pos_nonneg [OF that] by (auto simp: fl_def)
  consider "x = 0" | "0 < x" | "x < 0" by linarith
  then show ?thesis
  proof cases
    case 3
    then have "fl x = - fl_pos (- x)" by (simp add: fl_def)
    with 3 pos [of "- x"] show ?thesis by (simp add: fl_minus)
  qed (simp_all add: pos fl_def [of x])
qed

lemma fl_of_nat: "n \<le> 2 ^ 53 \<Longrightarrow> fl (of_nat n) = of_nat n"
  using fl_of_int [of "int n"] by simp

lemma fl_1 [simp]: "fl 1 = 1"
  using fl_of_nat [of 1] by simp

lemma fl_unit: "0 \<le> x \<Longrightarrow> x \<le> 1 \<Longrightarrow> 0 \<le> fl x \<and> fl x \<le> 1"
  using fl_mono [of x 1] fl_nonneg by simp

section \<open>Values\<close>

text \<open>A \<^verbatim>\<open>float64\<close> held in an interface value: a sign and a magnitude, so that -0 is distinct from 0.\<close>

datatype float64 = Fin bool rat | Inf bool | NaN

fun fval :: "float64 \<Rightarrow> rat" where
  "fval (Fin neg m) = (if neg then - m else m)"
| "fval (Inf neg) = 0"
| "fval NaN = 0"

definition float_of_int :: "int \<Rightarrow> float64" where
  "float_of_int n = Fin (n < 0) (fl (of_int \<bar>n\<bar>))"

text \<open>A value of the type is a double: its magnitude is nonnegative and a fixed point of rounding.\<close>

fun is_double :: "float64 \<Rightarrow> bool" where
  "is_double (Fin neg m) = (0 \<le> m \<and> fl m = m \<and> m < 2 ^ 1024)"
| "is_double _ = True"

section \<open>Shortest decimal digits\<close>

function num_digits :: "int \<Rightarrow> int" where
  "num_digits n = (if n < 1 then 0 else 1 + num_digits (n div 10))"
  by pat_completeness auto
termination
  by (relation "measure nat") auto

declare num_digits.simps [simp del]

definition pow10 :: "int \<Rightarrow> rat" where
  "pow10 e = (if 0 \<le> e then 10 ^ nat e else 1 / 10 ^ nat (- e))"

definition decexp :: "rat \<Rightarrow> int" where
  \<comment> \<open>the position of the decimal point: \<open>10 ^ (decexp x - 1) \<le> x < 10 ^ decexp x\<close>\<close>
  "decexp x = (if 1 \<le> x then num_digits \<lfloor>x\<rfloor> else 1 - num_digits (\<lceil>1 / x\<rceil> - 1))"

fun shortest_from :: "nat \<Rightarrow> int \<Rightarrow> rat \<Rightarrow> int \<Rightarrow> int \<times> int" where
  \<comment> \<open>the nearest decimal with \<open>n\<close> digits that reads back as \<open>x\<close>, with its scale; at most 17 digits\<close>
  "shortest_from 0 n x k = (round_even (x * pow10 (17 - k)), k - 17)"
| "shortest_from (Suc fuel) n x k =
     (let s = x * pow10 (n - k); lo = \<lfloor>s\<rfloor>; hi = lo + 1; t = pow10 (k - n);
          okl = (fl (of_int lo * t) = x); oku = (fl (of_int hi * t) = x)
      in if okl \<and> (\<not> oku \<or> s - of_int lo \<le> 1 / 2) then (lo, k - n)
         else if oku then (hi, k - n)
         else shortest_from fuel (n + 1) x k)"

definition shortest :: "rat \<Rightarrow> int \<times> int" where
  "shortest x = shortest_from 16 1 x (decexp x)"

function strip_zeros :: "int \<Rightarrow> int \<Rightarrow> int \<times> int" where
  "strip_zeros c e = (if 0 < c \<and> c mod 10 = 0 then strip_zeros (c div 10) (e + 1) else (c, e))"
  by pat_completeness auto
termination
  by (relation "measure (\<lambda>(c, e). nat c)") auto

declare strip_zeros.simps [simp del]

definition decimal_digits :: "rat \<Rightarrow> nat list \<times> int" where
  \<comment> \<open>the digits of a magnitude and the position of its decimal point\<close>
  "decimal_digits m =
     (if m = 0 then ([], 0)
      else let (c, e) = (case shortest m of (c, e) \<Rightarrow> strip_zeros c e);
               ds = int_digits c
           in (ds, int (length ds) + e))"

section \<open>FormatFloat\<close>

definition fmtF :: "bool \<Rightarrow> nat list \<Rightarrow> int \<Rightarrow> string" where
  "fmtF neg ds dp =
     (let nd = int (length ds);
          ip = (if 0 < dp then show_digits (take (nat dp) ds @ replicate (nat (dp - nd)) 0) else ''0'');
          fp = (if dp < nd
                then ''.'' @ show_digits (replicate (nat (- dp)) 0 @ drop (nat dp) ds) else '''')
      in (if neg then ''-'' else '''') @ ip @ fp)"

definition fmtE_exponent :: "int \<Rightarrow> string" where
  "fmtE_exponent x =
     (let a = \<bar>x\<bar>
      in (if x < 0 then ''-'' else ''+'') @ (if a < 10 then ''0'' else '''') @
         show_digits (int_digits a))"

definition fmtE :: "bool \<Rightarrow> nat list \<Rightarrow> int \<Rightarrow> string" where
  "fmtE neg ds dp =
     (let first = (case ds of [] \<Rightarrow> 0 | d # _ \<Rightarrow> d);
          rest = (if 1 < length ds then ''.'' @ show_digits (tl ds) else '''')
      in (if neg then ''-'' else '''') @ show_digits [first] @ rest @ ''e'' @
         fmtE_exponent (if ds = [] then 0 else dp - 1))"

definition FormatFloat_f :: "bool \<Rightarrow> rat \<Rightarrow> string" where
  "FormatFloat_f neg m = (case decimal_digits m of (ds, dp) \<Rightarrow> fmtF neg ds dp)"

definition FormatFloat_e :: "bool \<Rightarrow> rat \<Rightarrow> string" where
  "FormatFloat_e neg m = (case decimal_digits m of (ds, dp) \<Rightarrow> fmtE neg ds dp)"

end
