(* ===== verification/Utf8.thy ===== *)
theory Utf8
  imports Go_Prelude
begin

text \<open>
  Runes: Go's \<^verbatim>\<open>unicode/utf8\<close> decoding (the loop \<^verbatim>\<open>for _, r := range s\<close>), where an invalid byte
  yields U+FFFD and advances by one, its encoder \<^verbatim>\<open>WriteRune\<close>, and \<^verbatim>\<open>unicode/utf16.Encode\<close>. The
  lemmas show that decoding inverts encoding on Unicode scalar values.
\<close>

type_synonym rune = nat

definition RuneError :: rune where
  "RuneError = 0xFFFD"

definition valid_rune :: "rune \<Rightarrow> bool" where
  "valid_rune r = (r < 0xD800 \<or> 0xE000 \<le> r \<and> r \<le> 0x10FFFF)"

definition cont :: "char \<Rightarrow> bool" where
  "cont c = (0x80 \<le> ord c \<and> ord c \<le> 0xBF)"

definition second_range :: "nat \<Rightarrow> nat \<times> nat" where
  \<comment> \<open>the range of the second byte after a given first byte\<close>
  "second_range b =
     (if b = 0xE0 then (0xA0, 0xBF) else if b = 0xED then (0x80, 0x9F)
      else if b = 0xF0 then (0x90, 0xBF) else if b = 0xF4 then (0x80, 0x8F) else (0x80, 0xBF))"

definition second_ok :: "nat \<Rightarrow> char \<Rightarrow> bool" where
  "second_ok b c = (case second_range b of (lo, hi) \<Rightarrow> lo \<le> ord c \<and> ord c \<le> hi)"

text \<open>The rune at the front of \<open>c # s\<close>, and how many bytes of \<open>s\<close> it takes beyond \<open>c\<close>.\<close>

definition DecodeRune :: "char \<Rightarrow> string \<Rightarrow> rune \<times> nat" where
  "DecodeRune c s =
     (let b = ord c in
      if b < 0x80 then (b, 0)
      else if 0xC2 \<le> b \<and> b \<le> 0xDF then
        (case s of c1 # _ \<Rightarrow> if second_ok b c1 then ((b - 0xC0) * 64 + (ord c1 - 0x80), 1) else (RuneError, 0)
         | _ \<Rightarrow> (RuneError, 0))
      else if 0xE0 \<le> b \<and> b \<le> 0xEF then
        (case s of c1 # c2 # _ \<Rightarrow>
           if second_ok b c1 \<and> cont c2
           then ((b - 0xE0) * 4096 + (ord c1 - 0x80) * 64 + (ord c2 - 0x80), 2) else (RuneError, 0)
         | _ \<Rightarrow> (RuneError, 0))
      else if 0xF0 \<le> b \<and> b \<le> 0xF4 then
        (case s of c1 # c2 # c3 # _ \<Rightarrow>
           if second_ok b c1 \<and> cont c2 \<and> cont c3
           then ((b - 0xF0) * 262144 + (ord c1 - 0x80) * 4096 + (ord c2 - 0x80) * 64 + (ord c3 - 0x80), 3)
           else (RuneError, 0)
         | _ \<Rightarrow> (RuneError, 0))
      else (RuneError, 0))"

function runes :: "string \<Rightarrow> rune list" where
  "runes [] = []"
| "runes (c # s) = (case DecodeRune c s of (r, k) \<Rightarrow> r # runes (drop k s))"
  by pat_completeness auto
termination
  by (relation "measure length") auto

definition EncodeRune :: "rune \<Rightarrow> string" where
  "EncodeRune r0 =
     (let r = (if valid_rune r0 then r0 else RuneError) in
      if r < 0x80 then [byte r]
      else if r < 0x800 then [byte (0xC0 + r div 64), byte (0x80 + r mod 64)]
      else if r < 0x10000 then
        [byte (0xE0 + r div 4096), byte (0x80 + r div 64 mod 64), byte (0x80 + r mod 64)]
      else
        [byte (0xF0 + r div 262144), byte (0x80 + r div 4096 mod 64), byte (0x80 + r div 64 mod 64),
         byte (0x80 + r mod 64)])"

definition encode_runes :: "rune list \<Rightarrow> string" where
  "encode_runes rs = concat (map EncodeRune rs)"

text \<open>What \<^verbatim>\<open>encoding/json\<close> does to a string on its way through: invalid bytes become U+FFFD.\<close>

definition coerce_utf8 :: "string \<Rightarrow> string" where
  "coerce_utf8 s = encode_runes (runes s)"

definition utf16_encode_rune :: "rune \<Rightarrow> nat list" where
  "utf16_encode_rune r =
     (if r < 0xD800 \<or> 0xE000 \<le> r \<and> r < 0x10000 then [r]
      else if 0x10000 \<le> r \<and> r \<le> 0x10FFFF
      then [0xD800 + (r - 0x10000) div 1024, 0xDC00 + (r - 0x10000) mod 1024]
      else [RuneError])"

definition utf16_encode :: "rune list \<Rightarrow> nat list" where
  "utf16_encode rs = concat (map utf16_encode_rune rs)"

text \<open>For evaluation, ASCII first: the other tests compare with large constants.\<close>

lemma valid_rune_code [code]:
  "valid_rune r = (if r < 0x80 then True else r < 0xD800 \<or> 0xE000 \<le> r \<and> r \<le> 0x10FFFF)"
  by (auto simp: valid_rune_def)

lemma EncodeRune_code [code]:
  "EncodeRune r0 =
     (if r0 < 0x80 then [byte r0]
      else
        let r = (if valid_rune r0 then r0 else RuneError) in
        if r < 0x800 then [byte (0xC0 + r div 64), byte (0x80 + r mod 64)]
        else if r < 0x10000 then
          [byte (0xE0 + r div 4096), byte (0x80 + r div 64 mod 64), byte (0x80 + r mod 64)]
        else
          [byte (0xF0 + r div 262144), byte (0x80 + r div 4096 mod 64), byte (0x80 + r div 64 mod 64),
           byte (0x80 + r mod 64)])"
  by (auto simp: EncodeRune_def valid_rune_def RuneError_def Let_def)

lemma utf16_encode_rune_code [code]:
  "utf16_encode_rune r =
     (if r < 0x80 then [r]
      else if r < 0xD800 \<or> 0xE000 \<le> r \<and> r < 0x10000 then [r]
      else if 0x10000 \<le> r \<and> r \<le> 0x10FFFF
      then [0xD800 + (r - 0x10000) div 1024, 0xDC00 + (r - 0x10000) mod 1024]
      else [RuneError])"
  by (simp add: utf16_encode_rune_def)

section \<open>Decoding inverts encoding\<close>

lemma second_ok_iff:
  "second_ok b c \<longleftrightarrow> fst (second_range b) \<le> ord c \<and> ord c \<le> snd (second_range b)"
  by (simp add: second_ok_def split_beta)

lemma EncodeRune_1: "r < 0x80 \<Longrightarrow> EncodeRune r = [byte r]"
  by (simp add: EncodeRune_def valid_rune_def)

lemma EncodeRune_2:
  "0x80 \<le> r \<Longrightarrow> r < 0x800 \<Longrightarrow> EncodeRune r = [byte (0xC0 + r div 64), byte (0x80 + r mod 64)]"
  by (simp add: EncodeRune_def valid_rune_def)

lemma EncodeRune_3:
  "0x800 \<le> r \<Longrightarrow> r < 0x10000 \<Longrightarrow> valid_rune r \<Longrightarrow> EncodeRune r =
     [byte (0xE0 + r div 4096), byte (0x80 + r div 64 mod 64), byte (0x80 + r mod 64)]"
  by (simp add: EncodeRune_def)

lemma EncodeRune_4:
  "0x10000 \<le> r \<Longrightarrow> valid_rune r \<Longrightarrow> EncodeRune r =
     [byte (0xF0 + r div 262144), byte (0x80 + r div 4096 mod 64), byte (0x80 + r div 64 mod 64),
      byte (0x80 + r mod 64)]"
  by (simp add: EncodeRune_def)

lemma ord_add_byte: "a + b < 256 \<Longrightarrow> ord (byte (a + b)) = a + b"
  by (rule ord_byte)

lemma ord_cont [simp]: "ord (byte (0x80 + r mod 64)) = 0x80 + r mod 64"
proof -
  have "r mod 64 < 64" by simp
  then show ?thesis by (intro ord_byte) linarith
qed

lemma cont_cont [simp]: "cont (byte (0x80 + r mod 64))"
proof -
  have "r mod 64 < 64" by simp
  then show ?thesis unfolding cont_def ord_cont by linarith
qed

lemma decode_encode_1: "r < 0x80 \<Longrightarrow> DecodeRune (byte r) s = (r, 0)"
  by (simp add: DecodeRune_def ord_byte)

lemma decode_encode_2:
  assumes "0x80 \<le> r" "r < 0x800"
  shows "DecodeRune (byte (0xC0 + r div 64)) (byte (0x80 + r mod 64) # s) = (r, 1)"
proof -
  have q: "2 \<le> r div 64" "r div 64 < 32" using assms by auto
  have m: "r mod 64 < 64" by simp
  have o: "ord (byte (0xC0 + r div 64)) = 0xC0 + r div 64" using q by (intro ord_byte) linarith
  have "second_range (0xC0 + r div 64) = (0x80, 0xBF)" using q by (simp add: second_range_def)
  then have "second_ok (0xC0 + r div 64) (byte (0x80 + r mod 64))"
    unfolding second_ok_iff ord_cont using m by simp
  then show ?thesis using q o by (simp add: DecodeRune_def)
qed

lemma split_64_64: "(r::nat) = r div 4096 * 4096 + r div 64 mod 64 * 64 + r mod 64"
proof -
  have "r div 64 div 64 = r div 4096" by (simp flip: div_mult2_eq)
  then have "r div 64 = r div 4096 * 64 + r div 64 mod 64" by (metis div_mult_mod_eq)
  moreover have "r = r div 64 * 64 + r mod 64" by simp
  ultimately show ?thesis by linarith
qed

lemma split_64_64_64:
  "(r::nat) = r div 262144 * 262144 + r div 4096 mod 64 * 4096 + r div 64 mod 64 * 64 + r mod 64"
proof -
  have "r div 4096 div 64 = r div 262144" by (simp flip: div_mult2_eq)
  then have "r div 4096 = r div 262144 * 64 + r div 4096 mod 64" by (metis div_mult_mod_eq)
  then show ?thesis using split_64_64 [of r] by linarith
qed

lemma decode_encode_3:
  assumes "0x800 \<le> r" "r < 0x10000" "valid_rune r"
  shows "DecodeRune (byte (0xE0 + r div 4096)) (byte (0x80 + r div 64 mod 64) # byte (0x80 + r mod 64) # s)
    = (r, 2)"
proof -
  have q: "r div 4096 < 16" using assms by auto
  have m: "r div 64 mod 64 < 64" by simp
  have o: "ord (byte (0xE0 + r div 4096)) = 0xE0 + r div 4096" using q by (intro ord_byte) linarith
  have rr: "r = r div 4096 * 4096 + r div 64 mod 64 * 64 + r mod 64"
    by (rule split_64_64)
  have lo: "r div 4096 = 0 \<Longrightarrow> 0x20 \<le> r div 64 mod 64"
    using assms(1) rr mod_less_divisor [of 64 r] by linarith
  have hi: "r div 4096 = 13 \<Longrightarrow> r div 64 mod 64 < 0x20" using assms(3) rr by (auto simp: valid_rune_def)
  have "second_ok (0xE0 + r div 4096) (byte (0x80 + r div 64 mod 64))"
    unfolding second_ok_iff ord_cont using m lo hi q by (auto simp: second_range_def)
  then show ?thesis using q o rr by (simp add: DecodeRune_def)
qed

lemma decode_encode_4:
  assumes "0x10000 \<le> r" "valid_rune r"
  shows "DecodeRune (byte (0xF0 + r div 262144))
     (byte (0x80 + r div 4096 mod 64) # byte (0x80 + r div 64 mod 64) # byte (0x80 + r mod 64) # s) = (r, 3)"
proof -
  have r: "r \<le> 0x10FFFF" using assms by (simp add: valid_rune_def)
  have q: "r div 262144 \<le> 4" using r by auto
  have m: "r div 4096 mod 64 < 64" by simp
  have o: "ord (byte (0xF0 + r div 262144)) = 0xF0 + r div 262144" using q by (intro ord_byte) linarith
  have rr: "r = r div 262144 * 262144 + r div 4096 mod 64 * 4096 + r div 64 mod 64 * 64 + r mod 64"
    by (rule split_64_64_64)
  have lo: "r div 262144 = 0 \<Longrightarrow> 0x10 \<le> r div 4096 mod 64"
    using assms(1) rr mod_less_divisor [of 64 r] mod_less_divisor [of 64 "r div 64"] by linarith
  have hi: "r div 262144 = 4 \<Longrightarrow> r div 4096 mod 64 < 0x10" using r rr by linarith
  have "second_ok (0xF0 + r div 262144) (byte (0x80 + r div 4096 mod 64))"
    unfolding second_ok_iff ord_cont using m lo hi q by (auto simp: second_range_def)
  then show ?thesis using q o rr by (simp add: DecodeRune_def)
qed

lemma runes_EncodeRune_append:
  assumes "valid_rune r"
  shows "runes (EncodeRune r @ s) = r # runes s"
proof -
  consider "r < 0x80" | "0x80 \<le> r" "r < 0x800" | "0x800 \<le> r" "r < 0x10000" | "0x10000 \<le> r" by linarith
  then show ?thesis
  proof cases
    case 1
    then show ?thesis by (simp add: EncodeRune_1 decode_encode_1)
  next
    case 2
    then show ?thesis by (simp add: EncodeRune_2 decode_encode_2)
  next
    case 3
    with assms show ?thesis by (simp add: EncodeRune_3 decode_encode_3 numeral_2_eq_2)
  next
    case 4
    with assms show ?thesis by (simp add: EncodeRune_4 decode_encode_4 numeral_3_eq_3)
  qed
qed

lemma runes_encode_runes: "list_all valid_rune rs \<Longrightarrow> runes (encode_runes rs) = rs"
  by (induction rs) (simp_all add: encode_runes_def runes_EncodeRune_append)

text \<open>Decoding only ever yields scalar values, so coercion is a projection onto valid UTF-8.\<close>

lemma valid_RuneError [simp]: "valid_rune RuneError"
  by (simp add: valid_rune_def RuneError_def)

lemma cont_bounds: "cont c \<Longrightarrow> 0x80 \<le> ord c \<and> ord c \<le> 0xBF"
  by (simp add: cont_def)

lemma valid_DecodeRune: "valid_rune (fst (DecodeRune c s))"
proof -
  define b where "b = ord c"
  have 2: "valid_rune ((b - 0xC0) * 64 + (ord c1 - 0x80))"
    if "0xC2 \<le> b" "b \<le> 0xDF" "second_ok b c1" for c1
  proof -
    have "ord c1 \<le> 0xBF" using that by (auto simp: second_ok_iff second_range_def split: if_splits)
    then show ?thesis using that by (auto simp: valid_rune_def)
  qed
  have 3: "valid_rune ((b - 0xE0) * 4096 + (ord c1 - 0x80) * 64 + (ord c2 - 0x80))"
    if "0xE0 \<le> b" "b \<le> 0xEF" "second_ok b c1" "cont c2" for c1 c2
  proof -
    have c2: "ord c2 - 0x80 \<le> 63" using that(4) by (auto simp: cont_def)
    have c1: "ord c1 - 0x80 \<le> 63" "b = 0xED \<Longrightarrow> ord c1 - 0x80 \<le> 31"
      using that(3) by (auto simp: second_ok_iff second_range_def split: if_splits)
    consider "b \<le> 0xEC" | "b = 0xED" | "0xEE \<le> b" by linarith
    then show ?thesis
      using c1 c2 that(1,2) unfolding valid_rune_def by cases linarith+
  qed
  have 4: "valid_rune ((b - 0xF0) * 262144 + (ord c1 - 0x80) * 4096 + (ord c2 - 0x80) * 64 + (ord c3 - 0x80))"
    if "0xF0 \<le> b" "b \<le> 0xF4" "second_ok b c1" "cont c2" "cont c3" for c1 c2 c3
  proof -
    have c23: "ord c2 - 0x80 \<le> 63" "ord c3 - 0x80 \<le> 63" using that(4,5) by (auto simp: cont_def)
    have c1: "ord c1 - 0x80 \<le> 63" "b = 0xF4 \<Longrightarrow> ord c1 - 0x80 \<le> 15" "b = 0xF0 \<Longrightarrow> 16 \<le> ord c1 - 0x80"
      using that(3) by (auto simp: second_ok_iff second_range_def split: if_splits)
    have "b = 0xF0 \<or> 0xF1 \<le> b \<and> b \<le> 0xF3 \<or> b = 0xF4" using that(1,2) by linarith
    then consider "b = 0xF0" | "0xF1 \<le> b" "b \<le> 0xF3" | "b = 0xF4" by blast
    then show ?thesis
      using c1 c23 unfolding valid_rune_def by cases linarith+
  qed
  have 1: "valid_rune b" if "b < 0x80" using that by (simp add: valid_rune_def)
  show ?thesis
    unfolding DecodeRune_def Let_def b_def [symmetric]
    using 1 2 3 4 by (auto split: list.splits)
qed

lemma valid_runes: "list_all valid_rune (runes s)"
proof (induction s rule: runes.induct)
  case (2 c s)
  then show ?case
    using valid_DecodeRune [of c s] by (auto split: prod.splits)
qed simp

lemma runes_coerce [simp]: "runes (coerce_utf8 s) = runes s"
  by (simp add: coerce_utf8_def runes_encode_runes valid_runes)

lemma coerce_utf8_idem [simp]: "coerce_utf8 (coerce_utf8 s) = coerce_utf8 s"
  unfolding coerce_utf8_def [of "coerce_utf8 s"] runes_coerce by (simp add: coerce_utf8_def)

lemma coerce_utf8_Nil [simp]: "coerce_utf8 [] = []"
  by (simp add: coerce_utf8_def encode_runes_def)

lemma utf16_encode_Nil [simp]: "utf16_encode [] = []"
  by (simp add: utf16_encode_def)

text \<open>ASCII text is its own rune sequence.\<close>

lemma runes_ascii: "(\<And>c. c \<in> set s \<Longrightarrow> ord c < 0x80) \<Longrightarrow> runes s = map ord s"
  by (induction s) (simp_all add: DecodeRune_def)

lemma coerce_ascii: "(\<And>c. c \<in> set s \<Longrightarrow> ord c < 0x80) \<Longrightarrow> coerce_utf8 s = s"
proof (induction s)
  case (Cons c s)
  then have "coerce_utf8 s = s" "ord c < 0x80" by auto
  then show ?case
    by (simp add: coerce_utf8_def encode_runes_def DecodeRune_def EncodeRune_1)
qed simp

text \<open>Valid UTF-8 is what the encoder produces; on it, runes and UTF-16 code units determine the text.\<close>

abbreviation valid_utf8 :: "string \<Rightarrow> bool" where
  "valid_utf8 s \<equiv> coerce_utf8 s = s"

lemma coerce_encode_runes [simp]: "list_all valid_rune rs \<Longrightarrow> valid_utf8 (encode_runes rs)"
  by (simp add: coerce_utf8_def runes_encode_runes)

lemma encode_runes_append: "encode_runes (rs @ us) = encode_runes rs @ encode_runes us"
  by (simp add: encode_runes_def)

lemma runes_inj: "valid_utf8 s \<Longrightarrow> valid_utf8 t \<Longrightarrow> runes s = runes t \<Longrightarrow> s = t"
  by (metis coerce_utf8_def)

lemma utf16_encode_rune_inj:
  assumes "valid_rune r" "valid_rune u" "utf16_encode_rune r @ xs = utf16_encode_rune u @ ys"
  shows "r = u \<and> xs = ys"
proof -
  have surr: "r = u" if "0x10000 \<le> r" "0x10000 \<le> u"
    "0xD800 + (r - 0x10000) div 1024 = 0xD800 + (u - 0x10000) div 1024"
    "0xDC00 + (r - 0x10000) mod 1024 = 0xDC00 + (u - 0x10000) mod 1024"
  proof -
    have "r - 0x10000 = u - 0x10000" using that div_mult_mod_eq by (metis add_left_cancel)
    with that show ?thesis by simp
  qed
  have hi: "0xD800 \<le> 0xD800 + (x - 0x10000) div 1024 \<and> 0xD800 + (x - 0x10000) div 1024 < 0xDC00"
    if "valid_rune x" for x :: nat using that by (auto simp: valid_rune_def)
  show ?thesis
    using assms surr hi [OF assms(1)] hi [OF assms(2)]
    by (auto simp: utf16_encode_rune_def valid_rune_def split: if_splits)
qed

lemma utf16_encode_inj:
  "list_all valid_rune rs \<Longrightarrow> list_all valid_rune us \<Longrightarrow> utf16_encode rs = utf16_encode us \<Longrightarrow> rs = us"
proof (induction rs arbitrary: us)
  case Nil
  then show ?case by (cases us) (auto simp: utf16_encode_def utf16_encode_rune_def split: if_splits)
next
  case (Cons r rs)
  then obtain u us' where us: "us = u # us'"
    by (cases us) (auto simp: utf16_encode_def utf16_encode_rune_def split: if_splits)
  with Cons.prems utf16_encode_rune_inj [of r u "utf16_encode rs" "utf16_encode us'"]
  have "r = u \<and> utf16_encode rs = utf16_encode us'" by (simp add: utf16_encode_def)
  with Cons us show ?case by simp
qed

text \<open>Only ASCII text decodes to ASCII runes.\<close>

lemma DecodeRune_ascii: "fst (DecodeRune c s) < 0x80 \<Longrightarrow> DecodeRune c s = (ord c, 0)"
proof -
  assume r: "fst (DecodeRune c s) < 0x80"
  have e0: "0xA0 \<le> ord d" if "second_ok 0xE0 d" for d using that by (simp add: second_ok_def second_range_def)
  have f0: "0x90 \<le> ord d" if "second_ok 0xF0 d" for d using that by (simp add: second_ok_def second_range_def)
  consider "ord c < 0x80" | "ord c = 0xE0" | "ord c = 0xF0" | "0x80 \<le> ord c" "ord c \<noteq> 0xE0" "ord c \<noteq> 0xF0"
    by linarith
  then show ?thesis
  proof cases
    case 1
    then show ?thesis by (simp add: DecodeRune_def)
  next
    case 2
    with r e0 show ?thesis
      by (fastforce simp: DecodeRune_def RuneError_def Let_def split: list.splits if_splits)
  next
    case 3
    with r f0 show ?thesis
      by (fastforce simp: DecodeRune_def RuneError_def Let_def split: list.splits if_splits)
  next
    case 4
    with r show ?thesis
      by (auto simp: DecodeRune_def RuneError_def Let_def split: list.splits if_splits)
  qed
qed

lemma runes_ascii_conv: "list_all (\<lambda>r. r < 0x80) (runes s) \<Longrightarrow> runes s = map ord s"
proof (induction s rule: runes.induct)
  case (2 c s)
  obtain r k where d: "DecodeRune c s = (r, k)" by force
  with "2.prems" have "DecodeRune c s = (ord c, 0)" by (intro DecodeRune_ascii) simp
  with 2 d show ?case by simp
qed simp

lemma coerce_utf8_ascii_iff:
  assumes "list_all (\<lambda>c. ord c < 0x80) k"
  shows "coerce_utf8 s = k \<longleftrightarrow> s = k"
proof
  assume c: "coerce_utf8 s = k"
  have k: "runes k = map ord k" "coerce_utf8 k = k"
    using assms by (auto simp: list_all_iff intro: runes_ascii coerce_ascii)
  have "runes s = runes k" using runes_coerce [of s] c by simp
  moreover from this have "runes s = map ord s"
    using assms k(1) by (intro runes_ascii_conv) (auto simp: list_all_iff)
  ultimately have "map ord s = map ord k" using k(1) by simp
  then show "s = k" by (rule map_injective) (auto simp: inj_def)
next
  assume "s = k"
  then show "coerce_utf8 s = k" using assms by (auto simp: list_all_iff intro: coerce_ascii)
qed

lemma valid_utf8_literal: "list_all (\<lambda>c. ord c < 0x80) k \<Longrightarrow> valid_utf8 k"
  by (rule coerce_ascii) (simp add: list_all_iff)

lemma valid_append: "valid_utf8 s \<Longrightarrow> valid_utf8 t \<Longrightarrow> valid_utf8 (s @ t)"
proof -
  assume v: "valid_utf8 s" "valid_utf8 t"
  have "encode_runes (runes s @ runes t) = s @ t" using v by (simp add: coerce_utf8_def encode_runes_def)
  moreover have "valid_utf8 (encode_runes (runes s @ runes t))" using valid_runes by (intro coerce_encode_runes) simp
  ultimately show ?thesis by simp
qed

section \<open>Trimming keeps text valid\<close>

lemma EncodeRune_shape:
  assumes "valid_rune r"
  shows "\<exists>b cs. EncodeRune r = b # cs \<and> \<not> cont b \<and> list_all cont cs"
proof -
  consider "r < 0x80" | "0x80 \<le> r" "r < 0x800" | "0x800 \<le> r" "r < 0x10000" | "0x10000 \<le> r" by linarith
  then show ?thesis
  proof cases
    case 1
    then show ?thesis by (simp add: EncodeRune_1 cont_def ord_byte)
  next
    case 2
    then have "r div 64 < 32" by simp
    with 2 show ?thesis by (simp add: EncodeRune_2 cont_def [of "byte (0xC0 + r div 64)"] ord_add_byte)
  next
    case 3
    then have "r div 4096 < 16" by simp
    with 3 assms show ?thesis by (simp add: EncodeRune_3 cont_def [of "byte (0xE0 + r div 4096)"] ord_add_byte)
  next
    case 4
    then have "r div 262144 < 5" using assms by (simp add: valid_rune_def)
    with 4 assms show ?thesis by (simp add: EncodeRune_4 cont_def [of "byte (0xF0 + r div 262144)"] ord_add_byte)
  qed
qed

lemma valid_drop_front:
  assumes "valid_utf8 (w @ s)" "valid_utf8 w"
  shows "valid_utf8 s"
proof -
  have "runes (encode_runes rs @ s) = rs @ runes s" if "list_all valid_rune rs" for rs
    using that by (induction rs) (simp_all add: encode_runes_def runes_EncodeRune_append)
  from this [OF valid_runes, of w] assms(2) have "runes (w @ s) = runes w @ runes s" by (simp add: coerce_utf8_def)
  then have "coerce_utf8 (w @ s) = w @ coerce_utf8 s" using assms(2) by (simp add: coerce_utf8_def encode_runes_append)
  with assms(1) show ?thesis by simp
qed

lemma valid_drop_back:
  assumes "valid_utf8 (s @ b # cs)" "\<not> cont b" "list_all cont cs"
  shows "valid_utf8 s"
proof -
  define rs where "rs = runes (s @ b # cs)"
  have e: "encode_runes rs = s @ b # cs" "list_all valid_rune rs" using assms(1) valid_runes by (simp_all add: rs_def coerce_utf8_def)
  then obtain us u where rs: "rs = us @ [u]" by (cases rs rule: rev_cases) (auto simp: encode_runes_def)
  obtain b' cs' where u: "EncodeRune u = b' # cs'" "\<not> cont b'" "list_all cont cs'" using EncodeRune_shape [of u] e(2) rs by auto
  have tail: "takeWhile cont (rev (t @ x # xs)) = rev xs" if "\<not> cont x" "list_all cont xs" for t x xs
    using that by (simp add: list_all_iff) (subst takeWhile_append2, auto)
  have eq: "s @ b # cs = encode_runes us @ b' # cs'" using e(1) rs u(1) by (simp add: encode_runes_def)
  then have "cs = cs'" using tail [OF assms(2,3), of s] tail [OF u(2,3), of "encode_runes us"] by (metis rev_is_rev_conv)
  with eq have "s = encode_runes us" by simp
  with e(2) rs show ?thesis by simp
qed

lemma space_runes:
  "space_encodings = map EncodeRune ([9, 10, 11, 12, 13, 32, 0x85, 0xA0, 0x1680, 0x2000, 0x2001, 0x2002, 0x2003, 0x2004, 0x2005, 0x2006, 0x2007, 0x2008, 0x2009,
     0x200A, 0x2028, 0x2029, 0x202F, 0x205F, 0x3000])"
  by (simp add: space_encodings_def EncodeRune_def valid_rune_def)

lemma space_shapes:
  assumes "w \<in> set space_encodings"
  shows "valid_utf8 w" "\<not> cont (hd w)" "list_all cont (tl w)"
proof -
  obtain r where r: "w = EncodeRune r" "valid_rune r" using assms unfolding space_runes by (auto simp: valid_rune_def)
  from r(1) have "w = encode_runes [r]" by (simp add: encode_runes_def)
  with r(2) show "valid_utf8 w" by simp
  show "\<not> cont (hd w)" "list_all cont (tl w)" using EncodeRune_shape [OF r(2)] r(1) by auto
qed

lemma valid_TrimSpace:
  assumes "valid_utf8 s"
  shows "valid_utf8 (TrimSpace s)"
proof -
  have front: "valid_utf8 (trim_prefixes space_encodings t)" if "valid_utf8 t" for t
    using that
  proof (induction space_encodings t rule: trim_prefixes.induct)
    case (1 t)
    show ?case
    proof (cases "find (\<lambda>w. w \<noteq> [] \<and> HasPrefix t w) space_encodings")
      case None
      then have "trim_prefixes space_encodings t = t" by (subst trim_prefixes.simps) simp
      with 1(2) show ?thesis by simp
    next
      case (Some w)
      then have w: "w \<in> set space_encodings" "HasPrefix t w" by (auto simp: find_Some_iff)
      then obtain t' where t': "t = w @ t'" by (auto simp: HasPrefix_iff)
      have "valid_utf8 t'" using valid_drop_front 1(2) t' space_shapes(1) [OF w(1)] by metis
      moreover have "trim_prefixes space_encodings t = trim_prefixes space_encodings t'"
        using Some t' by (subst trim_prefixes.simps) simp
      ultimately show ?thesis using 1(1) [OF Some] t' by simp
    qed
  qed
  have behind: "valid_utf8 (rev (trim_prefixes (map rev space_encodings) t))" if "valid_utf8 (rev t)" for t
    using that
  proof (induction "map rev space_encodings" t rule: trim_prefixes.induct)
    case (1 t)
    show ?case
    proof (cases "find (\<lambda>w. w \<noteq> [] \<and> HasPrefix t w) (map rev space_encodings)")
      case None
      then have "trim_prefixes (map rev space_encodings) t = t" by (subst trim_prefixes.simps) simp
      with 1(2) show ?thesis by simp
    next
      case (Some w)
      then have w: "w \<in> set (map rev space_encodings)" "w \<noteq> []" "HasPrefix t w" by (auto simp: find_Some_iff)
      then obtain v t' where v: "v \<in> set space_encodings" "w = rev v" "t = w @ t'" by (auto simp: HasPrefix_iff)
      then have "rev t = rev t' @ hd v # tl v" using w(2) by simp
      moreover have "\<not> cont (hd v)" "list_all cont (tl v)" using space_shapes(2,3) [OF v(1)] by simp_all
      ultimately have "valid_utf8 (rev t')" using valid_drop_back 1(2) by metis
      moreover have "trim_prefixes (map rev space_encodings) t = trim_prefixes (map rev space_encodings) t'"
        using Some v by (subst trim_prefixes.simps) simp
      ultimately show ?thesis using 1(1) [OF Some] v by simp
    qed
  qed
  show ?thesis unfolding TrimSpace_def by (rule behind) (use front [OF assms] in simp)
qed

end
