(* ===== verification/Json.thy ===== *)
theory Json
  imports Float64 Utf8
begin

text \<open>
  The package \<^verbatim>\<open>encoding/json\<close> as the program uses it. A text is scanned into a tree that keeps the
  order of members, duplicates and the spelling of numbers; decoding turns the tree into the dynamic
  values Go holds in an \<^verbatim>\<open>interface{}\<close>; encoding goes the other way, sorting the keys of maps and
  escaping the characters HTML gives a meaning. The locale \<open>json_quoting\<close> is the contract between a
  string writer and the scanner: any writer that meets it renders trees the scanner reads back.
\<close>

section \<open>Dynamic values and trees\<close>

datatype any =
    ANil
  | ABool bool
  | AInt int
  | AFloat float64
  | AString string
  | AList "any list"
  | AMap "(string \<times> any) list"

datatype json =
    JNull
  | JBool bool
  | JNumber string
  | JString string
  | JArray "json list"
  | JObject "(string \<times> json) list"

text \<open>Type assertions \<^verbatim>\<open>v.(string)\<close> and \<^verbatim>\<open>v.(map[string]any)\<close>, and lookup in a possibly nil map.\<close>

fun as_string :: "any \<Rightarrow> string option" where
  "as_string (AString s) = Some s"
| "as_string _ = None"

fun as_map :: "any \<Rightarrow> (string \<times> any) list option" where
  "as_map (AMap m) = Some m"
| "as_map _ = None"

definition field :: "(string \<times> any) list \<Rightarrow> string \<Rightarrow> any" where
  \<comment> \<open>\<^verbatim>\<open>m[k]\<close>: the zero value \<^verbatim>\<open>nil\<close> for an absent key\<close>
  "field m k = (case map_of m k of None \<Rightarrow> ANil | Some v \<Rightarrow> v)"

definition field_string :: "(string \<times> any) list \<Rightarrow> string \<Rightarrow> string" where
  \<comment> \<open>\<^verbatim>\<open>s, _ := m[k].(string)\<close>\<close>
  "field_string m k = (case as_string (field m k) of None \<Rightarrow> [] | Some s \<Rightarrow> s)"

section \<open>Scanning\<close>

definition is_ws :: "char \<Rightarrow> bool" where
  "is_ws c = (ord c = 32 \<or> ord c = 9 \<or> ord c = 10 \<or> ord c = 13)"

abbreviation skip_ws :: "string \<Rightarrow> string" where
  "skip_ws s \<equiv> dropWhile is_ws s"

definition is_digit :: "char \<Rightarrow> bool" where
  "is_digit c = (48 \<le> ord c \<and> ord c \<le> 57)"

definition hex_value :: "char \<Rightarrow> nat option" where
  "hex_value c =
     (let n = ord c in
      if 48 \<le> n \<and> n \<le> 57 then Some (n - 48)
      else if 97 \<le> n \<and> n \<le> 102 then Some (n - 87)
      else if 65 \<le> n \<and> n \<le> 70 then Some (n - 55)
      else None)"

fun getu4 :: "string \<Rightarrow> (nat \<times> string) option" where
  "getu4 (a # b # c # d # s) =
     (case (hex_value a, hex_value b, hex_value c, hex_value d) of
        (Some x, Some y, Some z, Some w) \<Rightarrow> Some (x * 4096 + y * 256 + z * 16 + w, s)
      | _ \<Rightarrow> None)"
| "getu4 _ = None"

definition simple_escape :: "char \<Rightarrow> char option" where
  "simple_escape e =
     (if e = CHR 0x22 \<or> e = CHR 0x5C \<or> e = CHR 0x2F then Some e
      else if e = CHR ''b'' then Some (byte 8) else if e = CHR ''f'' then Some (byte 12)
      else if e = CHR ''n'' then Some (byte 10) else if e = CHR ''r'' then Some (byte 13)
      else if e = CHR ''t'' then Some (byte 9) else None)"

fun unicode_escape :: "string \<Rightarrow> (string \<times> string) option" where
  \<comment> \<open>after a backslash and u: four hex digits, joined with a second escape when they form a surrogate pair\<close>
  "unicode_escape s =
     (case getu4 s of
        None \<Rightarrow> None
      | Some (r, t) \<Rightarrow>
          if 0xD800 \<le> r \<and> r < 0xE000 then
            (case t of
               x # y # t' \<Rightarrow>
                 if x = CHR 0x5C \<and> y = CHR ''u'' then
                   (case getu4 t' of
                      Some (r2, t2) \<Rightarrow>
                        if r < 0xDC00 \<and> 0xDC00 \<le> r2 \<and> r2 < 0xE000
                        then Some (EncodeRune (0x10000 + (r - 0xD800) * 1024 + (r2 - 0xDC00)), t2)
                        else Some (EncodeRune RuneError, t)
                    | None \<Rightarrow> Some (EncodeRune RuneError, t))
                 else Some (EncodeRune RuneError, t)
             | _ \<Rightarrow> Some (EncodeRune RuneError, t))
          else Some (EncodeRune r, t))"

declare unicode_escape.simps [simp del]

lemma getu4_length: "getu4 s = Some (r, t) \<Longrightarrow> length t < length s"
  by (induction s rule: getu4.induct) (auto split: option.splits)

lemma unicode_escape_length: "unicode_escape s = Some (u, t) \<Longrightarrow> length t < length s"
  by (subst (asm) unicode_escape.simps)
    (auto split: option.splits if_splits list.splits dest!: getu4_length)

function scan_string :: "string \<Rightarrow> (string \<times> string) option" where
  \<comment> \<open>the body of a string after its opening quote: its decoded bytes and what follows the closing quote\<close>
  "scan_string [] = None"
| "scan_string (c # s) =
     (if c = CHR 0x22 then Some ([], s)
      else if c = CHR 0x5C then
        (case s of
           [] \<Rightarrow> None
         | e # s' \<Rightarrow>
             if e = CHR ''u'' then
               (case unicode_escape s' of
                  None \<Rightarrow> None
                | Some (u, t) \<Rightarrow> map_option (\<lambda>(str, r). (u @ str, r)) (scan_string t))
             else
               (case simple_escape e of
                  None \<Rightarrow> None
                | Some d \<Rightarrow> map_option (\<lambda>(str, r). (d # str, r)) (scan_string s')))
      else if ord c < 32 then None
      else (case DecodeRune c s of
              (u, k) \<Rightarrow> map_option (\<lambda>(str, r). (EncodeRune u @ str, r)) (scan_string (drop k s))))"
  by pat_completeness auto
termination
  by (relation "measure length") (auto dest!: unicode_escape_length)

lemma scan_string_length: "scan_string s = Some (str, r) \<Longrightarrow> length r < length s"
proof (induction s arbitrary: str r rule: scan_string.induct)
  case 1
  then show ?case by simp
next
  case (2 c s)
  consider "c = CHR 0x22" | "c = CHR 0x5C" | "c \<noteq> CHR 0x22" "c \<noteq> CHR 0x5C" by blast
  then show ?case
  proof cases
    case 1
    with 2 show ?thesis by simp
  next
    case 2
    with "2.prems" obtain e s' where s: "s = e # s'" by (auto split: list.splits)
    show ?thesis
    proof (cases "e = CHR ''u''")
      case True
      with 2 s "2.prems" obtain u t str' where t: "unicode_escape s' = Some (u, t)"
        and r: "scan_string t = Some (str', r)" by (auto split: option.splits)
      have "length r < length t" using "2.IH"(1) [OF _ _ s True t] 2 r by auto
      with unicode_escape_length [OF t] s show ?thesis by simp
    next
      case False
      with 2 s "2.prems" obtain d str' where d: "simple_escape e = Some d"
        and r: "scan_string s' = Some (str', r)" by (auto split: option.splits)
      have "length r < length s'" using "2.IH"(2) [OF _ _ s False d] 2 r by auto
      with s show ?thesis by simp
    qed
  next
    case 3
    obtain u k where d: "DecodeRune c s = (u, k)" by force
    from 3 d "2.prems" obtain str' where g: "\<not> ord c < 32" and r: "scan_string (drop k s) = Some (str', r)"
      by (auto split: if_splits)
    have "length r < length (drop k s)" using "2.IH"(3) [OF 3 g d [symmetric]] r by auto
    then show ?thesis by simp
  qed
qed

text \<open>Numbers: an optional minus, an integer part without leading zeros, a fraction, an exponent.\<close>

definition scan_exp :: "string \<Rightarrow> string \<Rightarrow> (string \<times> string) option" where
  "scan_exp lit s =
     (case s of
        [] \<Rightarrow> Some (lit, [])
      | c # s1 \<Rightarrow>
          if c = CHR ''e'' \<or> c = CHR ''E'' then
            (let sg = (case s1 of x # _ \<Rightarrow> if x = CHR ''+'' \<or> x = CHR ''-'' then [x] else [] | [] \<Rightarrow> []);
                 s2 = drop (length sg) s1; ds = takeWhile is_digit s2
             in if ds = [] then None else Some (lit @ c # sg @ ds, dropWhile is_digit s2))
          else Some (lit, s))"

definition scan_frac :: "string \<Rightarrow> string \<Rightarrow> (string \<times> string) option" where
  "scan_frac lit s =
     (case s of
        [] \<Rightarrow> Some (lit, [])
      | c # s1 \<Rightarrow>
          if c = CHR ''.'' then
            (let ds = takeWhile is_digit s1
             in if ds = [] then None else scan_exp (lit @ c # ds) (dropWhile is_digit s1))
          else scan_exp lit s)"

definition scan_int :: "string \<Rightarrow> string \<Rightarrow> (string \<times> string) option" where
  "scan_int sg s =
     (case s of
        [] \<Rightarrow> None
      | c # s1 \<Rightarrow>
          if c = CHR ''0'' then scan_frac (sg @ [c]) s1
          else if is_digit c then scan_frac (sg @ c # takeWhile is_digit s1) (dropWhile is_digit s1)
          else None)"

definition scan_number :: "string \<Rightarrow> (string \<times> string) option" where
  "scan_number s =
     (case s of
        [] \<Rightarrow> None
      | c # s1 \<Rightarrow> if c = CHR ''-'' then scan_int [c] s1 else scan_int [] s)"

lemma length_dropWhile_le': "length (dropWhile P s) \<le> length s"
  by (rule length_dropWhile_le)

lemma scan_exp_length: "scan_exp lit s = Some (l, r) \<Longrightarrow> length r \<le> length s"
  unfolding scan_exp_def Let_def
  by (auto split: list.splits if_splits intro!: order_trans [OF length_dropWhile_le'])

lemma scan_frac_length: "scan_frac lit s = Some (l, r) \<Longrightarrow> length r \<le> length s"
  unfolding scan_frac_def Let_def
  by (auto split: list.splits if_splits dest!: scan_exp_length
      intro: order_trans [OF _ length_dropWhile_le'] le_SucI)

lemma scan_int_length: "scan_int sg s = Some (l, r) \<Longrightarrow> length r < length s"
  unfolding scan_int_def
  by (auto split: list.splits if_splits dest!: scan_frac_length
      intro: le_imp_less_Suc order_trans [OF _ length_dropWhile_le'])

lemma scan_number_length: "scan_number s = Some (l, r) \<Longrightarrow> length r < length s"
  unfolding scan_number_def by (auto split: list.splits if_splits dest!: scan_int_length)

section \<open>Values\<close>

fun scan_literal :: "string \<Rightarrow> string \<Rightarrow> json \<Rightarrow> (json \<times> string) option" where
  "scan_literal w s v = (if HasPrefix s w then Some (v, drop (length w) s) else None)"

text \<open>
  The three mutually recursive loops of the scanner. The tests \<open>length r < length s\<close> always succeed
  (lemma \<open>scan_length\<close> below); they let the loops be defined by the length of the input.
\<close>

function (sequential) scan_value :: "string \<Rightarrow> (json \<times> string) option"
  and scan_elems :: "string \<Rightarrow> (json list \<times> string) option"
  and scan_members :: "string \<Rightarrow> ((string \<times> json) list \<times> string) option" where
  "scan_value [] = None"
| "scan_value (c # s) =
     (if c = CHR ''['' then
        (let s1 = skip_ws s in
         if HasPrefix s1 '']'' then Some (JArray [], tl s1)
         else map_option (\<lambda>(vs, r). (JArray vs, r)) (scan_elems s1))
      else if c = CHR ''{'' then
        (let s1 = skip_ws s in
         if HasPrefix s1 ''}'' then Some (JObject [], tl s1)
         else map_option (\<lambda>(ms, r). (JObject ms, r)) (scan_members s1))
      else if c = CHR 0x22 then map_option (\<lambda>(str, r). (JString str, r)) (scan_string s)
      else if c = CHR ''t'' then scan_literal ''true'' (c # s) (JBool True)
      else if c = CHR ''f'' then scan_literal ''false'' (c # s) (JBool False)
      else if c = CHR ''n'' then scan_literal ''null'' (c # s) JNull
      else map_option (\<lambda>(lit, r). (JNumber lit, r)) (scan_number (c # s)))"
| "scan_elems s =
     (case scan_value s of
        None \<Rightarrow> None
      | Some (v, r) \<Rightarrow>
          (case skip_ws r of
             [] \<Rightarrow> None
           | c # r1 \<Rightarrow>
               if c = CHR '']'' then Some ([v], r1)
               else if c = CHR '','' \<and> length r1 < length s
               then map_option (\<lambda>(vs, r2). (v # vs, r2)) (scan_elems (skip_ws r1))
               else None))"
| "scan_members s =
     (case s of
        [] \<Rightarrow> None
      | q # s1 \<Rightarrow>
          if q \<noteq> CHR 0x22 then None
          else (case scan_string s1 of
                  None \<Rightarrow> None
                | Some (k, r) \<Rightarrow>
                    (case skip_ws r of
                       [] \<Rightarrow> None
                     | c # r1 \<Rightarrow>
                         if c \<noteq> CHR '':'' \<or> \<not> length r1 < length s then None
                         else (case scan_value (skip_ws r1) of
                                 None \<Rightarrow> None
                               | Some (v, r2) \<Rightarrow>
                                   (case skip_ws r2 of
                                      [] \<Rightarrow> None
                                    | d # r3 \<Rightarrow>
                                        if d = CHR ''}'' then Some ([(k, v)], r3)
                                        else if d = CHR '','' \<and> length r3 < length s
                                        then map_option (\<lambda>(ms, r4). ((k, v) # ms, r4)) (scan_members (skip_ws r3))
                                        else None)))))"
  by pat_completeness auto
termination
  by (relation "measures [\<lambda>x. case x of Inl s \<Rightarrow> length s | Inr (Inl s) \<Rightarrow> length s | Inr (Inr s) \<Rightarrow> length s,
        \<lambda>x. case x of Inl _ \<Rightarrow> 0 | Inr _ \<Rightarrow> 1]")
    (auto intro: le_imp_less_Suc order_trans [OF length_dropWhile_le'] le_less_trans [OF length_dropWhile_le'])

declare scan_value.simps [simp del] scan_elems.simps [simp del] scan_members.simps [simp del]

definition json_scan :: "string \<Rightarrow> json option" where
  \<comment> \<open>a whole document: one value between white space\<close>
  "json_scan s =
     (case scan_value (skip_ws s) of
        Some (v, r) \<Rightarrow> if skip_ws r = [] then Some v else None
      | None \<Rightarrow> None)"

text \<open>
  Go's scanner refuses a document in which arrays and objects are nested deeper than 10000 levels. The scanner
  here has no such limit: it agrees with Go's on every document within it. The theorem about reading
  saved bundles assumes that the saved lines are within it (\<open>saveable\<close> in Bundle\_Props).
\<close>

fun json_depth :: "json \<Rightarrow> nat" where
  \<comment> \<open>how deep arrays and objects are nested\<close>
  "json_depth (JArray vs) = Suc (fold max (map json_depth vs) 0)"
| "json_depth (JObject ms) = Suc (fold max (map (\<lambda>(k, v). json_depth v) ms) 0)"
| "json_depth _ = 0"

definition maxNestingDepth :: nat where
  "maxNestingDepth = 10000"

lemma skip_ws_length: "length (skip_ws s) \<le> length s"
  by (rule length_dropWhile_le)

lemma scan_length:
  "scan_value s = Some (v, r) \<Longrightarrow> length r < length s"
  "scan_elems s = Some (vs, r) \<Longrightarrow> length r < length s"
  "scan_members s = Some (ms, r) \<Longrightarrow> length r < length s"
proof (induction s and s and s arbitrary: v r and vs r and ms r rule: scan_value_scan_elems_scan_members.induct)
  case 1
  then show ?case by (simp add: scan_value.simps)
next
  case (2 c s)
  have le: "length (skip_ws s) \<le> length s" by (rule skip_ws_length)
  from "2.prems" "2.IH" le show ?case
    by (auto simp: scan_value.simps Let_def HasPrefix_iff split: if_splits
        dest!: scan_string_length scan_number_length) fastforce+
next
  case (3 s)
  from "3.prems" obtain v' r' c r1 where v: "scan_value s = Some (v', r')" and c: "skip_ws r' = c # r1"
    and o: "c = CHR '']'' \<and> r = r1 \<or> (\<exists>vs'. c = CHR '','' \<and> scan_elems (skip_ws r1) = Some (vs', r) \<and> length r1 < length s)"
    by (subst (asm) scan_elems.simps) (auto split: option.splits list.splits if_splits)
  have r1: "length r1 < length s"
    using "3.IH"(1) [OF v] skip_ws_length [of r'] c by simp
  show ?case
  proof (cases "c = CHR '']''")
    case True
    with o r1 show ?thesis by auto
  next
    case False
    with o obtain vs' where g: "c = CHR '',''" and e: "scan_elems (skip_ws r1) = Some (vs', r)" by auto
    have "length r < length (skip_ws r1)"
      by (rule "3.IH"(2) [OF v refl c False _ e]) (use g r1 in auto)
    with r1 skip_ws_length [of r1] show ?thesis by simp
  qed
next
  case (4 s)
  from "4.prems" obtain s1 k r0 r1 v' r2 d r3 where s: "s = CHR 0x22 # s1" and k: "scan_string s1 = Some (k, r0)"
    and c: "skip_ws r0 = CHR '':'' # r1" and l: "length r1 < length s"
    and v: "scan_value (skip_ws r1) = Some (v', r2)" and d: "skip_ws r2 = d # r3"
    and o: "d = CHR ''}'' \<and> r = r3 \<or> (\<exists>ms'. d = CHR '','' \<and> scan_members (skip_ws r3) = Some (ms', r) \<and> length r3 < length s)"
    by (subst (asm) scan_members.simps) (auto split: option.splits list.splits if_splits)
  have "length r2 < length (skip_ws r1)"
    by (rule "4.IH"(1) [OF s _ k refl c _ v]) (use l in auto)
  with l skip_ws_length [of r1] skip_ws_length [of r2] d have r3: "length r3 < length s" by simp
  show ?case
  proof (cases "d = CHR ''}''")
    case True
    with o r3 show ?thesis by auto
  next
    case False
    with o obtain ms' where g: "d = CHR '',''" and e: "scan_members (skip_ws r3) = Some (ms', r)" by auto
    have "length r < length (skip_ws r3)"
      by (rule "4.IH"(2) [OF s _ k refl c _ v refl d False _ e]) (use g r3 l in auto)
    with r3 skip_ws_length [of r3] show ?thesis by simp
  qed
qed

section \<open>Rendering a tree\<close>

text \<open>
  The shape both writers of the program share: no white space, strings between quotes. The parameter
  is the text of a string after its opening quote, closing quote included.
\<close>

fun render_value :: "(string \<Rightarrow> string) \<Rightarrow> json \<Rightarrow> string"
  and render_elems :: "(string \<Rightarrow> string) \<Rightarrow> json list \<Rightarrow> string"
  and render_members :: "(string \<Rightarrow> string) \<Rightarrow> (string \<times> json) list \<Rightarrow> string" where
  "render_value q JNull = ''null''"
| "render_value q (JBool b) = (if b then ''true'' else ''false'')"
| "render_value q (JNumber lit) = lit"
| "render_value q (JString s) = CHR 0x22 # q s"
| "render_value q (JArray vs) = ''['' @ render_elems q vs @ '']''"
| "render_value q (JObject ms) = ''{'' @ render_members q ms @ ''}''"
| "render_elems q [] = []"
| "render_elems q [v] = render_value q v"
| "render_elems q (v # w # vs) = render_value q v @ '','' @ render_elems q (w # vs)"
| "render_members q [] = []"
| "render_members q [(k, v)] = CHR 0x22 # q k @ '':'' @ render_value q v"
| "render_members q ((k, v) # m # ms) =
     CHR 0x22 # q k @ '':'' @ render_value q v @ '','' @ render_members q (m # ms)"

fun coerce_json :: "json \<Rightarrow> json" where
  "coerce_json (JString s) = JString (coerce_utf8 s)"
| "coerce_json (JArray vs) = JArray (map coerce_json vs)"
| "coerce_json (JObject ms) = JObject (map (\<lambda>(k, v). (coerce_utf8 k, coerce_json v)) ms)"
| "coerce_json j = j"

fun wf_json :: "json \<Rightarrow> bool" where
  "wf_json (JNumber lit) = (scan_number lit = Some (lit, []))"
| "wf_json (JArray vs) = list_all wf_json vs"
| "wf_json (JObject ms) = list_all (\<lambda>(k, v). wf_json v) ms"
| "wf_json _ = True"

definition delim :: "string \<Rightarrow> bool" where
  \<comment> \<open>what follows a value does not continue a number\<close>
  "delim r = (case r of [] \<Rightarrow> True
     | c # _ \<Rightarrow> \<not> is_digit c \<and> c \<noteq> CHR ''.'' \<and> c \<noteq> CHR ''e'' \<and> c \<noteq> CHR ''E'')"

lemma delim_simps [simp]:
  "delim []" "delim (CHR '','' # r)" "delim (CHR '']'' # r)" "delim (CHR ''}'' # r)"
  by (simp_all add: delim_def is_digit_def)

lemma takeWhile_delim: "delim r \<Longrightarrow> takeWhile is_digit r = []" "delim r \<Longrightarrow> dropWhile is_digit r = r"
  by (auto simp: delim_def split: list.splits)

lemma span_append_delim:
  assumes "delim r"
  shows "takeWhile is_digit (s @ r) = takeWhile is_digit s"
    and "dropWhile is_digit (s @ r) = dropWhile is_digit s @ r"
  using takeWhile_delim [OF assms] by (induction s) auto

lemma scan_exp_append:
  assumes "scan_exp lit s = Some (l, r0)" "delim r"
  shows "scan_exp lit (s @ r) = Some (l, r0 @ r)"
proof (cases s)
  case Nil
  with assms show ?thesis by (auto simp: scan_exp_def delim_def split: list.splits)
next
  case (Cons c s1)
  show ?thesis
  proof (cases "c = CHR ''e'' \<or> c = CHR ''E''")
    case False
    with Cons assms show ?thesis by (auto simp: scan_exp_def)
  next
    case True
    define sg where "sg = (case s1 of x # _ \<Rightarrow> if x = CHR ''+'' \<or> x = CHR ''-'' then [x] else [] | [] \<Rightarrow> [])"
    define s2 where "s2 = drop (length sg) s1"
    from assms Cons True have ds: "takeWhile is_digit s2 \<noteq> []" and l: "l = lit @ c # sg @ takeWhile is_digit s2"
      and r0: "r0 = dropWhile is_digit s2"
      by (auto simp: scan_exp_def Let_def s2_def sg_def split: if_splits)
    from ds have ne: "s1 \<noteq> []" by (auto simp: s2_def)
    have sg': "(case s1 @ r of x # _ \<Rightarrow> if x = CHR ''+'' \<or> x = CHR ''-'' then [x] else [] | [] \<Rightarrow> []) = sg"
      using ne by (cases s1) (auto simp: sg_def)
    have "drop (length sg) (s1 @ r) = s2 @ r"
      using ne by (cases s1) (auto simp: s2_def sg_def)
    with sg' True ds l r0 Cons show ?thesis
      by (simp add: scan_exp_def Let_def span_append_delim [OF assms(2)])
  qed
qed

lemma scan_frac_append:
  assumes "scan_frac lit s = Some (l, r0)" "delim r"
  shows "scan_frac lit (s @ r) = Some (l, r0 @ r)"
proof (cases s)
  case Nil
  with assms show ?thesis
    using scan_exp_append [of lit "[]" l r0 r]
    by (cases r) (auto simp: scan_frac_def scan_exp_def delim_def)
next
  case (Cons c s1)
  with assms show ?thesis
    using scan_exp_append [OF _ assms(2)] scan_exp_append [OF _ assms(2), of lit "c # s1"]
    by (auto simp: scan_frac_def Let_def span_append_delim [OF assms(2)] split: if_splits)
qed

lemma scan_number_append:
  assumes "scan_number s = Some (l, r0)" "delim r"
  shows "scan_number (s @ r) = Some (l, r0 @ r)"
proof -
  have int: "scan_int sg (t @ r) = Some (l, r0 @ r)" if "scan_int sg t = Some (l, r0)" for sg t
    using that scan_frac_append [OF _ assms(2)]
    by (cases t) (auto simp: scan_int_def span_append_delim [OF assms(2)] split: if_splits)
  from assms(1) int int [of "[]" s] show ?thesis
    by (cases s) (auto simp: scan_number_def split: if_splits)
qed

lemma scan_number_first:
  assumes "scan_number lit = Some (lit, [])"
  shows "\<exists>c l. lit = c # l \<and> (is_digit c \<or> c = CHR ''-'')"
  using assms
  by (cases lit) (auto simp: scan_number_def scan_int_def is_digit_def split: if_splits list.splits)

lemma number_start:
  assumes "is_digit c \<or> c = CHR ''-''"
  shows "c \<noteq> CHR ''[''" "c \<noteq> CHR ''{''" "c \<noteq> CHR 0x22" "c \<noteq> CHR ''t''" "c \<noteq> CHR ''f''" "c \<noteq> CHR ''n''"
  using assms by (auto simp: is_digit_def)

text \<open>A rendered value starts with a character that is neither white space nor a closing bracket.\<close>

definition starter :: "char \<Rightarrow> bool" where
  "starter c = (\<not> is_ws c \<and> c \<noteq> CHR '']'' \<and> c \<noteq> CHR ''}'')"

lemma render_value_first:
  assumes "wf_json v"
  shows "\<exists>c s. render_value q v = c # s \<and> starter c"
proof (cases v)
  case (JNumber lit)
  with assms obtain c l where "lit = c # l" "is_digit c \<or> c = CHR ''-''"
    using scan_number_first by fastforce
  with JNumber show ?thesis by (auto simp: starter_def is_ws_def is_digit_def)
qed (auto simp: starter_def is_ws_def)

lemma skip_ws_starter: "starter c \<Longrightarrow> skip_ws (c # s) = c # s"
  by (simp add: starter_def)

lemma skip_ws_render: "wf_json v \<Longrightarrow> skip_ws (render_value q v @ r) = render_value q v @ r"
  using render_value_first [of v q] skip_ws_starter by fastforce

lemma render_elems_first:
  assumes "list_all wf_json (v # vs)"
  shows "\<exists>c s. render_elems q (v # vs) = c # s \<and> starter c"
  using assms render_value_first [of v q] by (cases vs) auto

lemma is_ws_punct [simp]:
  "\<not> is_ws (CHR '','')" "\<not> is_ws (CHR '']'')" "\<not> is_ws (CHR ''}'')" "\<not> is_ws (CHR '':'')"
  "\<not> is_ws (CHR 0x22)"
  by (simp_all add: is_ws_def)

section \<open>Writers the scanner reads back\<close>

locale json_quoting =
  fixes body :: "string \<Rightarrow> string"
  assumes scan_body: "scan_string (body s @ r) = Some (coerce_utf8 s, r)"
begin

lemma scan_members_step:
  assumes v: "scan_value (render_value body v @ d # t') = Some (v', d # t')" and wf: "wf_json v"
    and d: "\<not> is_ws d"
  shows "scan_members (CHR 0x22 # body k @ CHR '':'' # render_value body v @ d # t') =
    (if d = CHR ''}'' then Some ([(coerce_utf8 k, v')], t')
     else if d = CHR '','' then map_option (\<lambda>(ms, r). ((coerce_utf8 k, v') # ms, r)) (scan_members (skip_ws t'))
     else None)"
  using v d by (subst scan_members.simps) (auto simp: scan_body skip_ws_render [OF wf])

lemma scan_render_aux:
  "q = body \<Longrightarrow> wf_json v \<Longrightarrow> delim r \<Longrightarrow> scan_value (render_value q v @ r) = Some (coerce_json v, r)"
  "q = body \<Longrightarrow> list_all wf_json vs \<Longrightarrow> vs \<noteq> [] \<Longrightarrow>
     scan_elems (render_elems q vs @ CHR '']'' # r) = Some (map coerce_json vs, r)"
  "q = body \<Longrightarrow> list_all (\<lambda>(k, v). wf_json v) ms \<Longrightarrow> ms \<noteq> [] \<Longrightarrow>
     scan_members (render_members q ms @ CHR ''}'' # r) =
       Some (map (\<lambda>(k, v). (coerce_utf8 k, coerce_json v)) ms, r)"
proof (induction q v and q vs and q ms arbitrary: r and r and r
    rule: render_value_render_elems_render_members.induct)
  case (1 q)
  then show ?case by (simp add: scan_value.simps)
next
  case (2 q b)
  then show ?case by (simp add: scan_value.simps)
next
  case (3 q lit)
  from 3 obtain c l where c: "lit = c # l" "is_digit c \<or> c = CHR ''-''"
    using scan_number_first by fastforce
  from 3 have "scan_number (lit @ r) = Some (lit, r)" using scan_number_append [of lit lit "[]" r] by simp
  with c number_start [OF c(2)] show ?case by (simp add: scan_value.simps)
next
  case (4 q s)
  then show ?case by (simp add: scan_value.simps scan_body)
next
  case (5 q vs)
  show ?case
  proof (cases vs)
    case Nil
    then show ?thesis by (simp add: scan_value.simps)
  next
    case (Cons v vs')
    then obtain c t where ct: "render_elems body vs = c # t" "starter c"
      using render_elems_first [of v vs' body] 5 by auto
    then have "skip_ws (render_elems body vs @ CHR '']'' # r) = render_elems body vs @ CHR '']'' # r"
      "\<not> HasPrefix (render_elems body vs @ CHR '']'' # r) '']''"
      by (auto simp: starter_def)
    moreover have "scan_elems (render_elems body vs @ CHR '']'' # r) = Some (map coerce_json vs, r)"
      using 5 Cons by simp
    ultimately show ?thesis using "5.prems"(1) by (simp add: scan_value.simps)
  qed
next
  case (6 q ms)
  show ?case
  proof (cases ms)
    case Nil
    then show ?thesis by (simp add: scan_value.simps)
  next
    case (Cons m ms')
    obtain k v where m: "m = (k, v)" by force
    obtain t where t: "render_members body ms = CHR 0x22 # t" using Cons m by (cases ms') auto
    moreover have "scan_members (render_members body ms @ CHR ''}'' # r) =
        Some (map (\<lambda>(k, v). (coerce_utf8 k, coerce_json v)) ms, r)"
      using 6 Cons by simp
    ultimately show ?thesis using "6.prems"(1) by (simp add: scan_value.simps)
  qed
next
  case (7 q)
  then show ?case by simp
next
  case (8 q v)
  then show ?case by (subst scan_elems.simps) simp
next
  case (9 q v w vs)
  obtain c t where ct: "render_elems body (w # vs) = c # t" "starter c"
    using render_elems_first [of w vs body] 9 by auto
  then have "skip_ws (render_elems body (w # vs) @ CHR '']'' # r) = render_elems body (w # vs) @ CHR '']'' # r"
    by (auto simp: starter_def)
  with 9 show ?case by (subst scan_elems.simps) simp
next
  case (10 q)
  then show ?case by simp
next
  case (11 q k v)
  then show ?case using scan_members_step [of v "CHR ''}''" r] by (simp add: is_ws_def)
next
  case (12 q k v m ms)
  obtain k' v' where m: "m = (k', v')" by force
  obtain t where t: "render_members body (m # ms) = CHR 0x22 # t" using m by (cases ms) auto
  with 12 show ?case
    using scan_members_step [of v "CHR '',''" "render_members body (m # ms) @ CHR ''}'' # r"]
    by (simp add: is_ws_def)
qed

lemmas scan_render = scan_render_aux [OF refl]

corollary json_scan_render: "wf_json v \<Longrightarrow> json_scan (render_value body v) = Some (coerce_json v)"
  using scan_render(1) [of v "[]"] skip_ws_render [of v body "[]"] by (simp add: json_scan_def)

end

end
