(* ===== verification/Json_Codec.thy ===== *)
theory Json_Codec
  imports Json
begin

text \<open>
  Decoding a scanned tree into dynamic values, and the encoder of \<^verbatim>\<open>encoding/json\<close>: strings with the
  HTML-sensitive characters escaped, maps in the bytewise order of their keys, numbers in the shortest
  form. The interpretation \<open>html\<close> shows that the scanner reads the encoder's strings back.
\<close>

section \<open>Decoding\<close>

definition digit_value :: "char \<Rightarrow> nat" where
  "digit_value c = ord c - 48"

definition signed_digits :: "string \<Rightarrow> int" where
  \<comment> \<open>digits with an optional sign, as in an exponent\<close>
  "signed_digits s =
     (case s of
        [] \<Rightarrow> 0
      | c # t \<Rightarrow>
          if c = CHR ''-'' then - digits_value (map digit_value t)
          else if c = CHR ''+'' then digits_value (map digit_value t)
          else digits_value (map digit_value s))"

definition decimal_value :: "string \<Rightarrow> rat" where
  \<comment> \<open>the exact value of an unsigned number literal\<close>
  "decimal_value b =
     (let ip = takeWhile is_digit b; r1 = dropWhile is_digit b;
          fp = (case r1 of c # t \<Rightarrow> if c = CHR ''.'' then takeWhile is_digit t else [] | [] \<Rightarrow> []);
          r2 = (case r1 of c # t \<Rightarrow> if c = CHR ''.'' then dropWhile is_digit t else r1 | [] \<Rightarrow> []);
          ex = (case r2 of [] \<Rightarrow> 0 | _ # t \<Rightarrow> signed_digits t)
      in of_int (digits_value (map digit_value (ip @ fp))) * pow10 (ex - int (length fp)))"

definition ParseFloat :: "string \<Rightarrow> float64 option" where
  \<comment> \<open>\<^verbatim>\<open>strconv.ParseFloat\<close> on a number literal: correctly rounded, an error on overflow\<close>
  "ParseFloat lit =
     (let neg = HasPrefix lit ''-''; m = fl (decimal_value (if neg then tl lit else lit))
      in if m < 2 ^ 1024 then Some (Fin neg m) else None)"

text \<open>The overflow test for evaluation: through the binary exponent.\<close>

lemma ParseFloat_code [code]:
  "ParseFloat lit =
     (let neg = HasPrefix lit ''-''; m = fl (decimal_value (if neg then tl lit else lit))
      in if m < 1 \<or> fexp m < 1024 then Some (Fin neg m) else None)"
proof -
  have "m < 1 \<or> fexp m < 1024 \<longleftrightarrow> m < 2 ^ 1024" for m :: rat
  proof (cases "m < 1")
    case False
    then have p: "0 < m" by simp
    have p2: "pow2 1024 = 2 ^ 1024" by (simp add: pow2_def)
    show ?thesis
    proof (cases "fexp m < 1024")
      case True
      then have "pow2 (fexp m + 1) \<le> pow2 1024" by (intro pow2_mono) simp
      with fexp_bounds [OF p] True p2 show ?thesis by auto
    next
      case False
      then have "pow2 1024 \<le> pow2 (fexp m)" by (intro pow2_mono) simp
      with fexp_bounds [OF p] False p2 \<open>\<not> m < 1\<close> show ?thesis by auto
    qed
  qed (auto intro: less_le_trans)
  then show ?thesis by (simp add: ParseFloat_def Let_def)
qed

fun to_any :: "json \<Rightarrow> any option"
  and to_anys :: "json list \<Rightarrow> any list option"
  and to_fields :: "(string \<times> json) list \<Rightarrow> (string \<times> any) list \<Rightarrow> (string \<times> any) list option" where
  "to_any JNull = Some ANil"
| "to_any (JBool b) = Some (ABool b)"
| "to_any (JNumber lit) = map_option AFloat (ParseFloat lit)"
| "to_any (JString s) = Some (AString s)"
| "to_any (JArray vs) = map_option AList (to_anys vs)"
| "to_any (JObject ms) = map_option AMap (to_fields ms [])"
| "to_anys [] = Some []"
| "to_anys (v # vs) =
     (case to_any v of None \<Rightarrow> None | Some a \<Rightarrow> map_option (\<lambda>as. a # as) (to_anys vs))"
| "to_fields [] m = Some m"
| "to_fields ((k, v) # ms) m =
     (case to_any v of None \<Rightarrow> None | Some a \<Rightarrow> to_fields ms (map_store m k a))"

definition json_unmarshal :: "string \<Rightarrow> any option" where
  \<comment> \<open>\<^verbatim>\<open>json.Unmarshal\<close> into an \<^verbatim>\<open>interface{}\<close>\<close>
  "json_unmarshal s = (case json_scan s of None \<Rightarrow> None | Some j \<Rightarrow> to_any j)"

section \<open>Encoding\<close>

definition hex4 :: "nat \<Rightarrow> string" where
  "hex4 n = [hex_digit (n div 4096 mod 16), hex_digit (n div 256 mod 16), hex_digit (n div 16 mod 16),
     hex_digit (n mod 16)]"

definition short_escape :: "nat \<Rightarrow> string option" where
  \<comment> \<open>the two-character escapes both writers use\<close>
  "short_escape r =
     (if r = 0x22 then Some [CHR 0x5C, CHR 0x22] else if r = 0x5C then Some [CHR 0x5C, CHR 0x5C]
      else if r = 8 then Some [CHR 0x5C, CHR ''b''] else if r = 12 then Some [CHR 0x5C, CHR ''f'']
      else if r = 10 then Some [CHR 0x5C, CHR ''n''] else if r = 13 then Some [CHR 0x5C, CHR ''r'']
      else if r = 9 then Some [CHR 0x5C, CHR ''t''] else None)"

definition u_escape :: "nat \<Rightarrow> string" where
  "u_escape r = [CHR 0x5C, CHR ''u''] @ hex4 r"

definition html_escape :: "nat \<Rightarrow> string" where
  "html_escape r =
     (case short_escape r of
        Some e \<Rightarrow> e
      | None \<Rightarrow>
          if r < 0x20 \<or> r = 0x3C \<or> r = 0x3E \<or> r = 0x26 \<or> r = 0x2028 \<or> r = 0x2029 then u_escape r
          else EncodeRune r)"

lemma html_escape_code [code]:
  "html_escape r =
     (case short_escape r of
        Some e \<Rightarrow> e
      | None \<Rightarrow>
          if r < 0x80 then
            if r < 0x20 \<or> r = 0x3C \<or> r = 0x3E \<or> r = 0x26 then u_escape r else EncodeRune r
          else if r = 0x2028 \<or> r = 0x2029 then u_escape r else EncodeRune r)"
  by (auto simp: html_escape_def split: option.splits)

function html_body :: "string \<Rightarrow> string" where
  "html_body [] = [CHR 0x22]"
| "html_body (c # s) =
     (case DecodeRune c s of
        (r, k) \<Rightarrow>
          (if r = RuneError \<and> k = 0 then u_escape RuneError else html_escape r) @ html_body (drop k s))"
  by pat_completeness auto
termination
  by (relation "measure length") auto

lemma html_body_code [code]:
  "html_body [] = [CHR 0x22]"
  "html_body (c # s) =
     (case DecodeRune c s of
        (r, k) \<Rightarrow>
          (if r < 0x80 then html_escape r
           else if r = RuneError \<and> k = 0 then u_escape RuneError else html_escape r) @ html_body (drop k s))"
  by (auto simp: RuneError_def split: prod.splits)

definition clean_exponent :: "string \<Rightarrow> string" where
  \<comment> \<open>\<^verbatim>\<open>e-09\<close> becomes \<^verbatim>\<open>e-9\<close>\<close>
  "clean_exponent b =
     (let n = length b
      in if 4 \<le> n \<and> b ! (n - 4) = CHR ''e'' \<and> (b ! (n - 3) = CHR ''-'' \<or> b ! (n - 3) = CHR ''+'') \<and>
            b ! (n - 2) = CHR ''0''
         then take (n - 2) b @ [b ! (n - 1)] else b)"

definition exp_range :: "rat \<Rightarrow> bool" where
  \<comment> \<open>the magnitudes printed with an exponent: nonzero, below 1e-6 or from 1e21\<close>
  "exp_range m = (m \<noteq> 0 \<and> (m < fl (1 / 1000000) \<or> 10 ^ 21 \<le> m))"

fun encode_float :: "float64 \<Rightarrow> string option" where
  "encode_float (Fin neg m) =
     Some (if exp_range m then clean_exponent (FormatFloat_e neg m) else FormatFloat_f neg m)"
| "encode_float _ = None"

fun to_json :: "any \<Rightarrow> json option"
  and to_jsons :: "any list \<Rightarrow> json list option"
  and to_members :: "(string \<times> any) list \<Rightarrow> (string \<times> json) list option" where
  "to_json ANil = Some JNull"
| "to_json (ABool b) = Some (JBool b)"
| "to_json (AInt n) = Some (JNumber (show_int n))"
| "to_json (AFloat f) = map_option JNumber (encode_float f)"
| "to_json (AString s) = Some (JString s)"
| "to_json (AList vs) = map_option JArray (to_jsons vs)"
| "to_json (AMap m) = map_option (\<lambda>ms. JObject (sort_key fst ms)) (to_members m)"
| "to_jsons [] = Some []"
| "to_jsons (v # vs) = (case to_json v of None \<Rightarrow> None | Some j \<Rightarrow> map_option (\<lambda>js. j # js) (to_jsons vs))"
| "to_members [] = Some []"
| "to_members ((k, v) # ms) =
     (case to_json v of None \<Rightarrow> None | Some j \<Rightarrow> map_option (\<lambda>js. (k, j) # js) (to_members ms))"

definition render_html :: "json \<Rightarrow> string" where
  "render_html j = render_value html_body j"

definition json_marshal :: "any \<Rightarrow> string option" where
  \<comment> \<open>\<^verbatim>\<open>json.Marshal\<close>\<close>
  "json_marshal v = map_option render_html (to_json v)"

section \<open>The scanner reads the encoder's strings\<close>

lemma hex_value_hex_digit: "n < 16 \<Longrightarrow> hex_value (hex_digit n) = Some n"
  by (auto simp: hex_digit_def hex_value_def ord_byte)

lemma hex4_value:
  assumes "(n::nat) < 65536"
  shows "n div 4096 mod 16 * 4096 + n div 256 mod 16 * 256 + n div 16 mod 16 * 16 + n mod 16 = n"
proof -
  have "n div 4096 mod 16 = n div 4096" using assms by auto
  moreover have "n div 256 = n div 4096 * 16 + n div 256 mod 16"
    using div_mult_mod_eq [of "n div 256" 16] by (simp add: div_mult2_eq [of n 256 16, simplified])
  moreover have "n div 16 = n div 256 * 16 + n div 16 mod 16"
    using div_mult_mod_eq [of "n div 16" 16] by (simp add: div_mult2_eq [of n 16 16, simplified])
  ultimately show ?thesis using div_mult_mod_eq [of n 16] by linarith
qed

lemma getu4_hex4: "n < 65536 \<Longrightarrow> getu4 (hex4 n @ s) = Some (n, s)"
  using hex4_value [of n] unfolding hex4_def by (simp add: hex_value_hex_digit)

definition prepend :: "string \<Rightarrow> (string \<times> string) option \<Rightarrow> (string \<times> string) option" where
  "prepend u = map_option (\<lambda>(str, r). (u @ str, r))"

lemma scan_u_escape:
  assumes "n < 0xD800 \<or> 0xE000 \<le> n" "n < 65536"
  shows "scan_string (u_escape n @ s) = prepend (EncodeRune n) (scan_string s)"
proof -
  have "unicode_escape (hex4 n @ s) = Some (EncodeRune n, s)"
    using assms by (subst unicode_escape.simps) (auto simp: getu4_hex4)
  then show ?thesis by (simp add: u_escape_def prepend_def)
qed

lemma byte_consts: "byte 34 = CHR 0x22" "byte 92 = CHR 0x5C"
  by code_simp+

lemma scan_short_escape:
  assumes "short_escape n = Some e"
  shows "scan_string (e @ s) = prepend (EncodeRune n) (scan_string s)"
  using assms
  by (auto simp: short_escape_def simple_escape_def prepend_def EncodeRune_1 byte_consts split: if_splits)

lemma DecodeRune_EncodeRune:
  assumes "valid_rune r" "EncodeRune r = c # t"
  shows "DecodeRune c (t @ s) = (r, length t)"
proof -
  consider "r < 0x80" | "0x80 \<le> r" "r < 0x800" | "0x800 \<le> r" "r < 0x10000" | "0x10000 \<le> r" by linarith
  then show ?thesis
  proof cases
    case 1
    then show ?thesis using assms by (auto simp: EncodeRune_1 decode_encode_1)
  next
    case 2
    then show ?thesis using assms by (auto simp: EncodeRune_2 decode_encode_2)
  next
    case 3
    with assms show ?thesis by (auto simp: EncodeRune_3 decode_encode_3)
  next
    case 4
    with assms show ?thesis by (auto simp: EncodeRune_4 decode_encode_4)
  qed
qed

lemma EncodeRune_first: "valid_rune r \<Longrightarrow> 0x80 \<le> r \<Longrightarrow> \<exists>c t. EncodeRune r = c # t \<and> 0x80 \<le> ord c"
proof -
  assume r: "valid_rune r" "0x80 \<le> r"
  obtain c t where e: "EncodeRune r = c # t"
    by (cases "EncodeRune r") (auto simp: EncodeRune_def Let_def split: if_splits)
  have "DecodeRune c t = (r, length t)" using DecodeRune_EncodeRune [OF r(1) e, of "[]"] by simp
  then have "0x80 \<le> ord c" using r(2) by (auto simp: DecodeRune_def Let_def split: if_splits)
  with e show ?thesis by blast
qed

lemma scan_EncodeRune:
  assumes "valid_rune r" "0x20 \<le> r" "r \<noteq> 0x22" "r \<noteq> 0x5C"
  shows "scan_string (EncodeRune r @ s) = prepend (EncodeRune r) (scan_string s)"
proof (cases "r < 0x80")
  case True
  then have e: "EncodeRune r = [byte r]" "ord (byte r) = r" by (simp_all add: EncodeRune_1 ord_byte)
  have "byte r \<noteq> CHR 0x22" "byte r \<noteq> CHR 0x5C"
    using assms(3,4) e(2) by (auto simp del: of_char_of)
  then show ?thesis
    using True e assms by (simp add: prepend_def decode_encode_1 EncodeRune_1)
next
  case False
  with assms(1) obtain c t where c: "EncodeRune r = c # t" "0x80 \<le> ord c" using EncodeRune_first [of r] by auto
  then have "c \<noteq> CHR 0x22" "c \<noteq> CHR 0x5C" by auto
  with c DecodeRune_EncodeRune [OF assms(1) c(1), of s] show ?thesis
    by (simp add: prepend_def)
qed

lemma scan_html_escape:
  assumes "valid_rune r"
  shows "scan_string (html_escape r @ s) = prepend (EncodeRune r) (scan_string s)"
proof (cases "short_escape r")
  case (Some e)
  then show ?thesis by (simp add: html_escape_def scan_short_escape)
next
  case None
  then have ne: "r \<noteq> 0x22" "r \<noteq> 0x5C" by (auto simp: short_escape_def split: if_splits)
  show ?thesis
  proof (cases "r < 0x20 \<or> r = 0x3C \<or> r = 0x3E \<or> r = 0x26 \<or> r = 0x2028 \<or> r = 0x2029")
    case True
    with None show ?thesis by (auto simp: html_escape_def intro!: scan_u_escape)
  next
    case False
    with None ne assms show ?thesis by (auto simp: html_escape_def intro!: scan_EncodeRune)
  qed
qed

lemma scan_html_body: "scan_string (html_body s @ r) = Some (coerce_utf8 s, r)"
proof (induction s rule: html_body.induct)
  case 1
  then show ?case by simp
next
  case (2 c s)
  obtain u k where d: "DecodeRune c s = (u, k)" by force
  have v: "valid_rune u" using valid_DecodeRune [of c s] d by simp
  have tail: "coerce_utf8 (c # s) = EncodeRune u @ coerce_utf8 (drop k s)"
    using d by (simp add: coerce_utf8_def encode_runes_def)
  have IH: "scan_string (html_body (drop k s) @ r) = Some (coerce_utf8 (drop k s), r)"
    using 2 d by simp
  show ?case
  proof (cases "u = RuneError \<and> k = 0")
    case True
    then show ?thesis
      using d IH tail scan_u_escape [of RuneError "html_body s @ r"]
      by (simp add: RuneError_def prepend_def)
  next
    case False
    then show ?thesis
      using d IH tail scan_html_escape [OF v, of "html_body (drop k s) @ r"]
      by (auto simp: prepend_def)
  qed
qed

interpretation html: json_quoting html_body
  by unfold_locales (rule scan_html_body)

lemma html_body_valid: "valid_utf8 (html_body s)"
proof (induction s rule: html_body.induct)
  case 1
  show ?case by (rule valid_utf8_literal) simp
next
  case (2 c s)
  obtain r k where d: "DecodeRune c s = (r, k)" by force
  have r: "valid_rune r" using valid_DecodeRune [of c s] d by simp
  have hex: "ord (hex_digit n) < 0x80" if "n < 16" for n using that by (auto simp: hex_digit_def ord_byte)
  have u: "valid_utf8 (u_escape q)" for q by (rule valid_utf8_literal) (simp add: u_escape_def hex4_def hex)
  have "valid_utf8 (EncodeRune r)" using coerce_encode_runes [of "[r]"] r by (simp add: encode_runes_def)
  moreover have "valid_utf8 e" if "short_escape r = Some e" for e
    by (rule valid_utf8_literal) (use that in \<open>auto simp: short_escape_def split: if_splits\<close>)
  ultimately have "valid_utf8 (if r = RuneError \<and> k = 0 then u_escape RuneError else html_escape r)"
    using u by (simp add: html_escape_def split: option.splits)
  with 2 [OF d [symmetric]] d show ?case by (simp add: valid_append)
qed

lemma json_scan_render_html: "wf_json j \<Longrightarrow> json_scan (render_html j) = Some (coerce_json j)"
  unfolding render_html_def by (rule html.json_scan_render)

end
