(* ===== verification/Float_Text.thy ===== *)
theory Float_Text
  imports Json_Codec
begin

text \<open>
  Numbers survive printing: for every double, the shortest decimal that \<^verbatim>\<open>strconv.FormatFloat\<close> prints,
  in either format, is a JSON number literal, and \<^verbatim>\<open>strconv.ParseFloat\<close> reads it back as the same
  double. The heart is that 17 significant digits always suffice.
\<close>

section \<open>Powers of ten\<close>

lemma pow10_pos [simp]: "0 < pow10 e"
  by (simp add: pow10_def)

lemma pow10_nonneg [simp]: "\<not> pow10 e < 0" "pow10 e \<noteq> 0"
  using pow10_pos [of e] by linarith+

lemma pow10_powi: "pow10 e = 10 powi e"
  by (simp add: pow10_def power_int_def inverse_eq_divide power_one_over)

lemma pow10_add: "pow10 (a + b) = pow10 a * pow10 b"
  by (simp add: pow10_powi power_int_add)

lemma pow10_of_nat: "pow10 (int n) = 10 ^ n"
  by (simp add: pow10_def)

lemma pow10_1 [simp]: "pow10 1 = 10"
  by (simp add: pow10_def)

lemma pow10_0 [simp]: "pow10 0 = 1"
  by (simp add: pow10_def)

lemma pow10_minus: "pow10 (- a) = 1 / pow10 a"
  by (simp add: pow10_powi power_int_minus_divide)

lemma num_digits_bounds:
  "0 < n \<Longrightarrow> pow10 (num_digits n - 1) \<le> of_int n \<and> of_int n + 1 \<le> pow10 (num_digits n)"
proof (induction n rule: num_digits.induct)
  case (1 n)
  define m where "m = n div 10"
  have e: "num_digits n = 1 + num_digits m" using 1 by (subst num_digits.simps) (simp add: m_def)
  show ?case
  proof (cases "m = 0")
    case True
    then have "n < 10" using 1 by (simp add: m_def)
    moreover have "num_digits m = 0" using True by (subst num_digits.simps) simp
    ultimately show ?thesis using 1(2) e by simp
  next
    case False
    then have m: "0 < m" using 1(2) by (simp add: m_def pos_imp_zdiv_neg_iff dual_order.order_iff_strict pos_imp_zdiv_nonneg_iff)
    have IH: "pow10 (num_digits m - 1) \<le> of_int m" "of_int m + 1 \<le> pow10 (num_digits m)"
      using 1 m by (auto simp: m_def)
    have "10 * m \<le> n" "n + 1 \<le> 10 * (m + 1)" by (simp_all add: m_def)
    then have "(of_int (10 * m) :: rat) \<le> of_int n" "(of_int (n + 1) :: rat) \<le> of_int (10 * (m + 1))"
      by (simp_all only: of_int_le_iff)
    then have "(10::rat) * of_int m \<le> of_int n" "(of_int n :: rat) + 1 \<le> 10 * (of_int m + 1)" by simp_all
    moreover have "pow10 (num_digits n - 1) = 10 * pow10 (num_digits m - 1)"
      using pow10_add [of 1 "num_digits m - 1"] by (simp add: e)
    moreover have "pow10 (num_digits n) = 10 * pow10 (num_digits m)"
      using pow10_add [of 1 "num_digits m"] by (simp add: e)
    moreover have "10 * (of_int m + 1) \<le> 10 * pow10 (num_digits m)" using IH(2) by simp
    ultimately show ?thesis using IH(1) by simp
  qed
qed

lemma decexp_lower:
  assumes "0 < x"
  shows "pow10 (decexp x - 1) \<le> x"
proof (cases "1 \<le> x")
  case True
  then have "0 < \<lfloor>x\<rfloor>" by simp
  from num_digits_bounds [OF this] True have "pow10 (decexp x - 1) \<le> of_int \<lfloor>x\<rfloor>" by (simp add: decexp_def)
  then show ?thesis by linarith
next
  case False
  define n where "n = \<lceil>1 / x\<rceil> - 1"
  have "1 < 1 / x" using assms False by simp
  then have n: "0 < n" unfolding n_def by linarith
  have "1 / x \<le> of_int n + 1" unfolding n_def by linarith
  with num_digits_bounds [OF n] have "1 / x \<le> pow10 (num_digits n)" by linarith
  then have "1 / pow10 (num_digits n) \<le> x" using assms by (simp add: field_simps)
  moreover have "decexp x - 1 = - num_digits n" using False unfolding decexp_def n_def by simp
  ultimately show ?thesis by (simp add: pow10_minus)
qed

section \<open>Rounding back to a double\<close>

lemma abs_less_bounds: "\<bar>a - b\<bar> < (d::rat) \<Longrightarrow> a < b + d \<and> b - d < a"
  by (simp add: abs_less_iff algebra_simps)

lemma round_even_unique: "\<bar>z - of_int n\<bar> < 1 / 2 \<Longrightarrow> round_even z = n"
proof -
  assume "\<bar>z - of_int n\<bar> < 1 / 2"
  with round_even_bounds [of z] have "(of_int (round_even z) :: rat) < of_int (n + 1)"
    "(of_int (n - 1) :: rat) < of_int (round_even z)"
    unfolding abs_le_iff abs_less_iff of_int_add of_int_diff of_int_1 by linarith+
  then show ?thesis by (simp only: of_int_less_iff)
qed

lemma fl_pos_near:
  assumes "0 < y" "ulp y = u" "\<bar>y - of_int n * u\<bar> < u / 2"
  shows "fl_pos y = of_int n * u"
proof -
  have u: "0 < u" using assms(2) ulp_pos [of y] by simp
  have "\<bar>y / u - of_int n\<bar> = \<bar>y - of_int n * u\<bar> / u"
    using u by (simp add: field_simps abs_divide flip: abs_mult_pos)
  also have "\<dots> < 1 / 2" using assms(3) u by (simp add: field_simps)
  finally show ?thesis using assms(2) by (simp add: fl_pos_def round_even_unique)
qed

lemma fexp_eqI:
  assumes "pow2 e \<le> y" "y < pow2 (e + 1)"
  shows "fexp y = e"
proof -
  have y: "0 < y" using assms(1) pow2_pos [of e] by linarith
  have "fexp y \<le> e"
  proof (rule ccontr)
    assume "\<not> fexp y \<le> e"
    then have "pow2 (e + 1) \<le> pow2 (fexp y)" by (intro pow2_mono) simp
    with assms fexp_bounds [OF y] show False by linarith
  qed
  moreover have "e \<le> fexp y"
  proof (rule ccontr)
    assume "\<not> e \<le> fexp y"
    then have "pow2 (fexp y + 1) \<le> pow2 e" by (intro pow2_mono) simp
    with assms fexp_bounds [OF y] show False by linarith
  qed
  ultimately show ?thesis by simp
qed

text \<open>
  A number closer to a double \<open>x\<close> than half its spacing, and a quarter of it from below, rounds to
  \<open>x\<close>.
\<close>

lemma fl_pos_absorb:
  assumes x: "0 < x" "fl_pos x = x" and y: "\<bar>y - x\<bar> < ulp x / 2"
    and below: "x = pow2 (fexp x) \<Longrightarrow> \<bar>y - x\<bar> < ulp x / 4"
  shows "0 < y \<and> fl_pos y = x"
proof -
  define u where "u = ulp x"
  define e where "e = fexp x"
  define m where "m = round_even (x / u)"
  have u: "0 < u" by (simp add: u_def)
  have xm: "x = of_int m * u" using x(2) by (simp add: fl_pos_def u_def m_def)
  have b: "pow2 e \<le> x" "x < pow2 (e + 1)" using fexp_bounds [OF x(1)] by (simp_all add: e_def)
  have m1: "1 \<le> m"
  proof (rule ccontr)
    assume "\<not> 1 \<le> m"
    then have "of_int m * u \<le> 0" using u by (simp add: mult_nonpos_nonneg)
    with xm x(1) show False by simp
  qed
  then have "u \<le> x" unfolding xm using u by simp
  have y1: "y < x + u / 2" and y2: "x - u / 2 < y" using abs_less_bounds [OF y] by (simp_all add: u_def)
  have y0: "0 < y" using y2 u \<open>u \<le> x\<close> by linarith
  have near: "\<bar>y - of_int m * u\<bar> < u / 2" using y by (simp only: u_def [symmetric] xm [symmetric])
  have same: "fl_pos y = x" if "ulp y = u"
    using fl_pos_near [OF y0 that near] by (simp only: xm [symmetric])
  show ?thesis
  proof (cases "- 1022 \<le> e")
    case False
    have ue: "u = pow2 (- 1074)" using False by (simp add: u_def ulp_def e_def)
    have "x < pow2 (- 1022)" using b(2) False pow2_mono [of "e + 1" "- 1022"] by linarith
    moreover have "u / 2 \<le> pow2 (- 1022)"
      using pow2_mono [of "- 1074" "- 1022"] u ue by linarith
    ultimately have "y < pow2 (- 1021)"
      using y1 pow2_add [of 1 "- 1022"] by (simp add: pow2_def [of 1])
    moreover have "pow2 (fexp y) \<le> y" using fexp_bounds [OF y0] by simp
    ultimately have "pow2 (fexp y) < pow2 (- 1021)" by linarith
    then have "fexp y < - 1021" using pow2_mono [of "- 1021" "fexp y"] by linarith
    then have "ulp y = u" by (simp add: ulp_def ue)
    with same y0 show ?thesis by simp
  next
    case True
    have ue: "u = pow2 (e - 52)" using True by (simp add: u_def ulp_def e_def)
    have p1: "pow2 (e + 1) = of_int (2 ^ 53) * u" and p0: "pow2 e = of_int (2 ^ 52) * u"
      using pow2_split_52 [of e] pow2_split_52' [of e] by (simp_all add: ue)
    have "of_int m * u < of_int (2 ^ 53) * u" using b(2) xm p1 by simp
    then have "of_int m < (of_int (2 ^ 53) :: rat)" using u by simp
    then have "m + 1 \<le> 2 ^ 53" by (simp only: of_int_less_iff)
    then have "of_int (m + 1) * u \<le> of_int (2 ^ 53) * u"
      using u by (intro mult_right_mono) (simp_all only: of_int_le_iff less_imp_le)
    then have "x + u \<le> pow2 (e + 1)" unfolding p1 by (simp add: xm algebra_simps)
    then have yhi: "y < pow2 (e + 1)" using y1 u by linarith
    show ?thesis
    proof (cases "pow2 e \<le> y")
      case True
      then have "ulp y = u" using fexp_eqI [OF True yhi] \<open>- 1022 \<le> e\<close> by (simp add: ulp_def ue)
      with same y0 show ?thesis by simp
    next
      case False
      have xe: "x = pow2 e"
      proof (rule ccontr)
        assume "x \<noteq> pow2 e"
        with b(1) have "pow2 e < x" by simp
        then have "of_int (2 ^ 52) * u < of_int m * u" by (simp only: xm p0)
        then have "(of_int (2 ^ 52) :: rat) < of_int m" using u by simp
        then have "2 ^ 52 + 1 \<le> m" by (simp only: of_int_less_iff)
        then have "of_int (2 ^ 52 + 1) * u \<le> of_int m * u"
          using u by (intro mult_right_mono) (simp_all only: of_int_le_iff less_imp_le)
        then have "pow2 e + u \<le> x" using xm p0 by (simp add: algebra_simps)
        with False y2 show False using u by linarith
      qed
      show ?thesis
      proof (cases "e = - 1022")
        case True
        have "fexp y < e + 1" using False fexp_bounds [OF y0] pow2_mono [of e "fexp y"] by linarith
        then have "ulp y = u" using True by (simp add: ulp_def ue)
        with same y0 show ?thesis by simp
      next
        case False': False
        have h: "pow2 (e - 1 - 52) = u / 2"
          using pow2_add [of "-1" "e - 52"] by (simp add: ue pow2_def [of "-1"])
        have y4: "\<bar>y - x\<bar> < u / 4" using below [OF xe [unfolded e_def]] by (simp only: u_def)
        then have y5: "x - u / 4 < y" using abs_less_bounds [OF y4] by simp
        have "pow2 e = 2 * pow2 (e - 1)" using pow2_add [of 1 "e - 1"] by (simp add: pow2_def [of 1])
        moreover have "u \<le> pow2 e" using pow2_mono [of "e - 52" e] by (simp add: ue)
        ultimately have "pow2 (e - 1) \<le> y" using y5 xe u by linarith
        moreover have "y < pow2 (e - 1 + 1)" using False by simp
        ultimately have "fexp y = e - 1" by (rule fexp_eqI)
        then have uy: "ulp y = u / 2" using False' True h by (simp add: ulp_def)
        have x2: "of_int (2 ^ 53) * (u / 2) = x" unfolding xe p0 by simp
        have "\<bar>y - of_int (2 ^ 53) * (u / 2)\<bar> < u / 2 / 2" unfolding x2 using y4 by simp
        from fl_pos_near [OF y0 uy this] have "fl_pos y = x" by (simp only: x2)
        with y0 show ?thesis by simp
      qed
    qed
  qed
qed

lemma x_less_ulp:
  assumes "0 < x"
  shows "x < of_int (2 ^ 53) * ulp x" and "x = pow2 (fexp x) \<Longrightarrow> x \<le> of_int (2 ^ 52) * ulp x"
proof -
  have u: "pow2 (fexp x - 52) \<le> ulp x" unfolding ulp_def by (intro pow2_mono) simp
  have "x < of_int (2 ^ 53) * pow2 (fexp x - 52)" using fexp_bounds [OF assms] pow2_split_52 by simp
  also have "\<dots> \<le> of_int (2 ^ 53) * ulp x" using u by (intro mult_left_mono) auto
  finally show "x < of_int (2 ^ 53) * ulp x" .
  assume "x = pow2 (fexp x)"
  then have "x = of_int (2 ^ 52) * pow2 (fexp x - 52)" using pow2_split_52' [of "fexp x"] by simp
  also have "\<dots> \<le> of_int (2 ^ 52) * ulp x" using u by (intro mult_left_mono) auto
  finally show "x \<le> of_int (2 ^ 52) * ulp x" .
qed

lemma seventeen_digits:
  assumes "0 < x" "fl_pos x = x"
  defines "c \<equiv> round_even (x * pow10 (17 - decexp x))"
  shows "0 < of_int c * pow10 (decexp x - 17) \<and> fl_pos (of_int c * pow10 (decexp x - 17)) = x"
proof (rule fl_pos_absorb [OF assms(1,2)])
  define k where "k = decexp x"
  define t where "t = pow10 (k - 17)"
  have t: "0 < t" by (simp add: t_def)
  have inv: "pow10 (17 - k) * t = 1" using pow10_add [of "17 - k" "k - 17"] by (simp add: t_def)
  have "\<bar>of_int c - x * pow10 (17 - k)\<bar> \<le> 1 / 2" unfolding c_def k_def by (rule round_even_bounds)
  then have "\<bar>of_int c - x * pow10 (17 - k)\<bar> * t \<le> 1 / 2 * t" using t by (intro mult_right_mono) auto
  moreover have "\<bar>of_int c - x * pow10 (17 - k)\<bar> * t = \<bar>(of_int c - x * pow10 (17 - k)) * t\<bar>"
    using t by (simp add: abs_mult)
  moreover have "(of_int c - x * pow10 (17 - k)) * t = of_int c * t - x"
    using inv by (simp add: left_diff_distrib mult.assoc)
  ultimately have d: "\<bar>of_int c * t - x\<bar> \<le> t / 2" by simp
  have "pow10 (k - 1) = 10 ^ 16 * t" using pow10_add [of 16 "k - 17"] by (simp add: t_def pow10_def [of 16])
  with decexp_lower [OF assms(1)] have tx: "10 ^ 16 * t \<le> x" by (simp add: k_def)
  have "10 ^ 16 * t < of_int (2 ^ 53) * ulp x" using tx x_less_ulp(1) [OF assms(1)] by linarith
  also have "of_int (2 ^ 53) * ulp x \<le> 10 ^ 16 * ulp x" using ulp_pos [of x] by simp
  finally have "t < ulp x" by simp
  with d show "\<bar>of_int c * pow10 (decexp x - 17) - x\<bar> < ulp x / 2" by (simp add: t_def k_def)
  assume "x = pow2 (fexp x)"
  then have "10 ^ 16 * t \<le> of_int (2 ^ 52) * ulp x" using tx x_less_ulp(2) [OF assms(1)] by linarith
  also have "of_int (2 ^ 52) * ulp x < 10 ^ 16 * (ulp x / 2)" using ulp_pos [of x] by simp
  finally have "t < ulp x / 2" by simp
  with d show "\<bar>of_int c * pow10 (decexp x - 17) - x\<bar> < ulp x / 4" by (simp add: t_def k_def)
qed

lemma fl_eq_pos: "fl y = x \<Longrightarrow> 0 < x \<Longrightarrow> 0 < y"
proof (rule ccontr)
  assume "fl y = x" "0 < x" "\<not> 0 < y"
  with fl_mono [of y 0] show False by simp
qed

lemma mult_pow10_pos [simp]: "0 < of_int c * pow10 e \<longleftrightarrow> 0 < c"
  by (auto simp: zero_less_mult_iff)

lemma shortest_from_correct:
  assumes "0 < x" "fl x = x"
  shows "shortest_from fuel n x (decexp x) = (c, e) \<Longrightarrow> 0 < c \<and> fl (of_int c * pow10 e) = x"
proof (induction fuel arbitrary: n)
  case 0
  have "fl_pos x = x" using assms by (simp add: fl_def)
  from seventeen_digits [OF assms(1) this] 0 have "0 < of_int c * pow10 e" "fl_pos (of_int c * pow10 e) = x"
    by auto
  then show ?case by (simp add: fl_def)
next
  case (Suc fuel)
  have pos: "0 < c" if "fl (of_int c * pow10 e) = x" for c e
    using fl_eq_pos [OF that assms(1)] by simp
  have "fl (of_int c * pow10 e) = x" using Suc by (auto simp: Let_def split: if_splits)
  with pos show ?case by blast
qed

lemma strip_zeros_value:
  "strip_zeros c e = (c', e') \<Longrightarrow> 0 < c \<Longrightarrow> 0 < c' \<and> of_int c' * pow10 e' = of_int c * pow10 e"
proof (induction c e rule: strip_zeros.induct)
  case (1 c e)
  show ?case
  proof (cases "0 < c \<and> c mod 10 = 0")
    case True
    then have c: "c = c div 10 * 10" by auto
    then have pos: "0 < c div 10" using True by linarith
    have "strip_zeros (c div 10) (e + 1) = (c', e')" using 1(2) True by (simp add: strip_zeros.simps [of c e])
    with 1(1) True pos have "0 < c' \<and> of_int c' * pow10 e' = of_int (c div 10) * pow10 (e + 1)" by blast
    moreover have "of_int (c div 10) * pow10 (e + 1) = of_int c * pow10 e"
      by (subst (2) c) (simp add: pow10_add)
    ultimately show ?thesis by simp
  next
    case False
    with 1 show ?thesis by (auto simp: strip_zeros.simps [of c e])
  qed
qed

text \<open>The digits of a positive number do not start with a zero.\<close>

lemma int_digits_first: "0 < c \<Longrightarrow> hd (int_digits c) \<noteq> 0"
proof (induction c rule: int_digits.induct)
  case (1 c)
  show ?case
  proof (cases "c < 10")
    case True
    with 1 show ?thesis by (simp add: int_digits.simps [of c])
  next
    case False
    with 1 have "hd (int_digits (c div 10)) \<noteq> 0" by simp
    with False show ?thesis by (simp add: int_digits.simps [of c])
  qed
qed

definition good_digits :: "nat list \<Rightarrow> bool" where
  "good_digits ds = (ds \<noteq> [] \<and> hd ds \<noteq> 0 \<and> list_all (\<lambda>d. d < 10) ds)"

definition exact_value :: "nat list \<Rightarrow> int \<Rightarrow> rat" where
  "exact_value ds dp = of_int (digits_value ds) * pow10 (dp - int (length ds))"

lemma decimal_digits_correct:
  assumes "0 < m" "fl m = m" "decimal_digits m = (ds, dp)"
  shows "good_digits ds \<and> fl (exact_value ds dp) = m"
proof -
  obtain c0 e0 where s: "shortest m = (c0, e0)" by force
  obtain c e where z: "strip_zeros c0 e0 = (c, e)" by force
  have c0: "0 < c0" "fl (of_int c0 * pow10 e0) = m"
    using shortest_from_correct [OF assms(1,2)] s by (simp_all add: shortest_def)
  have c: "0 < c" "of_int c * pow10 e = of_int c0 * pow10 e0" using strip_zeros_value [OF z c0(1)] by auto
  have ds: "ds = int_digits c" "dp = int (length ds) + e"
    using assms(1,3) s z by (auto simp: decimal_digits_def Let_def)
  have "list_all (\<lambda>d. d < 10) ds" using int_digits_small [of c] c(1) ds(1) by (auto simp: list_all_iff)
  then show ?thesis using c c0 ds int_digits_first [OF c(1)] by (simp add: good_digits_def exact_value_def)
qed

section \<open>The text of a number\<close>

lemma is_digit_byte: "d < 10 \<Longrightarrow> is_digit (byte (48 + d))"
  by (simp add: is_digit_def ord_byte)

lemma digit_value_byte: "d < 10 \<Longrightarrow> digit_value (byte (48 + d)) = d"
  by (simp add: digit_value_def ord_byte)

lemma digits_span:
  assumes "list_all (\<lambda>d. d < 10) ds" "s = [] \<or> \<not> is_digit (hd s)"
  shows "takeWhile is_digit (show_digits ds @ s) = show_digits ds"
    and "dropWhile is_digit (show_digits ds @ s) = s"
  using assms by (induction ds) (auto simp: show_digits_def is_digit_byte takeWhile_eq_Nil_iff dropWhile_eq_self_iff)

lemma map_digit_value: "list_all (\<lambda>d. d < 10) ds \<Longrightarrow> map digit_value (show_digits ds) = ds"
  by (induction ds) (auto simp: show_digits_def digit_value_byte)

lemma show_digits_append: "show_digits (xs @ ys) = show_digits xs @ show_digits ys"
  by (simp add: show_digits_def)

lemma show_digits_Nil_iff [simp]: "show_digits ds = [] \<longleftrightarrow> ds = []"
  by (simp add: show_digits_def)

lemma length_show_digits [simp]: "length (show_digits ds) = length ds"
  by (simp add: show_digits_def)

lemma not_digit_punct [simp]:
  "\<not> is_digit (CHR ''.'')" "\<not> is_digit (CHR ''e'')" "\<not> is_digit (CHR ''-'')" "\<not> is_digit (CHR ''+'')"
  by (simp_all add: is_digit_def)

lemma digits_value_Cons_0 [simp]: "digits_value (0 # ds) = digits_value ds"
  by (simp add: digits_value_def)

lemma digits_value_replicate [simp]: "digits_value (replicate n 0 @ ds) = digits_value ds"
  by (induction n) simp_all

text \<open>
  Both formats are instances of one shape: integer digits, an optional fraction, an optional exponent.
\<close>

definition number_text :: "nat list \<Rightarrow> nat list \<Rightarrow> string \<Rightarrow> string" where
  "number_text ip fp ex = show_digits ip @ (if fp = [] then [] else ''.'' @ show_digits fp) @ ex"

definition exponent_text :: "string \<Rightarrow> int \<Rightarrow> bool" where
  \<comment> \<open>the text is empty or an exponent part with the given value\<close>
  "exponent_text ex v =
     (ex = [] \<and> v = 0 \<or>
      (\<exists>sg ds. ex = CHR ''e'' # sg @ show_digits ds \<and> (sg = ''+'' \<or> sg = ''-'') \<and> ds \<noteq> [] \<and>
         list_all (\<lambda>d. d < 10) ds \<and> v = (if sg = ''-'' then - digits_value ds else digits_value ds)))"

lemma exponent_text_start: "exponent_text ex v \<Longrightarrow> ex = [] \<or> \<not> is_digit (hd ex)"
  by (auto simp: exponent_text_def)

lemma signed_digits_exponent:
  assumes "list_all (\<lambda>d. d < 10) ds"
  shows "signed_digits (CHR ''+'' # show_digits ds) = digits_value ds"
    and "signed_digits (CHR ''-'' # show_digits ds) = - digits_value ds"
  using assms by (simp_all add: signed_digits_def map_digit_value)

lemma decimal_value_text:
  assumes "list_all (\<lambda>d. d < 10) ip" "list_all (\<lambda>d. d < 10) fp" "exponent_text ex v"
  shows "decimal_value (number_text ip fp ex) =
    of_int (digits_value (ip @ fp)) * pow10 (v - int (length fp))"
proof -
  have ex: "(case ex of [] \<Rightarrow> 0 | _ # t \<Rightarrow> signed_digits t) = v" "ex = [] \<or> \<not> is_digit (hd ex)"
    "ex = [] \<or> hd ex = CHR ''e''"
    using assms(3) by (auto simp: exponent_text_def signed_digits_exponent)
  show ?thesis
  proof (cases "fp = []")
    case True
    have "(case ex of c # t \<Rightarrow> if c = CHR ''.'' then takeWhile is_digit t else [] | [] \<Rightarrow> []) = []"
      "(case ex of c # t \<Rightarrow> if c = CHR ''.'' then dropWhile is_digit t else ex | [] \<Rightarrow> []) = ex"
      using ex(3) by (auto split: list.splits)
    then show ?thesis
      using True ex(1) by (simp add: decimal_value_def number_text_def digits_span [OF assms(1) ex(2)]
          map_digit_value assms)
  next
    case False
    have s: "takeWhile is_digit (show_digits ip @ CHR ''.'' # show_digits fp @ ex) = show_digits ip"
      "dropWhile is_digit (show_digits ip @ CHR ''.'' # show_digits fp @ ex) = CHR ''.'' # show_digits fp @ ex"
      using digits_span [OF assms(1), of "CHR ''.'' # show_digits fp @ ex"] by simp_all
    show ?thesis
      using False ex(1) by (simp add: decimal_value_def number_text_def s digits_span [OF assms(2) ex(2)]
          map_digit_value assms)
  qed
qed

lemma scan_exp_text:
  assumes "exponent_text ex v"
  shows "scan_exp lit ex = Some (lit @ ex, [])"
proof -
  consider "ex = []" | sg ds where "ex = CHR ''e'' # sg @ show_digits ds" "sg = ''+'' \<or> sg = ''-''" "ds \<noteq> []"
    "list_all (\<lambda>d. d < 10) ds" using assms by (auto simp: exponent_text_def)
  then show ?thesis
  proof cases
    case 1
    then show ?thesis by (simp add: scan_exp_def)
  next
    case 2
    have tw: "takeWhile is_digit (show_digits ds) = show_digits ds" "dropWhile is_digit (show_digits ds) = []"
      using digits_span [OF 2(4), of "[]"] by simp_all
    from 2 show ?thesis by (auto simp: scan_exp_def Let_def tw simp del: takeWhile_eq_all_conv dropWhile_eq_Nil_conv)
  qed
qed

lemma scan_number_text:
  assumes ip: "ip = [0] \<or> good_digits ip" and fp: "list_all (\<lambda>d. d < 10) fp" and ex: "exponent_text ex v"
  shows "scan_int sg (number_text ip fp ex) = Some (sg @ number_text ip fp ex, [])"
proof -
  have st: "ex = [] \<or> \<not> is_digit (hd ex)" "ex = [] \<or> hd ex = CHR ''e''"
    using ex by (auto simp: exponent_text_def)
  have frac: "scan_frac lit ((if fp = [] then [] else ''.'' @ show_digits fp) @ ex) =
      Some (lit @ (if fp = [] then [] else ''.'' @ show_digits fp) @ ex, [])" for lit
  proof (cases "fp = []")
    case True
    then show ?thesis
      using scan_exp_text [OF ex, of lit] st(2) by (cases ex) (auto simp: scan_frac_def)
  next
    case False
    then show ?thesis
      using scan_exp_text [OF ex] by (simp add: scan_frac_def digits_span [OF fp st(1)])
  qed
  define r where "r = (if fp = [] then [] else ''.'' @ show_digits fp) @ ex"
  have r: "r = [] \<or> \<not> is_digit (hd r)" using st by (auto simp: r_def)
  have nt: "number_text ip fp ex = show_digits ip @ r" by (simp add: number_text_def r_def)
  show ?thesis
  proof (cases "ip = [0]")
    case True
    then have "show_digits ip = ''0''" by (simp add: show_digits_def) code_simp
    then show ?thesis using frac [of "sg @ ''0''"] unfolding nt r_def [symmetric] by (simp add: scan_int_def)
  next
    case False
    with ip obtain d ds where d: "ip = d # ds" "d \<noteq> 0" "d < 10" "list_all (\<lambda>d. d < 10) ds"
      by (cases ip) (auto simp: good_digits_def)
    have "byte (48 + d) \<noteq> CHR ''0''"
    proof
      assume "byte (48 + d) = CHR ''0''"
      then have "ord (byte (48 + d)) = 48" by simp
      with d(2,3) show False by (simp add: ord_byte del: of_char_of)
    qed
    moreover have "show_digits ip = byte (48 + d) # show_digits ds" by (simp add: d(1) show_digits_def)
    ultimately show ?thesis
      using frac [of "sg @ byte (48 + d) # show_digits ds"] unfolding nt r_def [symmetric]
      by (simp add: scan_int_def is_digit_byte [OF d(3)] digits_span [OF d(4) r])
  qed
qed

definition sign_text :: "bool \<Rightarrow> string" where
  "sign_text neg = (if neg then ''-'' else [])"

lemma number_text_first:
  assumes "ip = [0] \<or> good_digits ip"
  shows "\<exists>c s. number_text ip fp ex = c # s \<and> is_digit c"
  using assms by (cases ip) (auto simp: number_text_def show_digits_def good_digits_def is_digit_byte is_digit_byte [of 0, simplified])

lemma scan_number_signed:
  assumes "ip = [0] \<or> good_digits ip" "list_all (\<lambda>d. d < 10) fp" "exponent_text ex v"
  shows "scan_number (sign_text neg @ number_text ip fp ex) = Some (sign_text neg @ number_text ip fp ex, [])"
proof -
  obtain c s where c: "number_text ip fp ex = c # s" "is_digit c" using number_text_first [OF assms(1)] by blast
  then have "c \<noteq> CHR ''-''" by auto
  with c scan_number_text [OF assms, of "sign_text neg"] show ?thesis
    by (cases neg) (simp_all add: scan_number_def sign_text_def)
qed

lemma ParseFloat_signed:
  assumes "ip = [0] \<or> good_digits ip" "list_all (\<lambda>d. d < 10) fp" "exponent_text ex v"
    and "fl (of_int (digits_value (ip @ fp)) * pow10 (v - int (length fp))) = m" "m < 2 ^ 1024"
  shows "ParseFloat (sign_text neg @ number_text ip fp ex) = Some (Fin neg m)"
proof -
  obtain c s where c: "number_text ip fp ex = c # s" "is_digit c" using number_text_first [OF assms(1)] by blast
  then have n: "c \<noteq> CHR ''-''" by auto
  have ip: "list_all (\<lambda>d. d < 10) ip" using assms(1) by (auto simp: good_digits_def)
  have "fl (decimal_value (c # s)) = m" using decimal_value_text [OF ip assms(2,3)] assms(4) c(1) by simp
  with n assms(5) show ?thesis by (cases neg) (simp_all add: ParseFloat_def sign_text_def c(1))
qed

section \<open>FormatFloat\<close>

lemma good_digits_all: "good_digits ds \<Longrightarrow> list_all (\<lambda>d. d < 10) ds"
  by (simp add: good_digits_def)

lemma good_digits_take: "good_digits ds \<Longrightarrow> 0 < n \<Longrightarrow> good_digits (take n ds @ replicate k 0)"
  by (cases ds; cases n) (auto simp: good_digits_def list_all_iff dest: in_set_takeD)

text \<open>Format \<^verbatim>\<open>f\<close>: where the decimal point falls before, inside or after the digits.\<close>

lemma fmtF_text:
  assumes "good_digits ds"
  obtains ip fp where "fmtF neg ds dp = sign_text neg @ number_text ip fp []"
    "ip = [0] \<or> good_digits ip" "list_all (\<lambda>d. d < 10) fp"
    "of_int (digits_value (ip @ fp)) * pow10 (- int (length fp)) = exact_value ds dp"
proof -
  have all: "list_all (\<lambda>d. d < 10) ds" and ne: "ds \<noteq> []" using assms by (auto simp: good_digits_def)
  have z: "show_digits [0] = ''0''" by code_simp
  consider "dp \<le> 0" | "0 < dp" "dp < int (length ds)" | "0 < dp" "int (length ds) \<le> dp" by linarith
  then show ?thesis
  proof cases
    case 1
    have lt: "dp < int (length ds)" using 1 ne by (cases ds) auto
    have "fmtF neg ds dp = sign_text neg @ number_text [0] (replicate (nat (- dp)) 0 @ ds) []"
      using 1 ne lt by (auto simp: fmtF_def number_text_def sign_text_def z)
    moreover have "list_all (\<lambda>d. d < 10) (replicate (nat (- dp)) 0 @ ds)" using all by (auto simp: list_all_iff)
    ultimately show ?thesis
      by (intro that [of "[0]" "replicate (nat (- dp)) 0 @ ds"])
        (use 1 in \<open>auto simp: exact_value_def\<close>)
  next
    case 2
    have "fmtF neg ds dp = sign_text neg @ number_text (take (nat dp) ds @ replicate 0 0) (drop (nat dp) ds) []"
      using 2 by (auto simp: fmtF_def number_text_def sign_text_def)
    moreover have "good_digits (take (nat dp) ds @ replicate 0 0)" using 2 assms by (intro good_digits_take) auto
    moreover have "list_all (\<lambda>d. d < 10) (drop (nat dp) ds)" using all by (auto simp: list_all_iff dest: in_set_dropD)
    ultimately show ?thesis
      by (intro that) (use 2 in \<open>auto simp: exact_value_def\<close>)
  next
    case 3
    define k where "k = nat (dp - int (length ds))"
    have "fmtF neg ds dp = sign_text neg @ number_text (take (nat dp) ds @ replicate k 0) [] []"
      using 3 by (auto simp: fmtF_def number_text_def sign_text_def k_def)
    moreover have "good_digits (take (nat dp) ds @ replicate k 0)" using 3 assms by (intro good_digits_take) auto
    moreover have "of_int (digits_value (take (nat dp) ds @ replicate k 0)) = exact_value ds dp"
      using 3 digits_value_replicate [of k "[]"]
      by (simp add: digits_value_append exact_value_def k_def pow10_def)
    ultimately show ?thesis by (intro that [of "take (nat dp) ds @ replicate k 0" "[]"]) auto
  qed
qed

lemma exponent_text_fmtE: "exponent_text (''e'' @ fmtE_exponent x) x"
proof -
  define a where "a = int_digits \<bar>x\<bar>"
  have small: "list_all (\<lambda>d. d < 10) a" using int_digits_small [of "\<bar>x\<bar>"] by (auto simp: a_def list_all_iff)
  have v: "digits_value a = \<bar>x\<bar>" by (simp add: a_def)
  define ds where "ds = (if \<bar>x\<bar> < 10 then 0 # a else a)"
  have z: "show_digits (0 # b) = CHR ''0'' # show_digits b" for b
    by (simp add: show_digits_def) code_simp
  have t: "''e'' @ fmtE_exponent x = CHR ''e'' # (if x < 0 then ''-'' else ''+'') @ show_digits ds"
    by (simp add: fmtE_exponent_def ds_def z a_def)
  have "ds \<noteq> []" "list_all (\<lambda>d. d < 10) ds" "digits_value ds = \<bar>x\<bar>"
    using small v by (auto simp: ds_def a_def)
  then show ?thesis
    unfolding exponent_text_def t
    by (intro disjI2 exI [of _ "if x < 0 then ''-'' else ''+''"] exI [of _ ds]) auto
qed

lemma fmtE_text:
  assumes "good_digits ds"
  obtains ip fp where "fmtE neg ds dp = sign_text neg @ number_text ip fp (''e'' @ fmtE_exponent (dp - 1))"
    "good_digits ip" "list_all (\<lambda>d. d < 10) fp"
    "of_int (digits_value (ip @ fp)) * pow10 (dp - 1 - int (length fp)) = exact_value ds dp"
proof -
  obtain d es where ds: "ds = d # es" using assms by (cases ds) (auto simp: good_digits_def)
  have "fmtE neg ds dp = sign_text neg @ number_text [d] es (''e'' @ fmtE_exponent (dp - 1))"
    by (simp add: fmtE_def number_text_def sign_text_def ds)
  then show ?thesis
    by (rule that) (use assms ds in \<open>auto simp: good_digits_def exact_value_def algebra_simps\<close>)
qed

theorem FormatFloat_f_roundtrip:
  assumes "is_double (Fin neg m)"
  shows "ParseFloat (FormatFloat_f neg m) = Some (Fin neg m) \<and>
    scan_number (FormatFloat_f neg m) = Some (FormatFloat_f neg m, [])"
proof (cases "m = 0")
  case True
  then have t: "FormatFloat_f neg m = sign_text neg @ number_text [0] [] []"
    by (simp add: FormatFloat_f_def decimal_digits_def fmtF_def number_text_def sign_text_def) code_simp
  have e: "exponent_text [] 0" by (simp add: exponent_text_def)
  show ?thesis
    unfolding t using ParseFloat_signed [of "[0]" "[]" "[]" 0 0 neg] scan_number_signed [of "[0]" "[]" "[]" 0 neg] e True
    by simp
next
  case False
  then have m: "0 < m" "fl m = m" "m < 2 ^ 1024" using assms by auto
  obtain ds dp where d: "decimal_digits m = (ds, dp)" by force
  from decimal_digits_correct [OF m(1,2) d] have g: "good_digits ds" "fl (exact_value ds dp) = m" by auto
  obtain ip fp where t: "fmtF neg ds dp = sign_text neg @ number_text ip fp []"
    "ip = [0] \<or> good_digits ip" "list_all (\<lambda>d. d < 10) fp"
    "of_int (digits_value (ip @ fp)) * pow10 (- int (length fp)) = exact_value ds dp"
    by (rule fmtF_text [OF g(1)])
  have e: "exponent_text [] 0" by (simp add: exponent_text_def)
  show ?thesis
    using ParseFloat_signed [OF t(2,3) e _ m(3), of neg] scan_number_signed [OF t(2,3) e, of neg] t g(2)
    by (simp add: FormatFloat_f_def d)
qed

theorem FormatFloat_e_roundtrip:
  assumes "is_double (Fin neg m)" "m \<noteq> 0"
  shows "ParseFloat (FormatFloat_e neg m) = Some (Fin neg m) \<and>
    scan_number (FormatFloat_e neg m) = Some (FormatFloat_e neg m, [])"
proof -
  have m: "0 < m" "fl m = m" "m < 2 ^ 1024" using assms by auto
  obtain ds dp where d: "decimal_digits m = (ds, dp)" by force
  from decimal_digits_correct [OF m(1,2) d] have g: "good_digits ds" "fl (exact_value ds dp) = m" by auto
  obtain ip fp where t: "fmtE neg ds dp = sign_text neg @ number_text ip fp (''e'' @ fmtE_exponent (dp - 1))"
    "good_digits ip" "list_all (\<lambda>d. d < 10) fp"
    "of_int (digits_value (ip @ fp)) * pow10 (dp - 1 - int (length fp)) = exact_value ds dp"
    by (rule fmtE_text [OF g(1)])
  have i: "ip = [0] \<or> good_digits ip" using t(2) by simp
  show ?thesis
    using ParseFloat_signed [OF i t(3) exponent_text_fmtE _ m(3), of "dp - 1" neg]
      scan_number_signed [OF i t(3) exponent_text_fmtE, of neg] t g(2)
    by (simp add: FormatFloat_e_def d)
qed

end
