(* ===== verification/Canonicalize.thy ===== *)
theory Canonicalize
  imports Json_Codec Float_Text
begin

text \<open>
  The package \<^verbatim>\<open>internal/canonicalize\<close>, the JSON Canonicalization Scheme every hash of the program is
  taken over, and its public wrapper \<^verbatim>\<open>pkg/jcs\<close>. The operations are \<open>Marshal\<close>, \<open>MarshalRaw\<close>,
  \<open>canonicalizeRaw\<close>, \<open>writeValue\<close>, \<open>writeString\<close>, \<open>serializeNumber\<close> and \<open>utf16Less\<close>. The lemmas show
  that the canonical text reads back as the value it was made from, that canonicalising is idempotent,
  and that two documents have the same canonical text exactly when they denote the same JSON value.
\<close>

section \<open>The code\<close>

datatype canon_error = MarshalError | UnmarshalError | UnsupportedType string

function utf16Less_loop :: "nat list \<Rightarrow> nat list \<Rightarrow> nat \<Rightarrow> bool" where
  "utf16Less_loop ua ub i =
     (if i < length ua \<and> i < length ub then
        if ua ! i \<noteq> ub ! i then ua ! i < ub ! i else utf16Less_loop ua ub (i + 1)
      else length ua < length ub)"
  by pat_completeness auto
termination
  by (relation "measure (\<lambda>(ua, ub, i). length ua - i)") auto

declare utf16Less_loop.simps [simp del]

definition utf16Less :: "string \<Rightarrow> string \<Rightarrow> bool" where
  "utf16Less a b = utf16Less_loop (utf16_encode (runes a)) (utf16_encode (runes b)) 0"

definition serializeNumber :: "float64 \<Rightarrow> string" where
  "serializeNumber f =
     (case f of
        Inf _ \<Rightarrow> ''null''
      | NaN \<Rightarrow> ''null''
      | Fin neg m \<Rightarrow>
          if m \<noteq> 0 \<and> (10 ^ 21 \<le> m \<or> m < fl (1 / 1000000)) then FormatFloat_e neg m else FormatFloat_f neg m)"

definition write_rune :: "rune \<Rightarrow> string" where
  \<comment> \<open>one iteration of the loop of \<^verbatim>\<open>writeString\<close>\<close>
  "write_rune r =
     (case short_escape r of
        Some e \<Rightarrow> e
      | None \<Rightarrow> if r < 0x20 then u_escape r else EncodeRune r)"

definition writeString :: "string \<Rightarrow> string" where
  "writeString s = CHR 0x22 # concat (map write_rune (runes s)) @ [CHR 0x22]"

fun write_items :: "(canon_error + string) list \<Rightarrow> canon_error + string" where
  \<comment> \<open>the items of an array or object in order, with commas between them; the first error stops\<close>
  "write_items [] = Inr []"
| "write_items [r] = r"
| "write_items (r # r' # rs) =
     bind_res r (\<lambda>t. bind_res (write_items (r' # rs)) (\<lambda>ts. Inr (t @ '','' @ ts)))"

fun writeValue :: "any \<Rightarrow> canon_error + string" where
  "writeValue ANil = Inr ''null''"
| "writeValue (ABool b) = Inr (if b then ''true'' else ''false'')"
| "writeValue (AFloat f) = Inr (serializeNumber f)"
| "writeValue (AString s) = Inr (writeString s)"
| "writeValue (AList vs) = bind_res (write_items (map writeValue vs)) (\<lambda>t. Inr (''['' @ t @ '']''))"
| "writeValue (AMap m) =
     bind_res
       (write_items
         (map (\<lambda>(k, r). bind_res r (\<lambda>t. Inr (writeString k @ '':'' @ t)))
           (sort_by (\<lambda>x y. utf16Less (fst x) (fst y)) (map (\<lambda>(k, v). (k, writeValue v)) m))))
       (\<lambda>t. Inr (''{'' @ t @ ''}''))"
| "writeValue (AInt n) = Inl (UnsupportedType ''int'')"

definition canonicalizeRaw :: "string \<Rightarrow> canon_error + string" where
  "canonicalizeRaw raw = (case json_unmarshal raw of None \<Rightarrow> Inl UnmarshalError | Some v \<Rightarrow> writeValue v)"

definition MarshalRaw :: "string \<Rightarrow> canon_error + string" where
  "MarshalRaw raw = canonicalizeRaw raw"

definition Marshal :: "('a \<Rightarrow> string option) \<Rightarrow> 'a \<Rightarrow> canon_error + string" where
  \<comment> \<open>the first argument is \<^verbatim>\<open>json.Marshal\<close> at the type of the value\<close>
  "Marshal jsonMarshal v = (case jsonMarshal v of None \<Rightarrow> Inl MarshalError | Some raw \<Rightarrow> canonicalizeRaw raw)"

section \<open>The order of keys\<close>

lemma append_less_cancel: "p @ a < p @ b \<longleftrightarrow> a < b" for a b :: "'a::linorder list"
  by (induction p) auto

lemma utf16Less_loop_lex:
  assumes "take i ua = take i ub" "i \<le> length ua" "i \<le> length ub"
  shows "utf16Less_loop ua ub i \<longleftrightarrow> ua < ub"
  using assms
proof (induction ua ub i rule: utf16Less_loop.induct)
  case (1 ua ub i)
  have split: "ua = take i ua @ drop i ua" "ub = take i ua @ drop i ub"
    using "1.prems"(1) by (metis append_take_drop_id)+
  have lex: "ua < ub \<longleftrightarrow> drop i ua < drop i ub"
    by (subst split(1), subst split(2)) (rule append_less_cancel)
  show ?case
  proof (cases "i < length ua \<and> i < length ub")
    case True
    then have d: "drop i ua = ua ! i # drop (Suc i) ua" "drop i ub = ub ! i # drop (Suc i) ub"
      by (simp_all add: Cons_nth_drop_Suc)
    show ?thesis
    proof (cases "ua ! i = ub ! i")
      case False
      with True lex d show ?thesis by (subst utf16Less_loop.simps) auto
    next
      case eq: True
      have "utf16Less_loop ua ub (i + 1) \<longleftrightarrow> ua < ub"
        using True eq "1.prems" by (intro "1.IH") (auto simp: take_Suc_conv_app_nth)
      with True eq show ?thesis by (subst utf16Less_loop.simps) auto
    qed
  next
    case False
    then have "drop i ua = [] \<or> drop i ub = []" by auto
    then have "drop i ua < drop i ub \<longleftrightarrow> drop i ua = [] \<and> drop i ub \<noteq> []" by (cases "drop i ub") auto
    then have "ua < ub \<longleftrightarrow> length ua \<le> i \<and> i < length ub" unfolding lex by (simp add: not_le)
    then show ?thesis unfolding utf16Less_loop.simps [of ua ub i] using False "1.prems"(2,3) by auto
  qed
qed

abbreviation u16 :: "string \<Rightarrow> nat list" where
  "u16 s \<equiv> utf16_encode (runes s)"

lemma utf16Less_iff: "utf16Less a b \<longleftrightarrow> u16 a < u16 b"
  unfolding utf16Less_def by (rule utf16Less_loop_lex) auto

lemma u16_inj: "valid_utf8 a \<Longrightarrow> valid_utf8 b \<Longrightarrow> u16 a = u16 b \<Longrightarrow> a = b"
  by (meson runes_inj utf16_encode_inj valid_runes)

lemma distinct_u16:
  assumes "distinct (map fst m)" "\<forall>(k, v) \<in> set m. valid_utf8 k"
  shows "distinct (map (\<lambda>x. u16 (fst x)) m)"
  using assms by (induction m) (auto, force dest: u16_inj)

section \<open>The writer and the scanner\<close>

text \<open>The text of a string after its opening quote meets the contract of \<open>json_quoting\<close>.\<close>

definition canon_body :: "string \<Rightarrow> string" where
  "canon_body s = concat (map write_rune (runes s)) @ [CHR 0x22]"

lemma writeString_body: "writeString s = CHR 0x22 # canon_body s"
  by (simp add: writeString_def canon_body_def)

lemma scan_write_rune:
  assumes "valid_rune r"
  shows "scan_string (write_rune r @ s) = prepend (EncodeRune r) (scan_string s)"
proof (cases "short_escape r")
  case (Some e)
  then show ?thesis by (simp add: write_rune_def scan_short_escape)
next
  case None
  then have "r \<noteq> 0x22" "r \<noteq> 0x5C" by (auto simp: short_escape_def split: if_splits)
  with None assms show ?thesis
    by (cases "r < 0x20") (auto simp: write_rune_def intro!: scan_u_escape scan_EncodeRune)
qed

lemma scan_write_runes:
  "list_all valid_rune rs \<Longrightarrow>
     scan_string (concat (map write_rune rs) @ CHR 0x22 # r) = Some (encode_runes rs, r)"
proof (induction rs)
  case Nil
  then show ?case by (simp add: encode_runes_def)
next
  case (Cons u us)
  then show ?case
    using scan_write_rune [of u "concat (map write_rune us) @ CHR 0x22 # r"]
    by (simp add: prepend_def encode_runes_def)
qed

interpretation canon: json_quoting canon_body
proof unfold_locales
  show "scan_string (canon_body s @ r) = Some (coerce_utf8 s, r)" for s r
    using scan_write_runes [OF valid_runes, of s r] by (simp add: canon_body_def coerce_utf8_def)
qed

section \<open>Canonical trees\<close>

text \<open>The tree the writer renders: numbers in their canonical spelling, members in key order.\<close>

fun canon_tree :: "any \<Rightarrow> json" where
  "canon_tree ANil = JNull"
| "canon_tree (ABool b) = JBool b"
| "canon_tree (AFloat f) = JNumber (serializeNumber f)"
| "canon_tree (AString s) = JString s"
| "canon_tree (AList vs) = JArray (map canon_tree vs)"
| "canon_tree (AMap m) = JObject (sort_key (\<lambda>x. u16 (fst x)) (map (\<lambda>(k, v). (k, canon_tree v)) m))"
| "canon_tree (AInt n) = JNull"

text \<open>
  The values \<^verbatim>\<open>json.Unmarshal\<close> can produce: finite doubles, valid UTF-8, no key twice, no machine
  integers. \<open>normal\<close> puts the members of every object in key order.
\<close>

fun decoded :: "any \<Rightarrow> bool" where
  "decoded (AFloat f) = (case f of Fin neg m \<Rightarrow> is_double f | _ \<Rightarrow> False)"
| "decoded (AString s) = valid_utf8 s"
| "decoded (AList vs) = list_all decoded vs"
| "decoded (AMap m) = (distinct (map fst m) \<and> list_all (\<lambda>(k, v). valid_utf8 k \<and> decoded v) m)"
| "decoded (AInt n) = False"
| "decoded _ = True"

fun normal :: "any \<Rightarrow> any" where
  "normal (AList vs) = AList (map normal vs)"
| "normal (AMap m) = AMap (sort_key (\<lambda>x. u16 (fst x)) (map (\<lambda>(k, v). (k, normal v)) m))"
| "normal v = v"

lemma write_items_elems:
  "write_items (map (\<lambda>v. Inr (render_value q v)) vs) = Inr (render_elems q vs)"
  by (induction q vs rule: render_value_render_elems_render_members.induct(2)) simp_all

lemma write_items_members:
  "write_items (map (\<lambda>(k, v). Inr (CHR 0x22 # q k @ '':'' @ render_value q v)) ms) = Inr (render_members q ms)"
  by (induction q ms rule: render_value_render_elems_render_members.induct(3)) simp_all

lemma writeValue_render: "decoded v \<Longrightarrow> writeValue v = Inr (render_value canon_body (canon_tree v))"
proof (induction v rule: writeValue.induct)
  case (4 s)
  then show ?case by (simp add: writeString_body)
next
  case (5 vs)
  then have "map writeValue vs = map (\<lambda>v. Inr (render_value canon_body v)) (map canon_tree vs)"
    by (auto simp: list_all_iff)
  then show ?case by (simp only: writeValue.simps write_items_elems) simp
next
  case (6 m)
  define w where "w = (\<lambda>(k :: string, v). (k, Inr (render_value canon_body v) :: canon_error + string))"
  have "map (\<lambda>(k, v). (k, writeValue v)) m = map w (map (\<lambda>(k, v). (k, canon_tree v)) m)"
    using 6 by (auto simp: list_all_iff w_def)
  moreover have "sort_by (\<lambda>x y. utf16Less (fst x) (fst y)) (map w ms) = map w (sort_key (\<lambda>x. u16 (fst x)) ms)" for ms
    by (subst sort_by_key [where f = "\<lambda>x. u16 (fst x)"])
      (auto simp: utf16Less_iff w_def intro!: map_sort_key [symmetric])
  moreover have "map (\<lambda>(k, r). bind_res r (\<lambda>t. Inr (writeString k @ '':'' @ t))) (map w ms) =
      map (\<lambda>(k, v). Inr (CHR 0x22 # canon_body k @ '':'' @ render_value canon_body v)) ms" for ms
    by (auto simp: w_def writeString_body)
  ultimately show ?case by (simp only: writeValue.simps write_items_members) simp
qed simp_all

section \<open>What the scanner and the decoder produce\<close>

lemma decimal_value_nonneg: "0 \<le> decimal_value b"
proof -
  have "0 \<le> digits_value ds" for ds
    by (induction ds rule: rev_induct) simp_all
  moreover have "0 \<le> pow10 e" for e by (simp add: pow10_def)
  ultimately show ?thesis by (simp add: decimal_value_def Let_def)
qed

lemma ParseFloat_double: "ParseFloat lit = Some f \<Longrightarrow> \<exists>neg m. f = Fin neg m \<and> is_double f"
  by (auto simp: ParseFloat_def Let_def fl_nonneg decimal_value_nonneg split: if_splits)

definition runes_text :: "string \<Rightarrow> bool" where
  "runes_text s = (\<exists>rs. list_all valid_rune rs \<and> s = encode_runes rs)"

lemma runes_text_valid: "runes_text s \<Longrightarrow> valid_utf8 s"
  by (auto simp: runes_text_def)

lemma runes_text_Nil [simp]: "runes_text []"
  by (auto simp: runes_text_def encode_runes_def intro: exI [of _ "[]"])

lemma EncodeRune_invalid: "\<not> valid_rune u \<Longrightarrow> EncodeRune u = EncodeRune RuneError"
  by (simp add: EncodeRune_def)

lemma runes_text_EncodeRune:
  assumes "runes_text s"
  shows "runes_text (EncodeRune u @ s)"
proof -
  obtain v where v: "valid_rune v" "EncodeRune u = EncodeRune v"
    using EncodeRune_invalid [of u] valid_RuneError by metis
  from assms obtain rs where "list_all valid_rune rs" "s = encode_runes rs" by (auto simp: runes_text_def)
  with v show ?thesis unfolding runes_text_def by (intro exI [of _ "v # rs"]) (simp add: encode_runes_def)
qed

lemma unicode_escape_rune: "unicode_escape s = Some (u, t) \<Longrightarrow> u \<in> range EncodeRune"
  by (subst (asm) unicode_escape.simps) (auto split: option.splits if_splits list.splits)

lemma simple_escape_rune: "simple_escape e = Some d \<Longrightarrow> [d] = EncodeRune (ord d)"
proof -
  assume "simple_escape e = Some d"
  then have "ord d < 0x80" by (auto simp: simple_escape_def ord_byte split: if_splits)
  then show ?thesis by (simp add: EncodeRune_1)
qed

lemma scan_string_runes: "scan_string s = Some (str, r) \<Longrightarrow> runes_text str"
proof (induction s arbitrary: str r rule: scan_string.induct)
  case 1
  then show ?case by simp
next
  case (2 c s)
  consider "c = CHR 0x22" | "c = CHR 0x5C" | "c \<noteq> CHR 0x22" "c \<noteq> CHR 0x5C" by blast
  then show ?case
  proof cases
    case 1
    with 2 show ?thesis by simp
  next
    case 2
    with "2.prems" obtain e s' where s: "s = e # s'" by (auto split: list.splits)
    show ?thesis
    proof (cases "e = CHR ''u''")
      case True
      with 2 s "2.prems" obtain u t str' where t: "unicode_escape s' = Some (u, t)"
        and r: "scan_string t = Some (str', r)" and str: "str = u @ str'" by (auto split: option.splits)
      have "runes_text str'" using "2.IH"(1) [OF _ _ s True t] 2 r by auto
      with str unicode_escape_rune [OF t] show ?thesis by (auto intro: runes_text_EncodeRune)
    next
      case False
      with 2 s "2.prems" obtain d str' where d: "simple_escape e = Some d"
        and r: "scan_string s' = Some (str', r)" and str: "str = [d] @ str'" by (auto split: option.splits)
      have "runes_text str'" using "2.IH"(2) [OF _ _ s False d] 2 r by auto
      then show ?thesis unfolding str simple_escape_rune [OF d] by (rule runes_text_EncodeRune)
    qed
  next
    case 3
    obtain u k where d: "DecodeRune c s = (u, k)" by force
    from 3 d "2.prems" obtain str' where g: "\<not> ord c < 32" and r: "scan_string (drop k s) = Some (str', r)"
      and str: "str = EncodeRune u @ str'"
      by (auto split: if_splits)
    have "runes_text str'" using "2.IH"(3) [OF 3 g d [symmetric]] r by auto
    then show ?thesis unfolding str by (rule runes_text_EncodeRune)
  qed
qed

text \<open>A tree all of whose strings and keys are valid UTF-8.\<close>

fun utf8_json :: "json \<Rightarrow> bool" where
  "utf8_json (JString s) = valid_utf8 s"
| "utf8_json (JArray vs) = list_all utf8_json vs"
| "utf8_json (JObject ms) = list_all (\<lambda>(k, v). valid_utf8 k \<and> utf8_json v) ms"
| "utf8_json _ = True"

lemma scan_utf8:
  "scan_value s = Some (v, r) \<Longrightarrow> utf8_json v"
  "scan_elems s = Some (vs, r) \<Longrightarrow> list_all utf8_json vs"
  "scan_members s = Some (ms, r) \<Longrightarrow> list_all (\<lambda>(k, v). valid_utf8 k \<and> utf8_json v) ms"
proof (induction s and s and s arbitrary: v r and vs r and ms r rule: scan_value_scan_elems_scan_members.induct)
  case 1
  then show ?case by (simp add: scan_value.simps)
next
  case (2 c s)
  from "2.prems" "2.IH" show ?case
    by (auto simp: scan_value.simps Let_def split: if_splits dest!: scan_string_runes runes_text_valid)
next
  case (3 s)
  have tail: "list_all utf8_json ws"
    if "scan_value s = Some (x, y)" "skip_ws y = CHR '','' # t" "length t < length s"
      "scan_elems (skip_ws t) = Some (ws, r)" for x y t ws
    by (rule "3.IH"(2) [OF that(1) refl that(2) _ _ that(4)]) (use that(3) in auto)
  show ?case using "3.prems" "3.IH"(1)
    by (subst (asm) scan_elems.simps) (auto split: option.splits list.splits if_splits, metis tail)
next
  case (4 s)
  from "4.prems" obtain s1 k r0 r1 v' r2 d r3 where s: "s = CHR 0x22 # s1" and k: "scan_string s1 = Some (k, r0)"
    and c: "skip_ws r0 = CHR '':'' # r1" and l: "length r1 < length s"
    and v: "scan_value (skip_ws r1) = Some (v', r2)" and d: "skip_ws r2 = d # r3"
    and o: "d = CHR ''}'' \<and> ms = [(k, v')] \<or>
      (\<exists>ms'. d = CHR '','' \<and> scan_members (skip_ws r3) = Some (ms', r) \<and> length r3 < length s \<and> ms = (k, v') # ms')"
    by (subst (asm) scan_members.simps) (auto split: option.splits list.splits if_splits)
  have kv: "valid_utf8 k" "utf8_json v'"
    using scan_string_runes [OF k] "4.IH"(1) [OF s _ k refl c _ v] l by (auto intro: runes_text_valid)
  have "list_all (\<lambda>(k, v). valid_utf8 k \<and> utf8_json v) ms'"
    if "d = CHR '',''" "scan_members (skip_ws r3) = Some (ms', r)" "length r3 < length s" for ms'
    by (rule "4.IH"(2) [OF s _ k refl c _ v refl d _ _ that(2)]) (use that(1,3) l in auto)
  with kv o show ?case by auto
qed

lemma json_scan_utf8: "json_scan s = Some j \<Longrightarrow> utf8_json j"
  by (auto simp: json_scan_def split: option.splits if_splits dest: scan_utf8(1))

lemma decoded_map_store:
  assumes "decoded (AMap m)" "valid_utf8 k" "decoded a"
  shows "decoded (AMap (map_store m k a))"
proof -
  have "list_all (\<lambda>(k, v). valid_utf8 k \<and> decoded v) (map_store m k a)"
    using assms by (induction m k a rule: map_store.induct) auto
  then show ?thesis using assms by (simp add: distinct_map_store)
qed

lemma to_any_decoded:
  "to_any j = Some v \<Longrightarrow> utf8_json j \<Longrightarrow> decoded v"
  "to_anys js = Some vs \<Longrightarrow> list_all utf8_json js \<Longrightarrow> list_all decoded vs"
  "to_fields ms m = Some m' \<Longrightarrow> list_all (\<lambda>(k, v). valid_utf8 k \<and> utf8_json v) ms \<Longrightarrow>
     decoded (AMap m) \<Longrightarrow> decoded (AMap m')"
proof (induction j and js and ms m arbitrary: v and vs and m' rule: to_any_to_anys_to_fields.induct)
  case (3 lit)
  then show ?case by (auto dest!: ParseFloat_double)
next
  case (10 k v ms m)
  then show ?case by (auto split: option.splits simp del: decoded.simps intro: decoded_map_store)
qed (auto split: option.splits)

lemma json_unmarshal_decoded: "json_unmarshal s = Some v \<Longrightarrow> decoded v"
  by (auto simp: json_unmarshal_def split: option.splits dest!: json_scan_utf8 intro: to_any_decoded(1))

section \<open>Reading the canonical text back\<close>

lemma serializeNumber_number:
  assumes "is_double (Fin neg m)"
  shows "ParseFloat (serializeNumber (Fin neg m)) = Some (Fin neg m)"
    and "scan_number (serializeNumber (Fin neg m)) = Some (serializeNumber (Fin neg m), [])"
  using FormatFloat_f_roundtrip [OF assms] FormatFloat_e_roundtrip [OF assms]
  by (auto simp: serializeNumber_def)

lemma canon_tree_wf: "decoded v \<Longrightarrow> wf_json (canon_tree v) \<and> coerce_json (canon_tree v) = canon_tree v"
proof (induction v rule: canon_tree.induct)
  case (3 f)
  then show ?case using serializeNumber_number by (auto split: float64.splits)
next
  case (5 vs)
  then show ?case by (auto simp: list_all_iff)
next
  case (6 m)
  then have "wf_json (canon_tree v) \<and> coerce_json (canon_tree v) = canon_tree v \<and> valid_utf8 k"
    if "(k, v) \<in> set m" for k v
    using that by (fastforce simp: list_all_iff)
  then show ?case by (auto simp: list_all_iff intro!: map_idI)
qed auto

lemma to_fields_distinct:
  assumes "\<And>k v. (k, v) \<in> set ms \<Longrightarrow> to_any v = Some (f v)" "distinct (map fst m @ map fst ms)"
  shows "to_fields ms m = Some (m @ map (\<lambda>(k, v). (k, f v)) ms)"
  using assms
proof (induction ms arbitrary: m)
  case (Cons x ms)
  obtain k v where x: "x = (k, v)" by force
  have "to_fields ms (m @ [(k, f v)]) = Some ((m @ [(k, f v)]) @ map (\<lambda>(k, v). (k, f v)) ms)"
    using Cons x by (intro Cons.IH) auto
  moreover have "map_store m k (f v) = m @ [(k, f v)]" using Cons.prems(2) x by (intro map_store_new) auto
  ultimately show ?case using Cons.prems(1) [of k v] x by simp
qed simp

lemma to_anys_map: "(\<And>v. v \<in> set vs \<Longrightarrow> to_any (g v) = Some (f v)) \<Longrightarrow> to_anys (map g vs) = Some (map f vs)"
  by (induction vs) auto

lemma to_any_canon_tree: "decoded v \<Longrightarrow> to_any (canon_tree v) = Some (normal v)"
proof (induction v rule: canon_tree.induct)
  case (3 f)
  then show ?case using serializeNumber_number by (auto split: float64.splits)
next
  case (5 vs)
  then show ?case by (auto simp: list_all_iff intro!: to_anys_map)
next
  case (6 m)
  define f where "f = (\<lambda>j. the (to_any j))"
  have IH: "to_any (canon_tree v) = Some (normal v)" if "(k, v) \<in> set m" for k v
    using 6 that by (fastforce simp: list_all_iff)
  define ms where "ms = sort_key (\<lambda>x. u16 (fst x)) (map (\<lambda>(k, v). (k, canon_tree v)) m)"
  have "distinct (map fst (map (\<lambda>(k, v). (k, canon_tree v)) m))" using 6 by (simp add: comp_def split_beta)
  then have d: "distinct (map fst ms)" unfolding ms_def by (simp only: distinct_map_sort_key)
  have "to_fields ms [] = Some ([] @ map (\<lambda>(k, v). (k, f v)) ms)"
    using d by (intro to_fields_distinct) (auto simp: ms_def IH f_def)
  moreover have "map (\<lambda>(k, v). (k, f v)) ms =
      sort_key (\<lambda>x. u16 (fst x)) (map (\<lambda>(k, v). (k, f v)) (map (\<lambda>(k, v). (k, canon_tree v)) m))"
    unfolding ms_def by (rule map_sort_key) auto
  moreover have "map (\<lambda>(k, v). (k, f v)) (map (\<lambda>(k, v). (k, canon_tree v)) m) = map (\<lambda>(k, v). (k, normal v)) m"
    by (auto simp: IH f_def)
  ultimately have "to_fields ms [] = Some (sort_key (\<lambda>x. u16 (fst x)) (map (\<lambda>(k, v). (k, normal v)) m))"
    by (simp only: append_Nil)
  then show ?case by (simp add: ms_def)
qed auto

lemma json_unmarshal_canon: "decoded v \<Longrightarrow> json_unmarshal (render_value canon_body (canon_tree v)) = Some (normal v)"
  by (simp add: json_unmarshal_def canon.json_scan_render canon_tree_wf to_any_canon_tree)

lemma decoded_normal: "decoded v \<Longrightarrow> decoded (normal v)"
  using json_unmarshal_canon json_unmarshal_decoded by blast

lemma canon_tree_normal: "canon_tree (normal v) = canon_tree v"
proof (induction v rule: normal.induct)
  case (2 m)
  have "map (\<lambda>(k, v). (k, canon_tree v)) (sort_key (\<lambda>x. u16 (fst x)) (map (\<lambda>(k, v). (k, normal v)) m)) =
      sort_key (\<lambda>x. u16 (fst x)) (map (\<lambda>(k, v). (k, canon_tree v)) (map (\<lambda>(k, v). (k, normal v)) m))"
    by (rule map_sort_key) auto
  also have "map (\<lambda>(k, v). (k, canon_tree v)) (map (\<lambda>(k, v). (k, normal v)) m) = map (\<lambda>(k, v). (k, canon_tree v)) m"
    using 2 by auto
  finally show ?case by (simp add: sort_key_id_if_sorted)
qed auto

lemma canonicalizeRaw_ok:
  "json_unmarshal raw = Some v \<Longrightarrow> canonicalizeRaw raw = Inr (render_value canon_body (canon_tree v))"
  by (simp add: canonicalizeRaw_def writeValue_render json_unmarshal_decoded)

section \<open>Equal JSON values\<close>

text \<open>
  What it means for two dynamic values to be the same JSON value: equal atoms, arrays equal element by
  element, objects with equal values under every key, in whatever order the members come.
\<close>

inductive json_eq :: "any \<Rightarrow> any \<Rightarrow> bool" where
  atom: "(\<forall>vs. v \<noteq> AList vs) \<Longrightarrow> (\<forall>m. v \<noteq> AMap m) \<Longrightarrow> json_eq v v"
| array: "list_all2 json_eq vs ws \<Longrightarrow> json_eq (AList vs) (AList ws)"
| obj: "(\<forall>k. rel_option json_eq (map_of m k) (map_of n k)) \<Longrightarrow> json_eq (AMap m) (AMap n)"

lemma map_of_normal: "map_of (map (\<lambda>(k, v). (k, normal v)) m) k = map_option normal (map_of m k)"
  by (induction m) auto

lemma distinct_normal_keys [simp]: "map fst (map (\<lambda>(k, v). (k, normal v)) m) = map fst m"
  by auto

lemma json_eq_normal: "json_eq v w \<Longrightarrow> decoded v \<Longrightarrow> decoded w \<Longrightarrow> normal v = normal w"
proof (induction rule: json_eq.induct)
  case (array vs ws)
  then show ?case by (auto simp: list_all2_conv_all_nth list_all_length intro: nth_equalityI)
next
  case (obj m n)
  have "map_option normal (map_of m k) = map_option normal (map_of n k)" for k
  proof -
    have "decoded v" if "map_of m k = Some v" for v
      using obj.prems(1) map_of_SomeD [OF that] by (auto simp: list_all_iff)
    moreover have "decoded w" if "map_of n k = Some w" for w
      using obj.prems(2) map_of_SomeD [OF that] by (auto simp: list_all_iff)
    ultimately show ?thesis using obj.IH [rule_format, of k] by (auto elim!: option.rel_cases)
  qed
  then have "map_of (map (\<lambda>(k, v). (k, normal v)) m) = map_of (map (\<lambda>(k, v). (k, normal v)) n)"
    by (auto simp: map_of_normal fun_eq_iff)
  then have "set (map (\<lambda>(k, v). (k, normal v)) m) = set (map (\<lambda>(k, v). (k, normal v)) n)"
    using obj.prems by (subst (asm) map_of_inject_set) (simp_all only: distinct_normal_keys decoded.simps)
  moreover have "distinct (map (\<lambda>x. u16 (fst x)) (map (\<lambda>(k, v). (k, normal v)) x))" if "decoded (AMap x)" for x
    using that by (intro distinct_u16) (auto simp: list_all_iff comp_def split_beta)
  ultimately show ?case using obj.prems by (simp add: sort_key_cong_set del: decoded.simps)
qed simp

lemma normal_json_eq: "normal v = normal w \<Longrightarrow> decoded v \<Longrightarrow> decoded w \<Longrightarrow> json_eq v w"
proof (induction v arbitrary: w rule: normal.induct)
  case (1 vs)
  obtain ws where w: "w = AList ws" using "1.prems"(1) by (cases w) auto
  with 1 have "list_all2 json_eq vs ws"
    by (auto simp: list_all2_conv_all_nth list_all_length map_equality_iff)
  with w show ?case by (auto intro: json_eq.array)
next
  case (2 m)
  obtain n where w: "w = AMap n" using "2.prems"(1) by (cases w) auto
  have "rel_option json_eq (map_of m k) (map_of n k)" for k
  proof -
    have "map_of (map (\<lambda>(k, v). (k, normal v)) m) k = map_of (map (\<lambda>(k, v). (k, normal v)) n) k"
      using "2.prems" w map_of_sort_key [of "map (\<lambda>(k, v). (k, normal v)) m" "\<lambda>x. u16 (fst x)"]
        map_of_sort_key [of "map (\<lambda>(k, v). (k, normal v)) n" "\<lambda>x. u16 (fst x)"]
      by (simp only: distinct_normal_keys decoded.simps normal.simps any.inject)
    then have eq: "map_option normal (map_of m k) = map_option normal (map_of n k)" by (simp add: map_of_normal)
    show ?thesis
    proof (cases "map_of m k")
      case None
      with eq show ?thesis by auto
    next
      case (Some v)
      with eq obtain w' where n: "map_of n k = Some w'" "normal v = normal w'" by (cases "map_of n k") auto
      have mem: "(k, v) \<in> set m" "(k, w') \<in> set n" using Some n by (auto dest: map_of_SomeD)
      with 2 w have "decoded v" "decoded w'" by (auto simp: list_all_iff)
      with 2(1) [OF mem(1) refl n(2)] Some n show ?thesis by simp
    qed
  qed
  with w show ?case by (auto intro: json_eq.obj)
next
  case "3_1"
  then show ?case by (cases w) (auto intro: json_eq.atom)
next
  case "3_2"
  then show ?case by (cases w) (auto intro: json_eq.atom)
next
  case "3_3"
  then show ?case by (cases w) (auto intro: json_eq.atom)
next
  case "3_4"
  then show ?case by (cases w) (auto intro: json_eq.atom)
next
  case "3_5"
  then show ?case by (cases w) (auto intro: json_eq.atom)
qed

lemma normal_idem [simp]: "decoded v \<Longrightarrow> normal (normal v) = normal v"
  using to_any_canon_tree [of v] to_any_canon_tree [OF decoded_normal, of v] by (simp add: canon_tree_normal)

section \<open>Sample documents\<close>

text \<open>Two spellings of one document: \<^verbatim>\<open>{"b":1,"a":null}\<close> and \<^verbatim>\<open>{ "a" : null, "b":1.0 }\<close>.\<close>

definition quoted :: "string \<Rightarrow> string" where
  "quoted s = [CHR 0x22] @ s @ [CHR 0x22]"

definition sample_raw :: string where
  "sample_raw = ''{'' @ quoted ''b'' @ '':1,'' @ quoted ''a'' @ '':null}''"

definition sample_raw' :: string where
  "sample_raw' = ''{ '' @ quoted ''a'' @ '' : null, '' @ quoted ''b'' @ '':1.0 }''"

definition sample_any :: any where
  "sample_any = AMap [(''b'', AFloat (Fin False 1)), (''a'', ANil)]"

lemma sample_unmarshal: "json_unmarshal sample_raw = Some sample_any"
  by code_simp

lemma sample_unmarshal': "json_unmarshal sample_raw' = Some (AMap [(''a'', ANil), (''b'', AFloat (Fin False 1))])"
  by code_simp

lemma sample_canonical:
  "canonicalizeRaw sample_raw = Inr (''{'' @ quoted ''a'' @ '':null,'' @ quoted ''b'' @ '':1}'')"
  by code_simp

section \<open>Properties\<close>

text \<open>C10: canonicalising never rejects a document the JSON decoder accepts, and its output decodes again,
  to the same JSON value as the input, with the members of every object in UTF-16 key order.\<close>

theorem canonicalizeRaw_roundtrip:
  assumes "json_unmarshal raw = Some v"
  shows "\<exists>out. canonicalizeRaw raw = Inr out \<and> json_unmarshal out = Some (normal v) \<and> json_eq v (normal v)"
proof -
  have d: "decoded v" by (rule json_unmarshal_decoded [OF assms])
  then have "json_eq v (normal v)" by (intro normal_json_eq) (simp_all add: decoded_normal)
  with canonicalizeRaw_ok [OF assms] json_unmarshal_canon [OF d] show ?thesis by blast
qed

theorem canonicalizeRaw_roundtrip_witness:
  "json_unmarshal sample_raw = Some sample_any \<and>
   (\<exists>out. canonicalizeRaw sample_raw = Inr out \<and> json_unmarshal out = Some (normal sample_any) \<and>
     json_eq sample_any (normal sample_any))"
  using canonicalizeRaw_roundtrip [OF sample_unmarshal] sample_unmarshal by blast

text \<open>C9: two documents have the same canonical text exactly when they denote the same JSON value; white
  space, the order of members, escapes and the spelling of numbers do not show.\<close>

theorem canonicalizeRaw_eq_iff:
  assumes "json_unmarshal a = Some v" "json_unmarshal b = Some w"
  shows "canonicalizeRaw a = canonicalizeRaw b \<longleftrightarrow> json_eq v w"
proof -
  have d: "decoded v" "decoded w" using assms json_unmarshal_decoded by auto
  have "canon_tree v = canon_tree w \<longleftrightarrow> normal v = normal w"
    using d canon_tree_normal [of v] canon_tree_normal [of w] to_any_canon_tree by (metis option.inject)
  moreover have "render_value canon_body (canon_tree v) = render_value canon_body (canon_tree w) \<longleftrightarrow>
      canon_tree v = canon_tree w"
    using d canon.json_scan_render canon_tree_wf by (metis option.inject)
  moreover have "normal v = normal w \<longleftrightarrow> json_eq v w" using d json_eq_normal normal_json_eq by blast
  ultimately show ?thesis
    unfolding canonicalizeRaw_ok [OF assms(1)] canonicalizeRaw_ok [OF assms(2)] by simp
qed

theorem canonicalizeRaw_eq_iff_witness:
  "canonicalizeRaw sample_raw = canonicalizeRaw sample_raw' \<and>
   json_eq sample_any (AMap [(''a'', ANil), (''b'', AFloat (Fin False 1))])"
proof -
  have "canonicalizeRaw sample_raw = canonicalizeRaw sample_raw'" by code_simp
  with canonicalizeRaw_eq_iff [OF sample_unmarshal sample_unmarshal'] show ?thesis by blast
qed

text \<open>Canonicalising is idempotent: a canonical text is its own canonical form.\<close>

theorem canonicalizeRaw_idem:
  assumes "canonicalizeRaw raw = Inr out"
  shows "canonicalizeRaw out = Inr out"
proof -
  obtain v where v: "json_unmarshal raw = Some v" using assms by (auto simp: canonicalizeRaw_def split: option.splits)
  then have d: "decoded v" by (rule json_unmarshal_decoded)
  have "out = render_value canon_body (canon_tree v)" using assms canonicalizeRaw_ok [OF v] by simp
  with canonicalizeRaw_ok [OF json_unmarshal_canon [OF d]] show ?thesis by (simp add: canon_tree_normal)
qed

theorem canonicalizeRaw_idem_witness:
  "canonicalizeRaw (''{'' @ quoted ''a'' @ '':null,'' @ quoted ''b'' @ '':1}'') =
   Inr (''{'' @ quoted ''a'' @ '':null,'' @ quoted ''b'' @ '':1}'')"
  by (rule canonicalizeRaw_idem [OF sample_canonical])

text \<open>The number serialiser leaves a two-digit exponent and a negative zero where ECMAScript, and RFC 8785
  with it, print \<^verbatim>\<open>1.5e-7\<close> and \<^verbatim>\<open>0\<close>.\<close>

theorem serializeNumber_not_es6:
  "serializeNumber (Fin False (fl (3 / 20000000))) = ''1.5e-07'' \<and> serializeNumber (Fin True 0) = ''-0''"
  by code_simp

end
