(* ===== verification/Json_Wire.thy ===== *)
theory Json_Wire
  imports Canonicalize
begin

text \<open>
  What survives the way through \<^verbatim>\<open>encoding/json\<close>: an encoded number is a literal the decoder reads
  back to the same double, and an encoded value decodes to the same JSON value. These are the facts that
  make a hash computed before a bundle is written equal to the hash computed after it is read.
\<close>

section \<open>Numbers\<close>

lemma fmtE_exponent_long:
  assumes "10 \<le> \<bar>x\<bar>"
  shows "\<exists>d e ds. fmtE_exponent x = (if x < 0 then ''-'' else ''+'') @ show_digits (d # e # ds) \<and> d \<noteq> 0 \<and> d < 10"
proof -
  define ds where "ds = int_digits \<bar>x\<bar>"
  have "ds = int_digits (\<bar>x\<bar> div 10) @ [nat (\<bar>x\<bar> mod 10)]"
    using assms unfolding ds_def by (subst int_digits.simps) simp
  then obtain d e rest where ds: "ds = d # e # rest"
    using int_digits_nonempty [of "\<bar>x\<bar> div 10"] by (cases "int_digits (\<bar>x\<bar> div 10)"; cases ds; cases "tl ds") auto
  have "d \<noteq> 0" using int_digits_first [of "\<bar>x\<bar>"] assms ds by (simp add: ds_def)
  moreover have "d < 10" using int_digits_small [of "\<bar>x\<bar>" d] ds by (auto simp: ds_def)
  ultimately show ?thesis using assms ds by (auto simp: fmtE_exponent_def ds_def)
qed

lemma show_digit_zero: "d < 10 \<Longrightarrow> byte (48 + d) = CHR ''0'' \<longleftrightarrow> d = 0"
proof -
  assume "d < 10"
  moreover have "CHR ''0'' = byte 48" by code_simp
  ultimately show ?thesis by (simp add: byte_eq_iff)
qed

lemma clean_exponent_short:
  "clean_exponent (t @ [CHR ''e'', s, CHR ''0'', d]) = t @ [CHR ''e'', s, d]" if "s = CHR ''-'' \<or> s = CHR ''+''"
  using that by (auto simp: clean_exponent_def Let_def nth_append)

lemma clean_exponent_two:
  "clean_exponent (t @ [CHR ''e'', s, c, d]) = t @ [CHR ''e'', s, c, d]" if "c \<noteq> CHR ''0''"
  using that by (auto simp: clean_exponent_def Let_def nth_append)

lemma clean_exponent_no_e:
  "clean_exponent (t @ [c, x, y, z]) = t @ [c, x, y, z]" if "c \<noteq> CHR ''e''"
  using that by (auto simp: clean_exponent_def Let_def nth_append)

lemma show_digits_no_e: "list_all (\<lambda>d. d < 10) ds \<Longrightarrow> CHR ''e'' \<notin> set (show_digits ds)"
proof (induction ds)
  case (Cons d ds)
  have "is_digit (byte (48 + d))" using Cons.prems by (intro is_digit_byte) simp
  then have "byte (48 + d) \<noteq> CHR ''e''" by (metis not_digit_punct(2))
  with Cons show ?case by (simp add: show_digits_def)
qed (simp add: show_digits_def)

lemma last_four: "4 \<le> length (xs :: 'a list) \<Longrightarrow> \<exists>t a b c d. xs = t @ [a, b, c, d]"
proof -
  assume "4 \<le> length xs"
  then have len: "length (drop (length xs - 4) xs) = 4" by simp
  have "\<exists>a b c d. ys = [a, b, c, d]" if "length ys = 4" for ys :: "'a list"
    using that by (auto simp: length_Suc_conv numeral_eq_Suc)
  from this [OF len] obtain a b c d where "drop (length xs - 4) xs = [a, b, c, d]" by blast
  then show ?thesis by (metis append_take_drop_id)
qed

lemma clean_exponent_fmtE:
  "\<exists>ex. clean_exponent (t @ ''e'' @ fmtE_exponent x) = t @ ex \<and> exponent_text ex x"
proof (cases "\<bar>x\<bar> < 10")
  case True
  define d where "d = nat \<bar>x\<bar>"
  define s where "s = (if x < 0 then CHR ''-'' else CHR ''+'')"
  have "int_digits \<bar>x\<bar> = [d]" using True by (subst int_digits.simps) (simp add: d_def)
  then have "t @ ''e'' @ fmtE_exponent x = t @ [CHR ''e'', s, CHR ''0'', byte (48 + d)]"
    using True by (simp add: fmtE_exponent_def show_digits_def s_def)
  then have "clean_exponent (t @ ''e'' @ fmtE_exponent x) = t @ [CHR ''e'', s, byte (48 + d)]"
    using clean_exponent_short [of s t "byte (48 + d)"] by (simp add: s_def)
  moreover have "exponent_text [CHR ''e'', s, byte (48 + d)] x"
    unfolding exponent_text_def using True
    by (intro disjI2 exI [of _ "[s]"] exI [of _ "[d]"]) (auto simp: show_digits_def s_def d_def digits_value_def)
  ultimately show ?thesis by blast
next
  case False
  then obtain d e ds where f: "fmtE_exponent x = (if x < 0 then ''-'' else ''+'') @ show_digits (d # e # ds)"
    and d: "d \<noteq> 0" "d < 10" using fmtE_exponent_long [of x] by auto
  have "clean_exponent (t @ ''e'' @ fmtE_exponent x) = t @ ''e'' @ fmtE_exponent x"
  proof (cases ds)
    case Nil
    then show ?thesis
      using f clean_exponent_two [of "byte (48 + d)" t] show_digit_zero [OF d(2)] d(1)
      by (auto simp: show_digits_def)
  next
    case (Cons g gs)
    then have "4 \<le> length (fmtE_exponent x)" by (simp add: f show_digits_def)
    then obtain u a b c h where u: "fmtE_exponent x = u @ [a, b, c, h]" using last_four by blast
    have "CHR ''e'' \<notin> set (fmtE_exponent x)"
      using show_digits_no_e int_digits_small [of "\<bar>x\<bar>"] by (auto simp: fmtE_exponent_def list_all_iff Let_def)
    then have "a \<noteq> CHR ''e''" using u by auto
    then show ?thesis using u clean_exponent_no_e [of a "t @ ''e'' @ u" b c h] by simp
  qed
  with exponent_text_fmtE [of x] show ?thesis by auto
qed

theorem encode_float_roundtrip:
  assumes "is_double (Fin neg m)"
  shows "\<exists>t. encode_float (Fin neg m) = Some t \<and> ParseFloat t = Some (Fin neg m) \<and> scan_number t = Some (t, [])"
proof (cases "exp_range m")
  case False
  then show ?thesis using FormatFloat_f_roundtrip [OF assms] by simp
next
  case True
  then have "m \<noteq> 0" by (simp add: exp_range_def)
  then have m: "0 < m" "fl m = m" "m < 2 ^ 1024" using assms by auto
  obtain ds dp where d: "decimal_digits m = (ds, dp)" by force
  from decimal_digits_correct [OF m(1,2) d] have g: "good_digits ds" "fl (exact_value ds dp) = m" by auto
  obtain ip fp where t: "fmtE neg ds dp = sign_text neg @ number_text ip fp (''e'' @ fmtE_exponent (dp - 1))"
    "good_digits ip" "list_all (\<lambda>d. d < 10) fp"
    "of_int (digits_value (ip @ fp)) * pow10 (dp - 1 - int (length fp)) = exact_value ds dp"
    by (rule fmtE_text [OF g(1)])
  obtain ex where ex: "clean_exponent (sign_text neg @ number_text ip fp (''e'' @ fmtE_exponent (dp - 1))) =
      sign_text neg @ number_text ip fp ex" "exponent_text ex (dp - 1)"
    using clean_exponent_fmtE [of "sign_text neg @ number_text ip fp []" "dp - 1"]
    by (auto simp: number_text_def)
  have i: "ip = [0] \<or> good_digits ip" using t(2) by simp
  show ?thesis
    using ParseFloat_signed [OF i t(3) ex(2) _ m(3), of neg] scan_number_signed [OF i t(3) ex(2), of neg]
      t g(2) ex(1) True
    by (simp add: FormatFloat_e_def d)
qed

lemma show_int_text: "show_int n = sign_text (n < 0) @ number_text (int_digits \<bar>n\<bar>) [] []"
  by (simp add: show_int_def sign_text_def number_text_def)

lemma int_digits_good: "0 \<le> n \<Longrightarrow> int_digits n = [0] \<or> good_digits (int_digits n)"
proof -
  assume n: "0 \<le> n"
  show ?thesis
  proof (cases "n = 0")
    case True
    then show ?thesis by (subst int_digits.simps) simp
  next
    case False
    with n show ?thesis
      using int_digits_first [of n] int_digits_small [of n] by (auto simp: good_digits_def list_all_iff)
  qed
qed

lemma show_int_number: "scan_number (show_int n) = Some (show_int n, [])"
  unfolding show_int_text
  by (rule scan_number_signed [where v = 0]) (simp_all add: int_digits_good exponent_text_def)

lemma ParseFloat_show_int:
  assumes "fl (of_int \<bar>n\<bar>) < 2 ^ 1024"
  shows "ParseFloat (show_int n) = Some (float_of_int n)"
  unfolding show_int_text float_of_int_def
  by (rule ParseFloat_signed [where v = 0])
    (use assms in \<open>simp_all add: int_digits_good exponent_text_def pow10_def\<close>)

section \<open>Values\<close>

text \<open>
  A value that went through the decoder encodes to a well-formed tree of valid UTF-8, and decoding that
  tree gives the same JSON value back.
\<close>

definition wire :: "json \<Rightarrow> any \<Rightarrow> bool" where
  "wire j v = (wf_json j \<and> coerce_json j = j \<and> (\<exists>w. to_any j = Some w \<and> decoded w \<and> json_eq v w))"

lemma wireE:
  assumes "wire j v"
  obtains w where "wf_json j" "coerce_json j = j" "to_any j = Some w" "decoded w" "json_eq v w"
  using assms by (auto simp: wire_def)

lemma to_anys_wire:
  "list_all2 wire js vs \<Longrightarrow> \<exists>ws. to_anys js = Some ws \<and> list_all decoded ws \<and> list_all2 json_eq vs ws"
  by (induction rule: list_all2_induct) (auto elim!: wireE)

lemma wire_array:
  assumes "list_all2 wire js vs"
  shows "wire (JArray js) (AList vs)"
proof -
  have "wf_json j \<and> coerce_json j = j" if "j \<in> set js" for j
    using assms that by (auto simp: list_all2_conv_all_nth in_set_conv_nth elim!: wireE)
  then show ?thesis
    using to_anys_wire [OF assms] by (auto simp: wire_def list_all_iff intro: json_eq.array map_idI)
qed

lemma to_jsons_wire:
  assumes "\<And>v. v \<in> set vs \<Longrightarrow> \<exists>j. to_json v = Some j \<and> wire j v"
  shows "\<exists>js. to_jsons vs = Some js \<and> list_all2 wire js vs"
  using assms by (induction vs) fastforce+

lemma to_members_wire:
  assumes "\<And>k v. (k, v) \<in> set m \<Longrightarrow> \<exists>j. to_json v = Some j \<and> wire j v"
  shows "\<exists>ms. to_members m = Some ms \<and> list_all2 (\<lambda>x y. fst x = fst y \<and> wire (snd x) (snd y)) ms m"
  using assms
proof (induction m)
  case (Cons x m)
  obtain k v where x: "x = (k, v)" by force
  with Cons.prems obtain j where "to_json v = Some j" "wire j v" by auto
  moreover obtain ms where "to_members m = Some ms" "list_all2 (\<lambda>x y. fst x = fst y \<and> wire (snd x) (snd y)) ms m"
    using Cons by auto
  ultimately show ?case using x by auto
qed auto

lemma map_of_members_wire:
  "list_all2 (\<lambda>x y. fst x = fst y \<and> wire (snd x) (snd y)) ms m \<Longrightarrow> rel_option wire (map_of ms k) (map_of m k)"
  by (induction rule: list_all2_induct) (auto simp: split_beta)

lemma wire_object:
  assumes rel: "list_all2 (\<lambda>x y. fst x = fst y \<and> wire (snd x) (snd y)) ms m" and dec: "decoded (AMap m)"
  shows "wire (JObject (sort_key fst ms)) (AMap m)"
proof -
  define f where "f = (\<lambda>j. the (to_any j))"
  define ns where "ns = sort_key fst ms"
  have keys: "map fst ms = map fst m" using rel by (induction rule: list_all2_induct) auto
  have mem: "\<exists>v. (k, v) \<in> set m \<and> wire j v" if "(k, j) \<in> set ns" for k j
  proof -
    from that obtain i where i: "i < length ms" "ms ! i = (k, j)" by (auto simp: ns_def in_set_conv_nth)
    then have "fst (m ! i) = k" "wire j (snd (m ! i))" "i < length m"
      using list_all2_nthD [OF rel i(1)] list_all2_lengthD [OF rel] by auto
    then show ?thesis by (metis nth_mem prod.collapse)
  qed
  have d: "distinct (map fst ns)" using dec keys by (simp add: ns_def)
  have val: "to_any j = Some (f j) \<and> decoded (f j) \<and> wf_json j \<and> coerce_json j = j \<and> valid_utf8 k"
    if "(k, j) \<in> set ns" for k j
    using mem [OF that] dec by (auto simp: f_def list_all_iff elim!: wireE)
  have fields: "to_fields ns [] = Some (map (\<lambda>(k, j). (k, f j)) ns)"
    using to_fields_distinct [of ns f "[]"] val d by auto
  have eq: "rel_option json_eq (map_of m k) (map_of (map (\<lambda>(k, j). (k, f j)) ns) k)" for k
  proof -
    have "map_of (map (\<lambda>(k, j). (k, f j)) ns) k = map_option f (map_of ms k)"
      using map_of_sort_key [of ms fst] dec keys by (simp add: ns_def map_of_map)
    with map_of_members_wire [OF rel, of k] show ?thesis
      by (auto simp: f_def elim!: option.rel_cases wireE)
  qed
  have "decoded (AMap (map (\<lambda>(k, j). (k, f j)) ns))"
    using val d by (auto simp: list_all_iff comp_def split_beta)
  with fields eq val show ?thesis
    unfolding wire_def ns_def [symmetric]
    by (auto simp: list_all_iff intro!: json_eq.obj map_idI simp del: decoded.simps)
qed

theorem to_json_wire: "decoded v \<Longrightarrow> \<exists>j. to_json v = Some j \<and> wire j v"
proof (induction v rule: decoded.induct)
  case (1 f)
  then obtain neg m where f: "f = Fin neg m" "is_double (Fin neg m)" by (auto split: float64.splits)
  then show ?case using encode_float_roundtrip [OF f(2)] by (auto simp: wire_def intro: json_eq.atom)
next
  case (3 vs)
  then obtain js where "to_jsons vs = Some js" "list_all2 wire js vs"
    using to_jsons_wire [of vs] by (auto simp: list_all_iff)
  then show ?case by (auto intro: wire_array)
next
  case (4 m)
  then obtain ms where "to_members m = Some ms" "list_all2 (\<lambda>x y. fst x = fst y \<and> wire (snd x) (snd y)) ms m"
    using to_members_wire [of m] by (fastforce simp: list_all_iff)
  with 4 show ?case by (auto intro: wire_object simp del: decoded.simps)
qed (auto simp: wire_def intro: json_eq.atom)

section \<open>Any value that can be encoded\<close>

text \<open>
  The values of a running program: machine integers of 64 bits, doubles, arbitrary bytes in strings. Their
  encoding, if there is one, is a well-formed tree that decodes.
\<close>

fun go_value :: "any \<Rightarrow> bool" where
  "go_value (AInt n) = (- (2 ^ 63) \<le> n \<and> n < 2 ^ 63)"
| "go_value (AFloat f) = is_double f"
| "go_value (AList vs) = list_all go_value vs"
| "go_value (AMap m) = (distinct (map fst m) \<and> list_all (\<lambda>(k, v). go_value v) m)"
| "go_value _ = True"

lemma fl_int64:
  assumes "- (2 ^ 63) \<le> n" "n < (2 ^ 63 :: int)"
  shows "fl (of_int \<bar>n\<bar>) < 2 ^ 1024"
proof (cases "n = 0")
  case False
  define x where "x = (of_int \<bar>n\<bar> :: rat)"
  have x: "0 < x" using False by (simp add: x_def)
  have "\<bar>n\<bar> \<le> 2 ^ 63" using assms by linarith
  then have "x \<le> of_int (2 ^ 63)" unfolding x_def by (simp only: of_int_le_iff)
  then have le: "x < pow2 64" by (simp add: pow2_def)
  have "fexp x \<le> 63"
  proof (rule ccontr)
    assume "\<not> fexp x \<le> 63"
    then have "pow2 64 \<le> pow2 (fexp x)" by (intro pow2_mono) simp
    with fexp_bounds [OF x] le show False by linarith
  qed
  then have "fl_pos x \<le> pow2 64" using fl_pos_le_binade [OF x, of 63] by simp
  moreover have "pow2 64 < 2 ^ 1024" using pow2_strict_mono [of 64 1024] by (simp add: pow2_def [of 1024])
  ultimately show ?thesis using x by (simp add: fl_def x_def)
qed simp

definition readable :: "json \<Rightarrow> bool" where
  "readable j = (wf_json j \<and> (\<exists>w. to_any (coerce_json j) = Some w))"

lemma to_anys_readable:
  "list_all readable js \<Longrightarrow> \<exists>ws. to_anys (map coerce_json js) = Some ws"
  by (induction js) (auto simp: readable_def)

lemma to_fields_readable:
  "list_all (\<lambda>(k, j). readable j) ms \<Longrightarrow>
     \<exists>m'. to_fields (map (\<lambda>(k, j). (coerce_utf8 k, coerce_json j)) ms) m = Some m'"
  by (induction ms arbitrary: m) (auto simp: readable_def)

lemma readable_array: "list_all readable js \<Longrightarrow> readable (JArray js)"
  using to_anys_readable [of js] by (auto simp: readable_def list_all_iff)

lemma readable_object: "list_all (\<lambda>(k, j). readable j) ms \<Longrightarrow> readable (JObject ms)"
  using to_fields_readable [of ms "[]"] by (auto simp: readable_def list_all_iff)

lemma to_json_readable:
  "to_json v = Some j \<Longrightarrow> go_value v \<Longrightarrow> readable j"
  "to_jsons vs = Some js \<Longrightarrow> list_all go_value vs \<Longrightarrow> list_all readable js"
  "to_members m = Some ms \<Longrightarrow> list_all (\<lambda>(k, v). go_value v) m \<Longrightarrow> list_all (\<lambda>(k, j). readable j) ms"
proof (induction v and vs and m arbitrary: j and js and ms rule: to_json_to_jsons_to_members.induct)
  case (3 n)
  then show ?case using fl_int64 [of n] ParseFloat_show_int [of n] by (auto simp: readable_def show_int_number)
next
  case (4 f)
  then show ?case using encode_float_roundtrip by (cases f) (fastforce simp: readable_def)+
next
  case (6 vs)
  then show ?case by (auto intro!: readable_array)
next
  case (7 m)
  then show ?case by (auto intro!: readable_object simp: list_all_iff)
qed (auto simp: readable_def split: option.splits)

lemma utf8_coerce_json [simp]: "utf8_json (coerce_json j)"
  by (induction j rule: coerce_json.induct) (auto simp: list_all_iff)

lemma coerce_json_idem [simp]: "coerce_json (coerce_json j) = coerce_json j"
  by (induction j rule: coerce_json.induct) auto

lemma json_unmarshal_render_html:
  "wf_json j \<Longrightarrow> json_unmarshal (render_html j) = to_any (coerce_json j)"
  by (simp add: json_unmarshal_def json_scan_render_html)

section \<open>Equivalent trees\<close>

definition tree_equiv :: "json \<Rightarrow> json \<Rightarrow> bool" where
  "tree_equiv j j' = (\<exists>v v'. to_any j = Some v \<and> to_any j' = Some v' \<and> decoded v \<and> decoded v' \<and> json_eq v v')"

lemma json_eq_refl: "decoded v \<Longrightarrow> json_eq v v"
  by (simp add: normal_json_eq)

lemma tree_equiv_refl: "to_any j = Some v \<Longrightarrow> utf8_json j \<Longrightarrow> tree_equiv j j"
  using to_any_decoded(1) json_eq_refl unfolding tree_equiv_def by blast

lemma tree_equiv_object:
  assumes rel: "list_all2 (\<lambda>x y. fst x = fst y \<and> tree_equiv (snd x) (snd y)) ms ms'"
    and d: "distinct (map fst ms)" and u: "list_all (\<lambda>(k, j). valid_utf8 k) ms"
  shows "tree_equiv (JObject ms) (JObject ms')"
proof -
  define f where "f = (\<lambda>j. the (to_any j))"
  have keys: "map fst ms' = map fst ms" using rel by (induction rule: list_all2_induct) auto
  have len: "length ms = length ms'" using rel by (rule list_all2_lengthD)
  have nth: "fst (ms ! i) = fst (ms' ! i) \<and> tree_equiv (snd (ms ! i)) (snd (ms' ! i))" if "i < length ms" for i
    using list_all2_nthD [OF rel that] .
  have val: "to_any j = Some (f j) \<and> decoded (f j)" if "(k, j) \<in> set ms \<or> (k, j) \<in> set ms'" for k j
  proof -
    from that len obtain i where "i < length ms" "ms ! i = (k, j) \<or> ms' ! i = (k, j)" by (auto simp: in_set_conv_nth)
    with nth [of i] show ?thesis by (auto simp: tree_equiv_def f_def)
  qed
  have fields: "to_fields ms [] = Some (map (\<lambda>(k, j). (k, f j)) ms)" "to_fields ms' [] = Some (map (\<lambda>(k, j). (k, f j)) ms')"
    using to_fields_distinct [of ms f "[]"] to_fields_distinct [of ms' f "[]"] val d keys by auto
  have mo: "map_of (map (\<lambda>(k, j). (k, f j)) xs) k = map_option f (map_of xs k)" for xs :: "(string \<times> json) list" and k
    by (simp add: map_of_map)
  have "rel_option tree_equiv (map_of ms k) (map_of ms' k)" for k
    using rel by (induction rule: list_all2_induct) (auto simp: split_beta)
  then have eq: "rel_option json_eq (map_option f (map_of ms k)) (map_option f (map_of ms' k))" for k
    by (rule option.rel_cases [of tree_equiv "map_of ms k" "map_of ms' k"]) (auto simp: tree_equiv_def f_def)
  have u': "list_all valid_utf8 (map fst xs)" if "map fst xs = map fst ms" for xs :: "(string \<times> json) list"
    unfolding that using u by (auto simp: list_all_iff)
  have "decoded (AMap (map (\<lambda>(k, j). (k, f j)) xs))"
    if "map fst xs = map fst ms" "\<And>k j. (k, j) \<in> set xs \<Longrightarrow> decoded (f j)" for xs
  proof -
    have "distinct (map fst (map (\<lambda>(k, j). (k, f j)) xs))" using that(1) d by (simp add: comp_def split_beta)
    moreover have "list_all (\<lambda>(k, v). valid_utf8 k \<and> decoded v) (map (\<lambda>(k, j). (k, f j)) xs)"
      using u' [OF that(1)] that(2) by (auto simp: list_all_iff)
    ultimately show ?thesis by simp
  qed
  from this [of ms] this [of ms'] val keys
  have "decoded (AMap (map (\<lambda>(k, j). (k, f j)) ms))" "decoded (AMap (map (\<lambda>(k, j). (k, f j)) ms'))" by blast+
  with fields eq show ?thesis
    unfolding tree_equiv_def by (auto intro!: json_eq.obj simp: mo simp del: decoded.simps)
qed

text \<open>Equivalent trees have one canonical text.\<close>

theorem canonicalizeRaw_tree_equiv:
  assumes "wf_json j" "wf_json j'" "tree_equiv (coerce_json j) (coerce_json j')"
  shows "\<exists>t. canonicalizeRaw (render_html j) = Inr t \<and> canonicalizeRaw (render_html j') = Inr t"
proof -
  obtain v v' where v: "to_any (coerce_json j) = Some v" "to_any (coerce_json j') = Some v'"
    and d: "decoded v" "decoded v'" "json_eq v v'" using assms(3) by (auto simp: tree_equiv_def)
  have u: "json_unmarshal (render_html j) = Some v" "json_unmarshal (render_html j') = Some v'"
    using assms v by (simp_all add: json_unmarshal_render_html)
  have "canon_tree v = canon_tree v'" using json_eq_normal [OF d(3,1,2)] canon_tree_normal by metis
  with canonicalizeRaw_ok [OF u(1)] canonicalizeRaw_ok [OF u(2)] show ?thesis by simp
qed

end
