(* ===== verification/Event.thy ===== *)
theory Event
  imports Json_Wire
begin

text \<open>
  The event model of \<^verbatim>\<open>internal/event\<close>: the structs \<^verbatim>\<open>Event\<close>, \<^verbatim>\<open>AcquisitionInfo\<close> and
  \<^verbatim>\<open>CheckpointInfo\<close>, and what \<^verbatim>\<open>encoding/json\<close> does with their tags. Encoding writes the
  fields in declaration order and drops the empty ones marked \<^verbatim>\<open>omitempty\<close>; decoding matches keys exactly
  or by case folding, later members overwrite earlier ones, and null leaves a field as it is. The lemmas
  show that an event survives the way through its JSON text up to the value of its payload.
\<close>

section \<open>Encoding\<close>

record checkpoint_info =
  cp_SourceSystem :: string
  cp_AcquisitionStream :: string
  cp_Position :: string
  cp_ObservedAt :: string
  cp_Adapter :: string
  cp_AdapterVersion :: string

record acquisition_info =
  acq_Mode :: string
  acq_SourceSystem :: string
  acq_SourceRecordID :: string
  acq_SourceTimestamp :: string
  acq_AcquiredAt :: string
  acq_SourceDigest :: string
  acq_Adapter :: string
  acq_AdapterVersion :: string
  acq_Checkpoint :: "checkpoint_info option"

record event =
  Sequence :: int
  PrevHash :: string
  Type :: string
  HashAlgo :: string
  Data :: any
  ActorID :: "string option"
  OrgID :: "string option"
  WorkspaceID :: "string option"
  Timestamp :: string
  TraceID :: string
  SpanID :: string
  ParentSpanID :: string
  Acquisition :: "acquisition_info option"

type_synonym members = "(string \<times> json) list"

definition omit_string :: "string \<Rightarrow> string \<Rightarrow> members" where
  \<comment> \<open>a string field tagged \<^verbatim>\<open>omitempty\<close>\<close>
  "omit_string k s = (if s = [] then [] else [(k, JString s)])"

definition omit_ptr :: "('a \<Rightarrow> json) \<Rightarrow> string \<Rightarrow> 'a option \<Rightarrow> members" where
  \<comment> \<open>a pointer field tagged \<^verbatim>\<open>omitempty\<close>: absent when nil\<close>
  "omit_ptr f k p = (case p of None \<Rightarrow> [] | Some a \<Rightarrow> [(k, f a)])"

definition checkpoint_json :: "checkpoint_info \<Rightarrow> json" where
  "checkpoint_json c = JObject
     ([(''source_system'', JString (cp_SourceSystem c)),
       (''acquisition_stream'', JString (cp_AcquisitionStream c)),
       (''position'', JString (cp_Position c)),
       (''observed_at'', JString (cp_ObservedAt c)),
       (''adapter'', JString (cp_Adapter c))] @
      omit_string ''adapter_version'' (cp_AdapterVersion c))"

definition acquisition_json :: "acquisition_info \<Rightarrow> json" where
  "acquisition_json a = JObject
     (omit_string ''mode'' (acq_Mode a) @
      omit_string ''source_system'' (acq_SourceSystem a) @
      omit_string ''source_record_id'' (acq_SourceRecordID a) @
      omit_string ''source_timestamp'' (acq_SourceTimestamp a) @
      omit_string ''acquired_at'' (acq_AcquiredAt a) @
      omit_string ''source_digest'' (acq_SourceDigest a) @
      omit_string ''adapter'' (acq_Adapter a) @
      omit_string ''adapter_version'' (acq_AdapterVersion a) @
      omit_ptr checkpoint_json ''checkpoint'' (acq_Checkpoint a))"

definition event_members :: "event \<Rightarrow> json \<Rightarrow> members" where
  \<comment> \<open>the members of an event whose payload encodes as the given tree\<close>
  "event_members e d =
     [(''seq'', JNumber (show_int (Sequence e))),
      (''prev_hash'', JString (PrevHash e)),
      (''type'', JString (Type e))] @
     omit_string ''hash_algo'' (HashAlgo e) @
     [(''data'', d)] @
     omit_ptr JString ''actor_id'' (ActorID e) @
     omit_ptr JString ''org_id'' (OrgID e) @
     omit_ptr JString ''workspace_id'' (WorkspaceID e) @
     omit_string ''timestamp'' (Timestamp e) @
     omit_string ''trace_id'' (TraceID e) @
     omit_string ''span_id'' (SpanID e) @
     omit_string ''parent_span_id'' (ParentSpanID e) @
     omit_ptr acquisition_json ''acquisition'' (Acquisition e)"

definition event_json :: "event \<Rightarrow> json option" where
  \<comment> \<open>the tree \<^verbatim>\<open>json.Marshal\<close> writes for an event; None when the payload cannot be encoded\<close>
  "event_json e = map_option (\<lambda>d. JObject (event_members e d)) (to_json (Data e))"

definition event_marshal :: "event \<Rightarrow> string option" where
  "event_marshal e = map_option render_html (event_json e)"

section \<open>Decoding into structs\<close>

text \<open>
  The key comparison of the decoder, \<^verbatim>\<open>foldName\<close>: the smallest rune of the simple folding class. Field names are
  ASCII, and the only other runes that fold to ASCII letters are the Kelvin sign and the long s.
\<close>

definition fold_rune :: "rune \<Rightarrow> rune" where
  "fold_rune r =
     (if r < 0x80 then if 97 \<le> r \<and> r \<le> 122 then r - 32 else r
      else if r = 0x212A then 75 else if r = 0x17F then 83 else r)"

definition foldName :: "string \<Rightarrow> rune list" where
  "foldName s = map fold_rune (runes s)"

definition struct_field :: "string list \<Rightarrow> string \<Rightarrow> string option" where
  "struct_field names k =
     (if k \<in> set names then Some k else find (\<lambda>n. foldName n = foldName k) names)"

fun decode_members :: "(string \<Rightarrow> json \<Rightarrow> 's \<Rightarrow> 's option) \<Rightarrow> string list \<Rightarrow> members \<Rightarrow> 's \<Rightarrow> 's option" where
  "decode_members set_field names [] s = Some s"
| "decode_members set_field names ((k, v) # ms) s =
     (case struct_field names k of
        None \<Rightarrow> decode_members set_field names ms s
      | Some n \<Rightarrow>
          (case set_field n v s of
             None \<Rightarrow> None
           | Some s' \<Rightarrow> decode_members set_field names ms s'))"

definition decode_struct :: "(string \<Rightarrow> json \<Rightarrow> 's \<Rightarrow> 's option) \<Rightarrow> string list \<Rightarrow> json \<Rightarrow> 's \<Rightarrow> 's option" where
  "decode_struct set_field names j s =
     (case j of
        JNull \<Rightarrow> Some s
      | JObject ms \<Rightarrow> decode_members set_field names ms s
      | _ \<Rightarrow> None)"

definition decode_string :: "json \<Rightarrow> string \<Rightarrow> string option" where
  "decode_string j old = (case j of JNull \<Rightarrow> Some old | JString s \<Rightarrow> Some s | _ \<Rightarrow> None)"

definition decode_ptr :: "(json \<Rightarrow> 'a \<Rightarrow> 'a option) \<Rightarrow> 'a \<Rightarrow> json \<Rightarrow> 'a option \<Rightarrow> 'a option option" where
  \<comment> \<open>null stores a nil pointer; a value is decoded into the pointed-to struct, allocated if nil\<close>
  "decode_ptr dec zero j old =
     (case j of
        JNull \<Rightarrow> Some None
      | _ \<Rightarrow> map_option Some (dec j (case old of None \<Rightarrow> zero | Some a \<Rightarrow> a)))"

definition ParseInt :: "string \<Rightarrow> int option" where
  \<comment> \<open>a number literal as an \<^verbatim>\<open>int64\<close>: digits with an optional minus, in range\<close>
  "ParseInt lit =
     (let neg = HasPrefix lit ''-''; ds = (if neg then tl lit else lit);
          n = digits_value (map digit_value ds); v = (if neg then - n else n)
      in if ds \<noteq> [] \<and> list_all is_digit ds \<and> - (2 ^ 63) \<le> v \<and> v < 2 ^ 63 then Some v else None)"

definition decode_int :: "json \<Rightarrow> int \<Rightarrow> int option" where
  "decode_int j old = (case j of JNull \<Rightarrow> Some old | JNumber lit \<Rightarrow> ParseInt lit | _ \<Rightarrow> None)"

definition checkpoint_names :: "string list" where
  "checkpoint_names =
     [''source_system'', ''acquisition_stream'', ''position'', ''observed_at'', ''adapter'', ''adapter_version'']"

definition set_checkpoint :: "string \<Rightarrow> json \<Rightarrow> checkpoint_info \<Rightarrow> checkpoint_info option" where
  "set_checkpoint n j c =
     (if n = ''source_system'' then map_option (\<lambda>s. c\<lparr>cp_SourceSystem := s\<rparr>) (decode_string j (cp_SourceSystem c))
      else if n = ''acquisition_stream''
      then map_option (\<lambda>s. c\<lparr>cp_AcquisitionStream := s\<rparr>) (decode_string j (cp_AcquisitionStream c))
      else if n = ''position'' then map_option (\<lambda>s. c\<lparr>cp_Position := s\<rparr>) (decode_string j (cp_Position c))
      else if n = ''observed_at'' then map_option (\<lambda>s. c\<lparr>cp_ObservedAt := s\<rparr>) (decode_string j (cp_ObservedAt c))
      else if n = ''adapter'' then map_option (\<lambda>s. c\<lparr>cp_Adapter := s\<rparr>) (decode_string j (cp_Adapter c))
      else map_option (\<lambda>s. c\<lparr>cp_AdapterVersion := s\<rparr>) (decode_string j (cp_AdapterVersion c)))"

definition zero_checkpoint :: checkpoint_info where
  "zero_checkpoint = \<lparr>cp_SourceSystem = [], cp_AcquisitionStream = [], cp_Position = [], cp_ObservedAt = [],
     cp_Adapter = [], cp_AdapterVersion = []\<rparr>"

definition acquisition_names :: "string list" where
  "acquisition_names =
     [''mode'', ''source_system'', ''source_record_id'', ''source_timestamp'', ''acquired_at'', ''source_digest'',
      ''adapter'', ''adapter_version'', ''checkpoint'']"

definition set_acquisition :: "string \<Rightarrow> json \<Rightarrow> acquisition_info \<Rightarrow> acquisition_info option" where
  "set_acquisition n j a =
     (if n = ''mode'' then map_option (\<lambda>s. a\<lparr>acq_Mode := s\<rparr>) (decode_string j (acq_Mode a))
      else if n = ''source_system'' then map_option (\<lambda>s. a\<lparr>acq_SourceSystem := s\<rparr>) (decode_string j (acq_SourceSystem a))
      else if n = ''source_record_id''
      then map_option (\<lambda>s. a\<lparr>acq_SourceRecordID := s\<rparr>) (decode_string j (acq_SourceRecordID a))
      else if n = ''source_timestamp''
      then map_option (\<lambda>s. a\<lparr>acq_SourceTimestamp := s\<rparr>) (decode_string j (acq_SourceTimestamp a))
      else if n = ''acquired_at'' then map_option (\<lambda>s. a\<lparr>acq_AcquiredAt := s\<rparr>) (decode_string j (acq_AcquiredAt a))
      else if n = ''source_digest''
      then map_option (\<lambda>s. a\<lparr>acq_SourceDigest := s\<rparr>) (decode_string j (acq_SourceDigest a))
      else if n = ''adapter'' then map_option (\<lambda>s. a\<lparr>acq_Adapter := s\<rparr>) (decode_string j (acq_Adapter a))
      else if n = ''adapter_version''
      then map_option (\<lambda>s. a\<lparr>acq_AdapterVersion := s\<rparr>) (decode_string j (acq_AdapterVersion a))
      else map_option (\<lambda>c. a\<lparr>acq_Checkpoint := c\<rparr>)
        (decode_ptr (decode_struct set_checkpoint checkpoint_names) zero_checkpoint j (acq_Checkpoint a)))"

definition zero_acquisition :: acquisition_info where
  "zero_acquisition = \<lparr>acq_Mode = [], acq_SourceSystem = [], acq_SourceRecordID = [], acq_SourceTimestamp = [],
     acq_AcquiredAt = [], acq_SourceDigest = [], acq_Adapter = [], acq_AdapterVersion = [], acq_Checkpoint = None\<rparr>"

definition event_names :: "string list" where
  "event_names =
     [''seq'', ''prev_hash'', ''type'', ''hash_algo'', ''data'', ''actor_id'', ''org_id'', ''workspace_id'', ''timestamp'',
      ''trace_id'', ''span_id'', ''parent_span_id'', ''acquisition'']"

definition set_event :: "string \<Rightarrow> json \<Rightarrow> event \<Rightarrow> event option" where
  "set_event n j e =
     (if n = ''seq'' then map_option (\<lambda>i. e\<lparr>Sequence := i\<rparr>) (decode_int j (Sequence e))
      else if n = ''prev_hash'' then map_option (\<lambda>s. e\<lparr>PrevHash := s\<rparr>) (decode_string j (PrevHash e))
      else if n = ''type'' then map_option (\<lambda>s. e\<lparr>Type := s\<rparr>) (decode_string j (Type e))
      else if n = ''hash_algo'' then map_option (\<lambda>s. e\<lparr>HashAlgo := s\<rparr>) (decode_string j (HashAlgo e))
      else if n = ''data'' then map_option (\<lambda>d. e\<lparr>Data := d\<rparr>) (to_any j)
      else if n = ''actor_id'' then map_option (\<lambda>p. e\<lparr>ActorID := p\<rparr>) (decode_ptr decode_string [] j (ActorID e))
      else if n = ''org_id'' then map_option (\<lambda>p. e\<lparr>OrgID := p\<rparr>) (decode_ptr decode_string [] j (OrgID e))
      else if n = ''workspace_id''
      then map_option (\<lambda>p. e\<lparr>WorkspaceID := p\<rparr>) (decode_ptr decode_string [] j (WorkspaceID e))
      else if n = ''timestamp'' then map_option (\<lambda>s. e\<lparr>Timestamp := s\<rparr>) (decode_string j (Timestamp e))
      else if n = ''trace_id'' then map_option (\<lambda>s. e\<lparr>TraceID := s\<rparr>) (decode_string j (TraceID e))
      else if n = ''span_id'' then map_option (\<lambda>s. e\<lparr>SpanID := s\<rparr>) (decode_string j (SpanID e))
      else if n = ''parent_span_id'' then map_option (\<lambda>s. e\<lparr>ParentSpanID := s\<rparr>) (decode_string j (ParentSpanID e))
      else map_option (\<lambda>a. e\<lparr>Acquisition := a\<rparr>)
        (decode_ptr (decode_struct set_acquisition acquisition_names) zero_acquisition j (Acquisition e)))"

definition zero_event :: event where
  "zero_event = \<lparr>Sequence = 0, PrevHash = [], Type = [], HashAlgo = [], Data = ANil, ActorID = None, OrgID = None,
     WorkspaceID = None, Timestamp = [], TraceID = [], SpanID = [], ParentSpanID = [], Acquisition = None\<rparr>"

abbreviation decode_event :: "json \<Rightarrow> event \<Rightarrow> event option" where
  "decode_event \<equiv> decode_struct set_event event_names"

section \<open>The way through the text\<close>

text \<open>What \<^verbatim>\<open>encoding/json\<close> makes of the strings of an event: invalid bytes become U+FFFD.\<close>

definition coerce_checkpoint :: "checkpoint_info \<Rightarrow> checkpoint_info" where
  "coerce_checkpoint c = \<lparr>cp_SourceSystem = coerce_utf8 (cp_SourceSystem c),
     cp_AcquisitionStream = coerce_utf8 (cp_AcquisitionStream c), cp_Position = coerce_utf8 (cp_Position c),
     cp_ObservedAt = coerce_utf8 (cp_ObservedAt c), cp_Adapter = coerce_utf8 (cp_Adapter c),
     cp_AdapterVersion = coerce_utf8 (cp_AdapterVersion c)\<rparr>"

definition coerce_acquisition :: "acquisition_info \<Rightarrow> acquisition_info" where
  "coerce_acquisition a = \<lparr>acq_Mode = coerce_utf8 (acq_Mode a), acq_SourceSystem = coerce_utf8 (acq_SourceSystem a),
     acq_SourceRecordID = coerce_utf8 (acq_SourceRecordID a), acq_SourceTimestamp = coerce_utf8 (acq_SourceTimestamp a),
     acq_AcquiredAt = coerce_utf8 (acq_AcquiredAt a), acq_SourceDigest = coerce_utf8 (acq_SourceDigest a),
     acq_Adapter = coerce_utf8 (acq_Adapter a), acq_AdapterVersion = coerce_utf8 (acq_AdapterVersion a),
     acq_Checkpoint = map_option coerce_checkpoint (acq_Checkpoint a)\<rparr>"

definition coerce_event :: "event \<Rightarrow> any \<Rightarrow> event" where
  "coerce_event e d = \<lparr>Sequence = Sequence e, PrevHash = coerce_utf8 (PrevHash e), Type = coerce_utf8 (Type e),
     HashAlgo = coerce_utf8 (HashAlgo e), Data = d, ActorID = map_option coerce_utf8 (ActorID e),
     OrgID = map_option coerce_utf8 (OrgID e), WorkspaceID = map_option coerce_utf8 (WorkspaceID e),
     Timestamp = coerce_utf8 (Timestamp e), TraceID = coerce_utf8 (TraceID e), SpanID = coerce_utf8 (SpanID e),
     ParentSpanID = coerce_utf8 (ParentSpanID e), Acquisition = map_option coerce_acquisition (Acquisition e)\<rparr>"

abbreviation coerce_members :: "members \<Rightarrow> members" where
  "coerce_members \<equiv> map (\<lambda>(k, v). (coerce_utf8 k, coerce_json v))"

lemma coerce_utf8_eq_Nil [simp]: "coerce_utf8 s = [] \<longleftrightarrow> s = []"
proof
  assume "coerce_utf8 s = []"
  then have "runes s = []" using runes_coerce [of s] by simp
  then show "s = []" by (cases s) (auto split: prod.splits)
qed simp

lemma coerce_omit_string: "valid_utf8 k \<Longrightarrow> coerce_members (omit_string k s) = omit_string k (coerce_utf8 s)"
  by (simp add: omit_string_def)

lemma coerce_omit_ptr:
  "valid_utf8 k \<Longrightarrow> (\<And>a. coerce_json (f a) = f (g a)) \<Longrightarrow> coerce_members (omit_ptr f k p) = omit_ptr f k (map_option g p)"
  by (cases p) (simp_all add: omit_ptr_def)

lemma coerce_checkpoint_json: "coerce_json (checkpoint_json c) = checkpoint_json (coerce_checkpoint c)"
  by (simp add: checkpoint_json_def coerce_checkpoint_def coerce_omit_string valid_utf8_literal)

lemma coerce_acquisition_json: "coerce_json (acquisition_json a) = acquisition_json (coerce_acquisition a)"
  by (simp add: acquisition_json_def coerce_acquisition_def coerce_omit_string valid_utf8_literal
      coerce_omit_ptr [where g = coerce_checkpoint] coerce_checkpoint_json)

lemma coerce_event_members:
  "coerce_members (event_members e d) = event_members (coerce_event e w) (coerce_json d)"
  by (simp add: event_members_def coerce_event_def coerce_omit_string valid_utf8_literal
      coerce_omit_ptr [where g = coerce_utf8] coerce_omit_ptr [where g = coerce_acquisition] coerce_acquisition_json)

lemma wf_omit:
  "list_all (\<lambda>(k, v). wf_json v) (omit_string k s)"
  "(\<And>a. wf_json (f a)) \<Longrightarrow> list_all (\<lambda>(k, v). wf_json v) (omit_ptr f k p)"
  by (auto simp: omit_string_def omit_ptr_def split: option.splits)

lemma wf_event_members: "wf_json d \<Longrightarrow> wf_json (JObject (event_members e d))"
proof -
  have "wf_json (checkpoint_json c)" for c by (simp add: checkpoint_json_def wf_omit)
  then have "wf_json (acquisition_json a)" for a by (simp add: acquisition_json_def wf_omit)
  then show "wf_json d \<Longrightarrow> ?thesis" by (simp add: event_members_def wf_omit show_int_number)
qed

text \<open>Decoding the members an event was encoded to.\<close>

lemma decode_members_append:
  "decode_members f names (xs @ ys) s =
     (case decode_members f names xs s of None \<Rightarrow> None | Some s' \<Rightarrow> decode_members f names ys s')"
  by (induction f names xs s rule: decode_members.induct) (auto split: option.splits)

lemma ParseInt_show_int:
  assumes "- (2 ^ 63) \<le> n" "n < 2 ^ 63"
  shows "ParseInt (show_int n) = Some n"
proof -
  have small: "list_all (\<lambda>d. d < 10) (int_digits \<bar>n\<bar>)" using int_digits_small [of "\<bar>n\<bar>"] by (auto simp: list_all_iff)
  then have ds: "list_all is_digit (show_digits (int_digits \<bar>n\<bar>))"
    "map digit_value (show_digits (int_digits \<bar>n\<bar>)) = int_digits \<bar>n\<bar>"
    by (auto simp: show_digits_def list_all_iff is_digit_byte digit_value_byte intro!: map_idI)
  obtain c t where ct: "show_digits (int_digits \<bar>n\<bar>) = c # t"
    by (cases "show_digits (int_digits \<bar>n\<bar>)") (auto simp: show_digits_def)
  then have "c \<noteq> CHR ''-''" using ds(1) by auto
  with ct have "\<not> HasPrefix (show_digits (int_digits \<bar>n\<bar>)) ''-''" by simp
  with ds ct assms show ?thesis by (auto simp: ParseInt_def show_int_def Let_def)
qed

lemma decode_checkpoint_json:
  "decode_struct set_checkpoint checkpoint_names (checkpoint_json c) zero_checkpoint = Some c"
  by (cases c) (simp add: decode_struct_def checkpoint_json_def struct_field_def checkpoint_names_def set_checkpoint_def
      zero_checkpoint_def decode_string_def omit_string_def)

lemma checkpoint_json_obj: "\<exists>ms. checkpoint_json c = JObject ms"
  by (simp add: checkpoint_json_def)

lemma acquisition_json_obj: "\<exists>ms. acquisition_json c = JObject ms"
  by (simp add: acquisition_json_def)

lemma decode_ptr_obj:
  assumes "\<exists>ms. j = JObject ms"
  shows "decode_ptr dec zero j None = map_option Some (dec j zero)"
  using assms by (auto simp: decode_ptr_def)

lemmas acquisition_decoding =
  struct_field_def acquisition_names_def set_acquisition_def decode_string_def omit_string_def omit_ptr_def

lemma decode_acquisition_fields:
  "acq_Mode a = [] \<Longrightarrow> decode_members set_acquisition acquisition_names (omit_string ''mode'' s) a = Some (a\<lparr>acq_Mode := s\<rparr>)"
  "acq_SourceSystem a = [] \<Longrightarrow> decode_members set_acquisition acquisition_names (omit_string ''source_system'' s) a = Some (a\<lparr>acq_SourceSystem := s\<rparr>)"
  "acq_SourceRecordID a = [] \<Longrightarrow> decode_members set_acquisition acquisition_names (omit_string ''source_record_id'' s) a = Some (a\<lparr>acq_SourceRecordID := s\<rparr>)"
  "acq_SourceTimestamp a = [] \<Longrightarrow> decode_members set_acquisition acquisition_names (omit_string ''source_timestamp'' s) a = Some (a\<lparr>acq_SourceTimestamp := s\<rparr>)"
  "acq_AcquiredAt a = [] \<Longrightarrow> decode_members set_acquisition acquisition_names (omit_string ''acquired_at'' s) a = Some (a\<lparr>acq_AcquiredAt := s\<rparr>)"
  "acq_SourceDigest a = [] \<Longrightarrow> decode_members set_acquisition acquisition_names (omit_string ''source_digest'' s) a = Some (a\<lparr>acq_SourceDigest := s\<rparr>)"
  "acq_Adapter a = [] \<Longrightarrow> decode_members set_acquisition acquisition_names (omit_string ''adapter'' s) a = Some (a\<lparr>acq_Adapter := s\<rparr>)"
  "acq_AdapterVersion a = [] \<Longrightarrow> decode_members set_acquisition acquisition_names (omit_string ''adapter_version'' s) a = Some (a\<lparr>acq_AdapterVersion := s\<rparr>)"
  by (cases a; simp add: acquisition_decoding)+

lemma decode_acquisition_checkpoint:
  "acq_Checkpoint a = None \<Longrightarrow>
     decode_members set_acquisition acquisition_names (omit_ptr checkpoint_json ''checkpoint'' p) a =
       Some (a\<lparr>acq_Checkpoint := p\<rparr>)"
  by (cases p; cases a)
    (simp_all add: acquisition_decoding decode_ptr_obj [OF checkpoint_json_obj] decode_checkpoint_json)

lemma decode_acquisition_json:
  "decode_struct set_acquisition acquisition_names (acquisition_json a) zero_acquisition = Some a"
  by (simp add: decode_struct_def acquisition_json_def decode_members_append decode_acquisition_fields
      decode_acquisition_checkpoint zero_acquisition_def)

lemmas event_decoding =
  struct_field_def event_names_def set_event_def decode_string_def omit_string_def omit_ptr_def

lemma decode_event_strings:
  "HashAlgo e = [] \<Longrightarrow> decode_members set_event event_names (omit_string ''hash_algo'' s) e = Some (e\<lparr>HashAlgo := s\<rparr>)"
  "Timestamp e = [] \<Longrightarrow> decode_members set_event event_names (omit_string ''timestamp'' s) e = Some (e\<lparr>Timestamp := s\<rparr>)"
  "TraceID e = [] \<Longrightarrow> decode_members set_event event_names (omit_string ''trace_id'' s) e = Some (e\<lparr>TraceID := s\<rparr>)"
  "SpanID e = [] \<Longrightarrow> decode_members set_event event_names (omit_string ''span_id'' s) e = Some (e\<lparr>SpanID := s\<rparr>)"
  "ParentSpanID e = [] \<Longrightarrow> decode_members set_event event_names (omit_string ''parent_span_id'' s) e = Some (e\<lparr>ParentSpanID := s\<rparr>)"
  by (cases e; simp add: event_decoding)+

lemma decode_event_ptrs:
  "ActorID e = None \<Longrightarrow> decode_members set_event event_names (omit_ptr JString ''actor_id'' p) e = Some (e\<lparr>ActorID := p\<rparr>)"
  "OrgID e = None \<Longrightarrow> decode_members set_event event_names (omit_ptr JString ''org_id'' p) e = Some (e\<lparr>OrgID := p\<rparr>)"
  "WorkspaceID e = None \<Longrightarrow> decode_members set_event event_names (omit_ptr JString ''workspace_id'' p) e = Some (e\<lparr>WorkspaceID := p\<rparr>)"
  by (cases e; cases p; simp add: event_decoding decode_ptr_def)+

lemma decode_event_acquisition:
  "Acquisition e = None \<Longrightarrow>
     decode_members set_event event_names (omit_ptr acquisition_json ''acquisition'' p) e = Some (e\<lparr>Acquisition := p\<rparr>)"
  by (cases p; cases e)
    (simp_all add: event_decoding decode_ptr_obj [OF acquisition_json_obj] decode_acquisition_json)

lemma decode_event_data:
  "to_any d = Some w \<Longrightarrow> decode_members set_event event_names [(''data'', d)] e = Some (e\<lparr>Data := w\<rparr>)"
  by (simp add: event_decoding)

lemma decode_event_head:
  "- (2 ^ 63) \<le> n \<Longrightarrow> n < 2 ^ 63 \<Longrightarrow>
     decode_members set_event event_names
       [(''seq'', JNumber (show_int n)), (''prev_hash'', JString p), (''type'', JString t)] e =
       Some (e\<lparr>Sequence := n, PrevHash := p, Type := t\<rparr>)"
  by (simp add: event_decoding decode_int_def ParseInt_show_int)

text \<open>An event is read back from its own encoding, with its payload as the decoder reads it.\<close>

theorem decode_event_members:
  assumes "to_any d = Some w" "- (2 ^ 63) \<le> Sequence e" "Sequence e < 2 ^ 63"
  shows "decode_event (JObject (event_members e d)) zero_event = Some (e\<lparr>Data := w\<rparr>)"
  unfolding decode_struct_def event_members_def
  by (simp only: json.case decode_members_append decode_event_head [OF assms(2,3)] decode_event_data [OF assms(1)]
      option.case decode_event_strings decode_event_ptrs decode_event_acquisition zero_event_def
      event.select_convs event.update_convs)
    simp

section \<open>The canonical text of an event is stable\<close>

lemma omit_keys:
  "x \<in> set (omit_string k s) \<Longrightarrow> fst x = k"
  "x \<in> set (omit_ptr f k p) \<Longrightarrow> fst x = k"
  by (auto simp: omit_string_def omit_ptr_def split: if_splits option.splits)

lemma distinct_omit [simp]:
  "distinct (map fst (omit_string k s))" "distinct (map fst (omit_ptr f k p))"
  by (auto simp: omit_string_def omit_ptr_def split: option.splits)

lemma fst_omit_string: "fst ` set (omit_string k s) = (if s = [] then {} else {k})"
  by (simp add: omit_string_def)

lemma fst_omit_ptr: "fst ` set (omit_ptr f k p) = (if p = None then {} else {k})"
  by (auto simp: omit_ptr_def)

lemma distinct_event_members: "distinct (map fst (event_members e d))"
  by (simp add: event_members_def fst_omit_string fst_omit_ptr)

lemma event_members_keys: "(k, j) \<in> set (event_members e d) \<Longrightarrow> k \<in> set event_names"
  by (auto simp: event_members_def event_names_def dest!: omit_keys)

lemma event_names_ascii: "k \<in> set event_names \<Longrightarrow> valid_utf8 k"
  by (rule valid_utf8_literal) (auto simp: event_names_def)

lemma wf_coerce: "wf_json j \<Longrightarrow> wf_json (coerce_json j)"
  by (induction j rule: coerce_json.induct) (auto simp: list_all_iff)

lemma readable_string [simp]: "readable (JString s)"
  by (simp add: readable_def)

lemma readable_omit:
  "list_all (\<lambda>(k, v). readable v) (omit_string k s)"
  "(\<And>a. readable (f a)) \<Longrightarrow> list_all (\<lambda>(k, v). readable v) (omit_ptr f k p)"
  by (auto simp: omit_string_def omit_ptr_def split: option.splits)

lemma readable_acquisition: "readable (acquisition_json a)"
proof -
  have "readable (checkpoint_json c)" for c
    unfolding checkpoint_json_def by (intro readable_object) (simp add: readable_omit)
  then show ?thesis unfolding acquisition_json_def by (intro readable_object) (simp add: readable_omit)
qed

lemma readable_event_members:
  assumes "readable d" "- (2 ^ 63) \<le> Sequence e" "Sequence e < 2 ^ 63"
  shows "list_all (\<lambda>(k, v). readable v) (event_members e d)"
proof -
  have "readable (JNumber (show_int (Sequence e)))"
    using ParseFloat_show_int [OF fl_int64 [OF assms(2,3)]] by (simp add: readable_def show_int_number)
  then show ?thesis using assms(1) by (simp add: event_members_def readable_omit readable_acquisition)
qed

lemma tree_equiv_coerce: "readable j \<Longrightarrow> tree_equiv (coerce_json j) (coerce_json j)"
  by (auto simp: readable_def intro: tree_equiv_refl)

text \<open>Only the payload member differs between two encodings of an event.\<close>

lemma event_members_data:
  "list_all2 (\<lambda>x y. fst x = fst y \<and> (x = y \<or> fst x = ''data'' \<and> snd x = d \<and> snd y = d'))
     (event_members e d) (event_members e d')"
  unfolding event_members_def by (intro list_all2_appendI) (auto simp: list_all2_same)

lemma tree_equiv_event:
  assumes "tree_equiv (coerce_json d) (coerce_json d')" "readable d"
    and "- (2 ^ 63) \<le> Sequence e" "Sequence e < 2 ^ 63"
  shows "tree_equiv (coerce_json (JObject (event_members e d))) (coerce_json (JObject (event_members e d')))"
proof -
  let ?c = "\<lambda>(k, v). (coerce_utf8 k, coerce_json v)"
  have key: "coerce_utf8 (fst x) = fst x" if "x \<in> set (event_members e d)" for x
    using event_members_keys [of "fst x" "snd x" e d] that event_names_ascii by simp
  have refl: "tree_equiv (coerce_json (snd x)) (coerce_json (snd x))" if "x \<in> set (event_members e d)" for x
    using readable_event_members [OF assms(2-4)] that by (auto simp: list_all_iff split_beta intro: tree_equiv_coerce)
  have "list_all2 (\<lambda>x y. fst x = fst y \<and> tree_equiv (snd x) (snd y))
      (map ?c (event_members e d)) (map ?c (event_members e d'))"
    unfolding list.rel_map
    by (rule list_all2_mono_set [OF event_members_data [of d d' e]]) (use refl in \<open>force simp: split_beta assms(1)\<close>)
  moreover have "distinct (map fst (map ?c (event_members e d)))"
  proof -
    have "map fst (map ?c (event_members e d)) = map fst (event_members e d)"
      using key by (auto simp: split_beta)
    then show ?thesis by (simp only: distinct_event_members)
  qed
  ultimately show ?thesis by (auto intro!: tree_equiv_object simp: list_all_iff)
qed

lemma coerce_checkpoint_idem [simp]: "coerce_checkpoint (coerce_checkpoint c) = coerce_checkpoint c"
  by (simp add: coerce_checkpoint_def)

lemma coerce_acquisition_idem [simp]: "coerce_acquisition (coerce_acquisition a) = coerce_acquisition a"
  by (simp add: coerce_acquisition_def option.map_comp comp_def)

lemma coerce_event_idem [simp]: "coerce_event (coerce_event e v) w = coerce_event e w"
  by (simp add: coerce_event_def option.map_comp comp_def)

lemma Sequence_coerce_event [simp]: "Sequence (coerce_event e w) = Sequence e"
  by (simp add: coerce_event_def)

definition int64 :: "int \<Rightarrow> bool" where
  "int64 n = (- (2 ^ 63) \<le> n \<and> n < 2 ^ 63)"

theorem event_json_stable:
  assumes j: "event_json e = Some j" and g: "go_value (Data e)" and n: "int64 (Sequence e)"
  shows "\<exists>w j' t. wf_json j \<and> decoded w \<and> decode_event (coerce_json j) zero_event = Some (coerce_event e w) \<and>
    event_json (coerce_event e w) = Some j' \<and>
    canonicalizeRaw (render_html j) = Inr t \<and> canonicalizeRaw (render_html j') = Inr t"
proof -
  have n': "- (2 ^ 63) \<le> Sequence e" "Sequence e < 2 ^ 63" using n by (auto simp: int64_def)
  obtain d where d: "to_json (Data e) = Some d" and jd: "j = JObject (event_members e d)"
    using j by (auto simp: event_json_def)
  have rd: "readable d" by (rule to_json_readable(1) [OF d g])
  then obtain w where w: "to_any (coerce_json d) = Some w" and wfd: "wf_json d" by (auto simp: readable_def)
  have dw: "decoded w" using to_any_decoded(1) [OF w] by simp
  obtain d' where d': "to_json w = Some d'" "wire d' w" using to_json_wire [OF dw] by blast
  then obtain w' where w': "wf_json d'" "coerce_json d' = d'" "to_any d' = Some w'" "decoded w'" "json_eq w w'"
    by (auto elim: wireE)
  define e' where "e' = coerce_event e w"
  have cj: "coerce_json j = JObject (event_members e' (coerce_json d))"
    unfolding jd e'_def by (simp add: coerce_event_members [of e d w])
  have dec: "decode_event (coerce_json j) zero_event = Some e'"
    unfolding cj using decode_event_members [OF w, of e'] n' by (simp add: e'_def coerce_event_def)
  have data: "Data e' = w" by (simp add: e'_def coerce_event_def)
  have j': "event_json e' = Some (JObject (event_members e' d'))" by (simp add: event_json_def data d')
  have "tree_equiv (coerce_json (coerce_json d)) (coerce_json d')"
    using w w' dw by (auto simp: tree_equiv_def)
  moreover have "readable (coerce_json d)" using rd wfd by (simp add: readable_def wf_coerce)
  ultimately have "tree_equiv (coerce_json (JObject (event_members e' (coerce_json d))))
      (coerce_json (JObject (event_members e' d')))"
    using n' by (intro tree_equiv_event) (simp_all add: e'_def)
  then have "tree_equiv (coerce_json j) (coerce_json (JObject (event_members e' d')))"
    using cj coerce_json_idem [of j] by simp
  then obtain t where "canonicalizeRaw (render_html j) = Inr t"
    "canonicalizeRaw (render_html (JObject (event_members e' d'))) = Inr t"
    using canonicalizeRaw_tree_equiv [of j "JObject (event_members e' d')"] wfd w'(1)
    by (auto simp: jd wf_event_members simp del: wf_json.simps coerce_json.simps)
  moreover have "wf_json j" unfolding jd by (rule wf_event_members [OF wfd])
  ultimately show ?thesis
    using dec dw j' unfolding e'_def
    by (intro exI [of _ w] exI [of _ "JObject (event_members (coerce_event e w) d')"] exI [of _ t]) simp
qed

end
