(* ===== verification/Sha256.thy ===== *)
theory Sha256
  imports Go_Prelude "HOL-Library.Word"
begin

text \<open>
  The hash function of \<^verbatim>\<open>crypto/sha256\<close> on 32-bit words: padding, message schedule, compression. The
  properties of the program use only that a digest has 32 bytes; the concrete function keeps the model
  closed, with no parameter standing for the hash.
\<close>

unbundle bit_operations_syntax

type_synonym u32 = "32 word"

definition sha_k :: "u32 list" where
  "sha_k =
     [0x428A2F98, 0x71374491, 0xB5C0FBCF, 0xE9B5DBA5, 0x3956C25B, 0x59F111F1,
      0x923F82A4, 0xAB1C5ED5, 0xD807AA98, 0x12835B01, 0x243185BE, 0x550C7DC3,
      0x72BE5D74, 0x80DEB1FE, 0x9BDC06A7, 0xC19BF174, 0xE49B69C1, 0xEFBE4786,
      0x0FC19DC6, 0x240CA1CC, 0x2DE92C6F, 0x4A7484AA, 0x5CB0A9DC, 0x76F988DA,
      0x983E5152, 0xA831C66D, 0xB00327C8, 0xBF597FC7, 0xC6E00BF3, 0xD5A79147,
      0x06CA6351, 0x14292967, 0x27B70A85, 0x2E1B2138, 0x4D2C6DFC, 0x53380D13,
      0x650A7354, 0x766A0ABB, 0x81C2C92E, 0x92722C85, 0xA2BFE8A1, 0xA81A664B,
      0xC24B8B70, 0xC76C51A3, 0xD192E819, 0xD6990624, 0xF40E3585, 0x106AA070,
      0x19A4C116, 0x1E376C08, 0x2748774C, 0x34B0BCB5, 0x391C0CB3, 0x4ED8AA4A,
      0x5B9CCA4F, 0x682E6FF3, 0x748F82EE, 0x78A5636F, 0x84C87814, 0x8CC70208,
      0x90BEFFFA, 0xA4506CEB, 0xBEF9A3F7, 0xC67178F2]"

definition sha_init :: "u32 list" where
  "sha_init =
     [0x6A09E667, 0xBB67AE85, 0x3C6EF372, 0xA54FF53A,
      0x510E527F, 0x9B05688C, 0x1F83D9AB, 0x5BE0CD19]"

definition rotr :: "nat \<Rightarrow> u32 \<Rightarrow> u32" where
  "rotr n x = drop_bit n x OR push_bit (32 - n) x"

definition sigma0 :: "u32 \<Rightarrow> u32" where
  "sigma0 x = rotr 7 x XOR rotr 18 x XOR drop_bit 3 x"

definition sigma1 :: "u32 \<Rightarrow> u32" where
  "sigma1 x = rotr 17 x XOR rotr 19 x XOR drop_bit 10 x"

definition big_sigma0 :: "u32 \<Rightarrow> u32" where
  "big_sigma0 x = rotr 2 x XOR rotr 13 x XOR rotr 22 x"

definition big_sigma1 :: "u32 \<Rightarrow> u32" where
  "big_sigma1 x = rotr 6 x XOR rotr 11 x XOR rotr 25 x"

definition sha_ch :: "u32 \<Rightarrow> u32 \<Rightarrow> u32 \<Rightarrow> u32" where
  "sha_ch e f g = (e AND f) XOR (NOT e AND g)"

definition sha_maj :: "u32 \<Rightarrow> u32 \<Rightarrow> u32 \<Rightarrow> u32" where
  "sha_maj a b c = (a AND b) XOR (a AND c) XOR (b AND c)"

text \<open>Big-endian bytes of words and of the bit length.\<close>

definition word_of_bytes :: "string \<Rightarrow> u32" where
  "word_of_bytes bs = word_of_int (foldl (\<lambda>n c. 256 * n + of_char c) 0 bs)"

definition bytes_of_int :: "nat \<Rightarrow> int \<Rightarrow> string" where
  "bytes_of_int k n = map (\<lambda>i. char_of (n div 256 ^ i)) (rev [0..<k])"

fun group :: "nat \<Rightarrow> nat \<Rightarrow> 'a list \<Rightarrow> 'a list list" where
  \<comment> \<open>the first blocks of a given size\<close>
  "group 0 n xs = []"
| "group (Suc k) n xs = take n xs # group k n (drop n xs)"

definition sha_pad :: "string \<Rightarrow> string" where
  "sha_pad m =
     (let zeros = (119 - length m mod 64) mod 64
      in m @ [byte 0x80] @ replicate zeros (byte 0) @ bytes_of_int 8 (8 * int (length m)))"

text \<open>The schedule, newest word first.\<close>

definition sha_extend :: "u32 list \<Rightarrow> u32 list" where
  "sha_extend w = (sigma1 (w ! 1) + w ! 6 + sigma0 (w ! 14) + w ! 15) # w"

definition sha_schedule :: "string \<Rightarrow> u32 list" where
  "sha_schedule block = rev ((sha_extend ^^ 48) (rev (map word_of_bytes (group 16 4 block))))"

definition sha_round :: "u32 list \<Rightarrow> u32 \<times> u32 \<Rightarrow> u32 list" where
  "sha_round st kw =
     (case (st, kw) of
        ([a, b, c, d, e, f, g, h], (k, w)) \<Rightarrow>
          (let t1 = h + big_sigma1 e + sha_ch e f g + k + w; t2 = big_sigma0 a + sha_maj a b c
           in [t1 + t2, a, b, c, d + t1, e, f, g])
      | _ \<Rightarrow> st)"

definition sha_block :: "u32 list \<Rightarrow> string \<Rightarrow> u32 list" where
  "sha_block h block = map2 (+) h (foldl sha_round h (zip sha_k (sha_schedule block)))"

definition Sum256 :: "string \<Rightarrow> string" where
  "Sum256 m =
     (let p = sha_pad m; h = foldl sha_block sha_init (group (length p div 64) 64 p)
      in concat (map (\<lambda>x. bytes_of_int 4 (uint x)) h))"

lemma length_bytes_of_int [simp]: "length (bytes_of_int k n) = k"
  by (simp add: bytes_of_int_def)

lemma length_sha_round: "length (sha_round st kw) = length st"
  by (auto simp: sha_round_def Let_def split: list.splits prod.splits)

lemma length_sha_block: "length (sha_block h block) = length h"
proof -
  have "length (foldl sha_round st kws) = length st" for st kws
    by (induction kws arbitrary: st) (simp_all add: length_sha_round)
  then show ?thesis by (simp add: sha_block_def)
qed

lemma length_Sum256 [simp]: "length (Sum256 m) = 32"
proof -
  have fold: "length (foldl sha_block h bs) = length h" for h bs
    by (induction bs arbitrary: h) (simp_all add: length_sha_block)
  have "length (concat (map (\<lambda>x. bytes_of_int 4 (uint x)) ws)) = 4 * length ws" for ws :: "u32 list"
    by (induction ws) simp_all
  then show ?thesis by (simp add: Sum256_def Let_def fold sha_init_def)
qed

end
