(* ===== verification/Hash_Chain.thy ===== *)
theory Hash_Chain
  imports Event Sha256
begin

text \<open>
  The package \<^verbatim>\<open>internal/hash\<close>: \<open>Compute\<close>, \<open>Chain\<close> and \<open>Verify\<close>. The predicate \<open>linked\<close> and the
  locale \<open>linked_chain\<close> are the abstract contract of a hash chain, shared with the bundle and the
  capture journal: a chain whose every entry carries the digest of its predecessor and its own content.
  Inside the locale it is shown once that two linked chains with the same end either agree in every
  entry or exhibit two different inputs of the digest function with the same digest.
\<close>

section \<open>The code\<close>

definition GenesisHash :: string where
  "GenesisHash = replicate 64 (CHR ''0'')"

definition Compute :: "event \<Rightarrow> canon_error + string" where
  "Compute e =
     bind_res (Marshal event_marshal e)
       (\<lambda>canonical. Inr (hex_encode (Sum256 (PrevHash e @ canonical))))"

fun Chain_loop :: "nat \<Rightarrow> string \<Rightarrow> event list \<Rightarrow> event list \<times> ((nat \<times> canon_error) + string)" where
  \<comment> \<open>the events after the loop, and the final hash or the index and error it stopped at\<close>
  "Chain_loop i prev [] = ([], Inr prev)"
| "Chain_loop i prev (e # es) =
     (let e' = e\<lparr>PrevHash := prev, Sequence := int i + 1\<rparr>
      in case Compute e' of
           Inl err \<Rightarrow> (e' # es, Inl (i, err))
         | Inr h \<Rightarrow> (case Chain_loop (i + 1) h es of (es', r) \<Rightarrow> (e' # es', r)))"

definition Chain :: "event list \<Rightarrow> event list \<times> ((nat \<times> canon_error) + string)" where
  "Chain events = Chain_loop 0 GenesisHash events"

datatype chain_error =
    CountMismatch nat nat
  | ComputeFailed nat canon_error
  | SequenceMismatch nat int int
  | PrevHashMismatch nat string string
  | HashMismatch nat int string string

definition check_event :: "nat \<Rightarrow> int \<Rightarrow> string \<Rightarrow> event \<Rightarrow> string \<Rightarrow> chain_error + string" where
  \<comment> \<open>one iteration of the two verification loops of the program: index, expected sequence, previous hash,
      the event and its recorded hash; the result is the hash the next iteration starts from\<close>
  "check_event i expectedSeq prev e recorded =
     (case Compute (e\<lparr>PrevHash := prev, Sequence := expectedSeq\<rparr>) of
        Inl err \<Rightarrow> Inl (ComputeFailed i err)
      | Inr computed \<Rightarrow>
          if Sequence e \<noteq> expectedSeq then Inl (SequenceMismatch i expectedSeq (Sequence e))
          else if PrevHash e \<noteq> prev then Inl (PrevHashMismatch i prev (PrevHash e))
          else if computed \<noteq> recorded then Inl (HashMismatch i expectedSeq recorded computed)
          else Inr computed)"

fun Verify_loop :: "nat \<Rightarrow> string \<Rightarrow> event list \<Rightarrow> string list \<Rightarrow> chain_error option" where
  "Verify_loop i prev (e # es) (h # hs) =
     (case check_event i (int i + 1) prev e h of
        Inl err \<Rightarrow> Some err
      | Inr computed \<Rightarrow> Verify_loop (i + 1) computed es hs)"
| "Verify_loop i prev _ _ = None"

definition Verify :: "event list \<Rightarrow> string list \<Rightarrow> chain_error option" where
  "Verify events hashes =
     (if length events \<noteq> length hashes then Some (CountMismatch (length events) (length hashes))
      else Verify_loop 0 GenesisHash events hashes)"

section \<open>Linked chains\<close>

text \<open>
  Three functions read an entry: the previous hash and the own hash it records, and the content it
  commits to. \<open>linked\<close> is the abstract property of a chain that starts from a given hash.
\<close>

fun linked :: "('r \<Rightarrow> string) \<Rightarrow> ('r \<Rightarrow> string) \<Rightarrow> ('r \<Rightarrow> string) \<Rightarrow> (string \<Rightarrow> string) \<Rightarrow> string \<Rightarrow> 'r list \<Rightarrow> bool" where
  "linked prev own body digest p [] = True"
| "linked prev own body digest p (r # rs) =
     (prev r = p \<and> own r = digest (p @ body r) \<and> linked prev own body digest (own r) rs)"

fun chain_head :: "('r \<Rightarrow> string) \<Rightarrow> string \<Rightarrow> 'r list \<Rightarrow> string" where
  \<comment> \<open>the hash the next entry must name\<close>
  "chain_head own p [] = p"
| "chain_head own p (r # rs) = chain_head own (own r) rs"

lemma linked_append:
  "linked prev own body digest p (rs @ ss) \<longleftrightarrow>
     linked prev own body digest p rs \<and> linked prev own body digest (chain_head own p rs) ss"
  by (induction rs arbitrary: p) auto

lemma chain_head_append: "chain_head own p (rs @ ss) = chain_head own (chain_head own p rs) ss"
  by (induction rs arbitrary: p) auto

lemma chain_head_last: "rs \<noteq> [] \<Longrightarrow> chain_head own p rs = own (last rs)"
  by (induction rs arbitrary: p) auto

definition collide :: "(string \<Rightarrow> string) \<Rightarrow> string \<Rightarrow> string \<Rightarrow> bool" where
  "collide d x y = (x \<noteq> y \<and> d x = d y)"

locale linked_chain =
  fixes prev :: "'r \<Rightarrow> string" and own :: "'r \<Rightarrow> string" and body :: "'r \<Rightarrow> string"
    and digest :: "string \<Rightarrow> string" and genesis :: string
  assumes digest_length: "length (digest s) = length genesis"
begin

lemma head_length:
  "linked prev own body digest p rs \<Longrightarrow> length p = length genesis \<Longrightarrow> length (chain_head own p rs) = length genesis"
  by (induction rs arbitrary: p) (auto simp: digest_length)

lemma linked_nth:
  assumes "linked prev own body digest p rs" "i < length rs"
  shows "prev (rs ! i) = chain_head own p (take i rs) \<and> own (rs ! i) = digest (prev (rs ! i) @ body (rs ! i))"
  using assms
proof (induction rs arbitrary: p i)
  case (Cons r rs)
  then show ?case by (cases i) auto
qed simp

text \<open>
  Two chains with the same final hash agree entry by entry, or two of their own inputs collide, or one of
  their inputs hashes to the genesis constant.
\<close>

theorem same_head:
  assumes "linked prev own body digest genesis rs" "linked prev own body digest genesis ss"
    and "chain_head own genesis rs = chain_head own genesis ss"
  shows "list_all2 (\<lambda>r s. prev r = prev s \<and> body r = body s \<and> own r = own s) rs ss \<or>
    (\<exists>r\<in>set rs. \<exists>s\<in>set ss. collide digest (prev r @ body r) (prev s @ body s)) \<or>
    (\<exists>r\<in>set rs \<union> set ss. digest (prev r @ body r) = genesis)"
  using assms
proof (induction rs arbitrary: ss rule: rev_induct)
  case Nil
  then show ?case
    by (cases ss rule: rev_cases) (auto simp: linked_append chain_head_append)
next
  case (snoc r rs)
  have lr: "linked prev own body digest genesis rs" and r: "prev r = chain_head own genesis rs" "own r = digest (prev r @ body r)"
    using snoc.prems(1) by (auto simp: linked_append)
  show ?case
  proof (cases ss rule: rev_cases)
    case Nil
    with snoc.prems(3) r(2) show ?thesis by (auto simp: chain_head_append)
  next
    case ss: (snoc ss' s)
    have ls: "linked prev own body digest genesis ss'" and s: "prev s = chain_head own genesis ss'" "own s = digest (prev s @ body s)"
      using snoc.prems(2) ss by (auto simp: linked_append)
    have own: "own r = own s" using snoc.prems(3) ss by (simp add: chain_head_append)
    show ?thesis
    proof (cases "prev r @ body r = prev s @ body s")
      case False
      with own r(2) s(2) ss show ?thesis by (auto simp: collide_def)
    next
      case True
      have "length (prev r) = length (prev s)"
        using head_length [OF lr refl] head_length [OF ls refl] r(1) s(1) by simp
      with True have eq: "prev r = prev s" "body r = body s" by auto
      with snoc.IH [OF lr ls] r(1) s(1) own ss show ?thesis by (auto simp: list_all2_appendI)
    qed
  qed
qed

end

section \<open>The chain of events\<close>

definition digest :: "string \<Rightarrow> string" where
  "digest s = hex_encode (Sum256 s)"

definition event_body :: "event \<Rightarrow> string" where
  \<comment> \<open>the canonical text of an event, empty when there is none\<close>
  "event_body e = (case Marshal event_marshal e of Inl _ \<Rightarrow> [] | Inr t \<Rightarrow> t)"

lemma length_digest [simp]: "length (digest s) = 64"
  by (simp add: digest_def)

lemma length_GenesisHash [simp]: "length GenesisHash = 64"
  by (simp add: GenesisHash_def)

interpretation events: linked_chain "\<lambda>x. PrevHash (fst x)" snd "\<lambda>x. event_body (fst x)" digest GenesisHash
  by unfold_locales simp

abbreviation linked_events :: "string \<Rightarrow> (event \<times> string) list \<Rightarrow> bool" where
  "linked_events \<equiv> linked (\<lambda>x. PrevHash (fst x)) snd (\<lambda>x. event_body (fst x)) digest"

definition encodable :: "event \<Rightarrow> bool" where
  "encodable e = is_ok (Marshal event_marshal e)"

lemma Compute_Inr: "Compute e = Inr h \<longleftrightarrow> encodable e \<and> h = digest (PrevHash e @ event_body e)"
  by (auto simp: Compute_def encodable_def is_ok_iff event_body_def digest_def split: sum.splits)

lemma check_event_Inr:
  "check_event i n prev e h = Inr c \<longleftrightarrow>
     Sequence e = n \<and> PrevHash e = prev \<and> encodable e \<and> h = digest (prev @ event_body e) \<and> c = h"
proof (cases "Sequence e = n \<and> PrevHash e = prev")
  case True
  then have "e\<lparr>PrevHash := prev, Sequence := n\<rparr> = e" by auto
  then have "check_event i n prev e h =
      (case Compute e of Inl err \<Rightarrow> Inl (ComputeFailed i err)
       | Inr computed \<Rightarrow> if computed \<noteq> h then Inl (HashMismatch i n h computed) else Inr computed)"
    using True by (simp only: check_event_def) (simp split: sum.splits)
  also have "\<dots> = Inr c \<longleftrightarrow> Compute e = Inr h \<and> c = h" by (auto split: sum.splits)
  finally show ?thesis using True by (auto simp: Compute_Inr)
next
  case False
  then show ?thesis by (auto simp: check_event_def split: sum.splits)
qed

fun numbered :: "int \<Rightarrow> event list \<Rightarrow> bool" where
  \<comment> \<open>consecutive sequence numbers, every event with a canonical text\<close>
  "numbered n [] = True"
| "numbered n (e # es) = (Sequence e = n \<and> encodable e \<and> numbered (n + 1) es)"

lemma Verify_loop_None:
  "length es = length hs \<Longrightarrow>
     Verify_loop i prev es hs = None \<longleftrightarrow> numbered (int i + 1) es \<and> linked_events prev (zip es hs)"
proof (induction i prev es hs rule: Verify_loop.induct)
  case (1 i prev e es h hs)
  show ?case
  proof (cases "check_event i (int i + 1) prev e h")
    case (Inl err)
    then have "\<not> (Sequence e = int i + 1 \<and> PrevHash e = prev \<and> encodable e \<and> h = digest (prev @ event_body e))"
      using check_event_Inr [of i "int i + 1" prev e h h] by auto
    with Inl show ?thesis by auto
  next
    case (Inr c)
    with 1 check_event_Inr [of i "int i + 1" prev e h c] show ?thesis by (auto simp: algebra_simps)
  qed
qed auto

text \<open>The verification loop accepts exactly the linked chains numbered from one.\<close>

lemma hash_Verify_None:
  "Verify es hs = None \<longleftrightarrow>
     length es = length hs \<and> numbered 1 es \<and> linked_events GenesisHash (zip es hs)"
  using Verify_loop_None [of es hs 0 GenesisHash] by (simp add: Verify_def)

definition event_hash :: "event \<Rightarrow> string" where
  "event_hash e = digest (PrevHash e @ event_body e)"

lemma Chain_loop_ok:
  "Chain_loop i prev es = (es', Inr h) \<Longrightarrow>
     length es' = length es \<and> numbered (int i + 1) es' \<and> linked_events prev (zip es' (map event_hash es')) \<and>
     chain_head snd prev (zip es' (map event_hash es')) = h"
proof (induction es arbitrary: i prev es')
  case (Cons e es)
  define e1 where "e1 = e\<lparr>PrevHash := prev, Sequence := int i + 1\<rparr>"
  from Cons.prems obtain h1 es1 where c: "Compute e1 = Inr h1" and r: "Chain_loop (i + 1) h1 es = (es1, Inr h)"
    and es': "es' = e1 # es1"
    by (auto simp: Let_def e1_def split: sum.splits prod.splits)
  have h1: "encodable e1" "h1 = event_hash e1" using c by (auto simp: Compute_Inr event_hash_def)
  have "Sequence e1 = int i + 1" "PrevHash e1 = prev" by (simp_all add: e1_def)
  with Cons.IH [OF r] h1 es' show ?case by (auto simp: event_hash_def algebra_simps)
qed simp

lemma Chain_loop_error:
  "Chain_loop i prev es = (es', Inl (k, err)) \<Longrightarrow>
     i \<le> k \<and> k - i < length es \<and> length es' = length es \<and> Compute (es' ! (k - i)) = Inl err"
proof (induction es arbitrary: i prev es')
  case (Cons e es)
  define e1 where "e1 = e\<lparr>PrevHash := prev, Sequence := int i + 1\<rparr>"
  show ?case
  proof (cases "Compute e1")
    case (Inl x)
    then show ?thesis using Cons.prems by (auto simp: Let_def e1_def)
  next
    case (Inr h)
    then obtain es1 where r: "Chain_loop (i + 1) h es = (es1, Inl (k, err))" and es': "es' = e1 # es1"
      using Cons.prems by (auto simp: Let_def e1_def split: prod.splits)
    from Cons.IH [OF r] have "i + 1 \<le> k" "k - (i + 1) < length es" "length es1 = length es" "Compute (es1 ! (k - (i + 1))) = Inl err"
      by auto
    then show ?thesis using es' by (auto simp: nth_Cons' Suc_diff_Suc)
  qed
qed simp

text \<open>Chaining a list of events either stops at the first event without a canonical text and reports it, or numbers and
  links all of them, so that verification accepts them with their recomputed hashes and the returned hash
  is the last one.\<close>

theorem Chain_then_Verify:
  "case Chain es of
     (es', Inl (k, err)) \<Rightarrow> k < length es \<and> length es' = length es \<and> Compute (es' ! k) = Inl err
   | (es', Inr h) \<Rightarrow> length es' = length es \<and> Hash_Chain.Verify es' (map event_hash es') = None \<and>
       h = (if es' = [] then GenesisHash else event_hash (last es'))"
proof (cases "Chain es")
  case (Pair es' r)
  show ?thesis
  proof (cases r)
    case (Inl x)
    obtain k err where "x = (k, err)" by force
    with Pair Inl Chain_loop_error [of 0 GenesisHash es es' k err] show ?thesis by (auto simp: Chain_def)
  next
    case (Inr h)
    with Pair Chain_loop_ok [of 0 GenesisHash es es' h] show ?thesis
      by (auto simp: Chain_def hash_Verify_None chain_head_last last_zip last_map)
  qed
qed

end
