(* ===== verification/Bundle.thy ===== *)
theory Bundle
  imports Hash_Chain
begin

text \<open>
  The package \<^verbatim>\<open>internal/bundle\<close>: records, the manifest and its versions, \<open>NewWithOptions\<close>,
  \<open>AppendWithOptions\<close>, \<open>Verify\<close>, the line format written by \<open>saveUnlocked\<close> and read by
  \<open>LoadReaderWithLimits\<close> with its resource limits, the hashes of source prefixes that signatures are
  checked against, and \<open>LoadVerified\<close>.
\<close>

section \<open>Data\<close>

definition ManifestEventType :: string where
  "ManifestEventType = ''atb.bundle.manifest''"

definition TypeBundleSignature :: string where
  "TypeBundleSignature = ''atb.bundle.signature''"

definition ManifestVersionMax :: int where
  "ManifestVersionMax = 3"

definition MaxLineSizeBytes :: int where
  "MaxLineSizeBytes = 16 * 1024 * 1024"

definition MaxBundleSizeBytes :: int where
  "MaxBundleSizeBytes = 512 * 1024 * 1024"

definition MaxBundleRecords :: int where
  "MaxBundleRecords = 1000000"

record bundle_record =
  Event :: event
  Hash :: string
  sourcePrefixHash :: string
  sourcePrefixWithoutLFHash :: string
  sourcePrefixWithoutLFPresent :: bool

record atb_bundle =
  Records :: "bundle_record list"

record load_limits =
  MaxBytes :: int
  MaxRecords :: int

record new_options =
  no_ManifestVersion :: int
  no_CaptureRunID :: string

record manifest_data =
  md_Version :: string
  md_CreatedAt :: string
  md_BundleID :: string
  md_CaptureRunID :: string

record append_options =
  ao_ActorID :: "string option"
  ao_OrgID :: "string option"
  ao_WorkspaceID :: "string option"
  ao_Timestamp :: string
  ao_TraceID :: string
  ao_SpanID :: string
  ao_ParentSpanID :: string
  ao_Acquisition :: "acquisition_info option"

definition new_record :: "event \<Rightarrow> string \<Rightarrow> bundle_record" where
  "new_record e h = \<lparr>Event = e, Hash = h, sourcePrefixHash = [], sourcePrefixWithoutLFHash = [],
     sourcePrefixWithoutLFPresent = False\<rparr>"

definition SourcePrefixHashes :: "bundle_record \<Rightarrow> string \<times> string \<times> bool" where
  "SourcePrefixHashes r = (sourcePrefixHash r, sourcePrefixWithoutLFHash r, sourcePrefixWithoutLFPresent r)"

text \<open>The errors, and which of the package's sentinel errors each of them wraps.\<close>

datatype bundle_error =
    ManifestNotFirst
  | AcquisitionNoManifest
  | AcquisitionManifest bundle_error
  | AcquisitionVersion string
  | BadEventType string
  | AppendCompute canon_error
  | NewVersion int
  | NewMarshal
  | NewManifest bundle_error
  | NewID
  | ManifestAbsent
  | VersionTooNew int
  | ManifestMustBeObject int
  | ManifestDataType
  | ManifestNotJSON
  | VersionNotInteger string
  | VersionType
  | V1Decode
  | V2ThroughV1
  | VersionUnsupported
  | StructuredVersion string
  | StructuredIncomplete
  | LimitsNotPositive
  | TooManyBytes
  | LineTooLong
  | TooManyRecords
  | RecordNotJSON
  | TokenTooLong
  | LoadManifest bundle_error
  | EmptyFile
  | FirstNotManifest string
  | NoManifestRecord
  | ChainBroken chain_error
  | ChainCompute nat canon_error
  | LegacyChain chain_error
  | EncodeFailed
  | WriteFailed

datatype sentinel = ErrTamper | ErrMalformed | ErrResourceLimit | ErrNoManifest | ErrNotABundle

fun errors_Is :: "bundle_error \<Rightarrow> sentinel \<Rightarrow> bool" where
  "errors_Is (AcquisitionManifest e) s = errors_Is e s"
| "errors_Is (NewManifest e) s = errors_Is e s"
| "errors_Is (LoadManifest e) s = errors_Is e s"
| "errors_Is (VersionTooNew _) s = (s = ErrMalformed)"
| "errors_Is (ManifestMustBeObject _) s = (s = ErrMalformed)"
| "errors_Is ManifestDataType s = (s = ErrMalformed)"
| "errors_Is ManifestNotJSON s = (s = ErrMalformed)"
| "errors_Is (VersionNotInteger _) s = (s = ErrMalformed)"
| "errors_Is VersionType s = (s = ErrMalformed)"
| "errors_Is RecordNotJSON s = (s = ErrMalformed)"
| "errors_Is LimitsNotPositive s = (s = ErrResourceLimit)"
| "errors_Is TooManyBytes s = (s = ErrResourceLimit)"
| "errors_Is LineTooLong s = (s = ErrResourceLimit)"
| "errors_Is TooManyRecords s = (s = ErrResourceLimit)"
| "errors_Is EmptyFile s = (s = ErrNoManifest)"
| "errors_Is NoManifestRecord s = (s = ErrNoManifest)"
| "errors_Is (FirstNotManifest _) s = (s = ErrNotABundle)"
| "errors_Is (ChainBroken _) s = (s = ErrTamper)"
| "errors_Is _ s = False"

section \<open>The manifest\<close>

definition hasManifestRecord :: "bundle_record list \<Rightarrow> bool" where
  "hasManifestRecord rs = (case rs of [] \<Rightarrow> False | r # _ \<Rightarrow> Type (Event r) = ManifestEventType)"

definition Sscanf_d :: "string \<Rightarrow> int option" where
  \<comment> \<open>\<^verbatim>\<open>fmt.Sscanf(v, "%d", &n)\<close>: spaces, a sign, digits; what follows the digits is ignored\<close>
  "Sscanf_d v =
     (let s = trim_prefixes (filter (\<lambda>w. w \<noteq> [CHR 0x0A]) space_encodings) v;
          neg = HasPrefix s ''-''; t = (if neg \<or> HasPrefix s ''+'' then tl s else s);
          ds = takeWhile is_digit t; n = digits_value (map digit_value ds); i = (if neg then - n else n)
      in if ds \<noteq> [] \<and> int64 i then Some i else None)"

definition int_of_float :: "float64 \<Rightarrow> int" where
  \<comment> \<open>the conversion \<^verbatim>\<open>int(v)\<close>: towards zero; out of range the least integer, as on amd64\<close>
  "int_of_float f =
     (case f of
        Fin neg m \<Rightarrow> (let i = (if neg then - \<lfloor>m\<rfloor> else \<lfloor>m\<rfloor>) in if int64 i then i else - (2 ^ 63))
      | _ \<Rightarrow> - (2 ^ 63))"

fun manifestVersionToInt :: "any \<Rightarrow> bundle_error + int" where
  "manifestVersionToInt ANil = Inr 1"
| "manifestVersionToInt (AFloat f) = Inr (int_of_float f)"
| "manifestVersionToInt (AInt n) = Inr n"
| "manifestVersionToInt (AString v) =
     (if v = [] then Inr 1
      else case Sscanf_d v of None \<Rightarrow> Inl (VersionNotInteger v) | Some n \<Rightarrow> Inr n)"
| "manifestVersionToInt _ = Inl VersionType"

definition decode_probe :: "string \<Rightarrow> any option" where
  \<comment> \<open>\<^verbatim>\<open>json.Unmarshal\<close> into a struct with the one field \<^verbatim>\<open>Version any\<close>\<close>
  "decode_probe s =
     (case json_scan s of
        None \<Rightarrow> None
      | Some j \<Rightarrow> decode_struct (\<lambda>n v old. to_any v) [''version''] j ANil)"

fun manifestVersionFromRecord :: "any \<Rightarrow> bundle_error + int" where
  "manifestVersionFromRecord (AString s) =
     (case decode_probe s of None \<Rightarrow> Inl ManifestNotJSON | Some v \<Rightarrow> manifestVersionToInt v)"
| "manifestVersionFromRecord (AMap m) = manifestVersionToInt (field m ''version'')"
| "manifestVersionFromRecord _ = Inl ManifestDataType"

definition manifest_names :: "string list" where
  "manifest_names = [''version'', ''created_at'', ''bundle_id'', ''capture_run_id'']"

definition set_manifest :: "string \<Rightarrow> json \<Rightarrow> manifest_data \<Rightarrow> manifest_data option" where
  "set_manifest n j m =
     (if n = ''version'' then map_option (\<lambda>s. m\<lparr>md_Version := s\<rparr>) (decode_string j (md_Version m))
      else if n = ''created_at'' then map_option (\<lambda>s. m\<lparr>md_CreatedAt := s\<rparr>) (decode_string j (md_CreatedAt m))
      else if n = ''bundle_id'' then map_option (\<lambda>s. m\<lparr>md_BundleID := s\<rparr>) (decode_string j (md_BundleID m))
      else map_option (\<lambda>s. m\<lparr>md_CaptureRunID := s\<rparr>) (decode_string j (md_CaptureRunID m)))"

definition zero_manifest :: manifest_data where
  "zero_manifest = \<lparr>md_Version = [], md_CreatedAt = [], md_BundleID = [], md_CaptureRunID = []\<rparr>"

definition parseManifestDataV1 :: "string \<Rightarrow> bundle_error + manifest_data" where
  "parseManifestDataV1 raw =
     (case (case json_scan raw of None \<Rightarrow> None | Some j \<Rightarrow> decode_struct set_manifest manifest_names j zero_manifest) of
        None \<Rightarrow> Inl V1Decode
      | Some m \<Rightarrow> if md_Version m = ''2'' then Inl V2ThroughV1 else Inr m)"

fun manifestVersionString :: "any \<Rightarrow> bundle_error + string" where
  "manifestVersionString (AFloat f) =
     (if f = Fin False 2 then Inr ''2'' else if f = Fin False 3 then Inr ''3'' else Inl VersionUnsupported)"
| "manifestVersionString (AInt n) =
     (if n = 2 then Inr ''2'' else if n = 3 then Inr ''3'' else Inl VersionUnsupported)"
| "manifestVersionString (AString v) = (if v \<noteq> [] then Inr v else Inl VersionUnsupported)"
| "manifestVersionString _ = Inl VersionUnsupported"

definition parseManifestDataV2 :: "(string \<times> any) list \<Rightarrow> bundle_error + manifest_data" where
  "parseManifestDataV2 flds =
     bind_res (manifestVersionString (field flds ''version''))
       (\<lambda>version.
          let createdAt = field_string flds ''created_at''; bundleID = field_string flds ''bundle_id'';
              captureRunID = field_string flds ''capture_run_id''
          in if version \<noteq> ''2'' \<and> version \<noteq> ''3'' then Inl (StructuredVersion version)
             else if createdAt = [] \<or> bundleID = [] then Inl StructuredIncomplete
             else Inr \<lparr>md_Version = version, md_CreatedAt = createdAt, md_BundleID = bundleID,
                        md_CaptureRunID = captureRunID\<rparr>)"

definition parseManifestData :: "bundle_record \<Rightarrow> bundle_error + manifest_data" where
  "parseManifestData r =
     (if Type (Event r) \<noteq> ManifestEventType then Inl ManifestAbsent
      else bind_res (manifestVersionFromRecord (Data (Event r)))
        (\<lambda>version.
           if version > ManifestVersionMax then Inl (VersionTooNew version)
           else case Data (Event r) of
                  AString s \<Rightarrow> if version \<le> 1 then parseManifestDataV1 s else Inl (ManifestMustBeObject version)
                | AMap m \<Rightarrow> parseManifestDataV2 m
                | _ \<Rightarrow> Inl ManifestDataType))"

definition Manifest :: "atb_bundle \<Rightarrow> manifest_data option" where
  "Manifest b =
     (if \<not> hasManifestRecord (Records b) then None
      else case parseManifestData (hd (Records b)) of Inl _ \<Rightarrow> None | Inr m \<Rightarrow> Some m)"

definition ManifestE :: "atb_bundle \<Rightarrow> bundle_error + manifest_data" where
  "ManifestE b =
     (if \<not> hasManifestRecord (Records b) then Inl NoManifestRecord else parseManifestData (hd (Records b)))"

section \<open>Building a bundle\<close>

definition is_lower :: "char \<Rightarrow> bool" where
  "is_lower c = (97 \<le> ord c \<and> ord c \<le> 122)"

definition type_segment :: "string \<Rightarrow> bool" where
  \<comment> \<open>\<^verbatim>\<open>[a-z][a-z0-9_]*\<close>\<close>
  "type_segment s =
     (case s of [] \<Rightarrow> False
      | c # t \<Rightarrow> is_lower c \<and> list_all (\<lambda>x. is_lower x \<or> is_digit x \<or> x = CHR ''_'') t)"

definition event_type_ok :: "string \<Rightarrow> bool" where
  \<comment> \<open>\<^verbatim>\<open>eventTypeRegexp\<close>: at least two segments joined by dots\<close>
  "event_type_ok t = (let segs = Split t (CHR ''.'') in 2 \<le> length segs \<and> list_all type_segment segs)"

definition apply_options :: "append_options option \<Rightarrow> event \<Rightarrow> event" where
  "apply_options opts e =
     (case opts of
        None \<Rightarrow> e
      | Some o' \<Rightarrow>
          e\<lparr>ActorID := ao_ActorID o', OrgID := ao_OrgID o', WorkspaceID := ao_WorkspaceID o',
            Timestamp := (if ao_Timestamp o' \<noteq> [] then ao_Timestamp o' else Timestamp e),
            TraceID := (if ao_TraceID o' \<noteq> [] then ao_TraceID o' else TraceID e),
            SpanID := (if ao_SpanID o' \<noteq> [] then ao_SpanID o' else SpanID e),
            ParentSpanID := (if ao_ParentSpanID o' \<noteq> [] then ao_ParentSpanID o' else ParentSpanID e),
            Acquisition := (if ao_Acquisition o' \<noteq> None then ao_Acquisition o' else Acquisition e)\<rparr>)"

definition acquisition_guard :: "atb_bundle \<Rightarrow> string \<Rightarrow> append_options option \<Rightarrow> bundle_error option" where
  "acquisition_guard b eventType opts =
     (if eventType \<noteq> ManifestEventType \<and> (case opts of None \<Rightarrow> False | Some o' \<Rightarrow> ao_Acquisition o' \<noteq> None) then
        if \<not> hasManifestRecord (Records b) then Some AcquisitionNoManifest
        else case parseManifestData (hd (Records b)) of
               Inl e \<Rightarrow> Some (AcquisitionManifest e)
             | Inr m \<Rightarrow> if md_Version m \<noteq> ''3'' then Some (AcquisitionVersion (md_Version m)) else None
      else None)"

definition next_event :: "atb_bundle \<Rightarrow> string \<Rightarrow> any \<Rightarrow> append_options option \<Rightarrow> event" where
  "next_event b eventType data opts =
     (let rs = Records b;
          prevHash = (if rs = [] then GenesisHash else Hash (last rs));
          sequence =
            (if eventType = ManifestEventType then 0
             else if hasManifestRecord rs then int (length rs) else int (length rs) + 1)
      in apply_options opts
           (zero_event\<lparr>Sequence := sequence, PrevHash := prevHash, Type := eventType, HashAlgo := ''sha256'', Data := data\<rparr>))"

definition AppendWithOptions :: "atb_bundle \<Rightarrow> string \<Rightarrow> any \<Rightarrow> append_options option \<Rightarrow> bundle_error + atb_bundle" where
  "AppendWithOptions b eventType data opts =
     (if eventType = ManifestEventType \<and> Records b \<noteq> [] then Inl ManifestNotFirst
      else case acquisition_guard b eventType opts of
             Some e \<Rightarrow> Inl e
           | None \<Rightarrow>
               if \<not> event_type_ok eventType then Inl (BadEventType eventType)
               else let e = next_event b eventType data opts
                    in case Compute e of
                         Inl err \<Rightarrow> Inl (AppendCompute err)
                       | Inr h \<Rightarrow> Inr (b\<lparr>Records := Records b @ [new_record e h]\<rparr>))"

definition Append :: "atb_bundle \<Rightarrow> string \<Rightarrow> any \<Rightarrow> bundle_error + atb_bundle" where
  "Append b eventType data = AppendWithOptions b eventType data None"

definition timestamp_options :: "string \<Rightarrow> append_options" where
  "timestamp_options t = \<lparr>ao_ActorID = None, ao_OrgID = None, ao_WorkspaceID = None, ao_Timestamp = t, ao_TraceID = [],
     ao_SpanID = [], ao_ParentSpanID = [], ao_Acquisition = None\<rparr>"

definition manifest_json :: "manifest_data \<Rightarrow> json" where
  "manifest_json m = JObject
     ([(''version'', JString (md_Version m)), (''created_at'', JString (md_CreatedAt m)),
       (''bundle_id'', JString (md_BundleID m))] @
      omit_string ''capture_run_id'' (md_CaptureRunID m))"

text \<open>
  \<open>NewWithOptions\<close> takes the clock reading and the 16 random bytes of the identifier as arguments; None
  stands for a failing random source.
\<close>

definition NewWithOptions :: "string \<Rightarrow> string option \<Rightarrow> new_options \<Rightarrow> bundle_error + atb_bundle" where
  "NewWithOptions createdAt random opts =
     (let b = \<lparr>Records = []\<rparr>; version = no_ManifestVersion opts
      in case random of
           None \<Rightarrow> Inl NewID
         | Some bytes \<Rightarrow>
             (let bundleID = hex_encode bytes
              in if version = 0 \<or> version = 1 then
                   (case AppendWithOptions b ManifestEventType
                      (AString (render_html (manifest_json
                         \<lparr>md_Version = ''1'', md_CreatedAt = createdAt, md_BundleID = bundleID,
                          md_CaptureRunID = no_CaptureRunID opts\<rparr>)))
                      (Some (timestamp_options createdAt)) of
                      Inl e \<Rightarrow> Inl (NewManifest e)
                    | Inr b' \<Rightarrow> Inr b')
                 else if version = 2 \<or> version = 3 then
                   (case AppendWithOptions b ManifestEventType
                      (AMap ([(''version'', AInt version), (''created_at'', AString createdAt), (''bundle_id'', AString bundleID)] @
                        (if no_CaptureRunID opts \<noteq> [] then [(''capture_run_id'', AString (no_CaptureRunID opts))] else [])))
                      (Some (timestamp_options createdAt)) of
                      Inl e \<Rightarrow> Inl (NewManifest e)
                    | Inr b' \<Rightarrow> Inr b')
                 else Inl (NewVersion version)))"

section \<open>Verification\<close>

fun verifyManifestBundle_loop :: "nat \<Rightarrow> string \<Rightarrow> bundle_record list \<Rightarrow> bundle_error option" where
  "verifyManifestBundle_loop i prev [] = None"
| "verifyManifestBundle_loop i prev (r # rs) =
     (case check_event i (int i) prev (Event r) (Hash r) of
        Inl (ComputeFailed j err) \<Rightarrow> Some (ChainCompute j err)
      | Inl err \<Rightarrow> Some (ChainBroken err)
      | Inr computed \<Rightarrow> verifyManifestBundle_loop (i + 1) computed rs)"

definition verifyManifestBundle :: "bundle_record list \<Rightarrow> bundle_error option" where
  "verifyManifestBundle rs = verifyManifestBundle_loop 0 GenesisHash rs"

definition Verify :: "atb_bundle \<Rightarrow> bundle_error option" where
  "Verify b =
     (if hasManifestRecord (Records b) then verifyManifestBundle (Records b)
      else map_option LegacyChain (Hash_Chain.Verify (map Event (Records b)) (map Hash (Records b))))"

section \<open>What verification accepts\<close>

abbreviation pairs :: "bundle_record list \<Rightarrow> (event \<times> string) list" where
  "pairs rs \<equiv> map (\<lambda>r. (Event r, Hash r)) rs"

definition first_seq :: "bundle_record list \<Rightarrow> int" where
  \<comment> \<open>manifest bundles count from 0, legacy bundles from 1\<close>
  "first_seq rs = (if hasManifestRecord rs then 0 else 1)"

lemma numbered_append: "numbered n (es @ fs) \<longleftrightarrow> numbered n es \<and> numbered (n + int (length es)) fs"
  by (induction es arbitrary: n) (auto simp: algebra_simps)

lemma numbered_nth: "numbered n es \<Longrightarrow> i < length es \<Longrightarrow> Sequence (es ! i) = n + int i \<and> encodable (es ! i)"
proof (induction es arbitrary: n i)
  case (Cons e es)
  then show ?case by (cases i) auto
qed simp

lemma verifyManifestBundle_loop_None:
  "verifyManifestBundle_loop i prev rs = None \<longleftrightarrow>
     numbered (int i) (map Event rs) \<and> linked_events prev (pairs rs)"
proof (induction rs arbitrary: i prev)
  case (Cons r rs)
  show ?case
  proof (cases "check_event i (int i) prev (Event r) (Hash r)")
    case (Inl err)
    then have "\<not> (Sequence (Event r) = int i \<and> PrevHash (Event r) = prev \<and> encodable (Event r) \<and>
        Hash r = digest (prev @ event_body (Event r)))"
      using check_event_Inr [of i "int i" prev "Event r" "Hash r" "Hash r"] by auto
    with Inl show ?thesis by (auto split: chain_error.splits)
  next
    case (Inr c)
    with Cons.IH [of "i + 1" c] check_event_Inr [of i "int i" prev "Event r" "Hash r" c] show ?thesis
      by (auto simp: algebra_simps)
  qed
qed simp

text \<open>Both verification paths accept exactly the linked chains with consecutive sequence numbers.\<close>

lemma Verify_None:
  "Verify b = None \<longleftrightarrow>
     numbered (first_seq (Records b)) (map Event (Records b)) \<and> linked_events GenesisHash (pairs (Records b))"
proof -
  have "zip (map Event rs) (map Hash rs) = pairs rs" for rs by (induction rs) auto
  then show ?thesis
    using verifyManifestBundle_loop_None [of 0 GenesisHash "Records b"]
    by (auto simp: Verify_def verifyManifestBundle_def first_seq_def hash_Verify_None)
qed

lemma pairs_head: "chain_head snd GenesisHash (pairs rs) = (if rs = [] then GenesisHash else Hash (last rs))"
  by (simp add: chain_head_last last_map)

lemma hasManifestRecord_append: "rs \<noteq> [] \<Longrightarrow> hasManifestRecord (rs @ ss) = hasManifestRecord rs"
  by (cases rs) (auto simp: hasManifestRecord_def)

lemma apply_options_simps [simp]:
  "Sequence (apply_options o' e) = Sequence e" "PrevHash (apply_options o' e) = PrevHash e"
  "Type (apply_options o' e) = Type e" "Data (apply_options o' e) = Data e"
  "HashAlgo (apply_options o' e) = HashAlgo e"
  by (auto simp: apply_options_def split: option.splits)

lemma next_event_simps [simp]:
  "PrevHash (next_event b t d o') = (if Records b = [] then GenesisHash else Hash (last (Records b)))"
  "Type (next_event b t d o') = t" "Data (next_event b t d o') = d"
  by (simp_all add: next_event_def Let_def)

lemma next_event_Sequence:
  assumes "t = ManifestEventType \<longrightarrow> Records b = []"
  shows "Sequence (next_event b t d o') =
    first_seq (Records b @ [new_record (next_event b t d o') h]) + int (length (Records b))"
  using assms
  by (cases "Records b") (auto simp: next_event_def Let_def first_seq_def hasManifestRecord_def new_record_def)

text \<open>The inversion rule of a successful append.\<close>

lemma AppendWithOptions_Inr:
  "AppendWithOptions b t d o' = Inr b' \<longleftrightarrow>
     (t = ManifestEventType \<longrightarrow> Records b = []) \<and> acquisition_guard b t o' = None \<and> event_type_ok t \<and>
     encodable (next_event b t d o') \<and>
     b' = \<lparr>Records = Records b @ [new_record (next_event b t d o') (event_hash (next_event b t d o'))]\<rparr>"
proof (cases "Compute (next_event b t d o')")
  case (Inl err)
  then have "\<not> encodable (next_event b t d o')"
    using Compute_Inr [of "next_event b t d o'" "event_hash (next_event b t d o')"] by (auto simp: event_hash_def)
  with Inl show ?thesis by (auto simp: AppendWithOptions_def Let_def split: option.splits)
next
  case (Inr h)
  then have "encodable (next_event b t d o')" "h = event_hash (next_event b t d o')"
    by (auto simp: Compute_Inr event_hash_def)
  with Inr show ?thesis
    by (cases b) (auto simp: AppendWithOptions_def Let_def split: option.splits)
qed

lemma append_verifies:
  assumes "Verify b = None" "AppendWithOptions b t d o' = Inr b'"
  shows "Verify b' = None"
proof -
  define e where "e = next_event b t d o'"
  from assms(2) have g: "t = ManifestEventType \<longrightarrow> Records b = []" "encodable e"
    and b': "Records b' = Records b @ [new_record e (event_hash e)]"
    by (auto simp: AppendWithOptions_Inr e_def)
  have fs: "first_seq (Records b') = first_seq (Records b)" if "Records b \<noteq> []"
    using that b' by (simp add: first_seq_def hasManifestRecord_append)
  have seq: "Sequence e = first_seq (Records b') + int (length (Records b))"
    using next_event_Sequence [OF g(1), of d o' "event_hash e"] b' by (simp add: e_def)
  have "numbered (first_seq (Records b')) (map Event (Records b'))"
    using assms(1) b' g(2) seq fs
    by (cases "Records b = []") (auto simp: Verify_None numbered_append new_record_def)
  moreover have "linked_events GenesisHash (pairs (Records b'))"
    using assms(1) b' by (auto simp: Verify_None linked_append pairs_head new_record_def event_hash_def e_def)
  ultimately show ?thesis by (simp add: Verify_None)
qed

end
