(* ===== verification/Bundle_IO.thy ===== *)
theory Bundle_IO
  imports Bundle
begin

text \<open>
  The line format of \<^verbatim>\<open>internal/bundle\<close>: \<open>saveUnlocked\<close> writes one JSON object per line,
  \<open>LoadReaderWithLimits\<close> reads it back under limits on bytes, records and line length, and
  \<open>sourcePrefixTracker\<close> hashes the exact bytes before each signature record. The lemmas show that a
  saved bundle loads again, with the same hashes and a chain that verifies, and which bytes a loaded
  signature record is bound to.
\<close>

section \<open>Hashing the source prefix\<close>

record sourcePrefixTracker =
  withLF :: string
  withoutLastByte :: string
  processedBytes :: int
  previousByte :: char
  byteBeforePreviousByte :: char

definition new_tracker :: sourcePrefixTracker where
  \<comment> \<open>the two running hashes are the bytes written to them so far\<close>
  "new_tracker = \<lparr>withLF = [], withoutLastByte = [], processedBytes = 0, previousByte = byte 0,
     byteBeforePreviousByte = byte 0\<rparr>"

definition tracker_add :: "sourcePrefixTracker \<Rightarrow> string \<Rightarrow> sourcePrefixTracker" where
  "tracker_add t rawLine =
     (if rawLine = [] then t
      else
        t\<lparr>withoutLastByte := withoutLastByte t @ (if processedBytes t > 0 then [previousByte t] else []) @
            (if length rawLine > 1 then take (length rawLine - 1) rawLine else []),
          withLF := withLF t @ rawLine,
          processedBytes := processedBytes t + int (length rawLine),
          byteBeforePreviousByte := (if length rawLine \<ge> 2 then rawLine ! (length rawLine - 2) else previousByte t),
          previousByte := (if length rawLine \<ge> 2 then rawLine ! (length rawLine - 1) else rawLine ! 0)\<rparr>)"

definition tracker_snapshot :: "sourcePrefixTracker \<Rightarrow> string \<times> string \<times> bool" where
  "tracker_snapshot t =
     (if processedBytes t > 1 \<and> previousByte t = CHR 0x0A \<and> byteBeforePreviousByte t \<noteq> CHR 0x0A
      then (Sum256 (withLF t), Sum256 (withoutLastByte t), True)
      else (Sum256 (withLF t), [], False))"

definition set_snapshot :: "sourcePrefixTracker \<Rightarrow> bundle_record \<Rightarrow> bundle_record" where
  \<comment> \<open>signature records take the hashes of what precedes them\<close>
  "set_snapshot t r =
     (if Type (Event r) = TypeBundleSignature
      then case tracker_snapshot t of
             (h, h', p) \<Rightarrow> r\<lparr>sourcePrefixHash := h, sourcePrefixWithoutLFHash := h', sourcePrefixWithoutLFPresent := p\<rparr>
      else r)"

section \<open>Lines\<close>

fun IndexByte :: "string \<Rightarrow> char \<Rightarrow> nat option" where
  "IndexByte [] c = None"
| "IndexByte (x # s) c = (if x = c then Some 0 else map_option Suc (IndexByte s c))"

definition scanRawLines :: "string \<Rightarrow> bool \<Rightarrow> nat \<times> string option" where
  \<comment> \<open>the split function: how far to advance and the token, which keeps its line feed\<close>
  "scanRawLines d atEOF =
     (case IndexByte d (CHR 0x0A) of
        Some i \<Rightarrow> (i + 1, Some (take (i + 1) d))
      | None \<Rightarrow> if atEOF \<and> d \<noteq> [] then (length d, Some d) else (0, None))"

function raw_lines :: "string \<Rightarrow> string list" where
  \<comment> \<open>the tokens of the whole input\<close>
  "raw_lines d =
     (case scanRawLines d True of
        (n, Some tok) \<Rightarrow> if n = 0 \<or> d = [] then [] else tok # raw_lines (drop n d)
      | (n, None) \<Rightarrow> [])"
  by pat_completeness auto
termination
  by (relation "measure length") auto

declare raw_lines.simps [simp del]

definition drop_last :: "char \<Rightarrow> string \<Rightarrow> string" where
  "drop_last c s = (if s \<noteq> [] \<and> last s = c then butlast s else s)"

definition trim_line :: "string \<Rightarrow> string" where
  "trim_line raw = drop_last (CHR 0x0D) (drop_last (CHR 0x0A) raw)"

definition token_fits :: "string \<Rightarrow> bool" where
  \<comment> \<open>the scanner's buffer holds the token: a terminated line may fill it, an unterminated one may not\<close>
  "token_fits raw =
     (if raw \<noteq> [] \<and> last raw = CHR 0x0A then int (length raw) \<le> MaxLineSizeBytes + 2
      else int (length raw) < MaxLineSizeBytes + 2)"

section \<open>Loading\<close>

definition zero_record :: bundle_record where
  "zero_record = new_record zero_event []"

definition record_names :: "string list" where
  "record_names = [''event'', ''hash'']"

definition set_record :: "string \<Rightarrow> json \<Rightarrow> bundle_record \<Rightarrow> bundle_record option" where
  "set_record n j r =
     (if n = ''event'' then map_option (\<lambda>e. r\<lparr>Event := e\<rparr>) (decode_event j (Event r))
      else map_option (\<lambda>h. r\<lparr>Hash := h\<rparr>) (decode_string j (Hash r)))"

definition decode_record :: "string \<Rightarrow> bundle_record option" where
  "decode_record line =
     (case json_scan line of None \<Rightarrow> None | Some j \<Rightarrow> decode_struct set_record record_names j zero_record)"

text \<open>
  The loop over the scanner's tokens. How many bytes the reader has been asked for when a token comes out
  depends on the reader; \<open>bytesRead i\<close> is that number at token \<open>i\<close>.
\<close>

fun load_loop :: "load_limits \<Rightarrow> (nat \<Rightarrow> int) \<Rightarrow> nat \<Rightarrow> string list \<Rightarrow> bundle_record list \<Rightarrow> sourcePrefixTracker \<Rightarrow>
    bundle_error + bundle_record list" where
  "load_loop limits bytesRead i [] recs t = Inr recs"
| "load_loop limits bytesRead i (rawLine # rest) recs t =
     (if \<not> token_fits rawLine then Inl TokenTooLong
      else if bytesRead i > MaxBytes limits then Inl TooManyBytes
      else let line = trim_line rawLine
        in if int (length line) > MaxLineSizeBytes then Inl LineTooLong
           else if line = [] then load_loop limits bytesRead (i + 1) rest recs (tracker_add t rawLine)
           else if int (length recs) \<ge> MaxRecords limits then Inl TooManyRecords
           else case decode_record line of
                  None \<Rightarrow> Inl RecordNotJSON
                | Some rec \<Rightarrow>
                    load_loop limits bytesRead (i + 1) rest (recs @ [set_snapshot t rec]) (tracker_add t rawLine))"

definition LoadReaderWithLimits :: "load_limits \<Rightarrow> (nat \<Rightarrow> int) \<Rightarrow> string \<Rightarrow> bundle_error + atb_bundle" where
  "LoadReaderWithLimits limits bytesRead raw =
     (if MaxBytes limits \<le> 0 \<or> MaxRecords limits \<le> 0 then Inl LimitsNotPositive
      else case load_loop limits bytesRead 0 (raw_lines raw) [] new_tracker of
             Inl e \<Rightarrow> Inl e
           | Inr recs \<Rightarrow>
               if int (length raw) > MaxBytes limits then Inl TooManyBytes
               else if hasManifestRecord recs then
                 (case parseManifestData (hd recs) of
                    Inl e \<Rightarrow> Inl (LoadManifest e)
                  | Inr _ \<Rightarrow> Inr \<lparr>Records = recs\<rparr>)
               else Inr \<lparr>Records = recs\<rparr>)"

definition LoadReader :: "(nat \<Rightarrow> int) \<Rightarrow> string \<Rightarrow> bundle_error + atb_bundle" where
  "LoadReader bytesRead raw =
     LoadReaderWithLimits \<lparr>MaxBytes = MaxBundleSizeBytes, MaxRecords = MaxBundleRecords\<rparr> bytesRead raw"

definition LoadVerified :: "(nat \<Rightarrow> int) \<Rightarrow> string \<Rightarrow> bundle_error + atb_bundle" where
  \<comment> \<open>on the content of a file that could be opened and read\<close>
  "LoadVerified bytesRead raw =
     bind_res (LoadReader bytesRead raw)
       (\<lambda>b. if Records b = [] then Inl EmptyFile
            else if Type (Event (hd (Records b))) \<noteq> ManifestEventType
            then Inl (FirstNotManifest (Type (Event (hd (Records b)))))
            else case Verify b of Some e \<Rightarrow> Inl e | None \<Rightarrow> Inr b)"

section \<open>Saving\<close>

definition record_json :: "bundle_record \<Rightarrow> json option" where
  "record_json r = map_option (\<lambda>e. JObject [(''event'', e), (''hash'', JString (Hash r))]) (event_json (Event r))"

fun save_lines :: "bundle_record list \<Rightarrow> string option" where
  \<comment> \<open>\<^verbatim>\<open>enc.Encode(r)\<close> for each record: its JSON text and a line feed\<close>
  "save_lines [] = Some []"
| "save_lines (r # rs) =
     (case record_json r of
        None \<Rightarrow> None
      | Some j \<Rightarrow> map_option (\<lambda>t. render_html j @ [CHR 0x0A] @ t) (save_lines rs))"

fun prefix_loop :: "string list \<Rightarrow> bundle_record list \<Rightarrow> sourcePrefixTracker \<Rightarrow> bundle_record list" where
  "prefix_loop [] rs t = rs"
| "prefix_loop (rawLine # rest) rs t =
     (case rs of
        r # rs' \<Rightarrow>
          if trim_line rawLine \<noteq> [] then set_snapshot t r # prefix_loop rest rs' (tracker_add t rawLine)
          else prefix_loop rest rs (tracker_add t rawLine)
      | [] \<Rightarrow> prefix_loop rest [] (tracker_add t rawLine))"

definition setSourcePrefixHashes :: "bundle_record list \<Rightarrow> string \<Rightarrow> bundle_record list" where
  "setSourcePrefixHashes rs raw =
     prefix_loop (raw_lines raw)
       (map (\<lambda>r. r\<lparr>sourcePrefixHash := [], sourcePrefixWithoutLFHash := [], sourcePrefixWithoutLFPresent := False\<rparr>) rs)
       new_tracker"

definition saveUnlocked :: "(string \<Rightarrow> bool) \<Rightarrow> atb_bundle \<Rightarrow> bundle_error + atb_bundle \<times> string" where
  \<comment> \<open>the argument tells whether the atomic write of a content succeeds; the result is the bundle with its
      refreshed prefix hashes and the bytes on disk\<close>
  "saveUnlocked writeAtomic b =
     (case save_lines (Records b) of
        None \<Rightarrow> Inl EncodeFailed
      | Some raw \<Rightarrow>
          if writeAtomic raw then Inr (b\<lparr>Records := setSourcePrefixHashes (Records b) raw\<rparr>, raw) else Inl WriteFailed)"

section \<open>The tracker\<close>

definition prefix_hashes :: "string \<Rightarrow> string \<times> string \<times> bool" where
  \<comment> \<open>what a record after the bytes \<open>p\<close> is bound to: their hash, and the hash without a single final line feed\<close>
  "prefix_hashes p =
     (if 1 < length p \<and> last p = CHR 0x0A \<and> p ! (length p - 2) \<noteq> CHR 0x0A
      then (Sum256 p, Sum256 (butlast p), True) else (Sum256 p, [], False))"

definition tracks :: "sourcePrefixTracker \<Rightarrow> string \<Rightarrow> bool" where
  "tracks t p =
     (withLF t = p \<and> withoutLastByte t = butlast p \<and> processedBytes t = int (length p) \<and>
      (p \<noteq> [] \<longrightarrow> previousByte t = last p) \<and> (2 \<le> length p \<longrightarrow> byteBeforePreviousByte t = p ! (length p - 2)))"

lemma tracks_new: "tracks new_tracker []"
  by (simp add: tracks_def new_tracker_def)

lemma tracks_add:
  assumes "tracks t p"
  shows "tracks (tracker_add t r) (p @ r)"
proof (cases "length r \<le> 1")
  case True
  then consider "r = []" | c where "r = [c]" by (cases r) auto
  then show ?thesis
  proof cases
    case 1
    with assms show ?thesis by (simp add: tracker_add_def)
  next
    case 2
    with assms show ?thesis
      by (cases p rule: rev_cases) (auto simp: tracks_def tracker_add_def nth_append butlast_append)
  qed
next
  case False
  then have r: "r \<noteq> []" "2 \<le> length r" by auto
  have "butlast p @ (if processedBytes t > 0 then [previousByte t] else []) = p"
    using assms by (cases p rule: rev_cases) (auto simp: tracks_def)
  then have wo: "withoutLastByte t @ (if processedBytes t > 0 then [previousByte t] else []) @ take (length r - 1) r =
      butlast (p @ r)"
    using assms r by (simp add: tracks_def butlast_append butlast_conv_take flip: append_assoc)
  have two: "(p @ r) ! (length (p @ r) - 2) = r ! (length r - 2)"
  proof -
    have "length (p @ r) - 2 = length p + (length r - 2)" using r by simp
    then show ?thesis by (simp only: nth_append_length_plus)
  qed
  have ends: "last (p @ r) = r ! (length r - 1)" using r last_conv_nth [of r] by (simp only: last_append) simp
  show ?thesis
    unfolding tracks_def
  proof (intro conjI impI)
    show "withoutLastByte (tracker_add t r) = butlast (p @ r)" using wo r by (simp add: tracker_add_def)
    show "previousByte (tracker_add t r) = last (p @ r)" using ends r by (simp add: tracker_add_def)
    show "byteBeforePreviousByte (tracker_add t r) = (p @ r) ! (length (p @ r) - 2)"
      using two r by (simp add: tracker_add_def)
  qed (use assms r in \<open>simp_all add: tracks_def tracker_add_def\<close>)
qed

lemma snapshot_tracks: "tracks t p \<Longrightarrow> tracker_snapshot t = prefix_hashes p"
  by (auto simp: tracks_def tracker_snapshot_def prefix_hashes_def)

definition bind_prefix :: "string \<Rightarrow> bundle_record \<Rightarrow> bundle_record" where
  \<comment> \<open>a signature record bound to the bytes before it\<close>
  "bind_prefix p r =
     (if Type (Event r) = TypeBundleSignature
      then case prefix_hashes p of
             (h, h', f) \<Rightarrow> r\<lparr>sourcePrefixHash := h, sourcePrefixWithoutLFHash := h', sourcePrefixWithoutLFPresent := f\<rparr>
      else r)"

lemma set_snapshot_tracks: "tracks t p \<Longrightarrow> set_snapshot t r = bind_prefix p r"
  by (simp add: set_snapshot_def bind_prefix_def snapshot_tracks)

lemma IndexByte_Some: "IndexByte s c = Some i \<Longrightarrow> i < length s \<and> s ! i = c"
  by (induction s c arbitrary: i rule: IndexByte.induct) (auto split: if_splits)

lemma concat_raw_lines: "concat (raw_lines d) = d"
proof (induction d rule: raw_lines.induct)
  case (1 d)
  show ?case
  proof (cases "IndexByte d (CHR 0x0A)")
    case None
    then have "raw_lines d = (if d = [] then [] else [d])"
      by (subst raw_lines.simps) (simp add: scanRawLines_def raw_lines.simps [of "[]"])
    then show ?thesis by simp
  next
    case (Some i)
    then have d: "d \<noteq> []" and r: "raw_lines d = take (i + 1) d # raw_lines (drop (i + 1) d)"
      by (auto simp: raw_lines.simps [of d] scanRawLines_def)
    have "concat (raw_lines (drop (i + 1) d)) = drop (i + 1) d"
      using 1 [of "i + 1" "Some (take (i + 1) d)"] Some d by (simp add: scanRawLines_def)
    then show ?thesis unfolding r by simp
  qed
qed

text \<open>Every loaded record comes from a line, and a signature record is bound to the bytes before that line.\<close>

lemma load_loop_records:
  assumes "load_loop limits br i raws recs t = Inr out" "tracks t p" "r \<in> set out" "r \<notin> set recs"
  shows "\<exists>a raw b r0. raws = a @ raw # b \<and> decode_record (trim_line raw) = Some r0 \<and> r = bind_prefix (p @ concat a) r0"
  using assms
proof (induction raws arbitrary: i recs t p)
  case (Cons raw raws)
  have tr: "tracks (tracker_add t raw) (p @ raw)" by (rule tracks_add [OF Cons.prems(2)])
  from Cons.prems(1) consider
    "load_loop limits br (i + 1) raws recs (tracker_add t raw) = Inr out"
    | rec where "decode_record (trim_line raw) = Some rec"
      "load_loop limits br (i + 1) raws (recs @ [set_snapshot t rec]) (tracker_add t raw) = Inr out"
    by (auto simp: Let_def split: if_splits option.splits)
  then show ?case
  proof cases
    case 1
    from Cons.IH [OF 1 tr Cons.prems(3,4)] show ?thesis by (metis append_Cons append_assoc concat.simps(2))
  next
    case 2
    show ?thesis
    proof (cases "r = set_snapshot t rec")
      case True
      then show ?thesis
        using 2(1) set_snapshot_tracks [OF Cons.prems(2)] by (intro exI [of _ "[]"] exI [of _ raw] exI [of _ raws] exI [of _ rec]) simp
    next
      case False
      with Cons.prems(4) have "r \<notin> set (recs @ [set_snapshot t rec])" by simp
      from Cons.IH [OF 2(2) tr Cons.prems(3) this] show ?thesis
        by (metis append_Cons append_assoc concat.simps(2))
    qed
  qed
qed simp

lemma load_loop_count:
  "load_loop limits br i raws recs t = Inr out \<Longrightarrow> int (length recs) \<le> MaxRecords limits \<Longrightarrow>
     int (length out) \<le> MaxRecords limits"
proof (induction raws arbitrary: i recs t)
  case (Cons raw raws)
  from Cons.prems(1) consider
    "load_loop limits br (i + 1) raws recs (tracker_add t raw) = Inr out"
    | rec where "int (length recs) < MaxRecords limits"
      "load_loop limits br (i + 1) raws (recs @ [set_snapshot t rec]) (tracker_add t raw) = Inr out"
    by (auto simp: Let_def split: if_splits option.splits)
  then show ?case using Cons by cases auto
qed simp

lemma LoadReaderWithLimits_Inr:
  assumes "LoadReaderWithLimits limits br raw = Inr b"
  shows "load_loop limits br 0 (raw_lines raw) [] new_tracker = Inr (Records b)"
    "int (length raw) \<le> MaxBytes limits" "0 < MaxRecords limits"
    "hasManifestRecord (Records b) \<Longrightarrow> is_ok (parseManifestData (hd (Records b)))"
  using assms by (auto simp: LoadReaderWithLimits_def split: if_splits sum.splits)

section \<open>Rendered text has no control characters\<close>

abbreviation printable :: "string \<Rightarrow> bool" where
  "printable s \<equiv> list_all (\<lambda>c. 32 \<le> ord c) s"

lemma printable_EncodeRune: "32 \<le> r \<Longrightarrow> printable (EncodeRune r)"
proof -
  assume r: "32 \<le> r"
  define u where "u = (if valid_rune r then r else RuneError)"
  have u: "32 \<le> u" "u < 0x110000" "EncodeRune r = EncodeRune u" "valid_rune u"
    using r EncodeRune_invalid [of r] by (auto simp: u_def RuneError_def valid_rune_def)
  consider "u < 0x80" | "0x80 \<le> u" "u < 0x800" | "0x800 \<le> u" "u < 0x10000" | "0x10000 \<le> u" by linarith
  then show ?thesis
  proof cases
    case 1
    with u show ?thesis by (simp add: EncodeRune_1 ord_byte)
  next
    case 2
    then have "u div 64 < 32" by auto
    with 2 u show ?thesis by (simp add: EncodeRune_2 ord_byte)
  next
    case 3
    then have "u div 4096 < 16" by auto
    with 3 u show ?thesis by (simp add: EncodeRune_3 ord_byte)
  next
    case 4
    then have "u div 262144 < 5" using u by auto
    with 4 u show ?thesis by (simp add: EncodeRune_4 ord_byte)
  qed
qed

lemma ord_hex_digit: "n < 16 \<Longrightarrow> 32 \<le> ord (hex_digit n)"
  by (auto simp: hex_digit_def ord_byte)

lemma printable_u_escape: "printable (u_escape n)"
  by (simp add: u_escape_def hex4_def ord_hex_digit)

lemma printable_html_escape: "printable (html_escape r)"
proof (cases "short_escape r")
  case None
  then show ?thesis by (auto simp: html_escape_def printable_u_escape intro: printable_EncodeRune)
next
  case (Some e)
  then show ?thesis by (auto simp: html_escape_def short_escape_def split: if_splits)
qed

lemma printable_html_body: "printable (html_body s)"
  by (induction s rule: html_body.induct)
    (auto simp: printable_u_escape printable_html_escape split: prod.splits)

lemma printable_number:
  assumes "scan_number lit = Some (lit, [])"
  shows "printable lit"
proof -
  have digits: "printable (takeWhile is_digit s)" for s
    by (induction s) (auto simp: is_digit_def)
  have ex: "scan_exp l s = Some (x, r) \<Longrightarrow> printable l \<Longrightarrow> printable x" for l s x r
    using digits by (auto simp: scan_exp_def Let_def is_digit_def split: list.splits if_splits)
  have fr: "scan_frac l s = Some (x, r) \<Longrightarrow> printable l \<Longrightarrow> printable x" for l s x r
    using digits ex by (fastforce simp: scan_frac_def Let_def split: list.splits if_splits)
  have it: "scan_int l s = Some (x, r) \<Longrightarrow> printable l \<Longrightarrow> printable x" for l s x r
    using digits fr by (fastforce simp: scan_int_def is_digit_def split: list.splits if_splits)
  show ?thesis using assms it by (fastforce simp: scan_number_def split: list.splits if_splits)
qed

lemma printable_render:
  "q = html_body \<Longrightarrow> wf_json v \<Longrightarrow> printable (render_value q v)"
  "q = html_body \<Longrightarrow> list_all wf_json vs \<Longrightarrow> printable (render_elems q vs)"
  "q = html_body \<Longrightarrow> list_all (\<lambda>(k, v). wf_json v) ms \<Longrightarrow> printable (render_members q ms)"
  by (induction q v and q vs and q ms rule: render_value_render_elems_render_members.induct)
    (auto simp: printable_html_body printable_number)

lemma printable_render_html: "wf_json j \<Longrightarrow> printable (render_html j)"
  by (simp add: render_html_def printable_render(1))

section \<open>Saving and loading again\<close>

lemma IndexByte_printable: "printable s \<Longrightarrow> IndexByte (s @ CHR 0x0A # t) (CHR 0x0A) = Some (length s)"
  by (induction s) auto

lemma raw_lines_step: "printable s \<Longrightarrow> raw_lines (s @ CHR 0x0A # t) = (s @ [CHR 0x0A]) # raw_lines t"
  by (subst raw_lines.simps) (simp add: scanRawLines_def IndexByte_printable)

lemma raw_lines_Nil [simp]: "raw_lines [] = []"
  by (subst raw_lines.simps) (simp add: scanRawLines_def)

lemma trim_line_printable: "printable s \<Longrightarrow> trim_line (s @ [CHR 0x0A]) = s"
proof -
  assume s: "printable s"
  have "drop_last (CHR 0x0A) (s @ [CHR 0x0A]) = s" by (simp add: drop_last_def)
  moreover have "drop_last (CHR 0x0D) s = s" using s by (cases s rule: rev_cases) (auto simp: drop_last_def)
  ultimately show ?thesis by (simp add: trim_line_def)
qed

lemma render_html_nonempty: "wf_json j \<Longrightarrow> render_html j \<noteq> []"
  using render_value_first [of j html_body] by (auto simp: render_html_def)

text \<open>The records a bundle is loaded as: payloads as the decoder reads them.\<close>

definition wire_ok :: "event \<Rightarrow> bool" where
  \<comment> \<open>an event of a running program that has a JSON encoding\<close>
  "wire_ok e = (go_value (Data e) \<and> int64 (Sequence e) \<and> event_json e \<noteq> None)"

definition wire_event :: "event \<Rightarrow> event" where
  "wire_event e = the (decode_event (coerce_json (the (event_json e))) zero_event)"

lemma wire_event_spec:
  assumes "wire_ok e"
  shows "\<exists>j w. event_json e = Some j \<and> wf_json j \<and> decode_event (coerce_json j) zero_event = Some (wire_event e) \<and>
    decoded w \<and> wire_event e = coerce_event e w \<and> encodable e \<and> encodable (wire_event e) \<and>
    event_body (wire_event e) = event_body e"
proof -
  obtain j where j: "event_json e = Some j" using assms by (auto simp: wire_ok_def)
  with event_json_stable [of e j] assms obtain w j' t where w: "wf_json j" "decoded w"
    "decode_event (coerce_json j) zero_event = Some (coerce_event e w)"
    "event_json (coerce_event e w) = Some j'" "canonicalizeRaw (render_html j) = Inr t"
    "canonicalizeRaw (render_html j') = Inr t"
    by (auto simp: wire_ok_def)
  have we: "wire_event e = coerce_event e w" by (simp add: wire_event_def j w(3))
  have "Marshal event_marshal e = Inr t" "Marshal event_marshal (coerce_event e w) = Inr t"
    using j w by (simp_all add: Marshal_def event_marshal_def)
  with j w we show ?thesis by (auto simp: encodable_def event_body_def)
qed

definition wire_record :: "bundle_record \<Rightarrow> bundle_record" where
  "wire_record r = new_record (wire_event (Event r)) (coerce_utf8 (Hash r))"

lemma valid_utf8_record_names: "valid_utf8 ''event''" "valid_utf8 ''hash''"
  by (rule valid_utf8_literal, simp)+

lemma decode_record_render:
  assumes "wire_ok (Event r)" "record_json r = Some j"
  shows "decode_record (render_html j) = Some (wire_record r) \<and> wf_json j"
proof -
  obtain ej where ej: "event_json (Event r) = Some ej" "wf_json ej"
    "decode_event (coerce_json ej) zero_event = Some (wire_event (Event r))"
    using wire_event_spec [OF assms(1)] by auto
  have j: "j = JObject [(''event'', ej), (''hash'', JString (Hash r))]" using assms(2) ej(1) by (simp add: record_json_def)
  then have wf: "wf_json j" using ej(2) by simp
  have "json_scan (render_html j) = Some (JObject [(''event'', coerce_json ej), (''hash'', JString (coerce_utf8 (Hash r)))])"
    unfolding json_scan_render_html [OF wf] using j by (simp add: valid_utf8_record_names)
  then have "decode_record (render_html j) = Some (wire_record r)"
    using ej(3)
    by (simp add: decode_record_def decode_struct_def [of set_record] struct_field_def record_names_def set_record_def
        zero_record_def new_record_def decode_string_def wire_record_def)
  with wf show ?thesis by simp
qed

fun bind_all :: "string \<Rightarrow> bundle_record list \<Rightarrow> bundle_record list" where
  \<comment> \<open>the records of a saved text, each signature bound to the lines before it\<close>
  "bind_all p [] = []"
| "bind_all p (r # rs) =
     bind_prefix p (wire_record r) # bind_all (p @ render_html (the (record_json r)) @ [CHR 0x0A]) rs"

definition short_line :: "bundle_record \<Rightarrow> bool" where
  "short_line r = (int (length (render_html (the (record_json r)))) \<le> MaxLineSizeBytes)"

lemma load_loop_saved:
  assumes "save_lines rs = Some raw" "list_all (\<lambda>r. wire_ok (Event r) \<and> short_line r) rs" "tracks t p"
    and "int (length recs) + int (length rs) \<le> MaxRecords limits" "\<And>k. br k \<le> MaxBytes limits"
  shows "load_loop limits br i (raw_lines raw) recs t = Inr (recs @ bind_all p rs)"
  using assms
proof (induction rs arbitrary: raw i recs t p)
  case (Cons r rs)
  from Cons.prems(1) obtain j raw' where j: "record_json r = Some j" and raw': "save_lines rs = Some raw'"
    and raw: "raw = render_html j @ CHR 0x0A # raw'" by (auto split: option.splits)
  have dec: "decode_record (render_html j) = Some (wire_record r)" and wf: "wf_json j"
    using decode_record_render [of r j] Cons.prems(2) j by auto
  have pr: "printable (render_html j)" by (rule printable_render_html [OF wf])
  have fits: "token_fits (render_html j @ [CHR 0x0A])" and len: "int (length (render_html j)) \<le> MaxLineSizeBytes"
    using Cons.prems(2) j by (auto simp: token_fits_def short_line_def)
  define t' where "t' = tracker_add t (render_html j @ [CHR 0x0A])"
  have "load_loop limits br (i + 1) (raw_lines raw') (recs @ [bind_prefix p (wire_record r)]) t' =
      Inr ((recs @ [bind_prefix p (wire_record r)]) @ bind_all (p @ render_html j @ [CHR 0x0A]) rs)"
    using Cons.prems by (intro Cons.IH raw') (auto simp: t'_def intro: tracks_add)
  then show ?case
    unfolding raw raw_lines_step [OF pr]
    using fits len Cons.prems(4,5) dec render_html_nonempty [OF wf] j
    by (simp add: Let_def trim_line_printable [OF pr] not_less not_le set_snapshot_tracks [OF Cons.prems(3)] t'_def)
qed simp

lemma bind_prefix_simps [simp]:
  "Event (bind_prefix p r) = Event r" "Hash (bind_prefix p r) = Hash r"
  by (auto simp: bind_prefix_def split: prod.splits)

lemma pairs_bind_all: "pairs (bind_all p rs) = map (\<lambda>r. (wire_event (Event r), coerce_utf8 (Hash r))) rs"
  by (induction rs arbitrary: p) (simp_all add: wire_record_def new_record_def)

lemma ascii_hex_encode: "list_all (\<lambda>c. ord c < 0x80) (hex_encode s)"
proof -
  have "ord (hex_digit n) < 0x80" if "n < 16" for n using that by (auto simp: hex_digit_def ord_byte)
  moreover have "ord c div 16 < 16" for c using ord_less [of c] by linarith
  ultimately show ?thesis by (induction s) (auto simp: hex_encode_def)
qed

lemma valid_utf8_digest: "valid_utf8 (digest s)"
  unfolding digest_def by (rule valid_utf8_literal [OF ascii_hex_encode])

lemma valid_utf8_Genesis: "valid_utf8 GenesisHash"
  by (rule valid_utf8_literal) (simp add: GenesisHash_def list_all_iff)

lemma linked_wire:
  assumes "linked_events p (pairs rs)" "valid_utf8 p" "list_all (\<lambda>r. wire_ok (Event r)) rs"
  shows "linked_events p (map (\<lambda>r. (wire_event (Event r), coerce_utf8 (Hash r))) rs)"
  using assms
proof (induction rs arbitrary: p)
  case (Cons r rs)
  obtain w where "wire_event (Event r) = coerce_event (Event r) w" "event_body (wire_event (Event r)) = event_body (Event r)"
    using wire_event_spec [of "Event r"] Cons.prems(3) by auto
  moreover have "coerce_utf8 (Hash r) = Hash r" using Cons.prems(1) valid_utf8_digest by auto
  moreover have "PrevHash (coerce_event (Event r) w) = PrevHash (Event r)" for w
    using Cons.prems(1,2) by (simp add: coerce_event_def)
  ultimately show ?case using Cons by auto
qed simp

lemma numbered_wire:
  assumes "numbered n (map Event rs)" "list_all (\<lambda>r. wire_ok (Event r)) rs"
  shows "numbered n (map (\<lambda>r. wire_event (Event r)) rs)"
  using assms
proof (induction rs arbitrary: n)
  case (Cons r rs)
  then show ?case using wire_event_spec [of "Event r"] by auto
qed simp

lemma Type_wire_event:
  assumes "wire_ok e" "list_all (\<lambda>c. ord c < 0x80) k"
  shows "Type (wire_event e) = k \<longleftrightarrow> Type e = k"
proof -
  obtain w where "wire_event e = coerce_event e w" using wire_event_spec [OF assms(1)] by blast
  then have "Type (wire_event e) = coerce_utf8 (Type e)" by (simp add: coerce_event_def)
  then show ?thesis by (simp only: coerce_utf8_ascii_iff [OF assms(2)])
qed

lemma map_Event_bind_all: "map Event (bind_all p rs) = map (\<lambda>r. wire_event (Event r)) rs"
  by (induction rs arbitrary: p) (simp_all add: wire_record_def new_record_def)

lemma hasManifestRecord_bind_all:
  assumes "list_all (\<lambda>r. wire_ok (Event r)) rs"
  shows "hasManifestRecord (bind_all p rs) = hasManifestRecord rs"
  using assms Type_wire_event [of "Event (hd rs)" ManifestEventType]
  by (cases rs) (auto simp: hasManifestRecord_def ManifestEventType_def wire_record_def new_record_def)

lemma Verify_bind_all:
  assumes "Verify b = None" "list_all (\<lambda>r. wire_ok (Event r)) (Records b)"
  shows "Verify \<lparr>Records = bind_all [] (Records b)\<rparr> = None"
  using assms linked_wire [OF _ valid_utf8_Genesis assms(2)] numbered_wire [OF _ assms(2)]
  by (simp add: Verify_None first_seq_def hasManifestRecord_bind_all map_Event_bind_all pairs_bind_all)

text \<open>In memory, saving binds the signatures to the same bytes.\<close>

lemma prefix_loop_saved:
  assumes "save_lines rs = Some raw" "list_all (\<lambda>r. wire_ok (Event r)) rs" "tracks t p"
    and "list_all2 (\<lambda>r s. Event s = Event r) rs ss"
    and "list_all (\<lambda>s. SourcePrefixHashes s = ([], [], False)) ss"
  shows "map SourcePrefixHashes (prefix_loop (raw_lines raw) ss t) = map SourcePrefixHashes (bind_all p rs)"
  using assms
proof (induction rs arbitrary: raw t p ss)
  case (Cons r rs)
  from Cons.prems(1) obtain j raw' where j: "record_json r = Some j" and raw': "save_lines rs = Some raw'"
    and raw: "raw = render_html j @ CHR 0x0A # raw'" by (auto split: option.splits)
  have wf: "wf_json j" using decode_record_render [of r j] Cons.prems(2) j by auto
  have pr: "printable (render_html j)" by (rule printable_render_html [OF wf])
  obtain s ss' where ss: "ss = s # ss'" "Event s = Event r" "list_all2 (\<lambda>r s. Event s = Event r) rs ss'"
    using Cons.prems(4) by (auto simp: list_all2_Cons1)
  have sp: "SourcePrefixHashes (bind_prefix p s) = SourcePrefixHashes (bind_prefix p (wire_record r))"
    using Type_wire_event [of "Event r" TypeBundleSignature] Cons.prems(2,5) ss
    by (auto simp: bind_prefix_def SourcePrefixHashes_def wire_record_def new_record_def TypeBundleSignature_def
        split: prod.splits)
  have "map SourcePrefixHashes (prefix_loop (raw_lines raw') ss' (tracker_add t (render_html j @ [CHR 0x0A]))) =
      map SourcePrefixHashes (bind_all (p @ render_html j @ [CHR 0x0A]) rs)"
    using Cons.prems ss by (intro Cons.IH raw' tracks_add) auto
  then show ?case
    unfolding raw raw_lines_step [OF pr]
    using ss sp j render_html_nonempty [OF wf]
    by (simp add: trim_line_printable [OF pr] set_snapshot_tracks [OF Cons.prems(3)])
qed simp

lemma save_prefix_hashes:
  assumes "save_lines rs = Some raw" "list_all (\<lambda>r. wire_ok (Event r)) rs"
  shows "map SourcePrefixHashes (setSourcePrefixHashes rs raw) = map SourcePrefixHashes (bind_all [] rs)"
  unfolding setSourcePrefixHashes_def
  by (rule prefix_loop_saved [OF assms tracks_new])
    (auto simp: list_all2_conv_all_nth list_all_iff SourcePrefixHashes_def)

section \<open>A bound on the length of rendered JSON\<close>

fun text_bound :: "json \<Rightarrow> nat"
  and elems_bound :: "json list \<Rightarrow> nat"
  and members_bound :: "(string \<times> json) list \<Rightarrow> nat" where
  "text_bound JNull = 4"
| "text_bound (JBool b) = 5"
| "text_bound (JNumber lit) = length lit"
| "text_bound (JString s) = 6 * length s + 2"
| "text_bound (JArray vs) = elems_bound vs + 2"
| "text_bound (JObject ms) = members_bound ms + 2"
| "elems_bound [] = 0"
| "elems_bound (v # vs) = text_bound v + 1 + elems_bound vs"
| "members_bound [] = 0"
| "members_bound ((k, v) # ms) = 6 * length k + 2 + text_bound v + 2 + members_bound ms"

lemma length_EncodeRune: "length (EncodeRune r) \<le> 4"
  by (auto simp: EncodeRune_def Let_def)

lemma length_html_escape: "length (html_escape r) \<le> 6"
  using length_EncodeRune [of r]
  by (auto simp: html_escape_def short_escape_def u_escape_def hex4_def split: option.splits)

lemma length_html_body: "length (html_body s) \<le> 6 * length s + 1"
proof (induction s rule: html_body.induct)
  case (2 c s)
  obtain r k where d: "DecodeRune c s = (r, k)" by force
  with 2 have "length (html_body (drop k s)) \<le> 6 * length (drop k s) + 1" by simp
  with d length_html_escape [of r] show ?case by (auto simp: u_escape_def hex4_def)
qed simp

lemma length_render:
  "q = html_body \<Longrightarrow> length (render_value q v) \<le> text_bound v"
  "q = html_body \<Longrightarrow> length (render_elems q vs) \<le> elems_bound vs"
  "q = html_body \<Longrightarrow> length (render_members q ms) \<le> members_bound ms"
proof (induction q v and q vs and q ms rule: render_value_render_elems_render_members.induct)
  case (4 q s)
  then show ?case using length_html_body [of s] by simp
next
  case (11 q k v)
  then show ?case using length_html_body [of k] by simp
next
  case (12 q k v m ms)
  then show ?case using length_html_body [of k] by simp
qed auto

section \<open>Decoded structs\<close>

lemma decoded_go_value: "decoded v \<Longrightarrow> go_value v"
  by (induction v rule: decoded.induct) (auto simp: list_all_iff split: float64.splits)

text \<open>What every field of a struct keeps, decoding keeps.\<close>

lemma decode_struct_keeps:
  assumes "decode_struct set_field names j s = Some s'" "utf8_json j" "P s"
    and "\<And>n v q q'. set_field n v q = Some q' \<Longrightarrow> P q \<Longrightarrow> utf8_json v \<Longrightarrow> P q'"
  shows "P s'"
proof -
  have "P q'" if "decode_members set_field names ms q = Some q'" "P q" "list_all (\<lambda>(k, v). valid_utf8 k \<and> utf8_json v) ms" for ms q q'
    using that
  proof (induction ms arbitrary: q)
    case (Cons a ms)
    obtain k v where a: "a = (k, v)" by force
    show ?case
    proof (cases "struct_field names k")
      case None
      with Cons a show ?thesis by simp
    next
      case (Some n)
      with Cons.prems(1) a obtain q1 where q1: "set_field n v q = Some q1" "decode_members set_field names ms q1 = Some q'"
        by (auto split: option.splits)
      show ?thesis by (rule Cons.IH [OF q1(2) assms(4) [OF q1(1)]]) (use Cons.prems a in auto)
    qed
  qed simp
  with assms(1-3) show ?thesis by (cases j) (auto simp: decode_struct_def)
qed

end
