(* ===== verification/Bundle_Props.thy ===== *)
theory Bundle_Props
  imports Bundle_IO
begin

text \<open>
  The properties of bundles: what construction guarantees, that the chain makes changes evident, that
  saving and loading keep a bundle verifiable, and which errors the loader and the manifest reader
  report.
\<close>

section \<open>New bundles\<close>

lemma wire_ok_encodable: "wire_ok e \<Longrightarrow> encodable e"
  using wire_event_spec by blast

definition first_bundle :: "any \<Rightarrow> string \<Rightarrow> atb_bundle" where
  \<comment> \<open>the bundle with the manifest record carrying the given payload\<close>
  "first_bundle d createdAt =
     (let e = next_event \<lparr>Records = []\<rparr> ManifestEventType d (Some (timestamp_options createdAt))
      in \<lparr>Records = [new_record e (event_hash e)]\<rparr>)"

lemma manifest_type_ok: "event_type_ok ManifestEventType"
  by code_simp

lemma append_manifest:
  assumes "go_value d" "to_json d \<noteq> None"
  shows "AppendWithOptions \<lparr>Records = []\<rparr> ManifestEventType d (Some (timestamp_options t)) = Inr (first_bundle d t)"
proof -
  define e where "e = next_event \<lparr>Records = []\<rparr> ManifestEventType d (Some (timestamp_options t))"
  have "wire_ok e"
    using assms by (auto simp: e_def wire_ok_def event_json_def int64_def next_event_def Let_def)
  then have "encodable e" by (rule wire_ok_encodable)
  then show ?thesis
    unfolding AppendWithOptions_Inr
    by (simp add: manifest_type_ok acquisition_guard_def first_bundle_def e_def Let_def)
qed

lemma first_bundle_simps [simp]:
  "hasManifestRecord (Records (first_bundle d t))"
  "Data (Event (hd (Records (first_bundle d t)))) = d"
  "Type (Event (hd (Records (first_bundle d t)))) = ManifestEventType"
  "length (Records (first_bundle d t)) = 1"
  by (simp_all add: first_bundle_def Let_def hasManifestRecord_def new_record_def)

lemma manifest_v1_decodes:
  assumes "valid_utf8 (md_CreatedAt m)" "valid_utf8 (md_BundleID m)" "valid_utf8 (md_CaptureRunID m)" "md_Version m = ''1''"
  shows "manifestVersionFromRecord (AString (render_html (manifest_json m))) = Inr 1"
    and "parseManifestDataV1 (render_html (manifest_json m)) = Inr m"
proof -
  have v: "valid_utf8 ''version''" "valid_utf8 ''created_at''" "valid_utf8 ''bundle_id''" "valid_utf8 ''capture_run_id''"
    "valid_utf8 ''1''"
    by (rule valid_utf8_literal, simp)+
  have wf: "wf_json (manifest_json m)" by (simp add: manifest_json_def wf_omit)
  have scan: "json_scan (render_html (manifest_json m)) = Some (manifest_json m)"
    using json_scan_render_html [OF wf] assms v by (simp add: manifest_json_def omit_string_def)
  have f: "struct_field [''version''] ''version'' = Some ''version''"
    "struct_field [''version''] ''created_at'' = None" "struct_field [''version''] ''bundle_id'' = None"
    "struct_field [''version''] ''capture_run_id'' = None"
    by code_simp+
  have one: "Sscanf_d ''1'' = Some 1" by code_simp
  show "manifestVersionFromRecord (AString (render_html (manifest_json m))) = Inr 1"
    unfolding manifestVersionFromRecord.simps decode_probe_def scan
    using assms(4) f by (simp add: decode_struct_def manifest_json_def omit_string_def one)
  show "parseManifestDataV1 (render_html (manifest_json m)) = Inr m"
    unfolding parseManifestDataV1_def scan using assms(4)
    by (cases m) (simp add: decode_struct_def manifest_json_def omit_string_def struct_field_def
        manifest_names_def set_manifest_def decode_string_def zero_manifest_def)
qed

definition new_version :: "new_options \<Rightarrow> string" where
  "new_version opts = show_int (if no_ManifestVersion opts = 0 then 1 else no_ManifestVersion opts)"

definition v1_payload :: "string \<Rightarrow> string \<Rightarrow> new_options \<Rightarrow> any" where
  "v1_payload createdAt bytes opts = AString (render_html (manifest_json
     \<lparr>md_Version = ''1'', md_CreatedAt = createdAt, md_BundleID = hex_encode bytes, md_CaptureRunID = no_CaptureRunID opts\<rparr>))"

definition v2_payload :: "string \<Rightarrow> string \<Rightarrow> new_options \<Rightarrow> any" where
  "v2_payload createdAt bytes opts =
     AMap ([(''version'', AInt (no_ManifestVersion opts)), (''created_at'', AString createdAt),
            (''bundle_id'', AString (hex_encode bytes))] @
       (if no_CaptureRunID opts \<noteq> [] then [(''capture_run_id'', AString (no_CaptureRunID opts))] else []))"

lemma NewWithOptions_cases:
  "NewWithOptions t (Some bytes) opts =
     (if no_ManifestVersion opts \<in> {0, 1} then Inr (first_bundle (v1_payload t bytes opts) t)
      else if no_ManifestVersion opts \<in> {2, 3} then Inr (first_bundle (v2_payload t bytes opts) t)
      else Inl (NewVersion (no_ManifestVersion opts)))"
proof -
  have 1: "AppendWithOptions \<lparr>Records = []\<rparr> ManifestEventType (v1_payload t bytes opts) (Some (timestamp_options t)) =
      Inr (first_bundle (v1_payload t bytes opts) t)"
    by (rule append_manifest) (simp_all add: v1_payload_def)
  have 2: "AppendWithOptions \<lparr>Records = []\<rparr> ManifestEventType (v2_payload t bytes opts) (Some (timestamp_options t)) =
      Inr (first_bundle (v2_payload t bytes opts) t)" if "no_ManifestVersion opts \<in> {2, 3}"
    by (rule append_manifest) (use that in \<open>auto simp: v2_payload_def\<close>)
  show ?thesis
    using 1 [unfolded v1_payload_def] 2 [unfolded v2_payload_def]
    by (simp add: NewWithOptions_def Let_def v1_payload_def v2_payload_def)
qed

lemma Verify_empty: "Verify \<lparr>Records = []\<rparr> = None"
  by (simp add: Verify_None)

lemma NewWithOptions_Append:
  assumes "NewWithOptions t rnd opts = Inr b"
  obtains d where "AppendWithOptions \<lparr>Records = []\<rparr> ManifestEventType d (Some (timestamp_options t)) = Inr b"
  using assms by (auto simp: NewWithOptions_def Let_def split: option.splits if_splits sum.splits)

lemma NewWithOptions_verifies:
  assumes "NewWithOptions t rnd opts = Inr b"
  shows "Verify b = None"
proof -
  obtain d where "AppendWithOptions \<lparr>Records = []\<rparr> ManifestEventType d (Some (timestamp_options t)) = Inr b"
    by (rule NewWithOptions_Append [OF assms])
  then show ?thesis by (rule append_verifies [OF Verify_empty])
qed

section \<open>Bundles a program can build\<close>

inductive built :: "atb_bundle \<Rightarrow> bool" where
  built_new: "NewWithOptions t rnd opts = Inr b \<Longrightarrow> t \<noteq> [] \<Longrightarrow> valid_utf8 t \<Longrightarrow> valid_utf8 (no_CaptureRunID opts) \<Longrightarrow>
     rnd \<noteq> Some [] \<Longrightarrow> built b"
| built_append: "built b \<Longrightarrow> AppendWithOptions b ty d o' = Inr b' \<Longrightarrow> built b'"

definition acquires :: "bundle_record \<Rightarrow> bool" where
  "acquires r = (Acquisition (Event r) \<noteq> None)"

lemma hex_encode_Nil [simp]: "hex_encode s = [] \<longleftrightarrow> s = []"
  by (cases s) (simp_all add: hex_encode_def)

lemma parse_v1_payload:
  assumes "valid_utf8 t" "valid_utf8 (no_CaptureRunID opts)"
  shows "ManifestE (first_bundle (v1_payload t bytes opts) t) =
    Inr \<lparr>md_Version = ''1'', md_CreatedAt = t, md_BundleID = hex_encode bytes, md_CaptureRunID = no_CaptureRunID opts\<rparr>"
proof -
  define m where "m = \<lparr>md_Version = ''1'', md_CreatedAt = t, md_BundleID = hex_encode bytes,
    md_CaptureRunID = no_CaptureRunID opts\<rparr>"
  have u: "valid_utf8 (hex_encode bytes)" by (rule valid_utf8_literal [OF ascii_hex_encode])
  have m: "manifestVersionFromRecord (AString (render_html (manifest_json m))) = Inr 1"
    "parseManifestDataV1 (render_html (manifest_json m)) = Inr m"
    by (rule manifest_v1_decodes; use assms u in \<open>simp add: m_def\<close>)+
  have p: "v1_payload t bytes opts = AString (render_html (manifest_json m))" by (simp add: v1_payload_def m_def)
  show ?thesis
    unfolding ManifestE_def parseManifestData_def m_def [symmetric] p
    using m by (simp add: ManifestVersionMax_def del: manifestVersionFromRecord.simps)
qed

lemma parse_v2_payload:
  assumes "no_ManifestVersion opts \<in> {2, 3}" "t \<noteq> []" "bytes \<noteq> []"
  shows "ManifestE (first_bundle (v2_payload t bytes opts) t) =
    Inr \<lparr>md_Version = new_version opts, md_CreatedAt = t, md_BundleID = hex_encode bytes,
         md_CaptureRunID = no_CaptureRunID opts\<rparr>"
proof -
  have s: "show_int 2 = ''2''" "show_int 3 = ''3''" by code_simp+
  show ?thesis
    using assms s
    by (auto simp: ManifestE_def parseManifestData_def v2_payload_def field_def field_string_def ManifestVersionMax_def
        parseManifestDataV2_def Let_def new_version_def)
qed

lemma ManifestE_append:
  assumes "AppendWithOptions b ty d o' = Inr b'" "hasManifestRecord (Records b)"
  shows "ManifestE b' = ManifestE b" "hasManifestRecord (Records b')"
  using assms by (cases "Records b"; auto simp: AppendWithOptions_Inr ManifestE_def hasManifestRecord_def)+

lemma append_acquires:
  assumes "AppendWithOptions b ty d o' = Inr b'" "hasManifestRecord (Records b)"
    and "acquires (last (Records b'))"
  shows "\<exists>m. ManifestE b = Inr m \<and> md_Version m = ''3''"
proof -
  from assms(1,2) have ty: "ty \<noteq> ManifestEventType" by (auto simp: AppendWithOptions_Inr hasManifestRecord_def)
  have e: "Acquisition (next_event b ty d o') = (case o' of None \<Rightarrow> None | Some x \<Rightarrow> ao_Acquisition x)"
    by (auto simp: next_event_def Let_def apply_options_def zero_event_def split: option.splits)
  with assms(1,3) have "case o' of None \<Rightarrow> False | Some x \<Rightarrow> ao_Acquisition x \<noteq> None"
    by (auto simp: AppendWithOptions_Inr acquires_def new_record_def split: option.splits)
  with assms(1,2) ty show ?thesis
    by (auto simp: AppendWithOptions_Inr acquisition_guard_def ManifestE_def split: sum.splits if_splits)
qed

lemma built_inv:
  "built b \<Longrightarrow> Verify b = None \<and> hasManifestRecord (Records b) \<and>
     (\<exists>m. ManifestE b = Inr m \<and> ((\<exists>r\<in>set (Records b). acquires r) \<longrightarrow> md_Version m = ''3''))"
proof (induction rule: built.induct)
  case (built_new t rnd opts b)
  then obtain d where app: "AppendWithOptions \<lparr>Records = []\<rparr> ManifestEventType d (Some (timestamp_options t)) = Inr b"
    by (auto elim: NewWithOptions_Append)
  then have v: "Verify b = None" using append_verifies [OF Verify_empty] by blast
  obtain bytes where r: "rnd = Some bytes" "bytes \<noteq> []" using built_new by (cases rnd) (auto simp: NewWithOptions_def)
  with built_new consider
    "no_ManifestVersion opts \<in> {0, 1}" "b = first_bundle (v1_payload t bytes opts) t"
    | "no_ManifestVersion opts \<in> {2, 3}" "b = first_bundle (v2_payload t bytes opts) t"
    by (auto simp: NewWithOptions_cases split: if_splits)
  then have m: "\<exists>m. ManifestE b = Inr m" "hasManifestRecord (Records b)"
    using parse_v1_payload [of t opts bytes] parse_v2_payload [of opts t bytes] built_new r by (cases; simp)+
  have "\<not> acquires r" if "r \<in> set (Records b)" for r
    using app that
    by (auto simp: AppendWithOptions_Inr acquires_def new_record_def next_event_def Let_def apply_options_def
        timestamp_options_def zero_event_def)
  with v m show ?case by blast
next
  case (built_append b ty d o' b')
  then obtain m where m: "ManifestE b = Inr m" "(\<exists>r\<in>set (Records b). acquires r) \<longrightarrow> md_Version m = ''3''" by auto
  obtain r where b': "Records b' = Records b @ [r]" using built_append by (auto simp: AppendWithOptions_Inr)
  show ?case
    using built_append append_verifies ManifestE_append append_acquires m b' by fastforce
qed

section \<open>Sample bundles\<close>

definition sample_time :: string where
  "sample_time = ''2025-01-01T00:00:00Z''"

definition sample_options :: new_options where
  "sample_options = \<lparr>no_ManifestVersion = 3, no_CaptureRunID = []\<rparr>"

definition sample_first :: atb_bundle where
  "sample_first = first_bundle (v2_payload sample_time ''0123456789abcdef'' sample_options) sample_time"

definition sample_acquisition :: append_options where
  "sample_acquisition = (timestamp_options sample_time)\<lparr>ao_Acquisition := Some (zero_acquisition\<lparr>acq_Mode := ''live''\<rparr>)\<rparr>"

definition sample_event :: event where
  "sample_event = next_event sample_first ''ai.tool.exec'' (AString ''ls'') (Some sample_acquisition)"

definition sample_bundle :: atb_bundle where
  "sample_bundle = \<lparr>Records = Records sample_first @ [new_record sample_event (event_hash sample_event)]\<rparr>"

lemma sample_new: "NewWithOptions sample_time (Some ''0123456789abcdef'') sample_options = Inr sample_first"
  by (simp add: NewWithOptions_cases sample_first_def sample_options_def)

lemma sample_manifest: "\<exists>m. ManifestE sample_first = Inr m \<and> md_Version m = ''3''"
proof -
  have "new_version sample_options = ''3''" by code_simp
  then show ?thesis
    using parse_v2_payload [of sample_options sample_time "''0123456789abcdef''"]
    by (simp add: sample_first_def sample_time_def sample_options_def)
qed

lemma sample_wire: "wire_ok sample_event"
  by (simp add: wire_ok_def sample_event_def event_json_def int64_def next_event_def Let_def sample_first_def
      first_bundle_def hasManifestRecord_def new_record_def)

lemma sample_type_ok: "event_type_ok ''ai.tool.exec''"
  by code_simp

lemma sample_append: "AppendWithOptions sample_first ''ai.tool.exec'' (AString ''ls'') (Some sample_acquisition) = Inr sample_bundle"
proof -
  have "''ai.tool.exec'' \<noteq> ManifestEventType" by code_simp
  moreover have "acquisition_guard sample_first ''ai.tool.exec'' (Some sample_acquisition) = None"
    using sample_manifest by (auto simp: acquisition_guard_def ManifestE_def sample_first_def)
  moreover have "encodable sample_event" by (rule wire_ok_encodable [OF sample_wire])
  ultimately show ?thesis
    by (simp add: AppendWithOptions_Inr sample_type_ok sample_bundle_def sample_event_def)
qed

lemma valid_utf8_sample_time: "valid_utf8 sample_time"
  by (rule valid_utf8_literal) (simp add: sample_time_def)

lemma sample_built: "built sample_first" "built sample_bundle"
proof -
  show "built sample_first"
    by (rule built_new [OF sample_new]) (simp_all add: valid_utf8_sample_time sample_options_def, simp add: sample_time_def)
  then show "built sample_bundle" by (rule built_append [OF _ sample_append])
qed

lemma sample_verifies: "Verify sample_bundle = None" "Verify sample_first = None"
  using built_inv [OF sample_built(2)] NewWithOptions_verifies [OF sample_new] by blast+

section \<open>Properties of the chain\<close>

text \<open>C2: every bundle made by creating it and appending to it verifies, starts with a manifest the program can
  parse, and carries acquisition metadata only under manifest version 3.\<close>

theorem built_bundle_sound:
  assumes "built b"
  shows "Verify b = None \<and> hasManifestRecord (Records b) \<and>
    (\<exists>m. ManifestE b = Inr m \<and> ((\<exists>r\<in>set (Records b). acquires r) \<longrightarrow> md_Version m = ''3''))"
  by (rule built_inv [OF assms])

theorem built_bundle_sound_witness:
  "built sample_bundle \<and> Verify sample_bundle = None \<and> hasManifestRecord (Records sample_bundle)"
  using built_bundle_sound [OF sample_built(2)] sample_built(2) by blast

text \<open>Creating a bundle succeeds exactly for manifest versions 0 to 3; the manifest then parses back to the version,
  creation time, identifier and capture run it was created with, and the new bundle verifies.\<close>

theorem NewWithOptions_manifest:
  assumes "t \<noteq> []" "bytes \<noteq> []" "valid_utf8 t" "valid_utf8 (no_CaptureRunID opts)"
  shows "case NewWithOptions t (Some bytes) opts of
      Inl e \<Rightarrow> no_ManifestVersion opts \<notin> {0, 1, 2, 3}
    | Inr b \<Rightarrow> no_ManifestVersion opts \<in> {0, 1, 2, 3} \<and> Verify b = None \<and> length (Records b) = 1 \<and>
        ManifestE b = Inr \<lparr>md_Version = new_version opts, md_CreatedAt = t, md_BundleID = hex_encode bytes,
          md_CaptureRunID = no_CaptureRunID opts\<rparr>"
proof (cases "NewWithOptions t (Some bytes) opts")
  case (Inl e)
  then show ?thesis by (auto simp: NewWithOptions_cases split: if_splits)
next
  case (Inr b)
  have one: "show_int 1 = ''1''" by code_simp
  have "Verify b = None" by (rule NewWithOptions_verifies [OF Inr])
  with Inr assms parse_v1_payload [of t opts bytes] parse_v2_payload [of opts t bytes] show ?thesis
    by (auto simp: NewWithOptions_cases new_version_def one split: if_splits)
qed

theorem NewWithOptions_manifest_witness:
  "case NewWithOptions sample_time (Some ''0123456789abcdef'') sample_options of
      Inl e \<Rightarrow> no_ManifestVersion sample_options \<notin> {0, 1, 2, 3}
    | Inr b \<Rightarrow> no_ManifestVersion sample_options \<in> {0, 1, 2, 3} \<and> Verify b = None \<and> length (Records b) = 1 \<and>
        ManifestE b = Inr \<lparr>md_Version = new_version sample_options, md_CreatedAt = sample_time,
          md_BundleID = hex_encode ''0123456789abcdef'', md_CaptureRunID = no_CaptureRunID sample_options\<rparr>"
  by (rule NewWithOptions_manifest) (simp_all add: valid_utf8_sample_time sample_options_def, simp add: sample_time_def)

text \<open>C11: appending to a bundle that verifies gives a bundle that verifies; the old records stay as they are, the new
  one has the next sequence number, links to the last hash and carries the given type and payload.\<close>

theorem append_keeps_chain:
  assumes "Verify b = None" "AppendWithOptions b ty d o' = Inr b'"
  shows "Verify b' = None \<and> (\<exists>r. Records b' = Records b @ [r] \<and>
    Sequence (Event r) = first_seq (Records b') + int (length (Records b)) \<and>
    PrevHash (Event r) = (if Records b = [] then GenesisHash else Hash (last (Records b))) \<and>
    Type (Event r) = ty \<and> Data (Event r) = d)"
proof -
  define e where "e = next_event b ty d o'"
  from assms(2) have g: "ty = ManifestEventType \<longrightarrow> Records b = []"
    and b': "Records b' = Records b @ [new_record e (event_hash e)]" by (auto simp: AppendWithOptions_Inr e_def)
  have "Sequence e = first_seq (Records b') + int (length (Records b))"
    unfolding b' e_def by (rule next_event_Sequence [OF g])
  with b' append_verifies [OF assms] show ?thesis by (auto simp: new_record_def e_def)
qed

theorem append_keeps_chain_witness:
  "Verify sample_bundle = None \<and> (\<exists>r. Records sample_bundle = Records sample_first @ [r] \<and>
    Sequence (Event r) = first_seq (Records sample_bundle) + int (length (Records sample_first)) \<and>
    PrevHash (Event r) = (if Records sample_first = [] then GenesisHash else Hash (last (Records sample_first))) \<and>
    Type (Event r) = ''ai.tool.exec'' \<and> Data (Event r) = AString ''ls'')"
  by (rule append_keeps_chain [OF sample_verifies(2) sample_append])

definition bundle_head :: "atb_bundle \<Rightarrow> string" where
  \<comment> \<open>the hash of the last record\<close>
  "bundle_head b = (if Records b = [] then GenesisHash else Hash (last (Records b)))"

lemma numbered_encodable: "numbered n es \<Longrightarrow> e \<in> set es \<Longrightarrow> encodable e"
  by (induction es arbitrary: n) auto

lemma Marshal_encodable: "encodable e \<Longrightarrow> Marshal event_marshal e = Inr (event_body e)"
  by (auto simp: encodable_def is_ok_iff event_body_def)

lemma verified_same_head:
  assumes "Verify b = None" "Verify b' = None" "bundle_head b = bundle_head b'"
  shows "list_all2 (\<lambda>r r'. Hash r = Hash r' \<and> PrevHash (Event r) = PrevHash (Event r') \<and>
      Marshal event_marshal (Event r) = Marshal event_marshal (Event r')) (Records b) (Records b') \<or>
    (\<exists>r\<in>set (Records b). \<exists>r'\<in>set (Records b').
       collide digest (PrevHash (Event r) @ event_body (Event r)) (PrevHash (Event r') @ event_body (Event r'))) \<or>
    (\<exists>r\<in>set (Records b) \<union> set (Records b'). digest (PrevHash (Event r) @ event_body (Event r)) = GenesisHash)"
proof -
  have lk: "linked_events GenesisHash (pairs (Records b))" "linked_events GenesisHash (pairs (Records b'))"
    using assms(1,2) by (auto simp: Verify_None)
  have enc: "encodable (Event r)" if "r \<in> set (Records b) \<or> r \<in> set (Records b')" for r
    using assms(1,2) that numbered_encodable [of _ _ "Event r"] by (auto simp: Verify_None)
  have hd: "chain_head snd GenesisHash (pairs (Records b)) = chain_head snd GenesisHash (pairs (Records b'))"
    using assms(3) by (simp add: pairs_head bundle_head_def)
  have agree: "list_all2 (\<lambda>r r'. Hash r = Hash r' \<and> PrevHash (Event r) = PrevHash (Event r') \<and>
      Marshal event_marshal (Event r) = Marshal event_marshal (Event r')) (Records b) (Records b')"
    if "list_all2 (\<lambda>x y. PrevHash (fst x) = PrevHash (fst y) \<and> event_body (fst x) = event_body (fst y) \<and> snd x = snd y)
      (pairs (Records b)) (pairs (Records b'))"
    using that enc by (auto simp: list_all2_conv_all_nth Marshal_encodable)
  from events.same_head [OF lk hd] show ?thesis
  proof (elim disjE)
    assume "\<exists>x\<in>set (pairs (Records b)). \<exists>y\<in>set (pairs (Records b')).
      collide digest (PrevHash (fst x) @ event_body (fst x)) (PrevHash (fst y) @ event_body (fst y))"
    then show ?thesis by auto
  next
    assume "\<exists>x\<in>set (pairs (Records b)) \<union> set (pairs (Records b')).
      digest (PrevHash (fst x) @ event_body (fst x)) = GenesisHash"
    then show ?thesis by auto
  qed (use agree in blast)
qed

text \<open>C1: two bundles that verify and have the same last hash hold the same records: the same hashes and the same
  canonical events, position by position. Otherwise their own records exhibit a SHA-256 collision or an
  event that hashes to the genesis constant.\<close>

theorem bundle_tamper_evident:
  assumes "Verify b = None" "Verify b' = None" "bundle_head b = bundle_head b'"
  shows "list_all2 (\<lambda>r r'. Hash r = Hash r' \<and> PrevHash (Event r) = PrevHash (Event r') \<and>
      Marshal event_marshal (Event r) = Marshal event_marshal (Event r')) (Records b) (Records b') \<or>
    (\<exists>r\<in>set (Records b). \<exists>r'\<in>set (Records b').
       collide digest (PrevHash (Event r) @ event_body (Event r)) (PrevHash (Event r') @ event_body (Event r'))) \<or>
    (\<exists>r\<in>set (Records b) \<union> set (Records b'). digest (PrevHash (Event r) @ event_body (Event r)) = GenesisHash)"
  by (rule verified_same_head [OF assms])

theorem bundle_tamper_evident_witness:
  "list_all2 (\<lambda>r r'. Hash r = Hash r' \<and> PrevHash (Event r) = PrevHash (Event r') \<and>
      Marshal event_marshal (Event r) = Marshal event_marshal (Event r')) (Records sample_bundle) (Records sample_bundle) \<or>
    (\<exists>r\<in>set (Records sample_bundle). \<exists>r'\<in>set (Records sample_bundle).
       collide digest (PrevHash (Event r) @ event_body (Event r)) (PrevHash (Event r') @ event_body (Event r'))) \<or>
    (\<exists>r\<in>set (Records sample_bundle) \<union> set (Records sample_bundle).
       digest (PrevHash (Event r) @ event_body (Event r)) = GenesisHash)"
  by (rule bundle_tamper_evident [OF sample_verifies(1) sample_verifies(1) refl])

section \<open>Properties of saving and loading\<close>

definition saveable :: "load_limits \<Rightarrow> atb_bundle \<Rightarrow> bool" where
  \<comment> \<open>every event has an encoding, no line is too long or too deeply nested and there are not too many of them\<close>
  "saveable limits b =
     (list_all (\<lambda>r. wire_ok (Event r) \<and> short_line r \<and> json_depth (the (record_json r)) \<le> maxNestingDepth) (Records b) \<and>
      int (length (Records b)) \<le> MaxRecords limits)"

lemma save_lines_Some: "list_all (\<lambda>r. wire_ok (Event r)) rs \<Longrightarrow> \<exists>raw. save_lines rs = Some raw"
  by (induction rs) (auto simp: wire_ok_def record_json_def)

lemma saveable_parts:
  assumes "saveable limits b"
  shows "list_all (\<lambda>r. wire_ok (Event r)) (Records b)" "list_all (\<lambda>r. wire_ok (Event r) \<and> short_line r) (Records b)"
    "int (length (Records b)) \<le> MaxRecords limits"
  using assms by (auto simp: saveable_def list_all_iff)

lemma load_saved:
  assumes "saveable limits b" "save_lines (Records b) = Some raw"
    and "0 < MaxBytes limits" "0 < MaxRecords limits" "int (length raw) \<le> MaxBytes limits" "\<And>k. br k \<le> MaxBytes limits"
  shows "LoadReaderWithLimits limits br raw =
    (let recs = bind_all [] (Records b)
     in if hasManifestRecord recs
        then case parseManifestData (hd recs) of Inl e \<Rightarrow> Inl (LoadManifest e) | Inr _ \<Rightarrow> Inr \<lparr>Records = recs\<rparr>
        else Inr \<lparr>Records = recs\<rparr>)"
proof -
  have "load_loop limits br 0 (raw_lines raw) [] new_tracker = Inr ([] @ bind_all [] (Records b))"
    by (rule load_loop_saved [OF assms(2) saveable_parts(2) [OF assms(1)] tracks_new])
      (use assms saveable_parts(3) [OF assms(1)] in auto)
  with assms show ?thesis by (auto simp: LoadReaderWithLimits_def Let_def split: sum.splits)
qed

lemma wire_event_payload:
  assumes "to_json (Data e) = Some d" "to_any (coerce_json d) = Some w" "int64 (Sequence e)"
  shows "wire_event e = coerce_event e w"
proof -
  have "decode_event (JObject (event_members (coerce_event e w) (coerce_json d))) zero_event =
      Some ((coerce_event e w)\<lparr>Data := w\<rparr>)"
    using assms(3) by (intro decode_event_members [OF assms(2)]) (simp_all add: int64_def)
  then show ?thesis
    using assms(1) by (simp add: wire_event_def event_json_def coerce_event_members [of e d w]) (simp add: coerce_event_def)
qed

lemma valid_literal_append: "list_all (\<lambda>c. ord c < 0x80) s \<Longrightarrow> valid_utf8 t \<Longrightarrow> valid_utf8 (s @ t)"
  by (rule valid_append [OF valid_utf8_literal])

lemma valid_manifest_text: "valid_utf8 (render_html (manifest_json m))"
proof -
  have c: "valid_utf8 (c # t)" if "ord c < 0x80" "valid_utf8 t" for c t
    using valid_literal_append [of "[c]" t] that by simp
  have n: "valid_utf8 []" by (rule valid_utf8_literal) simp
  show ?thesis
    by (simp add: manifest_json_def omit_string_def render_html_def del: html_body.simps)
      (intro conjI impI c valid_append html_body_valid n; simp)
qed

lemma wire_v1_payload:
  assumes "Data e = v1_payload t bytes opts" "int64 (Sequence e)"
  shows "Data (wire_event e) = Data e"
  using wire_event_payload [of e "JString (render_html (manifest_json \<lparr>md_Version = ''1'', md_CreatedAt = t,
      md_BundleID = hex_encode bytes, md_CaptureRunID = no_CaptureRunID opts\<rparr>))"] assms valid_manifest_text
  by (simp add: v1_payload_def coerce_event_def)

definition v2_decoded :: "string \<Rightarrow> string \<Rightarrow> new_options \<Rightarrow> any" where
  \<comment> \<open>the structured payload as it is read back: the keys sorted, the version a number\<close>
  "v2_decoded createdAt bytes opts =
     AMap ([(''bundle_id'', AString (hex_encode bytes))] @
       (if no_CaptureRunID opts \<noteq> [] then [(''capture_run_id'', AString (no_CaptureRunID opts))] else []) @
       [(''created_at'', AString createdAt), (''version'', AFloat (Fin False (rat_of_int (no_ManifestVersion opts))))])"

lemma wire_v2_payload:
  assumes "Data e = v2_payload t bytes opts" "int64 (Sequence e)" "no_ManifestVersion opts \<in> {2, 3}"
    and "valid_utf8 t" "valid_utf8 (no_CaptureRunID opts)"
  shows "Data (wire_event e) = v2_decoded t bytes opts"
proof -
  define d where "d = JObject ([(''bundle_id'', JString (hex_encode bytes))] @
       (if no_CaptureRunID opts \<noteq> [] then [(''capture_run_id'', JString (no_CaptureRunID opts))] else []) @
       [(''created_at'', JString t), (''version'', JNumber (show_int (no_ManifestVersion opts)))])"
  have u: "valid_utf8 (hex_encode bytes)" by (rule valid_utf8_literal [OF ascii_hex_encode])
  have k: "valid_utf8 ''version''" "valid_utf8 ''created_at''" "valid_utf8 ''bundle_id''" "valid_utf8 ''capture_run_id''"
    by (rule valid_utf8_literal, simp)+
  have n: "ParseFloat (show_int 2) = Some (Fin False 2)" "ParseFloat (show_int 3) = Some (Fin False 3)" by code_simp+
  have "to_json (v2_payload t bytes opts) = Some d"
    by (simp add: v2_payload_def d_def)
  moreover have "to_any (coerce_json d) = Some (v2_decoded t bytes opts)"
    using assms(3-5) u k n by (auto simp: d_def v2_decoded_def)
  ultimately show ?thesis using wire_event_payload [of e d] assms by (simp add: coerce_event_def)
qed

lemma built_first:
  assumes "built b"
  obtains t bytes opts where "t \<noteq> []" "valid_utf8 t" "valid_utf8 (no_CaptureRunID opts)" "bytes \<noteq> []"
    and "no_ManifestVersion opts \<in> {0, 1} \<and> hd (Records b) = hd (Records (first_bundle (v1_payload t bytes opts) t)) \<or>
      no_ManifestVersion opts \<in> {2, 3} \<and> hd (Records b) = hd (Records (first_bundle (v2_payload t bytes opts) t))"
  using assms
proof (induction arbitrary: thesis rule: built.induct)
  case (built_new t rnd opts b)
  then obtain bytes where r: "rnd = Some bytes" "bytes \<noteq> []" by (cases rnd) (auto simp: NewWithOptions_def)
  with built_new.hyps(1) have "no_ManifestVersion opts \<in> {0, 1} \<and> b = first_bundle (v1_payload t bytes opts) t \<or>
      no_ManifestVersion opts \<in> {2, 3} \<and> b = first_bundle (v2_payload t bytes opts) t"
    by (auto simp: NewWithOptions_cases split: if_splits)
  with built_new.hyps r show ?case by (intro built_new.prems [of t opts bytes]) auto
next
  case (built_append b ty d o' b')
  have "Records b \<noteq> []" using built_inv [OF built_append.hyps(1)] by (auto simp: hasManifestRecord_def)
  then have "hd (Records b') = hd (Records b)" using built_append.hyps(2) by (auto simp: AppendWithOptions_Inr)
  then show ?case using built_append.IH built_append.prems by metis
qed

lemma parse_wired:
  assumes "Type (Event r) = ManifestEventType" "Type (Event r') = ManifestEventType"
    and "Data (Event r) = v2_payload t bytes opts" "Data (Event r') = v2_decoded t bytes opts"
    and "no_ManifestVersion opts \<in> {2, 3}"
  shows "parseManifestData r' = parseManifestData r"
proof -
  have "int_of_float (Fin False 2) = 2" "int_of_float (Fin False 3) = 3" by (simp_all add: int_of_float_def int64_def)
  then show ?thesis
    using assms by (auto simp: parseManifestData_def v2_payload_def v2_decoded_def field_def field_string_def
        ManifestVersionMax_def parseManifestDataV2_def Let_def)
qed

text \<open>The manifest of a bundle a program built reads the same after the bundle was saved and loaded.\<close>

lemma built_manifest_kept:
  assumes "built b" "list_all (\<lambda>r. wire_ok (Event r)) (Records b)"
  shows "ManifestE \<lparr>Records = bind_all [] (Records b)\<rparr> = ManifestE b"
proof -
  define r where "r = hd (Records b)"
  obtain rs where b: "Records b = r # rs" and man: "hasManifestRecord (Records b)"
    using built_inv [OF assms(1)] by (cases "Records b") (auto simp: hasManifestRecord_def r_def)
  have w: "wire_ok (Event r)" and ty: "Type (Event r) = ManifestEventType"
    using assms(2) b man by (auto simp: hasManifestRecord_def)
  have man': "hasManifestRecord (bind_all [] (Records b))" using hasManifestRecord_bind_all [OF assms(2)] man by simp
  define r' where "r' = hd (bind_all [] (Records b))"
  have ev: "Event r' = wire_event (Event r)" by (simp add: r'_def b wire_record_def new_record_def)
  have ty': "Type (Event r') = ManifestEventType"
    unfolding ev using Type_wire_event [OF w, of ManifestEventType] ty by (simp add: ManifestEventType_def)
  have i: "int64 (Sequence (Event r))" using w by (simp add: wire_ok_def)
  have "parseManifestData r' = parseManifestData r"
    using assms(1)
  proof (rule built_first)
    fix t bytes opts
    assume v: "valid_utf8 t" "valid_utf8 (no_CaptureRunID opts)"
      and "no_ManifestVersion opts \<in> {0, 1} \<and> hd (Records b) = hd (Records (first_bundle (v1_payload t bytes opts) t)) \<or>
      no_ManifestVersion opts \<in> {2, 3} \<and> hd (Records b) = hd (Records (first_bundle (v2_payload t bytes opts) t))"
    then consider "Data (Event r) = v1_payload t bytes opts"
      | "no_ManifestVersion opts \<in> {2, 3}" "Data (Event r) = v2_payload t bytes opts"
      by (auto simp: r_def)
    then show ?thesis
    proof cases
      case 1
      have "Data (Event r') = Data (Event r)" unfolding ev by (rule wire_v1_payload [OF 1 i])
      then show ?thesis unfolding parseManifestData_def using ty ty' by (simp only:)
    next
      case 2
      show ?thesis
        by (rule parse_wired [OF ty ty' 2(2) _ 2(1)]) (simp add: ev wire_v2_payload [OF 2(2) i 2(1) v])
    qed
  qed
  with man man' show ?thesis by (simp add: ManifestE_def r_def r'_def)
qed

lemma load_built:
  assumes "built b" "saveable limits b" "save_lines (Records b) = Some raw"
    and "0 < MaxBytes limits" "0 < MaxRecords limits" "int (length raw) \<le> MaxBytes limits" "\<And>k. br k \<le> MaxBytes limits"
  shows "LoadReaderWithLimits limits br raw = Inr \<lparr>Records = bind_all [] (Records b)\<rparr>"
  using load_saved [OF assms(2-6), of br] assms(7) built_manifest_kept [OF assms(1) saveable_parts(1) [OF assms(2)]]
    built_inv [OF assms(1)]
  by (auto simp: Let_def ManifestE_def split: if_splits)

lemma bind_all_Hash:
  assumes "Verify b = None"
  shows "map Hash (bind_all p (Records b)) = map Hash (Records b)"
proof -
  have hash: "coerce_utf8 (Hash r) = Hash r" if "r \<in> set (Records b)" for r
  proof -
    have "Hash r = digest (PrevHash (Event r) @ event_body (Event r))"
      using assms(1) that events.linked_nth [of GenesisHash "pairs (Records b)"]
      by (fastforce simp: Verify_None in_set_conv_nth)
    then show ?thesis using valid_utf8_digest by simp
  qed
  have "map Hash (bind_all p rs) = map Hash rs" if "\<forall>r\<in>set rs. coerce_utf8 (Hash r) = Hash r" for rs
    using that by (induction rs arbitrary: p) (simp_all add: wire_record_def new_record_def)
  with hash show ?thesis by blast
qed

lemma bind_all_event_body:
  "list_all (\<lambda>r. wire_ok (Event r)) rs \<Longrightarrow>
     map (\<lambda>r. event_body (Event r)) (bind_all p rs) = map (\<lambda>r. event_body (Event r)) rs"
proof (induction rs arbitrary: p)
  case (Cons r rs)
  then show ?case using wire_event_spec [of "Event r"] by (auto simp: wire_record_def new_record_def)
qed simp

text \<open>The saved text of the sample bundle is far below the limits.\<close>

definition sample_json :: json where
  "sample_json = the (record_json (hd (Records sample_first)))"

lemma sample_first_wire: "wire_ok (Event (hd (Records sample_first)))"
  by (simp add: wire_ok_def sample_first_def first_bundle_def next_event_def Let_def new_record_def event_json_def
      int64_def v2_payload_def sample_options_def)

lemma sample_payload:
  "to_json (v2_payload sample_time ''0123456789abcdef'' sample_options) =
     Some (JObject [(''bundle_id'', JString ''30313233343536373839616263646566''),
       (''created_at'', JString ''2025-01-01T00:00:00Z''), (''version'', JNumber ''3'')])"
  by code_simp

lemma sample_text_short: "length (render_html sample_json) \<le> 3000"
proof -
  have "length (event_hash e) = 64" for e by (simp add: event_hash_def)
  moreover have "show_int 0 = ''0''" by code_simp
  ultimately have "text_bound sample_json \<le> 3000"
    using sample_payload
    by (simp add: sample_json_def record_json_def sample_first_def first_bundle_def next_event_def Let_def new_record_def
        event_json_def event_members_def apply_options_def zero_event_def timestamp_options_def omit_string_def omit_ptr_def
        sample_time_def ManifestEventType_def)
  then show ?thesis using length_render(1) [OF refl, of sample_json] by (simp add: render_html_def)
qed

definition default_limits :: load_limits where
  "default_limits = \<lparr>MaxBytes = MaxBundleSizeBytes, MaxRecords = MaxBundleRecords\<rparr>"

definition sample_text :: string where
  "sample_text = render_html sample_json @ [CHR 0x0A]"

lemma sample_records: "Records sample_first = [hd (Records sample_first)]"
  by (simp add: sample_first_def first_bundle_def Let_def)

lemma sample_record_json: "record_json (hd (Records sample_first)) = Some sample_json"
  using sample_first_wire by (auto simp: sample_json_def record_json_def wire_ok_def)

lemma sample_save: "save_lines (Records sample_first) = Some sample_text"
  by (subst sample_records) (simp add: sample_record_json sample_text_def)

lemma sample_depth: "json_depth sample_json \<le> 10000"
  using sample_payload
  by (simp add: sample_json_def record_json_def sample_first_def first_bundle_def next_event_def Let_def new_record_def
        event_json_def event_members_def apply_options_def zero_event_def timestamp_options_def omit_string_def omit_ptr_def
        sample_time_def ManifestEventType_def)

lemma sample_saveable: "saveable default_limits sample_first"
  using sample_text_short sample_depth
  by (subst saveable_def, subst (1 2) sample_records)
    (simp add: sample_first_wire short_line_def sample_record_json default_limits_def MaxLineSizeBytes_def MaxBundleRecords_def maxNestingDepth_def)

lemma sample_text_limit: "int (length sample_text) \<le> MaxBytes default_limits" "0 < MaxBytes default_limits" "0 < MaxRecords default_limits"
  using sample_text_short by (simp_all add: sample_text_def default_limits_def MaxBundleSizeBytes_def MaxBundleRecords_def)

lemma sample_saved:
  "saveUnlocked (\<lambda>_. True) sample_first = Inr (\<lparr>Records = setSourcePrefixHashes (Records sample_first) sample_text\<rparr>, sample_text)"
  by (cases sample_first) (use sample_save in \<open>simp add: saveUnlocked_def\<close>)

text \<open>C3: a bundle the program built, saved and loaded again, loads and verifies again: the loaded bundle has the same
  manifest, its records carry the same hashes and events with the same canonical texts, and every
  signature is bound to the same source bytes as in the bundle in memory after saving. It is assumed
  that every event encodes, that no saved line is longer than a line may be or nested deeper than the
  scanner reads, and that the text stays within the limits of the load.\<close>

theorem save_load_verifies:
  assumes "built b" "saveable limits b" "0 < MaxBytes limits" "0 < MaxRecords limits"
    and "saveUnlocked (\<lambda>_. True) b = Inr (b', raw)"
    and "int (length raw) \<le> MaxBytes limits" "\<forall>k. br k \<le> MaxBytes limits"
  shows "\<exists>b2. LoadReaderWithLimits limits br raw = Inr b2 \<and> Verify b2 = None \<and> ManifestE b2 = ManifestE b \<and>
       map Hash (Records b2) = map Hash (Records b) \<and>
       map (\<lambda>r. event_body (Event r)) (Records b2) = map (\<lambda>r. event_body (Event r)) (Records b) \<and>
       map SourcePrefixHashes (Records b2) = map SourcePrefixHashes (Records b')"
proof -
  from assms(5) have raw: "save_lines (Records b) = Some raw" and b': "Records b' = setSourcePrefixHashes (Records b) raw"
    by (auto simp: saveUnlocked_def split: option.splits)
  note w = saveable_parts(1) [OF assms(2)] and v = conjunct1 [OF built_inv [OF assms(1)]]
  have "LoadReaderWithLimits limits br raw = Inr \<lparr>Records = bind_all [] (Records b)\<rparr>"
    by (rule load_built [OF assms(1,2) raw assms(3,4,6)]) (use assms(7) in blast)
  then show ?thesis
    using Verify_bind_all [OF v w] built_manifest_kept [OF assms(1) w] bind_all_Hash [OF v] bind_all_event_body [OF w]
      save_prefix_hashes [OF raw w] b'
    by simp
qed

theorem save_load_verifies_witness:
  "\<exists>b2. LoadReaderWithLimits default_limits (\<lambda>_. 0) sample_text = Inr b2 \<and> Verify b2 = None \<and>
       ManifestE b2 = ManifestE sample_first \<and>
       map Hash (Records b2) = map Hash (Records sample_first) \<and>
       map (\<lambda>r. event_body (Event r)) (Records b2) = map (\<lambda>r. event_body (Event r)) (Records sample_first) \<and>
       map SourcePrefixHashes (Records b2) =
         map SourcePrefixHashes (Records \<lparr>Records = setSourcePrefixHashes (Records sample_first) sample_text\<rparr>)"
  by (rule save_load_verifies [OF sample_built(1) sample_saveable sample_text_limit(2,3) sample_saved sample_text_limit(1)])
    (simp add: sample_text_limit(2) less_imp_le)

lemma IndexByte_before: "IndexByte s c = Some i \<Longrightarrow> c \<notin> set (take i s)"
  by (induction s c arbitrary: i rule: IndexByte.induct) (auto split: if_splits)

lemma IndexByte_absent: "IndexByte s c = None \<Longrightarrow> c \<notin> set s"
  by (induction s c rule: IndexByte.induct) (auto split: if_splits)

text \<open>The tokens of the loader are the lines of the text: each starts at the beginning or after a line feed, holds
  no line feed before its end, and ends with one unless it is the last.\<close>

lemma raw_lines_boundary:
  "raw_lines d = a @ l # c \<Longrightarrow> l \<noteq> [] \<and> (concat a = [] \<or> last (concat a) = CHR 0x0A) \<and>
     CHR 0x0A \<notin> set (butlast l) \<and> (c = [] \<or> last l = CHR 0x0A)"
proof (induction d arbitrary: a rule: raw_lines.induct)
  case (1 d)
  show ?case
  proof (cases "IndexByte d (CHR 0x0A)")
    case None
    then have "raw_lines d = (if d = [] then [] else [d])"
      by (subst raw_lines.simps) (simp add: scanRawLines_def raw_lines.simps [of "[]"])
    then show ?thesis
      using "1.prems" IndexByte_absent [OF None] by (cases a) (auto split: if_splits dest: in_set_butlastD)
  next
    case (Some i)
    then have d: "d \<noteq> []" and r: "raw_lines d = take (i + 1) d # raw_lines (drop (i + 1) d)"
      by (auto simp: raw_lines.simps [of d] scanRawLines_def)
    have t: "take (i + 1) d = take i d @ [CHR 0x0A]" using IndexByte_Some [OF Some] by (simp add: take_Suc_conv_app_nth)
    show ?thesis
    proof (cases a)
      case Nil
      then show ?thesis using "1.prems" r t IndexByte_before [OF Some] by auto
    next
      case (Cons x a')
      with "1.prems" r have x: "x = take (i + 1) d" "raw_lines (drop (i + 1) d) = a' @ l # c" by auto
      have "l \<noteq> [] \<and> (concat a' = [] \<or> last (concat a') = CHR 0x0A) \<and> CHR 0x0A \<notin> set (butlast l) \<and>
          (c = [] \<or> last l = CHR 0x0A)"
        using "1.IH" [of "i + 1" "Some (take (i + 1) d)" _ a'] Some d x(2) by (simp add: scanRawLines_def)
      then show ?thesis using Cons x(1) t by auto
    qed
  qed
qed

lemma bind_prefix_fields:
  "Event (bind_prefix p r) = Event r" "Hash (bind_prefix p r) = Hash r"
  "Type (Event r) = TypeBundleSignature \<Longrightarrow> SourcePrefixHashes (bind_prefix p r) = prefix_hashes p"
  by (auto simp: bind_prefix_def SourcePrefixHashes_def split: prod.splits)

text \<open>C12: every record of a loaded bundle was decoded from one line of the input, and a signature record carries the
  SHA-256 of exactly the bytes before that line, the line feed that ends the previous line included. When
  these bytes end in a single line feed it also carries their SHA-256 without it, otherwise no second hash.\<close>

theorem load_signature_binding:
  assumes "LoadReaderWithLimits limits br raw = Inr b" "r \<in> set (Records b)"
  shows "\<exists>before line rest r0. raw = before @ line @ rest \<and> line \<noteq> [] \<and> CHR 0x0A \<notin> set (butlast line) \<and>
    (before = [] \<or> last before = CHR 0x0A) \<and> (rest = [] \<or> last line = CHR 0x0A) \<and>
    decode_record (trim_line line) = Some r0 \<and> Event r = Event r0 \<and> Hash r = Hash r0 \<and>
    (if Type (Event r) = TypeBundleSignature
     then sourcePrefixHash r = Sum256 before \<and>
       (if 1 < length before \<and> before ! (length before - 2) \<noteq> CHR 0x0A
        then sourcePrefixWithoutLFPresent r \<and> sourcePrefixWithoutLFHash r = Sum256 (butlast before)
        else \<not> sourcePrefixWithoutLFPresent r \<and> sourcePrefixWithoutLFHash r = [])
     else r = r0)"
proof -
  from load_loop_records [OF LoadReaderWithLimits_Inr(1) [OF assms(1)] tracks_new assms(2)]
  obtain a l c r0 where l: "raw_lines raw = a @ l # c" "decode_record (trim_line l) = Some r0" "r = bind_prefix (concat a) r0"
    by auto
  obtain p q where p: "p = concat a" "q = concat c" by blast
  have b: "l \<noteq> []" "p = [] \<or> last p = CHR 0x0A" "CHR 0x0A \<notin> set (butlast l)" "q = [] \<or> last l = CHR 0x0A"
    using raw_lines_boundary [OF l(1)] p by auto
  have raw: "raw = p @ l @ q" using concat_raw_lines [of raw] l(1) p by simp
  have r: "r = bind_prefix p r0" using l(3) p by simp
  have "if Type (Event r) = TypeBundleSignature
     then sourcePrefixHash r = Sum256 p \<and>
       (if 1 < length p \<and> p ! (length p - 2) \<noteq> CHR 0x0A
        then sourcePrefixWithoutLFPresent r \<and> sourcePrefixWithoutLFHash r = Sum256 (butlast p)
        else \<not> sourcePrefixWithoutLFPresent r \<and> sourcePrefixWithoutLFHash r = [])
     else r = r0"
    using b(2) r by (auto simp: prefix_hashes_def bind_prefix_def split: if_splits)
  then show ?thesis
    using raw b l(2) bind_prefix_fields(1,2) [where p = p and r = r0] r
    by (intro exI [of _ p] exI [of _ l] exI [of _ q] exI [of _ r0]) simp
qed

definition signed_text :: string where
  \<comment> \<open>an empty record, a line feed and a signature record\<close>
  "signed_text = ''{}'' @ [CHR 0x0A] @ ''{'' @ quoted ''event'' @ '':{'' @ quoted ''type'' @ '':'' @ quoted TypeBundleSignature @ ''}}''"

definition signed_record :: bundle_record where
  "signed_record = bind_prefix (''{}'' @ [CHR 0x0A]) (zero_record\<lparr>Event := zero_event\<lparr>Type := TypeBundleSignature\<rparr>\<rparr>)"

lemma signed_text_loads:
  "LoadReaderWithLimits default_limits (\<lambda>_. 2) signed_text = Inr \<lparr>Records = [zero_record, signed_record]\<rparr>"
proof -
  define l where "l = ''{'' @ quoted ''event'' @ '':{'' @ quoted ''type'' @ '':'' @ quoted TypeBundleSignature @ ''}}''"
  have d: "decode_record ''{}'' = Some zero_record"
    "decode_record l = Some (zero_record\<lparr>Event := zero_event\<lparr>Type := TypeBundleSignature\<rparr>\<rparr>)"
    unfolding l_def by code_simp+
  have r: "raw_lines signed_text = [''{}'' @ [CHR 0x0A], l]" "trim_line (''{}'' @ [CHR 0x0A]) = ''{}''" "trim_line l = l"
    "length l = 41" "length signed_text = 44" "last l = CHR ''}''"
    unfolding l_def by code_simp+
  have ne: "l \<noteq> []" using r(4) by auto
  have tr: "tracks (tracker_add new_tracker (''{}'' @ [CHR 0x0A])) (''{}'' @ [CHR 0x0A])"
    using tracks_add [OF tracks_new, of "''{}'' @ [CHR 0x0A]"] by simp
  have z: "set_snapshot new_tracker zero_record = zero_record"
    by (simp add: set_snapshot_def zero_record_def new_record_def zero_event_def TypeBundleSignature_def)
  show ?thesis
    unfolding LoadReaderWithLimits_def r(1)
    using d r ne z set_snapshot_tracks [OF tr]
    by (simp add: default_limits_def MaxBundleSizeBytes_def MaxBundleRecords_def token_fits_def Let_def
        MaxLineSizeBytes_def signed_record_def hasManifestRecord_def ManifestEventType_def)
      (simp add: zero_record_def new_record_def zero_event_def)
qed

theorem load_signature_binding_witness:
  "\<exists>before line rest r0. signed_text = before @ line @ rest \<and> line \<noteq> [] \<and> CHR 0x0A \<notin> set (butlast line) \<and>
    (before = [] \<or> last before = CHR 0x0A) \<and> (rest = [] \<or> last line = CHR 0x0A) \<and>
    decode_record (trim_line line) = Some r0 \<and> Event signed_record = Event r0 \<and> Hash signed_record = Hash r0 \<and>
    sourcePrefixHash signed_record = Sum256 before"
proof -
  have ty: "Type (Event signed_record) = TypeBundleSignature" by (simp add: signed_record_def bind_prefix_fields(1))
  have "signed_record \<in> set (Records \<lparr>Records = [zero_record, signed_record]\<rparr>)" by simp
  from load_signature_binding [OF signed_text_loads this] ty show ?thesis by (simp only: if_True simp_thms) blast
qed

text \<open>C13: what a verified load guarantees: a manifest first and parsable, an unbroken chain numbered from 0, and no more
  bytes and records than the limits allow.\<close>

theorem LoadVerified_sound:
  assumes "LoadVerified br raw = Inr b"
  shows "hasManifestRecord (Records b) \<and> is_ok (ManifestE b) \<and> Verify b = None \<and>
    (\<forall>i<length (Records b). Sequence (Event (Records b ! i)) = int i) \<and>
    int (length (Records b)) \<le> MaxBundleRecords \<and> int (length raw) \<le> MaxBundleSizeBytes"
proof -
  from assms have l: "LoadReader br raw = Inr b" and ne: "Records b \<noteq> []"
    and ty: "Type (Event (hd (Records b))) = ManifestEventType" and v: "Verify b = None"
    by (auto simp: LoadVerified_def split: if_splits option.splits)
  have man: "hasManifestRecord (Records b)" using ne ty by (cases "Records b") (auto simp: hasManifestRecord_def)
  note L = LoadReaderWithLimits_Inr [OF l [unfolded LoadReader_def]]
  have "int (length (Records b)) \<le> MaxBundleRecords" using load_loop_count [OF L(1)] L(3) by simp
  moreover have "Sequence (Event (Records b ! i)) = int i" if "i < length (Records b)" for i
    using v numbered_nth [of 0 "map Event (Records b)" i] that man by (simp add: Verify_None first_seq_def)
  ultimately show ?thesis using L(2,4) man v by (simp add: ManifestE_def)
qed

definition sample_decoded :: any where
  "sample_decoded = AMap [(''bundle_id'', AString ''30313233343536373839616263646566''),
     (''created_at'', AString ''2025-01-01T00:00:00Z''), (''version'', AFloat (Fin False 3))]"

lemma sample_wire_data: "Data (wire_event (Event (hd (Records sample_first)))) = sample_decoded"
proof -
  define d where "d = JObject [(''bundle_id'', JString ''30313233343536373839616263646566''),
    (''created_at'', JString ''2025-01-01T00:00:00Z''), (''version'', JNumber ''3'')]"
  have "to_any (coerce_json d) = Some sample_decoded" unfolding d_def by code_simp
  moreover have "to_json (Data (Event (hd (Records sample_first)))) = Some d"
    using sample_payload by (simp add: sample_first_def d_def)
  ultimately show ?thesis
    using wire_event_payload [of "Event (hd (Records sample_first))" d] sample_first_wire
    by (simp add: wire_ok_def coerce_event_def)
qed

lemma sample_loads: "LoadVerified (\<lambda>_. 0) sample_text = Inr \<lparr>Records = bind_all [] (Records sample_first)\<rparr>"
proof -
  define recs where "recs = bind_all [] (Records sample_first)"
  have recs: "recs = [bind_prefix [] (wire_record (hd (Records sample_first)))]"
    unfolding recs_def by (subst sample_records) simp
  have ev: "Event (hd recs) = wire_event (Event (hd (Records sample_first)))" by (simp add: recs wire_record_def new_record_def)
  have ty: "Type (Event (hd recs)) = ManifestEventType"
    unfolding ev using Type_wire_event [OF sample_first_wire, of ManifestEventType]
    by (simp add: sample_first_def) (simp add: ManifestEventType_def)
  have man: "hasManifestRecord recs" using ty by (simp add: recs hasManifestRecord_def)
  have "is_ok (parseManifestData (hd recs))"
  proof -
    have "int_of_float (Fin False 3) = 3" by (simp add: int_of_float_def int64_def)
    then show ?thesis
      using ty sample_wire_data
      by (simp add: parseManifestData_def ev sample_decoded_def field_def field_string_def ManifestVersionMax_def
          parseManifestDataV2_def Let_def)
  qed
  then have "LoadReaderWithLimits default_limits (\<lambda>_. 0) sample_text = Inr \<lparr>Records = recs\<rparr>"
    using load_saved [OF sample_saveable sample_save sample_text_limit(2,3,1), of "\<lambda>_. 0"] man sample_text_limit(2)
    by (auto simp: recs_def [symmetric] Let_def is_ok_iff less_imp_le)
  moreover have "Verify \<lparr>Records = recs\<rparr> = None"
    unfolding recs_def by (rule Verify_bind_all [OF sample_verifies(2) saveable_parts(1) [OF sample_saveable]])
  ultimately show ?thesis
    unfolding recs_def [symmetric] using ty by (simp add: LoadVerified_def LoadReader_def default_limits_def [symmetric] recs)
qed

theorem LoadVerified_sound_witness:
  "let b = \<lparr>Records = bind_all [] (Records sample_first)\<rparr>
   in hasManifestRecord (Records b) \<and> is_ok (ManifestE b) \<and> Verify b = None \<and>
    (\<forall>i<length (Records b). Sequence (Event (Records b ! i)) = int i) \<and>
    int (length (Records b)) \<le> MaxBundleRecords \<and> int (length sample_text) \<le> MaxBundleSizeBytes"
  unfolding Let_def by (rule LoadVerified_sound [OF sample_loads])

section \<open>Properties of the errors\<close>

definition double_version :: string where
  "double_version = ''{'' @ quoted ''version'' @ '':'' @ quoted ''3'' @ '','' @ quoted ''version'' @ '':null}''"

text \<open>The reader of a manifest accepts a document that declares version 3 in the string form it reserves for
  version 1: the version is probed with a struct whose field is an interface, where a later null
  resets it, and then decoded into a string field, where a later null is ignored.\<close>

theorem string_manifest_claims_v3:
  "parseManifestData (new_record (zero_event\<lparr>Type := ManifestEventType, Data := AString double_version\<rparr>) []) =
     Inr (zero_manifest\<lparr>md_Version := ''3''\<rparr>)"
proof -
  have "json_scan double_version =
      Some (JObject [(''version'', JString ''3''), (''version'', JNull)])" by code_simp
  then show ?thesis
    by (simp add: parseManifestData_def new_record_def decode_probe_def decode_struct_def struct_field_def
        ManifestVersionMax_def parseManifestDataV1_def manifest_names_def set_manifest_def decode_string_def zero_manifest_def)
qed

text \<open>A structured manifest without its identifier is reported by an error that is not ErrMalformed, although the
  documentation of ManifestE promises one that is.\<close>

theorem ManifestE_error_not_malformed:
  "let b = \<lparr>Records = [new_record (zero_event\<lparr>Type := ManifestEventType, Data := AMap [(''version'', AInt 3)]\<rparr>) []]\<rparr>
   in ManifestE b = Inl StructuredIncomplete \<and> \<not> errors_Is StructuredIncomplete ErrMalformed"
  by (simp add: ManifestE_def hasManifestRecord_def new_record_def parseManifestData_def ManifestVersionMax_def
      parseManifestDataV2_def field_def field_string_def Let_def)

text \<open>A broken chain in a bundle with a manifest is reported as ErrTamper exactly when the events could be hashed; a
  broken chain in a bundle without a manifest never is.\<close>

theorem Verify_error_classes:
  assumes "Verify b = Some e"
  shows "if hasManifestRecord (Records b)
    then errors_Is e ErrTamper \<longleftrightarrow> (\<forall>i err. e \<noteq> ChainCompute i err)
    else \<not> errors_Is e ErrTamper"
proof -
  have "errors_Is e ErrTamper \<longleftrightarrow> (\<forall>i err. e \<noteq> ChainCompute i err)"
    if "verifyManifestBundle_loop i prev rs = Some e" for i prev rs
    using that
    by (induction rs arbitrary: i prev) (auto split: sum.splits chain_error.splits)
  with assms show ?thesis by (auto simp: Verify_def verifyManifestBundle_def)
qed

definition broken_bundle :: atb_bundle where
  \<comment> \<open>one record with sequence number 0 and no manifest\<close>
  "broken_bundle = \<lparr>Records = [new_record (zero_event\<lparr>Type := ''dev.session''\<rparr>) []]\<rparr>"

lemma broken_bundle_error: "Verify broken_bundle = Some (LegacyChain (SequenceMismatch 0 1 0))"
proof -
  define e where "e = zero_event\<lparr>Type := ''dev.session'', PrevHash := GenesisHash, Sequence := 1\<rparr>"
  have "wire_ok e" by (simp add: wire_ok_def e_def event_json_def zero_event_def int64_def)
  then have "Compute e = Inr (digest (PrevHash e @ event_body e))" by (simp add: Compute_Inr wire_ok_encodable)
  then show ?thesis
    by (simp add: broken_bundle_def Verify_def hasManifestRecord_def new_record_def ManifestEventType_def
        Hash_Chain.Verify_def check_event_def e_def zero_event_def)
qed

theorem Verify_error_classes_witness:
  "if hasManifestRecord (Records broken_bundle)
    then errors_Is (LegacyChain (SequenceMismatch 0 1 0)) ErrTamper \<longleftrightarrow>
      (\<forall>i err. LegacyChain (SequenceMismatch 0 1 0) \<noteq> ChainCompute i err)
    else \<not> errors_Is (LegacyChain (SequenceMismatch 0 1 0)) ErrTamper"
  by (rule Verify_error_classes [OF broken_bundle_error])

end
