(* ===== verification/Sign.thy ===== *)
theory Sign
  imports Bundle
begin

text \<open>
  The package \<^verbatim>\<open>internal/sign\<close>: Ed25519 signatures over policy decisions and over the digest of a bundle, with the
  encodings they are stored in. The signature algorithms themselves are arguments: \<open>ed_sign\<close> and \<open>ed_verify\<close> stand for
  \<^verbatim>\<open>crypto/ed25519\<close>, \<open>ecdsa_verify\<close> for \<^verbatim>\<open>crypto/ecdsa\<close> with the parsing of its public keys, and the theorems name what they
  rely on.
\<close>

section \<open>encoding/hex and encoding/base64\<close>

definition hex_val :: "char \<Rightarrow> nat option" where
  "hex_val c =
     (let n = ord c
      in if 48 \<le> n \<and> n \<le> 57 then Some (n - 48) else if 97 \<le> n \<and> n \<le> 102 then Some (n - 87)
         else if 65 \<le> n \<and> n \<le> 70 then Some (n - 55) else None)"

fun hex_decode :: "string \<Rightarrow> string option" where
  "hex_decode [] = Some []"
| "hex_decode [c] = None"
| "hex_decode (a # b # s) =
     (case (hex_val a, hex_val b, hex_decode s) of
        (Some x, Some y, Some r) \<Rightarrow> Some (byte (16 * x + y) # r)
      | _ \<Rightarrow> None)"

definition b64_char :: "nat \<Rightarrow> char" where
  "b64_char n =
     (if n < 26 then byte (65 + n) else if n < 52 then byte (71 + n) else if n < 62 then byte (n - 4)
      else if n = 62 then CHR ''+'' else CHR ''/'')"

definition b64_val :: "char \<Rightarrow> nat option" where
  "b64_val c =
     (let n = ord c
      in if 65 \<le> n \<and> n \<le> 90 then Some (n - 65) else if 97 \<le> n \<and> n \<le> 122 then Some (n - 71)
         else if 48 \<le> n \<and> n \<le> 57 then Some (n + 4) else if n = 43 then Some 62
         else if n = 47 then Some 63 else None)"

fun b64_encode :: "string \<Rightarrow> string" where
  "b64_encode [] = []"
| "b64_encode [a] = (let n = ord a * 16 in [b64_char (n div 64), b64_char (n mod 64), CHR ''='', CHR ''=''])"
| "b64_encode [a, b] =
     (let n = (ord a * 256 + ord b) * 4
      in [b64_char (n div 4096), b64_char (n div 64 mod 64), b64_char (n mod 64), CHR ''=''])"
| "b64_encode (a # b # c # s) =
     (let n = (ord a * 256 + ord b) * 256 + ord c
      in [b64_char (n div 262144), b64_char (n div 4096 mod 64), b64_char (n div 64 mod 64), b64_char (n mod 64)] @ b64_encode s)"

fun b64_quanta :: "string \<Rightarrow> string option" where
  "b64_quanta [] = Some []"
| "b64_quanta (a # b # c # d # s) =
     (case (b64_val a, b64_val b) of
        (Some x, Some y) \<Rightarrow>
          (if d = CHR ''='' then
             (if s \<noteq> [] then None
              else if c = CHR ''='' then Some [byte ((x * 64 + y) div 16)]
              else case b64_val c of
                     None \<Rightarrow> None
                   | Some z \<Rightarrow> (let n = ((x * 64 + y) * 64 + z) div 4 in Some [byte (n div 256), byte (n mod 256)]))
           else case (b64_val c, b64_val d, b64_quanta s) of
                  (Some z, Some w, Some r) \<Rightarrow>
                    (let n = ((x * 64 + y) * 64 + z) * 64 + w
                     in Some ([byte (n div 65536), byte (n div 256 mod 256), byte (n mod 256)] @ r))
                | _ \<Rightarrow> None)
      | _ \<Rightarrow> None)"
| "b64_quanta _ = None"

definition b64_decode :: "string \<Rightarrow> string option" where
  \<comment> \<open>\<^verbatim>\<open>StdEncoding.DecodeString\<close>: line breaks are skipped\<close>
  "b64_decode s = b64_quanta (filter (\<lambda>c. c \<noteq> CHR 0x0A \<and> c \<noteq> CHR 0x0D) s)"

subsection \<open>Decoding what was encoded\<close>

lemma hex_val_digit: "n < 16 \<Longrightarrow> hex_val (hex_digit n) = Some n"
  by (auto simp: hex_val_def hex_digit_def ord_byte Let_def)

lemma hex_decode_encode: "hex_decode (hex_encode s) = Some s"
proof (induction s)
  case (Cons a s)
  have "ord a div 16 < 16" by (rule less_mult_imp_div_less) simp
  moreover have "16 * (ord a div 16) + ord a mod 16 = ord a" by simp
  ultimately show ?case using Cons by (simp add: hex_encode_def hex_val_digit)
qed (simp add: hex_encode_def)

lemma ord_b64_char:
  "n < 64 \<Longrightarrow> ord (b64_char n) =
     (if n < 26 then 65 + n else if n < 52 then 71 + n else if n < 62 then n - 4 else if n = 62 then 43 else 47)"
  by (auto simp: b64_char_def ord_byte)

lemma b64_char_props:
  assumes "n < 64"
  shows "b64_val (b64_char n) = Some n" "b64_char n \<noteq> CHR ''=''" "b64_char n \<noteq> CHR 0x0A" "b64_char n \<noteq> CHR 0x0D"
    "33 \<le> ord (b64_char n)" "ord (b64_char n) < 127"
proof -
  note o = ord_b64_char [OF assms]
  show "b64_val (b64_char n) = Some n" using assms unfolding b64_val_def Let_def o by auto
  have no: "b64_char n \<noteq> c" if "ord c \<in> {10, 13, 61}" for c
  proof
    assume "b64_char n = c"
    with that have "ord (b64_char n) \<in> {10, 13, 61}" by simp
    with assms show False unfolding o by (auto split: if_splits)
  qed
  show "b64_char n \<noteq> CHR ''=''" "b64_char n \<noteq> CHR 0x0A" "b64_char n \<noteq> CHR 0x0D" by (rule no; simp)+
  show "33 \<le> ord (b64_char n)" "ord (b64_char n) < 127" using assms unfolding o by auto
qed

lemma b64_three:
  assumes "a < 256" "b < 256" "c < (256::nat)"
  defines "n \<equiv> (a * 256 + b) * 256 + c"
  shows "n div 262144 < 64" "((n div 262144 * 64 + n div 4096 mod 64) * 64 + n div 64 mod 64) * 64 + n mod 64 = n"
    "n div 65536 = a" "n div 256 mod 256 = b" "n mod 256 = c"
proof -
  have "n < 64 * 262144" using assms by (simp add: n_def)
  then show "n div 262144 < 64" by (rule less_mult_imp_div_less)
  have "n div 262144 = n div 64 div 64 div 64" "n div 4096 = n div 64 div 64" by (simp_all add: div_mult2_eq [symmetric])
  then show "((n div 262144 * 64 + n div 4096 mod 64) * 64 + n div 64 mod 64) * 64 + n mod 64 = n" by simp
  have "n mod 256 = c mod 256" unfolding n_def by (rule mod_mult_self3)
  with assms show "n mod 256 = c" by simp
  have "n div 256 = (a * 256 + b) + c div 256" unfolding n_def by (rule div_mult_self3) simp
  then have q: "n div 256 = a * 256 + b" using assms by simp
  have "(a * 256 + b) mod 256 = b mod 256" by (rule mod_mult_self3)
  with q show "n div 256 mod 256 = b" using assms by simp
  have "(a * 256 + b) div 256 = a + b div 256" by (rule div_mult_self3) simp
  moreover have "n div 65536 = n div 256 div 256" by (simp add: div_mult2_eq [symmetric])
  ultimately show "n div 65536 = a" using q assms by simp
qed

lemma b64_two:
  assumes "a < 256" "b < (256::nat)"
  defines "n \<equiv> (a * 256 + b) * 4"
  shows "n div 4096 < 64" "((n div 4096 * 64 + n div 64 mod 64) * 64 + n mod 64) div 4 = a * 256 + b"
proof -
  have "n < 64 * 4096" using assms by (simp add: n_def)
  then show "n div 4096 < 64" by (rule less_mult_imp_div_less)
  have "n div 4096 = n div 64 div 64" by (simp add: div_mult2_eq [symmetric])
  then have "(n div 4096 * 64 + n div 64 mod 64) * 64 + n mod 64 = n" by simp
  then show "((n div 4096 * 64 + n div 64 mod 64) * 64 + n mod 64) div 4 = a * 256 + b" by (simp add: n_def)
qed

lemma byte_eqI: "n mod 256 = ord b \<Longrightarrow> byte n = b"
  by (simp add: ord_eq_iff)

lemma byte_low: "byte (x * 256 + ord b) = b"
  by (rule byte_eqI) (simp add: mod_mult_self3)

lemma b64_quanta_encode: "b64_quanta (b64_encode s) = Some s"
proof (induction s rule: b64_encode.induct)
  case (2 a)
  define n where "n = ord a * 16"
  have "n < 64 * 64" using ord_less [of a] by (simp add: n_def)
  then have "n div 64 < 64" by (rule less_mult_imp_div_less)
  moreover have "(n div 64 * 64 + n mod 64) div 16 = ord a" unfolding div_mult_mod_eq by (simp add: n_def)
  ultimately show ?case by (simp add: Let_def b64_char_props n_def [symmetric] del: div_mult_mod_eq)
next
  case (3 a b)
  note t = b64_two [of "ord a" "ord b"]
  show ?case using t by (simp add: Let_def b64_char_props byte_low)
next
  case (4 a b c s)
  note t = b64_three [of "ord a" "ord b" "ord c"]
  show ?case using 4 t byte_eqI [OF t(4)] byte_eqI [OF t(5)] by (simp add: Let_def b64_char_props)
qed simp

lemma b64_encode_clean:
  "list_all (\<lambda>c. c \<noteq> CHR 0x0A \<and> c \<noteq> CHR 0x0D \<and> 33 \<le> ord c \<and> ord c < 127) (b64_encode s)"
proof (induction s rule: b64_encode.induct)
  case (2 a)
  have "ord a * 16 < 64 * 64" using ord_less [of a] by simp
  then have "ord a * 16 div 64 < 64" by (rule less_mult_imp_div_less)
  then show ?case by (simp add: Let_def b64_char_props del: div_mult_mult1 div_mult_mult2 div_mult_mult1_if)
next
  case (3 a b)
  show ?case using b64_two(1) [of "ord a" "ord b"] by (simp add: Let_def b64_char_props)
next
  case (4 a b c s)
  show ?case using 4 b64_three(1) [of "ord a" "ord b" "ord c"] by (simp add: Let_def b64_char_props)
qed simp

lemma b64_decode_encode: "b64_decode (b64_encode s) = Some s"
proof -
  have "filter (\<lambda>c. c \<noteq> CHR 0x0A \<and> c \<noteq> CHR 0x0D) (b64_encode s) = b64_encode s"
    using b64_encode_clean [of s] by (auto simp: filter_id_conv list_all_iff)
  then show ?thesis by (simp add: b64_decode_def b64_quanta_encode)
qed

lemma b64_encode_Nil [simp]: "b64_encode s = [] \<longleftrightarrow> s = []"
  by (cases s rule: b64_encode.cases) (simp_all add: Let_def)

text \<open>Text without blanks is left alone by trimming.\<close>

lemma space_encoding_ends: "w \<in> set space_encodings \<Longrightarrow> w \<noteq> [] \<and> \<not> (33 \<le> ord (hd w) \<and> ord (hd w) < 127) \<and> \<not> (33 \<le> ord (last w) \<and> ord (last w) < 127)"
  unfolding space_encodings_def by (auto simp: ord_byte)

lemma TrimSpace_graphic: "list_all (\<lambda>c. 33 \<le> ord c \<and> ord c < 127) s \<Longrightarrow> TrimSpace s = s"
proof (cases "s = []")
  case False
  assume g: "list_all (\<lambda>c. 33 \<le> ord c \<and> ord c < 127) s"
  with False have h: "33 \<le> ord (hd s) \<and> ord (hd s) < 127" "33 \<le> ord (last s) \<and> ord (last s) < 127"
    by (auto simp: list_all_iff)
  have "\<not> HasPrefix s w" if "w \<in> set space_encodings" for w
    using space_encoding_ends [OF that] h(1) by (auto simp: HasPrefix_iff)
  then have l: "trim_prefixes space_encodings s = s" by (intro trim_prefixes_id) auto
  have "\<not> HasPrefix (rev s) (rev w)" if "w \<in> set space_encodings" for w
  proof
    assume "HasPrefix (rev s) (rev w)"
    then obtain r where "rev s = rev w @ r" by (auto simp: HasPrefix_iff)
    then have "s = rev r @ w" by (metis rev_append rev_rev_ident)
    with space_encoding_ends [OF that] h(2) show False by auto
  qed
  then have "trim_prefixes (map rev space_encodings) (rev s) = rev s" by (intro trim_prefixes_id) auto
  with l show ?thesis by (simp add: TrimSpace_def)
qed simp

lemma TrimSpace_b64 [simp]: "TrimSpace (b64_encode s) = b64_encode s"
  by (rule TrimSpace_graphic) (use b64_encode_clean [of s] in \<open>auto simp: list_all_iff\<close>)

lemma graphic_hex: "list_all (\<lambda>c. 33 \<le> ord c \<and> ord c < 127) (hex_encode s)"
proof -
  have "33 \<le> ord (hex_digit n) \<and> ord (hex_digit n) < 127" if "n < 16" for n using that by (auto simp: hex_digit_def ord_byte)
  moreover have "ord c div 16 < 16" for c using ord_less [of c] by linarith
  ultimately show ?thesis by (induction s) (auto simp: hex_encode_def)
qed

lemma TrimSpace_hex [simp]: "TrimSpace (hex_encode s) = hex_encode s"
  by (rule TrimSpace_graphic [OF graphic_hex])

section \<open>Policy decisions\<close>

definition FieldPolicySignature :: string where "FieldPolicySignature = ''policy_signature''"
definition FieldPolicySignerPubKey :: string where "FieldPolicySignerPubKey = ''policy_signer_pubkey''"
definition FieldPolicyDocHash :: string where "FieldPolicyDocHash = ''policy_doc_hash''"
definition FieldPolicyDocSignature :: string where "FieldPolicyDocSignature = ''policy_doc_signature''"

type_synonym payload = "(string \<times> any) list"

definition field_text :: "payload \<Rightarrow> string \<Rightarrow> string" where
  \<comment> \<open>the trimmed string under a key; \<^verbatim>\<open>fieldString\<close> and \<^verbatim>\<open>bundleSignatureField\<close> of the package\<close>
  "field_text m k = (case map_of m k of Some (AString s) \<Rightarrow> TrimSpace s | _ \<Rightarrow> [])"

text \<open>
  The failures of the verification; \<^verbatim>\<open>ErrSignatureAbsent\<close> is the kind of the first constructor, \<^verbatim>\<open>ErrSignatureInvalid\<close> of
  all others.
\<close>

datatype policy_error =
    SignatureAbsent
  | PubKeyAbsent
  | DocHashAbsent
  | PayloadError canon_error
  | BadSignatureText
  | BadSignatureLength
  | BadPubKeyText
  | BadPubKeyLength
  | BadDocHash
  | SignatureMismatch
  | BadPrivateKey

definition marshal_payload :: "payload \<Rightarrow> string option" where
  \<comment> \<open>\<^verbatim>\<open>json.Marshal\<close> of the map\<close>
  "marshal_payload m = map_option render_html (to_json (AMap m))"

definition canonicalPolicyDecisionPayload :: "payload \<Rightarrow> canon_error + string" where
  "canonicalPolicyDecisionPayload m =
     Marshal marshal_payload (filter (\<lambda>(k, v). k \<noteq> FieldPolicySignature \<and> k \<noteq> FieldPolicySignerPubKey) m)"

definition SignPolicyDecision :: "(string \<Rightarrow> string \<Rightarrow> string) \<Rightarrow> payload \<Rightarrow> string \<Rightarrow> policy_error + string" where
  "SignPolicyDecision ed_sign m priv =
     (if length priv \<noteq> 64 then Inl BadPrivateKey
      else case canonicalPolicyDecisionPayload m of
             Inl e \<Rightarrow> Inl (PayloadError e)
           | Inr t \<Rightarrow> Inr (b64_encode (ed_sign priv t)))"

definition check_signature :: "(string \<Rightarrow> string \<Rightarrow> string \<Rightarrow> bool) \<Rightarrow> string \<Rightarrow> string \<Rightarrow> string \<Rightarrow> policy_error option" where
  \<comment> \<open>decoding and checking of the stored texts, shared by the two verifications\<close>
  "check_signature ed_verify sigText keyText msg =
     (case b64_decode sigText of
        None \<Rightarrow> Some BadSignatureText
      | Some sig \<Rightarrow>
          if length sig \<noteq> 64 then Some BadSignatureLength
          else case b64_decode keyText of
                 None \<Rightarrow> Some BadPubKeyText
               | Some pub \<Rightarrow>
                   if length pub \<noteq> 32 then Some BadPubKeyLength
                   else if \<not> ed_verify pub msg sig then Some SignatureMismatch else None)"

definition VerifyPolicyDecision :: "(string \<Rightarrow> string \<Rightarrow> string \<Rightarrow> bool) \<Rightarrow> payload \<Rightarrow> policy_error option" where
  "VerifyPolicyDecision ed_verify m =
     (let sigText = field_text m FieldPolicySignature; keyText = field_text m FieldPolicySignerPubKey
      in if sigText = [] then Some SignatureAbsent
         else if keyText = [] then Some PubKeyAbsent
         else case canonicalPolicyDecisionPayload m of
                Inl e \<Rightarrow> Some (PayloadError e)
              | Inr t \<Rightarrow> check_signature ed_verify sigText keyText t)"

definition doc_message :: "payload \<Rightarrow> string \<Rightarrow> policy_error + string" where
  \<comment> \<open>the digest of the canonical payload followed by the document digest\<close>
  "doc_message m docHash =
     (case canonicalPolicyDecisionPayload m of
        Inl e \<Rightarrow> Inl (PayloadError e)
      | Inr t \<Rightarrow> (case hex_decode docHash of None \<Rightarrow> Inl BadDocHash | Some d \<Rightarrow> Inr (Sum256 t @ d)))"

definition SignPolicyDoc :: "(string \<Rightarrow> string \<Rightarrow> string) \<Rightarrow> payload \<Rightarrow> string \<Rightarrow> string \<Rightarrow> policy_error + string" where
  "SignPolicyDoc ed_sign m docHash priv =
     (if length priv \<noteq> 64 then Inl BadPrivateKey
      else bind_res (doc_message m docHash) (\<lambda>msg. Inr (b64_encode (ed_sign priv msg))))"

definition VerifyPolicyDocSignature :: "(string \<Rightarrow> string \<Rightarrow> string \<Rightarrow> bool) \<Rightarrow> payload \<Rightarrow> policy_error option" where
  "VerifyPolicyDocSignature ed_verify m =
     (let sigText = field_text m FieldPolicyDocSignature; keyText = field_text m FieldPolicySignerPubKey;
          docHashText = field_text m FieldPolicyDocHash
      in if sigText = [] then Some SignatureAbsent
         else if keyText = [] then Some PubKeyAbsent
         else if docHashText = [] then Some DocHashAbsent
         else case doc_message (filter (\<lambda>(k, v). k \<noteq> FieldPolicyDocSignature) m) docHashText of
                Inl e \<Rightarrow> Some e
              | Inr msg \<Rightarrow> check_signature ed_verify sigText keyText msg)"

section \<open>Bundle signatures\<close>

record bundle_signature =
  bs_BundleHash :: string
  bs_Signature :: string
  bs_PublicKey :: string
  bs_Algorithm :: string
  bs_KeyID :: string
  bs_Backend :: string
  bs_SignedAt :: string

definition NewBundleSignatureRecord :: "string \<Rightarrow> string \<Rightarrow> string \<Rightarrow> string \<Rightarrow> string \<Rightarrow> string \<Rightarrow> string \<Rightarrow> string \<Rightarrow> payload" where
  \<comment> \<open>the first argument is the current time as text\<close>
  "NewBundleSignatureRecord now bundleHash publicKey signature keyID backend algorithm signedAt =
     [(''bundle_hash'', AString (hex_encode bundleHash)), (''signature'', AString (b64_encode signature)),
      (''pubkey'', AString (b64_encode publicKey)),
      (''algorithm'', AString (if algorithm = [] then ''ed25519'' else algorithm)),
      (''backend'', AString (if backend = [] then ''local'' else backend)),
      (''signed_at'', AString (if signedAt = [] then now else signedAt))] @
     (if keyID \<noteq> [] then [(''key_id'', AString keyID)] else [])"

datatype signature_error =
    NotAnObject
  | BundleHashAbsent
  | BundleSignatureAbsent
  | BundlePubKeyAbsent
  | ExpectedHashLength nat
  | BadBundleHash
  | BadBundleHashLength
  | BundleHashMismatch
  | BadBundleSignature
  | BadBundlePubKey
  | Ed25519SignatureLength
  | Ed25519PubKeyLength
  | Ed25519Mismatch
  | EcdsaPubKey
  | EcdsaMismatch
  | UnsupportedAlgorithm string
  | SourceBytesUnavailable int

definition bundleSignatureAlgorithm :: "payload \<Rightarrow> string" where
  "bundleSignatureAlgorithm m =
     (let a = field_text m ''algorithm'' in if a = [] then ''ed25519'' else ToLower a)"

definition ParseBundleSignature :: "any \<Rightarrow> signature_error + bundle_signature" where
  "ParseBundleSignature data =
     (case data of
        AMap m \<Rightarrow>
          (let bundleHash = field_text m ''bundle_hash''; signature = field_text m ''signature'';
               publicKey = (if field_text m ''pubkey'' = [] then field_text m ''public_key'' else field_text m ''pubkey'')
           in if bundleHash = [] then Inl BundleHashAbsent
              else if signature = [] then Inl BundleSignatureAbsent
              else if publicKey = [] then Inl BundlePubKeyAbsent
              else Inr \<lparr>bs_BundleHash = bundleHash, bs_Signature = signature, bs_PublicKey = publicKey,
                        bs_Algorithm = bundleSignatureAlgorithm m, bs_KeyID = field_text m ''key_id'',
                        bs_Backend = field_text m ''backend'', bs_SignedAt = field_text m ''signed_at''\<rparr>)
      | _ \<Rightarrow> Inl NotAnObject)"

text \<open>
  The verifiers: \<open>ed_verify pub msg sig\<close>, and \<open>ecdsa_verify\<close>, which is None when the key cannot be parsed as a P-256 key.
\<close>

record verifiers =
  ed_verify :: "string \<Rightarrow> string \<Rightarrow> string \<Rightarrow> bool"
  ecdsa_verify :: "string \<Rightarrow> string \<Rightarrow> string \<Rightarrow> bool option"

definition verify_algorithm :: "verifiers \<Rightarrow> string \<Rightarrow> string \<Rightarrow> string \<Rightarrow> string \<Rightarrow> signature_error option" where
  \<comment> \<open>the switch over the algorithm\<close>
  "verify_algorithm v algo storedHash rawSignature rawPublicKey =
     (if algo = ''ed25519'' then
        (if length rawSignature \<noteq> 64 then Some Ed25519SignatureLength
         else if length rawPublicKey \<noteq> 32 then Some Ed25519PubKeyLength
         else if \<not> ed_verify v rawPublicKey storedHash rawSignature then Some Ed25519Mismatch else None)
      else if algo = ''ecdsa-p256'' then
        (case ecdsa_verify v rawPublicKey storedHash rawSignature of
           None \<Rightarrow> Some EcdsaPubKey
         | Some ok \<Rightarrow> if ok then None else Some EcdsaMismatch)
      else Some (UnsupportedAlgorithm algo))"

definition VerifyBundleSignature :: "verifiers \<Rightarrow> bundle_signature \<Rightarrow> string \<Rightarrow> signature_error option" where
  "VerifyBundleSignature v sig expected =
     (if length expected \<noteq> 32 then Some (ExpectedHashLength (length expected))
      else case hex_decode (TrimSpace (bs_BundleHash sig)) of
             None \<Rightarrow> Some BadBundleHash
           | Some stored \<Rightarrow>
               if length stored \<noteq> 32 then Some BadBundleHashLength
               else if stored \<noteq> expected then Some BundleHashMismatch
               else let algo = (if bs_Algorithm sig = [] then ''ed25519'' else bs_Algorithm sig)
                    in case b64_decode (TrimSpace (bs_Signature sig)) of
                         None \<Rightarrow> Some BadBundleSignature
                       | Some rawSignature \<Rightarrow>
                           (case b64_decode (TrimSpace (bs_PublicKey sig)) of
                              None \<Rightarrow> Some BadBundlePubKey
                            | Some rawPublicKey \<Rightarrow> verify_algorithm v algo stored rawSignature rawPublicKey))"

section \<open>The signatures of a bundle\<close>

definition hashBundleSnapshotBeforeRecord :: "bundle_record \<Rightarrow> string \<Rightarrow> signature_error + string" where
  "hashBundleSnapshotBeforeRecord r signedHash =
     (case SourcePrefixHashes r of (withLF, withoutLF, hasWithoutLF) \<Rightarrow>
        if length withLF \<noteq> 32 then Inl (SourceBytesUnavailable (Sequence (Event r)))
        else if hasWithoutLF \<and> length withoutLF = 32 \<and> foldName (TrimSpace signedHash) = foldName (hex_encode withoutLF)
        then Inr withoutLF else Inr withLF)"

definition check_bundle_signature :: "verifiers \<Rightarrow> bundle_record \<Rightarrow> signature_error + string" where
  \<comment> \<open>the verdict on one signature record: its recorded digest, or why it does not verify\<close>
  "check_bundle_signature v r =
     bind_res (ParseBundleSignature (Data (Event r))) (\<lambda>sig.
     bind_res (hashBundleSnapshotBeforeRecord r (bs_BundleHash sig)) (\<lambda>expected.
     (case VerifyBundleSignature v sig expected of Some e \<Rightarrow> Inl e | None \<Rightarrow> Inr (bs_BundleHash sig))))"

record bundle_signature_result =
  sr_Verified :: bool
  sr_BundleHash :: string
  sr_Error :: "signature_error option"

definition latestBundleSignatureIndex :: "bundle_record list \<Rightarrow> nat option" where
  "latestBundleSignatureIndex records =
     find (\<lambda>i. Type (Event (records ! i)) = TypeBundleSignature) (rev [0..<length records])"

definition recorded_hash :: "bundle_record \<Rightarrow> string" where
  "recorded_hash r = (case ParseBundleSignature (Data (Event r)) of Inl _ \<Rightarrow> [] | Inr sig \<Rightarrow> bs_BundleHash sig)"

definition inspectBundleSignature :: "verifiers \<Rightarrow> bundle_record list \<Rightarrow> bundle_signature_result option" where
  \<comment> \<open>None: no signature record\<close>
  "inspectBundleSignature v records =
     (case latestBundleSignatureIndex records of
        None \<Rightarrow> None
      | Some i \<Rightarrow>
          (let r = records ! i
           in Some (case check_bundle_signature v r of
                      Inl e \<Rightarrow> \<lparr>sr_Verified = False, sr_BundleHash = recorded_hash r, sr_Error = Some e\<rparr>
                    | Inr h \<Rightarrow> \<lparr>sr_Verified = True, sr_BundleHash = h, sr_Error = None\<rparr>)))"

record signature_provenance =
  sp_Sequence :: int
  sp_Backend :: string
  sp_KeyID :: string
  sp_SignedAt :: string
  sp_PubKey :: string
  sp_BundleHash :: string
  sp_Valid :: bool
  sp_Error :: "signature_error option"

definition stringField :: "payload \<Rightarrow> string \<Rightarrow> string" where
  "stringField m k = (case map_of m k of Some (AString s) \<Rightarrow> s | _ \<Rightarrow> [])"

definition buildSignatureProvenance :: "verifiers \<Rightarrow> bundle_record \<Rightarrow> signature_provenance" where
  "buildSignatureProvenance v r =
     (let p0 = \<lparr>sp_Sequence = Sequence (Event r), sp_Backend = ''local'', sp_KeyID = [], sp_SignedAt = [], sp_PubKey = [],
                sp_BundleHash = [], sp_Valid = False, sp_Error = None\<rparr>
      in case Data (Event r) of
           AMap m \<Rightarrow>
             (let p1 = p0\<lparr>sp_Backend := (if stringField m ''backend'' \<noteq> [] then stringField m ''backend'' else ''local''),
                          sp_KeyID := stringField m ''key_id'', sp_SignedAt := stringField m ''signed_at'',
                          sp_PubKey := (if stringField m ''pubkey'' = [] then stringField m ''public_key'' else stringField m ''pubkey''),
                          sp_BundleHash := recorded_hash r\<rparr>
              in case check_bundle_signature v r of
                   Inl e \<Rightarrow> p1\<lparr>sp_Error := Some e\<rparr>
                 | Inr h \<Rightarrow> p1\<lparr>sp_Valid := True\<rparr>)
         | _ \<Rightarrow> p0\<lparr>sp_Error := Some NotAnObject\<rparr>)"

definition inspectAllBundleSignatures :: "verifiers \<Rightarrow> bundle_record list \<Rightarrow> signature_provenance list" where
  "inspectAllBundleSignatures v records =
     map (buildSignatureProvenance v) (filter (\<lambda>r. Type (Event r) = TypeBundleSignature) records)"

end
