(* ===== verification/Bundle_Sign.thy ===== *)
theory Bundle_Sign
  imports Bundle_Props Sign
begin

text \<open>
  Signing a bundle file, \<^verbatim>\<open>internal/bundle/sign.go\<close>, as a function from the bytes read to the bytes written: the
  bounded read, the load and verification of the input, the signature over the digest of its bytes, the
  appended record and the size guards of the output. The signer is an argument. The theorem says that what
  signing writes loads again, verifies, and carries a signature that verifies against its own bytes; and
  that a bundle which is already full is signed into one that no longer loads.
\<close>

section \<open>The signing path\<close>

datatype sign_error =
    InvalidReadLimit
  | InputTooLarge int
  | SignLoad bundle_error
  | SignVerify bundle_error
  | SignerFailed
  | EmptySignature
  | SignerPubKey nat
  | UnsupportedSigning string
  | SignAppend bundle_error
  | EncodeSignature
  | CapacityExceeded
  | InvalidOutputLimit
  | OutputTooLarge int
  | WriteSigned

definition MaxInt :: int where
  "MaxInt = 2 ^ 63 - 1"

definition readSigningInput :: "string \<Rightarrow> int \<Rightarrow> sign_error + string" where
  "readSigningInput content maxBytes =
     (if maxBytes \<le> 0 \<or> maxBytes = MaxInt then Inl InvalidReadLimit
      else let raw = take (nat (maxBytes + 1)) content
           in if int (length raw) > maxBytes then Inl (InputTooLarge maxBytes) else Inr raw)"

definition signedPayloadCapacity :: "int \<Rightarrow> int \<Rightarrow> sign_error + int" where
  "signedPayloadCapacity rawSize recordSize =
     (if rawSize < 0 \<or> recordSize < 0 \<or> rawSize > MaxInt - 2 then Inl CapacityExceeded
      else if recordSize > MaxInt - 2 - rawSize then Inl CapacityExceeded
      else Inr (rawSize + recordSize + 2))"

definition signedPayloadMetrics :: "int \<Rightarrow> int \<Rightarrow> bool \<Rightarrow> sign_error + int \<times> int" where
  "signedPayloadMetrics rawSize recordSize needsSeparator =
     bind_res (signedPayloadCapacity rawSize recordSize)
       (\<lambda>capacity. Inr (if needsSeparator \<and> rawSize > 0 then capacity else capacity - 1, capacity))"

definition needs_separator :: "string \<Rightarrow> bool" where
  "needs_separator raw = (raw \<noteq> [] \<and> last raw \<noteq> CHR 0x0A)"

definition appendSignedRecord :: "(string \<Rightarrow> bool) \<Rightarrow> string \<Rightarrow> bundle_record \<Rightarrow> int \<Rightarrow> sign_error + string" where
  \<comment> \<open>the first argument tells whether the directory can be made and the content written\<close>
  "appendSignedRecord atomicWrite raw r maxBytes =
     (case record_json r of
        None \<Rightarrow> Inl EncodeSignature
      | Some j \<Rightarrow>
          (let encoded = render_html j
           in bind_res (signedPayloadMetrics (int (length raw)) (int (length encoded)) (needs_separator raw))
                (\<lambda>(outputSize, capacity).
                   if maxBytes \<le> 0 then Inl InvalidOutputLimit
                   else if outputSize > maxBytes then Inl (OutputTooLarge maxBytes)
                   else let payload = raw @ (if needs_separator raw then [CHR 0x0A] else []) @ encoded @ [CHR 0x0A]
                        in if atomicWrite payload then Inr payload else Inl WriteSigned)))"

text \<open>What a signer returns: signature, public key, key id, backend and algorithm; None is an error.\<close>

type_synonym signer = "string \<Rightarrow> (string \<times> string \<times> string \<times> string \<times> string) option"

definition checked_algorithm :: "string \<Rightarrow> string \<Rightarrow> sign_error + string" where
  \<comment> \<open>the switch over the signer's algorithm\<close>
  "checked_algorithm algorithm pubKey =
     (if algorithm = [] \<or> algorithm = ''ed25519'' then
        (if length pubKey \<noteq> 32 then Inl (SignerPubKey (length pubKey)) else Inr ''ed25519'')
      else if algorithm = ''ecdsa-p256'' then
        (if length pubKey \<noteq> 65 then Inl (SignerPubKey (length pubKey)) else Inr algorithm)
      else Inl (UnsupportedSigning algorithm))"

definition signature_record :: "string \<Rightarrow> signer \<Rightarrow> string \<Rightarrow> sign_error + payload" where
  \<comment> \<open>from the digest of the bundle bytes to the payload of the signature record\<close>
  "signature_record signedAt signer dig =
     (case signer dig of
        None \<Rightarrow> Inl SignerFailed
      | Some (signature, pubKey, keyID, backend, algorithm) \<Rightarrow>
          if signature = [] then Inl EmptySignature
          else bind_res (checked_algorithm algorithm pubKey)
            (\<lambda>algo. Inr (NewBundleSignatureRecord signedAt dig pubKey signature keyID backend algo signedAt)))"

definition signToWithSignerLimited :: "(string \<Rightarrow> bool) \<Rightarrow> string \<Rightarrow> signer \<Rightarrow> (nat \<Rightarrow> int) \<Rightarrow> string \<Rightarrow> int \<Rightarrow>
    sign_error + string \<times> string" where
  \<comment> \<open>from the content of the bundle file to the bytes written and the digest returned\<close>
  "signToWithSignerLimited atomicWrite signedAt signer bytesRead content maxBytes =
     bind_res (readSigningInput content maxBytes) (\<lambda>raw.
     case LoadReader bytesRead raw of
       Inl e \<Rightarrow> Inl (SignLoad e)
     | Inr b \<Rightarrow>
         (case Verify b of
            Some e \<Rightarrow> Inl (SignVerify e)
          | None \<Rightarrow>
              bind_res (signature_record signedAt signer (Sum256 raw)) (\<lambda>data.
              case AppendWithOptions b TypeBundleSignature (AMap data) (Some (timestamp_options signedAt)) of
                Inl e \<Rightarrow> Inl (SignAppend e)
              | Inr b' \<Rightarrow>
                  bind_res (appendSignedRecord atomicWrite raw (last (Records b')) maxBytes)
                    (\<lambda>out. Inr (out, hex_encode (Sum256 raw))))))"

definition signToWithSignerUnlocked :: "(string \<Rightarrow> bool) \<Rightarrow> string \<Rightarrow> signer \<Rightarrow> (nat \<Rightarrow> int) \<Rightarrow> string \<Rightarrow>
    sign_error + string \<times> string" where
  "signToWithSignerUnlocked atomicWrite signedAt signer bytesRead content =
     signToWithSignerLimited atomicWrite signedAt signer bytesRead content MaxBundleSizeBytes"

section \<open>Lines of an extended file\<close>

lemma IndexByte_append:
  "IndexByte (s @ t) c = (case IndexByte s c of Some i \<Rightarrow> Some i | None \<Rightarrow> map_option (\<lambda>i. i + length s) (IndexByte t c))"
  by (induction s c rule: IndexByte.induct) (auto simp: option.map_comp comp_def option.map_ident split: option.splits)

lemma raw_lines_unfold:
  "raw_lines d = (case IndexByte d (CHR 0x0A) of
     Some i \<Rightarrow> take (i + 1) d # raw_lines (drop (i + 1) d) | None \<Rightarrow> if d = [] then [] else [d])"
  by (subst raw_lines.simps) (auto simp: scanRawLines_def split: option.splits dest: IndexByte_Some)

text \<open>Adding text after a line feed adds lines; an unterminated last line first takes its line feed.\<close>

lemma raw_lines_extend:
  "raw_lines (raw @ (if needs_separator raw then [CHR 0x0A] else []) @ t) =
     (if needs_separator raw
      then butlast (raw_lines raw) @ [last (raw_lines raw) @ [CHR 0x0A]] @ raw_lines t
      else raw_lines raw @ raw_lines t) \<and>
   (needs_separator raw \<longrightarrow> raw_lines raw \<noteq> [] \<and> last (last (raw_lines raw)) \<noteq> CHR 0x0A \<and> last (raw_lines raw) \<noteq> [])"
proof (induction raw rule: raw_lines.induct)
  case (1 d)
  show ?case
  proof (cases "IndexByte d (CHR 0x0A)")
    case None
    then have nolf: "CHR 0x0A \<notin> set d" by (induction d) (auto split: if_splits)
    show ?thesis
    proof (cases "d = []")
      case False
      with nolf have "last d \<noteq> CHR 0x0A" by (metis last_in_set)
      with None False show ?thesis
        by (simp add: needs_separator_def raw_lines_unfold [of d] raw_lines_unfold [of "d @ CHR 0x0A # t"] IndexByte_append)
    qed (simp add: needs_separator_def)
  next
    case (Some i)
    define s where "s = (if needs_separator d then [CHR 0x0A] else ([] :: string))"
    define d' where "d' = drop (i + 1) d"
    have i: "i < length d" "d ! i = CHR 0x0A" "d \<noteq> []" using IndexByte_Some [OF Some] by auto
    have d: "raw_lines d = take (i + 1) d # raw_lines d'" by (simp add: raw_lines_unfold [of d] Some d'_def)
    have e: "raw_lines (d @ s @ t) = take (i + 1) d # raw_lines (d' @ s @ t)"
      using i by (simp add: raw_lines_unfold [of "d @ s @ t"] IndexByte_append Some d'_def)
    have sep: "needs_separator d' = needs_separator d"
    proof (cases "d' = []")
      case True
      then have "length d = Suc i" using i by (simp add: d'_def)
      then have "last d = d ! i" by (cases d rule: rev_cases) auto
      with True i show ?thesis by (simp add: needs_separator_def)
    next
      case False
      then have "last d' = last d" by (simp add: d'_def last_drop)
      with False show ?thesis by (auto simp: needs_separator_def d'_def)
    qed
    have IH: "raw_lines (d' @ s @ t) =
        (if needs_separator d then butlast (raw_lines d') @ [last (raw_lines d') @ [CHR 0x0A]] @ raw_lines t
         else raw_lines d' @ raw_lines t) \<and>
        (needs_separator d \<longrightarrow> raw_lines d' \<noteq> [] \<and> last (last (raw_lines d')) \<noteq> CHR 0x0A \<and> last (raw_lines d') \<noteq> [])"
      using 1 [of "i + 1" "Some (take (i + 1) d)"] Some i sep
      by (auto simp: scanRawLines_def s_def d'_def)
    show ?thesis unfolding s_def [symmetric] using IH by (auto simp: d e)
  qed
qed


text \<open>The loader on a file whose lines were extended.\<close>

lemma load_loop_extend:
  assumes "load_loop limits br i raws recs t = Inr out" "\<And>k. br' k \<le> MaxBytes limits"
  shows "load_loop limits br' j (raws @ rest) recs t = load_loop limits br' (j + length raws) rest out (foldl tracker_add t raws)"
  using assms(1)
proof (induction raws arbitrary: i j recs t)
  case (Cons raw raws)
  from Cons.prems consider
    "trim_line raw = []" "load_loop limits br (i + 1) raws recs (tracker_add t raw) = Inr out"
    | rec where "trim_line raw \<noteq> []" "int (length recs) < MaxRecords limits" "decode_record (trim_line raw) = Some rec"
      "load_loop limits br (i + 1) raws (recs @ [set_snapshot t rec]) (tracker_add t raw) = Inr out"
    by (auto simp: Let_def split: if_splits option.splits)
  moreover have "token_fits raw" "int (length (trim_line raw)) \<le> MaxLineSizeBytes"
    using Cons.prems by (auto simp: Let_def split: if_splits)
  ultimately show ?case
    using Cons.IH assms(2) [of j] by cases (simp_all add: not_less not_le Let_def)
qed simp

lemma load_loop_separator:
  assumes "load_loop limits br i (raws @ [l]) recs t = Inr out" "\<And>k. br' k \<le> MaxBytes limits" "l \<noteq> []" "last l \<noteq> CHR 0x0A"
  shows "load_loop limits br' j (raws @ [l @ [CHR 0x0A]] @ rest) recs t =
    load_loop limits br' (j + length raws + 1) rest out (foldl tracker_add t (raws @ [l @ [CHR 0x0A]]))"
  using assms(1)
proof (induction raws arbitrary: i j recs t)
  case Nil
  have "drop_last (CHR 0x0A) l = l" "drop_last (CHR 0x0A) (l @ [CHR 0x0A]) = l" using assms(4) by (simp_all add: drop_last_def)
  then have "trim_line (l @ [CHR 0x0A]) = trim_line l" by (simp add: trim_line_def)
  moreover have "token_fits (l @ [CHR 0x0A]) = token_fits l" using assms(3,4) by (auto simp: token_fits_def)
  ultimately show ?case
    using Nil assms(2) [of j] by (auto simp: Let_def not_less [symmetric] split: if_splits option.splits)
next
  case (Cons raw raws)
  from Cons.prems consider
    "trim_line raw = []" "load_loop limits br (i + 1) (raws @ [l]) recs (tracker_add t raw) = Inr out"
    | rec where "trim_line raw \<noteq> []" "int (length recs) < MaxRecords limits" "decode_record (trim_line raw) = Some rec"
      "load_loop limits br (i + 1) (raws @ [l]) (recs @ [set_snapshot t rec]) (tracker_add t raw) = Inr out"
    by (auto simp: Let_def split: if_splits option.splits)
  moreover have "token_fits raw" "int (length (trim_line raw)) \<le> MaxLineSizeBytes"
    using Cons.prems by (auto simp: Let_def split: if_splits)
  ultimately show ?case
    using Cons.IH assms(2) [of j] by cases (simp_all add: not_less not_le Let_def)
qed

lemma tracks_foldl: "tracks t p \<Longrightarrow> tracks (foldl tracker_add t raws) (p @ concat raws)"
proof (induction raws arbitrary: t p)
  case (Cons r raws)
  from Cons.IH [OF tracks_add [OF Cons.prems, of r]] show ?case by simp
qed simp

definition signed_prefix :: "string \<Rightarrow> string" where
  \<comment> \<open>the bytes before the signature line\<close>
  "signed_prefix raw = raw @ (if needs_separator raw then [CHR 0x0A] else [])"

lemma load_loop_signed:
  assumes "load_loop limits br 0 (raw_lines raw) [] new_tracker = Inr recs" "\<And>k. br' k \<le> MaxBytes limits" "printable l"
  shows "\<exists>j t. load_loop limits br' 0 (raw_lines (signed_prefix raw @ l @ [CHR 0x0A])) [] new_tracker =
    load_loop limits br' j [l @ [CHR 0x0A]] recs t \<and> tracks t (signed_prefix raw)"
proof -
  have l: "raw_lines (l @ [CHR 0x0A]) = [l @ [CHR 0x0A]]" using raw_lines_step [OF assms(3), of "[]"] by simp
  note ext = raw_lines_extend [of raw "l @ [CHR 0x0A]"]
  show ?thesis
  proof (cases "needs_separator raw")
    case True
    define a x where "a = butlast (raw_lines raw)" and "x = last (raw_lines raw)"
    have x: "raw_lines raw = a @ [x]" "x \<noteq> []" "last x \<noteq> CHR 0x0A" using ext True by (auto simp: a_def x_def)
    have "raw = concat a @ x" using concat_raw_lines [of raw] x(1) by simp
    then have "tracks (foldl tracker_add new_tracker (a @ [x @ [CHR 0x0A]])) (signed_prefix raw)"
      using tracks_foldl [OF tracks_new, of "a @ [x @ [CHR 0x0A]]"] True by (simp add: signed_prefix_def)
    moreover have "raw_lines (signed_prefix raw @ l @ [CHR 0x0A]) = a @ [x @ [CHR 0x0A]] @ [l @ [CHR 0x0A]]"
      using conjunct1 [OF ext] True l by (simp add: signed_prefix_def a_def x_def)
    ultimately show ?thesis
      using load_loop_separator [OF assms(1) [unfolded x(1)] assms(2) x(2,3), where j = 0 and rest = "[l @ [CHR 0x0A]]"]
      by (intro exI conjI) (simp only:, assumption)
  next
    case False
    have "tracks (foldl tracker_add new_tracker (raw_lines raw)) (signed_prefix raw)"
      using tracks_foldl [OF tracks_new, of "raw_lines raw"] False by (simp add: signed_prefix_def concat_raw_lines)
    moreover have "raw_lines (signed_prefix raw @ l @ [CHR 0x0A]) = raw_lines raw @ [l @ [CHR 0x0A]]"
      using conjunct1 [OF ext] False l by (simp add: signed_prefix_def)
    ultimately show ?thesis
      using load_loop_extend [OF assms(1,2), where j = 0 and rest = "[l @ [CHR 0x0A]]"]
      by (intro exI conjI) (simp only:, assumption)
  qed
qed

section \<open>The signature record on the wire\<close>

abbreviation ascii_text :: "string \<Rightarrow> bool" where
  "ascii_text s \<equiv> list_all (\<lambda>c. ord c < 0x80) s"

lemma coerce_ascii_text: "ascii_text s \<Longrightarrow> coerce_utf8 s = s"
  using valid_utf8_literal by blast

lemma to_members_strings:
  "to_members (map (\<lambda>(k, s). (k, AString s)) ss) = Some (map (\<lambda>(k, s). (k, JString s)) ss)"
  by (induction ss) auto

lemma to_fields_strings:
  "distinct (map fst ss) \<Longrightarrow>
     \<exists>w. to_fields (map (\<lambda>(k, s). (k, JString s)) ss) acc = Some w \<and>
       (\<forall>k. map_of w k = (case map_of ss k of Some s \<Rightarrow> Some (AString s) | None \<Rightarrow> map_of acc k))"
proof (induction ss arbitrary: acc)
  case (Cons p ss)
  obtain k s where p: "p = (k, s)" by force
  from Cons p obtain w where "to_fields (map (\<lambda>(k, s). (k, JString s)) ss) (map_store acc k (AString s)) = Some w"
    "\<forall>k'. map_of w k' = (case map_of ss k' of Some s \<Rightarrow> Some (AString s) | None \<Rightarrow> map_of (map_store acc k (AString s)) k')"
    by fastforce
  moreover have "map_of ss k = None" using Cons.prems p by (simp add: map_of_eq_None_iff)
  ultimately show ?case using p by (auto split: option.splits)
qed simp

text \<open>A map of strings with ASCII keys comes back with the same keys, its values made valid UTF-8.\<close>

lemma string_map_wire:
  assumes "distinct (map fst ss)" "list_all (\<lambda>(k, s). ascii_text k) ss"
  shows "\<exists>d w. to_json (AMap (map (\<lambda>(k, s). (k, AString s)) ss)) = Some d \<and> to_any (coerce_json d) = Some (AMap w) \<and>
    (\<forall>k. map_of w k = map_option (\<lambda>s. AString (coerce_utf8 s)) (map_of ss k))"
proof -
  define ms where "ms = map (\<lambda>(k, s). (k, JString s)) ss"
  define us where "us = map (\<lambda>(k, s). (k, coerce_utf8 s)) (sort_key fst ss)"
  have srt: "sort_key fst ms = map (\<lambda>(k, s). (k, JString s)) (sort_key fst ss)"
    unfolding ms_def by (rule map_sort_key [symmetric]) auto
  have key: "coerce_utf8 k = k" if "(k, x) \<in> set ss" for k x
    by (rule coerce_ascii_text) (use assms(2) that in \<open>auto simp: list_all_iff\<close>)
  have c: "map (\<lambda>(k, j). (coerce_utf8 k, coerce_json j)) (sort_key fst ms) = map (\<lambda>(k, s). (k, JString s)) us"
    unfolding srt us_def using key by auto
  have du: "distinct (map fst us)" using assms(1) by (simp add: us_def comp_def case_prod_beta)
  have mu: "map_of us k = map_option coerce_utf8 (map_of ss k)" for k
    using assms(1) by (simp add: us_def map_of_map map_of_sort_key)
  obtain w where "to_fields (map (\<lambda>(k, s). (k, JString s)) us) [] = Some w"
    "\<forall>k. map_of w k = (case map_of us k of Some s \<Rightarrow> Some (AString s) | None \<Rightarrow> map_of [] k)"
    using to_fields_strings [OF du, of "[]"] by blast
  with c show ?thesis
    by (intro exI [of _ "JObject (sort_key fst ms)"] exI [of _ w])
      (auto simp: to_members_strings ms_def [symmetric] mu split: option.splits)
qed

definition signature_strings :: "string \<Rightarrow> string \<Rightarrow> string \<Rightarrow> string \<Rightarrow> string \<Rightarrow> string \<Rightarrow> string \<Rightarrow> string \<Rightarrow> (string \<times> string) list" where
  "signature_strings now bundleHash publicKey signature keyID backend algorithm signedAt =
     [(''bundle_hash'', hex_encode bundleHash), (''signature'', b64_encode signature), (''pubkey'', b64_encode publicKey),
      (''algorithm'', if algorithm = [] then ''ed25519'' else algorithm),
      (''backend'', if backend = [] then ''local'' else backend),
      (''signed_at'', if signedAt = [] then now else signedAt)] @
     (if keyID \<noteq> [] then [(''key_id'', keyID)] else [])"

lemma NewBundleSignatureRecord_strings:
  "NewBundleSignatureRecord now bh pk sg kid be algo sat =
     map (\<lambda>(k, s). (k, AString s)) (signature_strings now bh pk sg kid be algo sat)"
  by (simp add: NewBundleSignatureRecord_def signature_strings_def)

lemma signature_strings_keys:
  "distinct (map fst (signature_strings now bh pk sg kid be algo sat))"
  "list_all (\<lambda>(k, s). ascii_text k) (signature_strings now bh pk sg kid be algo sat)"
  by (simp_all add: signature_strings_def)

lemma ascii_b64: "ascii_text (b64_encode s)"
  by (rule list.pred_mono_strong [OF b64_encode_clean]) simp

lemma algorithm_texts:
  "TrimSpace ''ed25519'' = ''ed25519''" "TrimSpace ''ecdsa-p256'' = ''ecdsa-p256''"
  "ToLower ''ed25519'' = ''ed25519''" "ToLower ''ecdsa-p256'' = ''ecdsa-p256''"
  by code_simp+

lemma Parse_signature_wire:
  assumes w: "\<And>k. map_of w k = map_option (\<lambda>s. AString (coerce_utf8 s)) (map_of (signature_strings now bh pk sg kid be algo sat) k)"
    and "bh \<noteq> []" "pk \<noteq> []" "sg \<noteq> []" "algo \<in> {''ed25519'', ''ecdsa-p256''}"
  shows "\<exists>s. ParseBundleSignature (AMap w) = Inr s \<and> bs_BundleHash s = hex_encode bh \<and> bs_Signature s = b64_encode sg \<and>
    bs_PublicKey s = b64_encode pk \<and> bs_Algorithm s = algo"
proof -
  have t: "field_text w ''bundle_hash'' = hex_encode bh" "field_text w ''signature'' = b64_encode sg"
    "field_text w ''pubkey'' = b64_encode pk"
    using coerce_ascii_text [OF ascii_hex_encode [of bh]] coerce_ascii_text [OF ascii_b64 [of sg]] coerce_ascii_text [OF ascii_b64 [of pk]]
    by (simp_all add: field_text_def w signature_strings_def)
  have a: "coerce_utf8 algo = algo" using assms(5) by (auto intro!: coerce_ascii_text)
  have "bundleSignatureAlgorithm w = algo"
    using assms(5) algorithm_texts a
    by (auto simp: bundleSignatureAlgorithm_def field_text_def w signature_strings_def)
  with t assms(2-4) show ?thesis by (simp add: ParseBundleSignature_def Let_def)
qed

lemma fold_hex_digit: "m < 16 \<Longrightarrow> n < 16 \<Longrightarrow> fold_rune (ord (hex_digit m)) = fold_rune (ord (hex_digit n)) \<Longrightarrow> m = n"
  by (auto simp: hex_digit_def ord_byte fold_rune_def split: if_splits)

lemma foldName_hex: "foldName (hex_encode s) = foldName (hex_encode t) \<Longrightarrow> s = t"
proof -
  have r: "runes (hex_encode u) = map ord (hex_encode u)" for u
    by (rule runes_ascii) (use ascii_hex_encode [of u] in \<open>auto simp: list_all_iff\<close>)
  assume "foldName (hex_encode s) = foldName (hex_encode t)"
  then have "map (\<lambda>c. fold_rune (ord c)) (hex_encode s) = map (\<lambda>c. fold_rune (ord c)) (hex_encode t)"
    by (simp add: foldName_def r comp_def)
  then show "s = t"
  proof (induction s arbitrary: t)
    case Nil
    then show ?case by (cases t) (simp_all add: hex_encode_def)
  next
    case (Cons c s)
    then obtain d u where t: "t = d # u" by (cases t) (auto simp: hex_encode_def)
    have b: "ord x div 16 < 16" for x using ord_less [of x] by linarith
    have "ord c div 16 = ord d div 16" by (rule fold_hex_digit) (use Cons.prems b in \<open>simp_all add: t hex_encode_def\<close>)
    moreover have "ord c mod 16 = ord d mod 16" by (rule fold_hex_digit) (use Cons.prems in \<open>simp_all add: t hex_encode_def\<close>)
    ultimately have "c = d" unfolding ord_eq_iff by (metis div_mult_mod_eq)
    moreover have "s = u" using Cons t by (simp add: hex_encode_def)
    ultimately show ?case by (simp only: t)
  qed
qed

text \<open>A record right after the signed bytes is checked against their digest, separator or not.\<close>

lemma snapshot_of_signed:
  assumes "Type (Event r) = TypeBundleSignature"
  shows "hashBundleSnapshotBeforeRecord (bind_prefix (signed_prefix raw) r) (hex_encode (Sum256 raw)) = Inr (Sum256 raw)"
proof (cases "needs_separator raw")
  case True
  then have "prefix_hashes (signed_prefix raw) = (Sum256 (raw @ [CHR 0x0A]), Sum256 raw, True)"
    by (cases raw rule: rev_cases) (auto simp: prefix_hashes_def signed_prefix_def needs_separator_def nth_append butlast_append)
  then show ?thesis using assms by (simp add: hashBundleSnapshotBeforeRecord_def bind_prefix_def SourcePrefixHashes_def)
next
  case False
  then have p: "signed_prefix raw = raw" by (simp add: signed_prefix_def)
  have "h' = Sum256 raw" if "prefix_hashes raw = (h, h', True)" "foldName (hex_encode (Sum256 raw)) = foldName (hex_encode h')" for h h'
    using foldName_hex [OF that(2)] by simp
  then show ?thesis
    using assms by (auto simp: hashBundleSnapshotBeforeRecord_def bind_prefix_def SourcePrefixHashes_def p prefix_hashes_def)
qed

section \<open>What signing writes\<close>

definition signed_event :: "atb_bundle \<Rightarrow> payload \<Rightarrow> string \<Rightarrow> event" where
  "signed_event b data signedAt = next_event b TypeBundleSignature (AMap data) (Some (timestamp_options signedAt))"

lemma sign_Inr:
  assumes "signToWithSignerUnlocked wr tm sg br raw = Inr (out, h)"
  obtains b data j where "LoadReader br raw = Inr b" "Verify b = None" "signature_record tm sg (Sum256 raw) = Inr data"
    "encodable (signed_event b data tm)"
    "record_json (new_record (signed_event b data tm) (event_hash (signed_event b data tm))) = Some j"
    "out = signed_prefix raw @ render_html j @ [CHR 0x0A]" "int (length out) \<le> MaxBundleSizeBytes" "h = hex_encode (Sum256 raw)"
proof -
  have "raw = take (nat (MaxBundleSizeBytes + 1)) raw" if "int (length (take (nat (MaxBundleSizeBytes + 1)) raw)) \<le> MaxBundleSizeBytes"
    using that by (auto simp: MaxBundleSizeBytes_def min_def split: if_splits)
  then have r: "readSigningInput raw MaxBundleSizeBytes = Inr x \<Longrightarrow> x = raw" for x
    by (auto simp: readSigningInput_def Let_def split: if_splits)
  note def = signToWithSignerUnlocked_def signToWithSignerLimited_def
  have rd: "readSigningInput raw MaxBundleSizeBytes = Inr raw"
    using assms r by (cases "readSigningInput raw MaxBundleSizeBytes") (simp_all add: def)
  obtain b where b1: "LoadReader br raw = Inr b"
    using assms rd by (cases "LoadReader br raw") (simp_all add: def)
  have b2: "Verify b = None" using assms rd b1 by (cases "Verify b") (simp_all add: def)
  obtain data where b3: "signature_record tm sg (Sum256 raw) = Inr data"
    using assms rd b1 b2 by (cases "signature_record tm sg (Sum256 raw)") (simp_all add: def)
  obtain b' where b4: "AppendWithOptions b TypeBundleSignature (AMap data) (Some (timestamp_options tm)) = Inr b'"
    using assms rd b1 b2 b3
    by (cases "AppendWithOptions b TypeBundleSignature (AMap data) (Some (timestamp_options tm))") (simp_all add: def)
  have b: "appendSignedRecord wr raw (last (Records b')) MaxBundleSizeBytes = Inr out" "h = hex_encode (Sum256 raw)"
    using assms rd b1 b2 b3 b4 by (auto simp: def)
  from b4 have e: "encodable (signed_event b data tm)"
    and l: "last (Records b') = new_record (signed_event b data tm) (event_hash (signed_event b data tm))"
    by (auto simp: AppendWithOptions_Inr signed_event_def)
  from b(1) obtain j where j: "record_json (last (Records b')) = Some j"
    and out: "out = signed_prefix raw @ render_html j @ [CHR 0x0A]" and len: "int (length out) \<le> MaxBundleSizeBytes"
    by (auto simp: appendSignedRecord_def Let_def signedPayloadMetrics_def signedPayloadCapacity_def signed_prefix_def
        needs_separator_def split: option.splits if_splits)
  show thesis by (rule that [OF b1 b2 b3 e j [unfolded l] out len b(2)])
qed

lemma signature_record_Inr:
  assumes "signature_record tm sg d = Inr data"
  obtains sig pk kid be algo algo' where "sg d = Some (sig, pk, kid, be, algo)" "sig \<noteq> []" "checked_algorithm algo pk = Inr algo'"
    "pk \<noteq> []" "algo' \<in> {''ed25519'', ''ecdsa-p256''}"
    "data = map (\<lambda>(k, s). (k, AString s)) (signature_strings tm d pk sig kid be algo' tm)"
proof -
  from assms obtain sig pk kid be algo algo' where *: "sg d = Some (sig, pk, kid, be, algo)" "sig \<noteq> []"
    "checked_algorithm algo pk = Inr algo'" "data = NewBundleSignatureRecord tm d pk sig kid be algo' tm"
    by (auto simp: signature_record_def split: option.splits if_splits)
  moreover from *(3) have "pk \<noteq> []" "algo' \<in> {''ed25519'', ''ecdsa-p256''}"
    by (auto simp: checked_algorithm_def split: if_splits)
  ultimately show thesis by (intro that) (simp_all add: NewBundleSignatureRecord_strings)
qed

lemma Verify_snoc_wire:
  assumes "Verify b = None" "wire_ok e" "encodable e" "e = next_event b t d o'" "t \<noteq> ManifestEventType" "ascii_text t"
  shows "Verify \<lparr>Records = Records b @ [bind_prefix p (wire_record (new_record e (event_hash e)))]\<rparr> = None"
proof -
  obtain w where w: "wire_event e = coerce_event e w" "event_body (wire_event e) = event_body e" "encodable (wire_event e)"
    using wire_event_spec [OF assms(2)] by auto
  define r where "r = bind_prefix p (wire_record (new_record e (event_hash e)))"
  have ev: "Event r = wire_event e" and h: "Hash r = event_hash e"
    using valid_utf8_digest by (simp_all add: r_def wire_record_def new_record_def event_hash_def)
  have ty: "Type (wire_event e) \<noteq> ManifestEventType"
    using Type_wire_event [OF assms(2) assms(6)] assms(4,5) by auto
  have fs: "first_seq (Records b @ [x]) = first_seq (Records b)" if "Type (Event x) \<noteq> ManifestEventType" for x
    using that by (cases "Records b") (auto simp: first_seq_def hasManifestRecord_def)
  have seq: "Sequence (wire_event e) = first_seq (Records b) + int (length (Records b))"
  proof -
    have "Sequence e = first_seq (Records b @ [new_record e []]) + int (length (Records b))"
      using next_event_Sequence [of t b d o' "[]"] assms(4,5) by auto
    moreover have "Type (Event (new_record e [])) \<noteq> ManifestEventType" using assms(4,5) by (simp add: new_record_def)
    ultimately show ?thesis using fs w(1) by simp
  qed
  have prev: "PrevHash (wire_event e) = PrevHash e"
  proof -
    have "valid_utf8 (PrevHash e)"
    proof (cases "Records b = []")
      case False
      then have "Hash (last (Records b)) = digest (PrevHash (Event (last (Records b))) @ event_body (Event (last (Records b))))"
        using assms(1) events.linked_nth [of GenesisHash "pairs (Records b)" "length (Records b) - 1"]
        by (simp add: Verify_None last_conv_nth)
      with False assms(4) valid_utf8_digest show ?thesis by simp
    qed (use assms(4) valid_utf8_Genesis in simp)
    then show ?thesis by (simp add: w(1) coerce_event_def)
  qed
  have "numbered (first_seq (Records b @ [r])) (map Event (Records b @ [r]))"
    using assms(1) fs [of r] ty seq w(3) by (simp add: Verify_None numbered_append ev)
  moreover have "linked_events GenesisHash (pairs (Records b @ [r]))"
    using assms(1,4) w(2) prev by (simp add: Verify_None linked_append pairs_head ev h event_hash_def)
  ultimately show ?thesis by (simp add: Verify_None r_def)
qed

text \<open>The contract of a signer: what it returns verifies under the public key it returns.\<close>

definition honest :: "verifiers \<Rightarrow> signer \<Rightarrow> bool" where
  "honest v sg = (\<forall>d sig pk kid be algo algo'. sg d = Some (sig, pk, kid, be, algo) \<longrightarrow> checked_algorithm algo pk = Inr algo' \<longrightarrow>
     verify_algorithm v algo' d sig pk = None)"

lemma signature_event_wire:
  assumes "signature_record tm sg d = Inr data" "int (length (Records b)) \<le> MaxBundleRecords"
  obtains w where "wire_ok (signed_event b data tm)" "wire_event (signed_event b data tm) = coerce_event (signed_event b data tm) (AMap w)"
    "honest v sg \<Longrightarrow> length d = 32 \<Longrightarrow>
       \<exists>s. ParseBundleSignature (AMap w) = Inr s \<and> bs_BundleHash s = hex_encode d \<and> VerifyBundleSignature v s d = None"
proof -
  obtain sig pk kid be algo algo' where s: "sg d = Some (sig, pk, kid, be, algo)" "sig \<noteq> []" "checked_algorithm algo pk = Inr algo'"
    "pk \<noteq> []" "algo' \<in> {''ed25519'', ''ecdsa-p256''}"
    and data: "data = map (\<lambda>(k, s). (k, AString s)) (signature_strings tm d pk sig kid be algo' tm)"
    by (rule signature_record_Inr [OF assms(1)])
  from string_map_wire [OF signature_strings_keys] obtain j w where j: "to_json (AMap data) = Some j"
    and w: "to_any (coerce_json j) = Some (AMap w)"
    and m: "\<And>k. map_of w k = map_option (\<lambda>s. AString (coerce_utf8 s)) (map_of (signature_strings tm d pk sig kid be algo' tm) k)"
    unfolding data by blast
  have D: "Data (signed_event b data tm) = AMap data" by (simp add: signed_event_def)
  have seq: "int64 (Sequence (signed_event b data tm))"
    using assms(2) by (simp add: signed_event_def next_event_def Let_def int64_def MaxBundleRecords_def)
  have "go_value (AMap data)"
    using signature_strings_keys(1) [of tm d pk sig kid be algo' tm]
    by (auto simp: data comp_def case_prod_beta list_all_iff)
  then have ok: "wire_ok (signed_event b data tm)" using seq j by (auto simp: wire_ok_def D event_json_def)
  show thesis
  proof (rule that [OF ok])
    show "wire_event (signed_event b data tm) = coerce_event (signed_event b data tm) (AMap w)"
      by (rule wire_event_payload [OF _ w seq]) (simp only: D j)
    assume h: "honest v sg" and d: "length d = 32"
    then have "d \<noteq> []" by auto
    from Parse_signature_wire [OF m this s(4,2,5)] obtain s' where
      s': "ParseBundleSignature (AMap w) = Inr s'" "bs_BundleHash s' = hex_encode d" "bs_Signature s' = b64_encode sig"
      "bs_PublicKey s' = b64_encode pk" "bs_Algorithm s' = algo'" by auto
    have "verify_algorithm v algo' d sig pk = None" using h s(1,3) by (auto simp: honest_def)
    moreover have "algo' \<noteq> []" using s(5) by auto
    ultimately have "VerifyBundleSignature v s' d = None"
      by (simp add: VerifyBundleSignature_def s' d hex_decode_encode b64_decode_encode)
    with s' show "\<exists>s. ParseBundleSignature (AMap w) = Inr s \<and> bs_BundleHash s = hex_encode d \<and> VerifyBundleSignature v s d = None"
      by blast
  qed
qed

lemma latest_snoc:
  "Type (Event r) = TypeBundleSignature \<Longrightarrow> latestBundleSignatureIndex (rs @ [r]) = Some (length rs)"
  by (simp add: latestBundleSignatureIndex_def)

text \<open>Loading what signing wrote, from the load of its input.\<close>

lemma load_signed:
  assumes "LoadReader br raw = Inr b" "\<And>k. br' k \<le> MaxBundleSizeBytes"
    and "wire_ok (Event r)" "record_json r = Some j" "Type (Event (wire_record r)) \<noteq> ManifestEventType"
    and "int (length (signed_prefix raw @ render_html j @ [CHR 0x0A])) \<le> MaxBundleSizeBytes"
    and "int (length (render_html j)) \<le> MaxLineSizeBytes"
  shows "LoadReader br' (signed_prefix raw @ render_html j @ [CHR 0x0A]) =
    (if int (length (Records b)) < MaxBundleRecords
     then Inr \<lparr>Records = Records b @ [bind_prefix (signed_prefix raw) (wire_record r)]\<rparr> else Inl TooManyRecords)"
proof -
  define L where "L = \<lparr>MaxBytes = MaxBundleSizeBytes, MaxRecords = MaxBundleRecords\<rparr>"
  have mx: "MaxBytes L = MaxBundleSizeBytes" "MaxRecords L = MaxBundleRecords" by (simp_all add: L_def)
  define l where "l = render_html j"
  have dec: "decode_record l = Some (wire_record r)" and wf: "wf_json j"
    using decode_record_render [OF assms(3,4)] by (simp_all add: l_def)
  have pr: "printable l" and ne: "l \<noteq> []" using printable_render_html [OF wf] render_html_nonempty [OF wf] by (simp_all add: l_def)
  note ld = LoadReaderWithLimits_Inr [OF assms(1) [unfolded LoadReader_def L_def [symmetric]]]
  obtain i t where step: "load_loop L br' 0 (raw_lines (signed_prefix raw @ l @ [CHR 0x0A])) [] new_tracker =
      load_loop L br' i [l @ [CHR 0x0A]] (Records b) t" and t: "tracks t (signed_prefix raw)"
    using load_loop_signed [OF ld(1) _ pr, of br'] assms(2) by (auto simp: mx)
  have fits: "token_fits (l @ [CHR 0x0A])" using assms(7) by (simp add: token_fits_def l_def)
  have loop: "load_loop L br' i [l @ [CHR 0x0A]] (Records b) t =
      (if int (length (Records b)) < MaxBundleRecords
       then Inr (Records b @ [bind_prefix (signed_prefix raw) (wire_record r)]) else Inl TooManyRecords)"
    using fits assms(2) [of i] assms(7) ne dec
    by (simp add: Let_def trim_line_printable [OF pr] set_snapshot_tracks [OF t] mx not_le [symmetric] l_def [symmetric])
  have man: "hasManifestRecord (Records b @ [bind_prefix (signed_prefix raw) (wire_record r)]) = hasManifestRecord (Records b)"
    using assms(5) by (cases "Records b") (auto simp: hasManifestRecord_def)
  have hd: "hasManifestRecord (Records b) \<Longrightarrow> hd (Records b @ xs) = hd (Records b)" for xs
    by (cases "Records b") (auto simp: hasManifestRecord_def)
  show ?thesis
    unfolding l_def [symmetric] LoadReader_def L_def [symmetric] LoadReaderWithLimits_def step loop
    using assms(6) ld(4) man hd [of "[bind_prefix (signed_prefix raw) (wire_record r)]"]
    by (auto simp: mx MaxBundleRecords_def l_def [symmetric] is_ok_iff)
qed

text \<open>C17: signing end to end. What signing writes loads again: the old records with one signature record after them, a chain
  that verifies, and a latest signature that verifies against the bytes on disk and names the digest that
  was returned. A bundle that already holds the maximal number of records is signed without an error, and
  the result no longer loads. The signature line must fit the line limit.\<close>

theorem signed_bundle_verifies:
  assumes "signToWithSignerUnlocked wr tm sg br raw = Inr (out, h)" "LoadReader br raw = Inr b"
    and "honest v sg" "\<forall>k. br' k \<le> MaxBundleSizeBytes"
    and "int (length out) - int (length raw) \<le> MaxLineSizeBytes"
  shows "if int (length (Records b)) < MaxBundleRecords
    then \<exists>r. LoadReader br' out = Inr \<lparr>Records = Records b @ [r]\<rparr> \<and> Verify \<lparr>Records = Records b @ [r]\<rparr> = None \<and>
      inspectBundleSignature v (Records b @ [r]) = Some \<lparr>sr_Verified = True, sr_BundleHash = h, sr_Error = None\<rparr>
    else LoadReader br' out = Inl TooManyRecords"
proof -
  obtain data j where vb: "Verify b = None" and sd: "signature_record tm sg (Sum256 raw) = Inr data"
    and en: "encodable (signed_event b data tm)"
    and j: "record_json (new_record (signed_event b data tm) (event_hash (signed_event b data tm))) = Some j"
    and out: "out = signed_prefix raw @ render_html j @ [CHR 0x0A]" and len: "int (length out) \<le> MaxBundleSizeBytes"
    and h: "h = hex_encode (Sum256 raw)"
    by (rule sign_Inr [OF assms(1)]) (use assms(2) in auto)
  define e where "e = signed_event b data tm"
  define r where "r = bind_prefix (signed_prefix raw) (wire_record (new_record e (event_hash e)))"
  have count: "int (length (Records b)) \<le> MaxBundleRecords"
    using load_loop_count [OF LoadReaderWithLimits_Inr(1) [OF assms(2) [unfolded LoadReader_def]]] by (simp add: MaxBundleRecords_def)
  obtain w where ok: "wire_ok e" and we: "wire_event e = coerce_event e (AMap w)"
    and sig: "\<exists>s. ParseBundleSignature (AMap w) = Inr s \<and> bs_BundleHash s = h \<and> VerifyBundleSignature v s (Sum256 raw) = None"
    by (rule signature_event_wire [OF sd count, of v]) (use assms(3) in \<open>auto simp: e_def h\<close>)
  have asc: "ascii_text TypeBundleSignature" by (simp add: TypeBundleSignature_def)
  have ty: "Type (wire_event e) = TypeBundleSignature" using Type_wire_event [OF ok asc] by (simp add: e_def signed_event_def)
  have nm: "TypeBundleSignature \<noteq> ManifestEventType" by (simp add: TypeBundleSignature_def ManifestEventType_def)
  have er: "Event r = wire_event e" by (simp add: r_def wire_record_def new_record_def)
  have short: "int (length (render_html j)) \<le> MaxLineSizeBytes" using assms(5) by (simp add: out signed_prefix_def split: if_splits)
  have load: "LoadReader br' out = (if int (length (Records b)) < MaxBundleRecords
      then Inr \<lparr>Records = Records b @ [r]\<rparr> else Inl TooManyRecords)"
    unfolding out r_def
    by (rule load_signed [OF assms(2)])
      (use assms(4) j ok len short ty nm in \<open>simp_all add: e_def new_record_def wire_record_def out\<close>)
  have ver: "Verify \<lparr>Records = Records b @ [r]\<rparr> = None"
    unfolding r_def by (rule Verify_snoc_wire [OF vb ok _ _ nm asc]) (use en in \<open>simp_all add: e_def signed_event_def\<close>)
  have "hashBundleSnapshotBeforeRecord r h = Inr (Sum256 raw)"
    unfolding r_def h by (rule snapshot_of_signed) (simp add: wire_record_def new_record_def ty)
  with sig have "check_bundle_signature v r = Inr h"
    by (auto simp: check_bundle_signature_def er we coerce_event_def)
  then have "inspectBundleSignature v (Records b @ [r]) = Some \<lparr>sr_Verified = True, sr_BundleHash = h, sr_Error = None\<rparr>"
    using latest_snoc [of r "Records b"] ty by (simp add: inspectBundleSignature_def er Let_def)
  with load ver show ?thesis by auto
qed

subsection \<open>A signed sample bundle\<close>

definition demo_signer :: signer where
  \<comment> \<open>a signature that repeats the digest, under a fixed key\<close>
  "demo_signer d = Some (d @ d, replicate 32 (CHR ''k''), ''key-1'', [], [])"

definition demo_verifiers :: verifiers where
  "demo_verifiers = \<lparr>ed_verify = \<lambda>pub msg sig. length msg = 32 \<and> sig = msg @ msg, ecdsa_verify = \<lambda>_ _ _. None\<rparr>"

definition demo_signer_32 :: signer where
  "demo_signer_32 d = (if length d = 32 then demo_signer d else None)"

lemma demo_honest: "honest demo_verifiers demo_signer_32"
  by (auto simp: honest_def demo_signer_32_def demo_signer_def checked_algorithm_def verify_algorithm_def demo_verifiers_def
      split: if_splits)

lemma members_bound_sort: "members_bound (sort_key f ms) = members_bound ms"
proof -
  have ins: "members_bound (insort_key f p xs) = members_bound (p # xs)" for p xs
  proof (induction xs)
    case (Cons x xs)
    then show ?case by (cases p; cases x) auto
  qed simp
  show ?thesis
  proof (induction ms)
    case (Cons p ms)
    then show ?case by (cases p) (simp add: ins)
  qed simp
qed

lemma length_b64_encode: "length (b64_encode s) \<le> 2 * length s + 4"
  by (induction s rule: b64_encode.induct) (simp_all add: Let_def)

lemma demo_line_short:
  assumes "length (PrevHash e) = 64" "Sequence e = 1" "e = signed_event b data sample_time"
    and "signature_record sample_time demo_signer_32 (Sum256 raw) = Inr data"
    and "record_json (new_record e (event_hash e)) = Some j"
  shows "length (render_html j) \<le> 9000"
proof -
  have data: "data = map (\<lambda>(k, s). (k, AString s))
      (signature_strings sample_time (Sum256 raw) (replicate 32 (CHR ''k'')) (Sum256 raw @ Sum256 raw) ''key-1'' [] ''ed25519'' sample_time)"
    using assms(4) by (auto simp: signature_record_def demo_signer_32_def demo_signer_def checked_algorithm_def
        NewBundleSignatureRecord_strings split: if_splits)
  define ms where "ms = map (\<lambda>(k, s). (k, JString s))
      (signature_strings sample_time (Sum256 raw) (replicate 32 (CHR ''k'')) (Sum256 raw @ Sum256 raw) ''key-1'' [] ''ed25519'' sample_time)"
  have "to_json (Data e) = Some (JObject (sort_key fst ms))"
    unfolding assms(3) by (simp add: signed_event_def data to_members_strings ms_def)
  then have j: "j = JObject [(''event'', JObject (event_members e (JObject (sort_key fst ms)))), (''hash'', JString (event_hash e))]"
    using assms(5) by (auto simp: record_json_def event_json_def new_record_def)
  have "length (b64_encode (Sum256 raw @ Sum256 raw)) \<le> 132" "length (b64_encode (replicate 32 (CHR ''k''))) \<le> 68"
    using length_b64_encode [of "Sum256 raw @ Sum256 raw"] length_b64_encode [of "replicate 32 (CHR ''k'')"] by simp_all
  then have "members_bound ms \<le> 4000"
    by (simp add: ms_def signature_strings_def sample_time_def)
  moreover have "show_int 1 = ''1''" by code_simp
  moreover have "length (event_hash e) = 64" by (simp add: event_hash_def)
  moreover have f: "Type e = TypeBundleSignature" "HashAlgo e = ''sha256''" "ActorID e = None" "OrgID e = None" "WorkspaceID e = None"
    "Timestamp e = sample_time" "TraceID e = []" "SpanID e = []" "ParentSpanID e = []" "Acquisition e = None"
    by (simp_all add: assms(3) signed_event_def next_event_def Let_def apply_options_def zero_event_def timestamp_options_def sample_time_def)
  ultimately have "text_bound j \<le> 9000"
    using assms(1,2)
    by (simp add: j members_bound_sort event_members_def f omit_string_def omit_ptr_def)
      (simp add: sample_time_def TypeBundleSignature_def)
  then show ?thesis using length_render(1) [OF refl, of j] by (simp add: render_html_def)
qed

definition demo_loaded :: atb_bundle where
  "demo_loaded = \<lparr>Records = bind_all [] (Records sample_first)\<rparr>"

lemma demo_loaded_facts:
  "LoadReader (\<lambda>_. 0) sample_text = Inr demo_loaded" "Verify demo_loaded = None" "length (Records demo_loaded) = 1"
  "hasManifestRecord (Records demo_loaded)"
proof -
  show L: "LoadReader (\<lambda>_. 0) sample_text = Inr demo_loaded"
    using sample_loads by (auto simp: LoadVerified_def demo_loaded_def split: if_splits option.splits)
  from sample_loads show "Verify demo_loaded = None" by (auto simp: LoadVerified_def demo_loaded_def split: if_splits option.splits)
  show "length (Records demo_loaded) = 1" unfolding demo_loaded_def by (subst sample_records) simp
  then show "hasManifestRecord (Records demo_loaded)"
    using sample_loads by (cases "Records demo_loaded")
      (auto simp: LoadVerified_def demo_loaded_def hasManifestRecord_def split: if_splits option.splits)
qed

lemma demo_sign:
  "\<exists>out. signToWithSignerUnlocked (\<lambda>_. True) sample_time demo_signer_32 (\<lambda>_. 0) sample_text = Inr (out, hex_encode (Sum256 sample_text)) \<and>
     int (length out) - int (length sample_text) \<le> MaxLineSizeBytes"
proof -
  have "Sum256 sample_text \<noteq> []" using length_Sum256 [of sample_text] by fastforce
  then obtain data where d: "signature_record sample_time demo_signer_32 (Sum256 sample_text) = Inr data"
    by (simp add: signature_record_def demo_signer_32_def demo_signer_def checked_algorithm_def)
  define e where "e = signed_event demo_loaded data sample_time"
  obtain w where ok: "wire_ok e"
    by (rule signature_event_wire [OF d, of demo_loaded demo_verifiers]) (use demo_loaded_facts(3) in \<open>auto simp: e_def MaxBundleRecords_def\<close>)
  then obtain j where j: "record_json (new_record e (event_hash e)) = Some j"
    by (auto simp: wire_ok_def record_json_def new_record_def)
  obtain r where r: "Records demo_loaded = [r]" using demo_loaded_facts(3) by (auto simp: length_Suc_conv)
  have "PrevHash e = Hash r" by (simp add: e_def signed_event_def r)
  moreover have "length (Hash r) = 64"
    using demo_loaded_facts(2) by (simp add: Verify_None r)
  moreover have "Sequence e = 1"
    using demo_loaded_facts(4) by (simp add: e_def signed_event_def next_event_def Let_def r) (simp add: TypeBundleSignature_def ManifestEventType_def)
  ultimately have short: "length (render_html j) \<le> 9000" by (intro demo_line_short [OF _ _ e_def d j]) simp_all
  have type: "event_type_ok TypeBundleSignature" by code_simp
  have app: "AppendWithOptions demo_loaded TypeBundleSignature (AMap data) (Some (timestamp_options sample_time)) =
      Inr \<lparr>Records = Records demo_loaded @ [new_record e (event_hash e)]\<rparr>"
    using wire_ok_encodable [OF ok] type
    by (simp add: AppendWithOptions_Inr e_def signed_event_def acquisition_guard_def timestamp_options_def TypeBundleSignature_def ManifestEventType_def)
  have rd: "readSigningInput sample_text MaxBundleSizeBytes = Inr sample_text"
    using sample_text_short by (simp add: readSigningInput_def Let_def MaxBundleSizeBytes_def MaxInt_def sample_text_def)
  have w: "appendSignedRecord (\<lambda>_. True) sample_text (new_record e (event_hash e)) MaxBundleSizeBytes =
      Inr (signed_prefix sample_text @ render_html j @ [CHR 0x0A])"
    using short sample_text_short
    by (simp add: appendSignedRecord_def j Let_def signedPayloadMetrics_def signedPayloadCapacity_def MaxInt_def MaxBundleSizeBytes_def
        sample_text_def signed_prefix_def needs_separator_def)
  have "signToWithSignerUnlocked (\<lambda>_. True) sample_time demo_signer_32 (\<lambda>_. 0) sample_text =
      Inr (signed_prefix sample_text @ render_html j @ [CHR 0x0A], hex_encode (Sum256 sample_text))"
    by (simp add: signToWithSignerUnlocked_def signToWithSignerLimited_def rd demo_loaded_facts(1,2) d app w)
  moreover have "int (length (signed_prefix sample_text @ render_html j @ [CHR 0x0A])) - int (length sample_text) \<le> MaxLineSizeBytes"
    using short by (simp add: signed_prefix_def MaxLineSizeBytes_def)
  ultimately show ?thesis by blast
qed

theorem signed_bundle_verifies_witness:
  "\<exists>out r. signToWithSignerUnlocked (\<lambda>_. True) sample_time demo_signer_32 (\<lambda>_. 0) sample_text = Inr (out, hex_encode (Sum256 sample_text)) \<and>
     LoadReader (\<lambda>_. 0) out = Inr \<lparr>Records = Records demo_loaded @ [r]\<rparr> \<and> Verify \<lparr>Records = Records demo_loaded @ [r]\<rparr> = None \<and>
     inspectBundleSignature demo_verifiers (Records demo_loaded @ [r]) =
       Some \<lparr>sr_Verified = True, sr_BundleHash = hex_encode (Sum256 sample_text), sr_Error = None\<rparr>"
proof -
  obtain out where out: "signToWithSignerUnlocked (\<lambda>_. True) sample_time demo_signer_32 (\<lambda>_. 0) sample_text =
      Inr (out, hex_encode (Sum256 sample_text))" "int (length out) - int (length sample_text) \<le> MaxLineSizeBytes"
    using demo_sign by blast
  have br: "\<forall>k::nat. (0::int) \<le> MaxBundleSizeBytes" by (simp add: MaxBundleSizeBytes_def)
  from signed_bundle_verifies [OF out(1) demo_loaded_facts(1) demo_honest br out(2)] out(1) show ?thesis
    by (auto simp: demo_loaded_facts(3) MaxBundleRecords_def)
qed

end
