(* ===== verification/Go_Time.thy ===== *)
theory Go_Time
  imports Json
begin

text \<open>
  The package \<^verbatim>\<open>time\<close> as far as the program uses it: \<^verbatim>\<open>time.Parse(time.RFC3339, s)\<close>, the order of two
  times, their difference as a saturating 64-bit duration, and \<^verbatim>\<open>Format(time.RFC3339)\<close>. A parsed time keeps
  its wall clock and zone offset. The parser is Go's layout parser, with its leniencies: an hour of one
  digit, a fraction of a second after a point or a comma, and zone offsets up to 24:60.
\<close>

section \<open>Times\<close>

record go_time =
  year :: int
  month :: int
  day :: int
  hour :: int
  minute :: int
  second :: int
  nsec :: int
  zone :: int

definition is_leap :: "int \<Rightarrow> bool" where
  "is_leap y = (y mod 4 = 0 \<and> (y mod 100 \<noteq> 0 \<or> y mod 400 = 0))"

definition daysIn :: "int \<Rightarrow> int \<Rightarrow> int" where
  "daysIn m y =
     (if m = 2 then (if is_leap y then 29 else 28)
      else if m \<in> {4, 6, 9, 11} then 30 else 31)"

definition days_before_year :: "int \<Rightarrow> int" where
  \<comment> \<open>days from the start of year 0 to the start of the given year\<close>
  "days_before_year y = 365 * y + (y + 3) div 4 - (y + 99) div 100 + (y + 399) div 400"

fun days_before_month :: "nat \<Rightarrow> int \<Rightarrow> int" where
  "days_before_month 0 y = 0"
| "days_before_month (Suc m) y = days_before_month m y + daysIn (int m + 1) y"

definition day_number :: "go_time \<Rightarrow> int" where
  "day_number t = days_before_year (year t) + days_before_month (nat (month t - 1)) (year t) + day t - 1"

definition instant :: "go_time \<Rightarrow> int" where
  \<comment> \<open>nanoseconds on the universal time line\<close>
  "instant t =
     (day_number t * 86400 + hour t * 3600 + minute t * 60 + second t - zone t) * 1000000000 + nsec t"

definition Before :: "go_time \<Rightarrow> go_time \<Rightarrow> bool" where
  "Before t u = (instant t < instant u)"

definition Sub :: "go_time \<Rightarrow> go_time \<Rightarrow> int" where
  \<comment> \<open>a \<^verbatim>\<open>Duration\<close> in nanoseconds, saturating at the bounds of \<^verbatim>\<open>int64\<close>\<close>
  "Sub t u = max (- (2 ^ 63)) (min (2 ^ 63 - 1) (instant t - instant u))"

section \<open>Parsing\<close>

definition digit_at :: "string \<Rightarrow> nat \<Rightarrow> bool" where
  "digit_at s i = (i < length s \<and> is_digit (s ! i))"

definition dig :: "char \<Rightarrow> int" where
  "dig c = int (ord c) - 48"

definition getnum :: "bool \<Rightarrow> string \<Rightarrow> (int \<times> string) option" where
  \<comment> \<open>one or two digits; two when \<^verbatim>\<open>fixed\<close>\<close>
  "getnum fixed s =
     (if \<not> digit_at s 0 then None
      else if \<not> digit_at s 1 then (if fixed then None else Some (dig (s ! 0), drop 1 s))
      else Some (dig (s ! 0) * 10 + dig (s ! 1), drop 2 s))"

definition get_range :: "bool \<Rightarrow> int \<Rightarrow> int \<Rightarrow> string \<Rightarrow> (int \<times> string) option" where
  \<comment> \<open>a number with its range check\<close>
  "get_range fixed lo hi s =
     (case getnum fixed s of None \<Rightarrow> None | Some (n, r) \<Rightarrow> if lo \<le> n \<and> n \<le> hi then Some (n, r) else None)"

definition lit :: "char \<Rightarrow> string \<Rightarrow> string option" where
  "lit c s = (case s of [] \<Rightarrow> None | d # r \<Rightarrow> if d = c then Some r else None)"

definition get_year :: "string \<Rightarrow> (int \<times> string) option" where
  "get_year s =
     (if length s < 4 \<or> \<not> list_all is_digit (take 4 s) then None
      else Some (dig (s ! 0) * 1000 + dig (s ! 1) * 100 + dig (s ! 2) * 10 + dig (s ! 3), drop 4 s))"

definition parseNanoseconds :: "string \<Rightarrow> int" where
  \<comment> \<open>the digits of the fraction; digits after the ninth are dropped\<close>
  "parseNanoseconds ds =
     (let d9 = take 9 ds in foldl (\<lambda>n c. n * 10 + dig c) 0 d9 * 10 ^ (9 - length d9))"

definition get_fraction :: "string \<Rightarrow> int \<times> string" where
  "get_fraction s =
     (if s \<noteq> [] \<and> (hd s = CHR ''.'' \<or> hd s = CHR '','') \<and> digit_at s 1
      then (parseNanoseconds (takeWhile is_digit (tl s)), dropWhile is_digit (tl s))
      else (0, s))"

definition get_zone :: "string \<Rightarrow> (int \<times> string) option" where
  "get_zone s =
     (if s \<noteq> [] \<and> hd s = CHR ''Z'' then Some (0, tl s)
      else if length s < 6 \<or> s ! 3 \<noteq> CHR '':'' then None
      else case getnum True (take 2 (drop 1 s)) of
             None \<Rightarrow> None
           | Some (hr, _) \<Rightarrow>
               case getnum True (take 2 (drop 4 s)) of
                 None \<Rightarrow> None
               | Some (mm, _) \<Rightarrow>
                   if hr > 24 \<or> mm > 60 then None
                   else if s ! 0 = CHR ''+'' then Some ((hr * 60 + mm) * 60, drop 6 s)
                   else if s ! 0 = CHR ''-'' then Some (- ((hr * 60 + mm) * 60), drop 6 s)
                   else None)"

definition parse_date :: "string \<Rightarrow> (int \<times> int \<times> int \<times> string) option" where
  "parse_date s =
     (case get_year s of None \<Rightarrow> None | Some (y, s) \<Rightarrow>
      case lit CHR ''-'' s of None \<Rightarrow> None | Some s \<Rightarrow>
      case get_range True 1 12 s of None \<Rightarrow> None | Some (m, s) \<Rightarrow>
      case lit CHR ''-'' s of None \<Rightarrow> None | Some s \<Rightarrow>
      case getnum True s of None \<Rightarrow> None | Some (d, s) \<Rightarrow>
      if d < 1 \<or> d > daysIn m y then None else Some (y, m, d, s))"

definition parse_clock :: "string \<Rightarrow> (int \<times> int \<times> int \<times> string) option" where
  "parse_clock s =
     (case get_range False 0 23 s of None \<Rightarrow> None | Some (h, s) \<Rightarrow>
      case lit CHR '':'' s of None \<Rightarrow> None | Some s \<Rightarrow>
      case get_range True 0 59 s of None \<Rightarrow> None | Some (m, s) \<Rightarrow>
      case lit CHR '':'' s of None \<Rightarrow> None | Some s \<Rightarrow>
      case get_range True 0 59 s of None \<Rightarrow> None | Some (sec, s) \<Rightarrow> Some (h, m, sec, s))"

definition ParseRFC3339 :: "string \<Rightarrow> go_time option" where
  "ParseRFC3339 s =
     (case parse_date s of None \<Rightarrow> None | Some (y, mo, d, s) \<Rightarrow>
      case lit CHR ''T'' s of None \<Rightarrow> None | Some s \<Rightarrow>
      case parse_clock s of None \<Rightarrow> None | Some (h, mi, sec, s) \<Rightarrow>
      case get_fraction s of (ns, s) \<Rightarrow>
      case get_zone s of None \<Rightarrow> None | Some (z, s) \<Rightarrow>
      if s \<noteq> [] then None
      else Some \<lparr>year = y, month = mo, day = d, hour = h, minute = mi, second = sec, nsec = ns, zone = z\<rparr>)"

section \<open>Formatting\<close>

definition pad2 :: "int \<Rightarrow> string" where
  "pad2 n = [byte (nat (48 + n div 10)), byte (nat (48 + n mod 10))]"

definition pad4 :: "int \<Rightarrow> string" where
  "pad4 n = pad2 (n div 100) @ pad2 (n mod 100)"

definition format_zone :: "int \<Rightarrow> string" where
  "format_zone z =
     (if z = 0 then ''Z''
      else let m = \<bar>z\<bar> div 60 in (if z < 0 then ''-'' else ''+'') @ pad2 (m div 60) @ '':'' @ pad2 (m mod 60))"

definition FormatRFC3339 :: "go_time \<Rightarrow> string" where
  "FormatRFC3339 t =
     pad4 (year t) @ ''-'' @ pad2 (month t) @ ''-'' @ pad2 (day t) @ ''T'' @
     pad2 (hour t) @ '':'' @ pad2 (minute t) @ '':'' @ pad2 (second t) @ format_zone (zone t)"

section \<open>Parsing what was formatted\<close>

lemma dig_byte: "0 \<le> n \<Longrightarrow> n < 10 \<Longrightarrow> is_digit (byte (nat (48 + n))) \<and> dig (byte (nat (48 + n))) = n"
  by (auto simp: is_digit_def dig_def ord_byte nat_less_iff nat_le_iff le_nat_iff)

lemma getnum_pad2:
  assumes "0 \<le> n" "n < 100"
  shows "getnum f (pad2 n @ r) = Some (n, r)"
proof -
  have "0 \<le> n div 10" "n div 10 < 10" "0 \<le> n mod 10" "n mod 10 < 10" using assms by auto
  note d = dig_byte [OF this(1,2)] dig_byte [OF this(3,4)]
  have "n div 10 * 10 + n mod 10 = n" by (rule div_mult_mod_eq)
  with d show ?thesis by (simp add: getnum_def pad2_def digit_at_def)
qed

lemma get_range_pad2: "0 \<le> lo \<Longrightarrow> hi < 100 \<Longrightarrow> lo \<le> n \<Longrightarrow> n \<le> hi \<Longrightarrow> get_range f lo hi (pad2 n @ r) = Some (n, r)"
  by (simp add: get_range_def getnum_pad2)

lemma get_year_pad4:
  assumes "0 \<le> n" "n < 10000"
  shows "get_year (pad4 n @ r) = Some (n, r)"
proof -
  define a b where "a = n div 100" and "b = n mod 100"
  have ab: "0 \<le> a div 10" "a div 10 < 10" "0 \<le> a mod 10" "a mod 10 < 10"
    "0 \<le> b div 10" "b div 10 < 10" "0 \<le> b mod 10" "b mod 10 < 10"
    using assms by (auto simp: a_def b_def)
  note d = dig_byte [OF ab(1,2)] dig_byte [OF ab(3,4)] dig_byte [OF ab(5,6)] dig_byte [OF ab(7,8)]
  have "a div 10 * 10 + a mod 10 = a" "b div 10 * 10 + b mod 10 = b" by (rule div_mult_mod_eq)+
  then have "a div 10 * 1000 + a mod 10 * 100 + b div 10 * 10 + b mod 10 = a * 100 + b" by linarith
  then have "a div 10 * 1000 + a mod 10 * 100 + b div 10 * 10 + b mod 10 = n" by (simp add: a_def b_def)
  with d show ?thesis by (simp add: get_year_def pad4_def pad2_def a_def [symmetric] b_def [symmetric])
qed

definition time_ok :: "go_time \<Rightarrow> bool" where
  \<comment> \<open>a calendar date with a four-digit year, a clock time and a whole-minute offset below 24 hours\<close>
  "time_ok t =
     (0 \<le> year t \<and> year t < 10000 \<and> 1 \<le> month t \<and> month t \<le> 12 \<and> 1 \<le> day t \<and> day t \<le> daysIn (month t) (year t) \<and>
      0 \<le> hour t \<and> hour t \<le> 23 \<and> 0 \<le> minute t \<and> minute t \<le> 59 \<and> 0 \<le> second t \<and> second t \<le> 59 \<and>
      zone t mod 60 = 0 \<and> \<bar>zone t\<bar> \<le> 24 * 3600)"

lemma get_zone_format:
  assumes "z mod 60 = 0" "\<bar>z\<bar> \<le> 24 * 3600"
  shows "get_zone (format_zone z) = Some (z, [])"
proof (cases "z = 0")
  case False
  define m where "m = \<bar>z\<bar> div 60"
  have m: "0 \<le> m div 60" "m div 60 \<le> 24" "0 \<le> m mod 60" "m mod 60 < 60" using assms(2) by (auto simp: m_def)
  have z: "\<bar>z\<bar> = m * 60" using assms(1) by (auto simp: m_def abs_mult dvd_eq_mod_eq_0 [symmetric] elim!: dvdE)
  have h: "getnum True (pad2 (m div 60)) = Some (m div 60, [])" "getnum True (pad2 (m mod 60)) = Some (m mod 60, [])"
    using getnum_pad2 [of "m div 60" True "[]"] getnum_pad2 [of "m mod 60" True "[]"] m by auto
  have eq: "(m div 60 * 60 + m mod 60) * 60 = \<bar>z\<bar>" using z by simp
  have f: "format_zone z = (if z < 0 then ''-'' else ''+'') @ pad2 (m div 60) @ '':'' @ pad2 (m mod 60)"
    using False by (simp add: format_zone_def m_def Let_def)
  have p: "length (pad2 n) = 2" for n by (simp add: pad2_def)
  have "get_zone ([c] @ pad2 (m div 60) @ '':'' @ pad2 (m mod 60)) =
      Some (if c = CHR ''+'' then \<bar>z\<bar> else - \<bar>z\<bar>, [])" if "c = CHR ''+'' \<or> c = CHR ''-''" for c
    using that m h eq by (auto simp: get_zone_def nth_append p)
  from this [of "CHR ''+''"] this [of "CHR ''-''"] f show ?thesis by simp
qed (simp add: format_zone_def get_zone_def)

lemma get_fraction_zone: "get_fraction (format_zone z) = (0, format_zone z)"
  by (simp add: get_fraction_def format_zone_def Let_def)

lemma ParseRFC3339_Format:
  assumes "time_ok t"
  shows "ParseRFC3339 (FormatRFC3339 t) = Some (t\<lparr>nsec := 0\<rparr>)"
proof -
  have d: "day t < 100" using assms by (auto simp: time_ok_def daysIn_def split: if_splits)
  note ok = assms [unfolded time_ok_def]
  have "parse_date (FormatRFC3339 t) = Some (year t, month t, day t,
      ''T'' @ pad2 (hour t) @ '':'' @ pad2 (minute t) @ '':'' @ pad2 (second t) @ format_zone (zone t))"
    unfolding parse_date_def FormatRFC3339_def
    using ok d by (simp add: get_year_pad4 get_range_pad2 getnum_pad2 lit_def)
  moreover have "parse_clock (pad2 (hour t) @ '':'' @ pad2 (minute t) @ '':'' @ pad2 (second t) @ format_zone (zone t)) =
      Some (hour t, minute t, second t, format_zone (zone t))"
    unfolding parse_clock_def using ok by (simp add: get_range_pad2 lit_def)
  moreover have "get_zone (format_zone (zone t)) = Some (zone t, [])" using ok by (intro get_zone_format) auto
  ultimately show ?thesis
    by (simp add: ParseRFC3339_def lit_def get_fraction_zone)
qed

end
