(* ===== verification/Float_Arith.thy ===== *)
theory Float_Arith
  imports Float64
begin

text \<open>
  Arithmetic and comparison of \<^verbatim>\<open>float64\<close> values as the scoring code uses them: every operation rounds once
  (no fused multiply-add, as on amd64), overflows to an infinity, and treats NaN, infinities and signed zeros as
  IEEE 754 does. The lemmas reduce the operations on small nonnegative finite values to rational arithmetic
  followed by rounding.
\<close>

section \<open>Operations\<close>

definition round_to :: "bool \<Rightarrow> rat \<Rightarrow> float64" where
  \<comment> \<open>the double nearest to an exact result; the flag is the sign of an exact zero\<close>
  "round_to zneg x =
     (let m = fl \<bar>x\<bar>
      in if 2 ^ 1024 \<le> m then Inf (x < 0) else Fin (if x = 0 then zneg else x < 0) m)"

lemma round_to_code [code]:
  "round_to zneg x =
     (let m = fl \<bar>x\<bar>
      in if 4 < m \<and> pow2 1024 \<le> m then Inf (x < 0) else Fin (if x = 0 then zneg else x < 0) m)"
proof -
  have p: "pow2 1024 = 2 ^ 1024" using pow2_of_nat [of 1024] by simp
  have "(4::rat) < 2 ^ 1024" using power_strict_increasing [of 2 1024 "2::rat"] by simp
  then have "4 < fl \<bar>x\<bar> \<and> pow2 1024 \<le> fl \<bar>x\<bar> \<longleftrightarrow> 2 ^ 1024 \<le> fl \<bar>x\<bar>" unfolding p by linarith
  then show ?thesis unfolding round_to_def Let_def by presburger
qed

fun f_neg :: "float64 \<Rightarrow> float64" where
  "f_neg (Fin s m) = Fin (\<not> s) m"
| "f_neg (Inf s) = Inf (\<not> s)"
| "f_neg NaN = NaN"

fun f_abs :: "float64 \<Rightarrow> float64" where
  "f_abs (Fin s m) = Fin False m"
| "f_abs (Inf s) = Inf False"
| "f_abs NaN = NaN"

fun f_add :: "float64 \<Rightarrow> float64 \<Rightarrow> float64" where
  "f_add NaN y = NaN"
| "f_add x NaN = NaN"
| "f_add (Inf s) (Inf t) = (if s = t then Inf s else NaN)"
| "f_add (Inf s) (Fin t b) = Inf s"
| "f_add (Fin s a) (Inf t) = Inf t"
| "f_add (Fin s a) (Fin t b) = round_to (s \<and> t) (fval (Fin s a) + fval (Fin t b))"

definition f_sub :: "float64 \<Rightarrow> float64 \<Rightarrow> float64" where
  "f_sub x y = f_add x (f_neg y)"

fun f_mul :: "float64 \<Rightarrow> float64 \<Rightarrow> float64" where
  "f_mul NaN y = NaN"
| "f_mul x NaN = NaN"
| "f_mul (Inf s) (Inf t) = Inf (s \<noteq> t)"
| "f_mul (Inf s) (Fin t b) = (if b = 0 then NaN else Inf (s \<noteq> t))"
| "f_mul (Fin s a) (Inf t) = (if a = 0 then NaN else Inf (s \<noteq> t))"
| "f_mul (Fin s a) (Fin t b) = round_to (s \<noteq> t) (fval (Fin s a) * fval (Fin t b))"

fun f_div :: "float64 \<Rightarrow> float64 \<Rightarrow> float64" where
  "f_div NaN y = NaN"
| "f_div x NaN = NaN"
| "f_div (Inf s) (Inf t) = NaN"
| "f_div (Inf s) (Fin t b) = Inf (s \<noteq> t)"
| "f_div (Fin s a) (Inf t) = Fin (s \<noteq> t) 0"
| "f_div (Fin s a) (Fin t b) =
     (if b = 0 then (if a = 0 then NaN else Inf (s \<noteq> t))
      else round_to (s \<noteq> t) (fval (Fin s a) / fval (Fin t b)))"

fun f_less :: "float64 \<Rightarrow> float64 \<Rightarrow> bool" where
  "f_less NaN y = False"
| "f_less x NaN = False"
| "f_less (Inf s) (Inf t) = (s \<and> \<not> t)"
| "f_less (Inf s) (Fin t b) = s"
| "f_less (Fin s a) (Inf t) = (\<not> t)"
| "f_less (Fin s a) (Fin t b) = (fval (Fin s a) < fval (Fin t b))"

fun f_le :: "float64 \<Rightarrow> float64 \<Rightarrow> bool" where
  "f_le NaN y = False"
| "f_le x NaN = False"
| "f_le (Inf s) (Inf t) = (s \<or> \<not> t)"
| "f_le (Inf s) (Fin t b) = s"
| "f_le (Fin s a) (Inf t) = (\<not> t)"
| "f_le (Fin s a) (Fin t b) = (fval (Fin s a) \<le> fval (Fin t b))"

definition f_Min :: "float64 \<Rightarrow> float64 \<Rightarrow> float64" where
  \<comment> \<open>\<^verbatim>\<open>math.Min\<close>\<close>
  "f_Min x y =
     (if x = Inf True \<or> y = Inf True then Inf True
      else if x = NaN \<or> y = NaN then NaN
      else if f_le x y \<and> f_le y x then (case x of Fin True _ \<Rightarrow> x | _ \<Rightarrow> y)
      else if f_less x y then x else y)"

fun f_Round :: "float64 \<Rightarrow> float64" where
  \<comment> \<open>\<^verbatim>\<open>math.Round\<close>: to the nearest integer, halves away from zero\<close>
  "f_Round (Fin s m) = Fin s (of_int \<lfloor>m + 1 / 2\<rfloor>)"
| "f_Round x = x"

abbreviation f_zero :: float64 where "f_zero \<equiv> Fin False 0"
abbreviation f_one :: float64 where "f_one \<equiv> Fin False 1"

definition f_lit :: "rat \<Rightarrow> float64" where
  \<comment> \<open>a decimal constant of the source\<close>
  "f_lit x = round_to False x"

definition f_sum :: "float64 list \<Rightarrow> float64" where
  \<comment> \<open>a loop adding to an accumulator that starts at 0\<close>
  "f_sum xs = foldl f_add f_zero xs"

section \<open>Small nonnegative values\<close>

lemma fl_small:
  assumes "0 \<le> x" "x \<le> 2 ^ 53"
  shows "0 \<le> fl x" "fl x \<le> 2 ^ 53" "fl x < 2 ^ 1024"
proof -
  show "0 \<le> fl x" using assms(1) by (rule fl_nonneg)
  have "fl (of_nat (2 ^ 53)) = of_nat (2 ^ 53)" by (rule fl_of_nat) simp
  then have "fl (2 ^ 53) = 2 ^ 53" by simp
  with fl_mono [OF assms(2)] show le: "fl x \<le> 2 ^ 53" by simp
  have "(2 ^ 53 :: rat) < 2 ^ 1024" by (rule power_strict_increasing) simp_all
  with le show "fl x < 2 ^ 1024" by linarith
qed

lemma round_to_small:
  assumes "0 \<le> x" "x \<le> 2 ^ 53"
  shows "round_to False x = Fin False (fl x)"
  using assms fl_small(3) [OF assms] by (auto simp: round_to_def Let_def abs_of_nonneg)

lemma f_add_small: "0 \<le> a \<Longrightarrow> 0 \<le> b \<Longrightarrow> a + b \<le> 2 ^ 53 \<Longrightarrow> f_add (Fin False a) (Fin False b) = Fin False (fl (a + b))"
  by (simp add: round_to_small)

lemma f_mul_small: "0 \<le> a \<Longrightarrow> 0 \<le> b \<Longrightarrow> a * b \<le> 2 ^ 53 \<Longrightarrow> f_mul (Fin False a) (Fin False b) = Fin False (fl (a * b))"
  by (simp add: round_to_small)

lemma f_div_small: "0 \<le> a \<Longrightarrow> 0 < b \<Longrightarrow> a / b \<le> 2 ^ 53 \<Longrightarrow> f_div (Fin False a) (Fin False b) = Fin False (fl (a / b))"
  by (simp add: round_to_small)

lemma f_NaN [simp]: "f_add x NaN = NaN" "f_mul x NaN = NaN" "\<not> f_less x NaN" "\<not> f_le x NaN"
  by (cases x; simp)+

lemma f_less_le: "f_less x y \<Longrightarrow> f_le x y"
  by (cases x; cases y) auto

subsection \<open>Rounding to a known double\<close>

text \<open>A positive number rounds to \<open>k / d\<close>, with d the power of two of its binade, when it is closest to it.\<close>

lemma round_even_eqI:
  assumes "2 * \<bar>y - of_int k\<bar> < 1 \<or> 2 * \<bar>y - of_int k\<bar> = 1 \<and> even k"
  shows "round_even y = k"
proof -
  define n where "n = \<lfloor>y\<rfloor>"
  have n: "of_int n \<le> y" "y < of_int n + 1" unfolding n_def by linarith+
  have "2 * \<bar>y - of_int k\<bar> \<le> 1" using assms by auto
  then have "2 * y \<le> 2 * of_int k + 1" "2 * of_int k - 1 \<le> 2 * y" by (auto simp: abs_if split: if_splits)
  then have "of_int n < (of_int (k + 1) :: rat)" "of_int (k - 2) < (of_int n :: rat)" using n by simp_all
  then have "n = k \<or> n = k - 1" unfolding of_int_less_iff by linarith
  then show ?thesis
  proof
    assume "n = k"
    with assms n show ?thesis by (auto simp: round_even_def Let_def n_def [symmetric])
  next
    assume "n = k - 1"
    with assms n show ?thesis by (auto simp: round_even_def Let_def n_def [symmetric])
  qed
qed

lemma fl_eqI:
  assumes "pow2 e = 1 / d" "- 1074 \<le> e" "4503599627370496 \<le> x * d" "x * d < 9007199254740992"
    and "2 * \<bar>x * d - of_int k\<bar> < 1 \<or> 2 * \<bar>x * d - of_int k\<bar> = 1 \<and> even k"
  shows "fl x = of_int k / d"
proof -
  have d: "0 < d" using pow2_pos [of e] unfolding assms(1) by simp
  have x: "0 < x" using assms(3) d by (metis zero_less_mult_pos2 less_le_trans zero_less_numeral)
  have p: "pow2 (e + 52) = 4503599627370496 / d" "pow2 (e + 52 + 1) = 9007199254740992 / d"
    unfolding pow2_add assms(1) by (simp_all add: pow2_def)
  have "pow2 (e + 52) \<le> x" "x < pow2 (e + 52 + 1)"
    unfolding p using assms(3,4) d by (simp_all add: pos_divide_le_eq pos_less_divide_eq)
  then have "fexp x = e + 52" using fexp_unique [OF x] by simp
  then have "ulp x = 1 / d" using assms(1,2) by (simp add: ulp_def)
  with x round_even_eqI [OF assms(5)] show ?thesis by (simp add: fl_def fl_pos_def)
qed

lemma f_ops_eqI:
  "fl x = y \<Longrightarrow> 0 \<le> x \<Longrightarrow> x \<le> 2 ^ 53 \<Longrightarrow> f_lit x = Fin False y"
  "fl (a + b) = y \<Longrightarrow> 0 \<le> a \<Longrightarrow> 0 \<le> b \<Longrightarrow> a + b \<le> 2 ^ 53 \<Longrightarrow> f_add (Fin False a) (Fin False b) = Fin False y"
  "fl (a * b) = y \<Longrightarrow> 0 \<le> a \<Longrightarrow> 0 \<le> b \<Longrightarrow> a * b \<le> 2 ^ 53 \<Longrightarrow> f_mul (Fin False a) (Fin False b) = Fin False y"
  by (simp_all add: f_lit_def round_to_small)

text \<open>A score: a double between 0 and 1.\<close>

definition unit :: "float64 \<Rightarrow> bool" where
  "unit x = (\<exists>m. x = Fin False m \<and> 0 \<le> m \<and> m \<le> 1 \<and> fl m = m)"

lemma unit_0_1 [simp]: "unit f_zero" "unit f_one"
  by (simp_all add: unit_def)

lemma unit_lit: "0 \<le> x \<Longrightarrow> x \<le> 1 \<Longrightarrow> unit (f_lit x)"
  using fl_unit [of x] round_to_small [of x] by (auto simp: unit_def f_lit_def)

lemma unit_ratio: "a \<le> b \<Longrightarrow> unit (f_div (Fin False (of_nat a)) (Fin False (of_nat b)))" if "0 < b"
proof -
  assume "a \<le> b"
  then have r: "(0::rat) \<le> of_nat a / of_nat b" "(of_nat a / of_nat b :: rat) \<le> 1" using that by auto
  from r(2) have "(of_nat a / of_nat b :: rat) \<le> 2 ^ 53" by (rule order_trans) simp
  then have "f_div (Fin False (of_nat a)) (Fin False (of_nat b)) = Fin False (fl (of_nat a / of_nat b))"
    using that by (intro f_div_small) simp_all
  with fl_unit [OF r] show ?thesis by (auto simp: unit_def)
qed

text \<open>Adding up n scores stays at or below n, because rounding is monotone and integers are exact.\<close>

lemma f_sum_units:
  assumes "list_all unit xs" "length xs + n \<le> 2 ^ 52" "0 \<le> a" "a \<le> of_nat n"
  shows "\<exists>m. foldl f_add (Fin False a) xs = Fin False m \<and> 0 \<le> m \<and> m \<le> of_nat (n + length xs)"
  using assms
proof (induction xs arbitrary: a n)
  case (Cons x xs)
  from Cons.prems(1) obtain m where m: "x = Fin False m" "0 \<le> m" "m \<le> 1" by (auto simp: unit_def)
  have n: "(of_nat (n + 1) :: rat) \<le> 2 ^ 52"
    using Cons.prems(2) by (metis Suc_eq_plus1 add.commute add_leD2 length_Cons add_Suc_shift of_nat_le_iff of_nat_numeral of_nat_power)
  then have am: "a + m \<le> of_nat (n + 1)" "a + m \<le> 2 ^ 53" using Cons.prems(4) m by auto
  have "fl (a + m) \<le> fl (of_nat (n + 1))" by (rule fl_mono [OF am(1)])
  also have "\<dots> = of_nat (n + 1)" by (rule fl_of_nat) (use Cons.prems(2) in simp)
  finally have "fl (a + m) \<le> of_nat (n + 1)" .
  moreover have "0 \<le> fl (a + m)" using Cons.prems(3) m by (intro fl_nonneg) simp
  ultimately obtain m' where "foldl f_add (Fin False (fl (a + m))) xs = Fin False m'" "0 \<le> m'" "m' \<le> of_nat (n + 1 + length xs)"
    using Cons.IH [of "n + 1" "fl (a + m)"] Cons.prems by auto
  with f_add_small [of a m] Cons.prems(3) m am(2) show ?case by auto
qed auto

lemma f_average_unit:
  assumes "list_all unit xs" "xs \<noteq> []" "length xs \<le> 2 ^ 52"
  shows "unit (f_div (f_sum xs) (Fin False (of_nat (length xs))))"
proof -
  obtain m where m: "f_sum xs = Fin False m" "0 \<le> m" "m \<le> of_nat (length xs)"
    using f_sum_units [of xs 0 0] assms by (auto simp: f_sum_def)
  have r: "0 \<le> m / of_nat (length xs)" "m / of_nat (length xs) \<le> 1" using m assms(2) by (auto simp: divide_simps)
  from r(2) have "m / of_nat (length xs) \<le> 2 ^ 53" by (rule order_trans) simp
  then have "f_div (f_sum xs) (Fin False (of_nat (length xs))) = Fin False (fl (m / of_nat (length xs)))"
    unfolding m(1) using m(2) assms(2) by (intro f_div_small) simp_all
  with fl_unit [OF r] show ?thesis by (auto simp: unit_def)
qed

end
