(* ===== verification/Profiles.thy ===== *)
theory Profiles
  imports Bundle Go_Time Float_Arith
begin

text \<open>
  The package \<^verbatim>\<open>internal/profiles\<close>: obligation profiles. A profile schema is read from YAML (the decoder
  \<^verbatim>\<open>yaml.Unmarshal\<close> is an argument), normalised and validated; the small profile language compiles to the
  same schema; \<open>Evaluate\<close> checks the records of a bundle against the rules. A Go map is an association list
  in the order the loops visit it. \<open>EqualFold\<close> is exact when one of the two strings is ASCII, and \<open>Quote\<close> is exact
  for ASCII and prints every other rune as it is.
\<close>

section \<open>Strings\<close>

definition EqualFold :: "string \<Rightarrow> string \<Rightarrow> bool" where
  "EqualFold s t = (foldName s = foldName t)"

definition quote_rune :: "rune \<Rightarrow> string" where
  \<comment> \<open>one rune of \<^verbatim>\<open>strconv.Quote\<close>\<close>
  "quote_rune r =
     (if r = 34 \<or> r = 92 then [CHR 0x5C, byte r]
      else if r = 7 then [CHR 0x5C, CHR ''a''] else if r = 8 then [CHR 0x5C, CHR ''b'']
      else if r = 12 then [CHR 0x5C, CHR ''f''] else if r = 10 then [CHR 0x5C, CHR ''n'']
      else if r = 13 then [CHR 0x5C, CHR ''r''] else if r = 9 then [CHR 0x5C, CHR ''t'']
      else if r = 11 then [CHR 0x5C, CHR ''v'']
      else if r < 32 \<or> r = 127 then [CHR 0x5C, CHR ''x'', hex_digit (r div 16), hex_digit (r mod 16)]
      else EncodeRune r)"

definition Quote :: "string \<Rightarrow> string" where
  \<comment> \<open>the verb \<^verbatim>\<open>%q\<close>\<close>
  "Quote s = [CHR 0x22] @ concat (map quote_rune (runes s)) @ [CHR 0x22]"

section \<open>Schemas\<close>

record required_when_rule =
  rw_WhenType :: string
  rw_AtOrAfter :: bool
  rw_Message :: string

record event_rule =
  er_Type :: string
  er_Fields :: "string list"
  er_Message :: string
  er_Severity :: string
  er_RequiredWhen :: "required_when_rule list"

record relation_predicate =
  rp_Side :: string
  rp_Field :: string
  rp_Equals :: string

record relation_rule =
  rr_Name :: string
  rr_From :: string
  rr_To :: string
  rr_Field :: string
  rr_Message :: string
  rr_Predicates :: "relation_predicate list"

type_synonym weights = "(string \<times> float64) list"

record profile_schema =
  ps_ID :: string
  ps_Version :: int
  ps_WorkflowClass :: string
  ps_BlindSpots :: "string list"
  ps_Weights :: weights
  ps_SupportsCAS :: bool
  ps_SCMode :: string
  ps_Required :: "event_rule list"
  ps_Optional :: "event_rule list"
  ps_Relations :: "relation_rule list"

definition expectedWeightKeys :: "string list" where
  "expectedWeightKeys = [''EC'', ''FC'', ''RC'', ''TC'', ''SC'', ''XC'', ''AC'', ''GC'']"

datatype schema_error =
    YamlError
  | IDRequired
  | VersionTooSmall string
  | WorkflowClassRequired string
  | WeightKeys string
  | UnknownWeightKey string string
  | MissingWeightKey string string
  | WeightSum string float64
  | RuleTypeRequired string string
  | DuplicateRuleType string string string
  | InvalidSeverity string string string
  | RequiredWhenOnRequired string string
  | EmptyWhenType string string
  | SelfReference string string
  | UnknownWhenType string string string
  | CycleBetween string string string
  | InvalidSide string nat nat
  | PredicateFieldRequired string nat nat
  | PredicateEqualsRequired string nat nat
  | BuiltinCollision string
  | EmptyEventType string string
  | DuplicateEventType string string string
  | DuplicateSchemaID string
  | UnknownSchema string

subsection \<open>Validation\<close>

text \<open>A check returns the error of its first failure; \<open>first_error\<close> runs checks in order.\<close>

fun first_error :: "('a \<Rightarrow> 'e option) \<Rightarrow> 'a list \<Rightarrow> 'e option" where
  "first_error f [] = None"
| "first_error f (x # xs) = (case f x of None \<Rightarrow> first_error f xs | Some e \<Rightarrow> Some e)"

definition or_else :: "'e option \<Rightarrow> 'e option \<Rightarrow> 'e option" where
  "or_else a b = (case a of None \<Rightarrow> b | Some e \<Rightarrow> Some e)"

definition sum_is_one :: "float64 \<Rightarrow> bool" where
  \<comment> \<open>the guard of the two weight checks, which return an error when \<^verbatim>\<open>math.Abs(sum-1.0) > 1e-9\<close>\<close>
  "sum_is_one tot = (\<not> f_less (f_lit (1 / 10 ^ 9)) (f_abs (f_sub tot f_one)))"

fun weights_loop :: "string \<Rightarrow> weights \<Rightarrow> float64 \<Rightarrow> schema_error + float64" where
  "weights_loop pid [] tot = Inr tot"
| "weights_loop pid ((k, v) # ws) tot =
     (if k \<notin> set expectedWeightKeys then Inl (UnknownWeightKey pid k) else weights_loop pid ws (f_add tot v))"

definition validateWeights :: "string \<Rightarrow> weights \<Rightarrow> schema_error option" where
  "validateWeights pid ws =
     (if length ws \<noteq> length expectedWeightKeys then Some (WeightKeys pid)
      else case weights_loop pid ws f_zero of
             Inl e \<Rightarrow> Some e
           | Inr tot \<Rightarrow>
               or_else (first_error (\<lambda>k. if k \<in> set (map fst ws) then None else Some (MissingWeightKey pid k)) expectedWeightKeys)
                 (if sum_is_one tot then None else Some (WeightSum pid tot)))"

definition check_required_when :: "string \<Rightarrow> string \<Rightarrow> required_when_rule \<Rightarrow> schema_error option" where
  "check_required_when pid ruleType r =
     (let when = TrimSpace (rw_WhenType r)
      in if when = [] then Some (EmptyWhenType pid ruleType)
         else if when = ruleType then Some (SelfReference pid ruleType) else None)"

fun event_rules_loop :: "string \<Rightarrow> string \<Rightarrow> event_rule list \<Rightarrow> string list \<Rightarrow> schema_error option" where
  "event_rules_loop pid sect [] seen = None"
| "event_rules_loop pid sect (rule # rules) seen =
     (let ruleType = TrimSpace (er_Type rule)
      in if ruleType = [] then Some (RuleTypeRequired pid sect)
         else if ruleType \<in> set seen then Some (DuplicateRuleType pid sect ruleType)
         else if TrimSpace (er_Severity rule) \<notin> {''critical'', ''warning''} then Some (InvalidSeverity pid sect ruleType)
         else if sect = ''required'' \<and> er_RequiredWhen rule \<noteq> [] then Some (RequiredWhenOnRequired pid ruleType)
         else case first_error (check_required_when pid ruleType) (er_RequiredWhen rule) of
                Some e \<Rightarrow> Some e
              | None \<Rightarrow> event_rules_loop pid sect rules (ruleType # seen))"

definition validateEventRules :: "string \<Rightarrow> string \<Rightarrow> event_rule list \<Rightarrow> schema_error option" where
  "validateEventRules pid sect rules = event_rules_loop pid sect rules []"

definition rule_edges :: "event_rule \<Rightarrow> (string \<times> string) list" where
  \<comment> \<open>the edges a rule adds: from the condition's type to its own\<close>
  "rule_edges rule =
     map (\<lambda>rw. (TrimSpace (rw_WhenType rw), TrimSpace (er_Type rule)))
       (filter (\<lambda>rw. TrimSpace (rw_WhenType rw) \<noteq> []) (er_RequiredWhen rule))"

definition validateRequiredWhenReferences :: "string \<Rightarrow> event_rule list \<Rightarrow> event_rule list \<Rightarrow> schema_error option" where
  "validateRequiredWhenReferences pid required opt =
     (let eventTypes = filter (\<lambda>t. t \<noteq> []) (map (\<lambda>r. TrimSpace (er_Type r)) (required @ opt));
          edges = concat (map rule_edges (required @ opt))
      in or_else
           (first_error (\<lambda>(when, from). if when \<in> set eventTypes then None else Some (UnknownWhenType pid from when)) edges)
           (first_error (\<lambda>(from, to). if from \<noteq> to \<and> (to, from) \<in> set edges then Some (CycleBetween pid from to) else None) edges))"

definition check_predicate :: "string \<Rightarrow> nat \<Rightarrow> nat \<times> relation_predicate \<Rightarrow> schema_error option" where
  "check_predicate pid i jp =
     (case jp of (j, p) \<Rightarrow>
        if TrimSpace (rp_Side p) \<notin> {''from'', ''to''} then Some (InvalidSide pid i j)
        else if TrimSpace (rp_Field p) = [] then Some (PredicateFieldRequired pid i j)
        else if TrimSpace (rp_Equals p) = [] then Some (PredicateEqualsRequired pid i j)
        else None)"

definition validateRelationRules :: "string \<Rightarrow> relation_rule list \<Rightarrow> schema_error option" where
  "validateRelationRules pid rules =
     first_error (\<lambda>(i, rule). first_error (check_predicate pid i) (List.enumerate 0 (rr_Predicates rule))) (List.enumerate 0 rules)"

definition validateSchema :: "profile_schema \<Rightarrow> schema_error option" where
  "validateSchema s =
     (if TrimSpace (ps_ID s) = [] then Some IDRequired
      else if ps_Version s < 1 then Some (VersionTooSmall (ps_ID s))
      else if TrimSpace (ps_WorkflowClass s) = [] then Some (WorkflowClassRequired (ps_ID s))
      else or_else (validateWeights (ps_ID s) (ps_Weights s))
          (or_else (validateEventRules (ps_ID s) ''required'' (ps_Required s))
          (or_else (validateEventRules (ps_ID s) ''optional'' (ps_Optional s))
          (or_else (validateRequiredWhenReferences (ps_ID s) (ps_Required s) (ps_Optional s))
             (validateRelationRules (ps_ID s) (ps_Relations s))))))"

subsection \<open>Normalisation and loading\<close>

definition trimAndFilter :: "string list \<Rightarrow> string list" where
  "trimAndFilter values = filter (\<lambda>v. v \<noteq> []) (map TrimSpace values)"

definition normaliseEventRule :: "event_rule \<Rightarrow> event_rule" where
  "normaliseEventRule r =
     r\<lparr>er_Type := TrimSpace (er_Type r), er_Fields := trimAndFilter (er_Fields r), er_Message := TrimSpace (er_Message r),
       er_Severity := TrimSpace (er_Severity r),
       er_RequiredWhen := map (\<lambda>w. w\<lparr>rw_WhenType := TrimSpace (rw_WhenType w), rw_Message := TrimSpace (rw_Message w)\<rparr>)
         (er_RequiredWhen r)\<rparr>"

definition normalisePredicate :: "relation_predicate \<Rightarrow> relation_predicate" where
  "normalisePredicate p =
     p\<lparr>rp_Side := ToLower (TrimSpace (rp_Side p)), rp_Field := TrimSpace (rp_Field p), rp_Equals := TrimSpace (rp_Equals p)\<rparr>"

definition normaliseRelationRule :: "relation_rule \<Rightarrow> relation_rule" where
  "normaliseRelationRule r =
     r\<lparr>rr_Name := TrimSpace (rr_Name r), rr_From := TrimSpace (rr_From r), rr_To := TrimSpace (rr_To r),
       rr_Field := TrimSpace (rr_Field r), rr_Message := TrimSpace (rr_Message r),
       rr_Predicates := map normalisePredicate (rr_Predicates r)\<rparr>"

fun normalise_weights :: "weights \<Rightarrow> weights \<Rightarrow> weights" where
  \<comment> \<open>a key that becomes equal to an earlier one overwrites its value\<close>
  "normalise_weights acc [] = acc"
| "normalise_weights acc ((k, v) # ws) = normalise_weights (map_store acc (TrimSpace k) v) ws"

definition normaliseSchema :: "profile_schema \<Rightarrow> profile_schema" where
  "normaliseSchema s =
     s\<lparr>ps_ID := TrimSpace (ps_ID s), ps_WorkflowClass := TrimSpace (ps_WorkflowClass s), ps_SCMode := TrimSpace (ps_SCMode s),
       ps_BlindSpots := trimAndFilter (ps_BlindSpots s), ps_Weights := normalise_weights [] (ps_Weights s),
       ps_Required := map normaliseEventRule (ps_Required s), ps_Optional := map normaliseEventRule (ps_Optional s),
       ps_Relations := map normaliseRelationRule (ps_Relations s)\<rparr>"

definition ParseSchema :: "(string \<Rightarrow> profile_schema option) \<Rightarrow> string \<Rightarrow> schema_error + profile_schema" where
  "ParseSchema unmarshal data =
     (case unmarshal data of
        None \<Rightarrow> Inl YamlError
      | Some s \<Rightarrow>
          let s' = normaliseSchema s
          in case validateSchema s' of Some e \<Rightarrow> Inl e | None \<Rightarrow> Inr s')"

fun load_entries :: "(string \<Rightarrow> profile_schema option) \<Rightarrow> (string \<times> string) list \<Rightarrow> (string \<times> profile_schema) list \<Rightarrow>
    schema_error + (string \<times> profile_schema) list" where
  "load_entries unmarshal [] loaded = Inr loaded"
| "load_entries unmarshal ((name, content) # es) loaded =
     (if \<not> HasSuffix name ''.yaml'' then load_entries unmarshal es loaded
      else case ParseSchema unmarshal content of
             Inl e \<Rightarrow> Inl e
           | Inr s \<Rightarrow>
               if map_of loaded (ps_ID s) \<noteq> None then Inl (DuplicateSchemaID (ps_ID s))
               else load_entries unmarshal es (loaded @ [(ps_ID s, s)]))"

definition loadTemplates :: "(string \<Rightarrow> profile_schema option) \<Rightarrow> (string \<times> string) list \<Rightarrow>
    schema_error + (string \<times> profile_schema) list" where
  \<comment> \<open>the embedded files with their contents\<close>
  "loadTemplates unmarshal es = load_entries unmarshal es []"

type_synonym templates = "schema_error + (string \<times> profile_schema) list"

definition LoadSchema :: "templates \<Rightarrow> string \<Rightarrow> schema_error + profile_schema" where
  "LoadSchema templates pid =
     (case templates of
        Inl e \<Rightarrow> Inl e
      | Inr m \<Rightarrow> (case map_of m pid of None \<Rightarrow> Inl (UnknownSchema pid) | Some s \<Rightarrow> Inr s))"

definition HasSchema :: "templates \<Rightarrow> string \<Rightarrow> bool" where
  "HasSchema templates pid = (case templates of Inl _ \<Rightarrow> False | Inr m \<Rightarrow> map_of m pid \<noteq> None)"

section \<open>The profile language\<close>

record dsl_profile =
  dsl_ID :: string
  dsl_Version :: int
  dsl_Description :: string
  dsl_RequiredEvents :: "string list"
  dsl_WarningEvents :: "string list"
  dsl_CASWeights :: weights

fun dsl_weights_loop :: "string \<Rightarrow> weights \<Rightarrow> weights \<Rightarrow> float64 \<Rightarrow> schema_error + weights \<times> float64" where
  "dsl_weights_loop pid [] full tot = Inr (full, tot)"
| "dsl_weights_loop pid ((key, v) # ws) full tot =
     (let k = TrimSpace key
      in if k \<notin> set expectedWeightKeys then Inl (UnknownWeightKey pid key)
         else dsl_weights_loop pid ws (map_store full k v) (f_add tot v))"

definition compileDSLWeights :: "string \<Rightarrow> weights \<Rightarrow> bool \<Rightarrow> schema_error + weights" where
  "compileDSLWeights pid raw supportsCAS =
     (let full = map (\<lambda>k. (k, f_zero)) expectedWeightKeys
      in if \<not> supportsCAS then Inr full
         else case dsl_weights_loop pid raw full f_zero of
                Inl e \<Rightarrow> Inl e
              | Inr (full', tot) \<Rightarrow> if sum_is_one tot then Inr full' else Inl (WeightSum pid tot))"

fun dsl_events_loop :: "string \<Rightarrow> string list \<Rightarrow> string \<Rightarrow> string \<Rightarrow> string list \<Rightarrow> schema_error + event_rule list" where
  "dsl_events_loop pid [] fld severity seen = Inr []"
| "dsl_events_loop pid (t # types) fld severity seen =
     (let et = TrimSpace t
      in if et = [] then Inl (EmptyEventType pid fld)
         else if et \<in> set seen then Inl (DuplicateEventType pid fld et)
         else bind_res (dsl_events_loop pid types fld severity (et # seen))
           (\<lambda>rules. Inr (\<lparr>er_Type = et, er_Fields = [], er_Message = et @ '' missing'', er_Severity = severity, er_RequiredWhen = []\<rparr> # rules)))"

definition compileDSLEvents :: "string \<Rightarrow> string list \<Rightarrow> string \<Rightarrow> string \<Rightarrow> schema_error + event_rule list" where
  "compileDSLEvents pid types fld severity = dsl_events_loop pid types fld severity []"

definition workflowClassFromID :: "string \<Rightarrow> string" where
  "workflowClassFromID pid = last (Split pid CHR ''.'')"

definition compile_dsl :: "templates \<Rightarrow> dsl_profile \<Rightarrow> schema_error + profile_schema" where
  \<comment> \<open>\<^verbatim>\<open>ParseDSLProfile\<close> after the YAML has been read\<close>
  "compile_dsl templates d =
     (let pid = TrimSpace (dsl_ID d); description = TrimSpace (dsl_Description d);
          version = (if dsl_Version d < 1 then 1 else dsl_Version d)
      in if pid = [] then Inl IDRequired
         else if HasSchema templates pid then Inl (BuiltinCollision pid)
         else let supportsCAS = (dsl_CASWeights d \<noteq> [])
              in bind_res (compileDSLWeights pid (dsl_CASWeights d) supportsCAS) (\<lambda>ws.
                 bind_res (compileDSLEvents pid (dsl_RequiredEvents d) ''required_events'' ''critical'') (\<lambda>required.
                 bind_res (compileDSLEvents pid (dsl_WarningEvents d) ''warning_events'' ''warning'') (\<lambda>opt.
                 Inr \<lparr>ps_ID = pid, ps_Version = version,
                      ps_WorkflowClass = (if description = [] then workflowClassFromID pid else description),
                      ps_BlindSpots = [], ps_Weights = ws, ps_SupportsCAS = supportsCAS, ps_SCMode = [],
                      ps_Required = required, ps_Optional = opt, ps_Relations = []\<rparr>))))"

definition ParseDSLProfile :: "(string \<Rightarrow> dsl_profile option) \<Rightarrow> templates \<Rightarrow> string \<Rightarrow> schema_error + profile_schema" where
  "ParseDSLProfile unmarshal templates data =
     (case unmarshal data of None \<Rightarrow> Inl YamlError | Some d \<Rightarrow> compile_dsl templates d)"

end
