(* ===== verification/Profile_Eval.thy ===== *)
theory Profile_Eval
  imports Profiles
begin

text \<open>
  The second half of \<^verbatim>\<open>internal/profiles\<close>: \<open>Evaluate\<close> checks the records of a bundle against a schema. The rules
  append findings to the result in the order of the schema; the result is deduplicated and sorted at the end, and
  it passes exactly when no critical failure was recorded. \<open>indexRecordsByType\<close> and \<open>indexByField\<close> are the Go
  maps as functions from a key to the records stored under it.
\<close>

section \<open>Records by type and field\<close>

type_synonym index = "string \<Rightarrow> bundle_record list"

fun dataMap :: "any \<Rightarrow> (string \<times> any) list option" where
  "dataMap (AMap m) = Some m"
| "dataMap _ = None"

definition hasField :: "(string \<times> any) list option \<Rightarrow> string \<Rightarrow> bool" where
  "hasField data key =
     (case data of
        None \<Rightarrow> False
      | Some m \<Rightarrow>
          (case map_of m key of
             None \<Rightarrow> False
           | Some (AString s) \<Rightarrow> s \<noteq> []
           | Some v \<Rightarrow> v \<noteq> ANil))"

definition missingFields :: "(string \<times> any) list option \<Rightarrow> string list \<Rightarrow> string list" where
  "missingFields data flds = filter (\<lambda>f. \<not> hasField data f) flds"

definition indexRecordsByType :: "bundle_record list \<Rightarrow> index" where
  "indexRecordsByType records t = filter (\<lambda>r. Type (Event r) = t) records"

definition fieldString :: "bundle_record \<Rightarrow> string \<Rightarrow> string" where
  "fieldString r f =
     (case dataMap (Data (Event r)) of
        None \<Rightarrow> []
      | Some m \<Rightarrow> (case map_of m f of Some (AString s) \<Rightarrow> s | _ \<Rightarrow> []))"

definition indexByField :: "bundle_record list \<Rightarrow> string \<Rightarrow> index" where
  "indexByField records f v = (if v = [] then [] else filter (\<lambda>r. fieldString r f = v) records)"

datatype timestamp = Missing | Invalid | At go_time

definition parseEventTimestamp :: "bundle_record \<Rightarrow> timestamp" where
  "parseEventTimestamp r =
     (let raw = TrimSpace (Timestamp (Event r))
      in if raw = [] then Missing else case ParseRFC3339 raw of None \<Rightarrow> Invalid | Some t \<Rightarrow> At t)"

section \<open>Results\<close>

record critical_failure =
  cf_ID :: string
  cf_Kind :: string
  cf_Detail :: string

record evaluation_result =
  ev_Pass :: bool
  ev_CriticalFailures :: "critical_failure list"
  ev_RequiredWarnings :: "string list"
  ev_InformationalNotes :: "string list"

definition add_failure :: "critical_failure \<Rightarrow> evaluation_result \<Rightarrow> evaluation_result" where
  "add_failure f res = res\<lparr>ev_CriticalFailures := ev_CriticalFailures res @ [f]\<rparr>"

definition add_warning :: "string \<Rightarrow> evaluation_result \<Rightarrow> evaluation_result" where
  "add_warning w res = res\<lparr>ev_RequiredWarnings := ev_RequiredWarnings res @ [w]\<rparr>"

definition messageOrDefault :: "string \<Rightarrow> string \<Rightarrow> string" where
  "messageOrDefault message fallback = (if TrimSpace message \<noteq> [] then message else fallback)"

definition requiredEventID :: "string \<Rightarrow> string" where
  "requiredEventID t = ''required:'' @ t"

definition optionalEventID :: "string \<Rightarrow> string" where
  "optionalEventID t = ''optional:'' @ t"

definition requiredFieldID :: "string \<Rightarrow> string \<Rightarrow> string" where
  "requiredFieldID t f = ''required:'' @ t @ '':field:'' @ f"

definition relationID :: "relation_rule \<Rightarrow> string" where
  "relationID r =
     (if TrimSpace (rr_Name r) \<noteq> [] then ''relation:'' @ TrimSpace (rr_Name r)
      else ''relation:'' @ rr_From r @ '':'' @ rr_To r @ '':'' @ rr_Field r)"

definition relationPredicateID :: "relation_rule \<Rightarrow> relation_predicate \<Rightarrow> string" where
  "relationPredicateID r p = relationID r @ '':predicate:'' @ rp_Field p @ '':'' @ rp_Equals p"

definition requiredWhenID :: "string \<Rightarrow> string \<Rightarrow> string" where
  "requiredWhenID t c = ''required_when:'' @ t @ '':when:'' @ c"

definition relationDefaultMessage :: "relation_rule \<Rightarrow> string" where
  "relationDefaultMessage r =
     (if TrimSpace (rr_Name r) \<noteq> [] then rr_Name r
      else rr_From r @ '' '' @ rr_To r @ '' must match on '' @ rr_Field r)"

definition relationPredicateMessage :: "relation_rule \<Rightarrow> relation_predicate \<Rightarrow> string \<Rightarrow> string" where
  "relationPredicateMessage r p actual =
     relationDefaultMessage r @ '': predicate '' @ rp_Side p @ ''.'' @ rp_Field p @ '' got '' @ Quote actual @
     '', want '' @ Quote (rp_Equals p)"

section \<open>Rules\<close>

definition appendRuleFinding :: "event_rule \<Rightarrow> string \<Rightarrow> string \<Rightarrow> string \<Rightarrow> evaluation_result \<Rightarrow> evaluation_result" where
  "appendRuleFinding rule i kind detail res =
     (if EqualFold (er_Severity rule) ''warning'' then add_warning detail res
      else add_failure \<lparr>cf_ID = i, cf_Kind = kind, cf_Detail = detail\<rparr> res)"

definition check_fields :: "bundle_record list \<Rightarrow> event_rule \<Rightarrow> evaluation_result \<Rightarrow> evaluation_result" where
  \<comment> \<open>the part the two evaluations of an event rule share: the fields of the first record\<close>
  "check_fields records rule res =
     (if er_Fields rule = [] then res
      else case missingFields (dataMap (Data (Event (hd records)))) (er_Fields rule) of
             [] \<Rightarrow> res
           | f # _ \<Rightarrow> appendRuleFinding rule (requiredFieldID (er_Type rule) f) ''missing_field''
                       (messageOrDefault (er_Message rule) (er_Type rule @ '' missing required fields'')) res)"

definition evaluateRequiredRule :: "index \<Rightarrow> event_rule \<Rightarrow> evaluation_result \<Rightarrow> evaluation_result" where
  "evaluateRequiredRule recordsByType rule res =
     (let records = recordsByType (er_Type rule)
      in if records = []
         then appendRuleFinding rule (requiredEventID (er_Type rule)) ''missing_event''
                (messageOrDefault (er_Message rule) (er_Type rule @ '' missing'')) res
         else check_fields records rule res)"

definition evaluateOptionalRule :: "index \<Rightarrow> event_rule \<Rightarrow> evaluation_result \<Rightarrow> evaluation_result" where
  "evaluateOptionalRule recordsByType rule res =
     (let records = recordsByType (er_Type rule)
      in if records = []
         then appendRuleFinding rule (optionalEventID (er_Type rule)) ''missing_event''
                (messageOrDefault (er_Message rule) (er_Type rule @ '' missing'')) res
         else check_fields records rule res)"

definition predicate_holds :: "bundle_record \<Rightarrow> bundle_record \<Rightarrow> relation_predicate \<Rightarrow> bool" where
  "predicate_holds fromRecord toRecord p =
     (let target = (if rp_Side p = ''from'' then fromRecord else toRecord)
      in EqualFold (fieldString target (rp_Field p)) (rp_Equals p))"

definition firstRelationPredicateFailure :: "relation_rule \<Rightarrow> bundle_record \<Rightarrow> bundle_record \<Rightarrow> critical_failure option" where
  "firstRelationPredicateFailure rule fromRecord toRecord =
     (case find (\<lambda>p. \<not> predicate_holds fromRecord toRecord p) (rr_Predicates rule) of
        None \<Rightarrow> None
      | Some p \<Rightarrow>
          let target = (if rp_Side p = ''from'' then fromRecord else toRecord)
          in Some \<lparr>cf_ID = relationPredicateID rule p, cf_Kind = ''relation_violation'',
                   cf_Detail = relationPredicateMessage rule p (fieldString target (rp_Field p))\<rparr>)"

fun relationPredicateFailure :: "relation_rule \<Rightarrow> bundle_record \<Rightarrow> bundle_record list \<Rightarrow> critical_failure option \<Rightarrow>
    critical_failure option" where
  \<comment> \<open>the last argument is the first failure met so far\<close>
  "relationPredicateFailure rule fromRecord [] firstFailure = firstFailure"
| "relationPredicateFailure rule fromRecord (toRecord # rest) firstFailure =
     (case firstRelationPredicateFailure rule fromRecord toRecord of
        None \<Rightarrow> None
      | Some f \<Rightarrow> relationPredicateFailure rule fromRecord rest (case firstFailure of None \<Rightarrow> Some f | Some g \<Rightarrow> Some g))"

definition check_relation :: "relation_rule \<Rightarrow> index \<Rightarrow> bundle_record \<Rightarrow> critical_failure option" where
  \<comment> \<open>one record on the from side\<close>
  "check_relation rule toByField fromRecord =
     (let v = fieldString fromRecord (rr_Field rule); linked = toByField v
      in if v \<noteq> [] \<and> linked \<noteq> []
         then (if rr_Predicates rule = [] then None else relationPredicateFailure rule fromRecord linked None)
         else Some \<lparr>cf_ID = relationID rule, cf_Kind = ''relation_violation'',
                    cf_Detail = messageOrDefault (rr_Message rule) (relationDefaultMessage rule)\<rparr>)"

definition evaluateRelationRule :: "index \<Rightarrow> relation_rule \<Rightarrow> evaluation_result \<Rightarrow> evaluation_result" where
  "evaluateRelationRule recordsByType rule res =
     (let fromRecords = recordsByType (rr_From rule); toRecords = recordsByType (rr_To rule)
      in if fromRecords = [] \<or> toRecords = [] then res
         else fold add_failure
                (List.map_filter (check_relation rule (indexByField toRecords (rr_Field rule))) fromRecords) res)"

definition requiredWhenConditionTimestampWarning :: "string \<Rightarrow> string \<Rightarrow> timestamp \<Rightarrow> string" where
  "requiredWhenConditionTimestampWarning t c ts =
     ''required_when: unable to enforce ordering between '' @ t @ '' and '' @ c @ '' because '' @ c @
     (case ts of Invalid \<Rightarrow> '' timestamp is invalid'' | Missing \<Rightarrow> '' timestamp is missing'' | At _ \<Rightarrow> '' timestamp is unavailable'')"

definition requiredWhenTargetTimestampWarning :: "string \<Rightarrow> string \<Rightarrow> string" where
  "requiredWhenTargetTimestampWarning t c =
     ''required_when: unable to enforce ordering between '' @ t @ '' and '' @ c @ '' because '' @ t @
     '' timestamps are missing or invalid''"

definition valid_times :: "bundle_record list \<Rightarrow> go_time list" where
  "valid_times records =
     List.map_filter (\<lambda>r. case parseEventTimestamp r of At t \<Rightarrow> Some t | _ \<Rightarrow> None) records"

definition evaluateCondition :: "index \<Rightarrow> string \<Rightarrow> required_when_rule \<Rightarrow> evaluation_result \<Rightarrow> evaluation_result" where
  \<comment> \<open>one \<^verbatim>\<open>required_when\<close> condition of a rule for the target type\<close>
  "evaluateCondition recordsByType targetType c res =
     (let targets = recordsByType targetType; conditionType = rw_WhenType c; conditions = recordsByType conditionType
      in if conditions = [] then res
         else if targets = []
         then add_failure \<lparr>cf_ID = requiredWhenID targetType conditionType, cf_Kind = ''missing_event'',
                cf_Detail = (if TrimSpace (rw_Message c) = []
                  then ''required_when: '' @ targetType @ '' required when '' @ conditionType @ '' present'' else rw_Message c)\<rparr> res
         else if \<not> rw_AtOrAfter c then res
         else case parseEventTimestamp (hd conditions) of
                At condTime \<Rightarrow>
                  if valid_times targets = []
                  then add_warning (requiredWhenTargetTimestampWarning targetType conditionType) res
                  else if \<not> list_ex (\<lambda>t. \<not> Before t condTime) (valid_times targets)
                  then add_failure \<lparr>cf_ID = requiredWhenID targetType conditionType, cf_Kind = ''temporal_violation'',
                         cf_Detail = ''required_when: '' @ targetType @ '' must occur at or after '' @ conditionType\<rparr> res
                  else res
              | ts \<Rightarrow> add_warning (requiredWhenConditionTimestampWarning targetType conditionType ts) res)"

definition evaluateRequiredWhenRules :: "index \<Rightarrow> profile_schema \<Rightarrow> evaluation_result \<Rightarrow> evaluation_result" where
  "evaluateRequiredWhenRules recordsByType s res =
     fold (\<lambda>rule. fold (evaluateCondition recordsByType (er_Type rule)) (er_RequiredWhen rule)) (ps_Required s @ ps_Optional s) res"

definition failure_less :: "critical_failure \<Rightarrow> critical_failure \<Rightarrow> bool" where
  "failure_less a b = (if cf_Kind a = cf_Kind b then cf_Detail a < cf_Detail b else cf_Kind a < cf_Kind b)"

definition finaliseEvaluationResult :: "evaluation_result \<Rightarrow> evaluation_result" where
  "finaliseEvaluationResult res =
     res\<lparr>ev_RequiredWarnings := SortStrings (append_unique [] (ev_RequiredWarnings res)),
         ev_InformationalNotes := SortStrings (append_unique [] (ev_InformationalNotes res)),
         ev_CriticalFailures := sort_by failure_less (ev_CriticalFailures res),
         ev_Pass := (ev_CriticalFailures res = [])\<rparr>"

definition empty_result :: evaluation_result where
  "empty_result = \<lparr>ev_Pass = False, ev_CriticalFailures = [], ev_RequiredWarnings = [], ev_InformationalNotes = []\<rparr>"

definition Evaluate :: "profile_schema \<Rightarrow> bundle_record list \<Rightarrow> evaluation_result" where
  "Evaluate s records =
     (let recordsByType = indexRecordsByType records;
          r1 = fold (evaluateRequiredRule recordsByType) (ps_Required s) empty_result;
          r2 = fold (evaluateOptionalRule recordsByType) (ps_Optional s) r1;
          r3 = fold (evaluateRelationRule recordsByType) (ps_Relations s) r2;
          r4 = evaluateRequiredWhenRules recordsByType s r3
      in finaliseEvaluationResult (r4\<lparr>ev_InformationalNotes := ev_InformationalNotes r4 @ ps_BlindSpots s\<rparr>))"

end
