(* ===== verification/Cas.thy ===== *)
theory Cas
  imports Profile_Eval
begin

text \<open>
  The scoring half of \<^verbatim>\<open>internal/verify\<close>: \<^verbatim>\<open>profiles.go\<close>, \<^verbatim>\<open>subscore.go\<close>, the anchor scores of
  \<^verbatim>\<open>anchor_classify.go\<close>, \<open>computeSC\<close> of \<^verbatim>\<open>verify.go\<close> and \<^verbatim>\<open>corroboration.go\<close>. Eight sub-scores are computed from the
  records and combined with the weights of the profile into the completeness assurance score. A weight vector
  is a Go map; the order in which a loop visits its entries is the order of the list it is given, so the two
  loops of the score take two lists. The schemas of the built-in profiles are those of the embedded templates
  and are an argument.
\<close>

section \<open>Event types\<close>

definition TypeBundleAnchor :: string where "TypeBundleAnchor = ''atb.bundle.anchor''"
definition TypeSnapshot :: string where "TypeSnapshot = ''atb.snapshot''"
definition TypeAIRequestReceived :: string where "TypeAIRequestReceived = ''ai.request.received''"
definition TypeAIResponseSent :: string where "TypeAIResponseSent = ''ai.response.sent''"
definition TypeAIPolicyDecision :: string where "TypeAIPolicyDecision = ''ai.policy.decision''"
definition TypeAIRetrievalExecuted :: string where "TypeAIRetrievalExecuted = ''ai.retrieval.executed''"
definition TypeAIModelInvoked :: string where "TypeAIModelInvoked = ''ai.model.invoked''"
definition TypeAIModelOutput :: string where "TypeAIModelOutput = ''ai.model.output''"
definition TypeAIActionPrecommit :: string where "TypeAIActionPrecommit = ''ai.action.precommit''"
definition TypeAIActionExecuted :: string where "TypeAIActionExecuted = ''ai.action.executed''"
definition TypeAIActionCommitted :: string where "TypeAIActionCommitted = ''ai.action.committed''"
definition TypeAIHumanApproval :: string where "TypeAIHumanApproval = ''ai.human.approval''"
definition TypeAIJobScheduled :: string where "TypeAIJobScheduled = ''ai.job.scheduled''"
definition TypeAIJobStarted :: string where "TypeAIJobStarted = ''ai.job.started''"
definition TypeAIJobCompleted :: string where "TypeAIJobCompleted = ''ai.job.completed''"
definition TypeDataExportPrecommit :: string where "TypeDataExportPrecommit = ''data.export.precommit''"
definition TypeDataExportExecuted :: string where "TypeDataExportExecuted = ''data.export.executed''"
definition TypeCorroborationExternal :: string where "TypeCorroborationExternal = ''atb.corroboration.external''"

definition profileIDPrivilegedToolAction :: string where
  "profileIDPrivilegedToolAction = ''atb.profile.privileged_tool_action''"
definition profileIDRAGAnswer :: string where "profileIDRAGAnswer = ''atb.profile.rag_answer''"
definition profileIDDataExport :: string where "profileIDDataExport = ''atb.profile.data_export''"
definition profileIDPolicyDecision :: string where "profileIDPolicyDecision = ''atb.profile.policy_decision''"
definition profileIDHumanOverride :: string where "profileIDHumanOverride = ''atb.profile.human_override''"
definition profileIDBackgroundAutomation :: string where
  "profileIDBackgroundAutomation = ''atb.profile.background_automation''"

section \<open>Requirements\<close>

record event_requirement =
  eq_type :: string
  eq_fields :: "string list"

definition requirement :: "string \<Rightarrow> string list \<Rightarrow> event_requirement" where
  "requirement t fs = \<lparr>eq_type = t, eq_fields = fs\<rparr>"

definition request_fields :: "string list" where
  "request_fields = [''request_id'', ''actor_id_hash'', ''purpose_tag'']"

definition policy_fields :: "string list" where
  "policy_fields = [''policy_id'', ''policy_version'', ''decision'', ''decision_reason_codes'', ''subject_id_hash'', ''action_id'']"

definition precommit_fields :: "string list" where
  "precommit_fields =
     [''action_id'', ''action_type'', ''action_parameters_digest'', ''target_resource_id'', ''intended_effect'']"

definition executed_fields :: "string list" where
  "executed_fields = [''action_id'', ''execution_outcome'', ''tool_receipt_digest'']"

definition privilegedCriticalRequirements :: "event_requirement list" where
  "privilegedCriticalRequirements =
     [requirement ManifestEventType [], requirement TypeAIRequestReceived request_fields,
      requirement TypeAIActionPrecommit precommit_fields, requirement TypeAIPolicyDecision policy_fields,
      requirement TypeAIActionExecuted executed_fields,
      requirement TypeAIActionCommitted [''action_id'', ''commit_outcome'', ''sink_receipt_digest'']]"

definition ragCriticalRequirements :: "event_requirement list" where
  "ragCriticalRequirements =
     [requirement ManifestEventType [], requirement TypeAIRequestReceived request_fields,
      requirement TypeAIModelInvoked [''model_provider'', ''model_id'', ''model_parameters_digest'', ''prompt_digest''],
      requirement TypeAIModelOutput [''output_digest'', ''output_format'']]"

definition dataExportCriticalRequirements :: "event_requirement list" where
  "dataExportCriticalRequirements =
     [requirement ManifestEventType [], requirement TypeAIRequestReceived request_fields,
      requirement TypeAIPolicyDecision policy_fields, requirement TypeDataExportPrecommit precommit_fields,
      requirement TypeDataExportExecuted executed_fields]"

definition policyDecisionCriticalRequirements :: "event_requirement list" where
  "policyDecisionCriticalRequirements =
     [requirement ManifestEventType [], requirement TypeAIRequestReceived request_fields,
      requirement TypeAIPolicyDecision policy_fields]"

definition humanOverrideCriticalRequirements :: "event_requirement list" where
  "humanOverrideCriticalRequirements =
     [requirement ManifestEventType [], requirement TypeAIRequestReceived request_fields,
      requirement TypeAIHumanApproval
        [''approval_id'', ''approver_id_hash'', ''approval_outcome'', ''justification_digest'', ''action_id''],
      requirement TypeAIActionPrecommit precommit_fields, requirement TypeAIActionExecuted executed_fields]"

definition backgroundAutomationCriticalRequirements :: "event_requirement list" where
  "backgroundAutomationCriticalRequirements =
     [requirement ManifestEventType [],
      requirement TypeAIJobScheduled [''job_id'', ''job_type'', ''trigger_source'', ''scheduled_by_id_hash''],
      requirement TypeAIJobStarted [''job_id'', ''worker_id_hash'', ''started_at''],
      requirement TypeAIJobCompleted [''job_id'', ''outcome'', ''completion_reason'']]"

section \<open>Scores of the records\<close>

definition boolScore :: "bool \<Rightarrow> float64" where
  "boolScore ok = (if ok then f_one else f_zero)"

definition f_nat :: "nat \<Rightarrow> float64" where
  \<comment> \<open>\<^verbatim>\<open>float64(n)\<close> of a count\<close>
  "f_nat n = Fin False (fl (of_nat n))"

definition averageScores :: "float64 list \<Rightarrow> float64" where
  "averageScores scores = (if scores = [] then f_zero else f_div (f_sum scores) (f_nat (length scores)))"

definition eventCoverage :: "index \<Rightarrow> event_requirement list \<Rightarrow> float64" where
  "eventCoverage ix reqs =
     (if reqs = [] then f_zero
      else f_div (f_nat (length (filter (\<lambda>q. ix (eq_type q) \<noteq> []) reqs))) (f_nat (length reqs)))"

definition record_completeness :: "string list \<Rightarrow> bundle_record \<Rightarrow> float64 option" where
  \<comment> \<open>what one record adds to the sum; a record without an object adds nothing\<close>
  "record_completeness flds r =
     (if flds = [] then Some f_one
      else case dataMap (Data (Event r)) of
             None \<Rightarrow> None
           | Some m \<Rightarrow> Some (f_div (f_nat (length (filter (hasField (Some m)) flds))) (f_nat (length flds))))"

definition fieldCompleteness :: "index \<Rightarrow> event_requirement list \<Rightarrow> float64" where
  "fieldCompleteness ix reqs =
     (let found = concat (map (\<lambda>q. map (record_completeness (eq_fields q)) (ix (eq_type q))) reqs)
      in if found = [] then f_zero else f_div (f_sum (List.map_filter id found)) (f_nat (length found)))"

definition allRecordsBound :: "bundle_record list \<Rightarrow> string \<Rightarrow> index \<Rightarrow> bool" where
  "allRecordsBound records fld target =
     (list_all (\<lambda>r. fieldString r fld \<noteq> [] \<and> target (fieldString r fld) \<noteq> []) records \<and> records \<noteq> [])"

definition allExecutedAuthorised :: "bundle_record list \<Rightarrow> index \<Rightarrow> bool" where
  "allExecutedAuthorised executed policyByAction =
     (executed \<noteq> [] \<and>
      list_all (\<lambda>r. fieldString r ''action_id'' \<noteq> [] \<and>
        list_ex (\<lambda>p. EqualFold (fieldString p ''decision'') ''allow'') (policyByAction (fieldString r ''action_id''))) executed)"

definition allExecutedApproved :: "bundle_record list \<Rightarrow> index \<Rightarrow> bool" where
  "allExecutedApproved executed approvalByAction =
     list_all (\<lambda>r. fieldString r ''action_id'' \<noteq> [] \<and>
       list_ex (\<lambda>a. EqualFold (fieldString a ''approval_outcome'') ''approved'') (approvalByAction (fieldString r ''action_id''))) executed"

definition temporalBeforeScore :: "bundle_record list \<Rightarrow> bundle_record list \<Rightarrow> float64" where
  "temporalBeforeScore before model =
     (if before = [] \<or> model = [] then f_one
      else case (parseEventTimestamp (hd before), parseEventTimestamp (hd model)) of
             (Missing, _) \<Rightarrow> f_one
           | (_, Missing) \<Rightarrow> f_one
           | (At b, At m) \<Rightarrow> if Before m b then f_lit (7 / 10) else f_one
           | _ \<Rightarrow> f_lit (7 / 10))"

definition minute_ns :: int where "minute_ns = 60 * 1000000000"

definition show_seconds :: "int \<Rightarrow> string" where
  \<comment> \<open>\<^verbatim>\<open>Duration.String\<close> of a whole number of seconds, at least one minute\<close>
  "show_seconds u =
     (let m = u div 60; h = m div 60
      in (if h > 0 then show_int h @ ''h'' else []) @ show_int (m mod 60) @ ''m'' @ show_int (u mod 60) @ ''s'')"

definition formatDuration :: "int \<Rightarrow> string" where
  \<comment> \<open>of a duration above a minute; when rounding to seconds overflows, the largest duration is printed\<close>
  "formatDuration d =
     (if d mod minute_ns = 0 then show_int (d div minute_ns) @ ''m''
      else if (d + 500000000) div 1000000000 * 1000000000 > 2 ^ 63 - 1 then ''2562047h47m16.854775807s''
      else show_seconds ((d + 500000000) div 1000000000))"

definition window_warning :: "string \<Rightarrow> bundle_record list \<Rightarrow> bundle_record list \<Rightarrow> string option" where
  \<comment> \<open>the loop body of \<^verbatim>\<open>boundedExecutionWindowWarnings\<close> for one action\<close>
  "window_warning actionID precommits executed =
     (if precommits = [] \<or> executed = [] then None
      else case (parseEventTimestamp (hd precommits), parseEventTimestamp (hd executed)) of
             (Missing, _) \<Rightarrow> None
           | (_, Missing) \<Rightarrow> None
           | (At p, At e) \<Rightarrow>
               let window = Sub e p
               in if window > 10 * minute_ns
                  then Some (''bounded_execution_window: action_id '' @ actionID @ '' execution window '' @
                    formatDuration window @ '' exceeded 10m limit'')
                  else None
           | _ \<Rightarrow> Some (''bounded_execution_window: action_id '' @ actionID @ '' has invalid RFC 3339 timestamp''))"

definition boundedExecutionWindowWarnings :: "bundle_record list \<Rightarrow> bundle_record list \<Rightarrow> string list" where
  \<comment> \<open>the records whose indices by action are compared; the keys of the executed index are visited once each\<close>
  "boundedExecutionWindowWarnings precommits executed =
     (let actions = remdups (filter (\<lambda>a. a \<noteq> []) (map (\<lambda>r. fieldString r ''action_id'') executed))
      in SortStrings (List.map_filter
           (\<lambda>a. window_warning a (indexByField precommits ''action_id'' a) (indexByField executed ''action_id'' a)) actions))"

section \<open>Anchors and corroboration\<close>

datatype anchor_result = AnchorAbsent | AnchorPresentBadData | AnchorDigestOnly | AnchorVerified

fun xcScore :: "anchor_result \<Rightarrow> float64" where
  "xcScore AnchorPresentBadData = f_lit (1 / 10)"
| "xcScore AnchorDigestOnly = f_lit (1 / 2)"
| "xcScore AnchorVerified = f_one"
| "xcScore AnchorAbsent = f_zero"

fun acScore :: "anchor_result \<Rightarrow> float64" where
  "acScore AnchorVerified = f_one"
| "acScore _ = f_zero"

definition hasNonEmptyString :: "(string \<times> any) list \<Rightarrow> string \<Rightarrow> bool" where
  "hasNonEmptyString m k = (case map_of m k of Some (AString s) \<Rightarrow> s \<noteq> [] | _ \<Rightarrow> False)"

definition valid_corroboration :: "bundle_record \<Rightarrow> bool" where
  "valid_corroboration r =
     (Type (Event r) = TypeCorroborationExternal \<and>
      (case dataMap (Data (Event r)) of
         None \<Rightarrow> False
       | Some m \<Rightarrow>
           hasNonEmptyString m ''source'' \<and> hasNonEmptyString m ''reference_id'' \<and> hasNonEmptyString m ''digest'' \<and>
           (case map_of m ''retrieved_at'' of
              Some (AString ts) \<Rightarrow> ts \<noteq> [] \<and> ParseRFC3339 ts \<noteq> None
            | _ \<Rightarrow> False)))"

definition countValidCorroborationEvents :: "bundle_record list \<Rightarrow> nat" where
  "countValidCorroborationEvents records = length (filter valid_corroboration records)"

definition xcScoreWithCorroboration :: "anchor_result \<Rightarrow> bundle_record list \<Rightarrow> float64" where
  "xcScoreWithCorroboration r records =
     (let valid = countValidCorroborationEvents records; base = xcScore r; corrobXC = f_Min f_one (f_nat valid)
      in if valid = 0 then base else if f_less base corrobXC then corrobXC else base)"

section \<open>The source-commitment score\<close>

definition has_type :: "string \<Rightarrow> bundle_record list \<Rightarrow> bool" where
  "has_type t records = list_ex (\<lambda>r. Type (Event r) = t) records"

definition sc_base :: "bundle_record list \<Rightarrow> float64" where
  \<comment> \<open>anchor, manifest, request and signature\<close>
  "sc_base records =
     (let t1 = (if has_type TypeBundleAnchor records then f_add f_zero (f_lit (40 / 100)) else f_zero);
          t2 = (if list_ex (\<lambda>r. Type (Event r) = ManifestEventType \<and> Sequence (Event r) = 0) records
                then f_add t1 (f_lit (25 / 100)) else t1);
          t3 = (if has_type TypeAIRequestReceived records then f_add t2 (f_lit (20 / 100)) else t2)
      in if has_type TypeBundleSignature records then f_add t3 (f_lit (10 / 100)) else t3)"

definition sc_total :: "string \<Rightarrow> bundle_record list \<Rightarrow> float64" where
  \<comment> \<open>with the record the mode of the schema asks for\<close>
  "sc_total scMode records =
     (if scMode = ''policy_decision'' \<and> has_type TypeAIPolicyDecision records \<or>
         scMode = ''retrieval_executed'' \<and> has_type TypeAIRetrievalExecuted records
      then f_add (sc_base records) (f_lit (15 / 100)) else sc_base records)"

type_synonym schemas = "(string \<times> profile_schema) list"

definition computeSC :: "schemas \<Rightarrow> bundle_record list \<Rightarrow> string \<Rightarrow> float64" where
  "computeSC schemas records pid =
     (case map_of schemas pid of
        None \<Rightarrow> f_zero
      | Some s \<Rightarrow> if \<not> ps_SupportsCAS s then f_zero else f_Min (sc_total (ps_SCMode s) records) f_one)"

section \<open>Sub-scores of the profiles\<close>

type_synonym scores = "(string \<times> float64) list"

definition sub_scores :: "float64 \<Rightarrow> float64 \<Rightarrow> float64 \<Rightarrow> float64 \<Rightarrow> float64 \<Rightarrow> float64 \<Rightarrow> float64 \<Rightarrow> float64 \<Rightarrow> scores" where
  "sub_scores ec fc rc tc sc xc ac gc =
     [(''EC'', ec), (''FC'', fc), (''RC'', rc), (''TC'', tc), (''SC'', sc), (''XC'', xc), (''AC'', ac), (''GC'', gc)]"

definition zeroSubScores :: scores where
  "zeroSubScores = sub_scores f_zero f_zero f_zero f_zero f_zero f_zero f_zero f_zero"

definition window_score :: "bundle_record list \<Rightarrow> bundle_record list \<Rightarrow> float64" where
  \<comment> \<open>\<^verbatim>\<open>tc\<close> of the profiles with a bounded execution window\<close>
  "window_score precommits executed =
     (if boundedExecutionWindowWarnings precommits executed \<noteq> [] then f_lit (7 / 10) else f_one)"

definition genericSchemaSubScores :: "profile_schema \<Rightarrow> bundle_record list \<Rightarrow> anchor_result \<Rightarrow> scores" where
  "genericSchemaSubScores s records a =
     (let reqs = map (\<lambda>r. requirement (er_Type r) (er_Fields r)) (ps_Required s); ix = indexRecordsByType records
      in sub_scores (eventCoverage ix reqs) (fieldCompleteness ix reqs) f_zero f_zero f_zero
           (xcScoreWithCorroboration a records) (acScore a) f_zero)"

definition policyDecisionSubScores :: "schemas \<Rightarrow> bundle_record list \<Rightarrow> anchor_result \<Rightarrow> scores" where
  "policyDecisionSubScores schemas records a =
     (let ix = indexRecordsByType records; policies = ix TypeAIPolicyDecision; precommits = ix TypeAIActionPrecommit;
          precommitByAction = indexByField precommits ''action_id''; policyByAction = indexByField policies ''action_id'';
          bound = (policies \<noteq> [] \<and> precommits \<noteq> [] \<and> allRecordsBound policies ''action_id'' precommitByAction)
      in sub_scores (eventCoverage ix policyDecisionCriticalRequirements) (fieldCompleteness ix policyDecisionCriticalRequirements)
           (boolScore bound) (temporalBeforeScore policies (ix TypeAIActionExecuted))
           (computeSC schemas records profileIDPolicyDecision) (xcScoreWithCorroboration a records) (acScore a)
           (boolScore (bound \<and> allRecordsBound policies ''action_id'' policyByAction)))"

definition humanOverrideSubScores :: "schemas \<Rightarrow> bundle_record list \<Rightarrow> anchor_result \<Rightarrow> scores" where
  "humanOverrideSubScores schemas records a =
     (let ix = indexRecordsByType records; precommits = ix TypeAIActionPrecommit; approvals = ix TypeAIHumanApproval;
          executed = ix TypeAIActionExecuted;
          precommitByAction = indexByField precommits ''action_id''; approvalByAction = indexByField approvals ''action_id'';
          approvalBound = (approvals \<noteq> [] \<and> precommits \<noteq> [] \<and> allRecordsBound approvals ''action_id'' precommitByAction);
          rc = averageScores [boolScore approvalBound, boolScore (allExecutedApproved executed approvalByAction)];
          gc = boolScore (approvals \<noteq> [] \<and> precommits \<noteq> [] \<and> executed \<noteq> [] \<and>
            allRecordsBound approvals ''action_id'' precommitByAction \<and> allRecordsBound executed ''action_id'' precommitByAction)
      in sub_scores (eventCoverage ix humanOverrideCriticalRequirements) (fieldCompleteness ix humanOverrideCriticalRequirements)
           rc (window_score precommits executed) (computeSC schemas records profileIDHumanOverride)
           (xcScoreWithCorroboration a records) (acScore a) gc)"

definition backgroundAutomationSubScores :: "schemas \<Rightarrow> bundle_record list \<Rightarrow> anchor_result \<Rightarrow> scores" where
  "backgroundAutomationSubScores schemas records a =
     (let ix = indexRecordsByType records; scheduled = ix TypeAIJobScheduled; started = ix TypeAIJobStarted;
          completed = ix TypeAIJobCompleted;
          consistent = (scheduled \<noteq> [] \<and> started \<noteq> [] \<and> completed \<noteq> [] \<and>
            allRecordsBound started ''job_id'' (indexByField scheduled ''job_id'') \<and>
            allRecordsBound completed ''job_id'' (indexByField started ''job_id'') \<and>
            allRecordsBound started ''job_id'' (indexByField completed ''job_id''))
      in sub_scores (eventCoverage ix backgroundAutomationCriticalRequirements)
           (fieldCompleteness ix backgroundAutomationCriticalRequirements) (boolScore consistent) f_one
           (computeSC schemas records profileIDBackgroundAutomation) (xcScoreWithCorroboration a records) (acScore a)
           (boolScore consistent))"

definition dataExportSubScores :: "schemas \<Rightarrow> bundle_record list \<Rightarrow> anchor_result \<Rightarrow> scores" where
  "dataExportSubScores schemas records a =
     (let ix = indexRecordsByType records; precommits = ix TypeDataExportPrecommit; policies = ix TypeAIPolicyDecision;
          executed = ix TypeDataExportExecuted;
          precommitByAction = indexByField precommits ''action_id''; policyByAction = indexByField policies ''action_id'';
          rc = averageScores
            [boolScore (policies \<noteq> [] \<and> precommits \<noteq> [] \<and> allRecordsBound policies ''action_id'' precommitByAction),
             boolScore (executed \<noteq> [] \<and> policies \<noteq> [] \<and> allExecutedAuthorised executed policyByAction)];
          gc = boolScore (precommits \<noteq> [] \<and> executed \<noteq> [] \<and> policies \<noteq> [] \<and>
            allRecordsBound executed ''action_id'' precommitByAction \<and> allExecutedAuthorised executed policyByAction)
      in sub_scores (eventCoverage ix dataExportCriticalRequirements) (fieldCompleteness ix dataExportCriticalRequirements)
           rc (window_score precommits executed) (computeSC schemas records profileIDDataExport)
           (xcScoreWithCorroboration a records) (acScore a) gc)"

definition privilegedToolActionSubScores :: "schemas \<Rightarrow> bundle_record list \<Rightarrow> anchor_result \<Rightarrow> scores" where
  "privilegedToolActionSubScores schemas records a =
     (let ix = indexRecordsByType records; precommits = ix TypeAIActionPrecommit; policies = ix TypeAIPolicyDecision;
          executed = ix TypeAIActionExecuted; committed = ix TypeAIActionCommitted;
          precommitByAction = indexByField precommits ''action_id''; policyByAction = indexByField policies ''action_id'';
          executedByAction = indexByField executed ''action_id''; committedByAction = indexByField committed ''action_id'';
          rc = averageScores
            [boolScore (committed \<noteq> [] \<and> precommits \<noteq> [] \<and> allRecordsBound committed ''action_id'' precommitByAction),
             boolScore (policies \<noteq> [] \<and> precommits \<noteq> [] \<and> allRecordsBound policies ''action_id'' precommitByAction),
             boolScore (executed \<noteq> [] \<and> policies \<noteq> [] \<and> allExecutedAuthorised executed policyByAction)];
          gc = boolScore (precommits \<noteq> [] \<and> executed \<noteq> [] \<and> committed \<noteq> [] \<and>
            allRecordsBound executed ''action_id'' precommitByAction \<and> allRecordsBound committed ''action_id'' precommitByAction \<and>
            allRecordsBound committed ''action_id'' executedByAction \<and> allRecordsBound executed ''action_id'' committedByAction)
      in sub_scores (eventCoverage ix privilegedCriticalRequirements) (fieldCompleteness ix privilegedCriticalRequirements)
           rc (window_score precommits executed) (computeSC schemas records profileIDPrivilegedToolAction)
           (xcScoreWithCorroboration a records) (acScore a) gc)"

definition ragAnswerSubScores :: "schemas \<Rightarrow> bundle_record list \<Rightarrow> anchor_result \<Rightarrow> scores" where
  "ragAnswerSubScores schemas records a =
     (let ix = indexRecordsByType records; requests = ix TypeAIRequestReceived; responses = ix TypeAIResponseSent;
          requestToResponse = boolScore (requests \<noteq> [] \<and> responses \<noteq> [] \<and> fieldString (hd requests) ''request_id'' \<noteq> [] \<and>
            fieldString (hd requests) ''request_id'' = fieldString (hd responses) ''request_id'');
          tc = averageScores [temporalBeforeScore (ix TypeAIPolicyDecision) (ix TypeAIModelInvoked),
            temporalBeforeScore (ix TypeAIRetrievalExecuted) (ix TypeAIModelInvoked)]
      in sub_scores (eventCoverage ix ragCriticalRequirements) (fieldCompleteness ix ragCriticalRequirements)
           requestToResponse tc (computeSC schemas records profileIDRAGAnswer)
           (xcScoreWithCorroboration a records) (acScore a) (f_lit (3 / 10)))"

section \<open>Profiles\<close>

record requirement_config =
  rc_EventType :: string
  rc_Message :: string

record relation_config =
  rl_From :: string
  rl_To :: string
  rl_Message :: string

record profile_config =
  pc_ID :: string
  pc_DisplayName :: string
  pc_Description :: string
  pc_EventTypes :: "string list"
  pc_Critical :: "requirement_config list"
  pc_Required :: "requirement_config list"
  pc_Relations :: "relation_config list"

text \<open>The implementations of the interface: a built-in profile with its schema, a schema file, a legacy file.\<close>

datatype profile = Builtin string profile_schema | SchemaFile profile_schema | LegacyFile profile_config

fun profile_ID :: "profile \<Rightarrow> string" where
  "profile_ID (Builtin pid s) = pid"
| "profile_ID (SchemaFile s) = ps_ID s"
| "profile_ID (LegacyFile c) = pc_ID c"

fun DefaultWeights :: "profile \<Rightarrow> weights" where
  "DefaultWeights (Builtin pid s) = ps_Weights s"
| "DefaultWeights (SchemaFile s) = ps_Weights s"
| "DefaultWeights (LegacyFile c) = zeroSubScores"

fun BlindSpots :: "profile \<Rightarrow> string list" where
  "BlindSpots (Builtin pid s) = ps_BlindSpots s"
| "BlindSpots (SchemaFile s) = ps_BlindSpots s"
| "BlindSpots (LegacyFile c) = []"

definition registeredProfiles :: "string list" where
  "registeredProfiles =
     [profileIDPrivilegedToolAction, profileIDRAGAnswer, profileIDDataExport, profileIDPolicyDecision,
      profileIDHumanOverride, profileIDBackgroundAutomation]"

definition ProfileByID :: "schemas \<Rightarrow> string \<Rightarrow> profile option" where
  "ProfileByID schemas pid =
     (if pid \<in> set registeredProfiles then map_option (Builtin pid) (map_of schemas pid) else None)"

definition builtin_builder :: "schemas \<Rightarrow> string \<Rightarrow> (bundle_record list \<Rightarrow> anchor_result \<Rightarrow> scores) option" where
  \<comment> \<open>\<^verbatim>\<open>profileSubScoreBuilders\<close>\<close>
  "builtin_builder schemas pid =
     map_of [(profileIDPrivilegedToolAction, privilegedToolActionSubScores schemas), (profileIDRAGAnswer, ragAnswerSubScores schemas),
       (profileIDDataExport, dataExportSubScores schemas), (profileIDPolicyDecision, policyDecisionSubScores schemas),
       (profileIDHumanOverride, humanOverrideSubScores schemas),
       (profileIDBackgroundAutomation, backgroundAutomationSubScores schemas)] pid"

definition subScoresForProfile :: "schemas \<Rightarrow> profile \<Rightarrow> bundle_record list \<Rightarrow> anchor_result \<Rightarrow> scores" where
  "subScoresForProfile schemas p records a =
     (case builtin_builder schemas (profile_ID p) of
        Some builder \<Rightarrow> builder records a
      | None \<Rightarrow> (case p of SchemaFile s \<Rightarrow> genericSchemaSubScores s records a | _ \<Rightarrow> zeroSubScores))"

section \<open>The score\<close>

record dimension_assessment =
  da_Assessable :: bool
  da_Score :: "float64 option"
  da_Weight :: float64
  da_Reason :: string

record cas_result =
  Overall :: float64
  Grade :: string
  CorroborationBonus :: float64
  EffectiveScore :: float64
  SubScores :: scores
  WeightVector :: weights
  CoverageScore :: float64
  CoverageGrade :: string
  AssessmentCoverage :: float64
  Dimensions :: "(string \<times> dimension_assessment) list"
  IntegrityValid :: bool
  AssuranceValid :: bool

definition gradeFromScore :: "float64 \<Rightarrow> string" where
  "gradeFromScore x =
     (if f_le (f_lit (85 / 100)) x then ''High'' else if f_le (f_lit (60 / 100)) x then ''Medium''
      else if f_le (f_lit (30 / 100)) x then ''Low'' else ''Insufficient'')"

definition coverageGradeFromScore :: "float64 \<Rightarrow> string" where
  "coverageGradeFromScore x =
     (if f_le (f_lit (85 / 100)) x then ''High coverage'' else if f_le (f_lit (60 / 100)) x then ''Moderate coverage''
      else if f_le (f_lit (30 / 100)) x then ''Low coverage'' else ''Minimal coverage'')"

definition roundCASFloat :: "float64 \<Rightarrow> float64" where
  "roundCASFloat x = f_div (f_Round (f_mul x (f_lit (10 ^ 12)))) (f_lit (10 ^ 12))"

definition score_of :: "scores \<Rightarrow> string \<Rightarrow> float64" where
  \<comment> \<open>a missing key of a Go map reads as 0\<close>
  "score_of scores k = (case map_of scores k of None \<Rightarrow> f_zero | Some x \<Rightarrow> x)"

record coverage =
  assessableWeight :: float64
  declaredWeight :: float64
  coverageTotal :: float64
  dims :: "(string \<times> dimension_assessment) list"

fun coverage_loop :: "scores \<Rightarrow> (string \<times> string) list \<Rightarrow> weights \<Rightarrow> coverage \<Rightarrow> coverage" where
  "coverage_loop scores applicability [] c = c"
| "coverage_loop scores applicability ((k, w) # ws) c =
     (if f_le w f_zero then coverage_loop scores applicability ws c
      else let c1 = c\<lparr>declaredWeight := f_add (declaredWeight c) w\<rparr>
           in coverage_loop scores applicability ws
                (case map_of applicability k of
                   Some reason \<Rightarrow>
                     c1\<lparr>dims := dims c1 @ [(k, \<lparr>da_Assessable = False, da_Score = None, da_Weight = w, da_Reason = reason\<rparr>)]\<rparr>
                 | None \<Rightarrow>
                     let x = score_of scores k
                     in c1\<lparr>dims := dims c1 @ [(k, \<lparr>da_Assessable = True, da_Score = Some x, da_Weight = w, da_Reason = []\<rparr>)],
                           assessableWeight := f_add (assessableWeight c1) w,
                           coverageTotal := f_add (coverageTotal c1) (f_mul w x)\<rparr>))"

definition weighted_total :: "scores \<Rightarrow> weights \<Rightarrow> float64" where
  "weighted_total scores ws = f_sum (map (\<lambda>(k, w). f_mul w (score_of scores k)) ws)"

definition computeCASWithApplicability :: "scores \<Rightarrow> weights \<Rightarrow> weights \<Rightarrow> (string \<times> string) list \<Rightarrow> bool \<Rightarrow> cas_result" where
  \<comment> \<open>the two weight lists are the entries of the weight vector in the orders in which the two loops visit them\<close>
  "computeCASWithApplicability scores ws1 ws2 applicability integrityValid =
     (let c = coverage_loop scores applicability ws1
                \<lparr>assessableWeight = f_zero, declaredWeight = f_zero, coverageTotal = f_zero, dims = []\<rparr>;
          coverageScore = (if f_less f_zero (assessableWeight c) then roundCASFloat (f_div (coverageTotal c) (assessableWeight c)) else f_zero);
          assessmentCoverage = (if f_less f_zero (declaredWeight c) then roundCASFloat (f_div (assessableWeight c) (declaredWeight c)) else f_zero);
          r0 = \<lparr>Overall = f_zero, Grade = [], CorroborationBonus = f_zero, EffectiveScore = f_zero, SubScores = scores, WeightVector = ws1,
                CoverageScore = f_zero, CoverageGrade = [], AssessmentCoverage = f_zero, Dimensions = [],
                IntegrityValid = integrityValid, AssuranceValid = integrityValid\<rparr>
      in if \<not> integrityValid then r0\<lparr>Grade := ''Insufficient''\<rparr>
         else let tot = weighted_total scores ws2
              in r0\<lparr>CoverageScore := coverageScore, CoverageGrade := coverageGradeFromScore coverageScore,
                     AssessmentCoverage := assessmentCoverage, Dimensions := dims c, Overall := tot, Grade := gradeFromScore tot,
                     EffectiveScore := tot\<rparr>)"

definition ComputeCAS :: "scores \<Rightarrow> weights \<Rightarrow> weights \<Rightarrow> bool \<Rightarrow> cas_result" where
  "ComputeCAS scores ws1 ws2 integrityValid = computeCASWithApplicability scores ws1 ws2 [] integrityValid"

definition casApplicability :: "profile \<Rightarrow> (string \<times> string) list" where
  "casApplicability p =
     (if profile_ID p = profileIDRAGAnswer
      then [(''GC'', ''Gating completeness is not assessable without captured gating evidence.'')]
      else if profile_ID p \<in> set registeredProfiles then []
      else [(''RC'', ''The profile declares no relation rules.''), (''TC'', ''The profile declares no temporal rules.''),
            (''SC'', ''Generic scoring cannot assess source binding for a custom profile.''),
            (''GC'', ''The profile declares no gating rules.'')])"

section \<open>Corroboration bonus\<close>

record corroboration_policy =
  AnchorBonus :: float64
  SignatureBonus :: float64
  SnapshotBonus :: float64
  MaxBonus :: float64

definition DefaultCorroborationPolicy :: corroboration_policy where
  "DefaultCorroborationPolicy =
     \<lparr>AnchorBonus = f_lit (5 / 100), SignatureBonus = f_lit (3 / 100), SnapshotBonus = f_lit (2 / 100), MaxBonus = f_lit (10 / 100)\<rparr>"

definition policy_Validate :: "corroboration_policy option \<Rightarrow> bool" where
  \<comment> \<open>whether the policy is accepted\<close>
  "policy_Validate p =
     (case p of None \<Rightarrow> True
      | Some q \<Rightarrow> \<not> f_less (MaxBonus q) (f_add (f_add (AnchorBonus q) (SignatureBonus q)) (SnapshotBonus q)))"

definition computeCorroborationBonus :: "corroboration_policy option \<Rightarrow> bool \<Rightarrow> bool \<Rightarrow> bool \<Rightarrow> float64" where
  "computeCorroborationBonus p anchorVerified signatureVerified snapshotVerified =
     (case p of
        None \<Rightarrow> f_zero
      | Some q \<Rightarrow>
          let b1 = (if anchorVerified then f_add f_zero (AnchorBonus q) else f_zero);
              b2 = (if signatureVerified then f_add b1 (SignatureBonus q) else b1);
              b3 = (if snapshotVerified then f_add b2 (SnapshotBonus q) else b2)
          in f_Min b3 (MaxBonus q))"

definition apply_corroboration :: "corroboration_policy \<Rightarrow> bool \<Rightarrow> bool \<Rightarrow> bool \<Rightarrow> cas_result \<Rightarrow> cas_result" where
  \<comment> \<open>the last step of \<^verbatim>\<open>EvaluateBundle\<close>\<close>
  "apply_corroboration p anchorVerified signatureVerified snapshotVerified c =
     (let bonus = computeCorroborationBonus (Some p) anchorVerified signatureVerified snapshotVerified;
          effective = f_Min f_one (f_add (Overall c) bonus)
      in c\<lparr>CorroborationBonus := bonus, EffectiveScore := effective, Grade := gradeFromScore effective\<rparr>)"

section \<open>The label of the anchor quality\<close>

definition nearlyEqual :: "float64 \<Rightarrow> float64 \<Rightarrow> bool" where
  "nearlyEqual a b = f_less (f_abs (f_sub a b)) (f_lit (1 / 10 ^ 9))"

definition anchorQualityLabel :: "float64 \<Rightarrow> float64 \<Rightarrow> string" where
  "anchorQualityLabel xc ac =
     (if nearlyEqual xc f_one \<and> nearlyEqual ac f_one then ''verified''
      else if nearlyEqual xc (f_lit (1 / 2)) \<and> nearlyEqual ac (f_lit (4 / 10)) then ''digest-only''
      else if nearlyEqual xc (f_lit (1 / 10)) \<and> nearlyEqual ac f_zero then ''present-degraded''
      else if nearlyEqual xc f_zero \<and> nearlyEqual ac f_zero then ''absent'' else ''partial'')"

end
