(* ===== verification/Policy_Sign.thy ===== *)
theory Policy_Sign
  imports Cas Sign
begin

text \<open>
  Signed policy decisions: the two steps of \<^verbatim>\<open>atb append\<close> that complete the payload of a policy decision
  (\<^verbatim>\<open>maybePolicyDocEmbed\<close>, \<^verbatim>\<open>maybeSignPolicyDecisionEvent\<close> in \<^verbatim>\<open>cmd/atb/main.go\<close>), over the signatures of
  theory \<open>Sign\<close>. The theorem says that a payload which went through both verifies under both checks.
\<close>

section \<open>The steps of append\<close>

datatype append_error =
    PayloadNotObject
  | DocUnreadable string
  | KeyUnreadable string
  | DocSign policy_error
  | DecisionSign policy_error

text \<open>
  The environment of the command: file contents by path, private keys by path, and Ed25519 with the public
  key of a private key. None is a failing read.
\<close>

record signing_env =
  read_file :: "string \<Rightarrow> string option"
  load_key :: "string \<Rightarrow> string option"
  public_key :: "string \<Rightarrow> string"
  sign_with :: "string \<Rightarrow> string \<Rightarrow> string"

definition maybePolicyDocEmbed :: "signing_env \<Rightarrow> string \<Rightarrow> any \<Rightarrow> string \<Rightarrow> string \<Rightarrow> append_error + any" where
  \<comment> \<open>the payload afterwards\<close>
  "maybePolicyDocEmbed env eventType data docPath keyPath =
     (if TrimSpace docPath = [] \<or> eventType \<noteq> TypeAIPolicyDecision then Inr data
      else case data of
        AMap m \<Rightarrow>
          (case read_file env docPath of
             None \<Rightarrow> Inl (DocUnreadable docPath)
           | Some contents \<Rightarrow>
               (let docHash = hex_encode (Sum256 contents); m' = map_store m FieldPolicyDocHash (AString docHash)
                in if TrimSpace keyPath = [] then Inr (AMap m')
                   else case load_key env keyPath of
                          None \<Rightarrow> Inl (KeyUnreadable keyPath)
                        | Some priv \<Rightarrow>
                            (case SignPolicyDoc (sign_with env) m' docHash priv of
                               Inl e \<Rightarrow> Inl (DocSign e)
                             | Inr sig \<Rightarrow> Inr (AMap (map_store m' FieldPolicyDocSignature (AString sig))))))
      | _ \<Rightarrow> Inl PayloadNotObject)"

definition maybeSignPolicyDecisionEvent :: "signing_env \<Rightarrow> string \<Rightarrow> any \<Rightarrow> string \<Rightarrow> append_error + any" where
  "maybeSignPolicyDecisionEvent env eventType data keyPath =
     (if keyPath = [] \<or> eventType \<noteq> TypeAIPolicyDecision then Inr data
      else case data of
        AMap m \<Rightarrow>
          (case load_key env keyPath of
             None \<Rightarrow> Inl (KeyUnreadable keyPath)
           | Some priv \<Rightarrow>
               (case SignPolicyDecision (sign_with env) m priv of
                  Inl e \<Rightarrow> Inl (DecisionSign e)
                | Inr sig \<Rightarrow>
                    Inr (AMap (map_store (map_store m FieldPolicySignature (AString sig)) FieldPolicySignerPubKey
                      (AString (b64_encode (public_key env priv)))))))
      | _ \<Rightarrow> Inl PayloadNotObject)"

definition append_payload :: "signing_env \<Rightarrow> string \<Rightarrow> any \<Rightarrow> string \<Rightarrow> string \<Rightarrow> append_error + any" where
  \<comment> \<open>the two steps in the order \<^verbatim>\<open>runAppend\<close> takes them\<close>
  "append_payload env eventType data docPath keyPath =
     bind_res (maybePolicyDocEmbed env eventType data docPath keyPath)
       (\<lambda>d. maybeSignPolicyDecisionEvent env eventType d keyPath)"

section \<open>What the checks see\<close>

lemma filter_map_store: "(\<And>w. \<not> P (k, w)) \<Longrightarrow> filter P (map_store m k v) = filter P m"
  by (induction m k v rule: map_store.induct) auto

lemma field_text_store:
  "field_text (map_store m k (AString s)) k' = (if k' = k then TrimSpace s else field_text m k')"
  by (simp add: field_text_def)

lemma payload_store_signature:
  "k = FieldPolicySignature \<or> k = FieldPolicySignerPubKey \<Longrightarrow>
     canonicalPolicyDecisionPayload (map_store m k v) = canonicalPolicyDecisionPayload m"
  by (auto simp: canonicalPolicyDecisionPayload_def filter_map_store)

lemmas field_names = FieldPolicySignature_def FieldPolicySignerPubKey_def FieldPolicyDocHash_def FieldPolicyDocSignature_def

text \<open>The contract of Ed25519 the checks rely on.\<close>

definition ed25519_ok :: "signing_env \<Rightarrow> (string \<Rightarrow> string \<Rightarrow> string \<Rightarrow> bool) \<Rightarrow> bool" where
  "ed25519_ok env ed = (\<forall>priv msg. length priv = 64 \<longrightarrow> length (public_key env priv) = 32 \<and>
     length (sign_with env priv msg) = 64 \<and> ed (public_key env priv) msg (sign_with env priv msg))"

lemma check_own_signature:
  assumes "ed25519_ok env ed" "length priv = 64"
  shows "check_signature ed (b64_encode (sign_with env priv msg)) (b64_encode (public_key env priv)) msg = None"
  using assms by (simp add: check_signature_def b64_decode_encode ed25519_ok_def)

lemma key_texts:
  assumes "ed25519_ok env ed" "length priv = 64"
  shows "sign_with env priv t \<noteq> []" "public_key env priv \<noteq> []"
proof -
  have "length (sign_with env priv t) = 64" "length (public_key env priv) = 32" using assms by (simp_all add: ed25519_ok_def)
  then show "sign_with env priv t \<noteq> []" "public_key env priv \<noteq> []" by auto
qed

lemma sign_decision_verifies:
  assumes "ed25519_ok env ed" "SignPolicyDecision (sign_with env) m priv = Inr sig"
  shows "VerifyPolicyDecision ed (map_store (map_store m FieldPolicySignature (AString sig)) FieldPolicySignerPubKey
    (AString (b64_encode (public_key env priv)))) = None"
proof -
  from assms(2) obtain t where t: "length priv = 64" "canonicalPolicyDecisionPayload m = Inr t" "sig = b64_encode (sign_with env priv t)"
    by (auto simp: SignPolicyDecision_def split: if_splits sum.splits)
  have "sign_with env priv t \<noteq> []" "public_key env priv \<noteq> []" by (rule key_texts [OF assms(1) t(1)])+
  then show ?thesis
    using check_own_signature [OF assms(1) t(1)] t(2)
    by (simp add: VerifyPolicyDecision_def field_text_store payload_store_signature t(3) field_names)
qed

text \<open>The document check rebuilds the payload without the document signature; a fresh payload has none.\<close>

lemma doc_payload_restored:
  assumes "map_of m FieldPolicyDocSignature = None" "k = FieldPolicySignature" "k' = FieldPolicySignerPubKey"
  shows "canonicalPolicyDecisionPayload (filter (\<lambda>(k, v). k \<noteq> FieldPolicyDocSignature)
      (map_store (map_store (map_store m FieldPolicyDocSignature x) k y) k' z)) = canonicalPolicyDecisionPayload m"
proof -
  define P where "P = (\<lambda>(k :: string, v :: any). k \<noteq> FieldPolicyDocSignature \<and> k \<noteq> FieldPolicySignature \<and> k \<noteq> FieldPolicySignerPubKey)"
  have "filter P (map_store (map_store (map_store m FieldPolicyDocSignature x) k y) k' z) = filter P m"
    using assms(2,3) by (simp add: P_def filter_map_store)
  moreover have "filter P m = filter (\<lambda>(k, v). k \<noteq> FieldPolicySignature \<and> k \<noteq> FieldPolicySignerPubKey) m"
    using assms(1) by (intro filter_cong) (auto simp: P_def map_of_eq_None_iff image_iff)
  moreover have "filter (\<lambda>(k, v). k \<noteq> FieldPolicySignature \<and> k \<noteq> FieldPolicySignerPubKey) (filter (\<lambda>(k, v). k \<noteq> FieldPolicyDocSignature) l) =
      filter P l" for l
    by (auto simp: P_def filter_filter intro!: filter_cong)
  ultimately show ?thesis by (simp add: canonicalPolicyDecisionPayload_def)
qed

text \<open>C21: \<^verbatim>\<open>atb append\<close> with a policy document and a signing key. Whatever decision object it is given, as long as it does
  not already carry a document signature, the stored payload passes both the decision check and the
  document check.\<close>

theorem policy_append_verifies:
  assumes "append_payload env TypeAIPolicyDecision (AMap m) docPath keyPath = Inr (AMap m')"
    and "TrimSpace docPath \<noteq> []" "TrimSpace keyPath \<noteq> []"
    and "ed25519_ok env ed" "map_of m FieldPolicyDocSignature = None"
  shows "VerifyPolicyDecision ed m' = None \<and> VerifyPolicyDocSignature ed m' = None"
proof -
  have k: "keyPath \<noteq> []" using assms(3) by auto
  from assms(1-3) k obtain contents priv dsig sig where
    r: "read_file env docPath = Some contents" "load_key env keyPath = Some priv" and
    d: "SignPolicyDoc (sign_with env) (map_store m FieldPolicyDocHash (AString (hex_encode (Sum256 contents))))
      (hex_encode (Sum256 contents)) priv = Inr dsig" and
    s: "SignPolicyDecision (sign_with env) (map_store (map_store m FieldPolicyDocHash (AString (hex_encode (Sum256 contents))))
      FieldPolicyDocSignature (AString dsig)) priv = Inr sig" and
    m': "m' = map_store (map_store (map_store (map_store m FieldPolicyDocHash (AString (hex_encode (Sum256 contents))))
      FieldPolicyDocSignature (AString dsig)) FieldPolicySignature (AString sig)) FieldPolicySignerPubKey
      (AString (b64_encode (public_key env priv)))"
    by (auto simp: append_payload_def maybePolicyDocEmbed_def maybeSignPolicyDecisionEvent_def Let_def
        split: option.splits sum.splits)
  define m1 where "m1 = map_store m FieldPolicyDocHash (AString (hex_encode (Sum256 contents)))"
  have "map_of m1 FieldPolicyDocSignature = None" using assms(5) by (simp add: m1_def field_names)
  then have restored: "canonicalPolicyDecisionPayload (filter (\<lambda>(k, v). k \<noteq> FieldPolicyDocSignature) m') = canonicalPolicyDecisionPayload m1"
    unfolding m' m1_def [symmetric] by (rule doc_payload_restored) simp_all
  from d obtain t where t: "length priv = 64" "canonicalPolicyDecisionPayload m1 = Inr t"
    "dsig = b64_encode (sign_with env priv (Sum256 t @ Sum256 contents))"
    by (auto simp: SignPolicyDoc_def doc_message_def hex_decode_encode m1_def split: if_splits sum.splits)
  have fields: "field_text m' FieldPolicyDocSignature = dsig" "field_text m' FieldPolicySignerPubKey = b64_encode (public_key env priv)"
    "field_text m' FieldPolicyDocHash = hex_encode (Sum256 contents)"
    using t(3) by (simp_all add: m' field_text_store field_names)
  have "length (hex_encode (Sum256 contents)) = 64" by simp
  then have "hex_encode (Sum256 contents) \<noteq> []" by (metis list.size(3) zero_neq_numeral)
  then have "VerifyPolicyDocSignature ed m' = None"
    using key_texts [OF assms(4) t(1)] check_own_signature [OF assms(4) t(1)] restored t(2)
    by (simp add: VerifyPolicyDocSignature_def fields doc_message_def hex_decode_encode t(3))
  with sign_decision_verifies [OF assms(4) s] show ?thesis by (simp add: m')
qed

subsection \<open>An example environment\<close>

definition demo_env :: signing_env where
  "demo_env = \<lparr>read_file = \<lambda>_. Some ''deny by default'', load_key = \<lambda>_. Some (replicate 64 (CHR ''p'')),
     public_key = take 32, sign_with = \<lambda>priv msg. Sum256 (priv @ msg) @ take 32 priv\<rparr>"

definition demo_ed :: "string \<Rightarrow> string \<Rightarrow> string \<Rightarrow> bool" where
  "demo_ed pub msg sig = (\<exists>half. sig = Sum256 (half @ msg) @ pub)"

lemma demo_ed25519_ok: "ed25519_ok demo_env demo_ed"
  by (auto simp: ed25519_ok_def demo_env_def demo_ed_def)

text \<open>A payload of strings always has a canonical text.\<close>

definition string_payload :: "payload \<Rightarrow> bool" where
  "string_payload m = (distinct (map fst m) \<and> (\<forall>(k, v)\<in>set m. \<exists>s. v = AString s))"

lemma string_payload_store: "string_payload m \<Longrightarrow> string_payload (map_store m k (AString s))"
proof -
  assume m: "string_payload m"
  have "set (map_store m k (AString s)) \<subseteq> insert (k, AString s) (set m)"
    by (induction m k "AString s" rule: map_store.induct) auto
  with m show ?thesis by (auto simp: string_payload_def distinct_map_store)
qed

lemma payload_strings:
  assumes "string_payload m"
  shows "\<exists>t. canonicalPolicyDecisionPayload m = Inr t"
proof -
  define l where "l = filter (\<lambda>(k, v). k \<noteq> FieldPolicySignature \<and> k \<noteq> FieldPolicySignerPubKey) m"
  have l: "\<forall>(k, v)\<in>set l. \<exists>s. v = AString s" "distinct (map fst l)"
    using assms by (auto simp: string_payload_def l_def distinct_map_filter)
  have "\<exists>ms. to_members n = Some ms" if "\<forall>(k, v)\<in>set n. \<exists>s. v = AString s" for n
    using that by (induction n) auto
  then obtain j where j: "to_json (AMap l) = Some j" using l(1) by fastforce
  have "go_value (AMap l)" using l by (auto simp: list_all_iff)
  from to_json_readable(1) [OF j this] obtain v where "wf_json j" "to_any (coerce_json j) = Some v" by (auto simp: readable_def)
  then have "canonicalizeRaw (render_html j) = Inr (render_value canon_body (canon_tree v))"
    by (intro canonicalizeRaw_ok) (simp add: json_unmarshal_render_html)
  then show ?thesis using j by (auto simp: canonicalPolicyDecisionPayload_def l_def [symmetric] Marshal_def marshal_payload_def)
qed

lemma demo_append:
  assumes "string_payload m"
  shows "\<exists>m'. append_payload demo_env TypeAIPolicyDecision (AMap m) ''policy.md'' ''key'' = Inr (AMap m')"
proof -
  have trim: "TrimSpace ''policy.md'' = ''policy.md''" "TrimSpace ''key'' = ''key''" by code_simp+
  define m1 where "m1 = map_store m FieldPolicyDocHash (AString (hex_encode (Sum256 ''deny by default'')))"
  have s: "string_payload m1" unfolding m1_def by (rule string_payload_store [OF assms])
  obtain t where t: "canonicalPolicyDecisionPayload m1 = Inr t" using payload_strings [OF s] by blast
  obtain u where u: "\<And>d. canonicalPolicyDecisionPayload (map_store m1 FieldPolicyDocSignature (AString d)) = Inr (u d)"
    using payload_strings [OF string_payload_store [OF s]] by metis
  show ?thesis
    using t u
    by (simp add: append_payload_def maybePolicyDocEmbed_def maybeSignPolicyDecisionEvent_def Let_def trim demo_env_def SignPolicyDoc_def
        SignPolicyDecision_def doc_message_def hex_decode_encode m1_def [symmetric])
qed

theorem policy_append_verifies_witness:
  "\<exists>m'. append_payload demo_env TypeAIPolicyDecision (AMap [(''decision'', AString ''allow'')]) ''policy.md'' ''key'' = Inr (AMap m') \<and>
     VerifyPolicyDecision demo_ed m' = None \<and> VerifyPolicyDocSignature demo_ed m' = None"
proof -
  obtain m' where m': "append_payload demo_env TypeAIPolicyDecision (AMap [(''decision'', AString ''allow'')]) ''policy.md'' ''key'' =
      Inr (AMap m')" using demo_append [of "[(''decision'', AString ''allow'')]"] by (auto simp: string_payload_def)
  have trim: "TrimSpace ''policy.md'' \<noteq> []" "TrimSpace ''key'' \<noteq> []" by code_simp+
  from policy_append_verifies [OF m' trim demo_ed25519_ok] m' show ?thesis by (simp add: field_names)
qed

end
