(* ===== verification/Journal.thy ===== *)
theory Journal
  imports Bundle_IO
begin

text \<open>
  The package \<^verbatim>\<open>internal/capturejournal\<close>: the append-only observation journal that makes an
  observation durable before it becomes evidence. \<open>Append\<close> writes one hash-chained line and syncs it,
  \<open>readEntries\<close> verifies every complete line and reports a torn tail, \<open>Open\<close> repairs the tail. The
  outcomes of the writes are arguments, so a crash in the middle of a write is a step of the model. The
  payload of an entry is held as the parsed tree of its raw JSON.
\<close>

section \<open>Entries\<close>

record entry =
  FormatVersion :: int
  Position :: int
  je_PrevHash :: string
  ObservationID :: string
  SourceSystem :: string
  SourceIncarnation :: string
  RepresentationVersion :: string
  RepresentationDigest :: string
  ObservationType :: string
  Payload :: json
  SourceTimestamp :: string
  ObservedAt :: string
  Adapter :: string
  AdapterVersion :: string
  je_Hash :: string

definition JournalFormatVersion :: int where
  "JournalFormatVersion = 1"

definition maxLineBytes :: int where
  "maxLineBytes = 16 * 1024 * 1024"

definition entryType :: string where
  "entryType = ''atb.capture.journal.entry''"

definition hashable :: "entry \<Rightarrow> members" where
  \<comment> \<open>the part covered by the chain hash\<close>
  "hashable e =
     [(''position'', JNumber (show_int (Position e))),
      (''observation_id'', JString (ObservationID e)),
      (''source_system'', JString (SourceSystem e))] @
     omit_string ''source_incarnation'' (SourceIncarnation e) @
     [(''representation_version'', JString (RepresentationVersion e)),
      (''representation_digest'', JString (RepresentationDigest e)),
      (''observation_type'', JString (ObservationType e)),
      (''payload'', Payload e)] @
     omit_string ''source_timestamp'' (SourceTimestamp e) @
     [(''observed_at'', JString (ObservedAt e)),
      (''adapter'', JString (Adapter e)),
      (''adapter_version'', JString (AdapterVersion e))]"

definition hash_event :: "entry \<Rightarrow> event" where
  "hash_event e = zero_event\<lparr>Sequence := Position e, PrevHash := je_PrevHash e, Type := entryType\<rparr>"

definition entry_text :: "entry \<Rightarrow> string" where
  \<comment> \<open>the JSON text of the event the entry is hashed as\<close>
  "entry_text e = render_html (JObject (event_members (hash_event e) (JObject (hashable e))))"

definition computeHash :: "entry \<Rightarrow> canon_error + string" where
  "computeHash e =
     bind_res (Marshal (\<lambda>x. Some (entry_text x)) e)
       (\<lambda>canonical. Inr (hex_encode (Sum256 (je_PrevHash e @ canonical))))"

definition entry_members :: "entry \<Rightarrow> members" where
  "entry_members e =
     [(''format_version'', JNumber (show_int (FormatVersion e))),
      (''position'', JNumber (show_int (Position e))),
      (''prev_hash'', JString (je_PrevHash e)),
      (''observation_id'', JString (ObservationID e)),
      (''source_system'', JString (SourceSystem e))] @
     omit_string ''source_incarnation'' (SourceIncarnation e) @
     [(''representation_version'', JString (RepresentationVersion e)),
      (''representation_digest'', JString (RepresentationDigest e)),
      (''observation_type'', JString (ObservationType e)),
      (''payload'', Payload e)] @
     omit_string ''source_timestamp'' (SourceTimestamp e) @
     [(''observed_at'', JString (ObservedAt e)),
      (''adapter'', JString (Adapter e)),
      (''adapter_version'', JString (AdapterVersion e)),
      (''hash'', JString (je_Hash e))]"

definition entry_names :: "string list" where
  "entry_names =
     [''format_version'', ''position'', ''prev_hash'', ''observation_id'', ''source_system'', ''source_incarnation'',
      ''representation_version'', ''representation_digest'', ''observation_type'', ''payload'', ''source_timestamp'',
      ''observed_at'', ''adapter'', ''adapter_version'', ''hash'']"

definition set_entry :: "string \<Rightarrow> json \<Rightarrow> entry \<Rightarrow> entry option" where
  "set_entry n j e =
     (if n = ''format_version'' then map_option (\<lambda>i. e\<lparr>FormatVersion := i\<rparr>) (decode_int j (FormatVersion e))
      else if n = ''position'' then map_option (\<lambda>i. e\<lparr>Position := i\<rparr>) (decode_int j (Position e))
      else if n = ''prev_hash'' then map_option (\<lambda>s. e\<lparr>je_PrevHash := s\<rparr>) (decode_string j (je_PrevHash e))
      else if n = ''observation_id'' then map_option (\<lambda>s. e\<lparr>ObservationID := s\<rparr>) (decode_string j (ObservationID e))
      else if n = ''source_system'' then map_option (\<lambda>s. e\<lparr>SourceSystem := s\<rparr>) (decode_string j (SourceSystem e))
      else if n = ''source_incarnation''
      then map_option (\<lambda>s. e\<lparr>SourceIncarnation := s\<rparr>) (decode_string j (SourceIncarnation e))
      else if n = ''representation_version''
      then map_option (\<lambda>s. e\<lparr>RepresentationVersion := s\<rparr>) (decode_string j (RepresentationVersion e))
      else if n = ''representation_digest''
      then map_option (\<lambda>s. e\<lparr>RepresentationDigest := s\<rparr>) (decode_string j (RepresentationDigest e))
      else if n = ''observation_type''
      then map_option (\<lambda>s. e\<lparr>ObservationType := s\<rparr>) (decode_string j (ObservationType e))
      else if n = ''payload'' then Some (e\<lparr>Payload := j\<rparr>)
      else if n = ''source_timestamp''
      then map_option (\<lambda>s. e\<lparr>SourceTimestamp := s\<rparr>) (decode_string j (SourceTimestamp e))
      else if n = ''observed_at'' then map_option (\<lambda>s. e\<lparr>ObservedAt := s\<rparr>) (decode_string j (ObservedAt e))
      else if n = ''adapter'' then map_option (\<lambda>s. e\<lparr>Adapter := s\<rparr>) (decode_string j (Adapter e))
      else if n = ''adapter_version''
      then map_option (\<lambda>s. e\<lparr>AdapterVersion := s\<rparr>) (decode_string j (AdapterVersion e))
      else map_option (\<lambda>s. e\<lparr>je_Hash := s\<rparr>) (decode_string j (je_Hash e)))"

definition zero_entry :: entry where
  "zero_entry = \<lparr>FormatVersion = 0, Position = 0, je_PrevHash = [], ObservationID = [], SourceSystem = [],
     SourceIncarnation = [], RepresentationVersion = [], RepresentationDigest = [], ObservationType = [],
     Payload = JNull, SourceTimestamp = [], ObservedAt = [], Adapter = [], AdapterVersion = [], je_Hash = []\<rparr>"

definition entry_line :: "entry \<Rightarrow> string" where
  "entry_line e = render_html (JObject (entry_members e)) @ [CHR 0x0A]"

definition decode_entry :: "string \<Rightarrow> entry option" where
  "decode_entry line =
     (case json_scan line of None \<Rightarrow> None | Some j \<Rightarrow> decode_struct set_entry entry_names j zero_entry)"

section \<open>Reading\<close>

datatype journal_error =
    JournalCorrupted
  | JournalVersionUnsupported int
  | JournalEntryTooLarge
  | JournalClosed
  | JournalFailed
  | ObservationIDRequired
  | HashFailed canon_error
  | WriteError
  | SyncError
  | RepairMarkerError
  | TruncateError

definition check_entry :: "entry list \<Rightarrow> string \<Rightarrow> journal_error + entry" where
  \<comment> \<open>one line of \<^verbatim>\<open>readEntries\<close> after those already accepted\<close>
  "check_entry entries line =
     (case decode_entry line of
        None \<Rightarrow> Inl JournalCorrupted
      | Some e \<Rightarrow>
          if FormatVersion e \<noteq> JournalFormatVersion then Inl (JournalVersionUnsupported (FormatVersion e))
          else if Position e \<noteq> int (length entries) + 1 then Inl JournalCorrupted
          else if je_PrevHash e \<noteq> (if entries = [] then GenesisHash else je_Hash (last entries)) then Inl JournalCorrupted
          else case computeHash e of
                 Inl err \<Rightarrow> Inl (HashFailed err)
               | Inr h \<Rightarrow> if h \<noteq> je_Hash e then Inl JournalCorrupted else Inr e)"

fun read_loop :: "string list \<Rightarrow> entry list \<Rightarrow> journal_error + entry list" where
  \<comment> \<open>the scanner's lines; a line that does not fit its buffer ends the scan with an error\<close>
  "read_loop [] entries = Inr entries"
| "read_loop (rawLine # rest) entries =
     (if int (length rawLine) > maxLineBytes then Inl JournalCorrupted
      else let line = TrimSpace (trim_line rawLine)
           in if line = [] then read_loop rest entries
              else case check_entry entries line of
                     Inl err \<Rightarrow> Inl err
                   | Inr e \<Rightarrow> read_loop rest (entries @ [e]))"

fun lastNewline_from :: "string \<Rightarrow> nat \<Rightarrow> nat option" where
  "lastNewline_from d 0 = None"
| "lastNewline_from d (Suc i) = (if d ! i = CHR 0x0A then Some i else lastNewline_from d i)"

definition lastNewline :: "string \<Rightarrow> nat option" where
  "lastNewline d = lastNewline_from d (length d)"

definition complete_part :: "string \<Rightarrow> string" where
  \<comment> \<open>the data up to the last line feed\<close>
  "complete_part d = (case lastNewline d of None \<Rightarrow> [] | Some i \<Rightarrow> take (i + 1) d)"

definition readEntries :: "string option \<Rightarrow> journal_error + entry list \<times> bool" where
  \<comment> \<open>None: the file does not exist\<close>
  "readEntries content =
     (case content of
        None \<Rightarrow> Inr ([], False)
      | Some d \<Rightarrow>
          if d = [] then Inr ([], False)
          else let repaired = (last d \<noteq> CHR 0x0A); d' = (if repaired then complete_part d else d)
               in case read_loop (raw_lines d') [] of
                    Inl err \<Rightarrow> Inl err
                  | Inr entries \<Rightarrow> Inr (entries, repaired))"

definition lastCompleteOffset :: "string \<Rightarrow> int" where
  "lastCompleteOffset d =
     (if d = [] then 0
      else if last d = CHR 0x0A then int (length d)
      else case lastNewline d of None \<Rightarrow> 0 | Some i \<Rightarrow> int (i + 1))"

definition discardedTailBytes :: "string \<Rightarrow> int" where
  "discardedTailBytes d =
     (if d = [] \<or> last d = CHR 0x0A then 0 else int (length d) - lastCompleteOffset d)"

section \<open>The journal on disk\<close>

record disk =
  disk_file :: "string option"
  repair_marker :: "int option"
  degraded_marker :: "string option"

record journal =
  store :: disk
  is_open :: bool
  entries :: "entry list"
  repaired :: bool
  failed :: bool

definition Open :: "bool \<Rightarrow> bool \<Rightarrow> disk \<Rightarrow> disk \<times> (journal_error + journal)" where
  \<comment> \<open>the arguments tell whether the repair marker and the truncation succeed; a new file drops a stale repair
      marker, a torn tail is recorded in the marker before it is cut off\<close>
  "Open markerOK truncateOK d0 =
     (let created = (disk_file d0 = None);
          d1 = (if created then d0\<lparr>repair_marker := None\<rparr> else d0)
      in case readEntries (disk_file d1) of
           Inl err \<Rightarrow> (d1, Inl err)
         | Inr (es, torn) \<Rightarrow>
             let content = (case disk_file d1 of None \<Rightarrow> [] | Some c \<Rightarrow> c)
             in if torn \<and> \<not> markerOK then (d1, Inl RepairMarkerError)
                else let d2 = (if torn then d1\<lparr>repair_marker := Some (discardedTailBytes content)\<rparr> else d1)
                     in if torn \<and> \<not> truncateOK then (d2, Inl TruncateError)
                        else let d3 = d2\<lparr>disk_file := Some (if torn then take (nat (lastCompleteOffset content)) content else content)\<rparr>
                             in (d3, Inr \<lparr>store = d3, is_open = True, entries = es,
                                          repaired = torn \<or> repair_marker d3 \<noteq> None, failed = False\<rparr>))"

definition Read :: "disk \<Rightarrow> journal_error + entry list \<times> bool" where
  "Read d =
     (case readEntries (disk_file d) of
        Inl err \<Rightarrow> Inl err
      | Inr (es, torn) \<Rightarrow> Inr (es, torn \<or> (disk_file d \<noteq> None \<and> repair_marker d \<noteq> None)))"

definition LastPosition :: "journal \<Rightarrow> int" where
  "LastPosition j = (if entries j = [] then 0 else Position (last (entries j)))"

definition EntriesFrom :: "journal \<Rightarrow> int \<Rightarrow> entry list" where
  "EntriesFrom j position = filter (\<lambda>e. position < Position e) (entries j)"

text \<open>How a write or a sync ends: all of it, or an error after some bytes.\<close>

datatype outcome = Done | Short nat

definition mark_degraded :: "bool \<Rightarrow> string \<Rightarrow> journal \<Rightarrow> journal" where
  \<comment> \<open>best effort: the first argument tells whether the marker could be written\<close>
  "mark_degraded ok reason j = (if ok then j\<lparr>store := (store j)\<lparr>degraded_marker := Some reason\<rparr>\<rparr> else j)"

definition prepare :: "journal \<Rightarrow> entry \<Rightarrow> entry" where
  "prepare j e =
     (let e1 = (if FormatVersion e = 0 then e\<lparr>FormatVersion := JournalFormatVersion\<rparr> else e)
      in e1\<lparr>Position := LastPosition j + 1,
             je_PrevHash := (if entries j = [] then GenesisHash else je_Hash (last (entries j)))\<rparr>)"

definition Append :: "outcome \<Rightarrow> bool \<Rightarrow> bool \<Rightarrow> journal \<Rightarrow> entry \<Rightarrow> journal \<times> (journal_error + entry)" where
  \<comment> \<open>the arguments: how the write ends, whether the sync succeeds, whether a marker can be written\<close>
  "Append write syncOK markOK j e =
     (if \<not> is_open j then (j, Inl JournalClosed)
      else if failed j then (j, Inl JournalFailed)
      else if FormatVersion (if FormatVersion e = 0 then e\<lparr>FormatVersion := JournalFormatVersion\<rparr> else e) > JournalFormatVersion
      then (j, Inl (JournalVersionUnsupported (FormatVersion e)))
      else if TrimSpace (ObservationID e) = [] then (j, Inl ObservationIDRequired)
      else let e1 = prepare j e
        in case computeHash e1 of
             Inl err \<Rightarrow> (j, Inl (HashFailed err))
           | Inr h \<Rightarrow>
               let e2 = e1\<lparr>je_Hash := h\<rparr>; line = entry_line e2;
                   content = (case disk_file (store j) of None \<Rightarrow> [] | Some c \<Rightarrow> c)
               in if int (length line) > maxLineBytes
                  then (mark_degraded markOK ''rejected oversized entry'' j, Inl JournalEntryTooLarge)
                  else case write of
                         Short n \<Rightarrow>
                           (mark_degraded markOK ''journal write failed''
                              (j\<lparr>store := (store j)\<lparr>disk_file := Some (content @ take n line)\<rparr>, failed := True\<rparr>), Inl WriteError)
                       | Done \<Rightarrow>
                           let j1 = j\<lparr>store := (store j)\<lparr>disk_file := Some (content @ line)\<rparr>\<rparr>
                           in if \<not> syncOK
                              then (mark_degraded markOK ''journal fsync failed'' (j1\<lparr>failed := True\<rparr>), Inl SyncError)
                              else (j1\<lparr>entries := entries j @ [e2]\<rparr>, Inr e2))"

definition Close :: "journal \<Rightarrow> journal" where
  "Close j = j\<lparr>is_open := False\<rparr>"

section \<open>An entry through its line\<close>

definition coerce_entry :: "entry \<Rightarrow> entry" where
  \<comment> \<open>what is read back: invalid UTF-8 becomes U+FFFD\<close>
  "coerce_entry e = \<lparr>FormatVersion = FormatVersion e, Position = Position e, je_PrevHash = coerce_utf8 (je_PrevHash e),
     ObservationID = coerce_utf8 (ObservationID e), SourceSystem = coerce_utf8 (SourceSystem e),
     SourceIncarnation = coerce_utf8 (SourceIncarnation e), RepresentationVersion = coerce_utf8 (RepresentationVersion e),
     RepresentationDigest = coerce_utf8 (RepresentationDigest e), ObservationType = coerce_utf8 (ObservationType e),
     Payload = coerce_json (Payload e), SourceTimestamp = coerce_utf8 (SourceTimestamp e),
     ObservedAt = coerce_utf8 (ObservedAt e), Adapter = coerce_utf8 (Adapter e),
     AdapterVersion = coerce_utf8 (AdapterVersion e), je_Hash = coerce_utf8 (je_Hash e)\<rparr>"

lemma coerce_hashable: "coerce_members (hashable e) = hashable (coerce_entry e)"
  by (simp add: hashable_def coerce_entry_def coerce_omit_string valid_utf8_literal)

lemma coerce_entry_members: "coerce_members (entry_members e) = entry_members (coerce_entry e)"
  by (simp add: entry_members_def coerce_entry_def coerce_omit_string valid_utf8_literal)

lemma wf_hashable: "wf_json (Payload e) \<Longrightarrow> wf_json (JObject (hashable e))"
  by (simp add: hashable_def wf_omit show_int_number)

lemma wf_entry_members: "wf_json (Payload e) \<Longrightarrow> wf_json (JObject (entry_members e))"
  by (simp add: entry_members_def wf_omit show_int_number)

lemma valid_entryType: "valid_utf8 entryType"
  by (rule valid_utf8_literal) (simp add: entryType_def)

lemma coerce_hash_event: "coerce_event (hash_event e) (Data (hash_event e)) = hash_event (coerce_entry e)"
  by (simp add: hash_event_def coerce_event_def coerce_entry_def zero_event_def valid_entryType)

lemma coerce_entry_tree:
  "coerce_json (JObject (event_members (hash_event e) (JObject (hashable e)))) =
     JObject (event_members (hash_event (coerce_entry e)) (JObject (hashable (coerce_entry e))))"
  using coerce_event_members [of "hash_event e" "JObject (hashable e)" "Data (hash_event e)"]
  by (simp add: coerce_hash_event coerce_hashable)

lemma canonicalizeRaw_coerce:
  assumes "wf_json j"
  shows "canonicalizeRaw (render_html (coerce_json j)) = canonicalizeRaw (render_html j)"
  using assms by (simp add: canonicalizeRaw_def json_unmarshal_render_html wf_coerce)

text \<open>Reading an entry back does not change its hash.\<close>

lemma computeHash_coerce:
  assumes "wf_json (Payload e)" "valid_utf8 (je_PrevHash e)"
  shows "computeHash (coerce_entry e) = computeHash e"
proof -
  have "wf_json (JObject (event_members (hash_event e) (JObject (hashable e))))"
    by (intro wf_event_members wf_hashable assms)
  from canonicalizeRaw_coerce [OF this]
  have "canonicalizeRaw (entry_text (coerce_entry e)) = canonicalizeRaw (entry_text e)"
    by (simp only: entry_text_def coerce_entry_tree)
  moreover have "je_PrevHash (coerce_entry e) = je_PrevHash e" using assms(2) by (simp add: coerce_entry_def)
  ultimately show ?thesis by (simp add: computeHash_def Marshal_def)
qed

lemma entry_fields:
  "struct_field entry_names ''format_version'' = Some ''format_version''"
  "struct_field entry_names ''position'' = Some ''position''"
  "struct_field entry_names ''prev_hash'' = Some ''prev_hash''"
  "struct_field entry_names ''observation_id'' = Some ''observation_id''"
  "struct_field entry_names ''source_system'' = Some ''source_system''"
  "struct_field entry_names ''source_incarnation'' = Some ''source_incarnation''"
  "struct_field entry_names ''representation_version'' = Some ''representation_version''"
  "struct_field entry_names ''representation_digest'' = Some ''representation_digest''"
  "struct_field entry_names ''observation_type'' = Some ''observation_type''"
  "struct_field entry_names ''payload'' = Some ''payload''"
  "struct_field entry_names ''source_timestamp'' = Some ''source_timestamp''"
  "struct_field entry_names ''observed_at'' = Some ''observed_at''"
  "struct_field entry_names ''adapter'' = Some ''adapter''"
  "struct_field entry_names ''adapter_version'' = Some ''adapter_version''"
  "struct_field entry_names ''hash'' = Some ''hash''"
  by (simp_all add: struct_field_def entry_names_def)

lemmas entry_decoding =
  entry_fields set_entry_def decode_string_def decode_int_def

lemma decode_entry_omit:
  "SourceIncarnation e = [] \<Longrightarrow>
     decode_members set_entry entry_names (omit_string ''source_incarnation'' s) e = Some (e\<lparr>SourceIncarnation := s\<rparr>)"
  "SourceTimestamp e = [] \<Longrightarrow>
     decode_members set_entry entry_names (omit_string ''source_timestamp'' s) e = Some (e\<lparr>SourceTimestamp := s\<rparr>)"
  by (cases e; simp add: entry_decoding omit_string_def)+

lemma decode_entry_members:
  assumes "int64 (FormatVersion e)" "int64 (Position e)"
  shows "decode_struct set_entry entry_names (JObject (entry_members e)) zero_entry = Some e"
proof -
  have i: "ParseInt (show_int (FormatVersion e)) = Some (FormatVersion e)" "ParseInt (show_int (Position e)) = Some (Position e)"
    using assms by (auto simp: int64_def intro: ParseInt_show_int)
  show ?thesis
    unfolding decode_struct_def entry_members_def
    by (simp add: decode_members_append decode_entry_omit zero_entry_def i entry_decoding)
qed

definition storable :: "entry \<Rightarrow> bool" where
  "storable e = (wf_json (Payload e) \<and> int64 (FormatVersion e) \<and> int64 (Position e))"

lemma decode_entry_line:
  assumes "storable e"
  shows "decode_entry (render_html (JObject (entry_members e))) = Some (coerce_entry e)"
proof -
  have wf: "wf_json (JObject (entry_members e))" using assms by (simp only: storable_def wf_entry_members)
  have "json_scan (render_html (JObject (entry_members e))) = Some (JObject (entry_members (coerce_entry e)))"
    unfolding json_scan_render_html [OF wf] by (simp add: coerce_entry_members)
  moreover have "int64 (FormatVersion (coerce_entry e))" "int64 (Position (coerce_entry e))"
    using assms by (simp_all add: storable_def coerce_entry_def)
  ultimately show ?thesis by (simp add: decode_entry_def decode_entry_members)
qed

lemma entry_line_printable:
  assumes "wf_json (Payload e)"
  shows "printable (render_html (JObject (entry_members e)))"
  by (rule printable_render_html [OF wf_entry_members [OF assms]])

text \<open>A rendered object starts and ends with a brace, so trimming leaves it alone.\<close>

lemma not_space_brace:
  "w \<in> set space_encodings \<Longrightarrow> \<not> HasPrefix (CHR ''{'' # s) w"
  "w \<in> set (map rev space_encodings) \<Longrightarrow> \<not> HasPrefix (CHR ''}'' # s) w"
proof -
  have first: "hd w \<noteq> CHR ''{''" "last w \<noteq> CHR ''}''" "w \<noteq> []" if "w \<in> set space_encodings" for w
    using that unfolding space_encodings_def by (auto simp: ord_eq_iff ord_byte)
  show "w \<in> set space_encodings \<Longrightarrow> \<not> HasPrefix (CHR ''{'' # s) w" using first [of w] by (cases w) auto
  assume "w \<in> set (map rev space_encodings)"
  then obtain v where v: "w = rev v" "v \<in> set space_encodings" by auto
  then have "hd w \<noteq> CHR ''}''" "w \<noteq> []" using first [of v] by (auto simp: hd_rev)
  then show "\<not> HasPrefix (CHR ''}'' # s) w" by (cases w) auto
qed

lemma TrimSpace_object: "TrimSpace (''{'' @ s @ ''}'') = ''{'' @ s @ ''}''"
proof -
  have "trim_prefixes space_encodings (''{'' @ s @ ''}'') = ''{'' @ s @ ''}''"
    by (rule trim_prefixes_id) (simp add: not_space_brace)
  moreover have "trim_prefixes (map rev space_encodings) (rev (''{'' @ s @ ''}'')) = rev (''{'' @ s @ ''}'')"
    by (rule trim_prefixes_id) (simp add: not_space_brace del: set_map)
  ultimately show ?thesis by (simp add: TrimSpace_def)
qed

section \<open>The chain of entries\<close>

definition entry_body :: "entry \<Rightarrow> string" where
  "entry_body e = (case canonicalizeRaw (entry_text e) of Inl _ \<Rightarrow> [] | Inr t \<Rightarrow> t)"

interpretation journal: linked_chain je_PrevHash je_Hash entry_body digest GenesisHash
  by unfold_locales simp

lemma computeHash_Inr: "computeHash e = Inr h \<Longrightarrow> h = digest (je_PrevHash e @ entry_body e)"
  by (auto simp: computeHash_def Marshal_def entry_body_def digest_def split: sum.splits)

definition chain_tip :: "entry list \<Rightarrow> string" where
  "chain_tip es = (if es = [] then GenesisHash else je_Hash (last es))"

definition next_ok :: "entry list \<Rightarrow> entry \<Rightarrow> bool" where
  \<comment> \<open>an entry that may follow the given ones on disk\<close>
  "next_ok es e =
     (FormatVersion e = JournalFormatVersion \<and> Position e = int (length es) + 1 \<and> je_PrevHash e = chain_tip es \<and>
      computeHash e = Inr (je_Hash e) \<and> storable e \<and> int (length (entry_line e)) \<le> maxLineBytes)"

fun chained :: "entry list \<Rightarrow> entry list \<Rightarrow> bool" where
  "chained es [] = True"
| "chained es (e # rest) = (next_ok es e \<and> chained (es @ [e]) rest)"

lemma chained_append: "chained es (as @ bs) \<longleftrightarrow> chained es as \<and> chained (es @ as) bs"
  by (induction as arbitrary: es) auto

lemma chained_linked:
  "chained es rest \<Longrightarrow> linked je_PrevHash je_Hash entry_body digest (chain_tip es) rest"
proof (induction rest arbitrary: es)
  case (Cons e rest)
  then have "linked je_PrevHash je_Hash entry_body digest (je_Hash e) rest"
    using Cons.IH [of "es @ [e]"] by (simp add: chain_tip_def)
  with Cons.prems computeHash_Inr [of e "je_Hash e"] show ?case by (auto simp: next_ok_def)
qed simp

lemma valid_chain_tip: "chained [] es \<Longrightarrow> valid_utf8 (chain_tip es)"
proof (cases es rule: rev_cases)
  case (snoc fs e)
  assume "chained [] es"
  with snoc have "je_Hash e = digest (je_PrevHash e @ entry_body e)"
    using computeHash_Inr [of e "je_Hash e"] by (auto simp: chained_append next_ok_def)
  with snoc show ?thesis by (simp add: chain_tip_def valid_utf8_digest)
qed (simp add: chain_tip_def valid_utf8_Genesis)

lemma coerce_entry_hash: "next_ok es e \<Longrightarrow> je_Hash (coerce_entry e) = je_Hash e"
  using valid_utf8_digest by (auto simp: next_ok_def coerce_entry_def dest!: computeHash_Inr)

lemma chain_tip_coerce:
  assumes "chained [] es"
  shows "chain_tip (map coerce_entry es) = chain_tip es"
proof (cases es rule: rev_cases)
  case (snoc fs e)
  with assms have "next_ok fs e" by (simp add: chained_append)
  with snoc show ?thesis by (simp add: chain_tip_def coerce_entry_hash)
qed (simp add: chain_tip_def)

text \<open>\<^verbatim>\<open>readEntries\<close> accepts the line of an entry that may follow.\<close>

lemma check_entry_line:
  assumes "chained [] es" "next_ok es e"
  shows "check_entry (map coerce_entry es) (render_html (JObject (entry_members e))) = Inr (coerce_entry e)"
proof -
  have st: "storable e" and wf: "wf_json (Payload e)" using assms(2) by (auto simp: next_ok_def storable_def)
  have pv: "je_PrevHash e = chain_tip es" "valid_utf8 (je_PrevHash e)"
    using assms valid_chain_tip by (auto simp: next_ok_def)
  have "computeHash (coerce_entry e) = Inr (je_Hash (coerce_entry e))"
    using computeHash_coerce [OF wf pv(2)] assms(2) coerce_entry_hash [OF assms(2)] by (simp add: next_ok_def)
  moreover have "je_PrevHash (coerce_entry e) = chain_tip (map coerce_entry es)"
    using pv chain_tip_coerce [OF assms(1)] by (simp add: coerce_entry_def)
  ultimately show ?thesis
    using assms(2) decode_entry_line [OF st]
    by (auto simp: check_entry_def next_ok_def coerce_entry_def [of e] chain_tip_def last_map split: if_splits)
qed

lemma entry_line_parts:
  assumes wf: "wf_json (Payload e)"
  shows "raw_lines (entry_line e @ t) = entry_line e # raw_lines t"
    "TrimSpace (trim_line (entry_line e)) = render_html (JObject (entry_members e))"
    "render_html (JObject (entry_members e)) \<noteq> []"
proof -
  note pr = entry_line_printable [OF wf]
  show "raw_lines (entry_line e @ t) = entry_line e # raw_lines t"
    unfolding entry_line_def using raw_lines_step [OF pr] by simp
  have "trim_line (entry_line e) = render_html (JObject (entry_members e))"
    unfolding entry_line_def by (rule trim_line_printable [OF pr])
  then show "TrimSpace (trim_line (entry_line e)) = render_html (JObject (entry_members e))"
    using TrimSpace_object by (simp add: render_html_def)
  show "render_html (JObject (entry_members e)) \<noteq> []" by (simp add: render_html_def)
qed

lemma read_loop_lines:
  assumes "chained [] (es @ rest)"
  shows "read_loop (raw_lines (concat (map entry_line rest))) (map coerce_entry es) = Inr (map coerce_entry (es @ rest))"
  using assms
proof (induction rest arbitrary: es)
  case (Cons e rest)
  then have ok: "chained [] es" "next_ok es e" by (auto simp: chained_append)
  then have "wf_json (Payload e)" by (simp add: next_ok_def storable_def)
  note parts = entry_line_parts [OF this]
  have "int (length (entry_line e)) \<le> maxLineBytes" using ok(2) by (simp add: next_ok_def)
  moreover have "read_loop (raw_lines (concat (map entry_line rest))) (map coerce_entry (es @ [e])) =
      Inr (map coerce_entry ((es @ [e]) @ rest))"
    using Cons.prems by (intro Cons.IH) simp
  ultimately show ?case
    using check_entry_line [OF ok] by (simp add: parts Let_def)
qed simp

section \<open>Torn tails\<close>

lemma lastNewline_from_None: "CHR 0x0A \<notin> set (take i d) \<Longrightarrow> i \<le> length d \<Longrightarrow> lastNewline_from d i = None"
  by (induction i) (auto simp: take_Suc_conv_app_nth)

lemma lastNewline_from_skip:
  "CHR 0x0A \<notin> set b \<Longrightarrow> lastNewline_from (a @ b) (length a + k) = lastNewline_from (a @ b) (length a)" if "k \<le> length b"
  using that by (induction k) (auto simp: nth_append in_set_conv_nth)

lemma lastNewline_torn:
  assumes "CHR 0x0A \<notin> set b"
  shows "lastNewline (a @ [CHR 0x0A] @ b) = Some (length a)" "lastNewline b = None"
proof -
  have "lastNewline_from ((a @ [CHR 0x0A]) @ b) (length (a @ [CHR 0x0A]) + length b) =
      lastNewline_from ((a @ [CHR 0x0A]) @ b) (length (a @ [CHR 0x0A]))"
    by (rule lastNewline_from_skip) (use assms in auto)
  then show "lastNewline (a @ [CHR 0x0A] @ b) = Some (length a)" by (simp add: lastNewline_def nth_append)
  show "lastNewline b = None" using assms by (simp add: lastNewline_def lastNewline_from_None)
qed

definition lines_of :: "entry list \<Rightarrow> string" where
  "lines_of es = concat (map entry_line es)"

lemma lines_of_end: "es \<noteq> [] \<Longrightarrow> \<exists>a. lines_of es = a @ [CHR 0x0A]"
proof (cases es rule: rev_cases)
  case (snoc fs e)
  then show ?thesis by (simp add: lines_of_def entry_line_def)
qed simp

lemma complete_part_torn:
  assumes "CHR 0x0A \<notin> set b"
  shows "complete_part (lines_of es @ b) = lines_of es"
proof (cases "es = []")
  case True
  with assms lastNewline_torn(2) show ?thesis by (simp add: complete_part_def lines_of_def)
next
  case False
  then obtain a where a: "lines_of es = a @ [CHR 0x0A]" using lines_of_end by blast
  with lastNewline_torn(1) [OF assms, of a] show ?thesis by (simp add: complete_part_def)
qed

lemma readEntries_lines:
  assumes "chained [] es" "CHR 0x0A \<notin> set b"
  shows "readEntries (Some (lines_of es @ b)) = Inr (map coerce_entry es, b \<noteq> [])"
proof -
  have loop: "read_loop (raw_lines (lines_of es)) [] = Inr (map coerce_entry es)"
    using read_loop_lines [of "[]" es] assms(1) by (simp add: lines_of_def)
  show ?thesis
  proof (cases "b = []")
    case False
    have "last (lines_of es @ b) \<noteq> CHR 0x0A" using assms(2) False by (metis last_appendR last_in_set)
    then show ?thesis
      using False loop complete_part_torn [OF assms(2), of es] by (simp add: readEntries_def Let_def)
  next
    case True
    show ?thesis
    proof (cases "es = []")
      case True
      with \<open>b = []\<close> show ?thesis by (simp add: readEntries_def lines_of_def)
    next
      case False
      then obtain a where "lines_of es = a @ [CHR 0x0A]" using lines_of_end by blast
      with \<open>b = []\<close> loop show ?thesis by (simp add: readEntries_def Let_def)
    qed
  qed
qed

lemma lastCompleteOffset_torn:
  assumes "CHR 0x0A \<notin> set b"
  shows "nat (lastCompleteOffset (lines_of es @ b)) = length (lines_of es)"
proof (cases "es = []")
  case True
  then show ?thesis
    using assms lastNewline_torn(2) [OF assms] by (cases b rule: rev_cases) (auto simp: lastCompleteOffset_def lines_of_def)
next
  case False
  then obtain a where a: "lines_of es = a @ [CHR 0x0A]" using lines_of_end by blast
  with assms lastNewline_torn(1) [OF assms, of a] show ?thesis
    by (cases b rule: rev_cases) (auto simp: lastCompleteOffset_def)
qed

section \<open>The invariant of an open journal\<close>

definition journal_ok :: "journal \<Rightarrow> bool" where
  \<comment> \<open>the entries in memory form a chain, and the file holds exactly their lines unless a write failed\<close>
  "journal_ok j =
     (chained [] (entries j) \<and>
      (\<not> failed j \<longrightarrow> (case disk_file (store j) of None \<Rightarrow> [] | Some c \<Rightarrow> c) = lines_of (entries j)) \<and>
      (failed j \<longrightarrow> (\<exists>t. disk_file (store j) = Some (lines_of (entries j) @ t))))"

definition fresh_entry :: "entry \<Rightarrow> bool" where
  \<comment> \<open>a caller's entry: its payload is JSON and its version is absent or current\<close>
  "fresh_entry e = (wf_json (Payload e) \<and> FormatVersion e \<in> {0, JournalFormatVersion})"

lemma Position_last: "chained [] es \<Longrightarrow> es \<noteq> [] \<Longrightarrow> Position (last es) = int (length es)"
  by (cases es rule: rev_cases) (auto simp: chained_append next_ok_def)

lemma LastPosition_ok: "journal_ok j \<Longrightarrow> LastPosition j = int (length (entries j))"
  using Position_last [of "entries j"] by (auto simp: journal_ok_def LastPosition_def)

lemma prepare_ok:
  assumes "journal_ok j" "fresh_entry e" "int (length (entries j)) < 2 ^ 62"
    and "computeHash (prepare j e) = Inr h" "int (length (entry_line ((prepare j e)\<lparr>je_Hash := h\<rparr>))) \<le> maxLineBytes"
  shows "next_ok (entries j) ((prepare j e)\<lparr>je_Hash := h\<rparr>)"
proof -
  define e1 where "e1 = prepare j e"
  have same: "computeHash (e1\<lparr>je_Hash := h\<rparr>) = computeHash e1"
    by (simp add: computeHash_def Marshal_def entry_text_def hash_event_def hashable_def)
  have e1: "FormatVersion e1 = JournalFormatVersion" "Position e1 = int (length (entries j)) + 1"
    "je_PrevHash e1 = chain_tip (entries j)" "Payload e1 = Payload e"
    using assms(1,2) LastPosition_ok [OF assms(1)]
    by (auto simp: e1_def prepare_def Let_def fresh_entry_def chain_tip_def)
  have "storable (e1\<lparr>je_Hash := h\<rparr>)"
    using e1 assms(2,3) by (simp add: storable_def fresh_entry_def int64_def JournalFormatVersion_def)
  with e1 assms(4,5) same show ?thesis by (simp add: next_ok_def e1_def [symmetric])
qed

text \<open>
  The four ways an append on a healthy journal can end: refused before the write with nothing changed but a
  marker, a failed write, a failed sync, or the entry is durable.
\<close>

lemma Append_cases:
  assumes "is_open j" "\<not> failed j"
  obtains (refused) err where "Append w s m j e = (j, Inl err) \<or> Append w s m j e = (mark_degraded m ''rejected oversized entry'' j, Inl err)"
  | (attempted) h e2 content where "computeHash (prepare j e) = Inr h" "e2 = (prepare j e)\<lparr>je_Hash := h\<rparr>"
      "int (length (entry_line e2)) \<le> maxLineBytes" "content = (case disk_file (store j) of None \<Rightarrow> [] | Some c \<Rightarrow> c)"
      "Append w s m j e =
        (case w of
           Short n \<Rightarrow> (mark_degraded m ''journal write failed''
              (j\<lparr>store := (store j)\<lparr>disk_file := Some (content @ take n (entry_line e2))\<rparr>, failed := True\<rparr>), Inl WriteError)
         | Done \<Rightarrow>
             if s then (j\<lparr>store := (store j)\<lparr>disk_file := Some (content @ entry_line e2)\<rparr>, entries := entries j @ [e2]\<rparr>, Inr e2)
             else (mark_degraded m ''journal fsync failed''
                (j\<lparr>store := (store j)\<lparr>disk_file := Some (content @ entry_line e2)\<rparr>, failed := True\<rparr>), Inl SyncError))"
proof (cases "FormatVersion (if FormatVersion e = 0 then e\<lparr>FormatVersion := JournalFormatVersion\<rparr> else e) > JournalFormatVersion \<or>
    TrimSpace (ObservationID e) = []")
  case True
  then have "\<exists>err. Append w s m j e = (j, Inl err)" using assms by (auto simp: Append_def)
  then show ?thesis using refused by blast
next
  case False
  show ?thesis
  proof (cases "computeHash (prepare j e)")
    case (Inl err)
    with False assms have "\<exists>err. Append w s m j e = (j, Inl err)" by (auto simp: Append_def Let_def)
    then show ?thesis using refused by blast
  next
    case (Inr h)
    show ?thesis
    proof (cases "int (length (entry_line ((prepare j e)\<lparr>je_Hash := h\<rparr>))) > maxLineBytes")
      case True
      with False Inr assms
      have "\<exists>err. Append w s m j e = (mark_degraded m ''rejected oversized entry'' j, Inl err)" by (auto simp: Append_def Let_def)
      then show ?thesis using refused by blast
    next
      case short: False
      show ?thesis
        by (rule attempted [OF Inr refl _ refl])
          (use False Inr assms short in \<open>auto simp: Append_def Let_def split: outcome.splits\<close>)
    qed
  qed
qed

lemma mark_degraded_simps [simp]:
  "entries (mark_degraded m r j) = entries j" "failed (mark_degraded m r j) = failed j"
  "disk_file (store (mark_degraded m r j)) = disk_file (store j)" "is_open (mark_degraded m r j) = is_open j"
  by (simp_all add: mark_degraded_def)

lemma Append_cases_ok:
  assumes "journal_ok j" "fresh_entry e" "int (length (entries j)) < 2 ^ 62" "Append w s m j e = (j', r)"
  shows "journal_ok j' \<and> (\<exists>es. entries j' = entries j @ es \<and> (es = [] \<longleftrightarrow> \<not> is_ok r))"
proof (cases "is_open j \<and> \<not> failed j")
  case False
  then have "j' = j" "\<not> is_ok r" using assms(4) by (cases "is_open j"; simp add: Append_def; auto)+
  with assms(1) show ?thesis by simp
next
  case True
  then have op: "is_open j" "\<not> failed j" by auto
  show ?thesis
    using op
  proof (cases rule: Append_cases [where w = w and s = s and m = m and e = e])
    case (refused err)
    with assms op show ?thesis by (auto simp: journal_ok_def)
  next
    case (attempted h e2 content)
    have nx: "next_ok (entries j) e2"
      using prepare_ok [OF assms(1-3) attempted(1)] attempted(2,3) by simp
    have c: "content = lines_of (entries j)" "chained [] (entries j)"
      using assms(1) op attempted(4) by (auto simp: journal_ok_def)
    have all: "lines_of (entries j) @ entry_line e2 = lines_of (entries j @ [e2])" by (simp add: lines_of_def)
    from attempted(5) assms(4) consider
      n where "w = Short n" "j' = mark_degraded m ''journal write failed''
        (j\<lparr>store := (store j)\<lparr>disk_file := Some (content @ take n (entry_line e2))\<rparr>, failed := True\<rparr>)" "r = Inl WriteError"
      | "j' = j\<lparr>store := (store j)\<lparr>disk_file := Some (content @ entry_line e2)\<rparr>, entries := entries j @ [e2]\<rparr>" "r = Inr e2"
      | "j' = mark_degraded m ''journal fsync failed''
        (j\<lparr>store := (store j)\<lparr>disk_file := Some (content @ entry_line e2)\<rparr>, failed := True\<rparr>)" "r = Inl SyncError"
      by (auto split: outcome.splits if_splits)
    then show ?thesis
    proof cases
      case 1
      with c show ?thesis by (auto simp: journal_ok_def)
    next
      case 2
      with c nx all op show ?thesis by (auto simp: journal_ok_def chained_append)
    next
      case 3
      with c show ?thesis by (auto simp: journal_ok_def)
    qed
  qed
qed

section \<open>Properties\<close>

definition empty_journal :: journal where
  "empty_journal = \<lparr>store = \<lparr>disk_file = Some [], repair_marker = None, degraded_marker = None\<rparr>, is_open = True,
     entries = [], repaired = False, failed = False\<rparr>"

lemma empty_journal_ok: "journal_ok empty_journal"
  by (simp add: journal_ok_def empty_journal_def lines_of_def)

definition sample_entry :: entry where
  "sample_entry = zero_entry\<lparr>ObservationID := ''obs-1''\<rparr>"

lemma sample_fresh: "fresh_entry sample_entry"
  by (simp add: fresh_entry_def sample_entry_def zero_entry_def)

abbreviation journal_bytes :: "journal \<Rightarrow> string" where
  "journal_bytes j \<equiv> (case disk_file (store j) of None \<Rightarrow> [] | Some c \<Rightarrow> c)"

lemma Append_bytes:
  assumes "journal_ok j" "fresh_entry e" "int (length (entries j)) < 2 ^ 62" "Append w s m j e = (j', r)"
  shows "case r of
      Inr e' \<Rightarrow> \<not> failed j' \<and> next_ok (entries j) e' \<and> entries j' = entries j @ [e'] \<and> journal_bytes j' = lines_of (entries j @ [e'])
    | Inl err \<Rightarrow> entries j' = entries j \<and>
        (journal_bytes j' = journal_bytes j \<or>
         failed j' \<and> (\<exists>e' n. next_ok (entries j) e' \<and> journal_bytes j' = lines_of (entries j) @ take n (entry_line e')))"
proof (cases "is_open j \<and> \<not> failed j")
  case False
  then have "j' = j" "\<not> is_ok r" using assms(4) by (cases "is_open j"; simp add: Append_def; auto)+
  then show ?thesis by (cases r) auto
next
  case True
  then have op: "is_open j" "\<not> failed j" by auto
  show ?thesis
    using op
  proof (cases rule: Append_cases [where w = w and s = s and m = m and e = e])
    case (refused err)
    with assms(4) have "r = Inl err" "entries j' = entries j" "disk_file (store j') = disk_file (store j)" by (auto simp: mark_degraded_def)
    then show ?thesis by simp
  next
    case (attempted h e2 content)
    have nx: "next_ok (entries j) e2"
      using prepare_ok [OF assms(1-3) attempted(1)] attempted(2,3) by simp
    have c: "content = lines_of (entries j)" using assms(1) op attempted(4) by (auto simp: journal_ok_def)
    have all: "lines_of (entries j) @ entry_line e2 = lines_of (entries j @ [e2])" by (simp add: lines_of_def)
    from attempted(5) assms(4) consider
      n where "entries j' = entries j" "failed j'" "journal_bytes j' = content @ take n (entry_line e2)" "\<exists>err. r = Inl err"
      | "entries j' = entries j @ [e2]" "\<not> failed j'" "journal_bytes j' = content @ entry_line e2" "r = Inr e2"
      | "entries j' = entries j" "failed j'" "journal_bytes j' = content @ take (length (entry_line e2)) (entry_line e2)" "\<exists>err. r = Inl err"
      using op by (auto split: outcome.splits if_splits)
    then show ?thesis
    proof cases
      case 1
      with c nx show ?thesis by (elim exE) (simp only: sum.case, blast)
    next
      case 2
      with c nx all show ?thesis by simp
    next
      case 3
      with c nx show ?thesis by (elim exE) (simp only: sum.case, blast)
    qed
  qed
qed


definition durable_entry :: entry where
  \<comment> \<open>the first entry of the sample journal, as it is stored\<close>
  "durable_entry =
     (prepare empty_journal sample_entry)
       \<lparr>je_Hash := digest (GenesisHash @ entry_body (prepare empty_journal sample_entry))\<rparr>"

lemma computeHash_readable:
  assumes "readable (Payload e)" "int64 (Position e)"
  shows "computeHash e = Inr (digest (je_PrevHash e @ entry_body e))"
proof -
  have pos: "- (2 ^ 63) \<le> Position e" "Position e < 2 ^ 63" using assms(2) by (auto simp: int64_def)
  have "readable (JNumber (show_int (Position e)))"
    using ParseFloat_show_int [OF fl_int64 [OF pos]] by (simp add: readable_def show_int_number)
  then have "readable (JObject (hashable e))"
    unfolding hashable_def using assms(1) by (intro readable_object) (simp add: readable_omit)
  then have "list_all (\<lambda>(k, v). readable v) (event_members (hash_event e) (JObject (hashable e)))"
    by (rule readable_event_members) (use pos in \<open>simp_all add: hash_event_def\<close>)
  then have "readable (JObject (event_members (hash_event e) (JObject (hashable e))))" by (rule readable_object)
  then obtain w where "json_unmarshal (entry_text e) = Some w"
    unfolding entry_text_def readable_def using json_unmarshal_render_html by auto
  then have "is_ok (canonicalizeRaw (entry_text e))" by (simp add: canonicalizeRaw_ok)
  then show ?thesis by (auto simp: computeHash_def Marshal_def entry_body_def digest_def is_ok_iff)
qed

lemma durable_entry_ok: "next_ok [] durable_entry"
proof -
  define e where "e = prepare empty_journal sample_entry"
  have e: "readable (Payload e)" "je_PrevHash e = GenesisHash" "int64 (Position e)"
    by (simp_all add: e_def prepare_def empty_journal_def sample_entry_def zero_entry_def readable_def LastPosition_def int64_def)
  have "show_int 1 = ''1''" "length GenesisHash = 64" by code_simp+
  then have "text_bound (JObject (entry_members durable_entry)) \<le> 6000"
    by (simp add: durable_entry_def entry_members_def prepare_def empty_journal_def sample_entry_def zero_entry_def
        LastPosition_def JournalFormatVersion_def omit_string_def digest_def)
  then have "int (length (entry_line durable_entry)) \<le> maxLineBytes"
    using length_render(1) [OF refl, of "JObject (entry_members durable_entry)"]
    by (simp add: entry_line_def render_html_def maxLineBytes_def)
  then have "next_ok (entries empty_journal) (e\<lparr>je_Hash := digest (je_PrevHash e @ entry_body e)\<rparr>)"
    unfolding e_def
    by (intro prepare_ok [OF empty_journal_ok sample_fresh] computeHash_readable)
      (use e in \<open>simp_all add: empty_journal_def durable_entry_def e_def\<close>)
  then show ?thesis using e by (simp add: durable_entry_def e_def empty_journal_def)
qed

lemma sample_appends: "\<exists>j'. Append Done True True empty_journal sample_entry = (j', Inr durable_entry)"
proof -
  define e where "e = prepare empty_journal sample_entry"
  have e: "readable (Payload e)" "je_PrevHash e = GenesisHash" "int64 (Position e)"
    by (simp_all add: e_def prepare_def empty_journal_def sample_entry_def zero_entry_def readable_def LastPosition_def int64_def)
  have h: "computeHash e = Inr (je_Hash durable_entry)" "e\<lparr>je_Hash := je_Hash durable_entry\<rparr> = durable_entry"
    using computeHash_readable [OF e(1,3)] e(2) by (simp_all add: durable_entry_def e_def)
  have "TrimSpace (ObservationID sample_entry) \<noteq> []" unfolding sample_entry_def zero_entry_def by code_simp
  moreover have "int (length (entry_line durable_entry)) \<le> maxLineBytes" using durable_entry_ok by (simp add: next_ok_def)
  moreover have "FormatVersion sample_entry = 0" "is_open empty_journal" "\<not> failed empty_journal"
    by (simp_all add: sample_entry_def zero_entry_def empty_journal_def)
  ultimately show ?thesis using h by (simp add: Append_def e_def [symmetric] Let_def JournalFormatVersion_def)
qed


text \<open>C15: a journal survives a crash at any point of an append: if only a prefix of the new line reached the file, reading
  it back yields every earlier entry with its hash, reports a torn tail exactly when some bytes of the
  line were written, and opening it cuts the file back to the complete lines and leaves a marker.\<close>

theorem journal_crash_recovery:
  assumes "chained [] es" "next_ok es e" "n < length (entry_line e)"
  shows "let content = lines_of es @ take n (entry_line e)
    in readEntries (Some content) = Inr (map coerce_entry es, n \<noteq> 0) \<and>
       map je_Hash (map coerce_entry es) = map je_Hash es \<and>
       (case Open True True \<lparr>disk_file = Some content, repair_marker = None, degraded_marker = g\<rparr> of
          (d, r) \<Rightarrow> disk_file d = Some (lines_of es) \<and> (repair_marker d = (if n = 0 then None else Some (int n))) \<and>
            (\<exists>j. r = Inr j \<and> entries j = map coerce_entry es \<and> repaired j = (n \<noteq> 0)))"
proof -
  define t where "t = render_html (JObject (entry_members e))"
  have "wf_json (Payload e)" using assms(2) by (simp add: next_ok_def storable_def)
  then have pr: "printable t" unfolding t_def by (rule entry_line_printable)
  have frag: "take n (entry_line e) = take n t" using assms(3) by (simp add: entry_line_def t_def)
  have "CHR 0x0A \<notin> set t" using pr by (induction t) auto
  then have nl: "CHR 0x0A \<notin> set (take n t)" by (meson in_set_takeD)
  have len: "length (take n t) = n" using assms(3) by (simp add: entry_line_def t_def)
  have read: "readEntries (Some (lines_of es @ take n t)) = Inr (map coerce_entry es, take n t \<noteq> [])"
    by (rule readEntries_lines [OF assms(1) nl])
  have ne: "take n t \<noteq> [] \<longleftrightarrow> n \<noteq> 0" using len by auto
  have hash: "map je_Hash (map coerce_entry rest) = map je_Hash rest" if "chained ps rest" for ps rest
    using that by (induction rest arbitrary: ps) (auto simp: coerce_entry_hash)
  have cut: "take (nat (lastCompleteOffset (lines_of es @ take n t))) (lines_of es @ take n t) = lines_of es"
    by (simp add: lastCompleteOffset_torn [OF nl])
  have disc: "discardedTailBytes (lines_of es @ take n t) = int n" if "n \<noteq> 0"
  proof -
    have "last (lines_of es @ take n t) \<noteq> CHR 0x0A" using nl ne that by (metis last_appendR last_in_set)
    moreover have "0 \<le> lastCompleteOffset (lines_of es @ take n t)" by (auto simp: lastCompleteOffset_def split: option.splits)
    ultimately show ?thesis using lastCompleteOffset_torn [OF nl, of es] len ne that by (auto simp: discardedTailBytes_def)
  qed
  show ?thesis
    using read hash [OF assms(1)] cut disc ne frag by (auto simp: Open_def Let_def)
qed

theorem journal_crash_recovery_witness:
  "let content = lines_of [] @ take 5 (entry_line durable_entry)
    in readEntries (Some content) = Inr (map coerce_entry [], 5 \<noteq> (0::nat)) \<and>
       map je_Hash (map coerce_entry []) = map je_Hash [] \<and>
       (case Open True True \<lparr>disk_file = Some content, repair_marker = None, degraded_marker = None\<rparr> of
          (d, r) \<Rightarrow> disk_file d = Some (lines_of []) \<and> (repair_marker d = (if 5 = (0::nat) then None else Some (int 5))) \<and>
            (\<exists>j. r = Inr j \<and> entries j = map coerce_entry [] \<and> repaired j = (5 \<noteq> (0::nat))))"
proof -
  have "5 < length (entry_line durable_entry)" by (simp add: entry_line_def entry_members_def render_html_def)
  from journal_crash_recovery [OF _ durable_entry_ok this, of None] show ?thesis by simp
qed

lemma read_loop_linked:
  assumes "read_loop lines es = Inr es'"
  shows "\<exists>rest. es' = es @ rest \<and> linked je_PrevHash je_Hash entry_body digest (chain_tip es) rest \<and>
    map Position rest = map (\<lambda>i. int (length es) + 1 + int i) [0..<length rest] \<and>
    list_all (\<lambda>e. FormatVersion e = JournalFormatVersion) rest"
  using assms
proof (induction lines es rule: read_loop.induct)
  case (2 rawLine lines es)
  show ?case
  proof (cases "TrimSpace (trim_line rawLine) = []")
    case True
    with 2 show ?thesis by (auto simp: Let_def split: if_splits)
  next
    case False
    with 2(3) obtain e where short: "\<not> int (length rawLine) > maxLineBytes"
      and e: "check_entry es (TrimSpace (trim_line rawLine)) = Inr e" "read_loop lines (es @ [e]) = Inr es'"
      by (auto simp: Let_def split: if_splits sum.splits)
    from 2(2) [OF short refl False e] obtain rest where rest: "es' = (es @ [e]) @ rest"
      "linked je_PrevHash je_Hash entry_body digest (chain_tip (es @ [e])) rest"
      "map Position rest = map (\<lambda>i. int (length (es @ [e])) + 1 + int i) [0..<length rest]"
      "list_all (\<lambda>e. FormatVersion e = JournalFormatVersion) rest" by auto
    have c: "FormatVersion e = JournalFormatVersion" "Position e = int (length es) + 1" "je_PrevHash e = chain_tip es"
      "computeHash e = Inr (je_Hash e)"
      using e(1) by (auto simp: check_entry_def chain_tip_def split: option.splits if_splits sum.splits)
    have "map Position (e # rest) = map (\<lambda>i. int (length es) + 1 + int i) [0..<length (e # rest)]"
      using c(2) rest(3) by (simp add: upt_conv_Cons map_Suc_upt [symmetric] del: upt_Suc)
    with rest c computeHash_Inr [OF c(4)] show ?thesis
      by (intro exI [of _ "e # rest"]) (auto simp: chain_tip_def)
  qed
qed simp

lemma readEntries_linked:
  assumes "readEntries f = Inr (es, torn)"
  shows "linked je_PrevHash je_Hash entry_body digest GenesisHash es"
    "map Position es = map (\<lambda>i. int i + 1) [0..<length es]"
    "list_all (\<lambda>e. FormatVersion e = JournalFormatVersion) es"
proof -
  have "es = [] \<or> (\<exists>lines. read_loop lines [] = Inr es)"
    using assms by (auto simp: readEntries_def Let_def split: option.splits if_splits sum.splits)
  then have "linked je_PrevHash je_Hash entry_body digest GenesisHash es \<and>
      map Position es = map (\<lambda>i. int i + 1) [0..<length es] \<and> list_all (\<lambda>e. FormatVersion e = JournalFormatVersion) es"
    using read_loop_linked [of _ "[]" es] by (auto simp: chain_tip_def add.commute)
  then show "linked je_PrevHash je_Hash entry_body digest GenesisHash es"
    "map Position es = map (\<lambda>i. int i + 1) [0..<length es]"
    "list_all (\<lambda>e. FormatVersion e = JournalFormatVersion) es" by auto
qed

text \<open>C16: a journal that reads without error is tamper evident: its entries are numbered from 1 without gaps, and two
  journals whose last entries have the same hash hold entries with the same hashes and the same hashed
  content position by position, or exhibit a SHA-256 collision or an entry hashing to the genesis constant.\<close>

theorem journal_tamper_evident:
  assumes "readEntries f = Inr (es, torn)" "readEntries f' = Inr (es', torn')" "chain_tip es = chain_tip es'"
  shows "map Position es = map (\<lambda>i. int i + 1) [0..<length es] \<and>
    (list_all2 (\<lambda>e e'. je_PrevHash e = je_PrevHash e' \<and> entry_body e = entry_body e' \<and> je_Hash e = je_Hash e') es es' \<or>
     (\<exists>e\<in>set es. \<exists>e'\<in>set es'. collide digest (je_PrevHash e @ entry_body e) (je_PrevHash e' @ entry_body e')) \<or>
     (\<exists>e\<in>set es \<union> set es'. digest (je_PrevHash e @ entry_body e) = GenesisHash))"
proof -
  have "chain_head je_Hash GenesisHash es = chain_head je_Hash GenesisHash es'"
    using assms(3) by (cases "es = []"; cases "es' = []") (simp_all add: chain_tip_def chain_head_last)
  from journal.same_head [OF readEntries_linked(1) [OF assms(1)] readEntries_linked(1) [OF assms(2)] this]
  show ?thesis using readEntries_linked(2) [OF assms(1)] by blast
qed

lemma durable_reads: "CHR 0x0A \<notin> set b \<Longrightarrow>
  readEntries (Some (lines_of [durable_entry] @ b)) = Inr ([coerce_entry durable_entry], b \<noteq> [])"
  using readEntries_lines [of "[durable_entry]" b] durable_entry_ok by simp

theorem journal_tamper_evident_witness:
  "(\<exists>es torn. readEntries (Some (lines_of [durable_entry] @ [])) = Inr (es, torn) \<and> length es = 1) \<and>
   map Position [coerce_entry durable_entry] = map (\<lambda>i. int i + 1) [0..<length [coerce_entry durable_entry]]"
proof -
  have "readEntries (Some (lines_of [durable_entry] @ [])) = Inr ([coerce_entry durable_entry], False)"
    "readEntries (Some (lines_of [durable_entry] @ ''{'')) = Inr ([coerce_entry durable_entry], True)"
    using durable_reads [of "[]"] durable_reads [of "''{''"] by simp_all
  with journal_tamper_evident [OF this refl] show ?thesis by (intro conjI exI) (assumption, simp, elim conjE)
qed

definition old_entry :: entry where
  "old_entry = sample_entry\<lparr>FormatVersion := - 1\<rparr>"

definition old_stored :: entry where
  \<comment> \<open>what Append stores for it\<close>
  "old_stored =
     (prepare empty_journal old_entry)\<lparr>je_Hash := digest (GenesisHash @ entry_body (prepare empty_journal old_entry))\<rparr>"

lemma old_entry_hash: "computeHash (prepare empty_journal old_entry) = Inr (je_Hash old_stored)"
proof -
  have "readable (Payload (prepare empty_journal old_entry))" "int64 (Position (prepare empty_journal old_entry))"
    "je_PrevHash (prepare empty_journal old_entry) = GenesisHash"
    by (simp_all add: prepare_def empty_journal_def old_entry_def sample_entry_def zero_entry_def readable_def
        LastPosition_def int64_def)
  from computeHash_readable [OF this(1,2)] this(3) show ?thesis by (simp add: old_stored_def)
qed

lemma old_stored_line: "int (length (entry_line old_stored)) \<le> maxLineBytes"
proof -
  have "show_int 1 = ''1''" "show_int (- 1) = ''-1''" "length GenesisHash = 64" by code_simp+
  then have "text_bound (JObject (entry_members old_stored)) \<le> 6000"
    by (simp add: old_stored_def old_entry_def entry_members_def prepare_def empty_journal_def sample_entry_def zero_entry_def
        LastPosition_def JournalFormatVersion_def omit_string_def digest_def)
  then show ?thesis
    using length_render(1) [OF refl, of "JObject (entry_members old_stored)"]
    by (simp add: entry_line_def render_html_def maxLineBytes_def)
qed

text \<open>Append only refuses versions above the current one. An entry with a negative version is stored and reported
  durable, and from then on the journal cannot be read or opened again.\<close>

theorem journal_negative_version:
  "case Append Done True True empty_journal old_entry of
    (j', r) \<Rightarrow> r = Inr old_stored \<and> readEntries (disk_file (store j')) = Inl (JournalVersionUnsupported (- 1)) \<and>
      Open True True (store j') = (store j', Inl (JournalVersionUnsupported (- 1)))"
proof -
  have wf: "wf_json (Payload old_stored)" "storable old_stored" and v: "FormatVersion (coerce_entry old_stored) = - 1"
    by (simp_all add: old_stored_def old_entry_def sample_entry_def zero_entry_def prepare_def empty_journal_def
        storable_def int64_def LastPosition_def JournalFormatVersion_def coerce_entry_def)
  have "TrimSpace (ObservationID old_entry) \<noteq> []" unfolding old_entry_def sample_entry_def zero_entry_def by code_simp
  moreover have "prepare empty_journal old_entry\<lparr>je_Hash := je_Hash old_stored\<rparr> = old_stored" by (simp add: old_stored_def)
  ultimately have app: "Append Done True True empty_journal old_entry =
      (empty_journal\<lparr>store := (store empty_journal)\<lparr>disk_file := Some (entry_line old_stored)\<rparr>, entries := [old_stored]\<rparr>, Inr old_stored)"
    using old_stored_line
    by (simp add: Append_def old_entry_hash Let_def) (simp add: old_entry_def empty_journal_def JournalFormatVersion_def)
  have "raw_lines (entry_line old_stored) = [entry_line old_stored]"
    using entry_line_parts(1) [OF wf(1), of "[]"] by simp
  then have "readEntries (Some (entry_line old_stored)) = Inl (JournalVersionUnsupported (- 1))"
    using old_stored_line entry_line_parts(2,3) [OF wf(1)] decode_entry_line [OF wf(2)] v
    by (simp add: readEntries_def Let_def check_entry_def JournalFormatVersion_def) (simp add: entry_line_def)
  with app show ?thesis by (simp add: Open_def empty_journal_def)
qed

end
