(* ===== verification/Profile_Props.thy ===== *)
theory Profile_Props
  imports Profile_Eval
begin

text \<open>
  What obligation profiles guarantee: a parsed schema is well formed, \<open>Evaluate\<close> passes exactly the bundles that
  meet an abstract statement of the schema's obligations, and the profile language means what its documentation
  says. The last section shows where the weight checks let through what they should refuse.
\<close>

section \<open>Trimming\<close>

lemma trim_prefixes_suffix: "\<exists>p. s = p @ trim_prefixes ws s"
proof (induction ws s rule: trim_prefixes.induct)
  case (1 ws s)
  show ?case
  proof (cases "find (\<lambda>w. w \<noteq> [] \<and> HasPrefix s w) ws")
    case None
    then show ?thesis by (subst trim_prefixes.simps) simp
  next
    case (Some w)
    with 1 obtain p where "drop (length w) s = p @ trim_prefixes ws (drop (length w) s)" by blast
    then have "s = (take (length w) s @ p) @ trim_prefixes ws (drop (length w) s)" by (metis append.assoc append_take_drop_id)
    moreover have "trim_prefixes ws s = trim_prefixes ws (drop (length w) s)" using Some by (subst trim_prefixes.simps) simp
    ultimately show ?thesis by metis
  qed
qed

lemma TrimSpace_idem [simp]: "TrimSpace (TrimSpace s) = TrimSpace s"
proof -
  define l where "l = trim_prefixes space_encodings s"
  define t where "t = trim_prefixes (map rev space_encodings) (rev l)"
  obtain p where "rev l = p @ t" using trim_prefixes_suffix [of "rev l" "map rev space_encodings"] by (auto simp: t_def)
  then have l: "l = rev t @ rev p" by (metis rev_append rev_rev_ident)
  have "\<not> HasPrefix (rev t) w" if "w \<in> set space_encodings" "w \<noteq> []" for w
    using trim_prefixes_no_more [OF that, of s] l by (auto simp: l_def [symmetric] HasPrefix_iff)
  then have "trim_prefixes space_encodings (rev t) = rev t" by (rule trim_prefixes_id)
  moreover have "trim_prefixes (map rev space_encodings) t = t"
    unfolding t_def by (rule trim_prefixes_id) (rule trim_prefixes_no_more)
  ultimately show ?thesis by (simp add: TrimSpace_def l_def [symmetric] t_def [symmetric])
qed

lemma lower_char_fixed: "\<not> (97 \<le> ord d \<and> ord d \<le> 122) \<Longrightarrow> \<not> (65 \<le> ord d \<and> ord d \<le> 90) \<Longrightarrow> lower_char c = d \<longleftrightarrow> c = d"
  by (auto simp: lower_char_def ord_byte)

definition caseless :: "string \<Rightarrow> bool" where
  "caseless w = list_all (\<lambda>d. \<not> (97 \<le> ord d \<and> ord d \<le> 122) \<and> \<not> (65 \<le> ord d \<and> ord d \<le> 90)) w"

lemma HasPrefix_lower: "caseless w \<Longrightarrow> HasPrefix (map lower_char s) w \<longleftrightarrow> HasPrefix s w"
  by (induction s w rule: HasPrefix.induct) (auto simp: caseless_def lower_char_fixed)

lemma trim_prefixes_lower:
  assumes "list_all caseless ws"
  shows "trim_prefixes ws (map lower_char s) = map lower_char (trim_prefixes ws s)"
  using assms
proof (induction ws s rule: trim_prefixes.induct)
  case (1 ws s)
  have same: "find (\<lambda>w. w \<noteq> [] \<and> HasPrefix (map lower_char s) w) ws = find (\<lambda>w. w \<noteq> [] \<and> HasPrefix s w) ws"
    using 1(2) by (intro find_cong) (auto simp: list_all_iff HasPrefix_lower)
  show ?case
  proof (cases "find (\<lambda>w. w \<noteq> [] \<and> HasPrefix s w) ws")
    case None
    with same show ?thesis by (subst (1 2) trim_prefixes.simps) simp
  next
    case (Some w)
    with 1 same show ?thesis by (subst (1 2) trim_prefixes.simps) (simp add: drop_map)
  qed
qed

lemma caseless_spaces: "list_all caseless space_encodings" "list_all caseless (map rev space_encodings)"
  by (simp_all add: space_encodings_def caseless_def ord_byte)

lemma TrimSpace_ToLower: "TrimSpace (ToLower s) = ToLower (TrimSpace s)"
  by (simp add: TrimSpace_def ToLower_def trim_prefixes_lower caseless_spaces rev_map)

section \<open>Checks in sequence\<close>

lemma or_else_None [simp]: "or_else a b = None \<longleftrightarrow> a = None \<and> b = None"
  by (auto simp: or_else_def split: option.splits)

lemma first_error_None: "first_error f xs = None \<longleftrightarrow> (\<forall>x\<in>set xs. f x = None)"
  by (induction xs) (auto split: option.splits)

section \<open>Well-formed schemas\<close>

definition rule_wf :: "event_rule \<Rightarrow> bool" where
  "rule_wf r = (er_Type r \<noteq> [] \<and> er_Severity r \<in> {''critical'', ''warning''} \<and> list_all (\<lambda>f. f \<noteq> []) (er_Fields r) \<and>
     (\<forall>w\<in>set (er_RequiredWhen r). rw_WhenType w \<noteq> [] \<and> rw_WhenType w \<noteq> er_Type r))"

definition schema_wf :: "profile_schema \<Rightarrow> bool" where
  \<comment> \<open>what the rest of the program may rely on\<close>
  "schema_wf s =
     (ps_ID s \<noteq> [] \<and> 1 \<le> ps_Version s \<and> ps_WorkflowClass s \<noteq> [] \<and>
      distinct (map fst (ps_Weights s)) \<and> set (map fst (ps_Weights s)) = set expectedWeightKeys \<and>
      list_all rule_wf (ps_Required s @ ps_Optional s) \<and>
      distinct (map er_Type (ps_Required s)) \<and> distinct (map er_Type (ps_Optional s)) \<and>
      list_all (\<lambda>r. er_RequiredWhen r = []) (ps_Required s) \<and>
      (\<forall>r\<in>set (ps_Optional s). \<forall>w\<in>set (er_RequiredWhen r).
         rw_WhenType w \<in> er_Type ` set (ps_Required s @ ps_Optional s) \<and>
         (\<forall>r'\<in>set (ps_Optional s). er_Type r' = rw_WhenType w \<longrightarrow> er_Type r \<notin> rw_WhenType ` set (er_RequiredWhen r'))) \<and>
      (\<forall>r\<in>set (ps_Relations s). \<forall>p\<in>set (rr_Predicates r).
         rp_Side p \<in> {''from'', ''to''} \<and> rp_Field p \<noteq> [] \<and> rp_Equals p \<noteq> []))"

definition trimmed_rule :: "event_rule \<Rightarrow> bool" where
  "trimmed_rule r = (TrimSpace (er_Type r) = er_Type r \<and> TrimSpace (er_Severity r) = er_Severity r \<and>
     list_all (\<lambda>f. f \<noteq> []) (er_Fields r) \<and> (\<forall>w\<in>set (er_RequiredWhen r). TrimSpace (rw_WhenType w) = rw_WhenType w))"

lemma trimmed_normalise: "trimmed_rule (normaliseEventRule r)"
  by (auto simp: trimmed_rule_def normaliseEventRule_def trimAndFilter_def list_all_iff)

lemma event_rules_loop_None:
  assumes "event_rules_loop pid sect rules seen = None" "list_all trimmed_rule rules"
  shows "list_all rule_wf rules \<and> distinct (map er_Type rules) \<and> set (map er_Type rules) \<inter> set seen = {} \<and>
    (sect = ''required'' \<longrightarrow> list_all (\<lambda>r. er_RequiredWhen r = []) rules)"
  using assms
proof (induction pid sect rules seen rule: event_rules_loop.induct)
  case (2 pid sect rule rules seen)
  have t: "trimmed_rule rule" "list_all trimmed_rule rules" using 2(3) by auto
  then have eq: "TrimSpace (er_Type rule) = er_Type rule" "TrimSpace (er_Severity rule) = er_Severity rule"
    by (simp_all add: trimmed_rule_def)
  have c: "er_Type rule \<noteq> []" "er_Type rule \<notin> set seen" "er_Severity rule \<in> {''critical'', ''warning''}"
    "\<not> (sect = ''required'' \<and> er_RequiredWhen rule \<noteq> [])"
    "first_error (check_required_when pid (er_Type rule)) (er_RequiredWhen rule) = None"
    "event_rules_loop pid sect rules (er_Type rule # seen) = None"
    using 2(2) by (simp_all add: Let_def eq split: if_splits option.splits)
  have "rule_wf rule"
    using c t(1) by (auto simp: rule_wf_def trimmed_rule_def first_error_None check_required_when_def Let_def split: if_splits)
  moreover have "list_all rule_wf rules \<and> distinct (map er_Type rules) \<and> set (map er_Type rules) \<inter> set (er_Type rule # seen) = {} \<and>
    (sect = ''required'' \<longrightarrow> list_all (\<lambda>r. er_RequiredWhen r = []) rules)"
    using 2(1) [unfolded eq, OF refl _ _ _ _ _ _ t(2)] c by auto
  ultimately show ?case using c by auto
qed auto

lemma weights_loop_Inr: "weights_loop pid ws acc = Inr s \<Longrightarrow> set (map fst ws) \<subseteq> set expectedWeightKeys"
  by (induction pid ws acc rule: weights_loop.induct) (auto split: if_splits)

lemma distinct_normalise_weights: "distinct (map fst acc) \<Longrightarrow> distinct (map fst (normalise_weights acc ws))"
  by (induction acc ws rule: normalise_weights.induct) (simp_all add: distinct_map_store)

lemma validateWeights_keys:
  assumes "validateWeights pid ws = None" "distinct (map fst ws)"
  shows "set (map fst ws) = set expectedWeightKeys"
proof -
  have "length ws = length expectedWeightKeys" "set (map fst ws) \<subseteq> set expectedWeightKeys"
    using assms(1) weights_loop_Inr by (auto simp: validateWeights_def split: if_splits sum.splits)
  moreover have "card (set (map fst ws)) = length ws" using assms(2) by (metis distinct_card length_map)
  moreover have "card (set expectedWeightKeys) = length expectedWeightKeys" by (simp add: expectedWeightKeys_def)
  ultimately show ?thesis by (intro card_subset_eq) auto
qed

lemma references_None:
  assumes "validateRequiredWhenReferences pid required opt = None"
    and "\<forall>r\<in>set (required @ opt). trimmed_rule r" "\<forall>r\<in>set opt. rule_wf r"
    and "r \<in> set opt" "w \<in> set (er_RequiredWhen r)"
  shows "rw_WhenType w \<in> er_Type ` set (required @ opt)"
    "r' \<in> set opt \<Longrightarrow> er_Type r' = rw_WhenType w \<Longrightarrow> er_Type r \<notin> rw_WhenType ` set (er_RequiredWhen r')"
proof -
  define edges where "edges = concat (map rule_edges (required @ opt))"
  have edge: "(rw_WhenType v, er_Type q) \<in> set edges \<and> rw_WhenType v \<noteq> er_Type q"
    if "q \<in> set opt" "v \<in> set (er_RequiredWhen q)" for q v
  proof -
    have "TrimSpace (rw_WhenType v) = rw_WhenType v" "TrimSpace (er_Type q) = er_Type q" "rw_WhenType v \<noteq> []"
      "rw_WhenType v \<noteq> er_Type q"
      using assms(2,3) that by (auto simp: trimmed_rule_def rule_wf_def)
    with that show ?thesis by (auto simp: edges_def rule_edges_def intro!: bexI [of _ q] image_eqI [of _ _ v])
  qed
  have none: "\<forall>x\<in>set edges. (case x of (when, from) \<Rightarrow>
        if when \<in> set (filter (\<lambda>t. t \<noteq> []) (map (\<lambda>r. TrimSpace (er_Type r)) (required @ opt))) then None
        else Some (UnknownWhenType pid from when)) = None"
    "\<forall>x\<in>set edges. (case x of (from, to) \<Rightarrow>
        if from \<noteq> to \<and> (to, from) \<in> set edges then Some (CycleBetween pid from to) else None) = None"
    using assms(1) unfolding validateRequiredWhenReferences_def edges_def [symmetric] Let_def or_else_None first_error_None
    by blast+
  have ok: "\<forall>(a, b)\<in>set edges. a \<in> (\<lambda>r. TrimSpace (er_Type r)) ` set (required @ opt)"
    "\<forall>(a, b)\<in>set edges. a = b \<or> (b, a) \<notin> set edges"
    using none by (fastforce split: if_splits)+
  have "TrimSpace (er_Type q) = er_Type q" if "q \<in> set (required @ opt)" for q
    using assms(2) that by (auto simp: trimmed_rule_def)
  then have "(\<lambda>r. TrimSpace (er_Type r)) ` set (required @ opt) = er_Type ` set (required @ opt)" by (intro image_cong) auto
  with ok(1) edge [OF assms(4,5)] show "rw_WhenType w \<in> er_Type ` set (required @ opt)" by auto
  assume "r' \<in> set opt" "er_Type r' = rw_WhenType w"
  with ok(2) edge [OF assms(4,5)] edge [of r'] show "er_Type r \<notin> rw_WhenType ` set (er_RequiredWhen r')" by fastforce
qed

lemma in_set_enumerate:
  assumes "x \<in> set xs"
  obtains i where "(i, x) \<in> set (List.enumerate 0 xs)"
proof -
  from assms obtain k where "k < length xs" "xs ! k = x" by (auto simp: in_set_conv_nth)
  then show ?thesis by (intro that [of k]) (simp add: in_set_enumerate_eq)
qed

lemma relation_rules_None:
  assumes "validateRelationRules pid rules = None" "r \<in> set rules" "p \<in> set (rr_Predicates r)"
  shows "TrimSpace (rp_Side p) \<in> {''from'', ''to''} \<and> TrimSpace (rp_Field p) \<noteq> [] \<and> TrimSpace (rp_Equals p) \<noteq> []"
proof -
  obtain i where i: "(i, r) \<in> set (List.enumerate 0 rules)"
    using assms(2) by (rule in_set_enumerate)
  obtain j where j: "(j, p) \<in> set (List.enumerate 0 (rr_Predicates r))"
    using assms(3) by (rule in_set_enumerate)
  from assms(1) i have "first_error (check_predicate pid i) (List.enumerate 0 (rr_Predicates r)) = None"
    by (fastforce simp: validateRelationRules_def first_error_None)
  with j have "check_predicate pid i (j, p) = None" by (simp add: first_error_None)
  then show ?thesis by (auto simp: check_predicate_def split: if_splits)
qed

lemma validated_wf:
  assumes "validateSchema (normaliseSchema s) = None"
  shows "schema_wf (normaliseSchema s)"
proof -
  define n where "n = normaliseSchema s"
  have t: "list_all trimmed_rule (ps_Required n)" "list_all trimmed_rule (ps_Optional n)"
    by (auto simp: n_def normaliseSchema_def list_all_iff trimmed_normalise)
  have v: "ps_ID n \<noteq> []" "1 \<le> ps_Version n" "ps_WorkflowClass n \<noteq> []" "validateWeights (ps_ID n) (ps_Weights n) = None"
    "validateEventRules (ps_ID n) ''required'' (ps_Required n) = None"
    "validateEventRules (ps_ID n) ''optional'' (ps_Optional n) = None"
    "validateRequiredWhenReferences (ps_ID n) (ps_Required n) (ps_Optional n) = None"
    "validateRelationRules (ps_ID n) (ps_Relations n) = None"
    using assms by (auto simp: n_def [symmetric] validateSchema_def split: if_splits)
  have d: "distinct (map fst (ps_Weights n))"
    unfolding n_def normaliseSchema_def by (simp add: distinct_normalise_weights)
  note rules = event_rules_loop_None [OF v(5) [unfolded validateEventRules_def] t(1)]
    event_rules_loop_None [OF v(6) [unfolded validateEventRules_def] t(2)]
  have tr: "\<forall>r\<in>set (ps_Required n @ ps_Optional n). trimmed_rule r" "\<forall>r\<in>set (ps_Optional n). rule_wf r"
    using t rules by (auto simp: list_all_iff)
  have p: "rp_Side p \<in> {''from'', ''to''} \<and> rp_Field p \<noteq> [] \<and> rp_Equals p \<noteq> []"
    if "r \<in> set (ps_Relations n)" "p \<in> set (rr_Predicates r)" for r p
  proof -
    have "\<exists>q. p = normalisePredicate q" using that by (auto simp: n_def normaliseSchema_def normaliseRelationRule_def)
    then have "TrimSpace (rp_Side p) = rp_Side p"
      by (auto simp: normalisePredicate_def TrimSpace_ToLower)
    with relation_rules_None [OF v(8) that] show ?thesis by auto
  qed
  show ?thesis
    unfolding schema_wf_def n_def [symmetric]
    using v(1-3) d validateWeights_keys [OF v(4) d] rules p references_None [OF v(7) tr] by auto
qed

section \<open>The obligations of a schema\<close>

text \<open>An abstract reading of the rules, without results, identifiers or messages.\<close>

definition rule_met :: "index \<Rightarrow> event_rule \<Rightarrow> bool" where
  "rule_met ix rule =
     (EqualFold (er_Severity rule) ''warning'' \<or>
      (ix (er_Type rule) \<noteq> [] \<and>
       list_all (hasField (dataMap (Data (Event (hd (ix (er_Type rule))))))) (er_Fields rule)))"

definition relation_met :: "index \<Rightarrow> relation_rule \<Rightarrow> bool" where
  "relation_met ix rule =
     (ix (rr_From rule) = [] \<or> ix (rr_To rule) = [] \<or>
      (\<forall>f\<in>set (ix (rr_From rule)). fieldString f (rr_Field rule) \<noteq> [] \<and>
        (\<exists>t\<in>set (ix (rr_To rule)). fieldString t (rr_Field rule) = fieldString f (rr_Field rule) \<and>
          list_all (predicate_holds f t) (rr_Predicates rule))))"

definition condition_met :: "index \<Rightarrow> string \<Rightarrow> required_when_rule \<Rightarrow> bool" where
  "condition_met ix target c =
     (ix (rw_WhenType c) = [] \<or>
      (ix target \<noteq> [] \<and>
       (rw_AtOrAfter c \<longrightarrow>
         (case parseEventTimestamp (hd (ix (rw_WhenType c))) of
            At t0 \<Rightarrow> valid_times (ix target) = [] \<or> (\<exists>t\<in>set (valid_times (ix target)). \<not> Before t t0)
          | _ \<Rightarrow> True))))"

definition schema_met :: "profile_schema \<Rightarrow> bundle_record list \<Rightarrow> bool" where
  "schema_met s records =
     (let ix = indexRecordsByType records
      in list_all (rule_met ix) (ps_Required s @ ps_Optional s) \<and> list_all (relation_met ix) (ps_Relations s) \<and>
         (\<forall>r\<in>set (ps_Required s @ ps_Optional s). list_all (condition_met ix (er_Type r)) (er_RequiredWhen r)))"

text \<open>
  Every rule evaluation has the same contract: it leaves the list of failures empty exactly when it was empty
  and the rule is met. A sequence of evaluations then does so for all rules.
\<close>

locale obligation =
  fixes step :: "'x \<Rightarrow> evaluation_result \<Rightarrow> evaluation_result"
    and met :: "'x \<Rightarrow> bool"
  assumes step_failures: "ev_CriticalFailures (step x res) = [] \<longleftrightarrow> ev_CriticalFailures res = [] \<and> met x"
begin

lemma fold_failures: "ev_CriticalFailures (fold step xs res) = [] \<longleftrightarrow> ev_CriticalFailures res = [] \<and> list_all met xs"
  by (induction xs arbitrary: res) (auto simp: step_failures)

end

lemma add_failure_fields [simp]:
  "ev_CriticalFailures (add_failure f res) = ev_CriticalFailures res @ [f]"
  "ev_CriticalFailures (add_warning w res) = ev_CriticalFailures res"
  by (simp_all add: add_failure_def add_warning_def)

lemma missingFields_none [simp]: "missingFields data [] = []"
  by (simp add: missingFields_def)

lemma missingFields_Nil: "missingFields data flds = [] \<longleftrightarrow> list_all (hasField data) flds"
  by (auto simp: missingFields_def filter_empty_conv list_all_iff)

lemma check_fields_failures:
  "ev_CriticalFailures (check_fields records rule res) = [] \<longleftrightarrow>
     ev_CriticalFailures res = [] \<and>
     (EqualFold (er_Severity rule) ''warning'' \<or> list_all (hasField (dataMap (Data (Event (hd records))))) (er_Fields rule))"
  by (cases "missingFields (dataMap (Data (Event (hd records)))) (er_Fields rule)")
    (auto simp: check_fields_def appendRuleFinding_def missingFields_Nil [symmetric] split: if_splits)

interpretation required: obligation "evaluateRequiredRule ix" "rule_met ix" for ix
  by unfold_locales
    (auto simp: evaluateRequiredRule_def rule_met_def Let_def appendRuleFinding_def check_fields_failures)

interpretation optional: obligation "evaluateOptionalRule ix" "rule_met ix" for ix
  by unfold_locales
    (auto simp: evaluateOptionalRule_def rule_met_def Let_def appendRuleFinding_def check_fields_failures)

lemma relationPredicateFailure_None:
  "relationPredicateFailure rule f ts g = None \<longleftrightarrow>
     (g = None \<and> ts = []) \<or> (\<exists>t\<in>set ts. list_all (predicate_holds f t) (rr_Predicates rule))"
proof (induction rule f ts g rule: relationPredicateFailure.induct)
  case (2 rule f t ts g)
  have "firstRelationPredicateFailure rule f t = None \<longleftrightarrow> list_all (predicate_holds f t) (rr_Predicates rule)"
    by (auto simp: firstRelationPredicateFailure_def Let_def find_None_iff find_Some_iff list_all_iff split: option.splits)
  with 2 show ?case by (auto split: option.splits)
qed auto

lemma check_relation_None:
  "check_relation rule (indexByField ts (rr_Field rule)) f = None \<longleftrightarrow>
     fieldString f (rr_Field rule) \<noteq> [] \<and>
     (\<exists>t\<in>set ts. fieldString t (rr_Field rule) = fieldString f (rr_Field rule) \<and> list_all (predicate_holds f t) (rr_Predicates rule))"
proof (cases "rr_Predicates rule = []")
  case True
  then show ?thesis by (auto simp: check_relation_def Let_def indexByField_def filter_empty_conv)
next
  case False
  then show ?thesis
    by (auto simp: check_relation_def Let_def indexByField_def filter_empty_conv relationPredicateFailure_None)
qed

lemma fold_add_failure: "ev_CriticalFailures (fold add_failure fs res) = ev_CriticalFailures res @ fs"
  by (induction fs arbitrary: res) auto

lemma map_filter_Nil: "List.map_filter f xs = [] \<longleftrightarrow> (\<forall>x\<in>set xs. f x = None)"
  by (induction xs) (auto simp: map_filter_simps split: option.splits)

interpretation relation: obligation "evaluateRelationRule ix" "relation_met ix" for ix
  by unfold_locales
    (auto simp: evaluateRelationRule_def relation_met_def Let_def fold_add_failure map_filter_Nil check_relation_None)

interpretation condition: obligation "evaluateCondition ix target" "condition_met ix target" for ix target
  by unfold_locales
    (auto simp: evaluateCondition_def condition_met_def Let_def list_ex_iff split: timestamp.splits)

interpretation conditions: obligation
  "\<lambda>rule. fold (evaluateCondition ix (er_Type rule)) (er_RequiredWhen rule)"
  "\<lambda>rule. list_all (condition_met ix (er_Type rule)) (er_RequiredWhen rule)" for ix
  by unfold_locales (rule condition.fold_failures)

lemma Evaluate_pass: "ev_Pass (Evaluate s records) \<longleftrightarrow> schema_met s records"
  unfolding Evaluate_def Let_def finaliseEvaluationResult_def evaluateRequiredWhenRules_def schema_met_def
  by (simp add: conditions.fold_failures relation.fold_failures optional.fold_failures required.fold_failures
      empty_result_def list_all_iff) blast

section \<open>Properties\<close>

text \<open>C18: Evaluate refines the abstract reading of a schema. It passes a bundle exactly when every event rule that is not
  a warning has a record with all its fields, every record on the from side of a relation has a partner with
  the same value that satisfies all predicates, and every triggered condition is met in time; the reported
  failures are empty exactly then, and warnings and notes are sorted without repetition.\<close>

theorem Evaluate_refines:
  "ev_Pass (Evaluate s records) = schema_met s records \<and>
   (ev_CriticalFailures (Evaluate s records) = [] \<longleftrightarrow> schema_met s records) \<and>
   sorted (ev_RequiredWarnings (Evaluate s records)) \<and> distinct (ev_RequiredWarnings (Evaluate s records)) \<and>
   set (ps_BlindSpots s) \<subseteq> set (ev_InformationalNotes (Evaluate s records))"
proof -
  have sort: "sort_by lt xs = [] \<longleftrightarrow> xs = []" for lt :: "critical_failure \<Rightarrow> critical_failure \<Rightarrow> bool" and xs
    by (metis length_0_conv length_sort_by)
  have "ev_CriticalFailures (Evaluate s records) = [] \<longleftrightarrow> ev_Pass (Evaluate s records)"
    by (simp add: Evaluate_def Let_def finaliseEvaluationResult_def sort)
  then show ?thesis
    by (simp add: Evaluate_pass) (simp add: Evaluate_def Let_def finaliseEvaluationResult_def)
qed

definition small_schema :: profile_schema where
  "small_schema =
     \<lparr>ps_ID = '' demo '', ps_Version = 1, ps_WorkflowClass = ''demo'', ps_BlindSpots = [], ps_Weights =
        [(''EC'', f_one), (''FC'', f_zero), (''RC'', f_zero), (''TC'', f_zero), (''SC'', f_zero), (''XC'', f_zero),
         ('' AC'', f_zero), (''GC'', f_zero)],
      ps_SupportsCAS = True, ps_SCMode = [],
      ps_Required = [\<lparr>er_Type = ''ai.request.received '', er_Fields = [''request_id''], er_Message = [], er_Severity = ''critical'',
        er_RequiredWhen = []\<rparr>],
      ps_Optional = [\<lparr>er_Type = ''ai.response.sent'', er_Fields = [], er_Message = [], er_Severity = ''warning'',
        er_RequiredWhen = [\<lparr>rw_WhenType = ''ai.request.received'', rw_AtOrAfter = True, rw_Message = []\<rparr>]\<rparr>],
      ps_Relations = [\<lparr>rr_Name = ''r'', rr_From = ''ai.response.sent'', rr_To = ''ai.request.received'', rr_Field = ''request_id'',
        rr_Message = [], rr_Predicates = [\<lparr>rp_Side = ''From'', rp_Field = ''status'', rp_Equals = ''ok''\<rparr>]\<rparr>]\<rparr>"

text \<open>C19: a schema that ParseSchema returns is well formed: its identifier, version and workflow class are present, its
  weights have exactly the eight keys, every rule has a type and a known severity, types are not repeated within
  a section, conditions only occur on optional rules, refer to declared types and form no cycle of length two,
  and every predicate names a side, a field and a value.\<close>

theorem ParseSchema_wf:
  assumes "ParseSchema unmarshal data = Inr s"
  shows "schema_wf s"
  using assms validated_wf by (auto simp: ParseSchema_def Let_def split: option.splits)

lemma small_schema_parses: "ParseSchema (\<lambda>_. Some small_schema) [] = Inr (normaliseSchema small_schema)"
proof -
  have "validateSchema (normaliseSchema small_schema) = None" by code_simp
  then show ?thesis by (simp add: ParseSchema_def Let_def)
qed

theorem ParseSchema_wf_witness:
  "ParseSchema (\<lambda>_. Some small_schema) [] = Inr (normaliseSchema small_schema) \<and> schema_wf (normaliseSchema small_schema)"
  using ParseSchema_wf [OF small_schema_parses] small_schema_parses by blast

subsection \<open>The profile language\<close>

definition dsl_rule :: "string \<Rightarrow> string \<Rightarrow> event_rule" where
  "dsl_rule severity t =
     \<lparr>er_Type = t, er_Fields = [], er_Message = t @ '' missing'', er_Severity = severity, er_RequiredWhen = []\<rparr>"

lemma dsl_events_loop_Inr:
  "dsl_events_loop pid types fld severity seen = Inr rules \<Longrightarrow> rules = map (dsl_rule severity \<circ> TrimSpace) types"
  by (induction pid types fld severity seen arbitrary: rules rule: dsl_events_loop.induct)
    (auto simp: Let_def dsl_rule_def split: if_splits)

lemma severities: "EqualFold ''warning'' ''warning''" "\<not> EqualFold ''critical'' ''warning''"
  by code_simp+

lemma evaluate_dsl_rule:
  "evaluateRequiredRule ix (dsl_rule ''critical'' t) res =
     (if ix t = [] then add_failure \<lparr>cf_ID = requiredEventID t, cf_Kind = ''missing_event'', cf_Detail = t @ '' missing''\<rparr> res else res)"
  "evaluateOptionalRule ix (dsl_rule ''warning'' t) res = (if ix t = [] then add_warning (t @ '' missing'') res else res)"
  by (simp_all add: evaluateRequiredRule_def evaluateOptionalRule_def dsl_rule_def appendRuleFinding_def severities
      check_fields_def messageOrDefault_def)

lemma fold_dsl_warnings:
  "ev_RequiredWarnings (fold (evaluateRequiredRule ix) (map (dsl_rule ''critical'' \<circ> TrimSpace) ts) res) = ev_RequiredWarnings res"
  "ev_RequiredWarnings (fold (evaluateOptionalRule ix) (map (dsl_rule ''warning'' \<circ> TrimSpace) ts) res) =
     ev_RequiredWarnings res @ map (\<lambda>t. t @ '' missing'') (filter (\<lambda>t. ix t = []) (map TrimSpace ts))"
  by (induction ts arbitrary: res) (simp_all add: evaluate_dsl_rule add_failure_def add_warning_def)

lemma compile_dsl_Inr:
  assumes "compile_dsl templates d = Inr s"
  shows "ps_Required s = map (dsl_rule ''critical'' \<circ> TrimSpace) (dsl_RequiredEvents d)"
    "ps_Optional s = map (dsl_rule ''warning'' \<circ> TrimSpace) (dsl_WarningEvents d)"
    "ps_Relations s = []" "\<not> HasSchema templates (ps_ID s)"
  using assms dsl_events_loop_Inr by (auto simp: compile_dsl_def compileDSLEvents_def Let_def split: if_splits)

lemma no_conditions:
  "\<forall>r\<in>set (ps_Required s @ ps_Optional s). er_RequiredWhen r = [] \<Longrightarrow> evaluateRequiredWhenRules ix s res = res"
proof -
  have "\<forall>r\<in>set rules. er_RequiredWhen r = [] \<Longrightarrow>
      fold (\<lambda>rule. fold (evaluateCondition ix (er_Type rule)) (er_RequiredWhen rule)) rules res = res" for rules
    by (induction rules) auto
  then show "\<forall>r\<in>set (ps_Required s @ ps_Optional s). er_RequiredWhen r = [] \<Longrightarrow> evaluateRequiredWhenRules ix s res = res"
    unfolding evaluateRequiredWhenRules_def .
qed

lemma rule_met_dsl: "rule_met ix (dsl_rule ''critical'' t) \<longleftrightarrow> ix t \<noteq> []" "rule_met ix (dsl_rule ''warning'' t)"
  by (simp_all add: rule_met_def dsl_rule_def severities)

lemma conditions_dsl [simp]: "er_RequiredWhen (dsl_rule sev t) = []"
  by (simp add: dsl_rule_def)

lemma index_Nil: "indexRecordsByType records t = [] \<longleftrightarrow> (\<forall>r\<in>set records. Type (Event r) \<noteq> t)"
  by (auto simp: indexRecordsByType_def filter_empty_conv)

text \<open>C22: the events of a profile written in the profile language. A profile that compiles never has the identifier of a
  built-in one; a bundle passes it exactly when every required event type occurs, and the warnings name
  exactly the absent warning event types. (Its weights, version and description play no part here.)\<close>

theorem dsl_meaning:
  assumes "compile_dsl templates d = Inr s"
  shows "\<not> HasSchema templates (ps_ID s) \<and>
    (ev_Pass (Evaluate s records) \<longleftrightarrow>
      (\<forall>t\<in>set (dsl_RequiredEvents d). \<exists>r\<in>set records. Type (Event r) = TrimSpace t)) \<and>
    set (ev_RequiredWarnings (Evaluate s records)) =
      (\<lambda>t. TrimSpace t @ '' missing'') ` {t \<in> set (dsl_WarningEvents d). \<forall>r\<in>set records. Type (Event r) \<noteq> TrimSpace t}"
proof -
  note c = compile_dsl_Inr [OF assms]
  have "ev_Pass (Evaluate s records) \<longleftrightarrow> (\<forall>t\<in>set (dsl_RequiredEvents d). \<exists>r\<in>set records. Type (Event r) = TrimSpace t)"
    by (simp add: Evaluate_pass schema_met_def Let_def c rule_met_dsl index_Nil list.pred_map o_def ball_Un)
      (auto simp: list_all_iff)
  moreover have "evaluateRequiredWhenRules ix s res = res" for ix res
    by (rule no_conditions) (auto simp: c)
  then have "set (ev_RequiredWarnings (Evaluate s records)) =
      (\<lambda>t. TrimSpace t @ '' missing'') ` {t \<in> set (dsl_WarningEvents d). \<forall>r\<in>set records. Type (Event r) \<noteq> TrimSpace t}"
    by (auto simp: Evaluate_def Let_def finaliseEvaluationResult_def c fold_dsl_warnings empty_result_def index_Nil)
  ultimately show ?thesis using c(4) by blast
qed

definition sample_dsl :: dsl_profile where
  "sample_dsl = \<lparr>dsl_ID = ''custom.demo'', dsl_Version = 0, dsl_Description = [], dsl_RequiredEvents = ['' ai.request.received''],
     dsl_WarningEvents = [''ai.response.sent''], dsl_CASWeights = []\<rparr>"

lemma sample_dsl_compiles: "\<exists>s. compile_dsl (Inr []) sample_dsl = Inr s"
proof -
  have "is_ok (compile_dsl (Inr []) sample_dsl)" by code_simp
  then show ?thesis by (simp add: is_ok_iff)
qed

theorem dsl_meaning_witness:
  "\<exists>s. compile_dsl (Inr []) sample_dsl = Inr s \<and> \<not> ev_Pass (Evaluate s [])"
proof -
  obtain s where s: "compile_dsl (Inr []) sample_dsl = Inr s" using sample_dsl_compiles by blast
  from dsl_meaning [OF s, of "[]"] have "\<not> ev_Pass (Evaluate s [])" by (simp add: sample_dsl_def)
  with s show ?thesis by blast
qed

text \<open>The weight checks have gaps. A NaN weight passes the sum check of a schema, because a comparison with NaN is
  false; and two weight keys of the profile language that differ only in surrounding blanks are both counted
  in the sum, although only one value is kept, so the compiled weights add up to one half.\<close>

theorem weight_checks_gaps:
  "validateWeights ''p'' ((''EC'', NaN) # map (\<lambda>k. (k, f_zero)) [''FC'', ''RC'', ''TC'', ''SC'', ''XC'', ''AC'', ''GC'']) = None \<and>
   (case compileDSLWeights ''p'' [(''EC'', Fin False (1 / 2)), ('' EC'', Fin False (1 / 2))] True of
      Inr ws \<Rightarrow> f_sum (map snd ws) = Fin False (1 / 2) \<and> \<not> sum_is_one (f_sum (map snd ws))
    | Inl _ \<Rightarrow> False)"
  by code_simp

text \<open>A compiled profile of the profile language need not be a valid schema: without weights the sum check of
  validateSchema fails, and an identifier that ends in a dot has an empty workflow class.\<close>

theorem dsl_not_validated:
  "(case compile_dsl (Inr []) sample_dsl of
      Inr s \<Rightarrow> validateSchema s = Some (WeightSum ''custom.demo'' f_zero) | Inl _ \<Rightarrow> False) \<and>
   (case compile_dsl (Inr []) (sample_dsl\<lparr>dsl_ID := ''custom.''\<rparr>) of
      Inr s \<Rightarrow> validateSchema s = Some (WorkflowClassRequired ''custom.'') | Inl _ \<Rightarrow> False)"
  by code_simp

end
