(* ===== verification/Cas_Props.thy ===== *)
theory Cas_Props
  imports Cas Profile_Props "HOL-Library.Multiset"
begin

text \<open>
  Bounds of the completeness assurance score and what it does not promise: every sub-score is a double between
  0 and 1, the score of a broken chain is 0, the score is bounded by the sum of the weights; the grade near
  a threshold depends on the order in which Go visits a map.
\<close>

section \<open>Sub-scores lie between 0 and 1\<close>

lemma f_nat_exact: "n \<le> 2 ^ 53 \<Longrightarrow> f_nat n = Fin False (of_nat n)"
  by (simp add: f_nat_def fl_of_nat)

lemma unit_boolScore [simp]: "unit (boolScore b)"
  by (simp add: boolScore_def)

lemma unit_f_nat_ratio: "a \<le> b \<Longrightarrow> 0 < b \<Longrightarrow> b \<le> 2 ^ 53 \<Longrightarrow> unit (f_div (f_nat a) (f_nat b))"
  using unit_ratio [of b a] by (simp add: f_nat_exact)

lemma unit_averageScores: "list_all unit xs \<Longrightarrow> length xs \<le> 2 ^ 52 \<Longrightarrow> unit (averageScores xs)"
  using f_average_unit [of xs] by (simp add: averageScores_def f_nat_exact)

lemma unit_eventCoverage: "length reqs \<le> 2 ^ 53 \<Longrightarrow> unit (eventCoverage ix reqs)"
  unfolding eventCoverage_def by (auto intro!: unit_f_nat_ratio)

lemma unit_record_completeness:
  "length flds \<le> 2 ^ 53 \<Longrightarrow> record_completeness flds r = Some x \<Longrightarrow> unit x"
  by (auto simp: record_completeness_def split: if_splits option.splits intro!: unit_f_nat_ratio)

lemma unit_fieldCompleteness:
  assumes "list_all (\<lambda>q. length (eq_fields q) \<le> 2 ^ 53) reqs"
    and "length (concat (map (\<lambda>q. map (record_completeness (eq_fields q)) (ix (eq_type q))) reqs)) \<le> 2 ^ 52"
  shows "unit (fieldCompleteness ix reqs)"
proof -
  define found where "found = concat (map (\<lambda>q. map (record_completeness (eq_fields q)) (ix (eq_type q))) reqs)"
  define xs where "xs = List.map_filter id found"
  have u: "list_all unit xs"
    using assms(1) unit_record_completeness
    by (fastforce simp: xs_def found_def list_all_iff List.map_filter_def)
  have len: "length xs \<le> length found" by (simp add: xs_def List.map_filter_def)
  show ?thesis
  proof (cases "found = []")
    case False
    obtain m where m: "f_sum xs = Fin False m" "0 \<le> m" "m \<le> of_nat (length xs)"
      using f_sum_units [OF u, of 0 0] len assms(2) by (auto simp: f_sum_def found_def)
    then have r: "0 \<le> m / of_nat (length found)" "m / of_nat (length found) \<le> 1"
      using False len by (auto simp: divide_simps intro: order_trans)
    from r(2) have "m / of_nat (length found) \<le> 2 ^ 53" by (rule order_trans) simp
    moreover have n: "f_nat (length found) = Fin False (of_nat (length found))"
      using assms(2) by (intro f_nat_exact) (simp add: found_def)
    ultimately have "f_div (f_sum xs) (f_nat (length found)) = Fin False (fl (m / of_nat (length found)))"
      unfolding m(1) n using m(2) False by (intro f_div_small) simp_all
    with fl_unit [OF r] False show ?thesis by (auto simp: fieldCompleteness_def found_def [symmetric] xs_def [symmetric] unit_def)
  qed (simp add: fieldCompleteness_def found_def [symmetric])
qed

lemma unit_temporal [simp]: "unit (temporalBeforeScore b m)"
  by (auto simp: temporalBeforeScore_def unit_lit split: timestamp.splits)

lemma unit_window [simp]: "unit (window_score p e)"
  by (simp add: window_score_def unit_lit)

lemma unit_anchor [simp]: "unit (xcScore a)" "unit (acScore a)"
  by (cases a; simp add: unit_lit)+

lemma unit_Min: "unit x \<Longrightarrow> unit (f_Min f_one x)" "0 \<le> m \<Longrightarrow> fl m = m \<Longrightarrow> unit (f_Min (Fin False m) f_one)"
  by (auto simp: f_Min_def unit_def)

lemma unit_Min_nat: "n \<le> 2 ^ 53 \<Longrightarrow> unit (f_Min f_one (f_nat n))"
  by (simp add: f_nat_exact f_Min_def unit_def fl_of_nat)

lemma unit_xcScore: "length records \<le> 2 ^ 53 \<Longrightarrow> unit (xcScoreWithCorroboration a records)"
proof -
  assume "length records \<le> 2 ^ 53"
  then have "countValidCorroborationEvents records \<le> 2 ^ 53"
    unfolding countValidCorroborationEvents_def by (rule order_trans [OF length_filter_le])
  then show ?thesis by (simp add: xcScoreWithCorroboration_def Let_def unit_Min_nat)
qed

definition small :: "nat \<Rightarrow> float64 \<Rightarrow> bool" where
  \<comment> \<open>a nonnegative double of at most n\<close>
  "small n x = (\<exists>m. x = Fin False m \<and> 0 \<le> m \<and> m \<le> of_nat n \<and> fl m = m)"

lemma small_add: "small n x \<Longrightarrow> n < 100 \<Longrightarrow> unit y \<Longrightarrow> small (Suc n) (f_add x y)"
proof -
  assume "small n x" "n < 100" "unit y"
  then obtain a b where ab: "x = Fin False a" "y = Fin False b" "0 \<le> a" "0 \<le> b" "a + b \<le> of_nat (Suc n)" "n < 100"
    by (auto simp: small_def unit_def)
  have "(of_nat (Suc n) :: rat) \<le> of_nat 100" using ab(6) by (intro of_nat_mono) simp
  also have "(of_nat 100 :: rat) \<le> 2 ^ 53" by simp
  finally have "a + b \<le> 2 ^ 53" using ab(5) by simp
  moreover have "fl (a + b) \<le> fl (of_nat (Suc n))" by (rule fl_mono [OF ab(5)])
  moreover have "fl (of_nat (Suc n)) = of_nat (Suc n)" by (rule fl_of_nat) (use ab(6) in simp)
  ultimately show ?thesis using ab by (auto simp: small_def f_add_small fl_nonneg simp del: f_add.simps)
qed

lemma small_mono: "small n x \<Longrightarrow> n \<le> m \<Longrightarrow> small m x"
  by (auto simp: small_def intro: order_trans)

lemma small_if: "small n x \<Longrightarrow> n < 100 \<Longrightarrow> 0 \<le> v \<Longrightarrow> v \<le> 1 \<Longrightarrow> small (Suc n) (if b then f_add x (f_lit v) else x)"
  by (auto intro: small_mono small_add unit_lit)

lemma unit_computeSC [simp]: "unit (computeSC schemas records pid)"
proof -
  have z: "small 0 f_zero" by (simp add: small_def)
  have "small (Suc (Suc (Suc (Suc 0)))) (sc_base records)"
    unfolding sc_base_def Let_def by (intro small_if z) simp_all
  then have "small (Suc (Suc (Suc (Suc (Suc 0))))) (sc_total mode records)" for mode
    unfolding sc_total_def by (intro small_if) simp_all
  then have "unit (f_Min (sc_total mode records) f_one)" for mode
    by (metis small_def unit_Min(2))
  then show ?thesis by (simp add: computeSC_def split: option.splits)
qed

lemma length_index_le: "length (indexRecordsByType records t) \<le> length records"
  by (simp add: indexRecordsByType_def)

lemma found_length:
  "length (concat (map (\<lambda>q. map (f q) (indexRecordsByType records (eq_type q))) reqs)) \<le> length reqs * length records"
  by (induction reqs) (auto simp: length_index_le add_mono)

definition builtin_requirements :: "event_requirement list list" where
  "builtin_requirements =
     [privilegedCriticalRequirements, ragCriticalRequirements, dataExportCriticalRequirements,
      policyDecisionCriticalRequirements, humanOverrideCriticalRequirements, backgroundAutomationCriticalRequirements]"

lemma requirements_small:
  assumes "reqs \<in> set builtin_requirements"
  shows "length reqs \<le> 6" "list_all (\<lambda>q. length (eq_fields q) \<le> 2 ^ 53) reqs"
  using assms
  by (auto simp: builtin_requirements_def privilegedCriticalRequirements_def ragCriticalRequirements_def
      dataExportCriticalRequirements_def policyDecisionCriticalRequirements_def humanOverrideCriticalRequirements_def
      backgroundAutomationCriticalRequirements_def requirement_def request_fields_def policy_fields_def
      precommit_fields_def executed_fields_def)

lemma unit_coverage:
  assumes "reqs \<in> set builtin_requirements" "length records \<le> 2 ^ 40"
  shows "unit (eventCoverage (indexRecordsByType records) reqs)" "unit (fieldCompleteness (indexRecordsByType records) reqs)"
proof -
  note small = requirements_small [OF assms(1)]
  show "unit (eventCoverage (indexRecordsByType records) reqs)" by (rule unit_eventCoverage) (use small(1) in simp)
  have "length reqs * length records \<le> 6 * 2 ^ 40" by (rule mult_mono) (use small(1) assms(2) in simp_all)
  then have "length reqs * length records \<le> 2 ^ 52" by simp
  then show "unit (fieldCompleteness (indexRecordsByType records) reqs)"
    by (intro unit_fieldCompleteness [OF small(2)]) (rule order_trans [OF found_length])
qed

lemmas unit_rules =
  unit_boolScore unit_temporal unit_window unit_anchor unit_computeSC unit_xcScore unit_averageScores

definition units :: "scores \<Rightarrow> bool" where
  "units xs = list_all (\<lambda>(k, x). unit x) xs"

lemma units_sub_scores:
  "units (sub_scores ec fc rc tc sc xc ac gc) \<longleftrightarrow>
     unit ec \<and> unit fc \<and> unit rc \<and> unit tc \<and> unit sc \<and> unit xc \<and> unit ac \<and> unit gc"
  by (simp add: units_def sub_scores_def)

lemma builtin_units:
  assumes "length records \<le> 2 ^ 40"
  shows "units (privilegedToolActionSubScores schemas records a)" "units (ragAnswerSubScores schemas records a)"
    "units (dataExportSubScores schemas records a)" "units (policyDecisionSubScores schemas records a)"
    "units (humanOverrideSubScores schemas records a)" "units (backgroundAutomationSubScores schemas records a)"
proof -
  have x: "unit (xcScoreWithCorroboration a records)" using assms by (intro unit_xcScore) simp
  have c: "unit (eventCoverage (indexRecordsByType records) reqs)" "unit (fieldCompleteness (indexRecordsByType records) reqs)"
    if "reqs \<in> set builtin_requirements" for reqs
    by (rule unit_coverage [OF that assms])+
  have b: "privilegedCriticalRequirements \<in> set builtin_requirements" "ragCriticalRequirements \<in> set builtin_requirements"
    "dataExportCriticalRequirements \<in> set builtin_requirements" "policyDecisionCriticalRequirements \<in> set builtin_requirements"
    "humanOverrideCriticalRequirements \<in> set builtin_requirements" "backgroundAutomationCriticalRequirements \<in> set builtin_requirements"
    by (simp_all add: builtin_requirements_def)
  note facts = x c b unit_averageScores unit_lit
  show "units (privilegedToolActionSubScores schemas records a)"
    by (simp add: privilegedToolActionSubScores_def Let_def units_sub_scores facts)
  show "units (ragAnswerSubScores schemas records a)"
    by (simp add: ragAnswerSubScores_def Let_def units_sub_scores facts)
  show "units (dataExportSubScores schemas records a)"
    by (simp add: dataExportSubScores_def Let_def units_sub_scores facts)
  show "units (policyDecisionSubScores schemas records a)"
    by (simp add: policyDecisionSubScores_def Let_def units_sub_scores facts)
  show "units (humanOverrideSubScores schemas records a)"
    by (simp add: humanOverrideSubScores_def Let_def units_sub_scores facts)
  show "units (backgroundAutomationSubScores schemas records a)"
    by (simp add: backgroundAutomationSubScores_def Let_def units_sub_scores facts)
qed

lemma builtin_builder_units:
  assumes "builtin_builder schemas pid = Some f" "length records \<le> 2 ^ 40"
  shows "units (f records a)"
  using assms(1) builtin_units [OF assms(2)] unfolding builtin_builder_def by (auto split: if_splits)

section \<open>The weighted total\<close>

lemma weighted_total_bounds:
  assumes "list_all (\<lambda>(k, w). unit w \<and> unit (score_of scores k)) ws" "length ws + n \<le> 2 ^ 52"
    and "0 \<le> a" "a \<le> b" "b \<le> of_nat n"
  shows "\<exists>m m'. foldl f_add (Fin False a) (map (\<lambda>(k, w). f_mul w (score_of scores k)) ws) = Fin False m \<and>
    foldl f_add (Fin False b) (map snd ws) = Fin False m' \<and> 0 \<le> m \<and> m \<le> m'"
  using assms
proof (induction ws arbitrary: a b n)
  case (Cons kw ws)
  obtain k w where kw: "kw = (k, w)" by force
  from Cons.prems(1) kw obtain x y where x: "w = Fin False x" "0 \<le> x" "x \<le> 1" "fl x = x"
    and y: "score_of scores k = Fin False y" "0 \<le> y" "y \<le> 1"
    by (auto simp: unit_def)
  have xy: "0 \<le> x * y" "x * y \<le> x" "x * y \<le> 1" using x y mult_left_le [of y x] by (auto intro: mult_le_one)
  define p where "p = fl (x * y)"
  have p: "0 \<le> p" "p \<le> x" using fl_mono [OF xy(2)] x(4) xy(1) by (auto simp: p_def fl_nonneg)
  have mul: "f_mul w (score_of scores k) = Fin False p"
    unfolding x(1) y(1) p_def by (rule f_mul_small) (use x y xy in auto)
  have n: "(of_nat (n + 1) :: rat) \<le> 2 ^ 52"
    using Cons.prems(2) by (metis Suc_eq_plus1 add.commute add_leD2 length_Cons add_Suc_shift of_nat_le_iff of_nat_numeral of_nat_power)
  have bx: "b + x \<le> of_nat (n + 1)" using Cons.prems(5) x by simp
  have fb: "fl (b + x) \<le> of_nat (n + 1)"
    using fl_mono [OF bx] fl_of_nat [of "n + 1"] Cons.prems(2) by simp
  have ab: "fl (a + p) \<le> fl (b + x)" by (rule fl_mono) (use Cons.prems(4) p in simp)
  have add: "f_add (Fin False a) (Fin False p) = Fin False (fl (a + p))" "f_add (Fin False b) (Fin False x) = Fin False (fl (b + x))"
    using Cons.prems(3,4) p x bx n by (auto simp del: f_add.simps intro!: f_add_small)
  have "\<exists>m m'. foldl f_add (Fin False (fl (a + p))) (map (\<lambda>(k, w). f_mul w (score_of scores k)) ws) = Fin False m \<and>
    foldl f_add (Fin False (fl (b + x))) (map snd ws) = Fin False m' \<and> 0 \<le> m \<and> m \<le> m'"
    by (rule Cons.IH [of "n + 1"]) (use Cons.prems p ab fb in \<open>auto simp: fl_nonneg\<close>)
  then show ?case using kw mul add x(1) by simp
qed auto

section \<open>Properties\<close>

definition bounded_profile :: "profile \<Rightarrow> bool" where
  \<comment> \<open>the required rules and their fields are few enough to be counted exactly\<close>
  "bounded_profile p =
     (case p of SchemaFile s \<Rightarrow> length (ps_Required s) \<le> 2 ^ 10 \<and> list_all (\<lambda>r. length (er_Fields r) \<le> 2 ^ 53) (ps_Required s)
      | _ \<Rightarrow> True)"

lemma subScores_units:
  assumes "length records \<le> 2 ^ 40" "bounded_profile p"
  shows "units (subScoresForProfile schemas p records a)"
proof (cases "builtin_builder schemas (profile_ID p)")
  case (Some f)
  with builtin_builder_units [OF Some assms(1)] show ?thesis by (simp add: subScoresForProfile_def)
next
  case None
  have z: "units zeroSubScores" by (simp add: zeroSubScores_def units_sub_scores)
  show ?thesis
  proof (cases p)
    case (SchemaFile s)
    define reqs where "reqs = map (\<lambda>r. requirement (er_Type r) (er_Fields r)) (ps_Required s)"
    have r: "length reqs \<le> 2 ^ 10" "list_all (\<lambda>q. length (eq_fields q) \<le> 2 ^ 53) reqs"
      using assms(2) SchemaFile by (auto simp: bounded_profile_def reqs_def requirement_def list_all_iff)
    have "length reqs * length records \<le> 2 ^ 10 * 2 ^ 40" by (rule mult_mono) (use r(1) assms(1) in simp_all)
    then have "length reqs * length records \<le> 2 ^ 52" by simp
    then have "unit (fieldCompleteness (indexRecordsByType records) reqs)"
      by (intro unit_fieldCompleteness [OF r(2)]) (rule order_trans [OF found_length])
    moreover have "unit (eventCoverage (indexRecordsByType records) reqs)" by (rule unit_eventCoverage) (use r(1) in simp)
    moreover have "unit (xcScoreWithCorroboration a records)" using assms(1) by (intro unit_xcScore) simp
    ultimately have "units (genericSchemaSubScores s records a)"
      by (simp add: genericSchemaSubScores_def Let_def units_sub_scores reqs_def [symmetric])
    with None SchemaFile show ?thesis by (simp add: subScoresForProfile_def)
  qed (use None z in \<open>simp_all add: subScoresForProfile_def\<close>)
qed

lemma units_score_of: "units scores \<Longrightarrow> unit (score_of scores k)"
  by (auto simp: units_def score_of_def list_all_iff dest!: map_of_SomeD split: option.splits)

text \<open>C20: every sub-score of a bundle is a double between 0 and 1, and, for weights that all lie between 0 and 1, the completeness
  assurance score lies between 0 and the sum of the weights, added up in the same order with the same rounding. When the chain does not verify, the score is 0, the grade is
  Insufficient and the assurance flag is off.\<close>

theorem cas_bounded:
  assumes "length records \<le> 2 ^ 40" "bounded_profile p" "list_all (\<lambda>(k, w). unit w) ws" "length ws \<le> 2 ^ 52"
  shows "let scores = subScoresForProfile schemas p records a; r = computeCASWithApplicability scores ws' ws app valid
    in units scores \<and>
       (valid \<longrightarrow> (\<exists>m m'. Overall r = Fin False m \<and> f_sum (map snd ws) = Fin False m' \<and> 0 \<le> m \<and> m \<le> m') \<and>
          Grade r = gradeFromScore (Overall r)) \<and>
       (\<not> valid \<longrightarrow> Overall r = f_zero \<and> Grade r = ''Insufficient'' \<and> \<not> AssuranceValid r)"
proof -
  define scores where "scores = subScoresForProfile schemas p records a"
  have u: "units scores" unfolding scores_def by (rule subScores_units [OF assms(1,2)])
  have "list_all (\<lambda>(k, w). unit w \<and> unit (score_of scores k)) ws"
    using assms(3) units_score_of [OF u] by (auto simp: list_all_iff)
  then have "\<exists>m m'. weighted_total scores ws = Fin False m \<and> f_sum (map snd ws) = Fin False m' \<and> 0 \<le> m \<and> m \<le> m'"
    using weighted_total_bounds [of scores ws 0 0 0] assms(4) by (simp add: weighted_total_def f_sum_def)
  with u show ?thesis
    by (simp add: Let_def scores_def [symmetric] computeCASWithApplicability_def)
qed

subsection \<open>A bundle at the threshold\<close>

definition sample_record :: "string \<Rightarrow> string list \<Rightarrow> bundle_record" where
  "sample_record t flds =
     new_record (zero_event\<lparr>Type := t, Data := AMap (map (\<lambda>f. (f, AString (if f = ''decision'' then ''allow'' else ''a''))) flds)\<rparr>) []"

definition export_records :: "bundle_record list" where
  \<comment> \<open>an authorised data export with three of the six policy fields, corroborated from outside\<close>
  "export_records =
     [sample_record ManifestEventType [], sample_record TypeAIRequestReceived request_fields,
      sample_record TypeAIPolicyDecision [''policy_id'', ''decision'', ''action_id''],
      sample_record TypeDataExportPrecommit precommit_fields, sample_record TypeDataExportExecuted executed_fields,
      new_record (zero_event\<lparr>Type := TypeCorroborationExternal, Data := AMap
        [(''source'', AString ''gateway''), (''reference_id'', AString ''1''), (''digest'', AString ''d''),
         (''retrieved_at'', AString ''2025-01-01T00:00:00Z'')]\<rparr>) []]"

definition export_schema :: profile_schema where
  \<comment> \<open>the fields of the data export template that the score depends on\<close>
  "export_schema =
     \<lparr>ps_ID = profileIDDataExport, ps_Version = 1, ps_WorkflowClass = ''data_export'', ps_BlindSpots = [],
      ps_Weights = [(''EC'', f_lit (15 / 100)), (''FC'', f_lit (10 / 100)), (''RC'', f_lit (15 / 100)), (''TC'', f_lit (10 / 100)),
        (''SC'', f_lit (10 / 100)), (''XC'', f_lit (20 / 100)), (''AC'', f_lit (10 / 100)), (''GC'', f_lit (10 / 100))],
      ps_SupportsCAS = True, ps_SCMode = ''policy_decision'', ps_Required = [], ps_Optional = [], ps_Relations = []\<rparr>"

definition export_scores :: scores where
  "export_scores = sub_scores f_one (f_lit (9 / 10)) f_one f_one (f_lit (6 / 10)) f_one f_zero f_one"

lemma export_scores: "dataExportSubScores [(profileIDDataExport, export_schema)] export_records AnchorAbsent = export_scores"
  by code_simp

definition other_order :: weights where
  \<comment> \<open>the same weights visited with the source commitment last\<close>
  "other_order = filter (\<lambda>(k, w). k \<noteq> ''SC'') (ps_Weights export_schema) @ filter (\<lambda>(k, w). k = ''SC'') (ps_Weights export_schema)"

lemma other_order_mset: "mset other_order = mset (ps_Weights export_schema)"
  by (simp add: other_order_def export_schema_def)

lemma Grade_ComputeCAS: "Grade (ComputeCAS scores ws1 ws2 True) = gradeFromScore (weighted_total scores ws2)"
  by (simp add: ComputeCAS_def computeCASWithApplicability_def Let_def)

theorem cas_bounded_witness:
  "let scores = subScoresForProfile [(profileIDDataExport, export_schema)] (Builtin profileIDDataExport export_schema) export_records AnchorAbsent;
       r = computeCASWithApplicability scores other_order (ps_Weights export_schema) [] True
    in units scores \<and> (\<exists>m m'. Overall r = Fin False m \<and> f_sum (map snd (ps_Weights export_schema)) = Fin False m' \<and> 0 \<le> m \<and> m \<le> m')"
proof -
  have l: "length export_records \<le> 2 ^ 40" by (simp add: export_records_def)
  have w: "list_all (\<lambda>(k, w). unit w) (ps_Weights export_schema)" by (simp add: export_schema_def unit_lit)
  have n: "length (ps_Weights export_schema) \<le> 2 ^ 52" by (simp add: export_schema_def)
  from cas_bounded [OF l _ w n, of "Builtin profileIDDataExport export_schema" "[(profileIDDataExport, export_schema)]" AnchorAbsent other_order "[]" True]
  show ?thesis by (simp add: bounded_profile_def Let_def)
qed

text \<open>The roundings of the two sums, each checked against the nearest double.\<close>

lemma threshold_roundings:
  "fl (3 / 20) = 5404319552844595 / 36028797018963968"
  "fl (1 / 10) = 3602879701896397 / 36028797018963968"
  "fl (1 / 5) = 3602879701896397 / 18014398509481984"
  "fl (9 / 10) = 8106479329266893 / 9007199254740992"
  "fl (3 / 5) = 5404319552844595 / 9007199254740992"
  "fl (17 / 20) = 7656119366529843 / 9007199254740992"
  "fl (5404319552844595 / 36028797018963968) = 5404319552844595 / 36028797018963968"
  "fl (29206669829258407752355848084521 / 324518553658426726783156020576256) = 6485183463413515 / 72057594037927936"
  "fl (3602879701896397 / 36028797018963968) = 3602879701896397 / 36028797018963968"
  "fl (19471113219505603967277331424215 / 324518553658426726783156020576256) = 1080863910568919 / 18014398509481984"
  "fl (3602879701896397 / 18014398509481984) = 3602879701896397 / 18014398509481984"
  "fl (17293822569102705 / 72057594037927936) = 1080863910568919 / 4503599627370496"
  "fl (14051230837395947 / 36028797018963968) = 3512807709348987 / 9007199254740992"
  "fl (17654110539292345 / 36028797018963968) = 2206763817411543 / 4503599627370496"
  "fl (9907919180215091 / 18014398509481984) = 2476979795053773 / 4503599627370496"
  "fl (13510798882111489 / 18014398509481984) = 3 / 4"
  "fl (3 / 4) = 3 / 4"
  "fl (30624477466119373 / 36028797018963968) = 7656119366529843 / 9007199254740992"
  "fl (12429934971542569 / 18014398509481984) = 1553741871442821 / 2251799813685248"
  "fl (1553741871442821 / 2251799813685248) = 1553741871442821 / 2251799813685248"
  "fl (28462749644981533 / 36028797018963968) = 7115687411245383 / 9007199254740992"
  "fl (15312238733059685 / 18014398509481984) = 3828059683264921 / 4503599627370496"
proof -
  show "fl (3 / 20) = 5404319552844595 / 36028797018963968"
    by (rule trans [OF fl_eqI [of "- 55" "36028797018963968" "3 / 20" "5404319552844595"]]) (simp_all add: pow2_def)
  show "fl (1 / 10) = 3602879701896397 / 36028797018963968"
    by (rule trans [OF fl_eqI [of "- 56" "72057594037927936" "1 / 10" "7205759403792794"]]) (simp_all add: pow2_def)
  show "fl (1 / 5) = 3602879701896397 / 18014398509481984"
    by (rule trans [OF fl_eqI [of "- 55" "36028797018963968" "1 / 5" "7205759403792794"]]) (simp_all add: pow2_def)
  show "fl (9 / 10) = 8106479329266893 / 9007199254740992"
    by (rule trans [OF fl_eqI [of "- 53" "9007199254740992" "9 / 10" "8106479329266893"]]) (simp_all add: pow2_def)
  show "fl (3 / 5) = 5404319552844595 / 9007199254740992"
    by (rule trans [OF fl_eqI [of "- 53" "9007199254740992" "3 / 5" "5404319552844595"]]) (simp_all add: pow2_def)
  show "fl (17 / 20) = 7656119366529843 / 9007199254740992"
    by (rule trans [OF fl_eqI [of "- 53" "9007199254740992" "17 / 20" "7656119366529843"]]) (simp_all add: pow2_def)
  show "fl (5404319552844595 / 36028797018963968) = 5404319552844595 / 36028797018963968"
    by (rule trans [OF fl_eqI [of "- 55" "36028797018963968" "5404319552844595 / 36028797018963968" "5404319552844595"]]) (simp_all add: pow2_def)
  show "fl (29206669829258407752355848084521 / 324518553658426726783156020576256) = 6485183463413515 / 72057594037927936"
    by (rule trans [OF fl_eqI [of "- 56" "72057594037927936" "29206669829258407752355848084521 / 324518553658426726783156020576256" "6485183463413515"]]) (simp_all add: pow2_def)
  show "fl (3602879701896397 / 36028797018963968) = 3602879701896397 / 36028797018963968"
    by (rule trans [OF fl_eqI [of "- 56" "72057594037927936" "3602879701896397 / 36028797018963968" "7205759403792794"]]) (simp_all add: pow2_def)
  show "fl (19471113219505603967277331424215 / 324518553658426726783156020576256) = 1080863910568919 / 18014398509481984"
    by (rule trans [OF fl_eqI [of "- 57" "144115188075855872" "19471113219505603967277331424215 / 324518553658426726783156020576256" "8646911284551352"]]) (simp_all add: pow2_def)
  show "fl (3602879701896397 / 18014398509481984) = 3602879701896397 / 18014398509481984"
    by (rule trans [OF fl_eqI [of "- 55" "36028797018963968" "3602879701896397 / 18014398509481984" "7205759403792794"]]) (simp_all add: pow2_def)
  show "fl (17293822569102705 / 72057594037927936) = 1080863910568919 / 4503599627370496"
    by (rule trans [OF fl_eqI [of "- 55" "36028797018963968" "17293822569102705 / 72057594037927936" "8646911284551352"]]) (simp_all add: pow2_def)
  show "fl (14051230837395947 / 36028797018963968) = 3512807709348987 / 9007199254740992"
    by (rule trans [OF fl_eqI [of "- 54" "18014398509481984" "14051230837395947 / 36028797018963968" "7025615418697974"]]) (simp_all add: pow2_def)
  show "fl (17654110539292345 / 36028797018963968) = 2206763817411543 / 4503599627370496"
    by (rule trans [OF fl_eqI [of "- 54" "18014398509481984" "17654110539292345 / 36028797018963968" "8827055269646172"]]) (simp_all add: pow2_def)
  show "fl (9907919180215091 / 18014398509481984) = 2476979795053773 / 4503599627370496"
    by (rule trans [OF fl_eqI [of "- 53" "9007199254740992" "9907919180215091 / 18014398509481984" "4953959590107546"]]) (simp_all add: pow2_def)
  show "fl (13510798882111489 / 18014398509481984) = 3 / 4"
    by (rule trans [OF fl_eqI [of "- 53" "9007199254740992" "13510798882111489 / 18014398509481984" "6755399441055744"]]) (simp_all add: pow2_def)
  show "fl (3 / 4) = 3 / 4"
    by (rule trans [OF fl_eqI [of "- 53" "9007199254740992" "3 / 4" "6755399441055744"]]) (simp_all add: pow2_def)
  show "fl (30624477466119373 / 36028797018963968) = 7656119366529843 / 9007199254740992"
    by (rule trans [OF fl_eqI [of "- 53" "9007199254740992" "30624477466119373 / 36028797018963968" "7656119366529843"]]) (simp_all add: pow2_def)
  show "fl (12429934971542569 / 18014398509481984) = 1553741871442821 / 2251799813685248"
    by (rule trans [OF fl_eqI [of "- 53" "9007199254740992" "12429934971542569 / 18014398509481984" "6214967485771284"]]) (simp_all add: pow2_def)
  show "fl (1553741871442821 / 2251799813685248) = 1553741871442821 / 2251799813685248"
    by (rule trans [OF fl_eqI [of "- 53" "9007199254740992" "1553741871442821 / 2251799813685248" "6214967485771284"]]) (simp_all add: pow2_def)
  show "fl (28462749644981533 / 36028797018963968) = 7115687411245383 / 9007199254740992"
    by (rule trans [OF fl_eqI [of "- 53" "9007199254740992" "28462749644981533 / 36028797018963968" "7115687411245383"]]) (simp_all add: pow2_def)
  show "fl (15312238733059685 / 18014398509481984) = 3828059683264921 / 4503599627370496"
    by (rule trans [OF fl_eqI [of "- 53" "9007199254740992" "15312238733059685 / 18014398509481984" "7656119366529842"]]) (simp_all add: pow2_def)
qed

lemma threshold_operations:
  "f_lit (3 / 20) = Fin False (5404319552844595 / 36028797018963968)"
  "f_lit (1 / 10) = Fin False (3602879701896397 / 36028797018963968)"
  "f_lit (1 / 5) = Fin False (3602879701896397 / 18014398509481984)"
  "f_lit (9 / 10) = Fin False (8106479329266893 / 9007199254740992)"
  "f_lit (3 / 5) = Fin False (5404319552844595 / 9007199254740992)"
  "f_lit (17 / 20) = Fin False (7656119366529843 / 9007199254740992)"
  "f_mul (Fin False (5404319552844595 / 36028797018963968)) (Fin False (1)) = Fin False (5404319552844595 / 36028797018963968)"
  "f_mul (Fin False (3602879701896397 / 36028797018963968)) (Fin False (8106479329266893 / 9007199254740992)) = Fin False (6485183463413515 / 72057594037927936)"
  "f_mul (Fin False (3602879701896397 / 36028797018963968)) (Fin False (1)) = Fin False (3602879701896397 / 36028797018963968)"
  "f_mul (Fin False (3602879701896397 / 36028797018963968)) (Fin False (5404319552844595 / 9007199254740992)) = Fin False (1080863910568919 / 18014398509481984)"
  "f_mul (Fin False (3602879701896397 / 18014398509481984)) (Fin False (1)) = Fin False (3602879701896397 / 18014398509481984)"
  "f_mul (Fin False (3602879701896397 / 36028797018963968)) (Fin False (0)) = Fin False (0)"
  "f_add (Fin False (0)) (Fin False (5404319552844595 / 36028797018963968)) = Fin False (5404319552844595 / 36028797018963968)"
  "f_add (Fin False (5404319552844595 / 36028797018963968)) (Fin False (6485183463413515 / 72057594037927936)) = Fin False (1080863910568919 / 4503599627370496)"
  "f_add (Fin False (1080863910568919 / 4503599627370496)) (Fin False (5404319552844595 / 36028797018963968)) = Fin False (3512807709348987 / 9007199254740992)"
  "f_add (Fin False (3512807709348987 / 9007199254740992)) (Fin False (3602879701896397 / 36028797018963968)) = Fin False (2206763817411543 / 4503599627370496)"
  "f_add (Fin False (2206763817411543 / 4503599627370496)) (Fin False (1080863910568919 / 18014398509481984)) = Fin False (2476979795053773 / 4503599627370496)"
  "f_add (Fin False (2476979795053773 / 4503599627370496)) (Fin False (3602879701896397 / 18014398509481984)) = Fin False (3 / 4)"
  "f_add (Fin False (3 / 4)) (Fin False (0)) = Fin False (3 / 4)"
  "f_add (Fin False (3 / 4)) (Fin False (3602879701896397 / 36028797018963968)) = Fin False (7656119366529843 / 9007199254740992)"
  "f_add (Fin False (2206763817411543 / 4503599627370496)) (Fin False (3602879701896397 / 18014398509481984)) = Fin False (1553741871442821 / 2251799813685248)"
  "f_add (Fin False (1553741871442821 / 2251799813685248)) (Fin False (0)) = Fin False (1553741871442821 / 2251799813685248)"
  "f_add (Fin False (1553741871442821 / 2251799813685248)) (Fin False (3602879701896397 / 36028797018963968)) = Fin False (7115687411245383 / 9007199254740992)"
  "f_add (Fin False (7115687411245383 / 9007199254740992)) (Fin False (1080863910568919 / 18014398509481984)) = Fin False (3828059683264921 / 4503599627370496)"
  by (rule f_ops_eqI; simp add: threshold_roundings)+

text \<open>The grade of a bundle is not determined by the bundle. ComputeCAS adds the weighted sub-scores while ranging over a
  Go map, whose order is unspecified, and floating-point addition depends on the order: the same bundle of a
  data export is graded High in one order of its weights and Medium in another.\<close>

theorem cas_order_dependent:
  "let scores = dataExportSubScores [(profileIDDataExport, export_schema)] export_records AnchorAbsent; ws = ps_Weights export_schema
   in mset other_order = mset ws \<and> Grade (ComputeCAS scores ws ws True) = ''High'' \<and>
      Grade (ComputeCAS scores ws other_order True) = ''Medium''"
proof -
  have "gradeFromScore (weighted_total export_scores (ps_Weights export_schema)) = ''High''"
    by (simp add: weighted_total_def f_sum_def score_of_def export_scores_def sub_scores_def export_schema_def
        gradeFromScore_def threshold_operations del: f_add.simps f_mul.simps)
  moreover have "gradeFromScore (weighted_total export_scores other_order) = ''Medium''"
    by (simp add: weighted_total_def f_sum_def score_of_def export_scores_def sub_scores_def export_schema_def
        other_order_def gradeFromScore_def threshold_operations del: f_add.simps f_mul.simps)
  ultimately show ?thesis by (simp add: Let_def export_scores other_order_mset Grade_ComputeCAS)
qed

text \<open>A corroboration bonus never lowers the score and never lifts it above 1, for a policy whose bonuses are between 0
  and 1; the default policy is accepted by its own validation and adds at most one tenth.\<close>

theorem corroboration_bounds:
  assumes "unit (Overall c)" "unit (AnchorBonus q)" "unit (SignatureBonus q)" "unit (SnapshotBonus q)" "unit (MaxBonus q)"
  shows "let r = apply_corroboration q av sv nv c
    in unit (EffectiveScore r) \<and> f_le (Overall c) (EffectiveScore r) \<and> f_le (CorroborationBonus r) (MaxBonus q) \<and>
       Overall r = Overall c \<and> Grade r = gradeFromScore (EffectiveScore r) \<and>
       policy_Validate (Some DefaultCorroborationPolicy)"
proof -
  have z: "small 0 f_zero" by (simp add: small_def)
  have step: "small (Suc n) (if b then f_add x y else x)" if "small n x" "n < 100" "unit y" for n x y b
    using that by (auto intro: small_add small_mono)
  define raw where "raw = (let b1 = (if av then f_add f_zero (AnchorBonus q) else f_zero);
      b2 = (if sv then f_add b1 (SignatureBonus q) else b1) in if nv then f_add b2 (SnapshotBonus q) else b2)"
  have "small (Suc (Suc (Suc 0))) raw" unfolding raw_def Let_def by (intro step z assms) simp_all
  then obtain m where m: "raw = Fin False m" "0 \<le> m" "fl m = m" by (auto simp: small_def)
  obtain x where x: "MaxBonus q = Fin False x" "0 \<le> x" "x \<le> 1" "fl x = x" using assms(5) by (auto simp: unit_def)
  define b where "b = min m x"
  have b: "computeCorroborationBonus (Some q) av sv nv = Fin False b" "0 \<le> b" "b \<le> x" "b \<le> 1"
    using m x by (auto simp: computeCorroborationBonus_def Let_def raw_def [unfolded Let_def, symmetric] f_Min_def b_def)
  obtain k where k: "Overall c = Fin False k" "0 \<le> k" "k \<le> 1" "fl k = k" using assms(1) by (auto simp: unit_def)
  have add: "f_add (Overall c) (Fin False b) = Fin False (fl (k + b))"
    unfolding k(1) by (rule f_add_small) (use k b in auto)
  have ge: "k \<le> fl (k + b)" using fl_mono [of k "k + b"] k(4) b(2) by simp
  define e where "e = min 1 (fl (k + b))"
  have "f_Min f_one (f_add (Overall c) (Fin False b)) = Fin False e"
    unfolding add by (auto simp: f_Min_def e_def)
  moreover have "0 \<le> e" "e \<le> 1" "k \<le> e" "fl e = e" using k ge by (auto simp: e_def min_def)
  moreover have "policy_Validate (Some DefaultCorroborationPolicy)" by code_simp
  ultimately show ?thesis
    using b x k by (auto simp: apply_corroboration_def Let_def unit_def)
qed

definition sample_cas :: cas_result where
  "sample_cas = ComputeCAS zeroSubScores (ps_Weights export_schema) (ps_Weights export_schema) False"

theorem corroboration_bounds_witness:
  "let r = apply_corroboration DefaultCorroborationPolicy True True True sample_cas
    in unit (EffectiveScore r) \<and> f_le (Overall sample_cas) (EffectiveScore r)"
proof -
  have "unit (Overall sample_cas)" by (simp add: sample_cas_def ComputeCAS_def computeCASWithApplicability_def Let_def)
  from corroboration_bounds [OF this, of DefaultCorroborationPolicy True True True]
  show ?thesis by (simp add: DefaultCorroborationPolicy_def unit_lit Let_def)
qed

text \<open>The label digest-only of the trust report is unreachable. It asks for an anchor score of 0.4, but the anchor score
  of a bundle is 1 for a verified anchor and 0 otherwise, so a bundle whose anchor is verified by digest only is
  labelled partial.\<close>

theorem digest_only_unreachable:
  "anchorQualityLabel (xcScoreWithCorroboration a records) (acScore a) \<noteq> ''digest-only'' \<and>
   anchorQualityLabel (xcScore AnchorDigestOnly) (acScore AnchorDigestOnly) = ''partial''"
proof -
  have n: "\<not> nearlyEqual f_one (f_lit (4 / 10))" "\<not> nearlyEqual f_zero (f_lit (4 / 10))" by code_simp+
  have "\<not> nearlyEqual (acScore a) (f_lit (4 / 10))" by (cases a) (simp_all only: acScore.simps n not_False_eq_True)
  then have "anchorQualityLabel x (acScore a) \<noteq> ''digest-only''" for x by (simp add: anchorQualityLabel_def)
  moreover have "anchorQualityLabel (xcScore AnchorDigestOnly) (acScore AnchorDigestOnly) = ''partial''" by code_simp
  ultimately show ?thesis by blast
qed

end
