(* ===== verification/Verify_Report.thy ===== *)
theory Verify_Report
  imports Cas Sign Bundle_IO
begin

text \<open>
  The verification report, \<^verbatim>\<open>internal/verify\<close>: timestamps, snapshots, the latest anchor, policy signatures, profile
  evaluation, the completeness score and residual risk (\<^verbatim>\<open>verify.go\<close>, \<^verbatim>\<open>evaluate.go\<close>, \<^verbatim>\<open>profiles.go\<close>,
  \<^verbatim>\<open>profile_loader.go\<close>, \<^verbatim>\<open>timestamps.go\<close>, \<^verbatim>\<open>snapshot_checks.go\<close>, \<^verbatim>\<open>anchor_classify.go\<close>, \<^verbatim>\<open>provability_gaps.go\<close>), and the
  gate and obligations of the published report (\<^verbatim>\<open>report.go\<close>).

  Arguments of the model (record \<open>verify_env\<close>): the schemas of the built-in profiles, the signature
  verifiers, the check of a timestamp token, the texts of library errors, and the orders in which Go visits
  its maps. The system calls around the temporary file of the anchor check are taken to succeed.
\<close>

section \<open>Timestamps and snapshots\<close>

definition appendUniqueStrings :: "string list \<Rightarrow> string list \<Rightarrow> string list" where
  \<comment> \<open>unlike its namesake of the profile evaluator it drops empty strings\<close>
  "appendUniqueStrings dst vs = append_unique dst (filter (\<lambda>v. v \<noteq> []) vs)"

fun timestamps_loop :: "go_time option \<Rightarrow> bundle_record list \<Rightarrow> string list" where
  "timestamps_loop previous [] = []"
| "timestamps_loop previous (r # rs) =
     (let raw = TrimSpace (Timestamp (Event r))
      in if Type (Event r) = ManifestEventType \<or> raw = [] then timestamps_loop previous rs
         else case ParseRFC3339 raw of
                None \<Rightarrow>
                  (''timestamp validation: seq '' @ show_int (Sequence (Event r)) @ '' ('' @ Type (Event r) @
                   '') has invalid RFC 3339 timestamp '' @ Quote raw) # timestamps_loop previous rs
              | Some t \<Rightarrow>
                  (case previous of
                     Some p \<Rightarrow>
                       if Before t p
                       then [''timestamp validation: seq '' @ show_int (Sequence (Event r)) @ '' ('' @ Type (Event r) @ '') timestamp '' @
                             Quote raw @ '' is earlier than the preceding timestamp '' @ Quote (FormatRFC3339 p)]
                       else []
                   | None \<Rightarrow> []) @ timestamps_loop (Some t) rs)"

definition ValidateTimestamps :: "bundle_record list \<Rightarrow> string list" where
  "ValidateTimestamps records = timestamps_loop None records"

definition SnapshotBundleHash :: "bundle_record list \<Rightarrow> string option" where
  "SnapshotBundleHash records = map_option (\<lambda>raw. hex_encode (Sum256 raw)) (save_lines records)"

definition snapshot_failure :: "string \<Rightarrow> bundle_record list \<Rightarrow> nat \<Rightarrow> string option" where
  \<comment> \<open>the failure of the record at an index, if it is a snapshot; the first argument is the text of an encoding error\<close>
  "snapshot_failure encodeError records i =
     (let r = records ! i; at_seq = ''snapshot_hash_mismatch at seq '' @ show_int (Sequence (Event r))
      in if Type (Event r) \<noteq> TypeSnapshot then None
         else case Data (Event r) of
                AMap m \<Rightarrow>
                  (let recordedHash = field_text m ''bundle_hash''
                   in if recordedHash = [] then Some (at_seq @ '': bundle_hash missing'')
                      else case SnapshotBundleHash (take i records) of
                             None \<Rightarrow> Some (at_seq @ '': recompute bundle hash: '' @ encodeError)
                           | Some h \<Rightarrow> if recordedHash \<noteq> h then Some at_seq else None)
              | _ \<Rightarrow> Some (at_seq @ '': snapshot data is not an object''))"

definition VerifySnapshotHashes :: "string \<Rightarrow> bundle_record list \<Rightarrow> string list" where
  "VerifySnapshotHashes encodeError records = List.map_filter (snapshot_failure encodeError records) [0..<length records]"

definition hasVerifiedSnapshot :: "bundle_record list \<Rightarrow> bool" where
  "hasVerifiedSnapshot records =
     (if \<not> list_ex (\<lambda>r. Type (Event r) = TypeSnapshot) records then False else VerifySnapshotHashes [] records = [])"

section \<open>The latest anchor\<close>

record anchor_payload =
  ap_BundleHash :: string
  ap_TSRDER :: string

definition set_anchor :: "string \<Rightarrow> json \<Rightarrow> anchor_payload \<Rightarrow> anchor_payload option" where
  "set_anchor n j a =
     (if n = ''bundle_hash'' then map_option (\<lambda>s. a\<lparr>ap_BundleHash := s\<rparr>) (decode_string j (ap_BundleHash a))
      else map_option (\<lambda>s. a\<lparr>ap_TSRDER := s\<rparr>) (decode_string j (ap_TSRDER a)))"

definition zero_anchor :: anchor_payload where
  "zero_anchor = \<lparr>ap_BundleHash = [], ap_TSRDER = []\<rparr>"

datatype anchor_error = AnchorDataType | AnchorNotJSON string | AnchorBase64 string | AnchorSnapshot | AnchorToken string

record token_verification =
  tv_MessageImprintVerified :: bool
  tv_SignatureVerified :: bool
  tv_CertChainVerified :: bool

record anchor_inspection =
  ai_Result :: anchor_result
  ai_Status :: string
  ai_Summary :: string
  ai_Reason :: string
  ai_AnchorPresent :: bool
  ai_AnchorHash :: string
  ai_MessageImprintVerified :: bool
  ai_SignatureVerified :: bool
  ai_CertChainVerified :: bool

text \<open>
  \<open>verify_token\<close> is \<^verbatim>\<open>anchor.VerifyTokenDetailed\<close> at the configured roots: the checks that passed, and the text of
  the error if there is one.
\<close>

record verify_env =
  ve_schemas :: schemas
  ve_verifiers :: verifiers
  ve_token :: "string \<Rightarrow> string \<Rightarrow> token_verification \<times> string option"
  ve_anchor_text :: "anchor_error \<Rightarrow> string"
  ve_policy_text :: "policy_error \<Rightarrow> string"
  ve_bundle_text :: "bundle_error \<Rightarrow> string"
  ve_order1 :: "weights \<Rightarrow> weights"
  ve_order2 :: "weights \<Rightarrow> weights"
  ve_range :: "scores \<Rightarrow> scores"

definition anchor_indices :: "bundle_record list \<Rightarrow> nat list" where
  \<comment> \<open>the anchor records, latest first\<close>
  "anchor_indices records = filter (\<lambda>i. Type (Event (records ! i)) = TypeBundleAnchor) (rev [0..<length records])"

definition latestAnchorTokenBytes :: "bundle_record list \<Rightarrow> (nat \<times> anchor_payload \<times> (anchor_error + string)) option" where
  "latestAnchorTokenBytes records =
     (case anchor_indices records of
        [] \<Rightarrow> None
      | i # _ \<Rightarrow>
          Some (case Data (Event (records ! i)) of
             AString raw \<Rightarrow>
               (case (case json_scan raw of None \<Rightarrow> None | Some j \<Rightarrow> decode_struct set_anchor [''bundle_hash'', ''tsr_der''] j zero_anchor) of
                  None \<Rightarrow> (i, zero_anchor, Inl (AnchorNotJSON raw))
                | Some payload \<Rightarrow>
                    (case b64_decode (TrimSpace (ap_TSRDER payload)) of
                       None \<Rightarrow> (i, payload, Inl (AnchorBase64 (ap_TSRDER payload)))
                     | Some token \<Rightarrow> (i, payload, Inr token)))
           | _ \<Rightarrow> (i, zero_anchor, Inl AnchorDataType)))"

definition normaliseAnchorReason :: "string \<Rightarrow> string" where
  "normaliseAnchorReason e = TrimPrefix (TrimSpace e) ''anchor: ''"

definition anchorFailedSummary :: "string \<Rightarrow> string" where
  "anchorFailedSummary reason =
     (if TrimSpace reason = [] then ''anchor: failed'' else ''anchor: failed ('' @ reason @ '')'')"

definition newFailedAnchorInspection :: "anchor_result \<Rightarrow> bool \<Rightarrow> string \<Rightarrow> string \<Rightarrow> anchor_inspection" where
  "newFailedAnchorInspection result present anchorHash reason =
     \<lparr>ai_Result = result, ai_Status = ''failed'', ai_Summary = anchorFailedSummary reason, ai_Reason = reason,
      ai_AnchorPresent = present, ai_AnchorHash = anchorHash, ai_MessageImprintVerified = False, ai_SignatureVerified = False,
      ai_CertChainVerified = False\<rparr>"

definition hashBundleSnapshotBeforeAnchor :: "bundle_record list \<Rightarrow> nat \<Rightarrow> string option" where
  \<comment> \<open>the digest of the prefix saved as a bundle\<close>
  "hashBundleSnapshotBeforeAnchor records i = map_option Sum256 (save_lines (take i records))"

definition isChainNotVerifiedAnchorError :: "string \<Rightarrow> bool" where
  "isChainNotVerifiedAnchorError e = Contains e ''certificate verification failed''"

definition inspectAnchor :: "verify_env \<Rightarrow> bundle_record list \<Rightarrow> string \<Rightarrow> anchor_inspection" where
  "inspectAnchor env records bundlePath =
     (case latestAnchorTokenBytes records of
        None \<Rightarrow> newFailedAnchorInspection AnchorAbsent False [] ''anchor record not present''
      | Some (i, payload, Inl e) \<Rightarrow>
          newFailedAnchorInspection AnchorPresentBadData True (ap_BundleHash payload) (normaliseAnchorReason (ve_anchor_text env e))
      | Some (i, payload, Inr token) \<Rightarrow>
          if token = [] then newFailedAnchorInspection AnchorPresentBadData True (ap_BundleHash payload) []
          else if TrimSpace bundlePath = []
          then newFailedAnchorInspection AnchorPresentBadData True (ap_BundleHash payload) ''bundle path required for anchor verification''
          else case hashBundleSnapshotBeforeAnchor records i of
                 None \<Rightarrow> newFailedAnchorInspection AnchorPresentBadData True (ap_BundleHash payload) (ve_anchor_text env AnchorSnapshot)
               | Some h \<Rightarrow>
                   (case ve_token env token h of
                      (v, None) \<Rightarrow>
                        \<lparr>ai_Result = AnchorVerified, ai_Status = ''verified'',
                         ai_Summary = ''anchor: verified (message imprint, signature, chain)'', ai_Reason = [], ai_AnchorPresent = True,
                         ai_AnchorHash = ap_BundleHash payload, ai_MessageImprintVerified = tv_MessageImprintVerified v,
                         ai_SignatureVerified = tv_SignatureVerified v, ai_CertChainVerified = tv_CertChainVerified v\<rparr>
                    | (v, Some err) \<Rightarrow>
                        (let partial = isChainNotVerifiedAnchorError err; reason = normaliseAnchorReason err
                         in \<lparr>ai_Result = (if partial then AnchorDigestOnly else AnchorPresentBadData),
                             ai_Status = (if partial then ''partial'' else ''failed''),
                             ai_Summary = (if partial then ''anchor: partial (message imprint only - chain not verified)''
                               else anchorFailedSummary reason),
                             ai_Reason = reason, ai_AnchorPresent = True,
                             ai_AnchorHash = ap_BundleHash payload, ai_MessageImprintVerified = tv_MessageImprintVerified v,
                             ai_SignatureVerified = tv_SignatureVerified v, ai_CertChainVerified = tv_CertChainVerified v\<rparr>)))"

definition ClassifyAnchor :: "verify_env \<Rightarrow> bundle_record list \<Rightarrow> string \<Rightarrow> anchor_result" where
  "ClassifyAnchor env records bundlePath = ai_Result (inspectAnchor env records bundlePath)"

section \<open>Results of a profile\<close>

record obligation_result =
  ob_ID :: string
  ob_Kind :: string
  ob_EventType :: string
  ob_Severity :: string
  ob_Status :: string
  ob_Message :: string

record profile_result =
  pr_ProfileID :: string
  pr_Version :: int
  pr_WorkflowClass :: string
  pr_Pass :: bool
  pr_CriticalFailures :: "critical_failure list"
  pr_RequiredWarnings :: "string list"
  pr_InformationalNotes :: "string list"
  pr_Obligations :: "obligation_result list"

definition matchingFailure :: "critical_failure list \<Rightarrow> string \<Rightarrow> string \<Rightarrow> critical_failure option" where
  "matchingFailure failures i prefix = find (\<lambda>f. cf_ID f = i \<or> HasPrefix (cf_ID f) prefix) failures"

definition requiredObligationID :: "string \<Rightarrow> string" where
  "requiredObligationID t = ''required:'' @ t"

definition relationObligationID :: "relation_rule \<Rightarrow> string" where
  "relationObligationID r =
     (if TrimSpace (rr_Name r) \<noteq> [] then ''relation:'' @ TrimSpace (rr_Name r)
      else ''relation:'' @ rr_From r @ '':'' @ rr_To r @ '':'' @ rr_Field r)"

definition warningObligationID :: "nat \<Rightarrow> string" where
  "warningObligationID i = ''warning:'' @ show_nat (i + 1)"

definition warning_obligation :: "nat \<times> string \<Rightarrow> obligation_result" where
  "warning_obligation = (\<lambda>(i, w). \<lparr>ob_ID = warningObligationID i, ob_Kind = ''required_warning'', ob_EventType = [],
     ob_Severity = ''warning'', ob_Status = ''warning'', ob_Message = w\<rparr>)"

definition rule_obligation :: "critical_failure list \<Rightarrow> string \<Rightarrow> string \<Rightarrow> string \<Rightarrow> string \<Rightarrow> string \<Rightarrow> obligation_result" where
  \<comment> \<open>the obligation of a rule: the failure that matches it, or a pass\<close>
  "rule_obligation failures i prefix kind eventType severity =
     (case matchingFailure failures i prefix of
        None \<Rightarrow> \<lparr>ob_ID = i, ob_Kind = kind, ob_EventType = eventType, ob_Severity = severity, ob_Status = ''pass'', ob_Message = []\<rparr>
      | Some f \<Rightarrow> \<lparr>ob_ID = cf_ID f, ob_Kind = cf_Kind f, ob_EventType = eventType, ob_Severity = severity, ob_Status = ''fail'',
                   ob_Message = cf_Detail f\<rparr>)"

definition schemaObligations :: "profile_schema \<Rightarrow> evaluation_result \<Rightarrow> obligation_result list" where
  "schemaObligations s ev =
     map (\<lambda>rule. let i = requiredObligationID (er_Type rule)
            in rule_obligation (ev_CriticalFailures ev) i (i @ '':field:'') ''required_event'' (er_Type rule) (er_Severity rule)) (ps_Required s) @
     map (\<lambda>rule. let i = relationObligationID rule
            in rule_obligation (ev_CriticalFailures ev) i (i @ '':predicate:'') ''relation'' [] ''critical'') (ps_Relations s) @
     map warning_obligation (enumerate 0 (ev_RequiredWarnings ev))"

definition evaluateSchemaProfile :: "profile_schema \<Rightarrow> bundle_record list \<Rightarrow> profile_result" where
  "evaluateSchemaProfile s records =
     (let ev = Evaluate s records
      in \<lparr>pr_ProfileID = ps_ID s, pr_Version = ps_Version s, pr_WorkflowClass = ps_WorkflowClass s, pr_Pass = ev_Pass ev,
          pr_CriticalFailures = ev_CriticalFailures ev, pr_RequiredWarnings = ev_RequiredWarnings ev,
          pr_InformationalNotes = ev_InformationalNotes ev, pr_Obligations = schemaObligations s ev\<rparr>)"

definition finaliseProfileResult :: "profile_result \<Rightarrow> profile_result" where
  "finaliseProfileResult res =
     res\<lparr>pr_RequiredWarnings := SortStrings (appendUniqueStrings [] (pr_RequiredWarnings res)),
         pr_InformationalNotes := SortStrings (appendUniqueStrings [] (pr_InformationalNotes res)),
         pr_CriticalFailures := sort_by failure_less (pr_CriticalFailures res),
         pr_Pass := (pr_CriticalFailures res = [])\<rparr>"

definition obligationMessage :: "string \<Rightarrow> string \<Rightarrow> string" where
  "obligationMessage eventType message = (if message \<noteq> [] then message else eventType @ '' missing'')"

definition relationMessage :: "relation_config \<Rightarrow> string" where
  "relationMessage r = (if rl_Message r \<noteq> [] then rl_Message r else rl_From r @ '' must precede '' @ rl_To r)"

definition relationSatisfied :: "bundle_record list \<Rightarrow> bundle_record list \<Rightarrow> bool" where
  "relationSatisfied fromRecords toRecords =
     (if toRecords = [] then True
      else if fromRecords = [] then False
      else let fromSequences = sort (map (\<lambda>r. Sequence (Event r)) fromRecords)
           in list_all (\<lambda>r. list_ex (\<lambda>s. s < Sequence (Event r)) fromSequences) toRecords)"

definition external_Evaluate :: "profile_config \<Rightarrow> bundle_record list \<Rightarrow> profile_result" where
  "external_Evaluate c records =
     (let ix = indexRecordsByType records;
          missing = filter (\<lambda>o'. ix (rc_EventType o') = []);
          failure = (\<lambda>kind detail. \<lparr>cf_ID = [], cf_Kind = kind, cf_Detail = detail\<rparr>)
      in finaliseProfileResult
           \<lparr>pr_ProfileID = pc_ID c, pr_Version = 1, pr_WorkflowClass = pc_DisplayName c, pr_Pass = False,
            pr_CriticalFailures =
              map (\<lambda>o'. failure ''missing_event'' (obligationMessage (rc_EventType o') (rc_Message o'))) (missing (pc_Critical c)) @
              map (\<lambda>r. failure ''relation_violation'' (relationMessage r))
                (filter (\<lambda>r. \<not> relationSatisfied (ix (rl_From r)) (ix (rl_To r))) (pc_Relations c)),
            pr_RequiredWarnings = map (\<lambda>o'. obligationMessage (rc_EventType o') (rc_Message o')) (missing (pc_Required c)),
            pr_InformationalNotes = (if pc_Description c \<noteq> [] then [pc_Description c] else []), pr_Obligations = []\<rparr>)"

fun profile_Evaluate :: "profile \<Rightarrow> bundle_record list \<Rightarrow> profile_result" where
  "profile_Evaluate (Builtin pid s) records = evaluateSchemaProfile s records"
| "profile_Evaluate (SchemaFile s) records = evaluateSchemaProfile s records"
| "profile_Evaluate (LegacyFile c) records = external_Evaluate c records"

fun profile_Version :: "profile \<Rightarrow> int" where
  "profile_Version (Builtin pid s) = ps_Version s"
| "profile_Version (SchemaFile s) = ps_Version s"
| "profile_Version (LegacyFile c) = 1"

fun profile_WorkflowClass :: "profile \<Rightarrow> string" where
  "profile_WorkflowClass (Builtin pid s) = ps_WorkflowClass s"
| "profile_WorkflowClass (SchemaFile s) = ps_WorkflowClass s"
| "profile_WorkflowClass (LegacyFile c) = pc_DisplayName c"

definition stampProfileResult :: "profile \<Rightarrow> profile_result \<Rightarrow> profile_result" where
  "stampProfileResult p res =
     (let r1 = (if TrimSpace (pr_ProfileID res) = [] then res\<lparr>pr_ProfileID := profile_ID p\<rparr> else res);
          r2 = (if pr_Version r1 = 0 then r1\<lparr>pr_Version := profile_Version p\<rparr> else r1)
      in if TrimSpace (pr_WorkflowClass r2) = [] then r2\<lparr>pr_WorkflowClass := profile_WorkflowClass p\<rparr> else r2)"

definition profileSupportsCAS :: "schemas \<Rightarrow> profile \<Rightarrow> bool" where
  "profileSupportsCAS schemas p =
     (case p of
        SchemaFile s \<Rightarrow> ps_SupportsCAS s
      | _ \<Rightarrow> (case map_of schemas (profile_ID p) of None \<Rightarrow> False | Some s \<Rightarrow> ps_SupportsCAS s))"

section \<open>Policy signatures\<close>

definition signature_failure :: "string \<Rightarrow> string \<Rightarrow> critical_failure" where
  "signature_failure kind detail = \<lparr>cf_ID = [], cf_Kind = kind, cf_Detail = detail\<rparr>"

type_synonym signature_findings = "string list \<times> string list \<times> critical_failure list"

definition signature_outcome :: "verify_env \<Rightarrow> policy_error option \<Rightarrow> string \<Rightarrow> string \<Rightarrow> string \<Rightarrow> string \<Rightarrow> signature_findings" where
  \<comment> \<open>warnings, notes and failures of one check: a note if it passed, a warning if there is no signature\<close>
  "signature_outcome env e note warning kind detail =
     (case e of
        None \<Rightarrow> ([], [note], [])
      | Some err \<Rightarrow> if err = SignatureAbsent then ([warning], [], []) else ([], [], [signature_failure kind (detail @ ve_policy_text env err)]))"

definition inspect_decision :: "verify_env \<Rightarrow> bundle_record \<Rightarrow> signature_findings" where
  \<comment> \<open>warnings, notes and failures of one policy decision\<close>
  "inspect_decision env r =
     (case Data (Event r) of
        AMap m \<Rightarrow>
          (let ed = ed_verify (ve_verifiers env);
               (w1, n1, f1) =
                 signature_outcome env (VerifyPolicyDecision ed m) ''ai.policy.decision: signature verified''
                   ''ai.policy.decision: policy_signature absent'' ''signature_verification''
                   ''ai.policy.decision: signature verification failed: '';
               (w2, n2, f2) =
                 (if field_text m FieldPolicyDocHash = [] then ([], [], [])
                  else signature_outcome env (VerifyPolicyDocSignature ed m) ''ai.policy.decision: policy_doc_signature verified''
                   ''ai.policy.decision: policy_doc_signature absent'' ''policy_doc_signature_verification''
                   ''ai.policy.decision: policy_doc_signature verification failed: '')
           in (w1 @ w2, n1 @ n2, f1 @ f2))
      | _ \<Rightarrow> ([], [], [signature_failure ''signature_verification''
               ''ai.policy.decision: signature verification failed: policy decision data is not an object'']))"

definition inspectPolicyDecisionSignatures :: "verify_env \<Rightarrow> bundle_record list \<Rightarrow> signature_findings" where
  "inspectPolicyDecisionSignatures env records =
     (let fs = map (inspect_decision env) (filter (\<lambda>r. Type (Event r) = TypeAIPolicyDecision) records)
      in (concat (map (\<lambda>(w, n, f). w) fs), concat (map (\<lambda>(w, n, f). n) fs), concat (map (\<lambda>(w, n, f). f) fs)))"

definition absence_warning :: "string \<Rightarrow> bool" where
  "absence_warning w = (Contains w ''policy_signature absent'' \<or> Contains w ''policy_doc_signature absent'')"

definition applyPolicyDecisionSignatureChecks :: "signature_findings \<Rightarrow> bool \<Rightarrow> profile_result \<Rightarrow> profile_result" where
  "applyPolicyDecisionSignatureChecks findings strict res =
     (case findings of (warnings, notes, failures) \<Rightarrow>
        let failures' = (if strict then failures @ map (signature_failure ''signature_verification'') (filter absence_warning warnings) else failures);
            warnings' = (if strict then filter (\<lambda>w. \<not> absence_warning w) warnings else warnings)
        in finaliseProfileResult
             (res\<lparr>pr_RequiredWarnings := pr_RequiredWarnings res @ warnings',
                  pr_InformationalNotes := pr_InformationalNotes res @ notes,
                  pr_CriticalFailures := pr_CriticalFailures res @ failures'\<rparr>))"

section \<open>The report\<close>

record integrity_result =
  ir_ChainValid :: bool
  ir_FirstSeq :: int
  ir_LastSeq :: int
  ir_Error :: string

record anchoring_result =
  an_AnchorRequired :: bool
  an_AnchorPresent :: bool
  an_Status :: string
  an_Summary :: string
  an_MessageImprintVerified :: bool
  an_SignatureVerified :: bool
  an_TSAVerified :: bool
  an_CertChainVerified :: bool
  an_AnchorHash :: string
  an_Reason :: string
  an_Errors :: "string list"

record residual_risk =
  rk_Level :: string
  rk_Drivers :: "string list"
  rk_RecommendedNextEvidence :: "string list"

record provability_gap =
  pg_Gap :: string
  pg_Layer :: string
  pg_Mitigation :: string
  pg_ClosedWhen :: string

record verify_report =
  rp_BundlePath :: string
  rp_Retrospective :: bool
  rp_Integrity :: integrity_result
  rp_Anchoring :: anchoring_result
  rp_BundleSignature :: "bundle_signature_result option"
  rp_Signatures :: "signature_provenance list"
  rp_Profiles :: "profile_result list"
  rp_CAS :: "cas_result option"
  rp_InformationalNotes :: "string list"
  rp_Exclusions :: "string list"
  rp_ProvabilityGaps :: "provability_gap list"
  rp_ResidualRisk :: residual_risk

fun type_name :: "any \<Rightarrow> string" where
  \<comment> \<open>the verb \<^verbatim>\<open>%T\<close>\<close>
  "type_name ANil = ''<nil>''"
| "type_name (ABool b) = ''bool''"
| "type_name (AInt n) = ''int''"
| "type_name (AFloat f) = ''float64''"
| "type_name (AString s) = ''string''"
| "type_name (AList vs) = ''[]interface {}''"
| "type_name (AMap m) = ''map[string]interface {}''"

definition first_text :: "string \<Rightarrow> (string \<times> any) list \<Rightarrow> string" where
  "first_text k m = (case map_of m k of Some (AString s) \<Rightarrow> s | _ \<Rightarrow> [])"

fun scan_anchors :: "verify_env \<Rightarrow> bundle_record list \<Rightarrow> nat list \<Rightarrow> anchoring_result \<Rightarrow> anchoring_result" where
  "scan_anchors env records [] res = res"
| "scan_anchors env records (i # is) res =
     (let res1 = res\<lparr>an_AnchorPresent := True\<rparr>;
          index = ''anchor record at index '' @ show_nat i
      in scan_anchors env records is
           (case Data (Event (records ! i)) of
              AString raw \<Rightarrow>
                (case (case json_unmarshal raw of Some (AMap m) \<Rightarrow> Some m | Some ANil \<Rightarrow> Some [] | _ \<Rightarrow> None) of
                   None \<Rightarrow> res1\<lparr>an_Errors := an_Errors res1 @ [index @ '': invalid JSON payload: '' @ ve_anchor_text env (AnchorNotJSON raw)]\<rparr>
                 | Some m \<Rightarrow>
                     if first_text ''bundle_hash'' m \<noteq> [] \<and> an_AnchorHash res1 = []
                     then res1\<lparr>an_AnchorHash := first_text ''bundle_hash'' m\<rparr>
                     else if first_text ''tsr_hash'' m \<noteq> [] \<and> an_AnchorHash res1 = []
                     then res1\<lparr>an_AnchorHash := first_text ''tsr_hash'' m\<rparr>
                     else res1)
            | d \<Rightarrow> res1\<lparr>an_Errors := an_Errors res1 @ [index @ '': data is '' @ type_name d @ '', want string'']\<rparr>))"

definition scanAnchoring :: "verify_env \<Rightarrow> bundle_record list \<Rightarrow> anchoring_result" where
  "scanAnchoring env records =
     scan_anchors env records (anchor_indices records)
       \<lparr>an_AnchorRequired = False, an_AnchorPresent = False, an_Status = ''failed'',
        an_Summary = anchorFailedSummary ''anchor record not present'', an_MessageImprintVerified = False,
        an_SignatureVerified = False, an_TSAVerified = False, an_CertChainVerified = False, an_AnchorHash = [], an_Reason = [],
        an_Errors = []\<rparr>"

definition integrityFailureResidualRisk :: residual_risk where
  "integrityFailureResidualRisk =
     \<lparr>rk_Level = ''Critical'', rk_Drivers = [''Chain integrity invalid; completeness scoring is diagnostic only.''],
      rk_RecommendedNextEvidence = []\<rparr>"

definition residualRiskNoMatchingProfile :: residual_risk where
  "residualRiskNoMatchingProfile =
     \<lparr>rk_Level = ''High'', rk_Drivers = [''No matching obligation profile evaluated.''],
      rk_RecommendedNextEvidence = [''Select an obligation profile explicitly or emit profile-identifying events.'']\<rparr>"

definition setIntegritySequenceBounds :: "bundle_record list \<Rightarrow> integrity_result \<Rightarrow> integrity_result" where
  "setIntegritySequenceBounds records res =
     (if records = [] then res
      else res\<lparr>ir_FirstSeq := Sequence (Event (hd records)), ir_LastSeq := Sequence (Event (last records))\<rparr>)"

definition prepareVerificationReport :: "verify_env \<Rightarrow> atb_bundle option \<Rightarrow> string \<Rightarrow> verify_report \<times> bool" where
  "prepareVerificationReport env b bundlePath =
     (let report0 = \<lparr>rp_BundlePath = bundlePath, rp_Retrospective = False,
            rp_Integrity = \<lparr>ir_ChainValid = False, ir_FirstSeq = 0, ir_LastSeq = 0, ir_Error = []\<rparr>,
            rp_Anchoring = scanAnchoring env [], rp_BundleSignature = None, rp_Signatures = [], rp_Profiles = [], rp_CAS = None,
            rp_InformationalNotes = [], rp_Exclusions = [], rp_ProvabilityGaps = [],
            rp_ResidualRisk = \<lparr>rk_Level = ''Critical'', rk_Drivers = [], rk_RecommendedNextEvidence = []\<rparr>\<rparr>
      in case b of
           None \<Rightarrow> (report0\<lparr>rp_Integrity := (rp_Integrity report0)\<lparr>ir_Error := ''bundle is nil''\<rparr>,
                           rp_ResidualRisk := integrityFailureResidualRisk\<rparr>, False)
         | Some bndl \<Rightarrow>
             (let records = Records bndl;
                  a0 = scanAnchoring env records;
                  ai = inspectAnchor env records bundlePath;
                  a = a0\<lparr>an_AnchorPresent := ai_AnchorPresent ai, an_Status := ai_Status ai, an_Summary := ai_Summary ai,
                         an_MessageImprintVerified := ai_MessageImprintVerified ai, an_SignatureVerified := ai_SignatureVerified ai,
                         an_TSAVerified := (ai_Result ai = AnchorVerified), an_CertChainVerified := ai_CertChainVerified ai,
                         an_Reason := ai_Reason ai,
                         an_AnchorHash := (if an_AnchorHash a0 = [] then ai_AnchorHash ai else an_AnchorHash a0)\<rparr>;
                  report1 = report0\<lparr>rp_Anchoring := a,
                    rp_InformationalNotes := appendUniqueStrings [] (ValidateTimestamps records),
                    rp_Integrity := setIntegritySequenceBounds records (rp_Integrity report0)\<rparr>
              in (case Verify bndl of
                    Some e \<Rightarrow> report1\<lparr>rp_Integrity := (rp_Integrity report1)\<lparr>ir_Error := ve_bundle_text env e\<rparr>,
                                     rp_ResidualRisk := integrityFailureResidualRisk\<rparr>
                  | None \<Rightarrow> report1\<lparr>rp_Integrity := (rp_Integrity report1)\<lparr>ir_ChainValid := True\<rparr>\<rparr>, True)))"

definition candidate_profiles :: "string list" where
  "candidate_profiles = [profileIDPrivilegedToolAction, profileIDDataExport, profileIDPolicyDecision, profileIDHumanOverride, profileIDRAGAnswer]"

definition tagged_profile :: "schemas \<Rightarrow> string \<Rightarrow> profile option" where
  \<comment> \<open>the candidate a purpose tag names\<close>
  "tagged_profile schemas tag =
     (case find (\<lambda>pid. case (ProfileByID schemas pid, map_of schemas pid) of
                         (Some p, Some s) \<Rightarrow> tag = ps_WorkflowClass s \<or> tag = pid | _ \<Rightarrow> False) candidate_profiles of
        None \<Rightarrow> None
      | Some pid \<Rightarrow> ProfileByID schemas pid)"

fun profileFromPurposeTag :: "schemas \<Rightarrow> bundle_record list \<Rightarrow> profile option" where
  "profileFromPurposeTag schemas [] = None"
| "profileFromPurposeTag schemas (r # rs) =
     (case (if Type (Event r) \<noteq> TypeAIRequestReceived then None
            else case Data (Event r) of
                   AMap m \<Rightarrow> (let tag = field_text m ''purpose_tag'' in if tag = [] then None else tagged_profile schemas tag)
                 | _ \<Rightarrow> None) of
        Some p \<Rightarrow> Some p
      | None \<Rightarrow> profileFromPurposeTag schemas rs)"

definition named_profile :: "schemas \<Rightarrow> string \<Rightarrow> profile option" where
  "named_profile schemas pid =
     (case ProfileByID schemas pid of
        Some p \<Rightarrow> Some p
      | None \<Rightarrow> if HasPrefix pid ''atb.profile.'' then None else ProfileByID schemas (''atb.profile.'' @ pid))"

definition matchingProfiles :: "schemas \<Rightarrow> bundle_record list \<Rightarrow> string \<Rightarrow> profile list" where
  "matchingProfiles schemas records profileID =
     (let opt = (\<lambda>x. case x of None \<Rightarrow> [] | Some p \<Rightarrow> [p])
      in if profileID \<noteq> [] then opt (named_profile schemas profileID)
         else case profileFromPurposeTag schemas records of
                Some p \<Rightarrow> [p]
              | None \<Rightarrow>
                  if has_type TypeAIJobScheduled records \<or> has_type TypeAIJobStarted records
                  then opt (ProfileByID schemas profileIDBackgroundAutomation)
                  else if has_type TypeDataExportPrecommit records \<or> has_type TypeDataExportExecuted records
                  then opt (ProfileByID schemas profileIDDataExport)
                  else if has_type TypeAIActionPrecommit records then opt (ProfileByID schemas profileIDPrivilegedToolAction)
                  else if has_type TypeAIModelInvoked records then opt (ProfileByID schemas profileIDRAGAnswer)
                  else [])"

definition recommendationBySubScore :: "(string \<times> string) list" where
  "recommendationBySubScore =
     [(''AC'', ''Add RFC 3161 TSA anchoring for exports and privileged actions.''),
      (''EC'', ''Ensure all critical event types are emitted at workflow call sites.''),
      (''FC'', ''Add missing required fields to event data payloads.''),
      (''GC'', ''Ensure precommit->execute->commit event chain is present for ACP gating.''),
      (''RC'', ''Verify that cross-event relation IDs are consistent (e.g. action_id).''),
      (''SC'', ''Add source signatures from policy engine or action gate.''),
      (''TC'', ''Check event timestamps conform to RFC 3339 and are in causal order.''),
      (''XC'', ''Configure external corroboration: gateway log, DB receipt, or queue dequeue.'')]"

definition deriveResidualRisk :: "(scores \<Rightarrow> scores) \<Rightarrow> cas_result \<Rightarrow> profile_result \<Rightarrow> residual_risk" where
  \<comment> \<open>the first argument is the order in which the loop visits the sub-scores\<close>
  "deriveResidualRisk visit cas profile =
     (let level = (if \<not> pr_Pass profile \<or> f_less (Overall cas) (f_lit (60 / 100)) then ''High''
                   else if f_less (Overall cas) (f_lit (85 / 100)) \<or> pr_RequiredWarnings profile \<noteq> [] then ''Medium'' else ''Low'');
          drivers = SortStrings (map fst (filter (\<lambda>(k, x). f_less x (f_lit (70 / 100))) (visit (SubScores cas))))
      in \<lparr>rk_Level = level, rk_Drivers = drivers,
          rk_RecommendedNextEvidence = appendUniqueStrings [] (List.map_filter (map_of recommendationBySubScore) drivers)\<rparr>)"

definition deriveResidualRiskWithoutCAS :: "profile_result \<Rightarrow> residual_risk" where
  "deriveResidualRiskWithoutCAS profile =
     \<lparr>rk_Level = (if \<not> pr_Pass profile then ''High'' else if pr_RequiredWarnings profile \<noteq> [] then ''Medium'' else ''Low''),
      rk_Drivers = [],
      rk_RecommendedNextEvidence =
        SortStrings (appendUniqueStrings [] (map cf_Detail (pr_CriticalFailures profile) @ pr_RequiredWarnings profile))\<rparr>"

section \<open>Provability gaps\<close>

definition gap :: "string \<Rightarrow> string \<Rightarrow> string \<Rightarrow> string \<Rightarrow> provability_gap" where
  "gap g l m c = \<lparr>pg_Gap = g, pg_Layer = l, pg_Mitigation = m, pg_ClosedWhen = c\<rparr>"

definition provabilityGapBySubScore :: "(string \<times> provability_gap) list" where
  "provabilityGapBySubScore =
     [(''EC'', gap ''event_coverage'' ''L2'' ''Emit all required event types for the selected profile at workflow call sites.''
         ''Profile pass is true and EC sub-score >= 0.85.''),
      (''FC'', gap ''field_completeness'' ''L2'' ''Populate required fields on each event payload.''
         ''No missing_field critical failures and FC sub-score >= 0.85.''),
      (''RC'', gap ''relation_consistency'' ''L2'' ''Keep cross-event IDs consistent (request_id, action_id).''
         ''No relation_violation failures and RC sub-score >= 0.85.''),
      (''TC'', gap ''temporal_consistency'' ''L2'' ''Record events in causal order with RFC 3339 timestamps.''
         ''No temporal_violation failures and TC sub-score >= 0.85.''),
      (''SC'', gap ''source_binding'' ''L3'' ''Add policy_signature and policy_signer_pubkey to ai.policy.decision events.''
         ''SC sub-score >= 0.5 and no policy_signature absent warnings.''),
      (''XC'', gap ''external_corroboration'' ''L4'' ''Append atb.corroboration.external via atb corroborate or an adapter.''
         ''XC sub-score >= 1.0 with at least one valid corroboration event.''),
      (''AC'', gap ''timestamp_anchor'' ''L4'' ''Run atb anchor after snapshot for RFC 3161 timestamp commitment.''
         ''Anchor status is verified and AC sub-score receives anchor credit.''),
      (''GC'', gap ''gating_completeness'' ''L5'' ''Record precommit, execute, and commit events through the ACP gate path.''
         ''GC sub-score >= 0.85 for gated workflow profiles.'')]"

definition integrity_gap :: provability_gap where
  "integrity_gap = gap ''integrity'' ''L1'' ''Restore bundle from trusted backup or re-capture workflow evidence.''
     ''integrity.chain_valid is true.''"

definition retrospective_gap :: provability_gap where
  "retrospective_gap = gap ''retrospective_capture'' ''L5''
     ''Prefer live SDK or capture run instrumentation over chatlog import for primary evidence.''
     ''Bundle provenance is live capture, not retrospective import.''"

definition sub_score_gap :: "string \<Rightarrow> provability_gap list" where
  "sub_score_gap k = (case map_of provabilityGapBySubScore k of None \<Rightarrow> [] | Some g \<Rightarrow> [g])"

fun add_gaps :: "provability_gap list \<Rightarrow> provability_gap list \<Rightarrow> provability_gap list" where
  \<comment> \<open>\<^verbatim>\<open>addGap\<close> for each: unnamed and already present gaps are skipped\<close>
  "add_gaps gs [] = gs"
| "add_gaps gs (g # rest) =
     add_gaps (if pg_Gap g = [] \<or> pg_Gap g \<in> set (map pg_Gap gs) then gs else gs @ [g]) rest"

definition gap_less :: "provability_gap \<Rightarrow> provability_gap \<Rightarrow> bool" where
  "gap_less a b = (if pg_Layer a = pg_Layer b then pg_Gap a < pg_Gap b else pg_Layer a < pg_Layer b)"

definition found_gaps :: "(scores \<Rightarrow> scores) \<Rightarrow> verify_report \<Rightarrow> provability_gap list" where
  \<comment> \<open>the gaps in the order in which they are added\<close>
  "found_gaps visit report =
     (if an_AnchorRequired (rp_Anchoring report) \<and> \<not> an_TSAVerified (rp_Anchoring report) then sub_score_gap ''AC'' else []) @
     (case rp_CAS report of
        None \<Rightarrow> []
      | Some cas \<Rightarrow> concat (map (\<lambda>(k, x). if f_le (f_lit (70 / 100)) x then [] else sub_score_gap k) (visit (SubScores cas)))) @
     (case rp_Profiles report of
        [] \<Rightarrow> []
      | profile # _ \<Rightarrow>
          concat (map (\<lambda>w. if Contains w ''policy_signature absent'' then sub_score_gap ''SC'' else []) (pr_RequiredWarnings profile)) @
          (if rp_Retrospective report then [retrospective_gap] else []))"

definition DeriveProvabilityGaps :: "(scores \<Rightarrow> scores) \<Rightarrow> verify_report \<Rightarrow> provability_gap list" where
  "DeriveProvabilityGaps visit report =
     (if \<not> ir_ChainValid (rp_Integrity report) then [integrity_gap]
      else sort_by gap_less (add_gaps [] (found_gaps visit report)))"

section \<open>Evaluation\<close>

definition provenance_of :: "(string \<times> any) list \<Rightarrow> string" where
  "provenance_of m = (case map_of m ''metadata'' of Some (AMap meta) \<Rightarrow> field_text meta ''bundle_provenance'' | _ \<Rightarrow> [])"

definition isRetrospectiveImportBundle :: "atb_bundle \<Rightarrow> bool" where
  "isRetrospectiveImportBundle b =
     (case Records b of
        [] \<Rightarrow> False
      | r # _ \<Rightarrow>
          if Type (Event r) \<noteq> ManifestEventType then False
          else case Data (Event r) of
                 AMap m \<Rightarrow> provenance_of m = ''retrospective-import''
               | AString s \<Rightarrow>
                   (case json_unmarshal s of Some (AMap m) \<Rightarrow> provenance_of m = ''retrospective-import'' | _ \<Rightarrow> False)
               | _ \<Rightarrow> False)"

definition applyRetrospectiveProvenance :: "atb_bundle \<Rightarrow> verify_report \<Rightarrow> verify_report" where
  "applyRetrospectiveProvenance b report =
     (if \<not> isRetrospectiveImportBundle b then report
      else report\<lparr>rp_Retrospective := True,
             rp_ResidualRisk := (rp_ResidualRisk report)\<lparr>rk_RecommendedNextEvidence :=
               appendUniqueStrings (rk_RecommendedNextEvidence (rp_ResidualRisk report))
                 [''This bundle was constructed from imported logs. TSA anchoring reflects import time, not original event time.'']\<rparr>\<rparr>)"

definition no_profile_cas :: "verify_env \<Rightarrow> bundle_record list \<Rightarrow> bool \<Rightarrow> cas_result" where
  \<comment> \<open>the score reported when no profile applies\<close>
  "no_profile_cas env records chainValid =
     (let sc = computeSC (ve_schemas env) records profileIDPrivilegedToolAction;
          cas = \<lparr>Overall = f_zero, Grade = [], CorroborationBonus = f_zero, EffectiveScore = f_zero, SubScores = [(''SC'', sc)],
                 WeightVector = [], CoverageScore = f_zero, CoverageGrade = [], AssessmentCoverage = f_zero, Dimensions = [],
                 IntegrityValid = chainValid, AssuranceValid = False\<rparr>
      in if f_less f_zero sc \<and> chainValid then cas\<lparr>Overall := sc, EffectiveScore := sc, Grade := gradeFromScore sc\<rparr> else cas)"

definition evaluate_profile :: "verify_env \<Rightarrow> bool \<Rightarrow> bundle_record list \<Rightarrow> profile \<Rightarrow> profile_result" where
  "evaluate_profile env strict records p =
     applyPolicyDecisionSignatureChecks (inspectPolicyDecisionSignatures env records) strict
       (stampProfileResult p (profile_Evaluate p records))"

definition score_first_profile :: "verify_env \<Rightarrow> bundle_record list \<Rightarrow> string \<Rightarrow> profile \<Rightarrow> profile_result \<Rightarrow> verify_report \<Rightarrow> verify_report" where
  \<comment> \<open>the part of the loop that runs for the first profile only\<close>
  "score_first_profile env records bundlePath p result report =
     (let valid = ir_ChainValid (rp_Integrity report)
      in if profileSupportsCAS (ve_schemas env) p then
           (let scores = subScoresForProfile (ve_schemas env) p records (ClassifyAnchor env records bundlePath);
                cas0 = computeCASWithApplicability scores (ve_order1 env (DefaultWeights p)) (ve_order2 env (DefaultWeights p))
                         (casApplicability p) valid;
                assured = valid \<and> pr_Pass result \<and>
                  (an_AnchorRequired (rp_Anchoring report) \<longrightarrow> an_TSAVerified (rp_Anchoring report));
                cas = cas0\<lparr>AssuranceValid := assured\<rparr>
            in report\<lparr>rp_CAS := Some cas,
                 rp_ResidualRisk := (if \<not> valid then integrityFailureResidualRisk else deriveResidualRisk (ve_range env) cas result)\<rparr>)
         else report\<lparr>rp_ResidualRisk := (if \<not> valid then integrityFailureResidualRisk else deriveResidualRiskWithoutCAS result)\<rparr>)"

fun evaluate_profiles :: "verify_env \<Rightarrow> bool \<Rightarrow> bundle_record list \<Rightarrow> string \<Rightarrow> nat \<Rightarrow> profile list \<Rightarrow> verify_report \<Rightarrow> verify_report" where
  \<comment> \<open>the loop over the selected profiles, from index \<open>i\<close>\<close>
  "evaluate_profiles env strict records bundlePath i [] report = report"
| "evaluate_profiles env strict records bundlePath i (p # ps) report =
     (let result = evaluate_profile env strict records p;
          report1 = report\<lparr>rp_Profiles := rp_Profiles report @ [result],
                     rp_Exclusions := appendUniqueStrings (rp_Exclusions report) (BlindSpots p)\<rparr>
      in evaluate_profiles env strict records bundlePath (i + 1) ps
           (if i \<noteq> 0 then report1 else score_first_profile env records bundlePath p result report1))"

definition normaliseProfiles :: "profile option list \<Rightarrow> profile list" where
  "normaliseProfiles ps = List.map_filter (\<lambda>p. p) ps"

definition finish_report :: "verify_env \<Rightarrow> atb_bundle \<Rightarrow> verify_report \<Rightarrow> verify_report" where
  "finish_report env b report =
     (let r = applyRetrospectiveProvenance b report in r\<lparr>rp_ProvabilityGaps := DeriveProvabilityGaps (ve_range env) r\<rparr>)"

definition evaluateLoadedBundle :: "verify_env \<Rightarrow> atb_bundle option \<Rightarrow> string \<Rightarrow> profile option list \<Rightarrow> bool \<Rightarrow> bool \<Rightarrow> bool \<Rightarrow> verify_report" where
  "evaluateLoadedBundle env b bundlePath profiles allApplicable anchorRequired strict =
     (case prepareVerificationReport env b bundlePath of (report0, ok) \<Rightarrow>
        let report1 = report0\<lparr>rp_Anchoring := (rp_Anchoring report0)\<lparr>an_AnchorRequired := anchorRequired\<rparr>\<rparr>
        in case b of
             None \<Rightarrow> report1
           | Some bndl \<Rightarrow>
               (let records = Records bndl; v = ve_verifiers env;
                    report2 = report1\<lparr>rp_BundleSignature := inspectBundleSignature v records,
                                     rp_Signatures := inspectAllBundleSignatures v records\<rparr>;
                    selected = (if allApplicable then matchingProfiles (ve_schemas env) records [] else normaliseProfiles profiles);
                    valid = ir_ChainValid (rp_Integrity report2)
                in finish_report env bndl
                     (if selected = []
                      then report2\<lparr>rp_CAS := (if allApplicable then Some (no_profile_cas env records valid) else None),
                             rp_ResidualRisk := (if \<not> valid then integrityFailureResidualRisk else residualRiskNoMatchingProfile)\<rparr>
                      else evaluate_profiles env strict records bundlePath 0 selected report2)))"

definition applyRequiredAnchorRisk :: "verify_report \<Rightarrow> verify_report" where
  "applyRequiredAnchorRisk report =
     (if \<not> an_AnchorRequired (rp_Anchoring report) \<or> an_TSAVerified (rp_Anchoring report) then report
      else let r1 = report\<lparr>rp_CAS := map_option (\<lambda>c. c\<lparr>AssuranceValid := False\<rparr>) (rp_CAS report)\<rparr>; risk = rp_ResidualRisk r1
           in if rk_Level risk = ''Critical'' then r1
              else r1\<lparr>rp_ResidualRisk := \<lparr>rk_Level = ''High'',
                     rk_Drivers = appendUniqueStrings (rk_Drivers risk) [''required_anchor_unverified''],
                     rk_RecommendedNextEvidence = appendUniqueStrings (rk_RecommendedNextEvidence risk)
                       [''Provide a verifiable timestamp anchor required by the selected verification policy.'']\<rparr>\<rparr>)"

record evaluate_config =
  ec_BundlePath :: string
  ec_Records :: "bundle_record list"
  ec_Profiles :: "profile option list"
  ec_AllApplicable :: bool
  ec_AnchorRequired :: bool
  ec_RequireValidChain :: bool
  ec_StrictSourceSignatures :: bool
  ec_Corroboration :: "corroboration_policy option"

datatype evaluate_error = NoProfiles | NoSource | AllProfilesNil | BundleNotFound string | LoadFailed bundle_error | ChainInvalid string

definition EvaluateBundle :: "verify_env \<Rightarrow> (string \<Rightarrow> (bundle_error + atb_bundle) option) \<Rightarrow> evaluate_config \<Rightarrow> evaluate_error + verify_report" where
  \<comment> \<open>\<open>load\<close> is \<^verbatim>\<open>bundle.Load\<close>; None when there is no such file. The options are fields of the configuration.\<close>
  "EvaluateBundle env load cfg =
     (if ec_Profiles cfg = [] \<and> \<not> ec_AllApplicable cfg then Inl NoProfiles
      else if ec_Records cfg = [] \<and> TrimSpace (ec_BundlePath cfg) = [] then Inl NoSource
      else if ec_Profiles cfg \<noteq> [] \<and> normaliseProfiles (ec_Profiles cfg) = [] \<and> \<not> ec_AllApplicable cfg then Inl AllProfilesNil
      else bind_res
        (if ec_Records cfg \<noteq> [] then Inr \<lparr>Records = ec_Records cfg\<rparr>
         else case load (ec_BundlePath cfg) of
                None \<Rightarrow> Inl (BundleNotFound (ec_BundlePath cfg))
              | Some (Inl e) \<Rightarrow> Inl (LoadFailed e)
              | Some (Inr b) \<Rightarrow> Inr b)
        (\<lambda>b.
           let r0 = applyRequiredAnchorRisk (evaluateLoadedBundle env (Some b) (ec_BundlePath cfg)
                      (map Some (normaliseProfiles (ec_Profiles cfg))) (ec_AllApplicable cfg) (ec_AnchorRequired cfg)
                      (ec_StrictSourceSignatures cfg));
               r = r0\<lparr>rp_ProvabilityGaps := DeriveProvabilityGaps (ve_range env) r0\<rparr>
           in if ec_RequireValidChain cfg \<and> \<not> ir_ChainValid (rp_Integrity r) then Inl (ChainInvalid (ec_BundlePath cfg))
              else Inr (case (ec_Corroboration cfg, rp_CAS r) of
                          (Some p, Some cas) \<Rightarrow>
                            r\<lparr>rp_CAS := Some (apply_corroboration p (an_TSAVerified (rp_Anchoring r))
                                (case rp_BundleSignature r of None \<Rightarrow> False | Some s \<Rightarrow> sr_Verified s)
                                (hasVerifiedSnapshot (Records b)) cas)\<rparr>
                        | _ \<Rightarrow> r)))"

definition verify_Verify :: "verify_env \<Rightarrow> atb_bundle option \<Rightarrow> string \<Rightarrow> string \<Rightarrow> verify_report" where
  "verify_Verify env b bundlePath profileID =
     (case b of
        None \<Rightarrow> evaluateLoadedBundle env None bundlePath [] (profileID = []) False False
      | Some bndl \<Rightarrow>
          if TrimSpace profileID = [] then evaluateLoadedBundle env b bundlePath [] True False False
          else case named_profile (ve_schemas env) profileID of
                 None \<Rightarrow> evaluateLoadedBundle env b bundlePath [] False False False
               | Some p \<Rightarrow> evaluateLoadedBundle env b bundlePath [Some p] False False False)"

definition VerifyWithProfile :: "verify_env \<Rightarrow> atb_bundle option \<Rightarrow> string \<Rightarrow> profile option \<Rightarrow> verify_report" where
  "VerifyWithProfile env b bundlePath p =
     evaluateLoadedBundle env b bundlePath (case p of None \<Rightarrow> [] | Some _ \<Rightarrow> [p]) False False False"

end
