(* ===== verification/Go_Path.thy ===== *)
theory Go_Path
  imports Go_Prelude
begin

text \<open>
  The lexical part of the package \<^verbatim>\<open>path/filepath\<close> on Unix, as far as the program uses it: \<^verbatim>\<open>Base\<close>, \<^verbatim>\<open>Ext\<close>,
  \<^verbatim>\<open>Clean\<close>, \<^verbatim>\<open>Dir\<close>, \<^verbatim>\<open>Join\<close> and \<^verbatim>\<open>Abs\<close> at a given working directory, with the facts the components need: a cleaned
  element is never empty, a base name has no separator.
\<close>

definition TrimSuffix :: "string \<Rightarrow> string \<Rightarrow> string" where
  "TrimSuffix s p = (if HasSuffix s p then take (length s - length p) s else s)"

abbreviation sep :: char where "sep \<equiv> CHR ''/''"

definition path_Base :: "string \<Rightarrow> string" where
  "path_Base p =
     (if p = [] then ''.''
      else let b = rev (takeWhile (\<lambda>c. c \<noteq> sep) (dropWhile (\<lambda>c. c = sep) (rev p)))
           in if b = [] then [sep] else b)"

fun Ext_rev :: "string \<Rightarrow> string \<Rightarrow> string" where
  \<comment> \<open>from the end of the path: the last dot after the last separator\<close>
  "Ext_rev [] acc = []"
| "Ext_rev (c # s) acc = (if c = sep then [] else if c = CHR ''.'' then c # acc else Ext_rev s (c # acc))"

definition path_Ext :: "string \<Rightarrow> string" where
  "path_Ext p = Ext_rev (rev p) []"

definition clean_element :: "bool \<Rightarrow> string \<Rightarrow> string list \<Rightarrow> string list" where
  \<comment> \<open>one element against the elements kept so far, the last one first\<close>
  "clean_element rooted e kept =
     (if e = [] \<or> e = ''.'' then kept
      else if e = ''..'' then
        (case kept of
           [] \<Rightarrow> if rooted then [] else [''..'']
         | k # ks \<Rightarrow> if k = ''..'' then ''..'' # kept else ks)
      else e # kept)"

definition path_Clean :: "string \<Rightarrow> string" where
  "path_Clean p =
     (let rooted = HasPrefix p [sep];
          es = rev (fold (clean_element rooted) (Split p sep) [])
      in if rooted then sep # Join es [sep] else if es = [] then ''.'' else Join es [sep])"

definition path_Dir :: "string \<Rightarrow> string" where
  "path_Dir p = path_Clean (rev (dropWhile (\<lambda>c. c \<noteq> sep) (rev p)))"

definition path_Join :: "string list \<Rightarrow> string" where
  "path_Join es = (case dropWhile (\<lambda>e. e = []) es of [] \<Rightarrow> [] | fs \<Rightarrow> path_Clean (Join fs [sep]))"

definition path_Abs :: "string option \<Rightarrow> string \<Rightarrow> string option" where
  \<comment> \<open>at the working directory, None when it cannot be determined\<close>
  "path_Abs cwd p =
     (if HasPrefix p [sep] then Some (path_Clean p)
      else case cwd of None \<Rightarrow> None | Some d \<Rightarrow> Some (path_Join [d, p]))"

lemma path_Base_nonempty: "path_Base p \<noteq> []"
  by (simp add: path_Base_def Let_def)

lemma path_Base_no_sep: "sep \<in> set (path_Base p) \<Longrightarrow> path_Base p = [sep]"
  by (auto simp: path_Base_def Let_def split: if_splits dest: set_takeWhileD)

lemma clean_elements: "\<lbrakk>e \<in> set (fold (clean_element rooted) es kept); \<forall>k \<in> set kept. k \<noteq> [] \<and> k \<noteq> ''.''\<rbrakk> \<Longrightarrow> e \<noteq> [] \<and> e \<noteq> ''.''"
proof (induction es arbitrary: kept)
  case (Cons f es)
  have "\<forall>k \<in> set (clean_element rooted f kept). k \<noteq> [] \<and> k \<noteq> ''.''"
    using Cons.prems(2) by (auto simp: clean_element_def split: list.splits if_splits)
  with Cons.IH Cons.prems(1) show ?case by (metis fold_simps(2))
qed auto

lemma TrimSuffix_length: "length (TrimSuffix s p) \<le> length s"
  by (simp add: TrimSuffix_def)

end
