(* ===== verification/Verifier_Report.thy ===== *)
theory Verifier_Report
  imports Verify_Report Go_Path
begin

text \<open>
  The published report with its gate and obligations (\<^verbatim>\<open>internal/verify/report.go\<close>), and the resolution of a profile
  specification to a built-in profile or a profile file (\<^verbatim>\<open>internal/verify/profile_loader.go\<close>). YAML decoding and
  file reading are arguments.
\<close>

section \<open>The gate\<close>

record gate_result =
  gt_Pass :: bool
  gt_ChainValid :: bool
  gt_ProfilePass :: bool
  gt_AnchorRequired :: bool
  gt_AnchorPass :: "bool option"

definition gateResultFromVerify :: "verify_report \<Rightarrow> bool \<Rightarrow> gate_result" where
  "gateResultFromVerify r profilePass =
     (let a = rp_Anchoring r; valid = ir_ChainValid (rp_Integrity r); anchorPass = (an_TSAVerified a \<or> an_Status a = ''verified'');
          base = (valid \<and> profilePass)
      in if an_AnchorRequired a
         then \<lparr>gt_Pass = (base \<and> anchorPass), gt_ChainValid = valid, gt_ProfilePass = profilePass, gt_AnchorRequired = True,
               gt_AnchorPass = Some anchorPass\<rparr>
         else \<lparr>gt_Pass = base, gt_ChainValid = valid, gt_ProfilePass = profilePass, gt_AnchorRequired = False, gt_AnchorPass = None\<rparr>)"

section \<open>Obligations\<close>

definition mergeObligation :: "obligation_result \<Rightarrow> obligation_result \<Rightarrow> obligation_result" where
  "mergeObligation current nxt =
     (let keep = (\<lambda>(new :: string) old. if new \<noteq> [] then new else old)
      in current\<lparr>ob_Kind := keep (ob_Kind nxt) (ob_Kind current), ob_EventType := keep (ob_EventType nxt) (ob_EventType current),
                 ob_Severity := keep (ob_Severity nxt) (ob_Severity current), ob_Status := keep (ob_Status nxt) (ob_Status current),
                 ob_Message := keep (ob_Message nxt) (ob_Message current)\<rparr>)"

fun upsertObligation :: "obligation_result list \<Rightarrow> obligation_result \<Rightarrow> obligation_result list" where
  "upsertObligation [] o' = [o']"
| "upsertObligation (x # xs) o' = (if ob_ID x \<noteq> ob_ID o' then x # upsertObligation xs o' else mergeObligation x o' # xs)"

definition failureObligationID :: "critical_failure \<Rightarrow> nat \<Rightarrow> string" where
  "failureObligationID f i =
     (if TrimSpace (cf_ID f) \<noteq> [] then cf_ID f else ''failure:'' @ cf_Kind f @ '':'' @ show_nat (i + 1))"

fun Cut :: "string \<Rightarrow> string \<Rightarrow> (string \<times> string) option" where
  \<comment> \<open>\<^verbatim>\<open>strings.Cut\<close>; None when the separator does not occur\<close>
  "Cut [] p = (if p = [] then Some ([], []) else None)"
| "Cut (c # s) p = (if HasPrefix (c # s) p then Some ([], drop (length p) (c # s)) else map_option (\<lambda>(a, b). (c # a, b)) (Cut s p))"

definition failureEventType :: "string \<Rightarrow> string" where
  "failureEventType i =
     (if HasPrefix i ''required:'' then
        (let v = TrimPrefix i ''required:'' in case Cut v '':field:'' of Some (t, _) \<Rightarrow> t | None \<Rightarrow> v)
      else if HasPrefix i ''optional:'' then TrimPrefix i ''optional:''
      else if HasPrefix i ''required_when:'' then
        (case Cut (TrimPrefix i ''required_when:'') '':when:'' of Some (t, _) \<Rightarrow> t | None \<Rightarrow> [])
      else [])"

definition failure_obligation :: "nat \<times> critical_failure \<Rightarrow> obligation_result" where
  "failure_obligation = (\<lambda>(i, f). \<lparr>ob_ID = failureObligationID f i, ob_Kind = cf_Kind f, ob_EventType = failureEventType (cf_ID f),
     ob_Severity = ''critical'', ob_Status = ''fail'', ob_Message = cf_Detail f\<rparr>)"

definition reportObligations :: "profile_result \<Rightarrow> obligation_result list" where
  "reportObligations p =
     foldl upsertObligation (pr_Obligations p)
       (map failure_obligation (enumerate 0 (pr_CriticalFailures p)) @ map warning_obligation (enumerate 0 (pr_RequiredWarnings p)))"

section \<open>The published report\<close>

record verifier_report =
  vr_BundlePath :: string
  vr_Retrospective :: bool
  vr_ProfileID :: string
  vr_ProfileVersion :: int
  vr_Pass :: bool
  vr_GateResult :: gate_result
  vr_CASScore :: float64
  vr_CASGrade :: string
  vr_CorroborationBonus :: float64
  vr_EffectiveScore :: float64
  vr_SubScores :: scores
  vr_CoverageScore :: float64
  vr_CoverageGrade :: string
  vr_AssessmentCoverage :: float64
  vr_DimensionAssessments :: "(string \<times> dimension_assessment) list"
  vr_IntegrityValid :: bool
  vr_AssuranceValid :: bool
  vr_Failures :: "critical_failure list"
  vr_Obligations :: "obligation_result list"
  vr_Warnings :: "string list"
  vr_Notes :: "string list"
  vr_Exclusions :: "string list"
  vr_Signatures :: "signature_provenance list"
  vr_ProvabilityGaps :: "provability_gap list"
  vr_ResidualRisk :: residual_risk

definition integrity_failure :: "verify_report \<Rightarrow> critical_failure" where
  "integrity_failure r =
     (let detail = TrimSpace (ir_Error (rp_Integrity r))
      in \<lparr>cf_ID = ''integrity:chain'', cf_Kind = ''integrity_failure'',
          cf_Detail = (if detail = [] then ''bundle hash chain is invalid'' else detail)\<rparr>)"

definition f_is_zero :: "float64 \<Rightarrow> bool" where
  "f_is_zero x = (f_le x f_zero \<and> f_le f_zero x)"

definition add_cas :: "bool \<Rightarrow> cas_result \<Rightarrow> verifier_report \<Rightarrow> verifier_report" where
  "add_cas chainValid cas v0 =
     (let v1 = v0\<lparr>vr_CASScore := Overall cas, vr_CASGrade := Grade cas, vr_IntegrityValid := chainValid,
                 vr_AssuranceValid := AssuranceValid cas\<rparr>;
          v2 = (if IntegrityValid cas
                then v1\<lparr>vr_CoverageScore := CoverageScore cas, vr_CoverageGrade := CoverageGrade cas,
                        vr_AssessmentCoverage := AssessmentCoverage cas, vr_DimensionAssessments := Dimensions cas\<rparr> else v1);
          v3 = (if \<not> f_is_zero (CorroborationBonus cas)
                then v2\<lparr>vr_CorroborationBonus := CorroborationBonus cas, vr_EffectiveScore := EffectiveScore cas\<rparr> else v2)
      in v3\<lparr>vr_SubScores := SubScores cas\<rparr>)"

definition ReportFromVerify :: "verify_report \<Rightarrow> verifier_report" where
  "ReportFromVerify r =
     (let valid = ir_ChainValid (rp_Integrity r);
          v0 = \<lparr>vr_BundlePath = rp_BundlePath r, vr_Retrospective = rp_Retrospective r, vr_ProfileID = [], vr_ProfileVersion = 0,
                vr_Pass = False, vr_GateResult = gateResultFromVerify r False, vr_CASScore = f_zero, vr_CASGrade = [],
                vr_CorroborationBonus = f_zero, vr_EffectiveScore = f_zero, vr_SubScores = [], vr_CoverageScore = f_zero,
                vr_CoverageGrade = [], vr_AssessmentCoverage = f_zero, vr_DimensionAssessments = [], vr_IntegrityValid = valid,
                vr_AssuranceValid = False, vr_Failures = (if valid then [] else [integrity_failure r]), vr_Obligations = [],
                vr_Warnings = [], vr_Notes = [], vr_Exclusions = rp_Exclusions r, vr_Signatures = rp_Signatures r,
                vr_ProvabilityGaps = [], vr_ResidualRisk = rp_ResidualRisk r\<rparr>;
          v1 = (case rp_CAS r of None \<Rightarrow> v0 | Some cas \<Rightarrow> add_cas valid cas v0)
      in case rp_Profiles r of
           [] \<Rightarrow> v1
         | p # _ \<Rightarrow>
             (let gate = gateResultFromVerify r (pr_Pass p)
              in v1\<lparr>vr_GateResult := gate, vr_ProfileID := pr_ProfileID p, vr_ProfileVersion := pr_Version p, vr_Pass := gt_Pass gate,
                    vr_Failures := vr_Failures v1 @ pr_CriticalFailures p, vr_Obligations := reportObligations p,
                    vr_Warnings := pr_RequiredWarnings p,
                    vr_Notes := pr_InformationalNotes p @
                      (case rp_CAS r of
                         Some cas \<Rightarrow> if \<not> IntegrityValid cas then [''coverage_score omitted because integrity_valid is false''] else []
                       | None \<Rightarrow> []),
                    vr_ProvabilityGaps := rp_ProvabilityGaps r\<rparr>))"

section \<open>Profile files\<close>

datatype profile_format = UnknownFormat | SchemaFormat | LegacyFormat | DSLFormat

datatype profile_error =
    UnrecognisedProfile string
  | ProfileUnreadable string
  | ProfileYAML string
  | ProfileSchemaError string schema_error
  | ProfileMissingField string string
  | NoCriticalObligation string
  | ObligationEventType string string nat
  | RelationField string nat string

text \<open>
  The three decodings of YAML content and the embedded templates: \<open>yaml_map\<close> the keys of the top-level mapping,
  \<open>yaml_legacy\<close>, \<open>yaml_schema\<close> and \<open>yaml_dsl\<close> the structs.
\<close>

record profile_env =
  yaml_map :: "string \<Rightarrow> string list option"
  yaml_legacy :: "string \<Rightarrow> profile_config option"
  yaml_schema :: "string \<Rightarrow> profile_schema option"
  yaml_dsl :: "string \<Rightarrow> dsl_profile option"
  pe_templates :: templates
  pe_schemas :: schemas
  pe_read :: "string \<Rightarrow> string option"

definition detectProfileFileFormat :: "profile_env \<Rightarrow> string \<Rightarrow> profile_format option" where
  "detectProfileFileFormat env content =
     map_option (\<lambda>ks.
       let hasAny = (\<lambda>names. list_ex (\<lambda>n. n \<in> set ks) names)
       in if hasAny [''required_events'', ''warning_events'', ''cas_weights''] then DSLFormat
          else if hasAny [''version'', ''workflow_class'', ''required'', ''optional''] then SchemaFormat
          else if hasAny [''display_name'', ''detect'', ''obligations''] then LegacyFormat
          else UnknownFormat) (yaml_map env content)"

definition check_indexed :: "(nat \<times> 'a \<Rightarrow> 'e option) \<Rightarrow> 'a list \<Rightarrow> 'e option" where
  "check_indexed f xs = first_error f (enumerate 0 xs)"

definition config_validate :: "string \<Rightarrow> profile_config \<Rightarrow> profile_error option" where
  "config_validate path c =
     (let blank = (\<lambda>s. TrimSpace s = []);
          obligation = (\<lambda>section (i, o'). if blank (rc_EventType o') then Some (ObligationEventType path section i) else None)
      in if blank (pc_ID c) then Some (ProfileMissingField path ''id'')
         else if blank (pc_DisplayName c) then Some (ProfileMissingField path ''display_name'')
         else if pc_Critical c = [] then Some (NoCriticalObligation path)
         else or_else (check_indexed (obligation ''critical'') (pc_Critical c))
           (or_else (check_indexed (obligation ''required'') (pc_Required c))
              (check_indexed (\<lambda>(i, r). if blank (rl_From r) then Some (RelationField path i ''from'')
                                      else if blank (rl_To r) then Some (RelationField path i ''to'') else None) (pc_Relations c))))"

definition config_normalise :: "profile_config \<Rightarrow> profile_config" where
  "config_normalise c =
     (let req = (\<lambda>o'. o'\<lparr>rc_EventType := TrimSpace (rc_EventType o'), rc_Message := TrimSpace (rc_Message o')\<rparr>)
      in c\<lparr>pc_ID := TrimSpace (pc_ID c), pc_DisplayName := TrimSpace (pc_DisplayName c), pc_Description := TrimSpace (pc_Description c),
           pc_EventTypes := map TrimSpace (pc_EventTypes c), pc_Critical := map req (pc_Critical c), pc_Required := map req (pc_Required c),
           pc_Relations := map (\<lambda>r. r\<lparr>rl_From := TrimSpace (rl_From r), rl_To := TrimSpace (rl_To r), rl_Message := TrimSpace (rl_Message r)\<rparr>)
             (pc_Relations c)\<rparr>)"

definition wrap_schema :: "string \<Rightarrow> schema_error + profile_schema \<Rightarrow> profile_error + profile" where
  "wrap_schema path r = (case r of Inl e \<Rightarrow> Inl (ProfileSchemaError path e) | Inr s \<Rightarrow> Inr (SchemaFile s))"

definition loadSchemaProfileFromFile :: "profile_env \<Rightarrow> string \<Rightarrow> string \<Rightarrow> profile_error + profile" where
  "loadSchemaProfileFromFile env path content = wrap_schema path (ParseSchema (yaml_schema env) content)"

definition loadDSLProfileFromFile :: "profile_env \<Rightarrow> string \<Rightarrow> string \<Rightarrow> profile_error + profile" where
  "loadDSLProfileFromFile env path content = wrap_schema path (ParseDSLProfile (yaml_dsl env) (pe_templates env) content)"

definition loadProfileFromFile :: "profile_env \<Rightarrow> string \<Rightarrow> profile_error + profile" where
  "loadProfileFromFile env path =
     (case pe_read env path of
        None \<Rightarrow> Inl (ProfileUnreadable path)
      | Some content \<Rightarrow>
          (case detectProfileFileFormat env content of
             None \<Rightarrow> Inl (ProfileYAML path)
           | Some DSLFormat \<Rightarrow> loadDSLProfileFromFile env path content
           | Some SchemaFormat \<Rightarrow> loadSchemaProfileFromFile env path content
           | Some f \<Rightarrow>
               (case yaml_legacy env content of
                  None \<Rightarrow> if f = LegacyFormat then Inl (ProfileYAML path) else loadSchemaProfileFromFile env path content
                | Some c \<Rightarrow>
                    (case config_validate path c of
                       Some e \<Rightarrow> if f \<noteq> LegacyFormat then loadSchemaProfileFromFile env path content else Inl e
                     | None \<Rightarrow> Inr (LegacyFile (config_normalise c))))))"

definition isProfilePath :: "string \<Rightarrow> bool" where
  "isProfilePath spec =
     (if CHR ''/'' \<in> set spec \<or> CHR 0x5C \<in> set spec then True
      else ToLower (path_Ext spec) \<in> {''.yaml'', ''.yml''})"

definition ResolveProfile :: "profile_env \<Rightarrow> string \<Rightarrow> profile_error + profile option" where
  \<comment> \<open>\<open>Inr None\<close> is the nil profile of an empty specification\<close>
  "ResolveProfile env spec0 =
     (let spec = TrimSpace spec0
      in if spec = [] then Inr None
         else if isProfilePath spec then bind_res (loadProfileFromFile env spec) (\<lambda>p. Inr (Some p))
         else case ProfileByID (pe_schemas env) spec of
                None \<Rightarrow> Inl (UnrecognisedProfile spec)
              | Some p \<Rightarrow> Inr (Some p))"

end
