(* ===== verification/Report_Props.thy ===== *)
theory Report_Props
  imports Verifier_Report Profile_Props Bundle_Props "HOL-Library.Product_Lexorder" "HOL-Library.Multiset"
begin

text \<open>
  Properties of the verification report: what a passing gate means for the bundle, that risk and gaps do not
  depend on the order in which Go visits its maps, what the timestamp check accepts, and two defects of the
  published report.
\<close>

section \<open>What a passing profile means\<close>

definition legacy_met :: "profile_config \<Rightarrow> bundle_record list \<Rightarrow> bool" where
  \<comment> \<open>every critical event occurs, and every record on the right of a relation has an earlier one on its left\<close>
  "legacy_met c records =
     ((\<forall>o'\<in>set (pc_Critical c). \<exists>r\<in>set records. Type (Event r) = rc_EventType o') \<and>
      (\<forall>l\<in>set (pc_Relations c). \<forall>t\<in>set records. Type (Event t) = rl_To l \<longrightarrow>
         (\<exists>f\<in>set records. Type (Event f) = rl_From l \<and> Sequence (Event f) < Sequence (Event t))))"

fun profile_met :: "profile \<Rightarrow> bundle_record list \<Rightarrow> bool" where
  "profile_met (Builtin pid s) records = schema_met s records"
| "profile_met (SchemaFile s) records = schema_met s records"
| "profile_met (LegacyFile c) records = legacy_met c records"

definition signature_met :: "bool \<Rightarrow> policy_error option \<Rightarrow> bool" where
  \<comment> \<open>a signature that verifies, or one that is absent where this is tolerated\<close>
  "signature_met strict e = (e = None \<or> \<not> strict \<and> e = Some SignatureAbsent)"

definition decision_met :: "verify_env \<Rightarrow> bool \<Rightarrow> bundle_record \<Rightarrow> bool" where
  "decision_met env strict r =
     (\<exists>m. Data (Event r) = AMap m \<and> signature_met strict (VerifyPolicyDecision (ed_verify (ve_verifiers env)) m) \<and>
       (field_text m FieldPolicyDocHash \<noteq> [] \<longrightarrow> signature_met strict (VerifyPolicyDocSignature (ed_verify (ve_verifiers env)) m)))"

definition anchor_met :: "verify_env \<Rightarrow> bundle_record list \<Rightarrow> string \<Rightarrow> bool" where
  \<comment> \<open>the token of the latest anchor is valid for the bytes of the bundle before it\<close>
  "anchor_met env records path =
     (\<exists>i payload token raw v. latestAnchorTokenBytes records = Some (i, payload, Inr token) \<and> token \<noteq> [] \<and> TrimSpace path \<noteq> [] \<and>
        save_lines (take i records) = Some raw \<and> ve_token env token (Sum256 raw) = (v, None))"

lemma relationSatisfied_iff:
  "relationSatisfied fs ts \<longleftrightarrow> (\<forall>t\<in>set ts. \<exists>f\<in>set fs. Sequence (Event f) < Sequence (Event t))"
  by (auto simp: relationSatisfied_def list_all_iff list_ex_iff Let_def)

lemma sort_by_Nil: "sort_by lt xs = [] \<longleftrightarrow> xs = []"
  using length_sort_by [of lt xs] by (metis length_0_conv)

lemma external_failures:
  "pr_CriticalFailures (external_Evaluate c records) = [] \<longleftrightarrow> legacy_met c records"
  by (auto simp: external_Evaluate_def finaliseProfileResult_def Let_def sort_by_Nil filter_empty_conv legacy_met_def
      relationSatisfied_iff indexRecordsByType_def) blast+

lemma Evaluate_failures: "ev_CriticalFailures (Evaluate s records) = [] \<longleftrightarrow> schema_met s records"
  unfolding Evaluate_pass [symmetric]
  by (simp add: Evaluate_def Let_def finaliseEvaluationResult_def sort_by_Nil)

lemma profile_failures:
  "pr_CriticalFailures (profile_Evaluate p records) = [] \<longleftrightarrow> profile_met p records"
  by (cases p) (auto simp: evaluateSchemaProfile_def Let_def external_failures Evaluate_failures)

lemma stamp_failures [simp]: "pr_CriticalFailures (stampProfileResult p res) = pr_CriticalFailures res"
  by (simp add: stampProfileResult_def Let_def)

lemma absence_texts:
  "absence_warning ''ai.policy.decision: policy_signature absent''"
  "absence_warning ''ai.policy.decision: policy_doc_signature absent''"
  by code_simp+

definition strict_failures :: "bool \<Rightarrow> signature_findings \<Rightarrow> bool" where
  \<comment> \<open>whether the findings count as a failure\<close>
  "strict_failures strict fs = (case fs of (w, n, f) \<Rightarrow> f \<noteq> [] \<or> strict \<and> filter absence_warning w \<noteq> [])"

lemma signature_outcome_met:
  "absence_warning w \<Longrightarrow> strict_failures strict (signature_outcome env e n w k d) \<longleftrightarrow> \<not> signature_met strict e"
  by (auto simp: strict_failures_def signature_outcome_def signature_met_def split: option.splits)

lemma strict_failures_append:
  "strict_failures strict (w1 @ w2, n1 @ n2, f1 @ f2) \<longleftrightarrow> strict_failures strict (w1, n1, f1) \<or> strict_failures strict (w2, n2, f2)"
  by (auto simp: strict_failures_def)

lemma inspect_decision_met: "strict_failures strict (inspect_decision env r) \<longleftrightarrow> \<not> decision_met env strict r"
proof (cases "Data (Event r)")
  case (AMap m)
  define s1 where "s1 = signature_outcome env (VerifyPolicyDecision (ed_verify (ve_verifiers env)) m) ''ai.policy.decision: signature verified''
    ''ai.policy.decision: policy_signature absent'' ''signature_verification'' ''ai.policy.decision: signature verification failed: ''"
  define s2 where "s2 = (if field_text m FieldPolicyDocHash = [] then ([], [], [])
    else signature_outcome env (VerifyPolicyDocSignature (ed_verify (ve_verifiers env)) m) ''ai.policy.decision: policy_doc_signature verified''
      ''ai.policy.decision: policy_doc_signature absent'' ''policy_doc_signature_verification''
      ''ai.policy.decision: policy_doc_signature verification failed: '')"
  have "strict_failures strict (inspect_decision env r) \<longleftrightarrow> strict_failures strict s1 \<or> strict_failures strict s2"
    by (simp add: inspect_decision_def AMap s1_def [symmetric] s2_def [symmetric] case_prod_beta strict_failures_append Let_def)
  moreover have "strict_failures strict ([], [], []) = False" by (simp add: strict_failures_def)
  ultimately show ?thesis
    by (auto simp: s1_def s2_def signature_outcome_met absence_texts decision_met_def AMap)
qed (auto simp: inspect_decision_def decision_met_def strict_failures_def)

lemma inspect_all_met:
  "strict_failures strict (inspectPolicyDecisionSignatures env records) \<longleftrightarrow>
     (\<exists>r\<in>set records. Type (Event r) = TypeAIPolicyDecision \<and> \<not> decision_met env strict r)"
proof -
  have *: "strict_failures strict (concat (map (\<lambda>(w, n, f). w) fs), concat (map (\<lambda>(w, n, f). n) fs), concat (map (\<lambda>(w, n, f). f) fs)) \<longleftrightarrow>
      (\<exists>x\<in>set fs. strict_failures strict x)" for fs
    by (induction fs) (auto simp: strict_failures_def)
  show ?thesis unfolding inspectPolicyDecisionSignatures_def Let_def * by (auto simp: inspect_decision_met)
qed

lemma checked_failures:
  "pr_Pass (applyPolicyDecisionSignatureChecks fs strict res) \<longleftrightarrow> pr_CriticalFailures res = [] \<and> \<not> strict_failures strict fs"
  by (auto simp: applyPolicyDecisionSignatureChecks_def finaliseProfileResult_def strict_failures_def Let_def split: prod.splits)

lemma evaluate_profile_pass:
  "pr_Pass (evaluate_profile env strict records p) \<longleftrightarrow>
     profile_met p records \<and> (\<forall>r\<in>set records. Type (Event r) = TypeAIPolicyDecision \<longrightarrow> decision_met env strict r)"
  by (auto simp: evaluate_profile_def checked_failures profile_failures inspect_all_met)

section \<open>What a verified anchor means\<close>

lemma inspectAnchor_verified:
  "(ai_Result (inspectAnchor env records path) = AnchorVerified \<longleftrightarrow> anchor_met env records path) \<and>
   (ai_Status (inspectAnchor env records path) = ''verified'' \<longleftrightarrow> anchor_met env records path)"
proof (cases "latestAnchorTokenBytes records")
  case None
  then show ?thesis by (simp add: inspectAnchor_def anchor_met_def newFailedAnchorInspection_def)
next
  case (Some x)
  obtain i payload t where x: "x = (i, payload, t)" by (cases x) auto
  show ?thesis
  proof (cases t)
    case (Inl e)
    with Some x show ?thesis by (simp add: inspectAnchor_def anchor_met_def newFailedAnchorInspection_def)
  next
    case (Inr token)
    show ?thesis
    proof (cases "token = [] \<or> TrimSpace path = [] \<or> save_lines (take i records) = None")
      case True
      with Some x Inr show ?thesis
        by (auto simp: inspectAnchor_def anchor_met_def newFailedAnchorInspection_def hashBundleSnapshotBeforeAnchor_def)
    next
      case False
      then obtain raw where raw: "save_lines (take i records) = Some raw" by auto
      obtain v e where v: "ve_token env token (Sum256 raw) = (v, e)" by force
      with False raw Some x Inr show ?thesis
        by (cases e) (auto simp: inspectAnchor_def anchor_met_def hashBundleSnapshotBeforeAnchor_def Let_def)
    qed
  qed
qed

section \<open>The report of an evaluation\<close>

definition selected_profiles :: "verify_env \<Rightarrow> evaluate_config \<Rightarrow> atb_bundle \<Rightarrow> profile list" where
  "selected_profiles env cfg b =
     (if ec_AllApplicable cfg then matchingProfiles (ve_schemas env) (Records b) [] else normaliseProfiles (ec_Profiles cfg))"

definition evaluated_bundle :: "(string \<Rightarrow> (bundle_error + atb_bundle) option) \<Rightarrow> evaluate_config \<Rightarrow> atb_bundle option" where
  "evaluated_bundle load cfg =
     (if ec_Records cfg \<noteq> [] then Some \<lparr>Records = ec_Records cfg\<rparr>
      else case load (ec_BundlePath cfg) of Some (Inr b) \<Rightarrow> Some b | _ \<Rightarrow> None)"

lemma score_first_profile_fields [simp]:
  "rp_Integrity (score_first_profile env recs path p res r) = rp_Integrity r"
  "rp_Anchoring (score_first_profile env recs path p res r) = rp_Anchoring r"
  "rp_Profiles (score_first_profile env recs path p res r) = rp_Profiles r"
  by (auto simp: score_first_profile_def Let_def)

lemma evaluate_profiles_fields:
  "rp_Integrity (evaluate_profiles env strict recs path i ps r) = rp_Integrity r"
  "rp_Anchoring (evaluate_profiles env strict recs path i ps r) = rp_Anchoring r"
  "rp_Profiles (evaluate_profiles env strict recs path i ps r) = rp_Profiles r @ map (evaluate_profile env strict recs) ps"
  "i \<noteq> 0 \<Longrightarrow> rp_CAS (evaluate_profiles env strict recs path i ps r) = rp_CAS r"
  by (induction ps arbitrary: i r) (simp_all add: Let_def)

lemma finish_report_fields [simp]:
  "rp_Integrity (finish_report env b r) = rp_Integrity r" "rp_Anchoring (finish_report env b r) = rp_Anchoring r"
  "rp_Profiles (finish_report env b r) = rp_Profiles r" "rp_CAS (finish_report env b r) = rp_CAS r"
  by (auto simp: finish_report_def applyRetrospectiveProvenance_def Let_def)

lemma bounds_valid [simp]: "ir_ChainValid (setIntegritySequenceBounds rs x) = ir_ChainValid x"
  by (simp add: setIntegritySequenceBounds_def)

lemma prepared_fields:
  assumes "prepareVerificationReport env (Some b) path = (r, ok)"
  shows "ir_ChainValid (rp_Integrity r) \<longleftrightarrow> Verify b = None" "an_TSAVerified (rp_Anchoring r) \<longleftrightarrow> anchor_met env (Records b) path"
    "an_Status (rp_Anchoring r) = ''verified'' \<longleftrightarrow> anchor_met env (Records b) path" "rp_Profiles r = []" "rp_CAS r = None"
  using assms inspectAnchor_verified [of env "Records b" path]
  by (auto simp: prepareVerificationReport_def Let_def split: option.splits)

lemma evaluated_fields:
  assumes "r = evaluateLoadedBundle env (Some b) path ps al req strict"
    and "sel = (if al then matchingProfiles (ve_schemas env) (Records b) [] else normaliseProfiles ps)"
  shows "ir_ChainValid (rp_Integrity r) \<longleftrightarrow> Verify b = None" "an_TSAVerified (rp_Anchoring r) \<longleftrightarrow> anchor_met env (Records b) path"
    "an_Status (rp_Anchoring r) = ''verified'' \<longleftrightarrow> anchor_met env (Records b) path" "an_AnchorRequired (rp_Anchoring r) = req"
    "rp_Profiles r = map (evaluate_profile env strict (Records b)) sel"
    "sel = p # sel' \<Longrightarrow> rp_CAS r = Some c \<Longrightarrow>
       AssuranceValid c \<longleftrightarrow> Verify b = None \<and> pr_Pass (evaluate_profile env strict (Records b) p) \<and> (req \<longrightarrow> anchor_met env (Records b) path)"
proof -
  obtain r0 ok where p: "prepareVerificationReport env (Some b) path = (r0, ok)" by force
  note f = prepared_fields [OF p]
  have r: "r = finish_report env b
      (let report2 = r0\<lparr>rp_Anchoring := (rp_Anchoring r0)\<lparr>an_AnchorRequired := req\<rparr>,
             rp_BundleSignature := inspectBundleSignature (ve_verifiers env) (Records b),
             rp_Signatures := inspectAllBundleSignatures (ve_verifiers env) (Records b)\<rparr>
       in if sel = [] then report2\<lparr>rp_CAS := (if al then Some (no_profile_cas env (Records b) (ir_ChainValid (rp_Integrity report2))) else None),
               rp_ResidualRisk := (if \<not> ir_ChainValid (rp_Integrity report2) then integrityFailureResidualRisk else residualRiskNoMatchingProfile)\<rparr>
          else evaluate_profiles env strict (Records b) path 0 sel report2)"
    unfolding assms by (simp add: evaluateLoadedBundle_def p Let_def)
  show "ir_ChainValid (rp_Integrity r) \<longleftrightarrow> Verify b = None" "an_TSAVerified (rp_Anchoring r) \<longleftrightarrow> anchor_met env (Records b) path"
    "an_Status (rp_Anchoring r) = ''verified'' \<longleftrightarrow> anchor_met env (Records b) path" "an_AnchorRequired (rp_Anchoring r) = req"
    "rp_Profiles r = map (evaluate_profile env strict (Records b)) sel"
    using f by (simp_all add: r Let_def evaluate_profiles_fields)
  show "AssuranceValid c \<longleftrightarrow> Verify b = None \<and> pr_Pass (evaluate_profile env strict (Records b) p) \<and> (req \<longrightarrow> anchor_met env (Records b) path)"
    if "sel = p # sel'" "rp_CAS r = Some c"
    using that f by (auto simp: r Let_def evaluate_profiles_fields score_first_profile_def split: if_splits)
qed

lemma required_anchor_fields [simp]:
  "rp_Integrity (applyRequiredAnchorRisk r) = rp_Integrity r" "rp_Anchoring (applyRequiredAnchorRisk r) = rp_Anchoring r"
  "rp_Profiles (applyRequiredAnchorRisk r) = rp_Profiles r"
  by (auto simp: applyRequiredAnchorRisk_def Let_def)

lemma required_anchor_CAS:
  "rp_CAS (applyRequiredAnchorRisk r) = Some c \<Longrightarrow>
     \<exists>c0. rp_CAS r = Some c0 \<and> AssuranceValid c =
       (AssuranceValid c0 \<and> (an_AnchorRequired (rp_Anchoring r) \<longrightarrow> an_TSAVerified (rp_Anchoring r)))"
  by (auto simp: applyRequiredAnchorRisk_def Let_def split: if_splits)

lemma corroboration_keeps_assurance [simp]: "AssuranceValid (apply_corroboration p a s n c) = AssuranceValid c"
  by (simp add: apply_corroboration_def Let_def)

lemma normalise_Some [simp]: "normaliseProfiles (map Some xs) = xs"
  by (induction xs) (simp_all add: normaliseProfiles_def map_filter_simps)

lemma EvaluateBundle_Inr:
  assumes "EvaluateBundle env load cfg = Inr r"
  obtains b r0 where "evaluated_bundle load cfg = Some b"
    "r0 = applyRequiredAnchorRisk (evaluateLoadedBundle env (Some b) (ec_BundlePath cfg)
      (map Some (normaliseProfiles (ec_Profiles cfg))) (ec_AllApplicable cfg) (ec_AnchorRequired cfg) (ec_StrictSourceSignatures cfg))"
    "rp_Integrity r = rp_Integrity r0" "rp_Anchoring r = rp_Anchoring r0" "rp_Profiles r = rp_Profiles r0"
    "\<And>c. rp_CAS r = Some c \<Longrightarrow> \<exists>c0. rp_CAS r0 = Some c0 \<and> AssuranceValid c = AssuranceValid c0"
proof -
  from assms obtain b where b: "evaluated_bundle load cfg = Some b"
    and r: "(let r0 = applyRequiredAnchorRisk (evaluateLoadedBundle env (Some b) (ec_BundlePath cfg)
                      (map Some (normaliseProfiles (ec_Profiles cfg))) (ec_AllApplicable cfg) (ec_AnchorRequired cfg)
                      (ec_StrictSourceSignatures cfg));
               r1 = r0\<lparr>rp_ProvabilityGaps := DeriveProvabilityGaps (ve_range env) r0\<rparr>
           in case (ec_Corroboration cfg, rp_CAS r1) of
                          (Some p, Some cas) \<Rightarrow>
                            r1\<lparr>rp_CAS := Some (apply_corroboration p (an_TSAVerified (rp_Anchoring r1))
                                (case rp_BundleSignature r1 of None \<Rightarrow> False | Some s \<Rightarrow> sr_Verified s)
                                (hasVerifiedSnapshot (Records b)) cas)\<rparr>
                        | _ \<Rightarrow> r1) = r"
    by (auto simp: EvaluateBundle_def evaluated_bundle_def Let_def split: if_splits option.split_asm sum.split_asm)
  show thesis
    by (rule that [OF b refl]) (use r in \<open>auto simp: Let_def split: option.splits\<close>)
qed

lemma gate_pass_iff:
  "vr_Pass (ReportFromVerify r) \<longleftrightarrow>
     (\<exists>p ps. rp_Profiles r = p # ps \<and> pr_Pass p) \<and> ir_ChainValid (rp_Integrity r) \<and>
     (an_AnchorRequired (rp_Anchoring r) \<longrightarrow> an_TSAVerified (rp_Anchoring r) \<or> an_Status (rp_Anchoring r) = ''verified'')"
proof (cases "rp_Profiles r")
  case Nil
  then show ?thesis by (auto simp: ReportFromVerify_def add_cas_def Let_def split: option.splits)
next
  case (Cons p ps)
  then show ?thesis by (auto simp: ReportFromVerify_def gateResultFromVerify_def Let_def)
qed

text \<open>C4: the gate, end to end. Whatever EvaluateBundle reports on, the published report passes exactly when a profile was
  selected, the hash chain of the bundle verifies, the first profile's obligations are met by its records,
  every policy decision is an object whose signatures verify (or are absent, unless strict mode asks for
  them), and, if an anchor is required, the token of the latest anchor is valid for the bytes of the bundle
  before it. The assurance flag of a profile's score says the same.\<close>

theorem gate_exact:
  assumes "EvaluateBundle env load cfg = Inr r"
  shows "\<exists>b. evaluated_bundle load cfg = Some b \<and>
    (vr_Pass (ReportFromVerify r) \<longleftrightarrow>
       (\<exists>p ps. selected_profiles env cfg b = p # ps \<and> profile_met p (Records b)) \<and> Verify b = None \<and>
       (\<forall>d\<in>set (Records b). Type (Event d) = TypeAIPolicyDecision \<longrightarrow> decision_met env (ec_StrictSourceSignatures cfg) d) \<and>
       (ec_AnchorRequired cfg \<longrightarrow> anchor_met env (Records b) (ec_BundlePath cfg))) \<and>
    (\<forall>c. rp_CAS r = Some c \<longrightarrow> rp_Profiles r \<noteq> [] \<longrightarrow> AssuranceValid c = vr_Pass (ReportFromVerify r))"
proof -
  obtain b r0 where b: "evaluated_bundle load cfg = Some b"
    and r0: "r0 = applyRequiredAnchorRisk (evaluateLoadedBundle env (Some b) (ec_BundlePath cfg)
      (map Some (normaliseProfiles (ec_Profiles cfg))) (ec_AllApplicable cfg) (ec_AnchorRequired cfg) (ec_StrictSourceSignatures cfg))"
    and f: "rp_Integrity r = rp_Integrity r0" "rp_Anchoring r = rp_Anchoring r0" "rp_Profiles r = rp_Profiles r0"
    and cas: "\<And>c. rp_CAS r = Some c \<Longrightarrow> \<exists>c0. rp_CAS r0 = Some c0 \<and> AssuranceValid c = AssuranceValid c0"
    by (rule EvaluateBundle_Inr [OF assms]) blast
  define r1 where "r1 = evaluateLoadedBundle env (Some b) (ec_BundlePath cfg)
      (map Some (normaliseProfiles (ec_Profiles cfg))) (ec_AllApplicable cfg) (ec_AnchorRequired cfg) (ec_StrictSourceSignatures cfg)"
  have sel: "selected_profiles env cfg b = (if ec_AllApplicable cfg then matchingProfiles (ve_schemas env) (Records b) []
      else normaliseProfiles (map Some (normaliseProfiles (ec_Profiles cfg))))" by (simp add: selected_profiles_def)
  note e = evaluated_fields [OF r1_def sel]
  have pass: "vr_Pass (ReportFromVerify r) \<longleftrightarrow>
      (\<exists>p ps. selected_profiles env cfg b = p # ps \<and> pr_Pass (evaluate_profile env (ec_StrictSourceSignatures cfg) (Records b) p)) \<and>
      Verify b = None \<and> (ec_AnchorRequired cfg \<longrightarrow> anchor_met env (Records b) (ec_BundlePath cfg))"
    unfolding gate_pass_iff f r0 r1_def [symmetric] using e(1-5) by (auto simp: map_eq_Cons_conv)
  have assured: "AssuranceValid c = vr_Pass (ReportFromVerify r)" if c: "rp_CAS r = Some c" "rp_Profiles r \<noteq> []" for c
  proof -
    obtain p ps where ps: "selected_profiles env cfg b = p # ps"
      using c(2) e(5) unfolding f r0 r1_def [symmetric] by (cases "selected_profiles env cfg b") auto
    obtain c0 where c0: "rp_CAS r1 = Some c0" "AssuranceValid c = (AssuranceValid c0 \<and> (ec_AnchorRequired cfg \<longrightarrow> anchor_met env (Records b) (ec_BundlePath cfg)))"
      using cas [OF c(1)] required_anchor_CAS [of r1] e(2,4) unfolding r0 r1_def [symmetric] by fastforce
    show ?thesis using c0(2) e(6) [OF ps c0(1)] pass ps by auto
  qed
  from b pass assured show ?thesis by (auto simp: evaluate_profile_pass)
qed

definition demo_profile :: profile_config where
  "demo_profile = \<lparr>pc_ID = ''demo'', pc_DisplayName = ''Demo'', pc_Description = [], pc_EventTypes = [],
     pc_Critical = [\<lparr>rc_EventType = ManifestEventType, rc_Message = []\<rparr>], pc_Required = [], pc_Relations = []\<rparr>"

definition demo_config :: evaluate_config where
  "demo_config = \<lparr>ec_BundlePath = ''run.atb'', ec_Records = Records sample_first, ec_Profiles = [Some (LegacyFile demo_profile)],
     ec_AllApplicable = False, ec_AnchorRequired = False, ec_RequireValidChain = True, ec_StrictSourceSignatures = True,
     ec_Corroboration = None\<rparr>"

definition demo_verify_env :: verify_env where
  "demo_verify_env = \<lparr>ve_schemas = [], ve_verifiers = \<lparr>ed_verify = \<lambda>_ _ _. False, ecdsa_verify = \<lambda>_ _ _. None\<rparr>,
     ve_token = \<lambda>_ _. (\<lparr>tv_MessageImprintVerified = False, tv_SignatureVerified = False, tv_CertChainVerified = False\<rparr>, Some []),
     ve_anchor_text = \<lambda>_. [], ve_policy_text = \<lambda>_. [], ve_bundle_text = \<lambda>_. [], ve_order1 = id, ve_order2 = id, ve_range = id\<rparr>"

lemma demo_records: "ec_Records demo_config = Records sample_first" "Records sample_first \<noteq> []"
  "\<And>d. d \<in> set (Records sample_first) \<Longrightarrow> Type (Event d) = ManifestEventType"
  by (simp_all add: demo_config_def sample_first_def first_bundle_def Let_def new_record_def)

lemma Records_eta: "\<lparr>Records = Records x\<rparr> = (x :: atb_bundle)"
  by (cases x) simp

lemma demo_evaluates: "\<exists>r. EvaluateBundle demo_verify_env (\<lambda>_. None) demo_config = Inr r"
proof -
  have "TrimSpace ''run.atb'' \<noteq> []" by code_simp
  moreover have "ir_ChainValid (rp_Integrity (evaluateLoadedBundle demo_verify_env (Some \<lparr>Records = Records sample_first\<rparr>) ''run.atb''
      [Some (LegacyFile demo_profile)] False False True))"
    using evaluated_fields(1) [OF refl refl] sample_verifies(2) by (simp add: Records_eta)
  moreover have "normaliseProfiles [Some (LegacyFile demo_profile)] = [LegacyFile demo_profile]"
    by (simp add: normaliseProfiles_def map_filter_simps)
  ultimately show ?thesis using demo_records(2) by (simp add: EvaluateBundle_def demo_config_def Let_def)
qed

theorem gate_exact_witness:
  "\<exists>r. EvaluateBundle demo_verify_env (\<lambda>_. None) demo_config = Inr r \<and> vr_Pass (ReportFromVerify r)"
proof -
  obtain r where r: "EvaluateBundle demo_verify_env (\<lambda>_. None) demo_config = Inr r" using demo_evaluates by blast
  obtain b where b: "evaluated_bundle (\<lambda>_. None) demo_config = Some b"
    and pass: "vr_Pass (ReportFromVerify r) \<longleftrightarrow>
       (\<exists>p ps. selected_profiles demo_verify_env demo_config b = p # ps \<and> profile_met p (Records b)) \<and> Verify b = None \<and>
       (\<forall>d\<in>set (Records b). Type (Event d) = TypeAIPolicyDecision \<longrightarrow> decision_met demo_verify_env (ec_StrictSourceSignatures demo_config) d) \<and>
       (ec_AnchorRequired demo_config \<longrightarrow> anchor_met demo_verify_env (Records b) (ec_BundlePath demo_config))"
    using gate_exact [OF r] by blast
  have bs: "b = sample_first" using b demo_records(1,2) by (simp add: evaluated_bundle_def Records_eta)
  have "selected_profiles demo_verify_env demo_config b = [LegacyFile demo_profile]"
    by (simp add: selected_profiles_def demo_config_def normaliseProfiles_def map_filter_simps)
  moreover have "legacy_met demo_profile (Records sample_first)"
    using demo_records(2,3) by (cases "Records sample_first") (auto simp: legacy_met_def demo_profile_def)
  moreover have "ManifestEventType \<noteq> TypeAIPolicyDecision" by (simp add: ManifestEventType_def TypeAIPolicyDecision_def)
  ultimately have "vr_Pass (ReportFromVerify r)"
    unfolding pass bs using demo_records(3) sample_verifies(2) by (auto simp: demo_config_def)
  with r show ?thesis by blast
qed

section \<open>Map iteration order\<close>

definition all_gaps :: "provability_gap list" where
  "all_gaps = map snd provabilityGapBySubScore @ [retrospective_gap]"

lemma all_gaps_names: "distinct (map pg_Gap all_gaps)" "[] \<notin> set (map pg_Gap all_gaps)"
  by code_simp+

lemma sub_score_gap_known: "set (sub_score_gap k) \<subseteq> set all_gaps"
proof (cases "map_of provabilityGapBySubScore k")
  case (Some g)
  then show ?thesis using map_of_SomeD [OF Some] by (force simp: sub_score_gap_def all_gaps_def)
qed (simp add: sub_score_gap_def)

lemma found_gaps_known: "set (found_gaps visit r) \<subseteq> set all_gaps"
  using sub_score_gap_known by (fastforce simp: found_gaps_def all_gaps_def split: option.splits list.splits if_splits)

lemma add_gaps_spec:
  assumes "set xs \<subseteq> set all_gaps" "set gs \<subseteq> set all_gaps" "distinct (map pg_Gap gs)"
  shows "set (add_gaps gs xs) = set gs \<union> set xs \<and> distinct (map pg_Gap (add_gaps gs xs))"
  using assms
proof (induction gs xs rule: add_gaps.induct)
  case (2 gs g rest)
  have g: "g \<in> set all_gaps" "pg_Gap g \<noteq> []" using 2 all_gaps_names(2) by force+
  have inj: "inj_on pg_Gap (set all_gaps)" using all_gaps_names(1) by (simp add: distinct_map)
  show ?case
  proof (cases "pg_Gap g \<in> set (map pg_Gap gs)")
    case True
    then obtain g' where "g' \<in> set gs" "pg_Gap g' = pg_Gap g" by auto
    then have "g \<in> set gs" using inj_onD [OF inj, of g' g] g 2 by auto
    with 2 True g show ?thesis by auto
  next
    case False
    with 2 g show ?thesis by auto
  qed
qed simp

lemma gap_less_key: "gap_less a b \<longleftrightarrow> (pg_Layer a, pg_Gap a) < (pg_Layer b, pg_Gap b)"
  by (auto simp: gap_less_def)

lemma sorted_gaps_cong:
  assumes "set xs = set ys" "set xs \<subseteq> set all_gaps"
  shows "sort_by gap_less (add_gaps [] xs) = sort_by gap_less (add_gaps [] ys)"
proof -
  have d: "distinct (map (\<lambda>g. (pg_Layer g, pg_Gap g)) zs)" if "distinct (map pg_Gap zs)" for zs
    using that by (auto simp: distinct_map inj_on_def)
  have "sort_key (\<lambda>g. (pg_Layer g, pg_Gap g)) (add_gaps [] xs) = sort_key (\<lambda>g. (pg_Layer g, pg_Gap g)) (add_gaps [] ys)"
    using add_gaps_spec [of xs "[]"] add_gaps_spec [of ys "[]"] assms by (intro sort_key_cong_set d) auto
  then show ?thesis by (simp add: sort_by_key [OF gap_less_key])
qed

text \<open>Residual risk and provability gaps are functions of the report. Both are computed by ranging over the map of
  sub-scores, which Go visits in a random order; sorting afterwards makes the result the same for every
  order.\<close>

theorem risk_order_independent:
  assumes "mset (visit (SubScores cas)) = mset (SubScores cas)" "rp_CAS r = Some cas"
  shows "deriveResidualRisk visit cas p = deriveResidualRisk id cas p \<and> DeriveProvabilityGaps visit r = DeriveProvabilityGaps id r"
proof
  have s: "set (visit (SubScores cas)) = set (SubScores cas)" using assms(1) by (rule mset_eq_setD)
  have "mset (map fst (filter (\<lambda>(k, x). f_less x (f_lit (70 / 100))) (visit (SubScores cas)))) =
      mset (map fst (filter (\<lambda>(k, x). f_less x (f_lit (70 / 100))) (SubScores cas)))"
    using assms(1) by (simp add: mset_filter)
  then have "SortStrings (map fst (filter (\<lambda>(k, x). f_less x (f_lit (70 / 100))) (visit (SubScores cas)))) =
      SortStrings (map fst (filter (\<lambda>(k, x). f_less x (f_lit (70 / 100))) (SubScores cas)))"
    unfolding SortStrings_def by (simp only: sorted_list_of_multiset_mset [symmetric])
  then show "deriveResidualRisk visit cas p = deriveResidualRisk id cas p" by (simp add: deriveResidualRisk_def Let_def)
  have "set (found_gaps visit r) = set (found_gaps id r)" by (simp add: found_gaps_def assms(2) s)
  then have "sort_by gap_less (add_gaps [] (found_gaps visit r)) = sort_by gap_less (add_gaps [] (found_gaps id r))"
    by (rule sorted_gaps_cong [OF _ found_gaps_known])
  then show "DeriveProvabilityGaps visit r = DeriveProvabilityGaps id r" by (simp only: DeriveProvabilityGaps_def)
qed

definition demo_cas :: cas_result where
  "demo_cas = \<lparr>Overall = f_zero, Grade = ''Low'', CorroborationBonus = f_zero, EffectiveScore = f_zero,
     SubScores = [(''SC'', f_zero), (''EC'', f_zero), (''AC'', f_one)], WeightVector = [], CoverageScore = f_zero, CoverageGrade = [],
     AssessmentCoverage = f_zero, Dimensions = [], IntegrityValid = True, AssuranceValid = False\<rparr>"

definition demo_report :: verify_report where
  "demo_report = (fst (prepareVerificationReport demo_verify_env (Some sample_first) ''run.atb''))\<lparr>rp_CAS := Some demo_cas\<rparr>"

theorem risk_order_independent_witness:
  "deriveResidualRisk rev demo_cas (external_Evaluate demo_profile []) = deriveResidualRisk id demo_cas (external_Evaluate demo_profile []) \<and>
   DeriveProvabilityGaps rev demo_report = DeriveProvabilityGaps id demo_report"
  by (rule risk_order_independent) (simp_all add: demo_report_def)

section \<open>Timestamps\<close>

definition stamped :: "bundle_record list \<Rightarrow> string list" where
  \<comment> \<open>the timestamps the check looks at\<close>
  "stamped records =
     filter (\<lambda>s. s \<noteq> []) (map (\<lambda>r. TrimSpace (Timestamp (Event r))) (filter (\<lambda>r. Type (Event r) \<noteq> ManifestEventType) records))"

lemma timestamps_loop_Nil:
  "timestamps_loop previous records = [] \<longleftrightarrow>
     (\<forall>s\<in>set (stamped records). ParseRFC3339 s \<noteq> None) \<and>
     sorted (map instant ((case previous of None \<Rightarrow> [] | Some p \<Rightarrow> [p]) @ map (\<lambda>s. the (ParseRFC3339 s)) (stamped records)))"
proof (induction previous records rule: timestamps_loop.induct)
  case (1 previous)
  then show ?case by (simp add: stamped_def split: option.splits)
next
  case (2 previous r rs)
  define raw where "raw = TrimSpace (Timestamp (Event r))"
  show ?case
  proof (cases "Type (Event r) = ManifestEventType \<or> raw = []")
    case True
    then have "stamped (r # rs) = stamped rs" by (auto simp: stamped_def raw_def)
    with 2(1) [OF raw_def True] True show ?thesis by (simp add: raw_def [symmetric] Let_def)
  next
    case False
    then have st: "stamped (r # rs) = raw # stamped rs" by (auto simp: stamped_def raw_def)
    show ?thesis
    proof (cases "ParseRFC3339 raw")
      case None
      with False st show ?thesis by (simp add: raw_def [symmetric] Let_def)
    next
      case (Some t)
      have IH: "timestamps_loop (Some t) rs = [] \<longleftrightarrow> (\<forall>s\<in>set (stamped rs). ParseRFC3339 s \<noteq> None) \<and>
          sorted (map instant (t # map (\<lambda>s. the (ParseRFC3339 s)) (stamped rs)))"
        using 2(3) [OF raw_def False Some] by simp
      show ?thesis
        using False Some st IH
        by (auto simp: raw_def [symmetric] Let_def Before_def not_less split: option.splits) (meson order.trans)
    qed
  qed
qed

text \<open>What the timestamp check accepts. It reports nothing exactly when every timestamp outside the manifest that is not
  blank parses as RFC 3339 and the instants they denote do not decrease, across time zones.\<close>

theorem timestamps_monotone:
  "ValidateTimestamps records = [] \<longleftrightarrow>
     list_all (\<lambda>s. ParseRFC3339 s \<noteq> None) (stamped records) \<and> sorted (map (\<lambda>s. instant (the (ParseRFC3339 s))) (stamped records))"
  using timestamps_loop_Nil [of None records] by (simp add: ValidateTimestamps_def comp_def list_all_iff)

text \<open>The check compares instants: equal ones in two zones are accepted, a second earlier is noticed.\<close>

definition stamp_record :: "string \<Rightarrow> bundle_record" where
  "stamp_record t = new_record (zero_event\<lparr>Timestamp := t, Type := ''ai.tool.exec''\<rparr>) []"

lemma timestamps_examples:
  "ValidateTimestamps [stamp_record ''2025-01-01T02:00:00+01:00'', stamp_record ''2025-01-01T01:00:00Z''] = []"
  "ValidateTimestamps [stamp_record ''2025-01-01T02:00:00+01:00'', stamp_record ''2025-01-01T00:59:59Z''] \<noteq> []"
  by code_simp+

section \<open>Defects of the published report\<close>

text \<open>An unmet obligation is published as met. A required event whose rule has the severity warning, and which no record
  provides, is listed among the obligations of the profile with the status pass.\<close>

theorem unmet_warning_reported_pass:
  assumes "rule \<in> set (ps_Required s)" "EqualFold (er_Severity rule) ''warning''" "schema_met s records"
    and "\<forall>r\<in>set records. Type (Event r) \<noteq> er_Type rule"
  shows "\<lparr>ob_ID = requiredObligationID (er_Type rule), ob_Kind = ''required_event'', ob_EventType = er_Type rule,
      ob_Severity = er_Severity rule, ob_Status = ''pass'', ob_Message = []\<rparr> \<in> set (pr_Obligations (evaluateSchemaProfile s records)) \<and>
    evaluateRequiredRule (indexRecordsByType records) rule empty_result =
      add_warning (messageOrDefault (er_Message rule) (er_Type rule @ '' missing'')) empty_result"
proof -
  have "ev_CriticalFailures (Evaluate s records) = []" using assms(3) by (simp add: Evaluate_failures)
  then have "rule_obligation (ev_CriticalFailures (Evaluate s records)) (requiredObligationID (er_Type rule))
      (requiredObligationID (er_Type rule) @ '':field:'') ''required_event'' (er_Type rule) (er_Severity rule) =
      \<lparr>ob_ID = requiredObligationID (er_Type rule), ob_Kind = ''required_event'', ob_EventType = er_Type rule,
        ob_Severity = er_Severity rule, ob_Status = ''pass'', ob_Message = []\<rparr>"
    by (simp add: rule_obligation_def matchingFailure_def)
  moreover have "indexRecordsByType records (er_Type rule) = []" using assms(4) by (simp add: index_Nil)
  ultimately show ?thesis
    using assms(1,2) by (force simp: evaluateSchemaProfile_def schemaObligations_def Let_def evaluateRequiredRule_def appendRuleFinding_def)
qed

definition warning_rule :: event_rule where
  "warning_rule = \<lparr>er_Type = ''ai.human.approval'', er_Fields = [], er_Message = [], er_Severity = ''warning'', er_RequiredWhen = []\<rparr>"

definition warning_schema :: profile_schema where
  "warning_schema = small_schema\<lparr>ps_Required := [warning_rule], ps_Optional := [], ps_Relations := []\<rparr>"

theorem unmet_warning_reported_pass_witness:
  "\<lparr>ob_ID = requiredObligationID (er_Type warning_rule), ob_Kind = ''required_event'', ob_EventType = er_Type warning_rule,
      ob_Severity = er_Severity warning_rule, ob_Status = ''pass'', ob_Message = []\<rparr> \<in> set (pr_Obligations (evaluateSchemaProfile warning_schema [])) \<and>
    evaluateRequiredRule (indexRecordsByType []) warning_rule empty_result =
      add_warning (messageOrDefault (er_Message warning_rule) (er_Type warning_rule @ '' missing'')) empty_result"
proof (rule unmet_warning_reported_pass)
  show "EqualFold (er_Severity warning_rule) ''warning''" by code_simp
  then show "schema_met warning_schema []"
    by (simp add: warning_schema_def schema_met_def Let_def rule_met_def) (simp add: warning_rule_def)
qed (simp_all add: warning_schema_def)

text \<open>Reports without a profile. For a bundle with a broken chain to which no profile applies, the evaluation does carry a
  score and the integrity gap, but the published report drops the gap.\<close>

theorem no_profile_report:
  assumes "Verify b \<noteq> None" "matchingProfiles (ve_schemas env) (Records b) [] = []"
  shows "let r = evaluateLoadedBundle env (Some b) path [] True False False
    in rp_CAS r \<noteq> None \<and> rp_ProvabilityGaps r = [integrity_gap] \<and> vr_ProvabilityGaps (ReportFromVerify r) = []"
proof -
  define r where "r = evaluateLoadedBundle env (Some b) path [] True False False"
  note e = evaluated_fields [OF r_def refl, unfolded assms(2)]
  have "rp_CAS r \<noteq> None"
    by (simp add: r_def evaluateLoadedBundle_def assms(2) Let_def case_prod_beta)
  moreover have "rp_ProvabilityGaps r = DeriveProvabilityGaps (ve_range env) (r\<lparr>rp_ProvabilityGaps := x\<rparr>)" for x
    by (simp add: r_def evaluateLoadedBundle_def assms(2) Let_def case_prod_beta finish_report_def DeriveProvabilityGaps_def
        found_gaps_def applyRetrospectiveProvenance_def)
  moreover have "vr_ProvabilityGaps (ReportFromVerify r) = []"
    using e(5) by (simp add: ReportFromVerify_def Let_def add_cas_def split: option.splits)
  moreover have "\<not> ir_ChainValid (rp_Integrity r)" using e(1) assms(1) by simp
  ultimately show ?thesis unfolding r_def [symmetric] by (simp add: DeriveProvabilityGaps_def)
qed

theorem no_profile_report_witness:
  "let r = evaluateLoadedBundle demo_verify_env (Some broken_bundle) ''run.atb'' [] True False False
    in rp_CAS r \<noteq> None \<and> rp_ProvabilityGaps r = [integrity_gap] \<and> vr_ProvabilityGaps (ReportFromVerify r) = []"
proof (rule no_profile_report)
  show "Verify broken_bundle \<noteq> None" by (simp add: broken_bundle_error)
  show "matchingProfiles (ve_schemas demo_verify_env) (Records broken_bundle) [] = []"
    unfolding demo_verify_env_def broken_bundle_def by code_simp
qed

end
