(* ===== verification/Lock.thy ===== *)
theory Lock
  imports Go_Prelude
begin

text \<open>
  The advisory lock of a bundle, \<^verbatim>\<open>internal/bundle/lock.go\<close>, \<^verbatim>\<open>lock_unix.go\<close> and \<^verbatim>\<open>lock_open.go\<close>: processes that open the
  lock file next to the bundle, take an exclusive \<^verbatim>\<open>flock\<close> on it and, if they created it, remove it on
  release, as a step relation over a directory entry, inodes and process counters; and the bounded waiting
  of \<^verbatim>\<open>AcquireWithRetry\<close>. The theorems: mutual exclusion when the lock file exists beforehand, two holders at
  once when it does not, progress of a process that runs alone, and termination of the waiting loop.
\<close>

section \<open>Processes and the file system\<close>

text \<open>
  Where a process stands: before creating the file; after \<^verbatim>\<open>O_EXCL\<close> found it to exist; with the file open
  (and whether it created it); holding the lock; after unlocking and closing; finished; turned away with
  \<^verbatim>\<open>ErrBundleLocked\<close>.
\<close>

datatype lock_pc = Creating | Opening | Opened nat bool | Holding nat bool | Unlocked bool | Released | Refused

record lock_state =
  entry_inode :: "nat option"
  flock_holder :: "nat \<Rightarrow> nat option"
  fresh_inode :: nat
  lock_pcs :: "nat \<Rightarrow> lock_pc"

abbreviation set_pc :: "nat \<Rightarrow> lock_pc \<Rightarrow> lock_state \<Rightarrow> lock_state" where
  "set_pc p c s \<equiv> s\<lparr>lock_pcs := (lock_pcs s)(p := c)\<rparr>"

definition create_lock_file :: "nat \<Rightarrow> lock_state \<Rightarrow> lock_state" where
  \<comment> \<open>\<^verbatim>\<open>os.OpenFile(lockFile, O_RDWR|O_CREATE|O_EXCL)\<close>\<close>
  "create_lock_file p s =
     (case entry_inode s of
        None \<Rightarrow> set_pc p (Opened (fresh_inode s) True) (s\<lparr>entry_inode := Some (fresh_inode s), fresh_inode := fresh_inode s + 1\<rparr>)
      | Some i \<Rightarrow> set_pc p Opening s)"

definition open_lock_file :: "nat \<Rightarrow> lock_state \<Rightarrow> lock_state" where
  \<comment> \<open>\<^verbatim>\<open>os.OpenFile(lockFile, O_RDWR)\<close>; the loop starts over if the file is gone\<close>
  "open_lock_file p s =
     (case entry_inode s of
        None \<Rightarrow> set_pc p Creating s
      | Some i \<Rightarrow> set_pc p (Opened i False) s)"

definition flock_exclusive :: "nat \<Rightarrow> nat \<Rightarrow> bool \<Rightarrow> lock_state \<Rightarrow> lock_state" where
  \<comment> \<open>\<^verbatim>\<open>unix.Flock(fd, LOCK_EX|LOCK_NB)\<close>; on contention the file is closed and nothing else is undone\<close>
  "flock_exclusive p i created s =
     (case flock_holder s i of
        None \<Rightarrow> set_pc p (Holding i created) (s\<lparr>flock_holder := (flock_holder s)(i := Some p)\<rparr>)
      | Some q \<Rightarrow> set_pc p Refused s)"

definition release_unlock :: "nat \<Rightarrow> nat \<Rightarrow> bool \<Rightarrow> lock_state \<Rightarrow> lock_state" where
  \<comment> \<open>\<^verbatim>\<open>unix.Flock(fd, LOCK_UN)\<close> and \<^verbatim>\<open>f.Close()\<close>\<close>
  "release_unlock p i created s = set_pc p (Unlocked created) (s\<lparr>flock_holder := (flock_holder s)(i := None)\<rparr>)"

definition release_remove :: "nat \<Rightarrow> bool \<Rightarrow> lock_state \<Rightarrow> lock_state" where
  \<comment> \<open>\<^verbatim>\<open>os.Remove(lockFile)\<close> if this process created it: whatever file has the name now\<close>
  "release_remove p created s = set_pc p Released (if created then s\<lparr>entry_inode := None\<rparr> else s)"

definition lock_step :: "nat \<Rightarrow> lock_state \<Rightarrow> lock_state" where
  \<comment> \<open>the next system call of process \<open>p\<close>\<close>
  "lock_step p s =
     (case lock_pcs s p of
        Creating \<Rightarrow> create_lock_file p s
      | Opening \<Rightarrow> open_lock_file p s
      | Opened i created \<Rightarrow> flock_exclusive p i created s
      | Holding i created \<Rightarrow> release_unlock p i created s
      | Unlocked created \<Rightarrow> release_remove p created s
      | Released \<Rightarrow> s
      | Refused \<Rightarrow> s)"

definition lock_init :: "nat option \<Rightarrow> lock_state" where
  \<comment> \<open>all processes about to start, with or without a lock file\<close>
  "lock_init e = \<lparr>entry_inode = e, flock_holder = \<lambda>_. None, fresh_inode = (case e of None \<Rightarrow> 0 | Some i \<Rightarrow> i + 1),
     lock_pcs = \<lambda>_. Creating\<rparr>"

definition holds_lock :: "lock_state \<Rightarrow> nat \<Rightarrow> bool" where
  "holds_lock s p = (case lock_pcs s p of Holding i created \<Rightarrow> True | _ \<Rightarrow> False)"

text \<open>
  \<^verbatim>\<open>withBundleLock\<close>: the outcome of the function comes before the outcome of the release, and the release
  happens in both cases; the result is the error, if any, and whether the lock was released.
\<close>

definition withBundleLock :: "'e + unit \<Rightarrow> 'e + unit \<Rightarrow> 'e + unit \<Rightarrow> ('e + unit) \<times> bool" where
  "withBundleLock acquired fn release =
     (case acquired of
        Inl e \<Rightarrow> (Inl e, False)
      | Inr _ \<Rightarrow> (case fn of Inl e \<Rightarrow> (Inl e, True) | Inr _ \<Rightarrow> (release, True)))"

section \<open>Waiting for the lock\<close>

text \<open>
  \<open>attempt k\<close> is the outcome of the \<open>k\<close>th try of \<^verbatim>\<open>lockPath\<close>, \<open>delay k\<close> the time that try takes together with the
  lateness of the timer before it, in nanoseconds on the monotonic clock, and \<open>cancelled k\<close> whether the
  context is done before the timer of the \<open>k\<close>th wait fires. The loop has no bound of its own; None is a loop
  that never ends.
\<close>

datatype lock_attempt = Acquired | Contended | LockFailed

datatype acquire_result = Granted | TimedOut | AcquireFailed | Cancelled

definition DefaultLockRetryInterval :: int where
  "DefaultLockRetryInterval = 200 * 1000000"

partial_function (option) retry_loop :: "(nat \<Rightarrow> lock_attempt) \<Rightarrow> (nat \<Rightarrow> nat) \<Rightarrow> (nat \<Rightarrow> bool) \<Rightarrow> int \<Rightarrow> int \<Rightarrow> int \<Rightarrow> nat \<Rightarrow>
    (acquire_result \<times> nat) option" where
  \<comment> \<open>from the time \<open>now\<close> and attempt \<open>k\<close>: the result and the index of the last attempt\<close>
  "retry_loop attempt delay cancelled deadline interval now k =
     (case attempt k of
        Acquired \<Rightarrow> Some (Granted, k)
      | LockFailed \<Rightarrow> Some (AcquireFailed, k)
      | Contended \<Rightarrow>
          (let t = now + int (delay k); sleepFor = deadline - t
           in if sleepFor \<le> 0 then Some (TimedOut, k)
              else let sleep = (if sleepFor > interval then interval else sleepFor)
                   in if cancelled k then Some (Cancelled, k)
                      else retry_loop attempt delay cancelled deadline interval (t + sleep) (k + 1)))"

definition retry_interval :: "int \<Rightarrow> int" where
  "retry_interval interval = (if interval \<le> 0 then DefaultLockRetryInterval else interval)"

definition AcquireWithRetry :: "(nat \<Rightarrow> lock_attempt) \<Rightarrow> (nat \<Rightarrow> nat) \<Rightarrow> (nat \<Rightarrow> bool) \<Rightarrow> int \<Rightarrow> int \<Rightarrow> (acquire_result \<times> nat) option" where
  \<comment> \<open>times count from the call; an attempt is a call of \<^verbatim>\<open>lockPath\<close> that returned (the loop of \<^verbatim>\<open>openLockFile\<close> inside it, which
      tries again while the file is created and removed by others, is not counted here)\<close>
  "AcquireWithRetry attempt delay cancelled timeout interval =
     (if timeout \<le> 0 then
        Some (case attempt 0 of Acquired \<Rightarrow> Granted | Contended \<Rightarrow> TimedOut | LockFailed \<Rightarrow> AcquireFailed, 0)
      else retry_loop attempt delay cancelled timeout (retry_interval interval) 0 0)"

section \<open>Invariants of interleaved steps\<close>

text \<open>A property that every step of every process keeps holds after every schedule.\<close>

locale kept =
  fixes step :: "'p \<Rightarrow> 's \<Rightarrow> 's" and inv :: "'s \<Rightarrow> bool"
  assumes keeps: "inv s \<Longrightarrow> inv (step p s)"
begin

lemma schedule: "inv s \<Longrightarrow> inv (fold step ps s)"
  by (induction ps arbitrary: s) (auto intro: keeps)

end

text \<open>A process that holds a lock is the one the kernel knows as the holder of its inode.\<close>

definition holders_known :: "lock_state \<Rightarrow> bool" where
  "holders_known s = (\<forall>p i c. lock_pcs s p = Holding i c \<longrightarrow> flock_holder s i = Some p)"

lemmas lock_step_defs = lock_step_def create_lock_file_def open_lock_file_def flock_exclusive_def release_unlock_def release_remove_def

lemma holders_knownD: "holders_known s \<Longrightarrow> lock_pcs s p = Holding i c \<Longrightarrow> flock_holder s i = Some p"
  by (simp only: holders_known_def)

interpretation known: kept lock_step holders_known
proof (unfold_locales, unfold holders_known_def, intro allI impI)
  fix s :: lock_state and p q i c
  assume "\<forall>p i c. lock_pcs s p = Holding i c \<longrightarrow> flock_holder s i = Some p"
  then have K: "flock_holder s j = Some x" if "lock_pcs s x = Holding j d" for x j d
    using that by blast
  have one: "x = y" if "lock_pcs s x = Holding j d" "lock_pcs s y = Holding j d'" for x y j d d'
    using K [OF that(1)] K [OF that(2)] by simp
  assume "lock_pcs (lock_step p s) q = Holding i c"
  then show "flock_holder (lock_step p s) i = Some q"
    by (cases "lock_pcs s p"; cases "p = q")
      (auto simp: lock_step_defs dest: K one split: option.splits if_splits)
qed

text \<open>With a lock file that nobody created during the run, the file stays and is the only one ever opened.\<close>

definition fixed_file :: "nat \<Rightarrow> lock_state \<Rightarrow> bool" where
  "fixed_file i s = (entry_inode s = Some i \<and>
     (\<forall>p. lock_pcs s p \<in> {Creating, Opening, Opened i False, Holding i False, Unlocked False, Released, Refused}))"

interpretation fixed: kept lock_step "fixed_file i" for i
proof unfold_locales
  fix s p
  assume I: "fixed_file i s"
  then have "lock_pcs s p \<in> {Creating, Opening, Opened i False, Holding i False, Unlocked False, Released, Refused}"
    by (simp add: fixed_file_def)
  then show "fixed_file i (lock_step p s)"
    using I by (cases "lock_pcs s p") (auto simp: fixed_file_def lock_step_defs split: option.splits)
qed

lemma init_kept: "holders_known (lock_init e)" "fixed_file i (lock_init (Some i))"
  by (simp_all add: holders_known_def fixed_file_def lock_init_def)

section \<open>Properties\<close>

text \<open>C5: mutual exclusion with a lock file that exists beforehand. However the system calls of any number of processes
  interleave, at most one of them holds the lock, and the lock file is still the same one.\<close>

theorem lock_mutual_exclusion:
  assumes "s = fold lock_step ps (lock_init (Some i))" "holds_lock s p" "holds_lock s q"
  shows "p = q \<and> entry_inode s = Some i \<and> flock_holder s i = Some p"
proof -
  have k: "holders_known s" unfolding assms(1) by (rule known.schedule [OF init_kept(1)])
  have f: "fixed_file i s" unfolding assms(1) by (rule fixed.schedule [OF init_kept(2)])
  have "lock_pcs s x = Holding i False" if "holds_lock s x" for x
  proof -
    have "lock_pcs s x \<in> {Creating, Opening, Opened i False, Holding i False, Unlocked False, Released, Refused}"
      using f by (simp add: fixed_file_def)
    with that show ?thesis by (auto simp: holds_lock_def)
  qed
  then have "flock_holder s i = Some p" "flock_holder s i = Some q"
    using assms(2,3) by (blast intro: holders_knownD [OF k])+
  with f show ?thesis by (simp add: fixed_file_def)
qed

theorem lock_mutual_exclusion_witness:
  "let s = fold lock_step [0, 0, 1, 0, 1, 1] (lock_init (Some 7))
   in holds_lock s 0 \<and> lock_pcs s 1 = Refused \<and> entry_inode s = Some 7 \<and> flock_holder s 7 = Some 0"
proof -
  have h: "holds_lock (fold lock_step [0, 0, 1, 0, 1, 1] (lock_init (Some 7))) 0"
    "lock_pcs (fold lock_step [0, 0, 1, 0, 1, 1] (lock_init (Some 7))) 1 = Refused"
    by (simp_all add: lock_step_defs lock_init_def holds_lock_def)
  from lock_mutual_exclusion [OF refl h(1) h(1)] h show ?thesis by (simp only: Let_def simp_thms)
qed

text \<open>Without a lock file beforehand the lock does not exclude. The process that created the file unlocks it, a second one
  locks it, the first one removes the name, and a third one creates and locks a new file: two processes hold
  the lock of the same bundle at once, each the holder of its own inode.\<close>

theorem lock_not_exclusive:
  "\<exists>ps. let s = fold lock_step ps (lock_init None) in holds_lock s 1 \<and> holds_lock s 2"
  by (rule exI [of _ "[0, 0, 0, 1, 1, 1, 0, 2, 2]"]) (simp add: lock_step_defs lock_init_def holds_lock_def)

text \<open>A process is never starved by an idle system. In any state in which nobody holds a lock on the existing file and new
  files are not locked, a process that starts and is not interrupted holds the lock after two or three steps.\<close>

theorem lock_progress:
  assumes "lock_pcs s p = Creating" "flock_holder s (fresh_inode s) = None"
    and "\<forall>i. entry_inode s = Some i \<longrightarrow> flock_holder s i = None"
  shows "holds_lock (fold lock_step [p, p] s) p \<or> holds_lock (fold lock_step [p, p, p] s) p"
  using assms by (cases "entry_inode s") (simp_all add: lock_step_defs holds_lock_def)

theorem lock_progress_witness:
  "holds_lock (fold lock_step [0, 0] (lock_init None)) 0 \<or> holds_lock (fold lock_step [0, 0, 0] (lock_init None)) 0"
  by (rule lock_progress) (simp_all add: lock_init_def)

section \<open>The waiting loop\<close>

lemma retry_loop_ends:
  assumes "0 < interval" "deadline - now \<le> int n * interval"
  shows "\<exists>r j. retry_loop attempt delay cancelled deadline interval now k = Some (r, j) \<and> k \<le> j \<and> j \<le> k + n"
  using assms(2)
proof (induction n arbitrary: now k)
  case 0
  then show ?case by (subst retry_loop.simps) (auto simp: Let_def split: lock_attempt.splits)
next
  case (Suc n)
  define t where "t = now + int (delay k)"
  define sleep where "sleep = (if deadline - t > interval then interval else deadline - t)"
  show ?case
  proof (cases "attempt k = Contended \<and> t < deadline \<and> \<not> cancelled k")
    case True
    have "0 \<le> int n * interval" using assms(1) by simp
    then have "deadline - (t + sleep) \<le> int n * interval"
      using Suc.prems True by (auto simp: sleep_def t_def algebra_simps)
    from Suc.IH [OF this, of "k + 1"] obtain r j where
      "retry_loop attempt delay cancelled deadline interval (t + sleep) (k + 1) = Some (r, j)" "k + 1 \<le> j" "j \<le> k + 1 + n"
      by blast
    with True show ?thesis by (subst retry_loop.simps) (auto simp: Let_def t_def sleep_def)
  next
    case False
    then show ?thesis by (subst retry_loop.simps) (auto simp: Let_def t_def split: lock_attempt.splits)
  qed
qed

text \<open>C23: waiting for the lock always ends, provided that each single attempt returns. Whatever the attempts return, however long they take and whether or not the context
  is cancelled, the loop returns, after at most two attempts more than the timeout has intervals; the
  default interval stands in for one that is not positive.\<close>

theorem acquire_terminates:
  "\<exists>r j. AcquireWithRetry attempt delay cancelled timeout interval = Some (r, j) \<and>
     int j \<le> max 0 timeout div retry_interval interval + 1"
proof (cases "timeout \<le> 0")
  case True
  then show ?thesis by (simp add: AcquireWithRetry_def)
next
  case False
  define iv where "iv = retry_interval interval"
  have iv: "0 < iv" by (simp add: iv_def retry_interval_def DefaultLockRetryInterval_def)
  define n where "n = nat (timeout div iv + 1)"
  have q: "0 \<le> timeout div iv" using False iv by (simp add: pos_imp_zdiv_nonneg_iff)
  have "timeout = timeout div iv * iv + timeout mod iv" "timeout mod iv < iv" using iv by simp_all
  moreover have "int n * iv = timeout div iv * iv + iv" using q by (simp add: n_def algebra_simps)
  ultimately have "timeout - 0 \<le> int n * iv" by linarith
  from retry_loop_ends [OF iv this, of attempt delay cancelled 0] obtain r j where
    "retry_loop attempt delay cancelled timeout iv 0 0 = Some (r, j)" "j \<le> n" by auto
  moreover from this have "int j \<le> timeout div iv + 1" using q by (simp add: n_def)
  ultimately show ?thesis using False by (simp add: AcquireWithRetry_def iv_def)
qed

lemma retry_loop_grants:
  assumes "attempt j = Acquired" "k \<le> j" "\<forall>i. k \<le> i \<and> i < j \<longrightarrow> attempt i = Contended \<and> \<not> cancelled i"
    and "0 < interval" "now + (\<Sum>i = k..<j. int (delay i) + interval) < deadline"
  shows "retry_loop attempt delay cancelled deadline interval now k = Some (Granted, j)"
  using assms(2,3,5)
proof (induction "j - k" arbitrary: k now)
  case 0
  then have "k = j" by simp
  then show ?case using assms(1) by (subst retry_loop.simps) simp
next
  case (Suc d)
  then have k: "k < j" "attempt k = Contended" "\<not> cancelled k" by auto
  define t where "t = now + int (delay k)"
  define sleep where "sleep = (if deadline - t > interval then interval else deadline - t)"
  have sum: "(\<Sum>i = k..<j. int (delay i) + interval) = int (delay k) + interval + (\<Sum>i = k + 1..<j. int (delay i) + interval)"
    using k(1) by (simp add: sum.atLeast_Suc_lessThan)
  have pos: "0 \<le> (\<Sum>i = k + 1..<j. int (delay i) + interval)" using assms(4) by (intro sum_nonneg) simp
  have t: "t < deadline" "t + sleep + (\<Sum>i = k + 1..<j. int (delay i) + interval) < deadline"
    using Suc.prems(3) sum pos assms(4) by (auto simp: t_def sleep_def)
  have "retry_loop attempt delay cancelled deadline interval (t + sleep) (k + 1) = Some (Granted, j)"
    using Suc.hyps(2) Suc.prems(2) k(1) t(2) by (intro Suc.hyps(1)) auto
  then show ?case using k t(1) by (subst retry_loop.simps) (auto simp: Let_def t_def sleep_def)
qed

text \<open>C24: waiting succeeds if the lock becomes free in time. When some attempt finds the lock free, the earlier ones found it
  taken, the context is not cancelled before, and the waits and delays up to that attempt stay within the
  timeout, the caller is granted the lock at exactly that attempt.\<close>

theorem acquire_granted:
  assumes "attempt j = Acquired" "\<forall>i<j. attempt i = Contended \<and> \<not> cancelled i"
    and "(\<Sum>i<j. int (delay i) + retry_interval interval) < timeout"
  shows "AcquireWithRetry attempt delay cancelled timeout interval = Some (Granted, j)"
proof -
  have iv: "0 < retry_interval interval" by (simp add: retry_interval_def DefaultLockRetryInterval_def)
  then have "0 \<le> (\<Sum>i<j. int (delay i) + retry_interval interval)" by (intro sum_nonneg) simp
  with assms(3) have "0 < timeout" by linarith
  with retry_loop_grants [where attempt = attempt and j = j and k = 0 and cancelled = cancelled and interval = "retry_interval interval" and now = 0 and delay = delay and deadline = timeout] iv assms(1) assms(2,3) show ?thesis
    by (simp add: AcquireWithRetry_def atLeast0LessThan)
qed

theorem acquire_granted_witness:
  "AcquireWithRetry (\<lambda>k. if k < 3 then Contended else Acquired) (\<lambda>_. 1000) (\<lambda>_. False) 1000000000 0 = Some (Granted, 3)"
  by (rule acquire_granted) (simp_all add: retry_interval_def DefaultLockRetryInterval_def)

end
