(* ===== verification/Session_Index.thy ===== *)
theory Session_Index
  imports Verifier_Report
begin

text \<open>
  The session index of the local viewer, \<^verbatim>\<open>internal/sessionindex\<close>, and the name test of \<^verbatim>\<open>internal/identity\<close> it uses: events
  of a verified bundle are grouped by session in one pass, each session is summarised with its actor, times,
  exchange count, profile, grade and anomaly flags, and the sessions of all bundles are sorted, newest first.
  Loading and the error text of a failed load are arguments.
\<close>

section \<open>Entries\<close>

record actor_summary =
  ac_DisplayName :: string
  ac_Email :: string

record session_entry =
  se_SessionID :: string
  se_Actor :: actor_summary
  se_StartedAt :: go_time
  se_ClosedAt :: "go_time option"
  se_ExchangeCount :: int
  se_InferredProfile :: string
  se_CASGrade :: string
  se_AnomalyFlags :: "string list"
  se_BundlePath :: string

record load_error =
  le_Path :: string
  le_Reason :: string

definition zero_time :: go_time where
  \<comment> \<open>\<^verbatim>\<open>time.Time{}\<close>\<close>
  "zero_time = \<lparr>year = 1, month = 1, day = 1, hour = 0, minute = 0, second = 0, nsec = 0, zone = 0\<rparr>"

definition IsZero :: "go_time \<Rightarrow> bool" where
  "IsZero t = (instant t = instant zero_time)"

abbreviation no_actor :: actor_summary where
  "no_actor \<equiv> \<lparr>ac_DisplayName = [], ac_Email = []\<rparr>"

definition LoadError_Error :: "load_error \<Rightarrow> string" where
  "LoadError_Error e = le_Path e @ '': '' @ le_Reason e"

definition LoadErrors_Error :: "load_error list \<Rightarrow> string" where
  "LoadErrors_Error es =
     (case es of [] \<Rightarrow> [] | [e] \<Rightarrow> LoadError_Error e | _ \<Rightarrow> show_nat (length es) @ '' bundle load errors'')"

section \<open>Fields of an event\<close>

definition UnresolvedDisplayName :: string where
  "UnresolvedDisplayName = ''unresolved''"

definition IsUnresolvedDisplayName :: "string \<Rightarrow> bool" where
  "IsUnresolvedDisplayName name = (name = UnresolvedDisplayName \<or> HasPrefix name ''api-key:'')"

definition eventDataMap :: "event \<Rightarrow> (string \<times> any) list" where
  \<comment> \<open>the nil map reads like the empty one\<close>
  "eventDataMap e = (case as_map (Data e) of None \<Rightarrow> [] | Some m \<Rightarrow> m)"

definition stringField :: "(string \<times> any) list \<Rightarrow> string \<Rightarrow> string" where
  "stringField data key = TrimSpace (field_string data key)"

definition intField :: "(string \<times> any) list \<Rightarrow> string \<Rightarrow> int option" where
  "intField data key = (case field data key of AInt n \<Rightarrow> Some n | AFloat f \<Rightarrow> Some (int_of_float f) | _ \<Rightarrow> None)"

definition TypeCaptureScope :: string where
  "TypeCaptureScope = ''atb.capture.scope''"

definition IsBundleLevelEvent :: "string \<Rightarrow> bool" where
  "IsBundleLevelEvent t \<longleftrightarrow>
     t = ManifestEventType \<or> t = TypeBundleSignature \<or> t = TypeBundleAnchor \<or> t = TypeSnapshot \<or> t = TypeCaptureScope"

definition eventSessionID :: "event \<Rightarrow> string" where
  "eventSessionID e =
     (case find (\<lambda>v. v \<noteq> []) (map (stringField (eventDataMap e)) [''session_id'', ''sessionId'']) of
        None \<Rightarrow> [] | Some v \<Rightarrow> v)"

definition sessionIDFromPath :: "string \<Rightarrow> string" where
  "sessionIDFromPath path =
     (let base = TrimSuffix (path_Base path) (path_Ext path)
      in if TrimSpace base = [] then ''unknown'' else base)"

definition SessionIDForEvent :: "event \<Rightarrow> string \<Rightarrow> string" where
  "SessionIDForEvent e bundlePath = (if eventSessionID e \<noteq> [] then eventSessionID e else sessionIDFromPath bundlePath)"

definition actorFromEvent :: "event \<Rightarrow> actor_summary" where
  "actorFromEvent e =
     (let data = eventDataMap e;
          actorData = (case as_map (field data ''actor'') of None \<Rightarrow> [] | Some m \<Rightarrow> m);
          n0 = stringField actorData ''display_name''; m0 = stringField actorData ''email'';
          n1 = (if n0 = [] then stringField data ''actor.display_name'' else n0);
          m1 = (if m0 = [] then stringField data ''actor.email'' else m0);
          n2 = (case ActorID e of Some a \<Rightarrow> if n1 = [] then TrimSpace a else n1 | None \<Rightarrow> n1)
      in \<lparr>ac_DisplayName = n2, ac_Email = m1\<rparr>)"

fun first_time :: "string list \<Rightarrow> go_time option" where
  "first_time [] = None"
| "first_time (v # vs) =
     (let value = TrimSpace v
      in if value = [] then first_time vs
         else case ParseRFC3339 value of Some t \<Rightarrow> Some t | None \<Rightarrow> first_time vs)"

definition eventTime :: "event \<Rightarrow> go_time option" where
  "eventTime e =
     first_time (Timestamp e # map (stringField (eventDataMap e)) [''timestamp'', ''started_at'', ''closed_at''])"

section \<open>The accumulator of a session\<close>

record session_acc =
  sa_entry :: session_entry
  sa_events :: "event list"
  sa_hasClose :: bool
  sa_approvalSeen :: bool
  sa_toolWithoutApproval :: bool
  sa_seenSession :: bool
  sa_deniedActions :: "string list"
  sa_deniedThenExecuted :: bool
  sa_actionFailed :: bool

definition new_acc :: "string \<Rightarrow> string \<Rightarrow> session_acc" where
  "new_acc sessionID bundlePath =
     \<lparr>sa_entry = \<lparr>se_SessionID = sessionID, se_Actor = no_actor, se_StartedAt = zero_time, se_ClosedAt = None, se_ExchangeCount = 0,
        se_InferredProfile = [], se_CASGrade = [], se_AnomalyFlags = [], se_BundlePath = bundlePath\<rparr>,
      sa_events = [], sa_hasClose = False, sa_approvalSeen = False, sa_toolWithoutApproval = False, sa_seenSession = False,
      sa_deniedActions = [], sa_deniedThenExecuted = False, sa_actionFailed = False\<rparr>"

definition wrap_int :: "int \<Rightarrow> int" where
  \<comment> \<open>a sum of 64-bit integers\<close>
  "wrap_int i = (i + 2 ^ 63) mod 2 ^ 64 - 2 ^ 63"

definition apply_time :: "event \<Rightarrow> session_acc \<Rightarrow> session_acc" where
  "apply_time e acc =
     (case eventTime e of
        None \<Rightarrow> acc
      | Some ts \<Rightarrow>
          (let en = sa_entry acc;
               en1 = (if IsZero (se_StartedAt en) \<or> Before ts (se_StartedAt en) then en\<lparr>se_StartedAt := ts\<rparr> else en)
           in if Type e = ''atb.session.close''
              then acc\<lparr>sa_entry := en1\<lparr>se_ClosedAt := Some ts\<rparr>, sa_hasClose := True\<rparr>
              else acc\<lparr>sa_entry := en1\<rparr>))"

definition merge_actor :: "actor_summary \<Rightarrow> actor_summary \<Rightarrow> actor_summary" where
  "merge_actor a b =
     \<lparr>ac_DisplayName = (if ac_DisplayName a = [] then ac_DisplayName b else ac_DisplayName a),
      ac_Email = (if ac_Email a = [] then ac_Email b else ac_Email a)\<rparr>"

definition denied_action :: "event \<Rightarrow> string option" where
  \<comment> \<open>the action a policy decision denies\<close>
  "denied_action e =
     (let data = eventDataMap e
      in if Type e = ''ai.policy.decision'' \<and> stringField data ''decision'' = ''deny'' \<and> stringField data ''action_id'' \<noteq> []
         then Some (stringField data ''action_id'') else None)"

definition executed_action :: "event \<Rightarrow> string option" where
  \<comment> \<open>the action an execution record is about\<close>
  "executed_action e =
     (let actionID = stringField (eventDataMap e) ''action_id''
      in if (Type e = ''ai.action.executed'' \<or> Type e = ''ai.action.committed'') \<and> actionID \<noteq> [] then Some actionID else None)"

definition count_exchanges :: "event \<Rightarrow> int \<Rightarrow> int" where
  "count_exchanges e n =
     (if Type e = ''atb.exchange.complete'' then wrap_int (n + 1)
      else if Type e = ''atb.session.close''
      then (case intField (eventDataMap e) ''exchange_count'' of Some c \<Rightarrow> c | None \<Rightarrow> n)
      else n)"

definition apply_type :: "event \<Rightarrow> session_acc \<Rightarrow> session_acc" where
  \<comment> \<open>the switch on the event type\<close>
  "apply_type e acc =
     acc\<lparr>sa_entry := (sa_entry acc)\<lparr>se_ExchangeCount := count_exchanges e (se_ExchangeCount (sa_entry acc))\<rparr>,
        sa_approvalSeen := (sa_approvalSeen acc \<or> Type e = ''atb.human.approval''),
        sa_toolWithoutApproval := (sa_toolWithoutApproval acc \<or> (Type e = ''atb.tool.call'' \<and> \<not> sa_approvalSeen acc)),
        sa_deniedActions := sa_deniedActions acc @ (case denied_action e of Some a \<Rightarrow> [a] | None \<Rightarrow> []),
        sa_deniedThenExecuted := (sa_deniedThenExecuted acc \<or>
          (case executed_action e of Some a \<Rightarrow> a \<in> set (sa_deniedActions acc) | None \<Rightarrow> False)),
        sa_actionFailed := (sa_actionFailed acc \<or> Type e = ''ai.action.error'')\<rparr>"

definition applyEvent :: "event \<Rightarrow> session_acc \<Rightarrow> session_acc" where
  "applyEvent e acc =
     (let acc1 = apply_time e acc; en = sa_entry acc1
      in apply_type e (acc1\<lparr>sa_entry := en\<lparr>se_Actor := merge_actor (se_Actor en) (actorFromEvent e)\<rparr>\<rparr>))"

definition anomalyFlags :: "session_acc \<Rightarrow> string list" where
  "anomalyFlags acc =
     (if sa_toolWithoutApproval acc then [''tool_without_approval''] else []) @
     (if sa_deniedThenExecuted acc then [''policy_denied_executed''] else []) @
     (if sa_actionFailed acc then [''action_failed''] else []) @
     (if IsUnresolvedDisplayName (ac_DisplayName (se_Actor (sa_entry acc))) then [''unresolved_identity''] else []) @
     (if \<not> sa_hasClose acc then [''session_not_closed''] else [])"

section \<open>Profile and grade\<close>

definition inferProfile :: "event list \<Rightarrow> string" where
  "inferProfile es =
     (let seen = (\<lambda>P. list_ex (\<lambda>e. P (Type e)) es)
      in if seen (\<lambda>t. t = ''atb.tool.call'') then ''atb.profile.privileged_tool_action''
         else if seen (\<lambda>t. t = ''atb.data.export'') then ''atb.profile.data_export''
         else if seen (\<lambda>t. t = ''ai.policy.decision'') then ''atb.profile.policy_decision''
         else if seen (\<lambda>t. t = ''atb.human.override'') then ''atb.profile.human_override''
         else if seen (\<lambda>t. HasPrefix t ''ai.retrieval.'') then ''atb.profile.rag_answer''
         else if seen (\<lambda>t. HasPrefix t ''ai.job.'') then ''atb.profile.background_automation''
         else [])"

type_synonym bundle_loader = "string \<Rightarrow> (bundle_error + atb_bundle) option"

definition grade_config :: "string \<Rightarrow> bundle_record list \<Rightarrow> profile \<Rightarrow> evaluate_config" where
  "grade_config bundlePath records p =
     \<lparr>ec_BundlePath = bundlePath, ec_Records = records, ec_Profiles = [Some p], ec_AllApplicable = False, ec_AnchorRequired = False,
      ec_RequireValidChain = False, ec_StrictSourceSignatures = False, ec_Corroboration = None\<rparr>"

definition casGradeForProfile :: "verify_env \<Rightarrow> bundle_loader \<Rightarrow> string \<Rightarrow> atb_bundle \<Rightarrow> string \<Rightarrow> string" where
  "casGradeForProfile env load bundlePath b profileID =
     (case ProfileByID (ve_schemas env) profileID of
        None \<Rightarrow> []
      | Some p \<Rightarrow>
          (case EvaluateBundle env load (grade_config bundlePath (Records b) p) of
             Inl _ \<Rightarrow> []
           | Inr report \<Rightarrow> vr_CASGrade (ReportFromVerify report)))"

section \<open>The sessions of a bundle\<close>

type_synonym session_table = "(string \<times> session_acc) list \<times> string list"

definition add_to_session :: "string \<Rightarrow> string \<Rightarrow> event \<Rightarrow> session_table \<Rightarrow> session_table" where
  \<comment> \<open>the accumulators by session and the order in which the sessions appeared\<close>
  "add_to_session bundlePath sessionID e st =
     (let (acc, order) = (case map_of (fst st) sessionID of
                            Some acc \<Rightarrow> (acc, snd st)
                          | None \<Rightarrow> (new_acc sessionID bundlePath, snd st @ [sessionID]));
          acc1 = acc\<lparr>sa_seenSession := True, sa_events := sa_events acc @ [e]\<rparr>
      in (map_store (fst st) sessionID (applyEvent e acc1), order))"

definition index_record :: "string \<Rightarrow> bundle_record \<Rightarrow> session_table \<Rightarrow> session_table" where
  "index_record bundlePath r st =
     (if IsBundleLevelEvent (Type (Event r)) then st
      else add_to_session bundlePath (SessionIDForEvent (Event r) bundlePath) (Event r) st)"

definition finish_entry :: "verify_env \<Rightarrow> bundle_loader \<Rightarrow> string \<Rightarrow> atb_bundle \<Rightarrow> session_acc \<Rightarrow> session_entry" where
  "finish_entry env load bundlePath b acc =
     (let p = inferProfile (sa_events acc)
      in (sa_entry acc)\<lparr>se_InferredProfile := p, se_CASGrade := casGradeForProfile env load bundlePath b p,
           se_AnomalyFlags := anomalyFlags acc\<rparr>)"

definition entriesForBundle :: "verify_env \<Rightarrow> bundle_loader \<Rightarrow> string \<Rightarrow> atb_bundle \<Rightarrow> session_entry list" where
  "entriesForBundle env load bundlePath b =
     (let (sessions, order) = fold (index_record bundlePath) (Records b) ([], [])
      in concat (map (\<lambda>sid. case map_of sessions sid of
                              None \<Rightarrow> []
                            | Some acc \<Rightarrow> if sa_seenSession acc then [finish_entry env load bundlePath b acc] else []) order))"

section \<open>The index\<close>

datatype index_error = IndexCancelled | IndexLoadErrors "load_error list"

text \<open>
  What the index reads from outside: the verified load of a path, the text of its error, the working directory,
  and whether the context is done at the \<open>n\<close>th time it is asked.
\<close>

record index_env =
  ix_verify :: verify_env
  ix_load :: bundle_loader
  ix_verified :: "string \<Rightarrow> bundle_error + atb_bundle"
  ix_text :: "bundle_error \<Rightarrow> string"
  ix_cwd :: "string option"
  ix_done :: "nat \<Rightarrow> bool"

definition absolutePath :: "string option \<Rightarrow> string \<Rightarrow> string" where
  "absolutePath cwd path = (case path_Abs cwd path of Some p \<Rightarrow> p | None \<Rightarrow> path)"

definition safeErrorReason :: "string \<Rightarrow> string" where
  "safeErrorReason t = TrimSpace t"

definition load_error_entry :: "string \<Rightarrow> string \<Rightarrow> session_entry" where
  "load_error_entry path absPath =
     \<lparr>se_SessionID = sessionIDFromPath path, se_Actor = no_actor, se_StartedAt = zero_time, se_ClosedAt = None, se_ExchangeCount = 0,
      se_InferredProfile = [], se_CASGrade = [], se_AnomalyFlags = [''load_error''], se_BundlePath = absPath\<rparr>"

fun index_paths :: "index_env \<Rightarrow> nat \<Rightarrow> string list \<Rightarrow> session_entry list \<Rightarrow> load_error list \<Rightarrow> session_entry list \<times> load_error list \<times> bool" where
  \<comment> \<open>the loop over the paths; the flag tells whether it ran to its end\<close>
  "index_paths x k [] entries errs = (entries, errs, True)"
| "index_paths x k (path # paths) entries errs =
     (let absPath = absolutePath (ix_cwd x) path
      in if ix_done x k then (entries, errs, False)
         else case ix_verified x path of
                Inl err \<Rightarrow> index_paths x (k + 1) paths (entries @ [load_error_entry path absPath])
                             (errs @ [\<lparr>le_Path = absPath, le_Reason = safeErrorReason (ix_text x err)\<rparr>])
              | Inr b \<Rightarrow> if ix_done x (k + 1) then (entries, errs, False)
                         else index_paths x (k + 2) paths (entries @ entriesForBundle (ix_verify x) (ix_load x) absPath b) errs)"

definition newer :: "session_entry \<Rightarrow> session_entry \<Rightarrow> bool" where
  \<comment> \<open>\<^verbatim>\<open>a.StartedAt.After(b.StartedAt)\<close>\<close>
  "newer a b = Before (se_StartedAt b) (se_StartedAt a)"

definition BuildIndex :: "index_env \<Rightarrow> string list \<Rightarrow> session_entry list \<times> index_error option" where
  "BuildIndex x bundles =
     (let (entries, errs, complete) = index_paths x 0 bundles [] []
      in if \<not> complete then (entries, Some IndexCancelled)
         else (sort_by newer entries, if errs = [] then None else Some (IndexLoadErrors errs)))"

definition ExtractLoadErrors :: "index_error option \<Rightarrow> load_error list" where
  "ExtractLoadErrors err = (case err of Some (IndexLoadErrors es) \<Rightarrow> es | _ \<Rightarrow> [])"

definition group_entry :: "session_entry \<Rightarrow> (string \<times> session_entry list) list \<Rightarrow> (string \<times> session_entry list) list" where
  "group_entry en grouped =
     (let name = TrimSpace (ac_DisplayName (se_Actor en)); key = (if name = [] then ''unknown'' else name)
      in map_store grouped key ((case map_of grouped key of None \<Rightarrow> [] | Some es \<Rightarrow> es) @ [en]))"

definition GroupByActor :: "session_entry list \<Rightarrow> (string \<times> session_entry list) list" where
  "GroupByActor entries = map (\<lambda>(k, es). (k, sort_by newer es)) (fold group_entry entries [])"

end
