(* ===== verification/Session_Props.thy ===== *)
theory Session_Props
  imports Session_Index "HOL-Library.Multiset"
begin

text \<open>
  What the session index says of a bundle: the one-pass grouping equals grouping by session first and summarising
  each group alone; every anomaly flag is characterised by the events of its session; and the index is sorted,
  with one marked entry and one error for every bundle that does not load.
\<close>

section \<open>Grouping\<close>

definition activity :: "atb_bundle \<Rightarrow> event list" where
  "activity b = filter (\<lambda>e. \<not> IsBundleLevelEvent (Type e)) (map Event (Records b))"

definition absorb :: "event \<Rightarrow> session_acc \<Rightarrow> session_acc" where
  "absorb e acc = applyEvent e (acc\<lparr>sa_seenSession := True, sa_events := sa_events acc @ [e]\<rparr>)"

definition session_of :: "string \<Rightarrow> string \<Rightarrow> event list \<Rightarrow> session_acc" where
  "session_of path sid es = fold absorb es (new_acc sid path)"

definition session_events :: "string \<Rightarrow> atb_bundle \<Rightarrow> string \<Rightarrow> event list" where
  "session_events path b sid = filter (\<lambda>e. SessionIDForEvent e path = sid) (activity b)"

lemma session_of_simps [simp]:
  "session_of path sid [] = new_acc sid path"
  "session_of path sid (es @ [e]) = absorb e (session_of path sid es)"
  by (simp_all add: session_of_def)

lemma append_unique_snoc:
  "append_unique dst (vs @ [v]) = (let d = append_unique dst vs in if v \<in> set d then d else d @ [v])"
  by (induction dst vs rule: append_unique.induct) (simp_all add: Let_def)

definition table_for :: "string \<Rightarrow> event list \<Rightarrow> session_table \<Rightarrow> bool" where
  "table_for path es st \<longleftrightarrow>
     snd st = append_unique [] (map (\<lambda>e. SessionIDForEvent e path) es) \<and>
     (\<forall>sid. map_of (fst st) sid =
        (if sid \<in> (\<lambda>e. SessionIDForEvent e path) ` set es
         then Some (session_of path sid (filter (\<lambda>e. SessionIDForEvent e path = sid) es)) else None))"

lemma add_to_session_table:
  assumes "table_for path es st"
  shows "table_for path (es @ [e]) (add_to_session path (SessionIDForEvent e path) e st)"
proof -
  define sid where "sid = SessionIDForEvent e path"
  define acc where "acc = session_of path sid (filter (\<lambda>e. SessionIDForEvent e path = sid) es)"
  have acc: "(case map_of (fst st) sid of Some a \<Rightarrow> a | None \<Rightarrow> new_acc sid path) = acc"
  proof (cases "sid \<in> (\<lambda>e. SessionIDForEvent e path) ` set es")
    case False
    then have "filter (\<lambda>e. SessionIDForEvent e path = sid) es = []" by (auto simp: filter_empty_conv)
    with False assms show ?thesis by (simp add: table_for_def acc_def)
  qed (use assms in \<open>simp add: table_for_def acc_def\<close>)
  have order: "append_unique [] (map (\<lambda>e. SessionIDForEvent e path) (es @ [e])) =
      (case map_of (fst st) sid of Some a \<Rightarrow> snd st | None \<Rightarrow> snd st @ [sid])"
    using assms by (auto simp: table_for_def append_unique_snoc Let_def sid_def [symmetric])
  have step: "add_to_session path sid e st =
      (map_store (fst st) sid (absorb e acc), case map_of (fst st) sid of Some a \<Rightarrow> snd st | None \<Rightarrow> snd st @ [sid])"
    unfolding acc [symmetric] by (cases "map_of (fst st) sid") (simp_all add: add_to_session_def absorb_def Let_def)
  show ?thesis
    unfolding sid_def [symmetric] step table_for_def order
    using assms by (auto simp: table_for_def acc_def sid_def)
qed

lemma index_table: "table_for path (filter (\<lambda>e. \<not> IsBundleLevelEvent (Type e)) (map Event rs)) (fold (index_record path) rs ([], []))"
proof (induction rs rule: rev_induct)
  case Nil
  show ?case by (simp add: table_for_def)
next
  case (snoc r rs)
  then show ?case using add_to_session_table [OF snoc, of "Event r"] by (simp add: index_record_def)
qed

lemma entry_absorb_seen: "sa_seenSession (absorb e acc)"
  by (simp add: absorb_def applyEvent_def apply_type_def apply_time_def Let_def split: option.splits)

lemma session_of_seen: "es \<noteq> [] \<Longrightarrow> sa_seenSession (session_of path sid es)"
  by (cases es rule: rev_cases) (simp_all add: entry_absorb_seen)

lemma entriesForBundle_eq:
  "entriesForBundle env load path b =
     map (\<lambda>sid. finish_entry env load path b (session_of path sid (session_events path b sid)))
       (append_unique [] (map (\<lambda>e. SessionIDForEvent e path) (activity b)))"
proof -
  obtain sessions order where st: "fold (index_record path) (Records b) ([], []) = (sessions, order)"
    by (cases "fold (index_record path) (Records b) ([], [])")
  have t: "table_for path (activity b) (sessions, order)"
    using index_table [of path "Records b"] by (simp add: st activity_def)
  have one: "(case map_of sessions sid of None \<Rightarrow> []
      | Some acc \<Rightarrow> if sa_seenSession acc then [finish_entry env load path b acc] else []) =
      [finish_entry env load path b (session_of path sid (session_events path b sid))]" if "sid \<in> set order" for sid
  proof -
    have "sid \<in> (\<lambda>e. SessionIDForEvent e path) ` set (activity b)"
      using that t by (simp add: table_for_def)
    moreover from this have "sa_seenSession (session_of path sid (session_events path b sid))"
      by (intro session_of_seen) (auto simp: session_events_def filter_empty_conv)
    ultimately show ?thesis using t by (simp add: table_for_def session_events_def)
  qed
  have "concat (map (\<lambda>sid. case map_of sessions sid of None \<Rightarrow> []
      | Some acc \<Rightarrow> if sa_seenSession acc then [finish_entry env load path b acc] else []) order) =
      map (\<lambda>sid. finish_entry env load path b (session_of path sid (session_events path b sid))) order"
    using one by (induction order) simp_all
  then show ?thesis using t by (simp add: entriesForBundle_def st table_for_def)
qed

lemma session_id_kept: "se_SessionID (sa_entry (session_of path sid es)) = sid"
  by (induction es rule: rev_induct)
    (simp_all add: new_acc_def absorb_def applyEvent_def apply_type_def apply_time_def Let_def split: option.splits)

section \<open>The accumulator\<close>

lemma split_snoc:
  "(\<exists>xs x ys. es @ [e] = xs @ x # ys \<and> P xs x) \<longleftrightarrow> (\<exists>xs x ys. es = xs @ x # ys \<and> P xs x) \<or> P es e"
proof
  assume "\<exists>xs x ys. es @ [e] = xs @ x # ys \<and> P xs x"
  then obtain xs x ys where "es @ [e] = xs @ x # ys" "P xs x" by blast
  then show "(\<exists>xs x ys. es = xs @ x # ys \<and> P xs x) \<or> P es e"
    by (cases ys rule: rev_cases) auto
qed (metis append_Cons append_assoc append_Nil)

lemmas absorb_defs = absorb_def applyEvent_def apply_type_def apply_time_def Let_def

lemma session_of_approval: "sa_approvalSeen (session_of path sid es) \<longleftrightarrow> (\<exists>e \<in> set es. Type e = ''atb.human.approval'')"
  by (induction es rule: rev_induct) (auto simp: new_acc_def absorb_defs split: option.splits)

lemma session_of_denied: "set (sa_deniedActions (session_of path sid es)) = {a. \<exists>e \<in> set es. denied_action e = Some a}"
  by (induction es rule: rev_induct) (auto simp: new_acc_def absorb_defs split: option.splits)

lemma session_of_failed: "sa_actionFailed (session_of path sid es) \<longleftrightarrow> (\<exists>e \<in> set es. Type e = ''ai.action.error'')"
  by (induction es rule: rev_induct) (auto simp: new_acc_def absorb_defs split: option.splits)

lemma session_of_closed:
  "sa_hasClose (session_of path sid es) \<longleftrightarrow> (\<exists>e \<in> set es. Type e = ''atb.session.close'' \<and> eventTime e \<noteq> None)"
  by (induction es rule: rev_induct) (auto simp: new_acc_def absorb_defs split: option.splits)

lemma session_of_tool:
  "sa_toolWithoutApproval (session_of path sid es) \<longleftrightarrow>
     (\<exists>xs e ys. es = xs @ e # ys \<and> Type e = ''atb.tool.call'' \<and> \<not> (\<exists>x \<in> set xs. Type x = ''atb.human.approval''))"
proof (induction es rule: rev_induct)
  case (snoc e es)
  have "sa_toolWithoutApproval (absorb e acc) \<longleftrightarrow>
      sa_toolWithoutApproval acc \<or> (Type e = ''atb.tool.call'' \<and> \<not> sa_approvalSeen acc)" for acc
    by (simp add: absorb_defs split: option.splits)
  then show ?case by (simp only: session_of_simps split_snoc snoc.IH session_of_approval)
qed (simp add: new_acc_def)

lemma session_of_denied_executed:
  "sa_deniedThenExecuted (session_of path sid es) \<longleftrightarrow>
     (\<exists>xs e ys. es = xs @ e # ys \<and> (\<exists>a. executed_action e = Some a \<and> (\<exists>x \<in> set xs. denied_action x = Some a)))"
proof (induction es rule: rev_induct)
  case (snoc e es)
  have "sa_deniedThenExecuted (absorb e acc) \<longleftrightarrow>
      sa_deniedThenExecuted acc \<or> (\<exists>a. executed_action e = Some a \<and> a \<in> set (sa_deniedActions acc))" for acc
    by (simp add: absorb_defs split: option.splits)
  then show ?case by (simp only: session_of_simps split_snoc snoc.IH session_of_denied mem_Collect_eq)
qed (simp add: new_acc_def)

definition first_name :: "event list \<Rightarrow> string" where
  "first_name es = (case find (\<lambda>n. n \<noteq> []) (map (\<lambda>e. ac_DisplayName (actorFromEvent e)) es) of None \<Rightarrow> [] | Some n \<Rightarrow> n)"

lemma first_name_snoc:
  "first_name (es @ [e]) = (if first_name es = [] then ac_DisplayName (actorFromEvent e) else first_name es)"
  by (induction es) (simp_all add: first_name_def)

lemma session_of_name: "ac_DisplayName (se_Actor (sa_entry (session_of path sid es))) = first_name es"
proof (induction es rule: rev_induct)
  case (snoc e es)
  then show ?case by (simp add: first_name_snoc absorb_defs merge_actor_def split: option.splits)
qed (simp add: new_acc_def first_name_def)

lemma session_of_events: "sa_events (session_of path sid es) = es"
  by (induction es rule: rev_induct) (simp_all add: new_acc_def absorb_defs split: option.splits)

section \<open>The index\<close>

lemma newer_sort: "sort_by newer es = sort_key (\<lambda>e. - instant (se_StartedAt e)) es"
  by (rule sort_by_key) (simp add: newer_def Before_def)

definition path_entries :: "index_env \<Rightarrow> string \<Rightarrow> session_entry list" where
  "path_entries x path =
     (case ix_verified x path of
        Inl err \<Rightarrow> [load_error_entry path (absolutePath (ix_cwd x) path)]
      | Inr b \<Rightarrow> entriesForBundle (ix_verify x) (ix_load x) (absolutePath (ix_cwd x) path) b)"

definition path_errors :: "index_env \<Rightarrow> string \<Rightarrow> load_error list" where
  "path_errors x path =
     (case ix_verified x path of
        Inl err \<Rightarrow> [\<lparr>le_Path = absolutePath (ix_cwd x) path, le_Reason = safeErrorReason (ix_text x err)\<rparr>]
      | Inr b \<Rightarrow> [])"

lemma index_paths_eq:
  assumes "\<And>k. \<not> ix_done x k"
  shows "index_paths x k paths entries errs =
     (entries @ concat (map (path_entries x) paths), errs @ concat (map (path_errors x) paths), True)"
  by (induction paths arbitrary: k entries errs) (simp_all add: assms path_entries_def path_errors_def Let_def split: sum.splits)

section \<open>Properties\<close>

text \<open>C25: the one-pass index of a bundle is the grouping by session. There is exactly one entry for every session that some
  event outside the bundle's own records belongs to, in the order of first appearance, and it depends only on
  the events of its session, in their order.\<close>

theorem sessions_partition:
  "entriesForBundle env load path b =
     map (\<lambda>sid. finish_entry env load path b (session_of path sid (session_events path b sid)))
       (append_unique [] (map (\<lambda>e. SessionIDForEvent e path) (activity b))) \<and>
   distinct (map se_SessionID (entriesForBundle env load path b)) \<and>
   set (map se_SessionID (entriesForBundle env load path b)) = (\<lambda>e. SessionIDForEvent e path) ` set (activity b)"
proof -
  have "map se_SessionID (entriesForBundle env load path b) = append_unique [] (map (\<lambda>e. SessionIDForEvent e path) (activity b))"
    by (simp add: entriesForBundle_eq finish_entry_def Let_def comp_def session_id_kept)
  then show ?thesis by (simp add: entriesForBundle_eq)
qed

lemma entry_flags:
  assumes "en \<in> set (entriesForBundle env load path b)"
  shows "se_AnomalyFlags en = anomalyFlags (session_of path (se_SessionID en) (session_events path b (se_SessionID en)))"
proof -
  from assms obtain sid where en: "en = finish_entry env load path b (session_of path sid (session_events path b sid))"
    by (auto simp: entriesForBundle_eq)
  then have "se_SessionID en = sid" by (simp add: finish_entry_def Let_def session_id_kept)
  then show ?thesis by (simp add: en finish_entry_def Let_def)
qed

text \<open>C26: the anomaly flags of a session say exactly this of its events, in this order: a tool call that no approval
  precedes; an action executed after a policy decision denied it; an action error; an actor whose first recorded
  name is unresolved; no closing event with a readable time.\<close>

theorem anomaly_flags_exact:
  assumes "en \<in> set (entriesForBundle env load path b)" "es = session_events path b (se_SessionID en)"
  shows "se_AnomalyFlags en =
    (if \<exists>xs e ys. es = xs @ e # ys \<and> Type e = ''atb.tool.call'' \<and> \<not> (\<exists>x \<in> set xs. Type x = ''atb.human.approval'')
     then [''tool_without_approval''] else []) @
    (if \<exists>xs e ys. es = xs @ e # ys \<and> (\<exists>a. executed_action e = Some a \<and> (\<exists>x \<in> set xs. denied_action x = Some a))
     then [''policy_denied_executed''] else []) @
    (if \<exists>e \<in> set es. Type e = ''ai.action.error'' then [''action_failed''] else []) @
    (if IsUnresolvedDisplayName (first_name es) then [''unresolved_identity''] else []) @
    (if \<not> (\<exists>e \<in> set es. Type e = ''atb.session.close'' \<and> eventTime e \<noteq> None) then [''session_not_closed''] else [])"
  unfolding entry_flags [OF assms(1)] assms(2) [symmetric]
  by (simp only: anomalyFlags_def session_of_tool session_of_denied_executed session_of_failed session_of_closed session_of_name)

text \<open>The index lists the sessions of all bundles, newest first, each once; a bundle that does not load contributes one
  entry with the flag \<^verbatim>\<open>load_error\<close> and one reported error, and no other bundle an error.\<close>

theorem BuildIndex_exact:
  assumes "\<And>k. \<not> ix_done x k" "BuildIndex x paths = (entries, err)"
  shows "sorted_wrt (\<lambda>a b. instant (se_StartedAt b) \<le> instant (se_StartedAt a)) entries \<and>
    mset entries = mset (concat (map (path_entries x) paths)) \<and>
    ExtractLoadErrors err = concat (map (path_errors x) paths) \<and>
    (err = None \<longleftrightarrow> list_all (\<lambda>p. is_ok (ix_verified x p)) paths)"
proof -
  define all where "all = concat (map (path_entries x) paths)"
  define errs where "errs = concat (map (path_errors x) paths)"
  from assms have b: "entries = sort_key (\<lambda>e. - instant (se_StartedAt e)) all"
      "err = (if errs = [] then None else Some (IndexLoadErrors errs))"
    by (auto simp: BuildIndex_def index_paths_eq newer_sort all_def errs_def)
  have "sorted (map (\<lambda>e. - instant (se_StartedAt e)) entries)" unfolding b(1) by (rule sorted_sort_key)
  then have s: "sorted_wrt (\<lambda>a b. instant (se_StartedAt b) \<le> instant (se_StartedAt a)) entries"
    by (simp add: sorted_map)
  have e: "errs = [] \<longleftrightarrow> list_all (\<lambda>p. is_ok (ix_verified x p)) paths"
    by (auto simp: errs_def path_errors_def list_all_iff is_ok_def split: sum.splits)
  show ?thesis using s e by (simp add: b ExtractLoadErrors_def all_def errs_def)
qed

section \<open>Examples\<close>

definition demo_event :: "int \<Rightarrow> string \<Rightarrow> (string \<times> any) list \<Rightarrow> bundle_record" where
  "demo_event n t data = new_record (zero_event\<lparr>Sequence := n, Type := t, Data := AMap data\<rparr>) []"

definition demo_sessions :: atb_bundle where
  "demo_sessions = \<lparr>Records =
     [demo_event 1 ''ai.policy.decision'' [(''session_id'', AString ''s1''), (''decision'', AString ''deny''), (''action_id'', AString '' a '')],
      demo_event 2 ''ai.action.executed'' [(''session_id'', AString ''s1''), (''action_id'', AString ''a'')],
      demo_event 3 ''ai.action.error'' [(''session_id'', AString ''s2'')]]\<rparr>"

definition demo_denial :: event where
  "demo_denial = Event (Records demo_sessions ! 0)"

definition demo_execution :: event where
  "demo_execution = Event (Records demo_sessions ! 1)"

lemma demo_session_events:
  "map (\<lambda>e. SessionIDForEvent e ''b.json'') (activity demo_sessions) = [''s1'', ''s1'', ''s2'']"
  "session_events ''b.json'' demo_sessions ''s1'' = [demo_denial, demo_execution]"
  by code_simp+

lemma demo_actions:
  "Type demo_denial = ''ai.policy.decision''" "Type demo_execution = ''ai.action.executed''"
  "denied_action demo_denial = Some ''a''" "executed_action demo_execution = Some ''a''"
  "IsUnresolvedDisplayName (first_name [demo_denial, demo_execution]) = False"
  by code_simp+

lemma split_Cons:
  "(\<exists>xs x ys. e # es = xs @ x # ys \<and> P xs x) \<longleftrightarrow> P [] e \<or> (\<exists>xs x ys. es = xs @ x # ys \<and> P (e # xs) x)"
  by (auto simp: Cons_eq_append_conv)

theorem anomaly_flags_exact_witness:
  "\<forall>env load. se_AnomalyFlags (hd (entriesForBundle env load ''b.json'' demo_sessions)) = [''policy_denied_executed'', ''session_not_closed'']"
proof (intro allI)
  fix env load
  let ?en = "hd (entriesForBundle env load ''b.json'' demo_sessions)"
  have en: "?en \<in> set (entriesForBundle env load ''b.json'' demo_sessions)"
    by (simp add: entriesForBundle_eq demo_session_events(1))
  have "se_SessionID ?en = ''s1''"
    by (simp add: entriesForBundle_eq demo_session_events(1) finish_entry_def Let_def session_id_kept)
  then have "[demo_denial, demo_execution] = session_events ''b.json'' demo_sessions (se_SessionID ?en)"
    by (simp only: demo_session_events(2))
  from anomaly_flags_exact [OF en this, unfolded split_Cons] show "se_AnomalyFlags ?en = [''policy_denied_executed'', ''session_not_closed'']"
    by (simp add: demo_actions)
qed

theorem BuildIndex_exact_witness:
  "\<forall>x. let y = x\<lparr>ix_done := (\<lambda>_. False), ix_verified := (\<lambda>_. Inl EmptyFile), ix_cwd := None\<rparr>
    in mset (fst (BuildIndex y [''a'', ''b''])) = mset [load_error_entry ''a'' ''a'', load_error_entry ''b'' ''b''] \<and>
       snd (BuildIndex y [''a'', ''b'']) \<noteq> None"
proof -
  have "let y = x\<lparr>ix_done := (\<lambda>_. False), ix_verified := (\<lambda>_. Inl EmptyFile), ix_cwd := None\<rparr>
    in mset (fst (BuildIndex y [''a'', ''b''])) = mset [load_error_entry ''a'' ''a'', load_error_entry ''b'' ''b''] \<and>
       snd (BuildIndex y [''a'', ''b'']) \<noteq> None" for x
    using BuildIndex_exact [of "x\<lparr>ix_done := (\<lambda>_. False), ix_verified := (\<lambda>_. Inl EmptyFile), ix_cwd := None\<rparr>" "[''a'', ''b'']",
        OF _ prod.collapse [symmetric]]
    by (simp add: Let_def path_entries_def absolutePath_def path_Abs_def)
  then show ?thesis by blast
qed

end
