(* ===== verification/Findings.thy ===== *)
theory Findings
  imports Session_Props
begin

text \<open>
  The explained findings of an incident report, \<^verbatim>\<open>internal/incident/findings.go\<close>: every anomaly flag of a session becomes a
  finding with its meaning and the sequence numbers of the events that triggered it. The theorems: the located
  events are exactly those the index raised the flag for, as long as the fields compared carry no surrounding white
  space; with it, the index raises a flag that the report cannot locate.
\<close>

section \<open>Findings\<close>

record finding =
  fi_Flag :: string
  fi_Severity :: string
  fi_Title :: string
  fi_Detail :: string
  fi_Basis :: string
  fi_SessionID :: string
  fi_ProfileID :: string
  fi_RuleID :: string
  fi_Boundedness :: string
  fi_WhatCanConclude :: string
  fi_WhatCannotConclude :: string
  fi_EventSeqs :: "int list"

record scoped_event =
  sc_seq :: int
  sc_typ :: string
  sc_data :: "(string \<times> any) list"

record flag_meta =
  fm_severity :: string
  fm_title :: string
  fm_detail :: string
  fm_canConclude :: string
  fm_cannotConclude :: string

definition em_dash :: string where
  \<comment> \<open>U+2014 in UTF-8\<close>
  "em_dash = [byte 0xE2, byte 0x80, byte 0x94]"

definition flagExplanations :: "(string \<times> flag_meta) list" where
  "flagExplanations =
     [(''tool_without_approval'',
       \<lparr>fm_severity = ''high'', fm_title = ''Tool call with no preceding approval'',
        fm_detail = ''No matching earlier human approval exists in the captured session evidence for this tool call.'',
        fm_canConclude = ''The captured evidence contains no earlier matching approval for the tool call.'',
        fm_cannotConclude = ''ATB cannot conclude that no approval existed outside the captured evidence.''\<rparr>),
      (''policy_denied_executed'',
       \<lparr>fm_severity = ''critical'', fm_title = ''Action executed after policy denial'',
        fm_detail = ''A captured policy decision denied an action with the same action_id before captured execution evidence was recorded.'',
        fm_canConclude = ''The presented records bind a denial and later execution evidence to the same action_id.'',
        fm_cannotConclude = ''ATB cannot determine from these records alone why execution followed the denial.''\<rparr>),
      (''action_failed'',
       \<lparr>fm_severity = ''medium'', fm_title = ''Action error recorded'',
        fm_detail = ''An ai.action.error was recorded: an attempted action did not complete successfully. Review the error event for the failure class.'',
        fm_canConclude = ''The producer recorded an action error in the captured evidence.'',
        fm_cannotConclude = ''ATB cannot independently establish the underlying system state from the producer assertion alone.''\<rparr>),
      (''unresolved_identity'',
       \<lparr>fm_severity = ''medium'', fm_title = ''Unresolved actor identity'',
        fm_detail = ''The session actor is an unattributed API key; the human or service principal behind it is not recorded, so actions cannot be attributed to a person.'',
        fm_canConclude = ''The captured actor metadata does not resolve the API key to a person or service principal.'',
        fm_cannotConclude = ''ATB cannot establish real-world identity from caller-supplied identifiers alone.''\<rparr>),
      (''session_not_closed'',
       \<lparr>fm_severity = ''low'', fm_title = ''Session not closed'',
        fm_detail = ''No atb.session.close event was recorded. The capture may be truncated, interrupted, or the session may still be open '' @ em_dash @ '' treat the event list as possibly incomplete.'',
        fm_canConclude = ''No session-close event exists in the captured evidence.'',
        fm_cannotConclude = ''ATB cannot distinguish an open session from uncaptured or lost close evidence.''\<rparr>),
      (''load_error'',
       \<lparr>fm_severity = ''high'', fm_title = ''Bundle could not be verified'',
        fm_detail = ''The bundle failed to load or verify cleanly during indexing. Its contents may be unreliable.'',
        fm_canConclude = ''ATB could not establish integrity for the presented bundle.'',
        fm_cannotConclude = ''ATB cannot use an integrity failure to infer what was or was not captured.''\<rparr>)]"

section \<open>Locating the triggers\<close>

type_synonym triggers = "(string \<times> int list) list"

definition add_trigger :: "string \<Rightarrow> int \<Rightarrow> triggers \<Rightarrow> triggers" where
  "add_trigger flag s t = map_store t flag ((case map_of t flag of None \<Rightarrow> [] | Some ss \<Rightarrow> ss) @ [s])"

definition locate_event :: "scoped_event \<Rightarrow> triggers \<times> bool \<times> string list \<Rightarrow> triggers \<times> bool \<times> string list" where
  \<comment> \<open>the triggers so far, whether an approval was seen, the denied actions; \<^verbatim>\<open>str\<close> does not trim\<close>
  "locate_event e = (\<lambda>(t, approvalSeen, denied).
     if sc_typ e = ''atb.human.approval'' then (t, True, denied)
     else if sc_typ e = ''atb.tool.call'' then (if approvalSeen then t else add_trigger ''tool_without_approval'' (sc_seq e) t, approvalSeen, denied)
     else if sc_typ e = ''ai.policy.decision'' then
       (t, approvalSeen,
        denied @ (if field_string (sc_data e) ''decision'' = ''deny'' \<and> field_string (sc_data e) ''action_id'' \<noteq> []
                  then [field_string (sc_data e) ''action_id''] else []))
     else if sc_typ e = ''ai.action.executed'' \<or> sc_typ e = ''ai.action.committed'' then
       (let actionID = field_string (sc_data e) ''action_id''
        in if actionID \<noteq> [] \<and> actionID \<in> set denied then add_trigger ''policy_denied_executed'' (sc_seq e) t else t, approvalSeen, denied)
     else if sc_typ e = ''ai.action.error'' then (add_trigger ''action_failed'' (sc_seq e) t, approvalSeen, denied)
     else (t, approvalSeen, denied))"

definition locateTriggers :: "scoped_event list \<Rightarrow> triggers" where
  "locateTriggers events = map (\<lambda>(flag, ss). (flag, sort ss)) (fst (fold locate_event events ([], False, [])))"

definition explain_flag :: "triggers \<Rightarrow> string \<Rightarrow> finding" where
  "explain_flag t flag =
     (case map_of flagExplanations flag of
        None \<Rightarrow>
          \<lparr>fi_Flag = flag, fi_Severity = ''unknown'', fi_Title = flag,
           fi_Detail = ''Flagged by the session index; no detailed explanation is registered for this flag.'',
           fi_Basis = ''session index anomaly flag'', fi_SessionID = [], fi_ProfileID = [], fi_RuleID = [], fi_Boundedness = ''inconclusive'',
           fi_WhatCanConclude = ''The session index emitted this anomaly flag.'',
           fi_WhatCannotConclude = ''No stronger conclusion is registered for this flag.'', fi_EventSeqs = []\<rparr>
      | Some m \<Rightarrow>
          \<lparr>fi_Flag = flag, fi_Severity = fm_severity m, fi_Title = fm_title m, fi_Detail = fm_detail m,
           fi_Basis = ''captured event sequence and session-index rule'', fi_SessionID = [], fi_ProfileID = [],
           fi_RuleID = ''session_index:'' @ flag, fi_Boundedness = ''bounded'', fi_WhatCanConclude = fm_canConclude m,
           fi_WhatCannotConclude = fm_cannotConclude m,
           fi_EventSeqs = (case map_of t flag of None \<Rightarrow> [] | Some ss \<Rightarrow> ss)\<rparr>)"

definition buildFindings :: "string list \<Rightarrow> scoped_event list \<Rightarrow> finding list" where
  "buildFindings flags events = map (explain_flag (locateTriggers events)) flags"

definition triggered_step :: "string \<times> int \<Rightarrow> (int \<times> string list) list \<Rightarrow> (int \<times> string list) list" where
  "triggered_step p m = (let (flag, s) = p in map_store m s ((case map_of m s of None \<Rightarrow> [] | Some fs \<Rightarrow> fs) @ [flag]))"

definition triggeredFlagsBySeq :: "finding list \<Rightarrow> (int \<times> string list) list" where
  "triggeredFlagsBySeq fs =
     map (\<lambda>(s, flags). (s, SortStrings flags))
       (fold triggered_step (concat (map (\<lambda>f. map (\<lambda>s. (fi_Flag f, s)) (fi_EventSeqs f)) fs)) [])"

definition scoped_of :: "event \<Rightarrow> scoped_event" where
  "scoped_of e = \<lparr>sc_seq = Sequence e, sc_typ = Type e, sc_data = eventDataMap e\<rparr>"

section \<open>The findings of a bundle\<close>

definition other_bundle :: "string option \<Rightarrow> string \<Rightarrow> session_entry \<Rightarrow> bool" where
  \<comment> \<open>a session of another bundle, by its absolute path; the path is empty when it cannot be made absolute\<close>
  "other_bundle cwd bundlePath en =
     (let loadedPath = (if bundlePath = [] then [] else case path_Abs cwd bundlePath of Some p \<Rightarrow> p | None \<Rightarrow> [])
      in loadedPath \<noteq> [] \<and> se_BundlePath en \<noteq> [] \<and>
         (case path_Abs cwd (se_BundlePath en) of Some p \<Rightarrow> p \<noteq> loadedPath | None \<Rightarrow> False))"

definition session_findings :: "atb_bundle \<Rightarrow> string \<Rightarrow> session_entry \<Rightarrow> finding list" where
  "session_findings b bundlePath en =
     (let path = (if bundlePath = [] then se_BundlePath en else bundlePath);
          scoped = map scoped_of (filter (\<lambda>e. \<not> IsBundleLevelEvent (Type e) \<and> SessionIDForEvent e path = se_SessionID en) (map Event (Records b)))
      in map (\<lambda>f. f\<lparr>fi_SessionID := se_SessionID en, fi_ProfileID := se_InferredProfile en\<rparr>) (buildFindings (se_AnomalyFlags en) scoped))"

definition finding_less :: "finding \<Rightarrow> finding \<Rightarrow> bool" where
  "finding_less f g = (if fi_SessionID f = fi_SessionID g then fi_Flag f < fi_Flag g else fi_SessionID f < fi_SessionID g)"

definition BuildBundleFindings :: "string option \<Rightarrow> atb_bundle option \<Rightarrow> string \<Rightarrow> session_entry list \<Rightarrow> finding list" where
  "BuildBundleFindings cwd b bundlePath sessions =
     (case b of
        None \<Rightarrow> []
      | Some bndl \<Rightarrow>
          if sessions = [] then []
          else sort_by finding_less
                 (concat (map (session_findings bndl bundlePath) (filter (\<lambda>en. \<not> other_bundle cwd bundlePath en) sessions))))"

section \<open>What is located\<close>

definition seqs :: "string \<Rightarrow> triggers \<Rightarrow> int list" where
  "seqs flag t = (case map_of t flag of None \<Rightarrow> [] | Some ss \<Rightarrow> ss)"

lemma seqs_add_trigger [simp]: "seqs f (add_trigger g s t) = seqs f t @ (if f = g then [s] else [])"
  by (simp add: seqs_def add_trigger_def)

lemma seqs_sorted [simp]: "seqs f (map (\<lambda>(g, ss). (g, sort ss)) t) = sort (seqs f t)"
  by (induction t) (auto simp: seqs_def)

text \<open>A flag is triggered by an event after the events before it in the session.\<close>

definition triggering :: "string \<Rightarrow> event list \<Rightarrow> event \<Rightarrow> bool" where
  "triggering flag xs e \<longleftrightarrow>
     (flag = ''tool_without_approval'' \<and> Type e = ''atb.tool.call'' \<and> \<not> (\<exists>x \<in> set xs. Type x = ''atb.human.approval'')) \<or>
     (flag = ''policy_denied_executed'' \<and> (\<exists>a. executed_action e = Some a \<and> (\<exists>x \<in> set xs. denied_action x = Some a))) \<or>
     (flag = ''action_failed'' \<and> Type e = ''ai.action.error'')"

definition event_flags :: "string list" where
  "event_flags = [''tool_without_approval'', ''policy_denied_executed'', ''action_failed'']"

definition trimmed :: "event \<Rightarrow> bool" where
  "trimmed e = list_all (\<lambda>k. stringField (eventDataMap e) k = field_string (eventDataMap e) k) [''decision'', ''action_id'']"

definition located :: "event list \<Rightarrow> triggers \<times> bool \<times> string list \<Rightarrow> bool" where
  "located es st \<longleftrightarrow>
     (\<forall>flag. set (seqs flag (fst st)) = {s. \<exists>xs e ys. es = xs @ e # ys \<and> triggering flag xs e \<and> s = Sequence e}) \<and>
     (fst (snd st) \<longleftrightarrow> (\<exists>e \<in> set es. Type e = ''atb.human.approval'')) \<and>
     set (snd (snd st)) = {a. \<exists>e \<in> set es. denied_action e = Some a}"

lemma located_step:
  assumes "located es st" "trimmed e"
  shows "located (es @ [e]) (locate_event (scoped_of e) st)"
proof -
  obtain t a d where st: "st = (t, a, d)" by (cases st)
  from assms(1) have t: "set (seqs flag t) = {s. \<exists>xs e ys. es = xs @ e # ys \<and> triggering flag xs e \<and> s = Sequence e}"
    and a: "a \<longleftrightarrow> (\<exists>e \<in> set es. Type e = ''atb.human.approval'')"
    and d: "set d = {a. \<exists>e \<in> set es. denied_action e = Some a}" for flag
    by (simp_all add: st located_def)
  have trim: "stringField (eventDataMap e) ''decision'' = field_string (eventDataMap e) ''decision''"
      "stringField (eventDataMap e) ''action_id'' = field_string (eventDataMap e) ''action_id''"
    using assms(2) by (simp_all add: trimmed_def)
  have flags: "triggering flag es e \<longleftrightarrow>
      (flag = ''tool_without_approval'' \<and> Type e = ''atb.tool.call'' \<and> \<not> a) \<or>
      (flag = ''policy_denied_executed'' \<and> (\<exists>x. executed_action e = Some x \<and> x \<in> set d)) \<or>
      (flag = ''action_failed'' \<and> Type e = ''ai.action.error'')" for flag
    by (simp only: triggering_def a d mem_Collect_eq)
  obtain t' a' d' where st': "locate_event (scoped_of e) st = (t', a', d')" by (cases "locate_event (scoped_of e) st")
  have t': "set (seqs flag t') = set (seqs flag t) \<union> {s. triggering flag es e \<and> s = Sequence e}" for flag
    using st' unfolding flags st
    by (auto simp: locate_event_def scoped_of_def executed_action_def trim Let_def split: if_splits)
  have a': "a' \<longleftrightarrow> a \<or> Type e = ''atb.human.approval''"
    using st' by (auto simp: st locate_event_def scoped_of_def Let_def split: if_splits)
  have d': "set d' = set d \<union> {x. denied_action e = Some x}"
    using st' by (auto simp: st locate_event_def scoped_of_def denied_action_def trim Let_def split: if_splits)
  show ?thesis
    unfolding st' located_def fst_conv snd_conv split_snoc
  proof (intro conjI allI)
    fix flag
    show "set (seqs flag t') = {s. (\<exists>xs x ys. es = xs @ x # ys \<and> triggering flag xs x \<and> s = Sequence x) \<or> triggering flag es e \<and> s = Sequence e}"
      unfolding t' t by (rule Collect_disj_eq [symmetric])
  qed (auto simp: a' d' a d)
qed

lemma locate_all: "list_all trimmed es \<Longrightarrow> located es (fold locate_event (map scoped_of es) ([], False, []))"
proof (induction es rule: rev_induct)
  case (snoc e es)
  then show ?case using located_step by simp
qed (simp add: located_def seqs_def)

lemma explain_flag_seqs: "flag \<in> set event_flags \<Longrightarrow> fi_EventSeqs (explain_flag t flag) = seqs flag t"
  by (auto simp: event_flags_def explain_flag_def flagExplanations_def seqs_def)

lemma explain_flag_flag [simp]: "fi_Flag (explain_flag t flag) = flag"
  by (simp add: explain_flag_def split: option.splits)

lemma raised_triggered:
  assumes "flag \<in> set (anomalyFlags (session_of path sid es))" "flag \<in> set event_flags"
  shows "\<exists>xs e ys. es = xs @ e # ys \<and> triggering flag xs e"
proof -
  from assms(2) consider "flag = ''tool_without_approval''" | "flag = ''policy_denied_executed''" | "flag = ''action_failed''"
    by (auto simp: event_flags_def)
  then show ?thesis
  proof cases
    case 1
    with assms(1) have "sa_toolWithoutApproval (session_of path sid es)" by (auto simp: anomalyFlags_def split: if_splits)
    with 1 show ?thesis by (simp only: session_of_tool triggering_def simp_thms) blast
  next
    case 2
    with assms(1) have "sa_deniedThenExecuted (session_of path sid es)" by (auto simp: anomalyFlags_def split: if_splits)
    with 2 show ?thesis by (simp only: session_of_denied_executed triggering_def simp_thms) blast
  next
    case 3
    with assms(1) have "sa_actionFailed (session_of path sid es)" by (auto simp: anomalyFlags_def split: if_splits)
    then obtain e where "e \<in> set es" "Type e = ''ai.action.error''" by (auto simp: session_of_failed)
    with 3 show ?thesis by (metis split_list triggering_def)
  qed
qed

lemma session_findings_eq:
  "path \<noteq> [] \<Longrightarrow> session_findings b path en =
     map (\<lambda>flag. (explain_flag (locateTriggers (map scoped_of (session_events path b (se_SessionID en)))) flag)
            \<lparr>fi_SessionID := se_SessionID en, fi_ProfileID := se_InferredProfile en\<rparr>) (se_AnomalyFlags en)"
  by (simp add: session_findings_def buildFindings_def session_events_def activity_def Let_def comp_def conj_commute)

lemma locateTriggers_set:
  "list_all trimmed es \<Longrightarrow>
     set (seqs flag (locateTriggers (map scoped_of es))) = {s. \<exists>xs e ys. es = xs @ e # ys \<and> triggering flag xs e \<and> s = Sequence e}"
  using locate_all [of es] by (simp only: locateTriggers_def seqs_sorted set_sort located_def)

lemma first_finding:
  assumes "path \<noteq> []" "se_AnomalyFlags en = flag # flags" "flag \<in> set event_flags"
    and "es = session_events path b (se_SessionID en)" "f = hd (session_findings b path en)"
  shows "f \<in> set (session_findings b path en)" "fi_Flag f = flag" "fi_EventSeqs f = seqs flag (locateTriggers (map scoped_of es))"
  using assms by (simp_all add: session_findings_eq explain_flag_seqs)

section \<open>Properties\<close>

text \<open>C29: findings are located. As long as no decision or action identifier of the session carries surrounding white space, the
  events a finding names are exactly the events of its session that triggered its flag, and a finding for a flag
  that events trigger always names at least one.\<close>

theorem findings_located:
  assumes "en \<in> set (entriesForBundle env load path b)" "path \<noteq> []" "f \<in> set (session_findings b path en)"
    and "es = session_events path b (se_SessionID en)" "list_all trimmed es" "fi_Flag f \<in> set event_flags"
  shows "set (fi_EventSeqs f) = {s. \<exists>xs e ys. es = xs @ e # ys \<and> triggering (fi_Flag f) xs e \<and> s = Sequence e} \<and>
    fi_EventSeqs f \<noteq> [] \<and> sorted (fi_EventSeqs f)"
proof -
  let ?t = "locateTriggers (map scoped_of es)"
  from assms(3) obtain flag where flag: "flag \<in> set (se_AnomalyFlags en)"
      "f = (explain_flag ?t flag)\<lparr>fi_SessionID := se_SessionID en, fi_ProfileID := se_InferredProfile en\<rparr>"
    by (auto simp: session_findings_eq [OF assms(2)] assms(4))
  then have f: "fi_Flag f = flag" by simp
  with flag(2) assms(6) have seqs: "fi_EventSeqs f = seqs flag ?t" by (simp add: explain_flag_seqs)
  have "flag \<in> set (anomalyFlags (session_of path (se_SessionID en) es))"
    using flag(1) unfolding entry_flags [OF assms(1)] assms(4) .
  from raised_triggered [OF this] assms(6) f obtain xs e ys where "es = xs @ e # ys" "triggering flag xs e" by auto
  then have "set (seqs flag ?t) \<noteq> {}" unfolding locateTriggers_set [OF assms(5)] by blast
  moreover have "sorted (seqs flag ?t)" by (simp only: locateTriggers_def seqs_sorted sorted_sort)
  ultimately show ?thesis unfolding f seqs locateTriggers_set [OF assms(5), symmetric] by (simp only: set_empty simp_thms)
qed

definition demo_trimmed :: atb_bundle where
  "demo_trimmed = \<lparr>Records =
     [demo_event 1 ''ai.policy.decision'' [(''session_id'', AString ''s1''), (''decision'', AString ''deny''), (''action_id'', AString ''a'')],
      demo_event 2 ''ai.action.executed'' [(''session_id'', AString ''s1''), (''action_id'', AString ''a'')]]\<rparr>"

lemma demo_trimmed_facts:
  "map (\<lambda>e. SessionIDForEvent e ''b.json'') (activity demo_trimmed) = [''s1'', ''s1'']"
  "session_events ''b.json'' demo_trimmed ''s1'' = map Event (Records demo_trimmed)"
  "list_all trimmed (map Event (Records demo_trimmed))"
  "anomalyFlags (session_of ''b.json'' ''s1'' (map Event (Records demo_trimmed))) = [''policy_denied_executed'', ''session_not_closed'']"
  "seqs ''policy_denied_executed'' (locateTriggers (map scoped_of (map Event (Records demo_trimmed)))) = [2]"
  by code_simp+

theorem findings_located_witness:
  "\<forall>env load. let en = hd (entriesForBundle env load ''b.json'' demo_trimmed); f = hd (session_findings demo_trimmed ''b.json'' en)
    in fi_Flag f = ''policy_denied_executed'' \<and> fi_EventSeqs f = [2] \<and>
       {s. \<exists>xs e ys. map Event (Records demo_trimmed) = xs @ e # ys \<and> triggering ''policy_denied_executed'' xs e \<and> s = Sequence e} = {2}"
proof (intro allI)
  fix env load
  let ?es = "map Event (Records demo_trimmed)"
  define en where "en = hd (entriesForBundle env load ''b.json'' demo_trimmed)"
  define f where "f = hd (session_findings demo_trimmed ''b.json'' en)"
  have en: "en \<in> set (entriesForBundle env load ''b.json'' demo_trimmed)"
    by (simp add: en_def entriesForBundle_eq demo_trimmed_facts(1))
  have sid: "se_SessionID en = ''s1''"
    by (simp add: en_def entriesForBundle_eq demo_trimmed_facts(1) finish_entry_def Let_def session_id_kept)
  have es: "?es = session_events ''b.json'' demo_trimmed (se_SessionID en)" unfolding sid demo_trimmed_facts(2) ..
  have flags: "se_AnomalyFlags en = [''policy_denied_executed'', ''session_not_closed'']"
    unfolding entry_flags [OF en] sid demo_trimmed_facts(2,4) ..
  have f: "f \<in> set (session_findings demo_trimmed ''b.json'' en)" "fi_Flag f = ''policy_denied_executed''" "fi_EventSeqs f = [2]"
    using first_finding [OF _ flags _ es f_def] demo_trimmed_facts(5) by (simp_all add: event_flags_def)
  from findings_located [OF en _ f(1) es demo_trimmed_facts(3)] f(2,3)
  have "{s. \<exists>xs e ys. ?es = xs @ e # ys \<and> triggering ''policy_denied_executed'' xs e \<and> s = Sequence e} = {2}"
    by (simp add: event_flags_def)
  with f(2,3) show "let en = hd (entriesForBundle env load ''b.json'' demo_trimmed); f = hd (session_findings demo_trimmed ''b.json'' en)
    in fi_Flag f = ''policy_denied_executed'' \<and> fi_EventSeqs f = [2] \<and>
       {s. \<exists>xs e ys. ?es = xs @ e # ys \<and> triggering ''policy_denied_executed'' xs e \<and> s = Sequence e} = {2}"
    unfolding Let_def en_def [symmetric] f_def [symmetric] by blast
qed

lemma demo_untrimmed_facts:
  "anomalyFlags (session_of ''b.json'' ''s1'' [demo_denial, demo_execution]) = [''policy_denied_executed'', ''session_not_closed'']"
  "seqs ''policy_denied_executed'' (locateTriggers (map scoped_of [demo_denial, demo_execution])) = []"
  by code_simp+

text \<open>With surrounding white space the report loses the trigger. When a denied action identifier is padded with a space, the
  index raises \<^verbatim>\<open>policy_denied_executed\<close> because it compares trimmed identifiers, and the finding that explains it
  names no event because the report compares them untrimmed.\<close>

theorem denial_not_located:
  "let en = hd (entriesForBundle env load ''b.json'' demo_sessions); f = hd (session_findings demo_sessions ''b.json'' en)
   in fi_Flag f = ''policy_denied_executed'' \<and> fi_EventSeqs f = []"
proof -
  define en where "en = hd (entriesForBundle env load ''b.json'' demo_sessions)"
  have en: "en \<in> set (entriesForBundle env load ''b.json'' demo_sessions)"
    by (simp add: en_def entriesForBundle_eq demo_session_events(1))
  have sid: "se_SessionID en = ''s1''"
    by (simp add: en_def entriesForBundle_eq demo_session_events(1) finish_entry_def Let_def session_id_kept)
  have flags: "se_AnomalyFlags en = [''policy_denied_executed'', ''session_not_closed'']"
    unfolding entry_flags [OF en] sid demo_session_events(2) demo_untrimmed_facts(1) ..
  have es: "[demo_denial, demo_execution] = session_events ''b.json'' demo_sessions (se_SessionID en)"
    unfolding sid demo_session_events(2) ..
  from first_finding [OF _ flags _ es refl] show ?thesis
    unfolding Let_def en_def [symmetric] demo_untrimmed_facts(2) by (simp add: event_flags_def)
qed

end
