(* ===== verification/Incident.thy ===== *)
theory Incident
  imports Findings
begin

text \<open>
  The incident report on one session, \<^verbatim>\<open>internal/incident/incident.go\<close> and \<^verbatim>\<open>pack.go\<close>, with the reviewer identities of
  \<^verbatim>\<open>internal/identityevidence\<close>: assembling the report from the bundle, the verifier and the session index, the NDJSON and
  Markdown renderings, and the evidence package. Theorems: text from a bundle cannot add structure to the rendered
  report and is displayed unchanged; a session the index lists can be one the report does not find.
\<close>

section \<open>Rendering\<close>

function replace_all :: "string \<Rightarrow> string \<Rightarrow> string \<Rightarrow> string" where
  \<comment> \<open>\<^verbatim>\<open>strings.ReplaceAll\<close> for a non-empty pattern\<close>
  "replace_all old new [] = []"
| "replace_all old new (c # s) =
     (if old \<noteq> [] \<and> HasPrefix (c # s) old then new @ replace_all old new (drop (length old - 1) s)
      else c # replace_all old new s)"
  by pat_completeness auto
termination by (relation "measure (\<lambda>(_, _, s). length s)") auto

definition md_escaped :: "char list" where
  "md_escaped = [CHR 0x5C, CHR 0x60, CHR ''*'', CHR ''_'', CHR ''~'', CHR ''['', CHR '']'', CHR ''<'', CHR ''>'', CHR ''|'', CHR ''@'']"

definition md_char :: "char \<Rightarrow> string" where
  \<comment> \<open>the replacer: all patterns are single bytes\<close>
  "md_char c = (if c \<in> set md_escaped then [CHR 0x5C, c] else if c = CHR 0x0D \<or> c = CHR 0x0A then '' '' else [c])"

definition markdownInline :: "string \<Rightarrow> string" where
  "markdownInline value = concat (map md_char (replace_all ''://'' ('':'' @ [byte 0xE2, byte 0x80, byte 0x8B] @ ''//'') value))"

definition orDash :: "string \<Rightarrow> string" where
  "orDash s = (if TrimSpace s = [] then em_dash else s)"

definition shortHash :: "string \<Rightarrow> string" where
  "shortHash h = (if length h > 16 then take 16 h @ [byte 0xE2, byte 0x80, byte 0xA6] else h)"

definition joinSeqs :: "int list \<Rightarrow> string" where
  "joinSeqs ss = Join (map show_int ss) '', ''"

definition actorLabel :: "actor_summary \<Rightarrow> string" where
  "actorLabel a =
     (if ac_DisplayName a \<noteq> [] \<and> ac_Email a \<noteq> [] then ac_DisplayName a @ '' <'' @ ac_Email a @ ''>''
      else if ac_DisplayName a \<noteq> [] then ac_DisplayName a else em_dash)"

definition signatureSummary :: "(signature_error \<Rightarrow> string) \<Rightarrow> signature_provenance list \<Rightarrow> string" where
  "signatureSummary sig_text sigs =
     (if sigs = [] then ''none (unsigned bundle)''
      else let latest = last sigs;
               parts = [if sp_Valid latest then ''valid'' else ''INVALID''] @
                       (if sp_PubKey latest \<noteq> [] then [''pubkey '' @ shortHash (sp_PubKey latest)] else []) @
                       (if sp_SignedAt latest \<noteq> [] then [''signed '' @ sp_SignedAt latest] else []) @
                       (if sp_Backend latest \<noteq> [] then [''backend '' @ sp_Backend latest] else []);
               summary = Join parts '', '';
               summary1 = (if length sigs > 1 then show_nat (length sigs) @ '' signatures; latest: '' @ summary else summary);
               err = (case sp_Error latest of None \<Rightarrow> [] | Some e \<Rightarrow> sig_text e)
           in if \<not> sp_Valid latest \<and> err \<noteq> [] then summary1 @ '' ('' @ err @ '')'' else summary1)"

section \<open>Events of the session\<close>

record event_row =
  er_Seq :: int
  er_Type :: string
  er_Timestamp :: string
  er_Hash :: string
  er_Summary :: string

record capture_scope =
  cs_Targets :: "string list"
  cs_CaptureMode :: string
  cs_OutOfScope :: string

record identity_evidence =
  ie_EventType :: string
  ie_Sequence :: int
  ie_IdentityProvider :: string
  ie_Subject :: string
  ie_AuthContext :: string
  ie_AssertionType :: string
  ie_AssertionDigest :: string
  ie_RawEvidenceDigest :: string
  ie_Verification :: string

definition identity_of :: "bundle_record \<Rightarrow> identity_evidence list" where
  "identity_of r =
     (case as_map (field (eventDataMap (Event r)) ''identity_evidence'') of
        None \<Rightarrow> []
      | Some raw \<Rightarrow>
          (let e = \<lparr>ie_EventType = Type (Event r), ie_Sequence = Sequence (Event r),
                 ie_IdentityProvider = stringField raw ''identity_provider'', ie_Subject = stringField raw ''subject'',
                 ie_AuthContext = stringField raw ''auth_context'', ie_AssertionType = stringField raw ''assertion_type'',
                 ie_AssertionDigest = stringField raw ''assertion_digest'', ie_RawEvidenceDigest = stringField raw ''raw_evidence_digest'',
                 ie_Verification = ''caller_provided_unverified''\<rparr>
           in if ie_IdentityProvider e = [] \<or> ie_Subject e = [] \<or> ie_AssertionType e = [] \<or> ie_AssertionDigest e = [] then [] else [e]))"

definition identity_Extract :: "atb_bundle option \<Rightarrow> identity_evidence list" where
  "identity_Extract b = (case b of None \<Rightarrow> [] | Some bndl \<Rightarrow> concat (map identity_of (Records bndl)))"

definition identity_Summary :: "identity_evidence \<Rightarrow> string" where
  "identity_Summary e =
     ''caller-provided identity evidence: provider='' @ ie_IdentityProvider e @ '' subject='' @ ie_Subject e @
     '' assertion='' @ ie_AssertionType e @ '' digest='' @ ie_AssertionDigest e"

definition identityEvidenceForSession :: "atb_bundle \<Rightarrow> string \<Rightarrow> identity_evidence list" where
  "identityEvidenceForSession b sessionID =
     (let ss = map (\<lambda>r. Sequence (Event r)) (filter (\<lambda>r. eventSessionID (Event r) = sessionID) (Records b))
      in filter (\<lambda>e. ie_Sequence e \<in> set ss) (identity_Extract (Some b)))"

definition captureScopeFrom :: "event \<Rightarrow> capture_scope option" where
  "captureScopeFrom e =
     (case as_map (Data e) of
        None \<Rightarrow> None
      | Some data \<Rightarrow>
          Some \<lparr>cs_Targets = (case field data ''targets'' of AList ts \<Rightarrow> List.map_filter as_string ts | _ \<Rightarrow> []),
                cs_CaptureMode = field_string data ''capture_mode'', cs_OutOfScope = field_string data ''out_of_scope''\<rparr>)"

definition principalSummary :: "(string \<times> any) list \<Rightarrow> string" where
  "principalSummary data =
     (case as_map (field data ''principal'') of
        None \<Rightarrow> []
      | Some p \<Rightarrow>
          (let typ = field_string p ''type''; pid = field_string p ''id_hash''; obo = field_string p ''on_behalf_of''
           in if TrimSpace typ = [] \<or> TrimSpace pid = [] then []
              else ''by '' @ typ @ '':'' @ pid @ (if TrimSpace obo \<noteq> [] then '' on_behalf_of '' @ obo else [])))"

definition summarise :: "event \<Rightarrow> string" where
  "summarise e =
     (let data = eventDataMap e; get = stringField data; t = Type e
      in if t = ''ai.action.precommit'' then
           (let base = ''action='' @ get ''action_type''; p = principalSummary data in if p \<noteq> [] then base @ '' '' @ p else base)
         else if t = ''ai.action.executed'' then
           (let base = ''executed outcome='' @ get ''execution_outcome''; scope = get ''effective_scope''
            in if scope \<noteq> [] then base @ '' scope='' @ scope else base)
         else if t = ''atb.tool.call'' then ''tool='' @ get ''tool_name''
         else if t = ''ai.action.error'' then ''action='' @ get ''action_id'' @ '' error_class='' @ get ''error_class''
         else if t = ''atb.llm.request'' then TrimSpace (get ''method'' @ '' '' @ get ''path'')
         else if t = ''atb.llm.response'' then
           (let s = TrimSpace (get ''method'' @ '' '' @ get ''path'')
            in case intField data ''status_code'' of
                 Some code \<Rightarrow> s @ '' '' @ [byte 0xE2, byte 0x86, byte 0x92] @ '' '' @ show_int code
               | None \<Rightarrow> s)
         else if t = ''ai.policy.decision'' then ''decision='' @ get ''decision''
         else if t = ''ai.human.approval'' then ''approval='' @ get ''approval_outcome''
         else if t = ''atb.human.approval'' then ''approved='' @ get ''approved_action_id''
         else if t = ''atb.human.override'' then
           (if get ''overridden_action_id'' \<noteq> [] then ''override='' @ get ''overridden_action_id'' else ''human override'')
         else if t = TypeCaptureScope then ''capture='' @ get ''capture_mode''
         else if t = ''data.export.executed'' then
           (if get ''execution_outcome'' \<noteq> [] then ''export outcome='' @ get ''execution_outcome'' else ''export'')
         else if t = ''data.export.error'' then
           (if get ''error_class'' \<noteq> [] then ''export action='' @ get ''action_id'' @ '' error_class='' @ get ''error_class'' else ''export error'')
         else if t = ''atb.data.export'' then
           (if get ''export_target'' \<noteq> [] then ''export='' @ get ''export_target'' else ''export'')
         else if t = ''data.retention.policy_set'' \<or> t = ''data.retention.policy_changed'' then
           (case intField data ''days'' of Some d \<Rightarrow> ''retention='' @ show_int d @ ''d'' | None \<Rightarrow> ''retention policy'')
         else if t = ''data.retention.enforced'' then TrimSpace (get ''operation'' @ '' outcome='' @ get ''outcome'')
         else [])"

section \<open>The report\<close>

record incident_report =
  in_BundlePath :: string
  in_SessionID :: string
  in_Found :: bool
  in_IntegrityValid :: bool
  in_ChainHeadHash :: string
  in_Signatures :: "signature_provenance list"
  in_CaptureScope :: "capture_scope option"
  in_Session :: "session_entry option"
  in_Findings :: "finding list"
  in_ReviewerIdentities :: "identity_evidence list"
  in_Events :: "event_row list"

datatype incident_error = SessionIDRequired | IncidentLoad string | NoSessionEvents string | IncidentRead string | IncidentEncode

definition incident_config :: "string \<Rightarrow> bundle_record list \<Rightarrow> evaluate_config" where
  "incident_config bundlePath records =
     \<lparr>ec_BundlePath = bundlePath, ec_Records = records, ec_Profiles = [], ec_AllApplicable = True, ec_AnchorRequired = False,
      ec_RequireValidChain = False, ec_StrictSourceSignatures = False, ec_Corroboration = None\<rparr>"

definition incident_verdict :: "index_env \<Rightarrow> string \<Rightarrow> atb_bundle \<Rightarrow> bool \<times> signature_provenance list" where
  "incident_verdict x bundlePath b =
     (case EvaluateBundle (ix_verify x) (ix_load x) (incident_config bundlePath (Records b)) of
        Inr report \<Rightarrow> (ir_ChainValid (rp_Integrity report), rp_Signatures report)
      | Inl _ \<Rightarrow> (Bundle.Verify b = None, []))"

definition incident_session :: "index_env \<Rightarrow> string \<Rightarrow> string \<Rightarrow> session_entry option" where
  "incident_session x bundlePath sessionID =
     (case BuildIndex x [bundlePath] of
        (entries, None) \<Rightarrow> find (\<lambda>en. se_SessionID en = sessionID) entries
      | _ \<Rightarrow> None)"

definition event_row_of :: "bundle_record \<Rightarrow> event_row" where
  "event_row_of r =
     \<lparr>er_Seq = Sequence (Event r), er_Type = Type (Event r), er_Timestamp = Timestamp (Event r), er_Hash = Hash r,
      er_Summary = summarise (Event r)\<rparr>"

definition last_scope :: "atb_bundle \<Rightarrow> capture_scope option" where
  \<comment> \<open>the latest attestation; one without an object as its data counts as none\<close>
  "last_scope b = fold (\<lambda>r c. if Type (Event r) = TypeCaptureScope then captureScopeFrom (Event r) else c) (Records b) None"

definition incident_Build :: "index_env \<Rightarrow> string \<Rightarrow> string \<Rightarrow> incident_error + incident_report" where
  "incident_Build x bundlePath sessionID0 =
     (let sessionID = TrimSpace sessionID0
      in if sessionID = [] then Inl SessionIDRequired
         else case ix_load x bundlePath of
                None \<Rightarrow> Inl (IncidentLoad bundlePath)
              | Some (Inl _) \<Rightarrow> Inl (IncidentLoad bundlePath)
              | Some (Inr b) \<Rightarrow>
                  (let (valid, sigs) = incident_verdict x bundlePath b;
                       session = incident_session x bundlePath sessionID;
                       scoped = filter (\<lambda>r. eventSessionID (Event r) = sessionID) (Records b)
                   in Inr \<lparr>in_BundlePath = bundlePath, in_SessionID = sessionID, in_Found = (scoped \<noteq> []),
                        in_IntegrityValid = valid,
                        in_ChainHeadHash = (if Records b = [] then [] else Hash (last (Records b))),
                        in_Signatures = sigs, in_CaptureScope = last_scope b, in_Session = session,
                        in_Findings = (case session of
                                         None \<Rightarrow> []
                                       | Some en \<Rightarrow> buildFindings (se_AnomalyFlags en)
                                           (sort_by (\<lambda>a c. sc_seq a < sc_seq c) (map (\<lambda>r. scoped_of (Event r)) scoped))),
                        in_ReviewerIdentities = identityEvidenceForSession b sessionID,
                        in_Events = sort_by (\<lambda>a c. er_Seq a < er_Seq c) (map event_row_of scoped)\<rparr>))"

section \<open>NDJSON\<close>

definition ndjson_event :: "incident_report \<Rightarrow> (int \<times> string list) list \<Rightarrow> event_row \<Rightarrow> any" where
  "ndjson_event r bySeq e =
     AMap [(''session_id'', AString (in_SessionID r)), (''seq'', AInt (er_Seq e)), (''type'', AString (er_Type e)),
       (''timestamp'', AString (er_Timestamp e)), (''summary'', AString (er_Summary e)), (''record_hash'', AString (er_Hash e)),
       (''integrity_valid'', ABool (in_IntegrityValid r)),
       (''anomaly_flags'', AList (map AString (case in_Session r of None \<Rightarrow> [] | Some en \<Rightarrow> se_AnomalyFlags en))),
       (''triggered_flags'', AList (map AString (case map_of bySeq (er_Seq e) of None \<Rightarrow> [] | Some fs \<Rightarrow> fs)))]"

fun marshal_lines :: "any list \<Rightarrow> string option" where
  "marshal_lines [] = Some []"
| "marshal_lines (v # vs) =
     (case json_marshal v of
        None \<Rightarrow> None
      | Some line \<Rightarrow> map_option (\<lambda>rest. line @ [CHR 0x0A] @ rest) (marshal_lines vs))"

definition incident_NDJSON :: "incident_report \<Rightarrow> incident_error + string" where
  "incident_NDJSON r =
     (case marshal_lines (map (ndjson_event r (triggeredFlagsBySeq (in_Findings r))) (in_Events r)) of
        None \<Rightarrow> Inl IncidentEncode
      | Some t \<Rightarrow> Inr t)"

section \<open>Markdown\<close>

abbreviation nl :: string where "nl \<equiv> [CHR 0x0A]"

definition upper_ascii :: "string \<Rightarrow> string" where
  \<comment> \<open>\<^verbatim>\<open>strings.ToUpper\<close> of a severity, which is one of the ASCII words of the table of explanations\<close>
  "upper_ascii s = map (\<lambda>c. if CHR ''a'' \<le> c \<and> c \<le> CHR ''z'' then byte (ord c - 32) else c) s"

definition md_row :: "string list \<Rightarrow> string" where
  \<comment> \<open>a table row: \<^verbatim>\<open>| %s | ... | %s |\<close> and a newline\<close>
  "md_row cells = concat (map (\<lambda>c. ''| '' @ c @ '' '') cells) @ ''|'' @ nl"

definition session_row :: "session_entry \<Rightarrow> string" where
  "session_row e =
     md_row [markdownInline (se_SessionID e), markdownInline (actorLabel (se_Actor e)), show_int (se_ExchangeCount e),
       markdownInline (orDash (se_InferredProfile e)), markdownInline (orDash (se_CASGrade e)),
       markdownInline (if se_AnomalyFlags e = [] then ''none'' else Join (se_AnomalyFlags e) '', '')]"

definition SessionListMarkdown :: "string \<Rightarrow> session_entry list \<Rightarrow> string" where
  "SessionListMarkdown bundlePath entries =
     ''# Sessions in '' @ markdownInline bundlePath @ nl @ nl @
     (if entries = [] then ''No sessions found.'' @ nl
      else ''| Session | Actor | Exchanges | Profile | CAS | Anomalies |'' @ nl @ ''| --- | --- | --- | --- | --- | --- |'' @ nl @
           concat (map session_row entries))"

definition finding_row :: "finding \<Rightarrow> string" where
  "finding_row f =
     md_row [markdownInline (upper_ascii (fi_Severity f)), markdownInline (fi_Title f),
       markdownInline (if fi_EventSeqs f = [] then em_dash else ''seq '' @ joinSeqs (fi_EventSeqs f)), markdownInline (fi_Detail f)]"

definition event_row_text :: "event_row \<Rightarrow> string" where
  "event_row_text e =
     md_row [show_int (er_Seq e), markdownInline (er_Type e), markdownInline (er_Timestamp e), markdownInline (er_Summary e),
       markdownInline (shortHash (er_Hash e))]"

definition scope_lines :: "capture_scope option \<Rightarrow> string" where
  "scope_lines c =
     (case c of
        None \<Rightarrow> []
      | Some s \<Rightarrow>
          ''- Capture coverage: targets=['' @ markdownInline (Join (cs_Targets s) '', '') @ ''] mode='' @
          markdownInline (orDash (cs_CaptureMode s)) @ nl @
          (if cs_OutOfScope s \<noteq> [] then ''  - Out of scope: '' @ markdownInline (cs_OutOfScope s) @ nl else []))"

definition session_lines :: "session_entry option \<Rightarrow> string" where
  "session_lines en =
     (case en of
        None \<Rightarrow> []
      | Some e \<Rightarrow>
          ''- Actor: '' @ markdownInline (actorLabel (se_Actor e)) @ nl @
          ''- Exchanges: '' @ show_int (se_ExchangeCount e) @ nl @
          ''- Inferred profile: '' @ markdownInline (orDash (se_InferredProfile e)) @ nl @
          ''- CAS grade: '' @ markdownInline (orDash (se_CASGrade e)) @ nl @
          ''- Anomalies: **'' @ (if se_AnomalyFlags e = [] then ''none'' else markdownInline (Join (se_AnomalyFlags e) '', '')) @ ''**'' @ nl)"

definition finding_lines :: "finding list \<Rightarrow> string" where
  "finding_lines fs =
     (if fs = [] then []
      else nl @ ''## Findings'' @ nl @ nl @ ''Each anomaly flag, what it means, and the event(s) that triggered it.'' @ nl @ nl @
           ''| Severity | Finding | Triggered at | Detail |'' @ nl @ ''| --- | --- | --- | --- |'' @ nl @ concat (map finding_row fs))"

definition reviewer_lines :: "identity_evidence list \<Rightarrow> string" where
  "reviewer_lines es =
     (if es = [] then []
      else nl @ ''## Reviewer identity evidence'' @ nl @ nl @
           ''These values were supplied by the caller and preserved by the ATB hash chain; ATB did not independently verify the identity assertion.'' @ nl @ nl @
           concat (map (\<lambda>e. ''- Seq '' @ show_int (ie_Sequence e) @ '': '' @ markdownInline (identity_Summary e) @ nl) es))"

definition signature_line :: "(signature_error \<Rightarrow> string) \<Rightarrow> incident_report \<Rightarrow> string" where
  "signature_line sig_text r = ''- Signature: '' @ signatureSummary sig_text (in_Signatures r) @ nl"

definition incident_Markdown :: "(signature_error \<Rightarrow> string) \<Rightarrow> incident_report \<Rightarrow> string" where
  \<comment> \<open>the successive writes to the builder\<close>
  "incident_Markdown sig_text r =
     ''# Incident report '' @ em_dash @ '' session '' @ markdownInline (in_SessionID r) @ nl @ nl @
     (if \<not> in_Found r then ''No events found for session '' @ markdownInline (in_SessionID r) @ '' in '' @ markdownInline (in_BundlePath r) @ ''.'' @ nl
      else concat
       [''- Bundle: '' @ markdownInline (in_BundlePath r) @ nl,
        ''- Integrity (hash chain): **'' @ (if in_IntegrityValid r then ''PASS'' else ''FAIL'') @ ''**'' @ nl,
        signature_line sig_text r,
        scope_lines (in_CaptureScope r),
        ''- Chain head hash: '' @ markdownInline (in_ChainHeadHash r) @ nl,
        session_lines (in_Session r), finding_lines (in_Findings r), reviewer_lines (in_ReviewerIdentities r),
        nl @ ''## Events'' @ nl @ nl,
        ''| Seq | Type | Time | Summary | Record hash |'' @ nl,
        ''| --- | --- | --- | --- | --- |'' @ nl,
        concat (map event_row_text (in_Events r)),
        nl @ ''> Integrity PASS means the presented session records agree with the bundle'' @ [CHR 0x27] @ ''s hash chain. It does not prove capture completeness or prevent whole-file replacement without external custody. This report scopes the bundle to one session, and each row'' @ [CHR 0x27] @ ''s record hash is independently verifiable against it.'' @ nl])"

section \<open>The evidence package\<close>

text \<open>
  The struct encoders \<^verbatim>\<open>json.MarshalIndent\<close> of the reports and of the manifest, the text of the README and the
  reading of the bundle's bytes are arguments.
\<close>

record pack_env =
  pk_index :: index_env
  pk_read :: "string \<Rightarrow> string option"
  pk_sig_text :: "signature_error \<Rightarrow> string"
  pk_report_json :: "incident_report \<Rightarrow> string option"
  pk_verify_json :: "verify_report \<Rightarrow> string option"
  pk_manifest_json :: "incident_report \<Rightarrow> string \<Rightarrow> (string \<times> string) list \<Rightarrow> string option"
  pk_readme :: string

definition verify_file :: "pack_env \<Rightarrow> string \<Rightarrow> (string \<times> string) list" where
  \<comment> \<open>best effort\<close>
  "verify_file k bundlePath =
     (case ix_load (pk_index k) bundlePath of
        Some (Inr b) \<Rightarrow>
          (case EvaluateBundle (ix_verify (pk_index k)) (ix_load (pk_index k)) (incident_config bundlePath (Records b)) of
             Inr vr \<Rightarrow> (case pk_verify_json k vr of Some t \<Rightarrow> [(''verify-report.json'', t)] | None \<Rightarrow> [])
           | Inl _ \<Rightarrow> [])
      | _ \<Rightarrow> [])"

definition pack_files :: "pack_env \<Rightarrow> string \<Rightarrow> incident_report \<Rightarrow> string \<Rightarrow> string \<Rightarrow> (string \<times> string) list" where
  "pack_files k bundlePath report content reportJSON =
     [(''bundle.atb'', content), (''incident-report.md'', incident_Markdown (pk_sig_text k) report),
      (''incident-report.json'', reportJSON), (''README.md'', pk_readme k)] @ verify_file k bundlePath"

definition BuildPack :: "pack_env \<Rightarrow> string \<Rightarrow> string \<Rightarrow> incident_error + (string \<times> string) list" where
  "BuildPack k bundlePath sessionID =
     bind_res (incident_Build (pk_index k) bundlePath sessionID) (\<lambda>report.
       if \<not> in_Found report then Inl (NoSessionEvents sessionID)
       else case pk_read k bundlePath of
              None \<Rightarrow> Inl (IncidentRead bundlePath)
            | Some content \<Rightarrow>
                (case pk_report_json k report of
                   None \<Rightarrow> Inl IncidentEncode
                 | Some reportJSON \<Rightarrow>
                     (let files = pack_files k bundlePath report content reportJSON;
                          digests = map (\<lambda>(name, c). (name, digest c)) files
                      in case pk_manifest_json k report sessionID digests of
                           None \<Rightarrow> Inl IncidentEncode
                         | Some m \<Rightarrow> Inr (files @ [(''MANIFEST.json'', m)]))))"

end
