(* ===== verification/Incident_Props.thy ===== *)
theory Incident_Props
  imports Incident Report_Props
begin

text \<open>
  What an incident report shows: text that passes through \<^verbatim>\<open>markdownInline\<close> has every character of Markdown structure escaped,
  so table rows stay rows; entity references and \<^verbatim>\<open>www.\<close> links are left as they are; the signature line, which does not pass
  through it, can be forged; the report lists every event of the session, those of a verified bundle in file order; and a
  session without identifiers is listed by the index but not found by the report.
\<close>

section \<open>Reading Markdown\<close>

text \<open>
  The rule of CommonMark that escaping relies on: a backslash before an ASCII punctuation character makes it literal. The
  text \<open>md_active\<close> has the characters that are not escaped so, \<open>md_display\<close> is the text with the escaping backslashes removed. The
  characters of \<open>gfm_structure\<close> are those that inline constructs and tables of GitHub Flavored Markdown are made of: escapes, code
  spans, emphasis, strikethrough, links and images, HTML tags and autolinks in angle brackets, and cells. Two constructs are not
  made of them, entity references and extended autolinks such as \<^verbatim>\<open>www.\<close>.
\<close>

definition gfm_structure :: "char list" where
  "gfm_structure = [CHR 0x5C, CHR 0x60] @ ''*_~[]<>|''"

definition punct :: "char \<Rightarrow> bool" where
  "punct c = (let n = ord c in 0x21 \<le> n \<and> n \<le> 0x2F \<or> 0x3A \<le> n \<and> n \<le> 0x40 \<or> 0x5B \<le> n \<and> n \<le> 0x60 \<or> 0x7B \<le> n \<and> n \<le> 0x7E)"

fun md_active :: "string \<Rightarrow> string" where
  "md_active [] = []"
| "md_active [c] = [c]"
| "md_active (c # d # s) = (if c = CHR 0x5C \<and> punct d then md_active s else c # md_active (d # s))"

fun md_display :: "string \<Rightarrow> string" where
  "md_display [] = []"
| "md_display [c] = [c]"
| "md_display (c # d # s) = (if c = CHR 0x5C \<and> punct d then d # md_display s else c # md_display (d # s))"

lemma active_Cons: "c \<noteq> CHR 0x5C \<Longrightarrow> md_active (c # s) = c # md_active s"
  by (cases s) simp_all

lemma display_Cons: "c \<noteq> CHR 0x5C \<Longrightarrow> md_display (c # s) = c # md_display s"
  by (cases s) simp_all

lemma active_plain: "CHR 0x5C \<notin> set t \<Longrightarrow> md_active (t @ s) = t @ md_active s"
  by (induction t) (simp_all add: active_Cons [OF not_sym])

lemma escaped_punct: "c \<in> set md_escaped \<Longrightarrow> punct c"
  by (auto simp: md_escaped_def punct_def)

definition spaced :: "char \<Rightarrow> char" where
  "spaced c = (if c = CHR 0x0D \<or> c = CHR 0x0A then CHR '' '' else c)"

lemma md_char_cases:
  "c \<in> set md_escaped \<Longrightarrow> md_char c = [CHR 0x5C, c]" "c \<notin> set md_escaped \<Longrightarrow> md_char c = [spaced c]"
  by (simp_all add: md_char_def spaced_def)

lemma spaced_plain: "c \<notin> set md_escaped \<Longrightarrow> spaced c \<notin> set md_escaped \<and> spaced c \<noteq> CHR 0x0A \<and> spaced c \<noteq> CHR 0x0D"
  by (auto simp: spaced_def md_escaped_def)

lemma backslash_escaped: "CHR 0x5C \<in> set md_escaped"
  by (simp add: md_escaped_def)

lemma spaced_escaped: "c \<in> set md_escaped \<Longrightarrow> spaced c = c"
  by (auto simp: spaced_def md_escaped_def)

lemma active_escape:
  "md_active (concat (map md_char w) @ s) = map spaced (filter (\<lambda>c. c \<notin> set md_escaped) w) @ md_active s"
proof (induction w)
  case (Cons c w)
  show ?case
  proof (cases "c \<in> set md_escaped")
    case True
    with Cons show ?thesis by (simp add: md_char_cases escaped_punct)
  next
    case False
    then have "spaced c \<noteq> CHR 0x5C" using spaced_plain backslash_escaped by metis
    with False Cons show ?thesis by (simp add: md_char_cases active_Cons)
  qed
qed simp

lemma display_escape: "md_display (concat (map md_char w)) = map spaced w"
proof (induction w)
  case (Cons c w)
  show ?case
  proof (cases "c \<in> set md_escaped")
    case True
    with Cons show ?thesis by (simp add: md_char_cases escaped_punct spaced_escaped)
  next
    case False
    then have "spaced c \<noteq> CHR 0x5C" using spaced_plain backslash_escaped by metis
    with False Cons show ?thesis by (simp add: md_char_cases display_Cons)
  qed
qed simp

abbreviation broken_urls :: "string \<Rightarrow> string" where
  "broken_urls v \<equiv> replace_all ''://'' ('':'' @ [byte 0xE2, byte 0x80, byte 0x8B] @ ''//'') v"

lemma newline_escape: "CHR 0x0A \<notin> set (concat (map md_char w))"
  by (auto simp: md_char_def md_escaped_def)

section \<open>Table rows\<close>

definition inert :: "string \<Rightarrow> bool" where
  \<comment> \<open>a cell that cannot end its cell or its row, whatever follows\<close>
  "inert t \<longleftrightarrow> CHR 0x0A \<notin> set t \<and> (\<exists>a. CHR ''|'' \<notin> set a \<and> (\<forall>s. md_active (t @ s) = a @ md_active s))"

lemma inert_markdown: "inert (markdownInline v)"
proof -
  have "CHR ''|'' \<notin> set (map spaced (filter (\<lambda>c. c \<notin> set md_escaped) w))" for w
    by (auto simp: spaced_def md_escaped_def)
  then show ?thesis unfolding inert_def markdownInline_def using newline_escape active_escape by blast
qed

lemma show_int_chars: "c \<in> set (show_int n) \<Longrightarrow> c = CHR ''-'' \<or> is_digit c"
proof -
  have "is_digit (byte (48 + d))" if "d < 10" for d :: nat
    using that by (auto simp: is_digit_def less_eq_char_def)
  then show "c \<in> set (show_int n) \<Longrightarrow> c = CHR ''-'' \<or> is_digit c"
    using int_digits_small [of "\<bar>n\<bar>"] by (auto simp: show_int_def show_digits_def list_all_iff split: if_splits)
qed

lemma inert_int: "inert (show_int n)"
proof -
  have "CHR 0x5C \<notin> set (show_int n)" "CHR ''|'' \<notin> set (show_int n)" "CHR 0x0A \<notin> set (show_int n)"
    using show_int_chars [of _ n] by (fastforce simp: is_digit_def less_eq_char_def)+
  then show ?thesis by (auto simp: inert_def active_plain)
qed

lemma row_active:
  assumes "list_all inert cells"
  shows "count_list (md_active (concat (map (\<lambda>c. ''| '' @ c @ '' '') cells) @ ''|'' @ nl)) (CHR ''|'') = length cells + 1"
  using assms
proof (induction cells)
  case (Cons c cells)
  from Cons.prems obtain a where a: "CHR ''|'' \<notin> set a" "\<And>s. md_active (c @ s) = a @ md_active s" by (auto simp: inert_def)
  have "count_list a (CHR ''|'') = 0" using a(1) by (simp add: count_list_0_iff)
  with Cons a(2) show ?case by (simp add: active_Cons)
qed (simp add: active_Cons)

lemma row_newline:
  "list_all inert cells \<Longrightarrow> count_list (concat (map (\<lambda>c. ''| '' @ c @ '' '') cells)) (CHR 0x0A) = 0"
  by (induction cells) (auto simp: inert_def count_list_0_iff)

lemma md_row_intact:
  assumes "list_all inert cells"
  shows "count_list (md_active (md_row cells)) (CHR ''|'') = length cells + 1 \<and> count_list (md_row cells) (CHR 0x0A) = 1"
  using row_active [OF assms] row_newline [OF assms] by (simp add: md_row_def)

section \<open>Properties\<close>

text \<open>The replacement of \<^verbatim>\<open>://\<close> leaves none behind, and the escaping makes none.\<close>

lemma broken_urls_slash: "HasPrefix (broken_urls v) ''/'' \<Longrightarrow> HasPrefix v ''/''"
  by (cases v) (auto simp: HasPrefix_iff split: if_splits)

lemma broken_urls_slashes: "HasPrefix (broken_urls v) ''//'' \<Longrightarrow> HasPrefix v ''//''"
proof (cases v)
  case (Cons c s)
  assume "HasPrefix (broken_urls v) ''//''"
  with Cons have "c = CHR ''/''" "HasPrefix (broken_urls s) ''/''" by (auto simp: HasPrefix_iff split: if_splits)
  with broken_urls_slash Cons show ?thesis by (auto simp: HasPrefix_iff)
qed (simp add: HasPrefix_iff)

lemma broken_urls_none: "\<not> Contains (broken_urls v) ''://''"
proof (induction v rule: length_induct)
  case (1 v)
  show ?case
  proof (cases v)
    case (Cons c s)
    show ?thesis
    proof (cases "HasPrefix (c # s) ''://''")
      case True
      then have "broken_urls v = '':'' @ [byte 0xE2, byte 0x80, byte 0x8B] @ ''//'' @ broken_urls (drop 2 s)" by (simp add: Cons numeral_2_eq_2)
      moreover have "\<not> Contains (broken_urls (drop 2 s)) ''://''" using 1 Cons by simp
      moreover have "byte 0xE2 \<noteq> CHR ''/''" "byte 0xE2 \<noteq> CHR '':''" "byte 0x80 \<noteq> CHR '':''" "byte 0x8B \<noteq> CHR '':''" by code_simp+
      ultimately show ?thesis by (simp add: HasPrefix_iff)
    next
      case False
      then have "\<not> HasPrefix (c # broken_urls s) ''://''" using broken_urls_slashes [of s] by (auto simp: HasPrefix_iff)
      with 1 Cons False show ?thesis by auto
    qed
  qed simp
qed

lemma escaped_slash: "HasPrefix (concat (map md_char w)) ''/'' \<Longrightarrow> HasPrefix w ''/''"
  by (cases w) (auto simp: HasPrefix_iff md_char_def split: if_splits)

lemma escaped_slashes: "HasPrefix (concat (map md_char w)) ''//'' \<Longrightarrow> HasPrefix w ''//''"
proof (cases w)
  case (Cons c u)
  assume "HasPrefix (concat (map md_char w)) ''//''"
  with Cons have "c = CHR ''/''" "HasPrefix (concat (map md_char u)) ''/''"
    by (auto simp: HasPrefix_iff md_char_def split: if_splits)
  with escaped_slash Cons show ?thesis by (auto simp: HasPrefix_iff)
qed (simp add: HasPrefix_iff)

lemma escaped_url: "Contains (concat (map md_char w)) ''://'' \<Longrightarrow> Contains w ''://''"
proof (induction w)
  case (Cons c w)
  show ?case
  proof (cases "c \<in> set md_escaped")
    case True
    with Cons show ?thesis by (auto simp: md_char_cases HasPrefix_iff md_escaped_def)
  next
    case False
    show ?thesis
    proof (cases "Contains (concat (map md_char w)) ''://''")
      case other: False
      with Cons.prems False have "HasPrefix (spaced c # concat (map md_char w)) ''://''" by (simp add: md_char_cases)
      then have "c = CHR '':''" "HasPrefix (concat (map md_char w)) ''//''" by (auto simp: HasPrefix_iff spaced_def split: if_splits)
      with escaped_slashes show ?thesis by (auto simp: HasPrefix_iff)
    qed (use Cons.IH in simp)
  qed
qed simp

lemma structure_escaped: "c \<notin> set md_escaped \<Longrightarrow> spaced c \<notin> set gfm_structure \<and> spaced c \<noteq> CHR 0x0A \<and> spaced c \<noteq> CHR 0x0D"
  by (auto simp: spaced_def md_escaped_def gfm_structure_def)

text \<open>C27: evidence text adds no Markdown structure. In text that passed through \<^verbatim>\<open>markdownInline\<close> every backslash, backtick,
  asterisk, underscore, tilde, square or angle bracket and bar is escaped, and no line break and no \<^verbatim>\<open>://\<close> is left; without the
  escaping backslashes it is the original text, with line breaks as spaces and a zero-width space inside \<^verbatim>\<open>://\<close>. Therefore every
  table row of the session list, of the findings and of the events is one line with exactly the cells of its table, whatever
  the bundle contains. Entity references and \<^verbatim>\<open>www.\<close> links are not made of these characters and are not covered.\<close>

theorem markdown_inert:
  "list_all (\<lambda>c. c \<notin> set gfm_structure \<and> c \<noteq> CHR 0x0A \<and> c \<noteq> CHR 0x0D) (md_active (markdownInline v)) \<and>
   \<not> Contains (markdownInline v) ''://'' \<and>
   md_display (markdownInline v) = map spaced (broken_urls v) \<and>
   count_list (md_active (session_row en)) (CHR ''|'') = 7 \<and> count_list (session_row en) (CHR 0x0A) = 1 \<and>
   count_list (md_active (finding_row f)) (CHR ''|'') = 5 \<and> count_list (finding_row f) (CHR 0x0A) = 1 \<and>
   count_list (md_active (event_row_text e)) (CHR ''|'') = 6 \<and> count_list (event_row_text e) (CHR 0x0A) = 1"
proof -
  have "list_all (\<lambda>c. c \<notin> set gfm_structure \<and> c \<noteq> CHR 0x0A \<and> c \<noteq> CHR 0x0D) (md_active (markdownInline v))"
    using active_escape [of "broken_urls v" "[]"] structure_escaped by (auto simp: markdownInline_def list_all_iff)
  moreover have "md_display (markdownInline v) = map spaced (broken_urls v)"
    unfolding markdownInline_def by (rule display_escape)
  moreover have "\<not> Contains (markdownInline v) ''://''"
    unfolding markdownInline_def using escaped_url broken_urls_none by blast
  ultimately show ?thesis
    unfolding session_row_def finding_row_def event_row_text_def
    by (simp add: md_row_intact inert_markdown inert_int)
qed

text \<open>What \<^verbatim>\<open>markdownInline\<close> leaves as it is: an entity reference, which a renderer shows as the character it names, and the beginning
  of an extended autolink.\<close>

theorem markdown_not_escaped:
  "markdownInline ''&lt;b&gt;'' = ''&lt;b&gt;'' \<and> markdownInline ''www.atb.example'' = ''www.atb.example''"
  by code_simp

lemma Contains_append: "Contains y p \<Longrightarrow> Contains (x @ y) p" "Contains x p \<Longrightarrow> Contains (x @ y) p"
  unfolding Contains_iff by (metis append_assoc)+

lemma Contains_Cons: "Contains y p \<Longrightarrow> Contains (c # y) p"
  by simp

lemma Contains_Join: "Contains y p \<Longrightarrow> Contains (Join (xs @ [y]) u) p"
proof (induction xs)
  case (Cons x xs)
  then show ?case by (cases "xs @ [y]") (auto intro: Contains_append)
qed simp

lemma signature_backend_shown:
  assumes "Contains (sp_Backend p) t" "sp_Backend p \<noteq> []" shows "Contains (signatureSummary sig_text [p]) t"
proof -
  have "Contains (Join (([if sp_Valid p then ''valid'' else ''INVALID''] @
      (if sp_PubKey p \<noteq> [] then [''pubkey '' @ shortHash (sp_PubKey p)] else []) @
      (if sp_SignedAt p \<noteq> [] then [''signed '' @ sp_SignedAt p] else [])) @ [''backend '' @ sp_Backend p]) '', '') t"
    by (rule Contains_Join, rule Contains_append(1), rule assms(1))
  then show ?thesis
    using assms(2) unfolding signatureSummary_def Let_def by (auto intro: Contains_append(2) simp del: Join.simps)
qed

lemma Contains_concat: "x \<in> set xs \<Longrightarrow> Contains x p \<Longrightarrow> Contains (concat xs) p"
  by (induction xs) (auto intro: Contains_append)

lemma signature_line_shown:
  assumes "in_Found r" "Contains (signatureSummary sig_text (in_Signatures r)) t"
  shows "Contains (incident_Markdown sig_text r) t"
proof -
  have "Contains (signature_line sig_text r) t"
    unfolding signature_line_def by (rule Contains_append(1), rule Contains_append(2), rule assms(2))
  then have "Contains (concat (xs @ signature_line sig_text r # ys)) t" for xs ys
    by (rule Contains_concat [rotated]) simp
  note this [of "[a, b]" for a b, unfolded append.simps]
  then show ?thesis
    unfolding incident_Markdown_def by (simp only: assms(1) not_True_eq_False if_False Contains_append(1))
qed

text \<open>The signature line of the report is not inert. A signature record, even one whose signature does not verify, whose
  backend name contains line breaks puts headings of its choice into the Markdown report.\<close>

theorem signature_line_forged:
  "let forged = nl @ nl @ ''## Integrity verified by custodian'';
       rec = demo_event 3 TypeBundleSignature [(''backend'', AString (''kms'' @ forged))];
       p = buildSignatureProvenance v rec
   in Contains (incident_Markdown sig_text (r\<lparr>in_Found := True, in_Signatures := [p]\<rparr>)) forged"
proof -
  let ?forged = "nl @ nl @ ''## Integrity verified by custodian''"
  define p where "p = buildSignatureProvenance v (demo_event 3 TypeBundleSignature [(''backend'', AString (''kms'' @ ?forged))])"
  have p: "sp_Backend p = ''kms'' @ ?forged"
    by (simp add: p_def buildSignatureProvenance_def demo_event_def new_record_def Sign.stringField_def Let_def split: sum.splits)
  have "Contains (sp_Backend p) ?forged" unfolding p by simp
  then show ?thesis
    unfolding Let_def p_def [symmetric] by (intro signature_line_shown) (simp_all add: signature_backend_shown p)
qed

section \<open>Completeness of the report\<close>

lemma numbered_sorted: "numbered n es \<Longrightarrow> sorted (map Sequence es) \<and> (\<forall>e \<in> set es. n \<le> Sequence e)"
  by (induction n es rule: numbered.induct) (auto intro: order_trans)

lemma incident_verdict_valid:
  assumes "ix_load x path = Some (Inr b)" shows "fst (incident_verdict x path b) \<longleftrightarrow> Bundle.Verify b = None"
proof (cases "EvaluateBundle (ix_verify x) (ix_load x) (incident_config path (Records b))")
  case (Inl e)
  then show ?thesis by (simp add: incident_verdict_def)
next
  case (Inr r)
  then obtain b' r0 where b': "evaluated_bundle (ix_load x) (incident_config path (Records b)) = Some b'"
      "r0 = applyRequiredAnchorRisk (evaluateLoadedBundle (ix_verify x) (Some b') path (map Some (normaliseProfiles [])) True False False)"
      "rp_Integrity r = rp_Integrity r0"
    by (rule EvaluateBundle_Inr) (simp_all add: incident_config_def)
  from b'(1) assms have "b' = b"
    by (auto simp: evaluated_bundle_def incident_config_def Records_eta split: if_splits)
  with b'(2,3) have "ir_ChainValid (rp_Integrity r) \<longleftrightarrow> Bundle.Verify b = None"
    by (simp add: evaluated_fields(1) [OF refl refl])
  with Inr show ?thesis by (simp add: incident_verdict_def)
qed

text \<open>C28: an incident report is faithful to the bundle. It reports integrity exactly when the hash chain of the bundle verifies.
  It lists every event whose session identifier is the one asked for, once each, with the sequence number and hash of its record, in
  the order of the sequence numbers, which is the order of the file when integrity is reported (the rows of a bundle that does not
  verify are sorted by the numbers its records claim); the head hash is that of the last record.\<close>

theorem incident_faithful:
  assumes "incident_Build x path sid = Inr r" "ix_load x path = Some (Inr b)"
  shows "(in_IntegrityValid r \<longleftrightarrow> Bundle.Verify b = None) \<and>
    (in_IntegrityValid r \<longrightarrow> in_Events r = map event_row_of (filter (\<lambda>rec. eventSessionID (Event rec) = TrimSpace sid) (Records b))) \<and>
    in_Events r = sort_key er_Seq (map event_row_of (filter (\<lambda>rec. eventSessionID (Event rec) = TrimSpace sid) (Records b))) \<and>
    (Records b \<noteq> [] \<longrightarrow> in_ChainHeadHash r = Hash (last (Records b)))"
proof -
  let ?scoped = "filter (\<lambda>rec. eventSessionID (Event rec) = TrimSpace sid) (Records b)"
  from assms have r: "in_IntegrityValid r \<longleftrightarrow> fst (incident_verdict x path b)"
      "in_Events r = sort_by (\<lambda>a c. er_Seq a < er_Seq c) (map event_row_of ?scoped)"
      "in_ChainHeadHash r = (if Records b = [] then [] else Hash (last (Records b)))"
    by (auto simp: incident_Build_def Let_def split: if_splits prod.splits)
  have "in_Events r = map event_row_of ?scoped" if "Bundle.Verify b = None"
  proof -
    have "sorted (map Sequence (map Event (Records b)))" using that [unfolded Verify_None] by (blast dest: numbered_sorted)
    then have "sorted (map er_Seq (map event_row_of ?scoped))"
      by (simp add: event_row_of_def comp_def sorted_filter)
    then show ?thesis unfolding r(2) by (simp add: sort_by_key [where f = er_Seq] sort_key_id_if_sorted)
  qed
  with r incident_verdict_valid [OF assms(2)] show ?thesis by (simp add: sort_by_key [where f = er_Seq])
qed

definition loaded :: "index_env \<Rightarrow> atb_bundle \<Rightarrow> index_env" where
  \<comment> \<open>an environment in which the bundle loads and verifies and nothing is cancelled\<close>
  "loaded x b = x\<lparr>ix_load := (\<lambda>_. Some (Inr b)), ix_verified := (\<lambda>_. Inr b), ix_done := (\<lambda>_. False), ix_cwd := None\<rparr>"

lemma incident_Build_loaded:
  "TrimSpace sid \<noteq> [] \<Longrightarrow> ix_load x path = Some (Inr b) \<Longrightarrow>
     \<exists>r. incident_Build x path sid = Inr r \<and> in_Session r = incident_session x path (TrimSpace sid) \<and>
       (in_Found r \<longleftrightarrow> filter (\<lambda>rec. eventSessionID (Event rec) = TrimSpace sid) (Records b) \<noteq> [])"
  by (simp add: incident_Build_def Let_def split: prod.split)

definition session_event :: event where
  "session_event = next_event sample_first ''ai.tool.exec'' (AMap [(''session_id'', AString ''s1'')]) (Some (timestamp_options sample_time))"

definition session_bundle :: atb_bundle where
  \<comment> \<open>a manifest and one event of the session\<close>
  "session_bundle = \<lparr>Records = Records sample_first @ [new_record session_event (event_hash session_event)]\<rparr>"

lemma session_bundle_verifies: "Bundle.Verify session_bundle = None"
proof -
  have "wire_ok session_event"
    by (simp add: wire_ok_def session_event_def event_json_def int64_def next_event_def Let_def sample_first_def
        first_bundle_def hasManifestRecord_def new_record_def)
  then have "encodable session_event" by (rule wire_ok_encodable)
  moreover have "''ai.tool.exec'' \<noteq> ManifestEventType" by code_simp
  moreover have "acquisition_guard sample_first ''ai.tool.exec'' (Some (timestamp_options sample_time)) = None"
    by (simp add: acquisition_guard_def timestamp_options_def)
  ultimately have "AppendWithOptions sample_first ''ai.tool.exec'' (AMap [(''session_id'', AString ''s1'')]) (Some (timestamp_options sample_time)) =
      Inr session_bundle"
    by (simp add: AppendWithOptions_Inr sample_type_ok session_bundle_def session_event_def)
  then show ?thesis by (rule append_verifies [OF sample_verifies(2)])
qed

lemma session_bundle_events:
  "filter (\<lambda>rec. eventSessionID (Event rec) = ''s1'') (Records session_bundle) = [new_record session_event (event_hash session_event)]"
  "Data session_event = AMap [(''session_id'', AString ''s1'')]"
proof -
  show d: "Data session_event = AMap [(''session_id'', AString ''s1'')]"
    by (simp add: session_event_def next_event_def apply_options_def Let_def timestamp_options_def)
  have "eventSessionID (zero_event\<lparr>Data := AMap [(''session_id'', AString ''s1'')]\<rparr>) = ''s1''" by code_simp
  moreover have "eventSessionID e = eventSessionID (zero_event\<lparr>Data := Data e\<rparr>)" for e
    by (simp add: eventSessionID_def eventDataMap_def)
  ultimately have e: "eventSessionID session_event = ''s1''" using d by metis
  have "TrimSpace [] = []" by code_simp
  then have "eventSessionID (Event (hd (Records sample_first))) = []"
    by (simp add: sample_first_def v2_payload_def eventSessionID_def eventDataMap_def Session_Index.stringField_def sample_options_def
        field_string_def field_def)
  then show "filter (\<lambda>rec. eventSessionID (Event rec) = ''s1'') (Records session_bundle) = [new_record session_event (event_hash session_event)]"
    unfolding session_bundle_def using e by (subst sample_records) (simp add: new_record_def)
qed

theorem incident_faithful_witness:
  "\<forall>x. \<exists>r. incident_Build (loaded x session_bundle) ''b.json'' ''s1'' = Inr r \<and> in_IntegrityValid r \<and>
     in_Events r = [event_row_of (new_record session_event (event_hash session_event))] \<and> in_ChainHeadHash r = event_hash session_event"
proof
  fix x
  have l: "ix_load (loaded x session_bundle) ''b.json'' = Some (Inr session_bundle)" by (simp add: loaded_def)
  have t: "TrimSpace ''s1'' = ''s1''" by code_simp
  from incident_Build_loaded [OF _ l, of "''s1''"] obtain r where r: "incident_Build (loaded x session_bundle) ''b.json'' ''s1'' = Inr r"
    by (auto simp: t)
  note f = incident_faithful [OF r l, unfolded t session_bundle_events(1)]
  have "Hash (last (Records session_bundle)) = event_hash session_event" "Records session_bundle \<noteq> []"
    by (simp_all add: session_bundle_def new_record_def)
  with f r session_bundle_verifies
  show "\<exists>r. incident_Build (loaded x session_bundle) ''b.json'' ''s1'' = Inr r \<and> in_IntegrityValid r \<and>
     in_Events r = [event_row_of (new_record session_event (event_hash session_event))] \<and> in_ChainHeadHash r = event_hash session_event"
    by simp
qed

definition demo_anonymous :: atb_bundle where
  "demo_anonymous = \<lparr>Records = [demo_event 1 ''ai.action.error'' []]\<rparr>"

lemma demo_anonymous_facts:
  "map (\<lambda>e. SessionIDForEvent e ''b.json'') (activity demo_anonymous) = [''b'']" "TrimSpace ''b'' = ''b''"
  "filter (\<lambda>rec. eventSessionID (Event rec) = ''b'') (Records demo_anonymous) = []"
  by code_simp+

text \<open>A session without identifiers is listed but cannot be reported. The index names it after the bundle file; asked for that
  name, the report finds the index entry but no event, and the evidence package is refused.\<close>

theorem listed_session_not_found:
  "map se_SessionID (fst (BuildIndex (loaded x demo_anonymous) [''b.json''])) = [''b''] \<and>
   (\<exists>r. incident_Build (loaded x demo_anonymous) ''b.json'' ''b'' = Inr r \<and> in_Session r \<noteq> None \<and> \<not> in_Found r) \<and>
   BuildPack (k\<lparr>pk_index := loaded x demo_anonymous\<rparr>) ''b.json'' ''b'' = Inl (NoSessionEvents ''b'')"
proof -
  let ?y = "loaded x demo_anonymous"
  have l: "ix_load ?y ''b.json'' = Some (Inr demo_anonymous)" by (simp add: loaded_def)
  obtain en where index: "BuildIndex ?y [''b.json''] = ([en], None)" "se_SessionID en = ''b''"
  proof
    let ?en = "finish_entry (ix_verify ?y) (ix_load ?y) ''b.json'' demo_anonymous
        (session_of ''b.json'' ''b'' (session_events ''b.json'' demo_anonymous ''b''))"
    have "entriesForBundle (ix_verify ?y) (ix_load ?y) ''b.json'' demo_anonymous = [?en]"
      by (simp add: entriesForBundle_eq demo_anonymous_facts(1))
    then show "BuildIndex ?y [''b.json''] = ([?en], None)"
      by (simp add: BuildIndex_def loaded_def absolutePath_def path_Abs_def sort_by_def)
    show "se_SessionID ?en = ''b''" by (simp add: finish_entry_def Let_def session_id_kept)
  qed
  then have session: "incident_session ?y ''b.json'' ''b'' = Some en" by (simp add: incident_session_def)
  from incident_Build_loaded [OF _ l, of "''b''"] obtain r where
    r: "incident_Build ?y ''b.json'' ''b'' = Inr r" "in_Session r = Some en" "\<not> in_Found r"
    by (auto simp: demo_anonymous_facts(2,3) session)
  then show ?thesis by (simp add: index BuildPack_def)
qed

end
