(* ===== verification/Json_Indent.thy ===== *)
theory Json_Indent
  imports Json_Codec
begin

text \<open>
  The indented form that \<^verbatim>\<open>json.MarshalIndent(v, "", "  ")\<close> writes, and that the scanner reads it back: the files the
  program keeps for itself (checkpoints, ledgers, reports) have this form.
\<close>

definition margin :: "nat \<Rightarrow> string" where
  "margin d = CHR 0x0A # replicate (2 * d) (CHR '' '')"

fun indent_value :: "(string \<Rightarrow> string) \<Rightarrow> nat \<Rightarrow> json \<Rightarrow> string"
  and indent_elems :: "(string \<Rightarrow> string) \<Rightarrow> nat \<Rightarrow> json list \<Rightarrow> string"
  and indent_members :: "(string \<Rightarrow> string) \<Rightarrow> nat \<Rightarrow> (string \<times> json) list \<Rightarrow> string" where
  "indent_value q d JNull = ''null''"
| "indent_value q d (JBool b) = (if b then ''true'' else ''false'')"
| "indent_value q d (JNumber lit) = lit"
| "indent_value q d (JString s) = CHR 0x22 # q s"
| "indent_value q d (JArray vs) =
     (if vs = [] then ''[]'' else ''['' @ margin (d + 1) @ indent_elems q (d + 1) vs @ margin d @ '']'')"
| "indent_value q d (JObject ms) =
     (if ms = [] then ''{}'' else ''{'' @ margin (d + 1) @ indent_members q (d + 1) ms @ margin d @ ''}'')"
| "indent_elems q d [] = []"
| "indent_elems q d [v] = indent_value q d v"
| "indent_elems q d (v # w # vs) = indent_value q d v @ '','' @ margin d @ indent_elems q d (w # vs)"
| "indent_members q d [] = []"
| "indent_members q d [(k, v)] = CHR 0x22 # q k @ '': '' @ indent_value q d v"
| "indent_members q d ((k, v) # m # ms) =
     CHR 0x22 # q k @ '': '' @ indent_value q d v @ '','' @ margin d @ indent_members q d (m # ms)"

lemma skip_margin [simp]: "skip_ws (margin d @ s) = skip_ws s"
proof -
  have "dropWhile is_ws (replicate n (CHR '' '') @ s) = dropWhile is_ws s" for n
    by (induction n) (simp_all add: is_ws_def)
  then show ?thesis by (simp add: margin_def is_ws_def)
qed

lemma delim_margin [simp]: "delim (margin d @ s)"
  by (simp add: margin_def delim_def is_digit_def)

lemma indent_value_first:
  assumes "wf_json v" shows "\<exists>c s. indent_value q d v = c # s \<and> starter c"
proof (cases v)
  case (JNumber lit)
  with assms obtain c l where "lit = c # l" "is_digit c \<or> c = CHR ''-''" using scan_number_first by fastforce
  with JNumber show ?thesis by (auto simp: starter_def is_ws_def is_digit_def)
qed (auto simp: starter_def is_ws_def)

lemma skip_ws_indent: "wf_json v \<Longrightarrow> skip_ws (indent_value q d v @ r) = indent_value q d v @ r"
  using indent_value_first [of v q d] skip_ws_starter by fastforce

lemma indent_elems_first:
  assumes "list_all wf_json (v # vs)"
  shows "\<exists>c s. indent_elems q d (v # vs) = c # s \<and> starter c"
  using assms indent_value_first [of v q d] by (cases vs) auto

lemma skip_ws_elems:
  assumes "list_all wf_json vs" "vs \<noteq> []"
  shows "skip_ws (indent_elems q d vs @ r) = indent_elems q d vs @ r" "\<not> HasPrefix (indent_elems q d vs @ r) '']''"
  using assms indent_elems_first [of "hd vs" "tl vs" q d] by (auto simp: starter_def)

lemma indent_members_first: "ms \<noteq> [] \<Longrightarrow> \<exists>t. indent_members q d ms = CHR 0x22 # t"
  by (cases "(q, d, ms)" rule: indent_members.cases) auto

context json_quoting
begin

lemma indent_members_step:
  assumes v: "scan_value (indent_value body d v @ t) = Some (v', t)" and wf: "wf_json v" and t: "skip_ws t = c # t'"
    and len: "length t' < length t"
  shows "scan_members (CHR 0x22 # body k @ '': '' @ indent_value body d v @ t) =
    (if c = CHR ''}'' then Some ([(coerce_utf8 k, v')], t')
     else if c = CHR '','' then map_option (\<lambda>(ms, r). ((coerce_utf8 k, v') # ms, r)) (scan_members (skip_ws t'))
     else None)"
  using v t len by (subst scan_members.simps) (auto simp: scan_body skip_ws_indent [OF wf] is_ws_def)

lemma scan_indent_aux:
  "q = body \<Longrightarrow> wf_json v \<Longrightarrow> delim r \<Longrightarrow> scan_value (indent_value q d v @ r) = Some (coerce_json v, r)"
  "q = body \<Longrightarrow> list_all wf_json vs \<Longrightarrow> vs \<noteq> [] \<Longrightarrow>
     scan_elems (indent_elems q d vs @ margin e @ CHR '']'' # r) = Some (map coerce_json vs, r)"
  "q = body \<Longrightarrow> list_all (\<lambda>(k, v). wf_json v) ms \<Longrightarrow> ms \<noteq> [] \<Longrightarrow>
     scan_members (indent_members q d ms @ margin e @ CHR ''}'' # r) =
       Some (map (\<lambda>(k, v). (coerce_utf8 k, coerce_json v)) ms, r)"
proof (induction q d v and q d vs and q d ms arbitrary: r and r e and r e
    rule: indent_value_indent_elems_indent_members.induct)
  case (3 q d lit)
  from 3 obtain c l where c: "lit = c # l" "is_digit c \<or> c = CHR ''-''" using scan_number_first by fastforce
  from 3 have "scan_number (lit @ r) = Some (lit, r)" using scan_number_append [of lit lit "[]" r] by simp
  with c number_start [OF c(2)] show ?case by (simp add: scan_value.simps)
next
  case (5 q d vs)
  then show ?case
    by (cases "vs = []") (simp_all add: scan_value.simps skip_ws_elems is_ws_def)
next
  case (6 q d ms)
  show ?case
  proof (cases "ms = []")
    case False
    then obtain t where "indent_members body (d + 1) ms = CHR 0x22 # t" using indent_members_first by blast
    moreover have "scan_members (indent_members body (d + 1) ms @ margin d @ CHR ''}'' # r) =
        Some (map (\<lambda>(k, v). (coerce_utf8 k, coerce_json v)) ms, r)" using 6 False by simp
    ultimately show ?thesis using False "6.prems"(1) by (simp add: scan_value.simps is_ws_def)
  qed (simp add: scan_value.simps)
next
  case (8 q d v)
  then show ?case by (subst scan_elems.simps) (simp add: is_ws_def)
next
  case (9 q d v w vs)
  then show ?case
    using skip_ws_elems(1) [of "w # vs" body d] by (subst scan_elems.simps) (simp add: is_ws_def)
next
  case (11 q d k v)
  then show ?case
    using indent_members_step [of d v "margin e @ CHR ''}'' # r" "coerce_json v" "CHR ''}''" r k] by (simp add: is_ws_def)
next
  case (12 q d k v m ms)
  obtain t where t: "indent_members body d (m # ms) = CHR 0x22 # t" using indent_members_first [of "m # ms"] by blast
  with 12 show ?case
    using indent_members_step [of d v "CHR '','' # margin d @ indent_members body d (m # ms) @ margin e @ CHR ''}'' # r"
        "coerce_json v" "CHR '',''" "margin d @ indent_members body d (m # ms) @ margin e @ CHR ''}'' # r" k]
    by (simp add: is_ws_def)
qed (simp_all add: scan_value.simps scan_body)

corollary json_scan_indent: "wf_json v \<Longrightarrow> json_scan (indent_value body 0 v) = Some (coerce_json v)"
  using scan_indent_aux(1) [OF refl, of v "[]" 0] skip_ws_indent [of v body 0 "[]"] by (simp add: json_scan_def)

end

definition MarshalIndent :: "json \<Rightarrow> string" where
  "MarshalIndent j = indent_value html_body 0 j"

lemma json_scan_MarshalIndent: "wf_json j \<Longrightarrow> json_scan (MarshalIndent j) = Some (coerce_json j)"
  unfolding MarshalIndent_def by (rule html.json_scan_indent)

end
