(* ===== verification/Acquire.thy ===== *)
theory Acquire
  imports Bundle_Props Json_Indent Go_Path
begin

text \<open>
  Incremental acquisition, \<^verbatim>\<open>internal/acquisition\<close>: reconciling source records against those already acquired
  (\<^verbatim>\<open>reconcile.go\<close>), and the checkpoint that lets an import continue (\<^verbatim>\<open>checkpoint.go\<close>,
  \<^verbatim>\<open>checkpoint_integration.go\<close>), with its file format, its atomic replacement on disk and its binding to a bundle head.
\<close>

section \<open>Reconciliation\<close>

record source_identity =
  si_System :: string
  si_RecordID :: string
  si_Derived :: bool

record known_record =
  kr_SourceIdentity :: source_identity
  kr_Digest :: string
  kr_AcquiredAt :: string
  kr_EventSequence :: int
  kr_Acquisition :: "acquisition_info option"

datatype reconciliation_result = ReconciliationNew | ReconciliationUnchanged | ReconciliationChanged | ReconciliationUnknown

record finding_info =
  fo_Flag :: string
  fo_Severity :: string
  fo_Title :: string
  fo_Detail :: string
  fo_SourceRecordID :: string
  fo_PreviousDigest :: string
  fo_CurrentDigest :: string
  fo_AcquiredAt :: string
  fo_AcquiredAtPrevious :: string

record reconciliation_outcome =
  ro_Result :: reconciliation_result
  ro_PreviousDigest :: string
  ro_CurrentDigest :: string
  ro_SourceIdentity :: source_identity
  ro_Finding :: "finding_info option"

type_synonym known_records = "(string \<times> known_record) list"

definition identityKey :: "source_identity \<Rightarrow> string" where
  "identityKey i = si_System i @ '':'' @ si_RecordID i"

definition changed_finding :: "source_identity \<Rightarrow> known_record \<Rightarrow> string \<Rightarrow> string \<Rightarrow> finding_info" where
  "changed_finding i known current acquiredAt =
     \<lparr>fo_Flag = ''source_record_changed'', fo_Severity = ''high'', fo_Title = ''Source record representation changed'',
      fo_Detail = ''Source record '' @ si_System i @ '':'' @ si_RecordID i @ '' was previously acquired with digest '' @ kr_Digest known @
        '', now has digest '' @ current,
      fo_SourceRecordID = si_RecordID i, fo_PreviousDigest = kr_Digest known, fo_CurrentDigest = current, fo_AcquiredAt = acquiredAt,
      fo_AcquiredAtPrevious = kr_AcquiredAt known\<rparr>"

definition Reconcile :: "known_records \<Rightarrow> source_identity \<Rightarrow> string \<Rightarrow> string \<Rightarrow> acquisition_info option \<Rightarrow> known_records \<times> reconciliation_outcome" where
  \<comment> \<open>the known records afterwards and the outcome; the method never returns an error\<close>
  "Reconcile known i current acquiredAt acq =
     (let fresh = \<lparr>kr_SourceIdentity = i, kr_Digest = current, kr_AcquiredAt = acquiredAt, kr_EventSequence = 0, kr_Acquisition = acq\<rparr>;
          outcome = \<lparr>ro_Result = ReconciliationUnknown, ro_PreviousDigest = [], ro_CurrentDigest = current, ro_SourceIdentity = i, ro_Finding = None\<rparr>
      in if si_System i = [] \<or> si_RecordID i = [] then (known, outcome)
         else case map_of known (identityKey i) of
                None \<Rightarrow> (map_store known (identityKey i) fresh, outcome\<lparr>ro_Result := ReconciliationNew\<rparr>)
              | Some k \<Rightarrow>
                  if kr_Digest k = current
                  then (known, outcome\<lparr>ro_Result := ReconciliationUnchanged, ro_PreviousDigest := kr_Digest k\<rparr>)
                  else (map_store known (identityKey i) fresh,
                        outcome\<lparr>ro_Result := ReconciliationChanged, ro_PreviousDigest := kr_Digest k,
                          ro_Finding := Some (changed_finding i k current acquiredAt)\<rparr>))"

definition load_record :: "bundle_record \<Rightarrow> known_records \<Rightarrow> known_records" where
  "load_record r known =
     (if Type (Event r) = ManifestEventType then known
      else case Acquisition (Event r) of
             None \<Rightarrow> known
           | Some acq \<Rightarrow>
               (let i = \<lparr>si_System = acq_SourceSystem acq, si_RecordID = acq_SourceRecordID acq, si_Derived = True\<rparr>;
                    k = \<lparr>kr_SourceIdentity = i, kr_Digest = acq_SourceDigest acq, kr_AcquiredAt = acq_AcquiredAt acq,
                         kr_EventSequence = Sequence (Event r), kr_Acquisition = Some acq\<rparr>
                in if si_System i = [] \<or> si_RecordID i = [] then known
                   else case map_of known (identityKey i) of
                          None \<Rightarrow> map_store known (identityKey i) k
                        | Some old \<Rightarrow> if Sequence (Event r) > kr_EventSequence old then map_store known (identityKey i) k else known))"

definition LoadFromBundle :: "known_records \<Rightarrow> bundle_record list \<Rightarrow> known_records" where
  "LoadFromBundle known records = fold load_record records known"

definition GetKnownRecord :: "known_records \<Rightarrow> source_identity \<Rightarrow> known_record option" where
  "GetKnownRecord known i = map_of known (identityKey i)"

section \<open>Checkpoints\<close>

record checkpoint =
  ck_FormatVersion :: int
  ck_SourceSystem :: string
  ck_AcquisitionStream :: string
  ck_Position :: string
  ck_ObservedAt :: string
  ck_Adapter :: string
  ck_AdapterVersion :: string
  ck_SourceIdentity :: source_identity
  ck_SourceIncarnation :: string
  ck_ProcessedCount :: int
  ck_LastRecordDigest :: string
  ck_BundleHeadHash :: string
  ck_BundleRecordCount :: int
  ck_Metadata :: "(string \<times> string) list"

datatype checkpoint_error =
    CheckpointNotFound
  | CheckpointRead
  | CheckpointCorrupted
  | CheckpointVersionUnsupported int
  | CheckpointSourceMismatch string string
  | CheckpointAdapterMismatch string string
  | CheckpointIncarnationMismatch string string
  | CheckpointBundleMismatch string int string int
  | CheckpointNotLoaded
  | CheckpointMkdir
  | CheckpointTemp
  | CheckpointRename
  | CheckpointSync

definition CheckpointFormatVersion :: int where
  "CheckpointFormatVersion = 1"

subsection \<open>The file format\<close>

definition identity_json :: "source_identity \<Rightarrow> json" where
  "identity_json i =
     JObject ([(''system'', JString (si_System i)), (''record_id'', JString (si_RecordID i))] @
       (if si_Derived i then [(''derived'', JBool True)] else []))"

definition checkpoint_members :: "checkpoint \<Rightarrow> members" where
  "checkpoint_members c =
     [(''format_version'', JNumber (show_int (ck_FormatVersion c))), (''source_system'', JString (ck_SourceSystem c)),
      (''acquisition_stream'', JString (ck_AcquisitionStream c)), (''position'', JString (ck_Position c)),
      (''observed_at'', JString (ck_ObservedAt c)), (''adapter'', JString (ck_Adapter c))] @
     omit_string ''adapter_version'' (ck_AdapterVersion c) @
     [(''source_identity'', identity_json (ck_SourceIdentity c))] @
     omit_string ''source_incarnation'' (ck_SourceIncarnation c) @
     [(''processed_count'', JNumber (show_int (ck_ProcessedCount c)))] @
     omit_string ''last_record_digest'' (ck_LastRecordDigest c) @
     omit_string ''bundle_head_hash'' (ck_BundleHeadHash c) @
     (if ck_BundleRecordCount c = 0 then [] else [(''bundle_record_count'', JNumber (show_int (ck_BundleRecordCount c)))]) @
     (if ck_Metadata c = [] then [] else [(''metadata'', JObject (map (\<lambda>(k, v). (k, JString v)) (sort_key fst (ck_Metadata c))))])"

definition decode_bool :: "json \<Rightarrow> bool \<Rightarrow> bool option" where
  "decode_bool j old = (case j of JNull \<Rightarrow> Some old | JBool b \<Rightarrow> Some b | _ \<Rightarrow> None)"

definition set_identity :: "string \<Rightarrow> json \<Rightarrow> source_identity \<Rightarrow> source_identity option" where
  "set_identity n j i =
     (if n = ''system'' then map_option (\<lambda>s. i\<lparr>si_System := s\<rparr>) (decode_string j (si_System i))
      else if n = ''record_id'' then map_option (\<lambda>s. i\<lparr>si_RecordID := s\<rparr>) (decode_string j (si_RecordID i))
      else map_option (\<lambda>b. i\<lparr>si_Derived := b\<rparr>) (decode_bool j (si_Derived i)))"

definition identity_names :: "string list" where
  "identity_names = [''system'', ''record_id'', ''derived'']"

fun decode_map :: "members \<Rightarrow> (string \<times> string) list \<Rightarrow> (string \<times> string) list option" where
  "decode_map [] m = Some m"
| "decode_map ((k, v) # ms) m = (case decode_string v [] of None \<Rightarrow> None | Some s \<Rightarrow> decode_map ms (map_store m k s))"

definition decode_string_map :: "json \<Rightarrow> (string \<times> string) list \<Rightarrow> (string \<times> string) list option" where
  \<comment> \<open>into a \<^verbatim>\<open>map[string]string\<close>: null empties it, an object adds to it\<close>
  "decode_string_map j old = (case j of JNull \<Rightarrow> Some [] | JObject ms \<Rightarrow> decode_map ms old | _ \<Rightarrow> None)"

definition ck_names :: "string list" where
  "ck_names =
     [''format_version'', ''source_system'', ''acquisition_stream'', ''position'', ''observed_at'', ''adapter'', ''adapter_version'',
      ''source_identity'', ''source_incarnation'', ''processed_count'', ''last_record_digest'', ''bundle_head_hash'',
      ''bundle_record_count'', ''metadata'']"

definition set_ck :: "string \<Rightarrow> json \<Rightarrow> checkpoint \<Rightarrow> checkpoint option" where
  "set_ck n j c =
     (if n = ''format_version'' then map_option (\<lambda>i. c\<lparr>ck_FormatVersion := i\<rparr>) (decode_int j (ck_FormatVersion c))
      else if n = ''source_system'' then map_option (\<lambda>s. c\<lparr>ck_SourceSystem := s\<rparr>) (decode_string j (ck_SourceSystem c))
      else if n = ''acquisition_stream'' then map_option (\<lambda>s. c\<lparr>ck_AcquisitionStream := s\<rparr>) (decode_string j (ck_AcquisitionStream c))
      else if n = ''position'' then map_option (\<lambda>s. c\<lparr>ck_Position := s\<rparr>) (decode_string j (ck_Position c))
      else if n = ''observed_at'' then map_option (\<lambda>s. c\<lparr>ck_ObservedAt := s\<rparr>) (decode_string j (ck_ObservedAt c))
      else if n = ''adapter'' then map_option (\<lambda>s. c\<lparr>ck_Adapter := s\<rparr>) (decode_string j (ck_Adapter c))
      else if n = ''adapter_version'' then map_option (\<lambda>s. c\<lparr>ck_AdapterVersion := s\<rparr>) (decode_string j (ck_AdapterVersion c))
      else if n = ''source_identity'' then map_option (\<lambda>i. c\<lparr>ck_SourceIdentity := i\<rparr>) (decode_struct set_identity identity_names j (ck_SourceIdentity c))
      else if n = ''source_incarnation'' then map_option (\<lambda>s. c\<lparr>ck_SourceIncarnation := s\<rparr>) (decode_string j (ck_SourceIncarnation c))
      else if n = ''processed_count'' then map_option (\<lambda>i. c\<lparr>ck_ProcessedCount := i\<rparr>) (decode_int j (ck_ProcessedCount c))
      else if n = ''last_record_digest'' then map_option (\<lambda>s. c\<lparr>ck_LastRecordDigest := s\<rparr>) (decode_string j (ck_LastRecordDigest c))
      else if n = ''bundle_head_hash'' then map_option (\<lambda>s. c\<lparr>ck_BundleHeadHash := s\<rparr>) (decode_string j (ck_BundleHeadHash c))
      else if n = ''bundle_record_count'' then map_option (\<lambda>i. c\<lparr>ck_BundleRecordCount := i\<rparr>) (decode_int j (ck_BundleRecordCount c))
      else map_option (\<lambda>m. c\<lparr>ck_Metadata := m\<rparr>) (decode_string_map j (ck_Metadata c)))"

definition zero_ck :: checkpoint where
  "zero_ck = \<lparr>ck_FormatVersion = 0, ck_SourceSystem = [], ck_AcquisitionStream = [], ck_Position = [], ck_ObservedAt = [], ck_Adapter = [],
     ck_AdapterVersion = [], ck_SourceIdentity = \<lparr>si_System = [], si_RecordID = [], si_Derived = False\<rparr>, ck_SourceIncarnation = [],
     ck_ProcessedCount = 0, ck_LastRecordDigest = [], ck_BundleHeadHash = [], ck_BundleRecordCount = 0, ck_Metadata = []\<rparr>"

subsection \<open>Files\<close>

text \<open>
  The files by their cleaned path. A file may be unreadable; \<open>faults\<close> tells which step of \<^verbatim>\<open>Save\<close> fails: making the
  directory, creating and filling the temporary file, renaming it, syncing a directory afterwards.
\<close>

type_synonym disk = "string \<Rightarrow> string option"

record save_faults =
  sf_mkdir :: bool
  sf_temp :: bool
  sf_rename :: bool
  sf_sync :: bool

definition save_version :: "checkpoint \<Rightarrow> checkpoint" where
  "save_version c = (if ck_FormatVersion c = 0 then c\<lparr>ck_FormatVersion := CheckpointFormatVersion\<rparr> else c)"

definition checkpoint_Save :: "save_faults \<Rightarrow> checkpoint \<Rightarrow> string \<Rightarrow> disk \<Rightarrow> checkpoint \<times> disk \<times> checkpoint_error option" where
  \<comment> \<open>the method updates the receiver's version; the rename replaces the file as a whole\<close>
  "checkpoint_Save sf c0 path dsk =
     (let c = save_version c0; cleanPath = path_Clean path
      in if sf_mkdir sf then (c, dsk, Some CheckpointMkdir)
         else let content = MarshalIndent (JObject (checkpoint_members c))
              in if sf_temp sf then (c, dsk, Some CheckpointTemp)
                 else if sf_rename sf then (c, dsk, Some CheckpointRename)
                 else (c, dsk(cleanPath \<mapsto> content), if sf_sync sf then Some CheckpointSync else None))"

definition checkpoint_Load :: "(string \<Rightarrow> bool) \<Rightarrow> disk \<Rightarrow> string \<Rightarrow> checkpoint_error + checkpoint" where
  "checkpoint_Load readable_file dsk path =
     (case dsk (path_Clean path) of
        None \<Rightarrow> Inl CheckpointNotFound
      | Some data \<Rightarrow>
          if \<not> readable_file path then Inl CheckpointRead
          else case json_scan data of
                 None \<Rightarrow> Inl CheckpointCorrupted
               | Some j \<Rightarrow>
                   (case decode_struct set_ck ck_names j zero_ck of
                      None \<Rightarrow> Inl CheckpointCorrupted
                    | Some c0 \<Rightarrow>
                        (let c = (if ck_FormatVersion c0 = 0 then c0\<lparr>ck_FormatVersion := 1\<rparr> else c0)
                         in if ck_FormatVersion c > 1 then Inl (CheckpointVersionUnsupported (ck_FormatVersion c)) else Inr c)))"

definition LoadOrCreate :: "(string \<Rightarrow> bool) \<Rightarrow> disk \<Rightarrow> string \<Rightarrow> string \<Rightarrow> string \<Rightarrow> string \<Rightarrow> string \<Rightarrow> string \<Rightarrow> string \<Rightarrow> source_identity \<Rightarrow>
    checkpoint_error + checkpoint" where
  \<comment> \<open>\<open>now\<close> is the current time as text\<close>
  "LoadOrCreate readable_file dsk now path system stream adapter version incarnation i =
     (case checkpoint_Load readable_file dsk path of
        Inl CheckpointNotFound \<Rightarrow>
          Inr (zero_ck\<lparr>ck_FormatVersion := 1, ck_SourceSystem := system, ck_AcquisitionStream := stream, ck_Adapter := adapter,
            ck_AdapterVersion := version, ck_SourceIncarnation := incarnation, ck_SourceIdentity := i, ck_ObservedAt := now,
            ck_Position := ''start''\<rparr>)
      | Inl e \<Rightarrow> Inl e
      | Inr c \<Rightarrow> Inr c)"

subsection \<open>Validation and binding\<close>

definition checkpoint_Validate :: "checkpoint \<Rightarrow> string \<Rightarrow> string \<Rightarrow> string \<Rightarrow> string \<Rightarrow> string \<Rightarrow> checkpoint_error option" where
  "checkpoint_Validate c system stream adapter version incarnation =
     (if ck_SourceSystem c \<noteq> system then Some (CheckpointSourceMismatch system (ck_SourceSystem c))
      else if ck_AcquisitionStream c \<noteq> stream then Some (CheckpointSourceMismatch stream (ck_AcquisitionStream c))
      else if ck_Adapter c \<noteq> adapter then Some (CheckpointAdapterMismatch adapter (ck_Adapter c))
      else if version \<noteq> [] \<and> ck_AdapterVersion c \<noteq> [] \<and> ck_AdapterVersion c \<noteq> version
      then Some (CheckpointAdapterMismatch version (ck_AdapterVersion c))
      else if incarnation \<noteq> [] \<and> ck_SourceIncarnation c \<noteq> [] \<and> ck_SourceIncarnation c \<noteq> incarnation
      then Some (CheckpointIncarnationMismatch incarnation (ck_SourceIncarnation c))
      else None)"

definition UpdatePosition :: "string \<Rightarrow> string \<Rightarrow> string \<Rightarrow> int \<Rightarrow> checkpoint \<Rightarrow> checkpoint" where
  "UpdatePosition now position current processed c =
     c\<lparr>ck_Position := position, ck_LastRecordDigest := current, ck_ProcessedCount := processed, ck_ObservedAt := now\<rparr>"

definition BindBundle :: "string \<Rightarrow> int \<Rightarrow> checkpoint \<Rightarrow> checkpoint" where
  "BindBundle headHash recordCount c = c\<lparr>ck_BundleHeadHash := headHash, ck_BundleRecordCount := recordCount\<rparr>"

definition ValidateBundle :: "checkpoint \<Rightarrow> string \<Rightarrow> int \<Rightarrow> checkpoint_error option" where
  "ValidateBundle c headHash recordCount =
     (if ck_BundleHeadHash c = [] then None
      else if ck_BundleHeadHash c \<noteq> headHash \<or> ck_BundleRecordCount c \<noteq> recordCount
      then Some (CheckpointBundleMismatch (ck_BundleHeadHash c) (ck_BundleRecordCount c) headHash recordCount)
      else None)"

definition RebindBundleCheckpoint :: "(string \<Rightarrow> bool) \<Rightarrow> save_faults \<Rightarrow> string \<Rightarrow> string \<Rightarrow> int \<Rightarrow> disk \<Rightarrow> disk \<times> checkpoint_error option" where
  "RebindBundleCheckpoint readable_file sf path headHash recordCount dsk =
     (case checkpoint_Load readable_file dsk path of
        Inl CheckpointNotFound \<Rightarrow> (dsk, None)
      | Inl e \<Rightarrow> (dsk, Some e)
      | Inr c \<Rightarrow> snd (checkpoint_Save sf (BindBundle headHash recordCount c) path dsk))"

subsection \<open>The manager\<close>

record checkpoint_manager =
  cm_CheckpointPath :: string
  cm_Checkpoint :: "checkpoint option"
  cm_SourceSystem :: string
  cm_AcquisitionStream :: string
  cm_Adapter :: string
  cm_AdapterVersion :: string
  cm_SourceIncarnation :: string
  cm_SourceIdentity :: source_identity

definition NewCheckpointManager :: "string \<Rightarrow> string \<Rightarrow> string \<Rightarrow> string \<Rightarrow> string \<Rightarrow> source_identity \<Rightarrow> checkpoint_manager" where
  "NewCheckpointManager path system stream adapter version i =
     \<lparr>cm_CheckpointPath = path, cm_Checkpoint = None, cm_SourceSystem = system, cm_AcquisitionStream = stream, cm_Adapter = adapter,
      cm_AdapterVersion = version, cm_SourceIncarnation = [], cm_SourceIdentity = i\<rparr>"

definition LoadOrInitialize :: "(string \<Rightarrow> bool) \<Rightarrow> disk \<Rightarrow> string \<Rightarrow> checkpoint_manager \<Rightarrow> checkpoint_error + checkpoint_manager" where
  "LoadOrInitialize readable_file dsk now cm =
     bind_res (LoadOrCreate readable_file dsk now (cm_CheckpointPath cm) (cm_SourceSystem cm) (cm_AcquisitionStream cm) (cm_Adapter cm)
         (cm_AdapterVersion cm) (cm_SourceIncarnation cm) (cm_SourceIdentity cm))
       (\<lambda>c. Inr (cm\<lparr>cm_Checkpoint := Some c\<rparr>))"

definition ValidateSource :: "checkpoint_manager \<Rightarrow> checkpoint_error option" where
  "ValidateSource cm =
     (case cm_Checkpoint cm of
        None \<Rightarrow> Some CheckpointNotLoaded
      | Some c \<Rightarrow> checkpoint_Validate c (cm_SourceSystem cm) (cm_AcquisitionStream cm) (cm_Adapter cm) (cm_AdapterVersion cm) (cm_SourceIncarnation cm))"

definition UpdateCheckpoint :: "string \<Rightarrow> string \<Rightarrow> string \<Rightarrow> int \<Rightarrow> checkpoint_manager \<Rightarrow> checkpoint_manager" where
  "UpdateCheckpoint now position current processed cm =
     cm\<lparr>cm_Checkpoint := map_option (UpdatePosition now position current processed) (cm_Checkpoint cm)\<rparr>"

definition cm_BindBundle :: "string \<Rightarrow> int \<Rightarrow> checkpoint_manager \<Rightarrow> checkpoint_manager" where
  "cm_BindBundle headHash recordCount cm = cm\<lparr>cm_Checkpoint := map_option (BindBundle headHash recordCount) (cm_Checkpoint cm)\<rparr>"

definition cm_ValidateBundle :: "checkpoint_manager \<Rightarrow> string \<Rightarrow> int \<Rightarrow> checkpoint_error option" where
  "cm_ValidateBundle cm headHash recordCount =
     (case cm_Checkpoint cm of None \<Rightarrow> Some CheckpointNotLoaded | Some c \<Rightarrow> ValidateBundle c headHash recordCount)"

definition cm_Save :: "save_faults \<Rightarrow> checkpoint_manager \<Rightarrow> disk \<Rightarrow> checkpoint_manager \<times> disk \<times> checkpoint_error option" where
  "cm_Save sf cm dsk =
     (case cm_Checkpoint cm of
        None \<Rightarrow> (cm, dsk, Some CheckpointNotLoaded)
      | Some c \<Rightarrow> (let (c', dsk', e) = checkpoint_Save sf c (cm_CheckpointPath cm) dsk in (cm\<lparr>cm_Checkpoint := Some c'\<rparr>, dsk', e)))"

subsection \<open>The name of the checkpoint file\<close>

definition name_rune :: "rune \<Rightarrow> bool" where
  "name_rune r \<longleftrightarrow> 97 \<le> r \<and> r \<le> 122 \<or> 65 \<le> r \<and> r \<le> 90 \<or> 48 \<le> r \<and> r \<le> 57 \<or> r = 46 \<or> r = 45 \<or> r = 95"

definition edge_char :: "char \<Rightarrow> bool" where
  "edge_char c = (c = CHR ''.'' \<or> c = CHR ''_'' \<or> c = CHR ''-'')"

definition sanitizeStreamName :: "string \<Rightarrow> string" where
  "sanitizeStreamName stream =
     (let b = map (\<lambda>r. if name_rune r then byte r else CHR ''_'') (runes (path_Base stream));
          trimmed = rev (dropWhile edge_char (rev (dropWhile edge_char b)));
          name = (if trimmed = [] then ''stream'' else trimmed)
      in take 40 name @ ''-'' @ take 8 (digest stream))"

definition CheckpointDir :: string where
  "CheckpointDir = ''.atb/checkpoints''"

definition ResolveCheckpointPath :: "string \<Rightarrow> string \<Rightarrow> string" where
  "ResolveCheckpointPath bundlePath stream =
     (let baseName = path_Base bundlePath; ext = path_Ext baseName; name = take (length baseName - length ext) baseName
      in path_Join [path_Dir bundlePath, CheckpointDir, name @ ''.'' @ sanitizeStreamName stream @ ''.checkpoint.json''])"

end
