(* ===== verification/Acquire_Props.thy ===== *)
theory Acquire_Props
  imports Acquire
begin

text \<open>
  Correctness of incremental acquisition: reconciliation follows an abstract map from source identities to digests as long
  as system names contain no colon, and confuses two identities otherwise; records of a verified bundle are
  classified against their last acquisition; a checkpoint is replaced atomically, reads back as written and accepts
  exactly the bundle head it is bound to; and its file name is one harmless path element.
\<close>

section \<open>Reconciliation\<close>

type_synonym digests = "string \<times> string \<Rightarrow> string option"

definition known_digests :: "known_records \<Rightarrow> digests" where
  "known_digests known = (\<lambda>(s, r). map_option kr_Digest (map_of known (s @ '':'' @ r)))"

definition classify :: "string option \<Rightarrow> string \<Rightarrow> reconciliation_result" where
  "classify old d = (case old of None \<Rightarrow> ReconciliationNew | Some d' \<Rightarrow> if d' = d then ReconciliationUnchanged else ReconciliationChanged)"

definition plain_system :: "source_identity \<Rightarrow> bool" where
  "plain_system i \<longleftrightarrow> CHR '':'' \<notin> set (si_System i)"

lemma colon_split:
  "CHR '':'' \<notin> set s \<Longrightarrow> CHR '':'' \<notin> set s' \<Longrightarrow> s @ '':'' @ r = s' @ '':'' @ r' \<longleftrightarrow> s = s' \<and> r = r'"
proof (induction s arbitrary: s')
  case Nil
  then show ?case by (cases s') auto
next
  case (Cons c s)
  then show ?case by (cases s') auto
qed

lemma Reconcile_step:
  assumes "plain_system i" "si_System i \<noteq> []" "si_RecordID i \<noteq> []" "Reconcile known i d t acq = (known', out)"
  shows "ro_Result out = classify (known_digests known (si_System i, si_RecordID i)) d"
    "CHR '':'' \<notin> set s \<Longrightarrow> known_digests known' (s, r) = (if (s, r) = (si_System i, si_RecordID i) then Some d else known_digests known (s, r))"
proof -
  have key: "identityKey i = s @ '':'' @ r \<longleftrightarrow> (si_System i, si_RecordID i) = (s, r)" if "CHR '':'' \<notin> set s" for s r
    using colon_split [OF _ that] assms(1) by (auto simp: identityKey_def plain_system_def)
  show "ro_Result out = classify (known_digests known (si_System i, si_RecordID i)) d"
    using assms by (auto simp: Reconcile_def Let_def classify_def known_digests_def identityKey_def split: option.splits if_splits)
  show "known_digests known' (s, r) = (if (s, r) = (si_System i, si_RecordID i) then Some d else known_digests known (s, r))"
    if s: "CHR '':'' \<notin> set s"
  proof (cases "(s, r) = (si_System i, si_RecordID i)")
    case True
    then have "s @ '':'' @ r = identityKey i" by (simp add: identityKey_def)
    with True assms show ?thesis
      by (auto simp: Reconcile_def Let_def known_digests_def split: option.splits if_splits)
  next
    case False
    with key [OF s] have "s @ '':'' @ r \<noteq> identityKey i" by metis
    with False assms show ?thesis
      by (auto simp: Reconcile_def Let_def known_digests_def split: option.splits if_splits)
  qed
qed

type_synonym source_record = "source_identity \<times> string \<times> string \<times> acquisition_info option"

fun reconcile_run :: "known_records \<Rightarrow> source_record list \<Rightarrow> reconciliation_result list" where
  "reconcile_run known [] = []"
| "reconcile_run known ((i, d, t, acq) # rs) =
     (let (known', out) = Reconcile known i d t acq in ro_Result out # reconcile_run known' rs)"

fun spec_run :: "digests \<Rightarrow> source_record list \<Rightarrow> reconciliation_result list" where
  "spec_run m [] = []"
| "spec_run m ((i, d, t, acq) # rs) =
     (if si_System i = [] \<or> si_RecordID i = [] then ReconciliationUnknown # spec_run m rs
      else classify (m (si_System i, si_RecordID i)) d # spec_run (m((si_System i, si_RecordID i) \<mapsto> d)) rs)"

lemma spec_run_cong:
  "list_all (\<lambda>(i, _). plain_system i) rs \<Longrightarrow> (\<And>s r. CHR '':'' \<notin> set s \<Longrightarrow> m (s, r) = m' (s, r)) \<Longrightarrow> spec_run m rs = spec_run m' rs"
proof (induction rs arbitrary: m m')
  case (Cons a rs)
  obtain i d t acq where a: "a = (i, d, t, acq)" by (cases a)
  with Cons.prems have i: "CHR '':'' \<notin> set (si_System i)" "list_all (\<lambda>(i, _). plain_system i) rs" by (auto simp: plain_system_def)
  have "spec_run (m((si_System i, si_RecordID i) \<mapsto> d)) rs = spec_run (m'((si_System i, si_RecordID i) \<mapsto> d)) rs"
    using Cons.prems(2) by (intro Cons.IH [OF i(2)]) simp
  moreover have "spec_run m rs = spec_run m' rs" using Cons.prems(2) by (intro Cons.IH [OF i(2)])
  ultimately show ?case using Cons.prems(2) [OF i(1)] by (simp add: a)
qed simp

lemma Reconcile_unknown:
  "si_System i = [] \<or> si_RecordID i = [] \<Longrightarrow> fst (Reconcile known i d t acq) = known \<and> ro_Result (snd (Reconcile known i d t acq)) = ReconciliationUnknown"
  by (auto simp: Reconcile_def Let_def)

text \<open>C30: reconciliation refines an abstract map. For source systems without a colon in their name, a whole run of incoming records
  is classified as the map from pairs of system and record identifier to the last digest says: new, unchanged,
  changed, or unknown when an identifier is missing.\<close>

theorem reconcile_refines:
  assumes "list_all (\<lambda>(i, _). plain_system i) rs"
  shows "reconcile_run known rs = spec_run (known_digests known) rs"
  using assms
proof (induction rs arbitrary: known)
  case (Cons a rs)
  obtain i d t acq where a: "a = (i, d, t, acq)" by (cases a)
  obtain known' out where step: "Reconcile known i d t acq = (known', out)" by force
  from Cons.prems a have i: "plain_system i" "list_all (\<lambda>(i, _). plain_system i) rs" by auto
  show ?case
  proof (cases "si_System i = [] \<or> si_RecordID i = []")
    case True
    with Cons.IH i(2) step Reconcile_unknown [OF True, of known d t acq] show ?thesis by (auto simp: a)
  next
    case False
    then have ne: "si_System i \<noteq> []" "si_RecordID i \<noteq> []" by auto
    have "spec_run (known_digests known') rs = spec_run ((known_digests known)((si_System i, si_RecordID i) \<mapsto> d)) rs"
      using Reconcile_step(2) [OF i(1) ne step] by (intro spec_run_cong [OF i(2)]) auto
    with False Cons.IH [OF i(2)] Reconcile_step(1) [OF i(1) ne step] step show ?thesis by (simp add: a)
  qed
qed simp

definition demo_identity :: "string \<Rightarrow> string \<Rightarrow> source_identity" where
  "demo_identity s r = \<lparr>si_System = s, si_RecordID = r, si_Derived = True\<rparr>"

theorem reconcile_refines_witness:
  "reconcile_run [] [(demo_identity ''otel'' ''1'', ''d'', [], None), (demo_identity ''otel'' ''1'', ''d'', [], None),
     (demo_identity ''otel'' ''1'', ''e'', [], None), (demo_identity ''otel'' [], ''e'', [], None)] =
   [ReconciliationNew, ReconciliationUnchanged, ReconciliationChanged, ReconciliationUnknown]"
  by (subst reconcile_refines) (simp_all add: demo_identity_def plain_system_def classify_def known_digests_def)

text \<open>A colon in a system name confuses identities. The record \<^verbatim>\<open>c\<close> of the system \<^verbatim>\<open>a:b\<close> and the record \<^verbatim>\<open>b:c\<close> of the system \<^verbatim>\<open>a\<close>
  have the same key, so the second one, never acquired before, is reported as a changed record, with a finding of
  high severity that names the digest of the first.\<close>

theorem reconcile_key_collision:
  "let known = fst (Reconcile [] (demo_identity ''a:b'' ''c'') ''d'' [] None);
       out = snd (Reconcile known (demo_identity ''a'' ''b:c'') ''e'' [] None)
   in demo_identity ''a:b'' ''c'' \<noteq> demo_identity ''a'' ''b:c'' \<and> ro_Result out = ReconciliationChanged \<and>
      (\<exists>f. ro_Finding out = Some f \<and> fo_Severity f = ''high'' \<and> fo_PreviousDigest f = ''d'' \<and> fo_SourceRecordID f = ''b:c'')"
  by (simp add: Reconcile_def identityKey_def demo_identity_def changed_finding_def Let_def)

section \<open>Loading a bundle\<close>

definition acquired_as :: "source_identity \<Rightarrow> bundle_record \<Rightarrow> bool" where
  "acquired_as i r \<longleftrightarrow> Type (Event r) \<noteq> ManifestEventType \<and>
     (case Acquisition (Event r) of
        None \<Rightarrow> False
      | Some acq \<Rightarrow> acq_SourceSystem acq = si_System i \<and> acq_SourceRecordID acq = si_RecordID i)"

definition last_digest :: "bundle_record list \<Rightarrow> source_identity \<Rightarrow> string option" where
  "last_digest records i =
     (let rs = filter (acquired_as i) records
      in if rs = [] then None else map_option acq_SourceDigest (Acquisition (Event (last rs))))"

definition plain_record :: "bundle_record \<Rightarrow> bool" where
  "plain_record r \<longleftrightarrow> (case Acquisition (Event r) of None \<Rightarrow> True | Some acq \<Rightarrow> CHR '':'' \<notin> set (acq_SourceSystem acq))"

lemma last_digest_snoc:
  "last_digest (rs @ [r]) i = (if acquired_as i r then map_option acq_SourceDigest (Acquisition (Event r)) else last_digest rs i)"
  by (simp add: last_digest_def Let_def)

definition loaded_from :: "bundle_record list \<Rightarrow> known_records \<Rightarrow> bool" where
  "loaded_from rs known \<longleftrightarrow>
     (\<forall>k x. map_of known k = Some x \<longrightarrow> (\<exists>r \<in> set rs. kr_EventSequence x = Sequence (Event r))) \<and>
     (\<forall>i. plain_system i \<longrightarrow> si_System i \<noteq> [] \<longrightarrow> si_RecordID i \<noteq> [] \<longrightarrow>
        map_option kr_Digest (map_of known (identityKey i)) = last_digest rs i)"

lemma load_record_loaded:
  assumes "loaded_from rs known" "plain_record r" "\<forall>x \<in> set rs. Sequence (Event x) < Sequence (Event r)"
  shows "loaded_from (rs @ [r]) (load_record r known)"
proof (cases "Type (Event r) \<noteq> ManifestEventType \<and>
    (\<exists>acq. Acquisition (Event r) = Some acq \<and> acq_SourceSystem acq \<noteq> [] \<and> acq_SourceRecordID acq \<noteq> [])")
  case False
  then have "load_record r known = known" by (auto simp: load_record_def Let_def split: option.splits)
  moreover have "\<not> acquired_as i r" if "si_System i \<noteq> []" "si_RecordID i \<noteq> []" for i
    using False that by (auto simp: acquired_as_def split: option.splits)
  ultimately show ?thesis using assms(1) unfolding loaded_from_def last_digest_snoc by fastforce
next
  case True
  then obtain acq where acq: "Acquisition (Event r) = Some acq" "acq_SourceSystem acq \<noteq> []" "acq_SourceRecordID acq \<noteq> []"
    and ty: "Type (Event r) \<noteq> ManifestEventType" by blast
  define j where "j = \<lparr>si_System = acq_SourceSystem acq, si_RecordID = acq_SourceRecordID acq, si_Derived = True\<rparr>"
  define k where "k = \<lparr>kr_SourceIdentity = j, kr_Digest = acq_SourceDigest acq, kr_AcquiredAt = acq_AcquiredAt acq,
    kr_EventSequence = Sequence (Event r), kr_Acquisition = Some acq\<rparr>"
  have new: "kr_EventSequence old < Sequence (Event r)" if "map_of known (identityKey j) = Some old" for old
    using assms(1,3) that unfolding loaded_from_def by metis
  have load: "load_record r known = map_store known (identityKey j) k"
    using acq ty new unfolding j_def k_def by (cases "map_of known (identityKey j)") (simp_all add: load_record_def Let_def j_def)
  have key: "identityKey i = identityKey j \<longleftrightarrow> acquired_as i r" if "plain_system i" for i
  proof -
    have "CHR '':'' \<notin> set (si_System i)" "CHR '':'' \<notin> set (acq_SourceSystem acq)"
      using that assms(2) acq(1) by (simp_all add: plain_system_def plain_record_def)
    from colon_split [OF this] have "identityKey i = identityKey j \<longleftrightarrow> si_System i = acq_SourceSystem acq \<and> si_RecordID i = acq_SourceRecordID acq"
      by (simp only: identityKey_def j_def source_identity.select_convs)
    then show ?thesis using acq(1) ty by (auto simp: acquired_as_def)
  qed
  show ?thesis
    unfolding loaded_from_def load last_digest_snoc
  proof (intro conjI allI impI)
    fix i assume i: "plain_system i" "si_System i \<noteq> []" "si_RecordID i \<noteq> []"
    then show "map_option kr_Digest (map_of (map_store known (identityKey j) k) (identityKey i)) =
        (if acquired_as i r then map_option acq_SourceDigest (Acquisition (Event r)) else last_digest rs i)"
      using assms(1) key [OF i(1)] by (simp add: loaded_from_def acq k_def)
  next
    fix q x assume "map_of (map_store known (identityKey j) k) q = Some x"
    then show "\<exists>r \<in> set (rs @ [r]). kr_EventSequence x = Sequence (Event r)"
      using assms(1) by (auto simp: loaded_from_def k_def split: if_splits)
  qed
qed

lemma loaded_records:
  assumes "numbered n (map Event rs)" "list_all plain_record rs"
  shows "loaded_from rs (LoadFromBundle [] rs)"
  using assms
proof (induction rs rule: rev_induct)
  case Nil
  show ?case by (simp add: loaded_from_def last_digest_def LoadFromBundle_def)
next
  case (snoc r rs)
  have num: "numbered n (map Event rs)" "Sequence (Event r) = n + int (length rs)"
    using snoc.prems(1) by (simp_all add: numbered_append)
  have "Sequence (Event x) < Sequence (Event r)" if "x \<in> set rs" for x
  proof -
    from that obtain j where "j < length rs" "x = rs ! j" by (auto simp: in_set_conv_nth)
    with numbered_nth [OF num(1), of j] num(2) show ?thesis by simp
  qed
  with snoc num show ?case using load_record_loaded [of rs "LoadFromBundle [] rs" r] by (simp add: LoadFromBundle_def)
qed

text \<open>A continued import classifies against the last acquisition. After the records of a verified bundle are loaded, an
  incoming record is new if the bundle holds no acquisition of it, unchanged if its digest is the one of the last
  acquisition in the bundle, and changed otherwise.\<close>

theorem continuation_classifies:
  assumes "Bundle.Verify b = None" "list_all plain_record (Records b)" "plain_system i" "si_System i \<noteq> []" "si_RecordID i \<noteq> []"
  shows "ro_Result (snd (Reconcile (LoadFromBundle [] (Records b)) i d t acq)) = classify (last_digest (Records b) i) d"
proof -
  obtain known out where step: "Reconcile (LoadFromBundle [] (Records b)) i d t acq = (known, out)" by force
  have "loaded_from (Records b) (LoadFromBundle [] (Records b))"
    using assms(1,2) by (intro loaded_records) (auto simp: Verify_None)
  then have "known_digests (LoadFromBundle [] (Records b)) (si_System i, si_RecordID i) = last_digest (Records b) i"
    using assms(3-5) by (simp add: loaded_from_def known_digests_def identityKey_def)
  with Reconcile_step(1) [OF assms(3-5) step] step show ?thesis by simp
qed

definition acquired_options :: append_options where
  "acquired_options = (timestamp_options sample_time)\<lparr>ao_Acquisition :=
     Some (zero_acquisition\<lparr>acq_SourceSystem := ''otel'', acq_SourceRecordID := ''1'', acq_SourceDigest := ''d''\<rparr>)\<rparr>"

definition acquired_event :: event where
  "acquired_event = next_event sample_first ''ai.tool.exec'' (AString ''ls'') (Some acquired_options)"

definition acquired_bundle :: atb_bundle where
  "acquired_bundle = \<lparr>Records = Records sample_first @ [new_record acquired_event (event_hash acquired_event)]\<rparr>"

lemma acquired_verifies: "Bundle.Verify acquired_bundle = None"
proof -
  have "''ai.tool.exec'' \<noteq> ManifestEventType" by code_simp
  moreover have "acquisition_guard sample_first ''ai.tool.exec'' (Some acquired_options) = None"
    using sample_manifest by (auto simp: acquisition_guard_def ManifestE_def sample_first_def)
  moreover have "encodable acquired_event"
    by (rule wire_ok_encodable) (simp add: wire_ok_def acquired_event_def event_json_def int64_def next_event_def Let_def sample_first_def
        first_bundle_def hasManifestRecord_def new_record_def)
  ultimately have "AppendWithOptions sample_first ''ai.tool.exec'' (AString ''ls'') (Some acquired_options) = Inr acquired_bundle"
    by (simp add: AppendWithOptions_Inr sample_type_ok acquired_bundle_def acquired_event_def)
  then show ?thesis by (rule append_verifies [OF sample_verifies(2)])
qed

lemma acquired_records:
  "list_all plain_record (Records acquired_bundle)" "last_digest (Records acquired_bundle) (demo_identity ''otel'' ''1'') = Some ''d''"
proof -
  have a: "Acquisition acquired_event = Some (zero_acquisition\<lparr>acq_SourceSystem := ''otel'', acq_SourceRecordID := ''1'', acq_SourceDigest := ''d''\<rparr>)"
      "Type acquired_event = ''ai.tool.exec''" "list_all (\<lambda>r. Acquisition (Event r) = None) (Records sample_first)"
    by (simp_all add: acquired_event_def next_event_def apply_options_def acquired_options_def timestamp_options_def Let_def
        sample_first_def first_bundle_def new_record_def zero_event_def)
  have "''ai.tool.exec'' \<noteq> ManifestEventType" by code_simp
  with a show "list_all plain_record (Records acquired_bundle)"
      "last_digest (Records acquired_bundle) (demo_identity ''otel'' ''1'') = Some ''d''"
    by (auto simp: acquired_bundle_def last_digest_snoc acquired_as_def plain_record_def new_record_def demo_identity_def
        zero_acquisition_def list_all_iff)
qed

theorem continuation_classifies_witness:
  "ro_Result (snd (Reconcile (LoadFromBundle [] (Records acquired_bundle)) (demo_identity ''otel'' ''1'') ''d'' [] None)) = ReconciliationUnchanged \<and>
   ro_Result (snd (Reconcile (LoadFromBundle [] (Records acquired_bundle)) (demo_identity ''otel'' ''1'') ''e'' [] None)) = ReconciliationChanged"
  using continuation_classifies [OF acquired_verifies acquired_records(1), of "demo_identity ''otel'' ''1''" _ "[]" None]
  unfolding acquired_records(2) by (simp add: plain_system_def demo_identity_def classify_def)

section \<open>Checkpoints\<close>

definition ck_ok :: "checkpoint \<Rightarrow> bool" where
  \<comment> \<open>what the program stores: valid UTF-8, integers of 64 bits, a supported version, the metadata of a map\<close>
  "ck_ok c \<longleftrightarrow>
     (ck_FormatVersion c = 0 \<or> ck_FormatVersion c = 1) \<and> int64 (ck_ProcessedCount c) \<and> int64 (ck_BundleRecordCount c) \<and>
     list_all valid_utf8 [ck_SourceSystem c, ck_AcquisitionStream c, ck_Position c, ck_ObservedAt c, ck_Adapter c, ck_AdapterVersion c,
       si_System (ck_SourceIdentity c), si_RecordID (ck_SourceIdentity c), ck_SourceIncarnation c, ck_LastRecordDigest c, ck_BundleHeadHash c] \<and>
     list_all (\<lambda>(k, v). valid_utf8 k \<and> valid_utf8 v) (ck_Metadata c) \<and> sorted_wrt (<) (map fst (ck_Metadata c))"

lemma metadata_distinct: "sorted_wrt (<) (map fst (m :: (string \<times> string) list)) \<Longrightarrow> distinct (map fst m) \<and> sort_key fst m = m"
  by (simp add: strict_sorted_iff sort_key_id_if_sorted)

lemma decode_map_strings:
  "distinct (map fst (acc @ m)) \<Longrightarrow> decode_map (map (\<lambda>(k, v). (k, JString v)) m) acc = Some (acc @ m)"
proof (induction m arbitrary: acc)
  case (Cons a m)
  obtain k v where a: "a = (k, v)" by force
  have "map_store acc k v = acc @ [(k, v)]" using Cons.prems a by (intro map_store_new) auto
  with Cons.IH [of "acc @ [(k, v)]"] Cons.prems show ?case by (simp add: a decode_string_def)
qed simp

lemma decode_identity_json:
  "decode_struct set_identity identity_names (identity_json i) \<lparr>si_System = [], si_RecordID = [], si_Derived = False\<rparr> = Some i"
  by (cases i) (simp add: decode_struct_def identity_json_def struct_field_def identity_names_def set_identity_def decode_string_def decode_bool_def)

lemmas ck_decoding = struct_field_def ck_names_def set_ck_def decode_string_def omit_string_def decode_int_def

lemma decode_ck_omit:
  "ck_AdapterVersion c = [] \<Longrightarrow> decode_members set_ck ck_names (omit_string ''adapter_version'' s) c = Some (c\<lparr>ck_AdapterVersion := s\<rparr>)"
  "ck_SourceIncarnation c = [] \<Longrightarrow> decode_members set_ck ck_names (omit_string ''source_incarnation'' s) c = Some (c\<lparr>ck_SourceIncarnation := s\<rparr>)"
  "ck_LastRecordDigest c = [] \<Longrightarrow> decode_members set_ck ck_names (omit_string ''last_record_digest'' s) c = Some (c\<lparr>ck_LastRecordDigest := s\<rparr>)"
  "ck_BundleHeadHash c = [] \<Longrightarrow> decode_members set_ck ck_names (omit_string ''bundle_head_hash'' s) c = Some (c\<lparr>ck_BundleHeadHash := s\<rparr>)"
  by (cases c; simp add: ck_decoding)+

lemma decode_ck_head:
  "int64 n \<Longrightarrow> decode_members set_ck ck_names
     [(''format_version'', JNumber (show_int n)), (''source_system'', JString a), (''acquisition_stream'', JString b), (''position'', JString p),
      (''observed_at'', JString q), (''adapter'', JString d)] c =
     Some (c\<lparr>ck_FormatVersion := n, ck_SourceSystem := a, ck_AcquisitionStream := b, ck_Position := p, ck_ObservedAt := q, ck_Adapter := d\<rparr>)"
  by (simp add: ck_decoding ParseInt_show_int int64_def)

lemma decode_ck_identity:
  "ck_SourceIdentity c = \<lparr>si_System = [], si_RecordID = [], si_Derived = False\<rparr> \<Longrightarrow>
     decode_members set_ck ck_names [(''source_identity'', identity_json i)] c = Some (c\<lparr>ck_SourceIdentity := i\<rparr>)"
  by (simp add: ck_decoding decode_identity_json)

lemma decode_ck_counts:
  "int64 n \<Longrightarrow> decode_members set_ck ck_names [(''processed_count'', JNumber (show_int n))] c = Some (c\<lparr>ck_ProcessedCount := n\<rparr>)"
  "int64 n \<Longrightarrow> ck_BundleRecordCount c = 0 \<Longrightarrow>
     decode_members set_ck ck_names (if n = 0 then [] else [(''bundle_record_count'', JNumber (show_int n))]) c = Some (c\<lparr>ck_BundleRecordCount := n\<rparr>)"
  by (cases c; simp add: ck_decoding ParseInt_show_int int64_def)+

lemma decode_ck_metadata:
  "ck_Metadata c = [] \<Longrightarrow> sorted_wrt (<) (map fst m) \<Longrightarrow>
     decode_members set_ck ck_names (if m = [] then [] else [(''metadata'', JObject (map (\<lambda>(k, v). (k, JString v)) (sort_key fst m)))]) c =
       Some (c\<lparr>ck_Metadata := m\<rparr>)"
  using decode_map_strings [of "[]" m] metadata_distinct [of m] by (cases c) (simp add: ck_decoding decode_string_map_def)

lemma decode_ck_members:
  assumes "int64 (ck_FormatVersion c)" "int64 (ck_ProcessedCount c)" "int64 (ck_BundleRecordCount c)" "sorted_wrt (<) (map fst (ck_Metadata c))"
  shows "decode_struct set_ck ck_names (JObject (checkpoint_members c)) zero_ck = Some c"
  unfolding decode_struct_def checkpoint_members_def
  by (simp only: json.case decode_members_append decode_ck_head [OF assms(1)] decode_ck_omit decode_ck_identity decode_ck_counts [OF assms(2)]
      decode_ck_counts [OF assms(3)] decode_ck_metadata [OF _ assms(4)] option.case zero_ck_def checkpoint.select_convs checkpoint.update_convs)
    simp

lemma wf_checkpoint: "wf_json (JObject (checkpoint_members c))"
proof -
  have "list_all (\<lambda>(k, v). wf_json v) (map (\<lambda>(k, v). (k, JString v)) m)" for m :: "(string \<times> string) list"
    by (auto simp: list_all_iff)
  then show ?thesis by (simp add: checkpoint_members_def wf_omit show_int_number identity_json_def)
qed

lemma coerce_checkpoint_members:
  assumes "ck_ok c" shows "coerce_json (JObject (checkpoint_members c)) = JObject (checkpoint_members c)"
proof -
  have m: "sort_key fst (ck_Metadata c) = ck_Metadata c" using assms metadata_distinct by (auto simp: ck_ok_def)
  have "map (\<lambda>(k, v). (coerce_utf8 k, coerce_json v)) (map (\<lambda>(k, v). (k, JString v)) (ck_Metadata c)) = map (\<lambda>(k, v). (k, JString v)) (ck_Metadata c)"
    using assms by (auto simp: ck_ok_def list_all_iff)
  with assms m show ?thesis
    by (simp add: checkpoint_members_def identity_json_def coerce_omit_string valid_utf8_literal ck_ok_def)
qed

lemma ck_ok_save: "ck_ok c \<Longrightarrow> ck_ok (save_version c) \<and> ck_FormatVersion (save_version c) = 1"
  by (auto simp: ck_ok_def save_version_def CheckpointFormatVersion_def)

lemma Load_saved:
  assumes "ck_ok c" "ck_FormatVersion c = 1" "readable_file path"
    and "dsk (path_Clean path) = Some (MarshalIndent (JObject (checkpoint_members c)))"
  shows "checkpoint_Load readable_file dsk path = Inr c"
proof -
  have "decode_struct set_ck ck_names (JObject (checkpoint_members c)) zero_ck = Some c"
    using assms(1,2) by (intro decode_ck_members) (auto simp: ck_ok_def int64_def)
  then show ?thesis
    using assms by (simp add: checkpoint_Load_def json_scan_MarshalIndent [OF wf_checkpoint] coerce_checkpoint_members del: coerce_json.simps)
qed

text \<open>C31: saving a checkpoint is atomic and reads back. Whatever step of the save fails, the file holds its old content or
  the complete new one, which loads as exactly the checkpoint that was saved; without an error it is the new one,
  and no other file changes. The loaded checkpoint accepts the bundle head and record count it was bound to, and no
  others.\<close>

theorem checkpoint_continues:
  assumes "ck_ok (BindBundle h n c)" "readable_file path" "checkpoint_Save sf (BindBundle h n c) path dsk = (c', dsk', e)"
  shows "(dsk' = dsk \<or> checkpoint_Load readable_file dsk' path = Inr c') \<and>
    (e = None \<longrightarrow> checkpoint_Load readable_file dsk' path = Inr c') \<and>
    (\<forall>p. p \<noteq> path_Clean path \<longrightarrow> dsk' p = dsk p) \<and>
    (h \<noteq> [] \<longrightarrow> (\<forall>h' n'. ValidateBundle c' h' n' = None \<longleftrightarrow> h' = h \<and> n' = n))"
proof -
  let ?c = "save_version (BindBundle h n c)"
  have c: "c' = ?c" "ck_ok c'" "ck_FormatVersion c' = 1"
    using assms(1,3) ck_ok_save [OF assms(1)] by (auto simp: checkpoint_Save_def Let_def split: if_splits)
  have disk: "dsk' = dsk \<and> e \<noteq> None \<or> dsk' = dsk(path_Clean path \<mapsto> MarshalIndent (JObject (checkpoint_members c')))"
    using assms(3) c(1) by (auto simp: checkpoint_Save_def Let_def split: if_splits)
  have "checkpoint_Load readable_file dsk' path = Inr c'" if "dsk' \<noteq> dsk \<or> e = None"
    using that disk by (intro Load_saved [where c = c', OF c(2,3)]) (auto simp: assms(2))
  moreover have "ck_BundleHeadHash c' = h" "ck_BundleRecordCount c' = n" by (simp_all add: c(1) save_version_def BindBundle_def)
  ultimately show ?thesis using disk by (auto simp: ValidateBundle_def)
qed

definition no_faults :: save_faults where
  "no_faults = \<lparr>sf_mkdir = False, sf_temp = False, sf_rename = False, sf_sync = False\<rparr>"

theorem checkpoint_continues_witness:
  "let (c, dsk, e) = checkpoint_Save no_faults (BindBundle ''abc'' 7 (zero_ck\<lparr>ck_SourceSystem := ''otel''\<rparr>)) ''x/cp.json'' (\<lambda>_. None)
   in e = None \<and> checkpoint_Load (\<lambda>_. True) dsk ''x/cp.json'' = Inr c \<and> ValidateBundle c ''abc'' 7 = None \<and> ValidateBundle c ''abc'' 8 \<noteq> None"
proof -
  let ?c = "zero_ck\<lparr>ck_SourceSystem := ''otel''\<rparr>"
  obtain c dsk e where s: "checkpoint_Save no_faults (BindBundle ''abc'' 7 ?c) ''x/cp.json'' (\<lambda>_. None) = (c, dsk, e)" by (metis prod_cases3)
  have e: "e = None" using s by (auto simp: checkpoint_Save_def no_faults_def Let_def)
  have "ck_ok (BindBundle ''abc'' 7 ?c)" by (simp add: ck_ok_def BindBundle_def zero_ck_def int64_def valid_utf8_literal)
  note f = checkpoint_continues [OF this _ s, of "\<lambda>_. True"]
  have "checkpoint_Load (\<lambda>_. True) dsk ''x/cp.json'' = Inr c" "\<forall>h' n'. ValidateBundle c h' n' = None \<longleftrightarrow> h' = ''abc'' \<and> n' = 7"
    using f e by simp_all
  then show ?thesis unfolding s by (simp add: e del: not_None_eq)
qed

section \<open>The name of the checkpoint file\<close>

definition name_char :: "char \<Rightarrow> bool" where
  "name_char c = name_rune (ord c)"

lemma hex_digit_name: "n < 16 \<Longrightarrow> name_char (hex_digit n)"
  by (auto simp: name_char_def name_rune_def hex_digit_def ord_byte)

lemma hex_name_char: "c \<in> set (digest s) \<Longrightarrow> name_char c"
  unfolding digest_def hex_encode_def by (auto intro!: hex_digit_name simp: less_mult_imp_div_less)

lemma name_chars: "c \<in> set (map (\<lambda>r. if name_rune r then byte r else CHR ''_'') rs) \<Longrightarrow> name_char c"
  by (auto simp: name_char_def name_rune_def ord_byte)

text \<open>The name of a checkpoint file is harmless whatever the stream is called: it consists of letters, digits, dots, dashes
  and underscores, begins with a letter or digit, and has at most 49 bytes.\<close>

theorem checkpoint_name_safe:
  "list_all name_char (sanitizeStreamName stream) \<and> length (sanitizeStreamName stream) \<le> 49 \<and>
   sanitizeStreamName stream \<noteq> [] \<and> \<not> edge_char (hd (sanitizeStreamName stream)) \<and> sep \<notin> set (sanitizeStreamName stream)"
proof -
  define b where "b = map (\<lambda>r. if name_rune r then byte r else CHR ''_'') (runes (path_Base stream))"
  define t where "t = rev (dropWhile edge_char (rev (dropWhile edge_char b)))"
  define name where "name = (if t = [] then ''stream'' else t)"
  have s: "sanitizeStreamName stream = take 40 name @ ''-'' @ take 8 (digest stream)"
    by (simp add: sanitizeStreamName_def b_def t_def name_def Let_def)
  have sub: "set t \<subseteq> set b" by (auto simp: t_def dest!: set_dropWhileD)
  have "list_all name_char ''stream''" by (simp add: name_char_def name_rune_def)
  moreover have "list_all name_char t" using sub name_chars unfolding b_def list_all_iff by blast
  ultimately have chars: "list_all name_char name" by (simp add: name_def)
  have hd: "name \<noteq> []" "\<not> edge_char (hd name)"
  proof -
    have "\<not> edge_char (hd t)" if "t \<noteq> []"
    proof -
      obtain u where u: "dropWhile edge_char b = t @ u"
        using takeWhile_dropWhile_id [of edge_char "rev (dropWhile edge_char b)"] by (metis t_def rev_append rev_rev_ident)
      then have "dropWhile edge_char b \<noteq> []" "hd (dropWhile edge_char b) = hd t" using that by auto
      then show ?thesis using hd_dropWhile [of edge_char b] by metis
    qed
    then show "name \<noteq> []" "\<not> edge_char (hd name)" by (auto simp: name_def edge_char_def)
  qed
  have all: "list_all name_char (sanitizeStreamName stream)"
    using chars hex_name_char unfolding s
    by (auto simp: list_all_iff name_char_def name_rune_def dest: in_set_takeD)
  moreover have "\<not> name_char sep" by (simp add: name_char_def name_rune_def)
  ultimately have "sep \<notin> set (sanitizeStreamName stream)" by (auto simp: list_all_iff)
  moreover have "hd (sanitizeStreamName stream) = hd name" using hd(1) by (cases name) (simp_all add: s)
  ultimately show ?thesis using all hd by (simp add: s)
qed

end
