(* ===== verification/Ledger.thy ===== *)
theory Ledger
  imports Bundle_Props Go_Path
begin

text \<open>
  The archive ledger, \<^verbatim>\<open>internal/archive/ledger.go\<close>: one JSON line per archived bundle, each linked to the hash of the line
  before it. Theorems: appending the next entry to a ledger that loads and verifies gives a ledger that loads and
  verifies; two ledgers with the same head agree; the last entry, whose hash is stored nowhere, is not protected.
\<close>

section \<open>Entries\<close>

record ledger_entry =
  al_Sequence :: int
  al_PrevHash :: string
  al_ArchivedAt :: string
  al_Source :: string
  al_Dest :: string
  al_SHA256 :: string
  al_HeadHash :: string

datatype ledger_error =
    LedgerMissing
  | LedgerParse
  | LedgerScan
  | LedgerSequence nat int int
  | LedgerPrevHash nat string string
  | LedgerCompute int canon_error
  | LedgerOpen
  | LedgerWrite

definition ledgerEventType :: string where
  "ledgerEventType = ''archive.entry''"

definition ledger_event :: "ledger_entry \<Rightarrow> event" where
  \<comment> \<open>the payload is a struct; the canonical text orders its members by name\<close>
  "ledger_event e =
     zero_event\<lparr>Sequence := al_Sequence e, PrevHash := al_PrevHash e, Type := ledgerEventType,
       Data := AMap [(''archived_at'', AString (al_ArchivedAt e)), (''source'', AString (al_Source e)), (''dest'', AString (al_Dest e)),
                     (''sha256'', AString (al_SHA256 e)), (''head_hash'', AString (al_HeadHash e))]\<rparr>"

definition ledger_ComputeHash :: "ledger_entry \<Rightarrow> canon_error + string" where
  "ledger_ComputeHash e = Compute (ledger_event e)"

fun ledger_verify_loop :: "nat \<Rightarrow> string \<Rightarrow> ledger_entry list \<Rightarrow> ledger_error + string" where
  "ledger_verify_loop i prev [] = Inr prev"
| "ledger_verify_loop i prev (e # es) =
     (if al_Sequence e \<noteq> int i + 1 then Inl (LedgerSequence i (al_Sequence e) (int i + 1))
      else if al_PrevHash e \<noteq> prev then Inl (LedgerPrevHash i (al_PrevHash e) prev)
      else case ledger_ComputeHash e of
             Inl err \<Rightarrow> Inl (LedgerCompute (al_Sequence e) err)
           | Inr current \<Rightarrow> ledger_verify_loop (i + 1) current es)"

definition ledger_Verify :: "ledger_entry list \<Rightarrow> ledger_error + string" where
  "ledger_Verify es = ledger_verify_loop 0 GenesisHash es"

definition NextEntry :: "ledger_entry list \<Rightarrow> string \<Rightarrow> string \<Rightarrow> string \<Rightarrow> string \<Rightarrow> string \<Rightarrow> ledger_error + ledger_entry" where
  "NextEntry existing archivedAt source dest fileSHA256 headHash =
     bind_res (ledger_Verify existing) (\<lambda>prev.
       Inr \<lparr>al_Sequence = int (length existing) + 1, al_PrevHash = prev, al_ArchivedAt = archivedAt, al_Source = source, al_Dest = dest,
            al_SHA256 = fileSHA256, al_HeadHash = headHash\<rparr>)"

section \<open>The file\<close>

definition ledger_members :: "ledger_entry \<Rightarrow> members" where
  "ledger_members e =
     [(''seq'', JNumber (show_int (al_Sequence e))), (''prev_hash'', JString (al_PrevHash e)), (''archived_at'', JString (al_ArchivedAt e)),
      (''source'', JString (al_Source e)), (''dest'', JString (al_Dest e)), (''sha256'', JString (al_SHA256 e)),
      (''head_hash'', JString (al_HeadHash e))]"

definition ledger_line :: "ledger_entry \<Rightarrow> string" where
  \<comment> \<open>\<^verbatim>\<open>json.Encoder.Encode\<close>\<close>
  "ledger_line e = render_html (JObject (ledger_members e)) @ [CHR 0x0A]"

definition ledger_names :: "string list" where
  "ledger_names = [''seq'', ''prev_hash'', ''archived_at'', ''source'', ''dest'', ''sha256'', ''head_hash'']"

definition set_ledger :: "string \<Rightarrow> json \<Rightarrow> ledger_entry \<Rightarrow> ledger_entry option" where
  "set_ledger n j e =
     (if n = ''seq'' then map_option (\<lambda>i. e\<lparr>al_Sequence := i\<rparr>) (decode_int j (al_Sequence e))
      else if n = ''prev_hash'' then map_option (\<lambda>s. e\<lparr>al_PrevHash := s\<rparr>) (decode_string j (al_PrevHash e))
      else if n = ''archived_at'' then map_option (\<lambda>s. e\<lparr>al_ArchivedAt := s\<rparr>) (decode_string j (al_ArchivedAt e))
      else if n = ''source'' then map_option (\<lambda>s. e\<lparr>al_Source := s\<rparr>) (decode_string j (al_Source e))
      else if n = ''dest'' then map_option (\<lambda>s. e\<lparr>al_Dest := s\<rparr>) (decode_string j (al_Dest e))
      else if n = ''sha256'' then map_option (\<lambda>s. e\<lparr>al_SHA256 := s\<rparr>) (decode_string j (al_SHA256 e))
      else map_option (\<lambda>s. e\<lparr>al_HeadHash := s\<rparr>) (decode_string j (al_HeadHash e)))"

definition zero_ledger :: ledger_entry where
  "zero_ledger = \<lparr>al_Sequence = 0, al_PrevHash = [], al_ArchivedAt = [], al_Source = [], al_Dest = [], al_SHA256 = [], al_HeadHash = []\<rparr>"

definition decode_ledger :: "string \<Rightarrow> ledger_entry option" where
  "decode_ledger line = (case json_scan line of None \<Rightarrow> None | Some j \<Rightarrow> decode_struct set_ledger ledger_names j zero_ledger)"

definition scanner_fits :: "string \<Rightarrow> bool" where
  \<comment> \<open>the default buffer of a \<^verbatim>\<open>bufio.Scanner\<close>: 64 KiB for a line with its line feed, one byte less without\<close>
  "scanner_fits raw = (if raw \<noteq> [] \<and> last raw = CHR 0x0A then length raw \<le> 65536 else length raw < 65536)"

fun ledger_load_loop :: "string list \<Rightarrow> ledger_entry list \<Rightarrow> ledger_error + ledger_entry list" where
  "ledger_load_loop [] es = Inr es"
| "ledger_load_loop (raw # rest) es =
     (if \<not> scanner_fits raw then Inl LedgerScan
      else let line = trim_line raw
           in if line = [] then ledger_load_loop rest es
              else case decode_ledger line of
                     None \<Rightarrow> Inl LedgerParse
                   | Some e \<Rightarrow> ledger_load_loop rest (es @ [e]))"

definition ledger_Load :: "string option \<Rightarrow> ledger_error + ledger_entry list" where
  \<comment> \<open>None: no such file\<close>
  "ledger_Load content = (case content of None \<Rightarrow> Inl LedgerMissing | Some d \<Rightarrow> ledger_load_loop (raw_lines d) [])"

definition LoadOrEmpty :: "string option \<Rightarrow> ledger_error + ledger_entry list" where
  "LoadOrEmpty content = (case ledger_Load content of Inl LedgerMissing \<Rightarrow> Inr [] | r \<Rightarrow> r)"

datatype append_fault = AppendDone | AppendNoOpen | AppendTorn nat

definition ledger_Append :: "append_fault \<Rightarrow> string option \<Rightarrow> ledger_entry \<Rightarrow> string option \<times> ledger_error option" where
  \<comment> \<open>the file afterwards; a failed write may leave some bytes of the line; an error of closing the file, which the code
      ignores, is not modelled\<close>
  "ledger_Append fault content e =
     (let old = (case content of None \<Rightarrow> [] | Some d \<Rightarrow> d)
      in case fault of
           AppendNoOpen \<Rightarrow> (content, Some LedgerOpen)
         | AppendTorn n \<Rightarrow> (Some (old @ take n (ledger_line e)), Some LedgerWrite)
         | AppendDone \<Rightarrow> (Some (old @ ledger_line e), None))"

section \<open>The chain\<close>

abbreviation ledger_body :: "ledger_entry \<Rightarrow> string" where
  "ledger_body e \<equiv> event_body (ledger_event e)"

definition ledger_hash :: "ledger_entry \<Rightarrow> string" where
  "ledger_hash e = digest (al_PrevHash e @ ledger_body e)"

interpretation ledger: linked_chain al_PrevHash ledger_hash "\<lambda>e. event_body (ledger_event e)" digest GenesisHash
  by unfold_locales simp

lemma ledger_event_fields [simp]: "Sequence (ledger_event e) = al_Sequence e" "PrevHash (ledger_event e) = al_PrevHash e"
  by (simp_all add: ledger_event_def)

lemma ledger_encodable: "int64 (al_Sequence e) \<Longrightarrow> encodable (ledger_event e)"
  by (rule wire_ok_encodable) (simp add: wire_ok_def event_json_def ledger_event_def)

fun ledger_numbered :: "int \<Rightarrow> ledger_entry list \<Rightarrow> bool" where
  "ledger_numbered n [] = True"
| "ledger_numbered n (e # es) = (al_Sequence e = n \<and> encodable (ledger_event e) \<and> ledger_numbered (n + 1) es)"

lemma ledger_verify_loop_Inr:
  "ledger_verify_loop i prev es = Inr h \<longleftrightarrow>
     ledger_numbered (int i + 1) es \<and> linked al_PrevHash ledger_hash (\<lambda>e. event_body (ledger_event e)) digest prev es \<and>
     h = chain_head ledger_hash prev es"
proof (induction es arbitrary: i prev)
  case (Cons e es)
  have c: "ledger_ComputeHash e = Inr x \<longleftrightarrow> encodable (ledger_event e) \<and> x = ledger_hash e" for x
    by (simp add: ledger_ComputeHash_def Compute_Inr ledger_hash_def)
  show ?case
  proof (cases "ledger_ComputeHash e")
    case (Inl err)
    then have "\<not> encodable (ledger_event e)" using c [of "ledger_hash e"] by simp
    with Inl show ?thesis by simp
  next
    case (Inr x)
    with c [of x] Cons show ?thesis by (auto simp: ledger_hash_def algebra_simps)
  qed
qed auto

lemma ledger_Verify_Inr:
  "ledger_Verify es = Inr h \<longleftrightarrow>
     ledger_numbered 1 es \<and> linked al_PrevHash ledger_hash (\<lambda>e. event_body (ledger_event e)) digest GenesisHash es \<and>
     h = chain_head ledger_hash GenesisHash es"
  using ledger_verify_loop_Inr [of 0 GenesisHash es h] by (simp add: ledger_Verify_def)

lemma ledger_numbered_append:
  "ledger_numbered n (es @ fs) \<longleftrightarrow> ledger_numbered n es \<and> ledger_numbered (n + int (length es)) fs"
  by (induction es arbitrary: n) (auto simp: algebra_simps)

section \<open>Lines\<close>

lemma raw_lines_append:
  assumes "d = [] \<or> last d = CHR 0x0A" shows "raw_lines (d @ s) = raw_lines d @ raw_lines s"
  using assms
proof (induction d rule: raw_lines.induct)
  case (1 d)
  show ?case
  proof (cases "IndexByte d (CHR 0x0A)")
    case None
    then have "CHR 0x0A \<notin> set d" by (induction d) (auto split: if_splits)
    with 1(2) have "d = []" using last_in_set [of d] by metis
    then show ?thesis by simp
  next
    case (Some i)
    then have i: "i < length d" "d ! i = CHR 0x0A" "IndexByte (d @ s) (CHR 0x0A) = Some i"
      by (induction d arbitrary: i) (auto split: if_splits)
    have rest: "drop (i + 1) d = [] \<or> last (drop (i + 1) d) = CHR 0x0A" using 1(2) by (cases "drop (i + 1) d = []") auto
    have "raw_lines (drop (i + 1) d @ s) = raw_lines (drop (i + 1) d) @ raw_lines s"
      by (rule 1(1) [OF _ refl]) (use Some i rest in \<open>auto simp: scanRawLines_def\<close>)
    then show ?thesis
      using Some i by (subst (1 2) raw_lines.simps) (auto simp: scanRawLines_def)
  qed
qed

lemma ledger_load_append:
  "ledger_load_loop (xs @ ys) es = bind_res (ledger_load_loop xs es) (ledger_load_loop ys)"
  by (induction xs es rule: ledger_load_loop.induct) (simp_all add: Let_def split: option.splits)

lemma ledger_load_present: "ledger_load_loop raws es \<noteq> Inl LedgerMissing"
  by (induction raws es rule: ledger_load_loop.induct) (auto simp: Let_def split: option.splits)

lemma valid_utf8_ledger_names: "k \<in> set ledger_names \<Longrightarrow> valid_utf8 k"
  by (auto simp: ledger_names_def intro!: valid_utf8_literal)

definition ledger_storable :: "ledger_entry \<Rightarrow> bool" where
  "ledger_storable e =
     (int64 (al_Sequence e) \<and> valid_utf8 (al_PrevHash e) \<and> valid_utf8 (al_ArchivedAt e) \<and> valid_utf8 (al_Source e) \<and>
      valid_utf8 (al_Dest e) \<and> valid_utf8 (al_SHA256 e) \<and> valid_utf8 (al_HeadHash e))"

lemma wf_ledger_members: "wf_json (JObject (ledger_members e))"
  by (simp add: ledger_members_def show_int_number)

lemma coerce_ledger_members:
  assumes "ledger_storable e" shows "coerce_json (JObject (ledger_members e)) = JObject (ledger_members e)"
  using assms valid_utf8_ledger_names by (simp add: ledger_storable_def ledger_members_def ledger_names_def)

lemma decode_ledger_line:
  assumes "ledger_storable e" shows "decode_ledger (render_html (JObject (ledger_members e))) = Some e"
proof -
  have i: "ParseInt (show_int (al_Sequence e)) = Some (al_Sequence e)"
    using assms by (auto simp: int64_def ledger_storable_def intro: ParseInt_show_int)
  show ?thesis
    unfolding decode_ledger_def json_scan_render_html [OF wf_ledger_members] coerce_ledger_members [OF assms]
    by (simp add: decode_struct_def ledger_members_def struct_field_def ledger_names_def set_ledger_def decode_string_def
        decode_int_def i zero_ledger_def)
qed

lemma ledger_load_line:
  assumes "ledger_storable e" "scanner_fits (ledger_line e)"
  shows "ledger_load_loop (raw_lines (ledger_line e)) es = Inr (es @ [e])"
proof -
  have pr: "printable (render_html (JObject (ledger_members e)))" by (rule printable_render_html [OF wf_ledger_members])
  show ?thesis
    using assms(2) decode_ledger_line [OF assms(1)] render_html_nonempty [OF wf_ledger_members]
    unfolding ledger_line_def raw_lines_step [OF pr] by (simp add: trim_line_printable [OF pr])
qed

lemma chain_head_utf8: "linked al_PrevHash ledger_hash (\<lambda>e. event_body (ledger_event e)) digest GenesisHash es \<Longrightarrow>
    valid_utf8 (chain_head ledger_hash GenesisHash es)"
  by (cases es rule: rev_cases) (auto simp: chain_head_append ledger_hash_def valid_utf8_digest valid_utf8_Genesis)

section \<open>Properties\<close>

lemma ledger_Verify_snoc:
  "ledger_Verify (es @ [e]) = Inr h \<longleftrightarrow>
     (\<exists>g. ledger_Verify es = Inr g \<and> al_PrevHash e = g \<and> al_Sequence e = int (length es) + 1 \<and>
        encodable (ledger_event e) \<and> h = ledger_hash e)"
  by (auto simp: ledger_Verify_Inr ledger_numbered_append linked_append chain_head_append ledger_hash_def algebra_simps)

lemma NextEntry_storable:
  assumes "NextEntry es t src dst sha headHash = Inr e" "int64 (int (length es) + 1)"
    and "valid_utf8 t" "valid_utf8 src" "valid_utf8 dst" "valid_utf8 sha" "valid_utf8 headHash"
  shows "ledger_storable e"
  using assms chain_head_utf8 [of es]
  by (auto simp: NextEntry_def ledger_storable_def ledger_Verify_Inr)

lemma ledger_append_step:
  assumes "LoadOrEmpty content = Inr es" "content = None \<or> content = Some [] \<or> last (the content) = CHR 0x0A"
    and "NextEntry es t src dst sha headHash = Inr e" "int64 (int (length es) + 1)"
    and "valid_utf8 t \<and> valid_utf8 src \<and> valid_utf8 dst \<and> valid_utf8 sha \<and> valid_utf8 headHash"
    and "scanner_fits (ledger_line e)"
  shows "\<exists>d. ledger_Append AppendDone content e = (Some d, None) \<and> last d = CHR 0x0A \<and>
    LoadOrEmpty (Some d) = Inr (es @ [e]) \<and>
    (\<exists>h. ledger_Verify (es @ [e]) = Inr h \<and> ledger_ComputeHash e = Inr h)"
proof -
  define old where "old = (case content of None \<Rightarrow> [] | Some d \<Rightarrow> d)"
  have es: "ledger_load_loop (raw_lines old) [] = Inr es" and lf: "old = [] \<or> last old = CHR 0x0A"
    using assms(1,2) ledger_load_present [of "raw_lines (the content)" "[]"] by (auto simp: old_def LoadOrEmpty_def ledger_Load_def split: option.splits sum.splits ledger_error.splits)
  have st: "ledger_storable e" using NextEntry_storable [OF assms(3,4)] assms(5) by blast
  then have enc: "encodable (ledger_event e)" by (intro ledger_encodable) (simp add: ledger_storable_def)
  have "ledger_load_loop (raw_lines (old @ ledger_line e)) [] = Inr (es @ [e])"
    by (simp add: raw_lines_append [OF lf] ledger_load_append es ledger_load_line [OF st assms(6)])
  moreover obtain g where "ledger_Verify es = Inr g" "al_PrevHash e = g" "al_Sequence e = int (length es) + 1"
    using assms(3) by (auto simp: NextEntry_def)
  then have "ledger_Verify (es @ [e]) = Inr (ledger_hash e)" using enc by (simp add: ledger_Verify_snoc)
  moreover have "ledger_ComputeHash e = Inr (ledger_hash e)"
    using enc by (simp add: ledger_ComputeHash_def Compute_Inr ledger_hash_def)
  ultimately show ?thesis
    by (simp add: ledger_Append_def LoadOrEmpty_def ledger_Load_def old_def [symmetric] ledger_line_def)
qed

text \<open>The entry \<^verbatim>\<open>NextEntry\<close> makes for a ledger that loads, appended to its file, gives a file that loads as the old
  entries and the new one and that verifies, with the hash of the new entry as its head. The file is empty or ends
  with a line feed, the strings are UTF-8 and the line fits the scanner's buffer.\<close>

theorem ledger_append_sound:
  assumes "LoadOrEmpty content = Inr es" "content = None \<or> content = Some [] \<or> last (the content) = CHR 0x0A"
    and "NextEntry es t src dst sha headHash = Inr e" "int64 (int (length es) + 1)"
    and "valid_utf8 t \<and> valid_utf8 src \<and> valid_utf8 dst \<and> valid_utf8 sha \<and> valid_utf8 headHash"
    and "scanner_fits (ledger_line e)"
  shows "\<exists>d. ledger_Append AppendDone content e = (Some d, None) \<and> last d = CHR 0x0A \<and>
    LoadOrEmpty (Some d) = Inr (es @ [e]) \<and>
    (\<exists>h. ledger_Verify (es @ [e]) = Inr h \<and> ledger_ComputeHash e = Inr h)"
  by (rule ledger_append_step [OF assms])

definition demo_ledger_entry :: ledger_entry where
  "demo_ledger_entry =
     \<lparr>al_Sequence = 1, al_PrevHash = GenesisHash, al_ArchivedAt = ''2025-01-01T00:00:00Z'', al_Source = ''run.atb/a.atb'',
      al_Dest = ''archive.atb/2025/01/01/a.atb'', al_SHA256 = ''00'', al_HeadHash = ''11''\<rparr>"

lemma demo_ledger_next:
  "NextEntry [] ''2025-01-01T00:00:00Z'' ''run.atb/a.atb'' ''archive.atb/2025/01/01/a.atb'' ''00'' ''11'' = Inr demo_ledger_entry"
  by (simp add: NextEntry_def ledger_Verify_def demo_ledger_entry_def)

lemma demo_ledger_fits: "scanner_fits (ledger_line demo_ledger_entry)"
proof -
  have one: "show_int 1 = ''1''" by code_simp
  have "text_bound (JObject (ledger_members demo_ledger_entry)) \<le> 3000"
    using one by (simp add: ledger_members_def demo_ledger_entry_def GenesisHash_def)
  then show ?thesis
    using length_render(1) [OF refl, of "JObject (ledger_members demo_ledger_entry)"] by (simp add: scanner_fits_def ledger_line_def render_html_def)
qed

theorem ledger_append_sound_witness:
  "\<exists>d. ledger_Append AppendDone None demo_ledger_entry = (Some d, None) \<and> last d = CHR 0x0A \<and>
    LoadOrEmpty (Some d) = Inr ([] @ [demo_ledger_entry]) \<and>
    (\<exists>h. ledger_Verify ([] @ [demo_ledger_entry]) = Inr h \<and> ledger_ComputeHash demo_ledger_entry = Inr h)"
  by (rule ledger_append_sound [OF _ _ demo_ledger_next])
    (simp_all add: LoadOrEmpty_def ledger_Load_def int64_def valid_utf8_literal demo_ledger_fits)

text \<open>Two ledgers that verify with the same head agree entry by entry in the texts that are hashed; otherwise their
  entries exhibit a collision or hash to the genesis constant.\<close>

theorem ledger_same_head:
  assumes "ledger_Verify es = Inr h" "ledger_Verify fs = Inr h"
  shows "list_all2 (\<lambda>e f. al_PrevHash e = al_PrevHash f \<and> ledger_body e = ledger_body f) es fs \<or>
    (\<exists>e\<in>set es. \<exists>f\<in>set fs. collide digest (al_PrevHash e @ ledger_body e) (al_PrevHash f @ ledger_body f)) \<or>
    (\<exists>e\<in>set es \<union> set fs. digest (al_PrevHash e @ ledger_body e) = GenesisHash)"
  using assms ledger.same_head [of es fs] unfolding ledger_Verify_Inr
  by (elim conjE) (use list_all2_mono in fastforce)

theorem ledger_same_head_witness:
  "list_all2 (\<lambda>e f. al_PrevHash e = al_PrevHash f \<and> ledger_body e = ledger_body f) [] [] \<or>
    (\<exists>e\<in>set []. \<exists>f\<in>set []. collide digest (al_PrevHash e @ ledger_body e) (al_PrevHash f @ ledger_body f)) \<or>
    (\<exists>e\<in>set [] \<union> set []. digest (al_PrevHash e @ ledger_body e) = GenesisHash)"
  by (rule ledger_same_head [of _ GenesisHash]) (simp_all add: ledger_Verify_def)

text \<open>Nothing stored protects the end of the ledger. Dropping the last entries of a ledger that verifies, and rewriting
  the archive paths and digests of the last one that is left, gives a ledger that verifies.\<close>

theorem ledger_tail_unprotected:
  assumes "ledger_Verify (es @ e # fs) = Inr h" "int64 (int (length es) + 1)"
  shows "\<exists>g. ledger_Verify (es @ [e\<lparr>al_Dest := dst, al_SHA256 := sha, al_HeadHash := headHash\<rparr>]) = Inr g"
proof -
  from assms(1) obtain g where "ledger_Verify (es @ [e]) = Inr g"
    by (auto simp: ledger_Verify_Inr ledger_numbered_append linked_append)
  then have v: "ledger_Verify es = Inr (al_PrevHash e)" "al_Sequence e = int (length es) + 1"
    by (auto simp: ledger_Verify_snoc)
  with assms(2) have "encodable (ledger_event (e\<lparr>al_Dest := dst, al_SHA256 := sha, al_HeadHash := headHash\<rparr>))"
    by (intro ledger_encodable) simp
  with v show ?thesis by (auto simp: ledger_Verify_snoc)
qed

lemma demo_ledger_verifies: "ledger_Verify ([] @ [demo_ledger_entry]) = Inr (ledger_hash demo_ledger_entry)"
  unfolding ledger_Verify_snoc
  by (auto simp: demo_ledger_entry_def ledger_Verify_def int64_def intro!: ledger_encodable)

theorem ledger_tail_unprotected_witness:
  "\<exists>g. ledger_Verify ([] @ [demo_ledger_entry\<lparr>al_Dest := ''x'', al_SHA256 := ''y'', al_HeadHash := ''z''\<rparr>]) = Inr g"
  by (rule ledger_tail_unprotected [OF demo_ledger_verifies]) (simp add: int64_def)

end
