(* ===== verification/Path_Props.thy ===== *)
theory Path_Props
  imports Go_Path
begin

text \<open>
  \<^verbatim>\<open>filepath.Rel\<close> on Unix, and what \<^verbatim>\<open>filepath.Clean\<close> keeps: cleaning a cleaned path changes nothing.
\<close>

section \<open>Relative paths\<close>

definition path_elements :: "string \<Rightarrow> string list" where
  \<comment> \<open>of a cleaned path; an absolute one starts with an empty element\<close>
  "path_elements p = (if p = ''.'' then [] else if p = [sep] then [[]] else Split p sep)"

fun strip_common :: "string list \<Rightarrow> string list \<Rightarrow> string list \<times> string list" where
  "strip_common (b # bs) (t # ts) = (if b = t then strip_common bs ts else (b # bs, t # ts))"
| "strip_common bs ts = (bs, ts)"

definition path_Rel :: "string \<Rightarrow> string \<Rightarrow> string option" where
  \<comment> \<open>\<^verbatim>\<open>filepath.Rel\<close> on Unix\<close>
  "path_Rel basepath targpath =
     (let base = path_Clean basepath; targ = path_Clean targpath
      in if targ = base then Some ''.''
         else if HasPrefix base [sep] \<noteq> HasPrefix targ [sep] then None
         else case strip_common (path_elements base) (path_elements targ) of
                (bs, ts) \<Rightarrow>
                  if bs \<noteq> [] \<and> hd bs = ''..'' then None
                  else Some (Join (replicate (length bs) ''..'' @ ts) [sep]))"

section \<open>Cleaned paths\<close>

lemma split_acc_sep_free:
  assumes "sp \<notin> set u" shows "split_acc sp acc (u @ s) = split_acc sp (rev u @ acc) s"
  using assms by (induction u arbitrary: acc) auto

lemma Split_Join:
  assumes "es \<noteq> []" "\<forall>e\<in>set es. c \<notin> set e" shows "Split (Join es [c]) c = es"
  using assms
proof (induction es "[c]" rule: Join.induct)
  case (2 x)
  then show ?case using split_acc_sep_free [of c x "[]" "[]"] by (simp add: Split_def)
next
  case (3 x y xs)
  then show ?case using split_acc_sep_free [of c x "[]" "c # Join (y # xs) [c]"] by (simp add: Split_def)
qed simp

lemma split_acc_elements: "\<forall>e\<in>set (split_acc c acc s). c \<notin> set e" if "c \<notin> set acc"
  using that by (induction c acc s rule: split_acc.induct) auto

lemma Split_elements: "e \<in> set (Split s c) \<Longrightarrow> c \<notin> set e"
  using split_acc_elements [of c "[]" s] by (simp add: Split_def)

text \<open>What \<^verbatim>\<open>Clean\<close> keeps, the last element first: no empty element and no dot, and parent elements only at the front of a
  relative path.\<close>

fun cleaned :: "bool \<Rightarrow> string list \<Rightarrow> bool" where
  "cleaned rooted [] = True"
| "cleaned rooted (k # ks) =
     (k \<noteq> [] \<and> k \<noteq> ''.'' \<and> sep \<notin> set k \<and> (k = ''..'' \<longrightarrow> \<not> rooted \<and> set ks \<subseteq> {''..''}) \<and> cleaned rooted ks)"

lemma cleaned_element:
  assumes "cleaned rooted ks" "sep \<notin> set e" shows "cleaned rooted (clean_element rooted e ks)"
  using assms by (cases ks) (auto simp: clean_element_def)

lemma cleaned_fold: "cleaned rooted ks \<Longrightarrow> \<forall>e\<in>set es. sep \<notin> set e \<Longrightarrow> cleaned rooted (fold (clean_element rooted) es ks)"
  by (induction es arbitrary: ks) (simp_all add: cleaned_element)

lemma cleaned_kept: "cleaned rooted ks \<Longrightarrow> fold (clean_element rooted) (rev ks) [] = ks"
proof (induction ks)
  case (Cons k ks)
  then have "clean_element rooted k ks = k # ks" by (cases ks) (auto simp: clean_element_def)
  with Cons show ?case by simp
qed simp

lemma cleaned_elements: "cleaned rooted ks \<Longrightarrow> k \<in> set ks \<Longrightarrow> k \<noteq> [] \<and> k \<noteq> ''.'' \<and> sep \<notin> set k"
  by (induction ks) auto

definition clean_elements_of :: "string \<Rightarrow> string list" where
  "clean_elements_of p = fold (clean_element (HasPrefix p [sep])) (Split p sep) []"

lemma cleaned_elements_of: "cleaned (HasPrefix p [sep]) (clean_elements_of p)"
  unfolding clean_elements_of_def by (rule cleaned_fold) (auto dest: Split_elements)

lemma path_Clean_elements:
  "path_Clean p =
     (let es = rev (clean_elements_of p)
      in if HasPrefix p [sep] then sep # Join es [sep] else if es = [] then ''.'' else Join es [sep])"
  by (simp add: path_Clean_def clean_elements_of_def Let_def)

lemma Join_head: "es \<noteq> [] \<Longrightarrow> hd es \<noteq> [] \<Longrightarrow> Join es [c] \<noteq> [] \<and> hd (Join es [c]) = hd (hd es)"
  by (cases "(es, [c])" rule: Join.cases) auto

lemma path_Clean_idem [simp]: "path_Clean (path_Clean p) = path_Clean p"
proof -
  define ks where "ks = clean_elements_of p"
  define r where "r = HasPrefix p [sep]"
  have c: "cleaned r ks" using cleaned_elements_of [of p] by (simp add: ks_def r_def)
  have el: "\<forall>e\<in>set (rev ks). sep \<notin> set e" using cleaned_elements [OF c] by auto
  have split: "ks \<noteq> [] \<Longrightarrow> Split (Join (rev ks) [sep]) sep = rev ks" by (rule Split_Join) (use el in auto)
  show ?thesis
  proof (cases r)
    case True
    have "Split (sep # Join (rev ks) [sep]) sep = [] # Split (Join (rev ks) [sep]) sep" by (simp add: Split_def)
    then have "clean_elements_of (sep # Join (rev ks) [sep]) = ks"
      using True split cleaned_kept [OF c]
      by (cases "ks = []") (simp_all add: clean_elements_of_def clean_element_def Split_def)
    then have "path_Clean (sep # Join (rev ks) [sep]) = sep # Join (rev ks) [sep]" by (simp add: path_Clean_elements Let_def)
    then show ?thesis using True by (simp add: path_Clean_elements [of p] Let_def ks_def r_def)
  next
    case False
    show ?thesis
    proof (cases "ks = []")
      case True
      have "path_Clean ''.'' = ''.''" by code_simp
      with True False show ?thesis by (simp add: path_Clean_elements [of p] ks_def r_def)
    next
      case nonempty: False
      have h: "hd (rev ks) \<in> set ks" using nonempty hd_in_set [of "rev ks"] by simp
      have k: "hd (rev ks) \<noteq> []" "sep \<notin> set (hd (rev ks))" using cleaned_elements [OF c h] by simp_all
      then have "hd (hd (rev ks)) \<noteq> sep" by (cases "hd (rev ks)") auto
      then have first: "Join (rev ks) [sep] \<noteq> []" "hd (Join (rev ks) [sep]) \<noteq> sep"
        using Join_head [of "rev ks" sep] nonempty k(1) by simp_all
      then have "\<not> HasPrefix (Join (rev ks) [sep]) [sep]" by (cases "Join (rev ks) [sep]") auto
      then have "path_Clean (Join (rev ks) [sep]) = Join (rev ks) [sep]"
        using nonempty split cleaned_kept [OF c] False by (simp add: path_Clean_elements clean_elements_of_def Let_def)
      then show ?thesis using False nonempty by (simp add: path_Clean_elements [of p] Let_def ks_def r_def)
    qed
  qed
qed

end
