(* ===== verification/Archive.thy ===== *)
theory Archive
  imports Ledger Go_Time Path_Props
begin

text \<open>
  The command \<^verbatim>\<open>atb archive\<close>, \<^verbatim>\<open>cmd/atb/archive.go\<close>, with \<^verbatim>\<open>internal/retentionaudit/audit.go\<close>: old bundles that verify
  move below the archive directory, each with an entry in the ledger, and the run is recorded in the operations
  bundle. The disk is a map from cleaned paths to contents and modification times; what may go wrong with each
  bundle is an argument. Theorems: no bundle is lost, whatever fails, and the ledger describes the archived files,
  provided the destinations are new; two bundles with one destination leave only the second.
\<close>

section \<open>Settings and arguments\<close>

record archiveConfig =
  BeforeSet :: bool
  ac_Before :: int
  DryRun :: bool

record retentionPolicy =
  rp_Days :: int
  rp_ArchiveDir :: string
  rp_Scope :: "string list"
  rp_CutoffBasis :: string

record archiveSettings =
  Cutoff :: int
  ArchiveDir :: string
  as_Scope :: "string list"
  CutoffBasis :: string

record archiveSummary =
  Candidates :: nat
  WouldArchive :: nat
  Archived :: nat
  SkippedRecent :: nat
  SkippedInvalid :: nat
  SkippedErrors :: nat
  ArchivedDefault :: bool
  LedgerHeadHash :: string

datatype archive_error =
    MissingBefore
  | BadBefore string
  | UnknownFlag string
  | UnexpectedArgument string
  | PolicyUnreadable
  | UnsupportedBasis string
  | MissingCutoff
  | NoWorkingDirectory
  | BadPattern string
  | LedgerLoad ledger_error
  | LedgerVerify ledger_error
  | RecreateNew bundle_error
  | RecreateSave bundle_error
  | AuditLoad bundle_error
  | AuditCreate bundle_error
  | AuditAppend bundle_error
  | AuditSave bundle_error

definition parseArchiveBeforeDate :: "string \<Rightarrow> archive_error + int" where
  \<comment> \<open>the layout \<^verbatim>\<open>2006-01-02\<close>, midnight in UTC\<close>
  "parseArchiveBeforeDate raw =
     (case parse_date (TrimSpace raw) of
        Some (y, m, d, []) \<Rightarrow> Inr (instant \<lparr>year = y, month = m, day = d, hour = 0, minute = 0, second = 0, nsec = 0, zone = 0\<rparr>)
      | _ \<Rightarrow> Inl (BadBefore raw))"

fun parse_archive_args :: "archiveConfig \<Rightarrow> string list \<Rightarrow> archive_error + archiveConfig" where
  "parse_archive_args cfg [] = Inr cfg"
| "parse_archive_args cfg (arg # args) =
     (if arg = ''--before'' then
        (case args of
           [] \<Rightarrow> Inl MissingBefore
         | v # rest \<Rightarrow> bind_res (parseArchiveBeforeDate v)
             (\<lambda>before. parse_archive_args (cfg\<lparr>BeforeSet := True, ac_Before := before\<rparr>) rest))
      else if HasPrefix arg ''--before='' then
        bind_res (parseArchiveBeforeDate (TrimPrefix arg ''--before=''))
          (\<lambda>before. parse_archive_args (cfg\<lparr>BeforeSet := True, ac_Before := before\<rparr>) args)
      else if arg = ''--dry-run'' then parse_archive_args (cfg\<lparr>DryRun := True\<rparr>) args
      else if HasPrefix arg ''--'' then Inl (UnknownFlag arg)
      else Inl (UnexpectedArgument arg))"

definition parseArchiveArgs :: "string list \<Rightarrow> archive_error + archiveConfig" where
  "parseArchiveArgs args = parse_archive_args \<lparr>BeforeSet = False, ac_Before = 0, DryRun = False\<rparr> args"

definition retentionDefaultArchive :: string where "retentionDefaultArchive = ''archive.atb''"
definition retentionDefaultCutoff :: string where "retentionDefaultCutoff = ''file_mtime''"

definition resolveArchiveSettings :: "retentionPolicy option option \<Rightarrow> go_time \<Rightarrow> archiveConfig \<Rightarrow> archive_error + archiveSettings" where
  \<comment> \<open>the first argument: the policy of the configuration file, if it has one; None when it cannot be read\<close>
  "resolveArchiveSettings loaded now cfg =
     (case loaded of
        None \<Rightarrow> Inl PolicyUnreadable
      | Some policy \<Rightarrow>
          let base = \<lparr>Cutoff = 0, ArchiveDir = retentionDefaultArchive, as_Scope = [''run.atb/*.atb''], CutoffBasis = retentionDefaultCutoff\<rparr>;
              settings =
                (case policy of
                   None \<Rightarrow> base
                 | Some p \<Rightarrow> base\<lparr>ArchiveDir := (if rp_ArchiveDir p \<noteq> [] then path_Clean (rp_ArchiveDir p) else ArchiveDir base),
                     as_Scope := (if rp_Scope p \<noteq> [] then rp_Scope p else as_Scope base),
                     CutoffBasis := (if rp_CutoffBasis p \<noteq> [] then rp_CutoffBasis p else CutoffBasis base)\<rparr>)
          in if CutoffBasis settings \<noteq> retentionDefaultCutoff then Inl (UnsupportedBasis (CutoffBasis settings))
             else if BeforeSet cfg then Inr (settings\<lparr>Cutoff := ac_Before cfg\<rparr>)
             else case policy of
                    None \<Rightarrow> Inl MissingCutoff
                  | Some p \<Rightarrow>
                      if rp_Days p \<le> 0 then Inl MissingCutoff
                      else Inr (settings\<lparr>Cutoff := instant now - rp_Days p * 86400000000000\<rparr>))"

section \<open>Files\<close>

type_synonym disk = "string \<Rightarrow> (string \<times> int) option"

definition isPathWithin :: "string \<Rightarrow> string \<Rightarrow> bool" where
  "isPathWithin candidate base =
     (case path_Rel (path_Clean base) (path_Clean candidate) of
        None \<Rightarrow> False
      | Some rel \<Rightarrow> rel = ''.'' \<or> (rel \<noteq> [] \<and> \<not> HasPrefix rel ''..''))"

fun discover_matches :: "(string \<Rightarrow> string list option) \<Rightarrow> disk \<Rightarrow> string \<Rightarrow> string list \<Rightarrow> archive_error + string list" where
  "discover_matches glob disk archiveDir [] = Inr []"
| "discover_matches glob disk archiveDir (pattern # patterns) =
     (case glob pattern of
        None \<Rightarrow> Inl (BadPattern pattern)
      | Some ms \<Rightarrow> bind_res (discover_matches glob disk archiveDir patterns) (\<lambda>rest.
          Inr (filter (\<lambda>p. disk p \<noteq> None \<and> \<not> isPathWithin p archiveDir) (map path_Clean ms) @ rest)))"

definition discoverArchiveCandidates :: "(string \<Rightarrow> string list option) \<Rightarrow> disk \<Rightarrow> string list \<Rightarrow> string \<Rightarrow> archive_error + string list" where
  \<comment> \<open>\<open>glob\<close> is \<^verbatim>\<open>filepath.Glob\<close> on the disk; the set is a Go map, sorted afterwards\<close>
  "discoverArchiveCandidates glob disk scope archiveDir =
     bind_res (discover_matches glob disk archiveDir scope) (\<lambda>ps. Inr (SortStrings (remdups ps)))"

definition buildArchiveDestination :: "string \<Rightarrow> string \<Rightarrow> string \<Rightarrow> go_time \<Rightarrow> string \<times> string \<times> string" where
  "buildArchiveDestination cwd sourcePath archiveDir now =
     (let sourceClean = path_Clean sourcePath;
          sourceAbs = (if HasPrefix sourceClean [sep] then sourceClean else path_Join [cwd, sourceClean]);
          rel = (case path_Rel cwd sourceAbs of
                   None \<Rightarrow> path_Base sourceClean
                 | Some r \<Rightarrow> if HasPrefix r ''..'' then path_Base sourceClean else r);
          sourceDisplay = path_Clean rel;
          destPath = path_Clean (path_Join [archiveDir, pad4 (year now), pad2 (month now), pad2 (day now), rel])
      in (sourceDisplay, destPath, destPath))"

datatype move_fault = MoveRenamed | MoveNoDir | MoveCopied | MoveNoCopy | MoveTorn nat | MoveNotRemoved

definition copyFile :: "nat option \<Rightarrow> int \<Rightarrow> disk \<Rightarrow> string \<Rightarrow> string \<Rightarrow> disk" where
  \<comment> \<open>truncate the destination, then copy what the source holds, only the first bytes of it when the copy is cut off; an error of
      closing the destination, which the code ignores, is not modelled\<close>
  "copyFile limit now disk src dst =
     (let truncated = disk(dst \<mapsto> ([], now));
          content = (case truncated src of None \<Rightarrow> [] | Some (c, _) \<Rightarrow> c)
      in truncated(dst \<mapsto> (case limit of None \<Rightarrow> content | Some n \<Rightarrow> take n content, now)))"

definition moveFile :: "move_fault \<Rightarrow> int \<Rightarrow> disk \<Rightarrow> string \<Rightarrow> string \<Rightarrow> disk \<times> bool" where
  \<comment> \<open>the disk and whether the call succeeds\<close>
  "moveFile fault now disk sourcePath destPath =
     (let src = path_Clean sourcePath; dst = path_Clean destPath
      in case disk src of
           None \<Rightarrow> (disk, False)
         | Some f \<Rightarrow>
             (case fault of
                MoveNoDir \<Rightarrow> (disk, False)
              | MoveRenamed \<Rightarrow> ((disk(src := None))(dst \<mapsto> f), True)
              | MoveCopied \<Rightarrow> ((copyFile None now disk src dst)(src := None), True)
              | MoveNoCopy \<Rightarrow> (disk, False)
              | MoveTorn n \<Rightarrow> (copyFile (Some n) now disk src dst, False)
              | MoveNotRemoved \<Rightarrow> (copyFile None now disk src dst, False)))"

section \<open>One candidate\<close>

record archive_faults =
  stat_ok :: bool
  open_ok :: bool
  hash_ok :: bool
  move_out :: move_fault
  append_to :: append_fault
  move_back :: move_fault

record archive_run =
  run_disk :: disk
  run_entries :: "ledger_entry list"
  run_summary :: archiveSummary
  archivedDefault :: bool
  wouldArchiveDefault :: bool

record archive_world =
  clock :: go_time
  cwd :: string
  bytes_read :: "nat \<Rightarrow> int"
  faults :: "string \<Rightarrow> archive_faults"

definition DefaultPath :: string where
  "DefaultPath = path_Join [''run.atb'', ''bundle.atb'']"

definition LedgerFile :: string where
  "LedgerFile = ''index.ndjson''"

definition ledger_path :: "string \<Rightarrow> string" where
  "ledger_path archiveDir = path_Join [archiveDir, LedgerFile]"

abbreviation count_error :: "archive_run \<Rightarrow> archive_run" where
  "count_error s \<equiv> s\<lparr>run_summary := (run_summary s)\<lparr>SkippedErrors := SkippedErrors (run_summary s) + 1\<rparr>\<rparr>"

abbreviation count_invalid :: "archive_run \<Rightarrow> archive_run" where
  "count_invalid s \<equiv> s\<lparr>run_summary := (run_summary s)\<lparr>SkippedInvalid := SkippedInvalid (run_summary s) + 1\<rparr>\<rparr>"

definition record_archived :: "archive_world \<Rightarrow> string \<Rightarrow> string \<Rightarrow> string \<Rightarrow> string \<Rightarrow> string \<Rightarrow> string \<Rightarrow> string \<Rightarrow> archive_run \<Rightarrow> archive_run" where
  \<comment> \<open>after the move: the ledger entry, or the way back\<close>
  "record_archived w archiveDir sourcePath sourceDisplay destPath destDisplay fileHash headHash s =
     (let now = instant (clock w);
          f = faults w sourcePath;
          back = (\<lambda>disk. count_error (s\<lparr>run_disk := fst (moveFile (move_back f) now disk destPath sourcePath)\<rparr>))
      in case NextEntry (run_entries s) (FormatRFC3339 (clock w)) sourceDisplay destDisplay fileHash headHash of
           Inl _ \<Rightarrow> back (run_disk s)
         | Inr entry \<Rightarrow>
             (let path = path_Clean (ledger_path archiveDir)
              in case ledger_Append (append_to f) (map_option fst (run_disk s path)) entry of
                   (content, err) \<Rightarrow>
                     let disk = (case content of None \<Rightarrow> run_disk s | Some c \<Rightarrow> (run_disk s)(path \<mapsto> (c, now)))
                     in if err \<noteq> None then back disk
                        else let entries = run_entries s @ [entry];
                                 sm = (run_summary s)\<lparr>Archived := Archived (run_summary s) + 1\<rparr>
                             in s\<lparr>run_disk := disk, run_entries := entries,
                                  run_summary := (case ledger_Verify entries of
                                    Inl _ \<Rightarrow> sm | Inr h \<Rightarrow> sm\<lparr>LedgerHeadHash := h\<rparr>),
                                  archivedDefault := archivedDefault s \<or> path_Clean sourcePath = path_Clean DefaultPath\<rparr>))"

definition archive_one :: "archive_world \<Rightarrow> archiveConfig \<Rightarrow> archiveSettings \<Rightarrow> string \<Rightarrow> archive_run \<Rightarrow> archive_run" where
  "archive_one w cfg settings sourcePath s =
     (let f = faults w sourcePath; sm = run_summary s
      in case (if stat_ok f then run_disk s sourcePath else None) of
           None \<Rightarrow> count_error s
         | Some (content, modTime) \<Rightarrow>
             if \<not> modTime < Cutoff settings then s\<lparr>run_summary := sm\<lparr>SkippedRecent := SkippedRecent sm + 1\<rparr>\<rparr>
             else if \<not> open_ok f then count_invalid s
             else case LoadReader (bytes_read w) content of
                    Inl _ \<Rightarrow> count_invalid s
                  | Inr b \<Rightarrow>
                      if Verify b \<noteq> None then count_invalid s
                      else let headHash = (if Records b \<noteq> [] then Hash (last (Records b)) else GenesisHash)
                        in if \<not> hash_ok f then count_error s
                           else let fileHash = digest content
                             in case buildArchiveDestination (cwd w) sourcePath (ArchiveDir settings) (clock w) of
                                  (sourceDisplay, destPath, destDisplay) \<Rightarrow>
                                    if DryRun cfg then
                                      s\<lparr>run_summary := sm\<lparr>WouldArchive := WouldArchive sm + 1\<rparr>,
                                        wouldArchiveDefault := wouldArchiveDefault s \<or> path_Clean sourcePath = path_Clean DefaultPath\<rparr>
                                    else case moveFile (move_out f) (instant (clock w)) (run_disk s) sourcePath destPath of
                                           (disk, ok) \<Rightarrow>
                                             if \<not> ok then count_error (s\<lparr>run_disk := disk\<rparr>)
                                             else record_archived w (ArchiveDir settings) sourcePath sourceDisplay destPath destDisplay
                                                    fileHash headHash (s\<lparr>run_disk := disk\<rparr>))"

section \<open>The run\<close>

definition audit_Append :: "(nat \<Rightarrow> int) \<Rightarrow> string option \<Rightarrow> string \<Rightarrow> string option \<Rightarrow> string \<Rightarrow> any \<Rightarrow> string \<Rightarrow> (string \<Rightarrow> bool) \<Rightarrow>
    archive_error + string" where
  \<comment> \<open>\<^verbatim>\<open>retentionaudit.Append\<close> on the content of the operations bundle (None: absent); the new content\<close>
  "audit_Append bytesRead content createdAt random eventType data timestamp writeAtomic =
     bind_res (case content of
                 None \<Rightarrow> (case NewWithOptions createdAt random \<lparr>no_ManifestVersion = 0, no_CaptureRunID = []\<rparr> of
                           Inl e \<Rightarrow> Inl (AuditCreate e) | Inr b \<Rightarrow> Inr b)
               | Some raw \<Rightarrow> (case LoadVerified bytesRead raw of Inl e \<Rightarrow> Inl (AuditLoad e) | Inr b \<Rightarrow> Inr b))
       (\<lambda>b. case AppendWithOptions b eventType data (Some (timestamp_options timestamp)) of
              Inl e \<Rightarrow> Inl (AuditAppend e)
            | Inr b' \<Rightarrow> (case saveUnlocked writeAtomic b' of Inl e \<Rightarrow> Inl (AuditSave e) | Inr (_, raw) \<Rightarrow> Inr raw))"

record archive_io =
  policy :: "retentionPolicy option option"
  working_dir :: "string option"
  glob :: "string \<Rightarrow> string list option"
  new_created :: string
  new_random :: "string option"
  save_default :: "string \<Rightarrow> bool"
  audit_created :: string
  audit_random :: "string option"
  audit_timestamp :: string
  save_audit :: "string \<Rightarrow> bool"

definition audit_path :: string where
  "audit_path = path_Join [''.atb'', ''operations.atb'']"

definition enforced_data :: "archiveSettings \<Rightarrow> archiveSummary \<Rightarrow> string \<Rightarrow> any" where
  "enforced_data settings summary cutoffText =
     AMap [(''operation'', AString ''local_archive''), (''enforcement_system'', AString ''atb_archive''),
           (''outcome'', AString ''completed''), (''evidence_level'', AString ''local_operation_and_ledger''),
           (''independently_verified'', ABool False), (''cutoff'', AString cutoffText),
           (''affected_count'', AInt (int (Archived summary))), (''ledger_head_hash'', AString (LedgerHeadHash summary)),
           (''archive_dir'', AString (ArchiveDir settings)), (''scope'', AList (map AString (as_Scope settings)))]"

definition recreate_default :: "archive_io \<Rightarrow> int \<Rightarrow> archive_run \<Rightarrow> archive_error + archive_run" where
  "recreate_default io now s =
     (case NewWithOptions (new_created io) (new_random io) \<lparr>no_ManifestVersion = 0, no_CaptureRunID = []\<rparr> of
        Inl e \<Rightarrow> Inl (RecreateNew e)
      | Inr fresh \<Rightarrow>
          (case saveUnlocked (save_default io) fresh of
             Inl e \<Rightarrow> Inl (RecreateSave e)
           | Inr (_, raw) \<Rightarrow> Inr (s\<lparr>run_disk := (run_disk s)(DefaultPath \<mapsto> (raw, now)),
                                   run_summary := (run_summary s)\<lparr>ArchivedDefault := True\<rparr>\<rparr>)))"

definition archive_loop :: "archive_world \<Rightarrow> archiveConfig \<Rightarrow> archiveSettings \<Rightarrow> string list \<Rightarrow> archive_run \<Rightarrow> archive_run" where
  "archive_loop w cfg settings candidates s = fold (archive_one w cfg settings) candidates s"

definition archive_finish :: "archive_world \<Rightarrow> archive_io \<Rightarrow> archiveConfig \<Rightarrow> archiveSettings \<Rightarrow> string \<Rightarrow> archive_run \<Rightarrow> archive_run \<times> archive_error option" where
  \<comment> \<open>what follows the loop: the new default bundle and the audit event\<close>
  "archive_finish w io cfg settings cutoffText s =
     (let now = instant (clock w)
      in if DryRun cfg then (s, None)
         else case (if archivedDefault s then recreate_default io now s else Inr s) of
                Inl e \<Rightarrow> (s, Some e)
              | Inr s' \<Rightarrow>
                  (case audit_Append (bytes_read w) (map_option fst (run_disk s' audit_path)) (audit_created io) (audit_random io)
                          ''data.retention.enforced'' (enforced_data settings (run_summary s') cutoffText) (audit_timestamp io) (save_audit io) of
                     Inl e \<Rightarrow> (s', Some e)
                   | Inr raw \<Rightarrow> (s'\<lparr>run_disk := (run_disk s')(audit_path \<mapsto> (raw, now))\<rparr>, None)))"

definition zero_summary :: archiveSummary where
  "zero_summary = \<lparr>Candidates = 0, WouldArchive = 0, Archived = 0, SkippedRecent = 0, SkippedInvalid = 0, SkippedErrors = 0,
     ArchivedDefault = False, LedgerHeadHash = []\<rparr>"

definition runArchive :: "archive_world \<Rightarrow> archive_io \<Rightarrow> (int \<Rightarrow> string) \<Rightarrow> archiveConfig \<Rightarrow> disk \<Rightarrow> archive_run \<times> archive_error option" where
  \<comment> \<open>the third argument formats the cutoff\<close>
  "runArchive w io formatRFC3339 cfg disk =
     (let s0 = \<lparr>run_disk = disk, run_entries = [], run_summary = zero_summary, archivedDefault = False, wouldArchiveDefault = False\<rparr>
      in case resolveArchiveSettings (policy io) (clock w) cfg of
           Inl e \<Rightarrow> (s0, Some e)
         | Inr settings \<Rightarrow>
             if working_dir io = None then (s0, Some NoWorkingDirectory)
             else case discoverArchiveCandidates (glob io) disk (as_Scope settings) (ArchiveDir settings) of
                    Inl e \<Rightarrow> (s0, Some e)
                  | Inr candidates \<Rightarrow>
                      let s1 = s0\<lparr>run_summary := zero_summary\<lparr>Candidates := length candidates\<rparr>\<rparr>
                      in case LoadOrEmpty (map_option fst (disk (path_Clean (ledger_path (ArchiveDir settings))))) of
                           Inl e \<Rightarrow> (s1, Some (LedgerLoad e))
                         | Inr es \<Rightarrow>
                             (case ledger_Verify es of
                                Inl e \<Rightarrow> (s1, Some (LedgerVerify e))
                              | Inr h \<Rightarrow>
                                  archive_finish w io cfg settings (formatRFC3339 (Cutoff settings))
                                    (archive_loop (w\<lparr>cwd := the (working_dir io)\<rparr>) cfg settings candidates
                                       (s1\<lparr>run_entries := es, run_summary := (run_summary s1)\<lparr>LedgerHeadHash := h\<rparr>\<rparr>))))"

section \<open>Where a bundle ends up\<close>

definition archive_dest :: "archive_world \<Rightarrow> archiveSettings \<Rightarrow> string \<Rightarrow> string" where
  "archive_dest w settings p = fst (snd (buildArchiveDestination (cwd w) p (ArchiveDir settings) (clock w)))"

definition ledger_file :: "archiveSettings \<Rightarrow> string" where
  "ledger_file settings = path_Clean (ledger_path (ArchiveDir settings))"

lemma archive_dest_clean [simp]: "path_Clean (archive_dest w settings p) = archive_dest w settings p"
  by (simp add: archive_dest_def buildArchiveDestination_def Let_def)

definition source_display :: "archive_world \<Rightarrow> archiveSettings \<Rightarrow> string \<Rightarrow> string" where
  "source_display w settings p = fst (buildArchiveDestination (cwd w) p (ArchiveDir settings) (clock w))"

lemma buildArchiveDestination_dest:
  "buildArchiveDestination (cwd w) p (ArchiveDir settings) (clock w) =
     (source_display w settings p, archive_dest w settings p, archive_dest w settings p)"
  by (simp add: archive_dest_def source_display_def buildArchiveDestination_def Let_def)

definition separate :: "archive_world \<Rightarrow> archiveSettings \<Rightarrow> string list \<Rightarrow> bool" where
  \<comment> \<open>no two candidates share a destination, and no destination is a candidate, the ledger or the operations bundle\<close>
  "separate w settings ps =
     (distinct (map (archive_dest w settings) ps) \<and>
      set (map (archive_dest w settings) ps) \<inter> (set ps \<union> {ledger_file settings, audit_path}) = {} \<and>
      set ps \<inter> {ledger_file settings, audit_path} = {} \<and> ledger_file settings \<noteq> audit_path)"

definition holds_at :: "disk \<Rightarrow> string \<Rightarrow> string \<Rightarrow> bool" where
  "holds_at d p c = (\<exists>t. d p = Some (c, t))"

lemma holds_at_upd [simp]:
  "holds_at (d(q \<mapsto> (c', t))) p c \<longleftrightarrow> (if p = q then c' = c else holds_at d p c)"
  "holds_at (d(q := None)) p c \<longleftrightarrow> p \<noteq> q \<and> holds_at d p c"
  "holds_at (d(q := d r)) p c \<longleftrightarrow> (if p = q then holds_at d r c else holds_at d p c)"
  by (auto simp: holds_at_def)

text \<open>A move touches its two paths only, and leaves the content at one of them.\<close>

lemma moveFile_frame:
  assumes "moveFile fault now d p q = (d', ok)" "path_Clean p = p" "path_Clean q = q" "r \<noteq> p" "r \<noteq> q"
  shows "d' r = d r"
  using assms by (auto simp: moveFile_def copyFile_def Let_def split: option.splits move_fault.splits)

lemma moveFile_keeps:
  assumes "moveFile fault now d p q = (d', ok)" "path_Clean p = p" "path_Clean q = q" "p \<noteq> q" "holds_at d p c"
  shows "(holds_at d' p c \<or> holds_at d' q c) \<and> (ok \<longrightarrow> holds_at d' q c)"
  using assms by (auto simp: moveFile_def copyFile_def Let_def holds_at_def split: option.splits move_fault.splits)

lemma archive_one_cases:
  assumes "archive_one w cfg settings p s = s'"
  obtains (skip) "run_disk s' = run_disk s" "run_entries s' = run_entries s" "archivedDefault s' = archivedDefault s"
      "Archived (run_summary s') = Archived (run_summary s)"
  | (stuck) d where "moveFile (move_out (faults w p)) (instant (clock w)) (run_disk s) p (archive_dest w settings p) = (d, False)"
      "run_disk s' = d" "run_entries s' = run_entries s" "archivedDefault s' = archivedDefault s"
      "Archived (run_summary s') = Archived (run_summary s)"
  | (moved) d c t b where "run_disk s p = Some (c, t)" "LoadReader (bytes_read w) c = Inr b" "Verify b = None"
      "moveFile (move_out (faults w p)) (instant (clock w)) (run_disk s) p (archive_dest w settings p) = (d, True)"
      "s' = record_archived w (ArchiveDir settings) p (source_display w settings p)
         (archive_dest w settings p) (archive_dest w settings p) (digest c)
         (if Records b \<noteq> [] then Hash (last (Records b)) else GenesisHash) (s\<lparr>run_disk := d\<rparr>)"
  using assms
  unfolding archive_one_def buildArchiveDestination_dest Let_def
  by (auto split: option.splits sum.splits if_splits prod.splits)

lemma record_archived_cases:
  assumes "record_archived w dir p sd q dd fh hh s = s'"
  obtains (undone) d where "\<And>r. r \<noteq> path_Clean (ledger_path dir) \<Longrightarrow> d r = run_disk s r"
      "run_disk s' = fst (moveFile (move_back (faults w p)) (instant (clock w)) d q p)" "run_entries s' = run_entries s"
      "archivedDefault s' = archivedDefault s" "Archived (run_summary s') = Archived (run_summary s)"
      "\<forall>n. append_to (faults w p) \<noteq> AppendTorn n \<Longrightarrow> map_option fst \<circ> d = map_option fst \<circ> run_disk s"
  | (recorded) e c where "NextEntry (run_entries s) (FormatRFC3339 (clock w)) sd dd fh hh = Inr e"
      "ledger_Append (append_to (faults w p)) (map_option fst (run_disk s (path_Clean (ledger_path dir)))) e = (Some c, None)"
      "run_disk s' = (run_disk s)(path_Clean (ledger_path dir) \<mapsto> (c, instant (clock w)))" "run_entries s' = run_entries s @ [e]"
      "archivedDefault s' \<longleftrightarrow> archivedDefault s \<or> path_Clean p = path_Clean DefaultPath"
      "Archived (run_summary s') = Archived (run_summary s) + 1"
proof (cases "NextEntry (run_entries s) (FormatRFC3339 (clock w)) sd dd fh hh")
  case (Inl err)
  with assms that(1) [of "run_disk s"] show ?thesis by (auto simp: record_archived_def Let_def)
next
  case (Inr e)
  obtain content err where a: "ledger_Append (append_to (faults w p)) (map_option fst (run_disk s (path_Clean (ledger_path dir)))) e = (content, err)"
    by fastforce
  define d where "d = (case content of None \<Rightarrow> run_disk s | Some c \<Rightarrow> (run_disk s)(path_Clean (ledger_path dir) \<mapsto> (c, instant (clock w))))"
  show ?thesis
  proof (cases err)
    case None
    then obtain c where "content = Some c" using a by (auto simp: ledger_Append_def Let_def split: append_fault.splits)
    with assms Inr a None that(2) [of e c] show ?thesis by (auto simp: record_archived_def Let_def split: sum.splits)
  next
    case (Some x)
    have same: "map_option fst \<circ> d = map_option fst \<circ> run_disk s" if "\<forall>n. append_to (faults w p) \<noteq> AppendTorn n"
      using that a Some by (auto simp: ledger_Append_def Let_def d_def fun_eq_iff split: append_fault.splits option.splits)
    have "s' = count_error (s\<lparr>run_disk := fst (moveFile (move_back (faults w p)) (instant (clock w)) d q p)\<rparr>)"
      using assms Inr a Some by (auto simp: record_archived_def Let_def d_def)
    moreover have "d r = run_disk s r" if "r \<noteq> path_Clean (ledger_path dir)" for r using that by (auto simp: d_def split: option.splits)
    ultimately show ?thesis using that(1) [of d] same by auto
  qed
qed

section \<open>Nothing is lost\<close>

lemma DefaultPath_clean [simp]: "path_Clean DefaultPath = DefaultPath"
  by code_simp

definition kept :: "archive_world \<Rightarrow> archiveSettings \<Rightarrow> string \<Rightarrow> string \<Rightarrow> disk \<Rightarrow> bool" where
  "kept w settings p c d = (holds_at d p c \<or> holds_at d (archive_dest w settings p) c)"

lemma archive_one_keeps:
  assumes p: "path_Clean p = p" "archive_dest w settings p \<noteq> p" "ledger_file settings \<notin> {p, archive_dest w settings p}"
    and s': "archive_one w cfg settings p s = s'"
  shows "r \<notin> {p, archive_dest w settings p, ledger_file settings} \<Longrightarrow> run_disk s' r = run_disk s r"
    and "holds_at (run_disk s) p c \<Longrightarrow> kept w settings p c (run_disk s')"
    and "archivedDefault s' \<Longrightarrow> archivedDefault s \<or>
      p = DefaultPath \<and> (holds_at (run_disk s) p c \<longrightarrow> holds_at (run_disk s') (archive_dest w settings p) c)"
proof -
  have "(r \<notin> {p, archive_dest w settings p, ledger_file settings} \<longrightarrow> run_disk s' r = run_disk s r) \<and>
    (holds_at (run_disk s) p c \<longrightarrow> kept w settings p c (run_disk s')) \<and>
    (archivedDefault s' \<longrightarrow> archivedDefault s \<or>
      p = DefaultPath \<and> (holds_at (run_disk s) p c \<longrightarrow> holds_at (run_disk s') (archive_dest w settings p) c))" for r c
    using s'
  proof (cases rule: archive_one_cases)
    case skip
    then show ?thesis by (simp add: kept_def)
  next
    case (stuck d)
    then show ?thesis
      using p moveFile_frame [OF stuck(1) p(1) archive_dest_clean, of r] moveFile_keeps [OF stuck(1) p(1) archive_dest_clean]
      by (auto simp: kept_def)
  next
    case (moved d c' t b)
    note out = moveFile_frame [OF moved(4) p(1) archive_dest_clean] moveFile_keeps [OF moved(4) p(1) archive_dest_clean, of c]
    from moved(5) [symmetric] show ?thesis
    proof (cases rule: record_archived_cases)
      case (undone d')
      obtain d2 ok where bk: "moveFile (move_back (faults w p)) (instant (clock w)) d' (archive_dest w settings p) p = (d2, ok)"
        by fastforce
      have at: "holds_at d' q x \<longleftrightarrow> holds_at d q x" if "q \<noteq> ledger_file settings" for q x
        using undone(1) [of q] that by (simp add: holds_at_def ledger_file_def)
      show ?thesis
        using undone bk p out moveFile_frame [OF bk archive_dest_clean p(1), of r] moveFile_keeps [OF bk archive_dest_clean p(1), of c]
          at [of "archive_dest w settings p" c]
        by (auto simp: kept_def ledger_file_def)
    next
      case (recorded e x)
      then show ?thesis using p out by (auto simp: kept_def ledger_file_def)
    qed
  qed
  then show "r \<notin> {p, archive_dest w settings p, ledger_file settings} \<Longrightarrow> run_disk s' r = run_disk s r"
    and "holds_at (run_disk s) p c \<Longrightarrow> kept w settings p c (run_disk s')"
    and "archivedDefault s' \<Longrightarrow> archivedDefault s \<or>
      p = DefaultPath \<and> (holds_at (run_disk s) p c \<longrightarrow> holds_at (run_disk s') (archive_dest w settings p) c)" by blast+
qed

lemma separate_Cons:
  assumes "separate w settings (p # ps)"
  shows "separate w settings ps" "archive_dest w settings p \<noteq> p" "ledger_file settings \<notin> {p, archive_dest w settings p}"
    "q \<in> set ps \<Longrightarrow> q \<noteq> archive_dest w settings p \<and> archive_dest w settings q \<noteq> p \<and>
       archive_dest w settings q \<noteq> archive_dest w settings p \<and> ledger_file settings \<notin> {q, archive_dest w settings q}"
  using assms unfolding separate_def by (auto simp: image_iff)

lemma kept_frame:
  assumes "d p = d' p" "d (archive_dest w settings p) = d' (archive_dest w settings p)"
  shows "kept w settings p c d = kept w settings p c d'"
  using assms by (simp add: kept_def holds_at_def)

lemma archive_loop_frame:
  assumes "separate w settings ps" "\<forall>p\<in>set ps. path_Clean p = p"
    and "r \<notin> set ps \<union> archive_dest w settings ` set ps \<union> {ledger_file settings}"
  shows "run_disk (archive_loop w cfg settings ps s) r = run_disk s r"
  using assms
proof (induction ps arbitrary: s)
  case (Cons p ps)
  note sep = separate_Cons [OF Cons.prems(1)]
  have "run_disk (archive_one w cfg settings p s) r = run_disk s r"
    by (rule archive_one_keeps(1) [OF _ sep(2,3) refl]) (use Cons.prems in auto)
  with Cons sep(1) show ?case by (simp add: archive_loop_def)
qed (simp add: archive_loop_def)

lemma archive_loop_default:
  assumes "separate w settings ps" "\<forall>p\<in>set ps. path_Clean p = p" "archivedDefault (archive_loop w cfg settings ps s)"
  shows "archivedDefault s \<or> DefaultPath \<in> set ps"
  using assms
proof (induction ps arbitrary: s)
  case (Cons p ps)
  note sep = separate_Cons [OF Cons.prems(1)]
  have "archivedDefault (archive_one w cfg settings p s) \<or> DefaultPath \<in> set ps"
    by (rule Cons.IH [OF sep(1)]) (use Cons.prems in \<open>auto simp: archive_loop_def\<close>)
  then show ?case using archive_one_keeps(3) [OF _ sep(2,3) refl, of cfg s] Cons.prems(2) by auto
qed (simp add: archive_loop_def)

lemma archive_loop_keeps:
  assumes "separate w settings ps" "distinct ps" "\<forall>p\<in>set ps. path_Clean p = p" "p \<in> set ps" "holds_at (run_disk s) p c"
  shows "kept w settings p c (run_disk (archive_loop w cfg settings ps s)) \<and>
    (p = DefaultPath \<and> archivedDefault (archive_loop w cfg settings ps s) \<and> \<not> archivedDefault s \<longrightarrow>
       holds_at (run_disk (archive_loop w cfg settings ps s)) (archive_dest w settings p) c)"
  using assms
proof (induction ps arbitrary: s)
  case (Cons q ps)
  note sep = separate_Cons [OF Cons.prems(1)] 
  define s' where "s' = archive_one w cfg settings q s"
  define out where "out = archive_loop w cfg settings ps s'"
  have clean: "path_Clean q = q" "\<forall>p\<in>set ps. path_Clean p = p" using Cons.prems(3) by auto
  note one = archive_one_keeps [OF clean(1) sep(2,3) s'_def [symmetric]]
  have loop: "archive_loop w cfg settings (q # ps) s = out" by (simp add: archive_loop_def s'_def out_def)
  have late: "archivedDefault s' \<or> DefaultPath \<in> set ps" if "archivedDefault out"
    using archive_loop_default [OF sep(1) clean(2)] that by (simp add: out_def)
  show ?case
  proof (cases "p = q")
    case True
    with Cons.prems(2) have out: "p \<notin> set ps" by simp
    have "run_disk out r = run_disk s' r" if "r \<in> {p, archive_dest w settings p}" for r
      unfolding out_def by (rule archive_loop_frame [OF sep(1) clean(2)]) (use that sep(3) sep(4) True out in \<open>metis (no_types, lifting) UnE imageE insertE insert_iff singletonD\<close>)
    then have "kept w settings p x (run_disk out) = kept w settings p x (run_disk s')"
      "holds_at (run_disk out) (archive_dest w settings p) x = holds_at (run_disk s') (archive_dest w settings p) x" for x
      by (auto intro!: kept_frame simp: holds_at_def)
    with one(2,3) [of c] late out True Cons.prems(5) show ?thesis unfolding loop by auto
  next
    case False
    with Cons.prems(4) have p: "p \<in> set ps" by simp
    have "run_disk s' p = run_disk s p" by (rule one(1)) (use sep(4) [OF p] False in auto)
    then have "holds_at (run_disk s') p c" using Cons.prems(5) by (simp add: holds_at_def)
    with Cons.IH [OF sep(1) _ clean(2) p, of s', folded out_def] Cons.prems(2) one(3) False show ?thesis unfolding loop by auto
  qed
qed simp

lemma remdups_sorted_clean:
  assumes "discoverArchiveCandidates g d scope dir = Inr ps"
  shows "distinct ps" "\<forall>p\<in>set ps. path_Clean p = p"
proof -
  have "\<forall>p\<in>set qs. path_Clean p = p" if "discover_matches g d dir pats = Inr qs" for pats qs
    using that by (induction pats arbitrary: qs) (auto split: option.splits)
  with assms show "\<forall>p\<in>set ps. path_Clean p = p" "distinct ps"
    by (auto simp: discoverArchiveCandidates_def)
qed

lemma archive_finish_keeps:
  assumes "archive_finish w io cfg settings ctext sl = (s, err)" "separate w settings ps" "p \<in> set ps"
    and "kept w settings p c (run_disk sl)"
    and "archivedDefault sl \<Longrightarrow> DefaultPath \<in> set ps"
    and "p = DefaultPath \<Longrightarrow> archivedDefault sl \<Longrightarrow> holds_at (run_disk sl) (archive_dest w settings p) c"
  shows "kept w settings p c (run_disk s)"
proof -
  have off: "p \<noteq> audit_path" "archive_dest w settings p \<noteq> audit_path" "archive_dest w settings p \<notin> set ps"
    using assms(2,3) unfolding separate_def by (auto simp: image_iff)
  have new: "kept w settings p c (run_disk s')"
    if "(if archivedDefault sl then recreate_default io (instant (clock w)) sl else Inr sl) = Inr s'" for s'
  proof (cases "archivedDefault sl")
    case True
    with that obtain raw where "run_disk s' = (run_disk sl)(DefaultPath \<mapsto> (raw, instant (clock w)))"
      by (auto simp: recreate_default_def split: sum.splits prod.splits)
    moreover have "archive_dest w settings p \<noteq> DefaultPath" using off(3) assms(5) [OF True] by auto
    ultimately show ?thesis using assms(4,6) True by (auto simp: kept_def)
  qed (use that assms(4) in auto)
  with assms(1,4) off(1,2) show ?thesis
    by (auto simp: archive_finish_def Let_def kept_def split: if_splits sum.splits)
qed

definition archive_start :: "disk \<Rightarrow> ledger_entry list \<Rightarrow> string \<Rightarrow> nat \<Rightarrow> archive_run" where
  "archive_start d es h n = \<lparr>run_disk = d, run_entries = es,
     run_summary = zero_summary\<lparr>Candidates := n, LedgerHeadHash := h\<rparr>, archivedDefault = False, wouldArchiveDefault = False\<rparr>"

lemma runArchive_cases:
  assumes "resolveArchiveSettings (policy io) (clock w) cfg = Inr settings" "working_dir io = Some (cwd w)"
    and "discoverArchiveCandidates (glob io) disk (as_Scope settings) (ArchiveDir settings) = Inr candidates"
    and "runArchive w io formatRFC3339 cfg disk = (s, err)"
  obtains (early) "run_disk s = disk" "err \<noteq> None"
      "\<not> (\<exists>es h. LoadOrEmpty (map_option fst (disk (ledger_file settings))) = Inr es \<and> ledger_Verify es = Inr h)"
  | (complete) es h where "LoadOrEmpty (map_option fst (disk (ledger_file settings))) = Inr es" "ledger_Verify es = Inr h"
      "archive_finish w io cfg settings (formatRFC3339 (Cutoff settings))
         (archive_loop w cfg settings candidates (archive_start disk es h (length candidates))) = (s, err)"
proof -
  have w: "w\<lparr>cwd := the (working_dir io)\<rparr> = w" using assms(2) by simp
  show ?thesis
    using assms that
    by (auto simp: runArchive_def Let_def w ledger_file_def archive_start_def split: sum.splits)
qed

text \<open>C32: a run of \<^verbatim>\<open>atb archive\<close> loses no bundle, whatever fails: a candidate's content is afterwards at its old path or at
  its destination, after failed renames, copies cut off in the middle, failed ledger writes and failed ways back
  included. The destinations are distinct and none is a candidate, the ledger or the operations bundle.\<close>

theorem archive_loses_nothing:
  assumes "resolveArchiveSettings (policy io) (clock w) cfg = Inr settings" "working_dir io = Some (cwd w)"
    and "discoverArchiveCandidates (glob io) disk (as_Scope settings) (ArchiveDir settings) = Inr candidates"
    and "separate w settings candidates"
    and "p \<in> set candidates" "disk p = Some (content, t)"
    and "runArchive w io formatRFC3339 cfg disk = (s, err)"
  shows "\<exists>t'. run_disk s p = Some (content, t') \<or> run_disk s (archive_dest w settings p) = Some (content, t')"
proof -
  have start: "holds_at disk p content" using assms(6) by (auto simp: holds_at_def)
  note disc = remdups_sorted_clean [OF assms(3)]
  from assms(1-3,7) have "kept w settings p content (run_disk s)"
  proof (cases rule: runArchive_cases)
    case early
    with start show ?thesis by (simp add: kept_def)
  next
    case (complete es h)
    let ?s1 = "archive_start disk es h (length candidates)"
    have s1: "run_disk ?s1 = disk" "\<not> archivedDefault ?s1" by (simp_all add: archive_start_def)
    note loop = archive_loop_keeps [OF assms(4) disc assms(5), of ?s1 content cfg, unfolded s1(1), OF start]
    show ?thesis
      by (rule archive_finish_keeps [OF complete(3) assms(4,5)])
        (use loop s1(2) archive_loop_default [OF assms(4) disc(2), of cfg ?s1] in auto)
  qed
  then show ?thesis by (auto simp: kept_def holds_at_def)
qed

section \<open>The ledger describes the archive\<close>

definition ledger_lf :: "string option \<Rightarrow> bool" where
  "ledger_lf content = (content = None \<or> content = Some [] \<or> last (the content) = CHR 0x0A)"

definition ledger_current :: "archiveSettings \<Rightarrow> archive_run \<Rightarrow> bool" where
  \<comment> \<open>the ledger file holds the entries in memory\<close>
  "ledger_current settings s =
     (let content = map_option fst (run_disk s (ledger_file settings))
      in LoadOrEmpty content = Inr (run_entries s) \<and> ledger_lf content \<and> is_ok (ledger_Verify (run_entries s)))"

definition describes :: "archive_world \<Rightarrow> disk \<Rightarrow> ledger_entry \<Rightarrow> bool" where
  \<comment> \<open>the archived file is there, with the recorded digest, and is a bundle that verifies with the recorded head\<close>
  "describes w d e =
     (case d (al_Dest e) of
        None \<Rightarrow> False
      | Some (c, _) \<Rightarrow> al_SHA256 e = digest c \<and>
          (case LoadReader (bytes_read w) c of Inl _ \<Rightarrow> False | Inr b \<Rightarrow> Verify b = None \<and> al_HeadHash e = bundle_head b))"

definition path_ok :: "string \<Rightarrow> bool" where
  "path_ok p = (valid_utf8 p \<and> length p \<le> 4096)"

definition orderly :: "archive_world \<Rightarrow> archiveSettings \<Rightarrow> string \<Rightarrow> bool" where
  \<comment> \<open>no ledger write stops in the middle of the line, and the two paths are UTF-8 of at most 4096 bytes\<close>
  "orderly w settings p =
     ((case append_to (faults w p) of AppendTorn _ \<Rightarrow> False | _ \<Rightarrow> True) \<and>
      path_ok (source_display w settings p) \<and> path_ok (archive_dest w settings p))"

lemma head_of_verified:
  assumes "Verify b = None" shows "valid_utf8 (bundle_head b) \<and> length (bundle_head b) = 64"
proof (cases "Records b = []")
  case False
  then have "last (Records b) \<in> set (Records b)" by simp
  then obtain x where "Hash (last (Records b)) = digest x"
    using assms events.linked_nth [of GenesisHash "pairs (Records b)"] by (fastforce simp: Verify_None in_set_conv_nth)
  with False show ?thesis by (simp add: bundle_head_def valid_utf8_digest)
qed (use valid_utf8_Genesis in \<open>simp add: bundle_head_def GenesisHash_def\<close>)

lemma ascii_pad: "list_all (\<lambda>c. ord c < 0x80) (pad2 n)" if "0 \<le> n" "n < 100"
  using that by (auto simp: pad2_def ord_byte nat_less_iff)

lemma timestamp_ok:
  assumes "time_ok t" shows "valid_utf8 (FormatRFC3339 t) \<and> length (FormatRFC3339 t) \<le> 25"
proof -
  have y: "0 \<le> year t div 100" "year t div 100 < 100" "0 \<le> year t mod 100" "year t mod 100 < 100"
    using assms by (auto simp: time_ok_def)
  have z: "0 \<le> \<bar>zone t\<bar> div 60 div 60" "\<bar>zone t\<bar> div 60 div 60 < 100" "0 \<le> \<bar>zone t\<bar> div 60 mod 60" "\<bar>zone t\<bar> div 60 mod 60 < 100"
  proof -
    have "\<bar>zone t\<bar> div 60 div 60 = \<bar>zone t\<bar> div 3600" by (simp add: zdiv_zmult2_eq [symmetric])
    then show "0 \<le> \<bar>zone t\<bar> div 60 div 60" "\<bar>zone t\<bar> div 60 div 60 < 100" using assms by (auto simp: time_ok_def)
    have "\<bar>zone t\<bar> div 60 mod 60 < 60" by simp
    then show "0 \<le> \<bar>zone t\<bar> div 60 mod 60" "\<bar>zone t\<bar> div 60 mod 60 < 100" by (simp, linarith)
  qed
  have d: "day t < 100" using assms by (auto simp: time_ok_def daysIn_def split: if_splits)
  have "list_all (\<lambda>c. ord c < 0x80) (FormatRFC3339 t)"
    using assms d ascii_pad y z by (auto simp: FormatRFC3339_def pad4_def format_zone_def Let_def time_ok_def)
  moreover have "length (FormatRFC3339 t) \<le> 25" by (simp add: FormatRFC3339_def pad4_def pad2_def format_zone_def Let_def)
  ultimately show ?thesis by (simp add: valid_utf8_literal)
qed

lemma length_int_digits: "c < 10 ^ Suc k \<Longrightarrow> length (int_digits c) \<le> Suc k"
proof (induction k arbitrary: c)
  case 0
  then show ?case by (simp add: int_digits.simps)
next
  case (Suc k)
  then have "c div 10 < 10 ^ Suc k" by simp
  from Suc.IH [OF this] show ?case by (subst int_digits.simps) simp
qed

lemma length_show_int: "int64 i \<Longrightarrow> length (show_int i) \<le> 20"
  using length_int_digits [of "\<bar>i\<bar>" 18] by (auto simp: show_int_def show_digits_def int64_def)

lemma ledger_line_fits:
  assumes "al_PrevHash e = h" "length h \<le> 64" "length (al_ArchivedAt e) \<le> 25" "length (al_Source e) \<le> 4096"
    "length (al_Dest e) \<le> 4096" "length (al_SHA256 e) \<le> 64" "length (al_HeadHash e) \<le> 64" "int64 (al_Sequence e)"
  shows "scanner_fits (ledger_line e)"
proof -
  have "text_bound (JObject (ledger_members e)) \<le> 60000" using assms length_show_int [of "al_Sequence e"] by (simp add: ledger_members_def)
  then show ?thesis
    using length_render(1) [OF refl, of "JObject (ledger_members e)"] by (simp add: scanner_fits_def ledger_line_def render_html_def)
qed

lemma NextEntry_parts:
  assumes "NextEntry es t src dst sha hh = Inr e"
  shows "al_Sequence e = int (length es) + 1" "valid_utf8 (al_PrevHash e)" "length (al_PrevHash e) = 64" "al_ArchivedAt e = t"
    "al_Source e = src" "al_Dest e = dst" "al_SHA256 e = sha" "al_HeadHash e = hh"
proof -
  from assms obtain g where g: "ledger_Verify es = Inr g" and e: "e = \<lparr>al_Sequence = int (length es) + 1, al_PrevHash = g, al_ArchivedAt = t,
      al_Source = src, al_Dest = dst, al_SHA256 = sha, al_HeadHash = hh\<rparr>" by (auto simp: NextEntry_def)
  have "length g = 64" "valid_utf8 g"
    using g chain_head_utf8 [of es] ledger.head_length [of GenesisHash es] by (auto simp: ledger_Verify_Inr GenesisHash_def)
  with e show "al_Sequence e = int (length es) + 1" "valid_utf8 (al_PrevHash e)" "length (al_PrevHash e) = 64" "al_ArchivedAt e = t"
    "al_Source e = src" "al_Dest e = dst" "al_SHA256 e = sha" "al_HeadHash e = hh" by simp_all
qed

lemma archive_one_ledger:
  assumes p: "path_Clean p = p" "archive_dest w settings p \<noteq> p" "ledger_file settings \<notin> {p, archive_dest w settings p}"
    and o: "orderly w settings p" "time_ok (clock w)" "int64 (int (length (run_entries s)) + 1)"
    and cur: "ledger_current settings s" and s': "archive_one w cfg settings p s = s'"
  shows "ledger_current settings s' \<and>
    (run_entries s' = run_entries s \<and> Archived (run_summary s') = Archived (run_summary s) \<or>
     (\<exists>e. run_entries s' = run_entries s @ [e] \<and> Archived (run_summary s') = Archived (run_summary s) + 1 \<and>
        al_Dest e = archive_dest w settings p \<and> describes w (run_disk s') e))"
  using s'
proof (cases rule: archive_one_cases)
  case skip
  then show ?thesis using cur by (simp add: ledger_current_def)
next
  case (stuck d)
  then show ?thesis
    using p cur moveFile_frame [OF stuck(1) p(1) archive_dest_clean, of "ledger_file settings"] by (simp add: ledger_current_def)
next
  case (moved d c t b)
  have ld: "d (ledger_file settings) = run_disk s (ledger_file settings)"
    using moveFile_frame [OF moved(4) p(1) archive_dest_clean] p by auto
  from moved(5) [symmetric] show ?thesis
  proof (cases rule: record_archived_cases)
    case (undone d')
    obtain d2 ok where bk: "moveFile (move_back (faults w p)) (instant (clock w)) d' (archive_dest w settings p) p = (d2, ok)"
      by fastforce
    have "map_option fst (d' (ledger_file settings)) = map_option fst (d (ledger_file settings))"
      using undone(6) o(1) by (auto simp: orderly_def fun_eq_iff split: append_fault.splits)
    moreover have "run_disk s' (ledger_file settings) = d' (ledger_file settings)"
      using undone(2) bk moveFile_frame [OF bk archive_dest_clean p(1), of "ledger_file settings"] p by simp
    ultimately show ?thesis using undone cur ld by (simp add: ledger_current_def)
  next
    case (recorded e x)
    have fault: "append_to (faults w p) = AppendDone"
      using recorded(2) by (auto simp: ledger_Append_def Let_def split: append_fault.splits)
    note e = NextEntry_parts [OF recorded(1), simplified]
    have fits: "scanner_fits (ledger_line e)"
      using e o timestamp_ok [OF o(2)] head_of_verified [OF moved(3)]
      by (auto simp: orderly_def path_ok_def bundle_head_def intro!: ledger_line_fits)
    have utf: "valid_utf8 (FormatRFC3339 (clock w)) \<and> valid_utf8 (source_display w settings p) \<and> valid_utf8 (archive_dest w settings p) \<and>
        valid_utf8 (digest c) \<and> valid_utf8 (if Records b \<noteq> [] then Hash (last (Records b)) else GenesisHash)"
      using o(1) timestamp_ok [OF o(2)] head_of_verified [OF moved(3)]
      by (auto simp: orderly_def path_ok_def valid_utf8_digest bundle_head_def split: if_splits)
    have "LoadOrEmpty (Some x) = Inr (run_entries s') \<and> ledger_lf (Some x) \<and> is_ok (ledger_Verify (run_entries s'))"
      using ledger_append_step [OF _ _ recorded(1) _ utf fits, of "map_option fst (d (ledger_file settings))"] cur ld recorded(2,4) fault o(3)
      by (auto simp: ledger_current_def ledger_lf_def ledger_file_def Let_def)
    moreover obtain t' where "d (archive_dest w settings p) = Some (c, t')"
      using moveFile_keeps [OF moved(4) p(1) archive_dest_clean, of c] moved(1) p(2) by (auto simp: holds_at_def)
    then have "describes w (run_disk s') e"
      using recorded(3) e p(3) moved(2,3) by (auto simp: describes_def ledger_file_def bundle_head_def)
    ultimately show ?thesis using recorded e by (auto simp: ledger_current_def ledger_file_def)
  qed
qed

lemma archive_loop_ledger:
  assumes "separate w settings ps" "distinct ps" "\<forall>p\<in>set ps. path_Clean p = p" "\<forall>p\<in>set ps. orderly w settings p"
    and "time_ok (clock w)" "int64 (int (length (run_entries s)) + int (length ps))" "ledger_current settings s"
  shows "ledger_current settings (archive_loop w cfg settings ps s) \<and>
    (\<exists>new. run_entries (archive_loop w cfg settings ps s) = run_entries s @ new \<and>
       Archived (run_summary (archive_loop w cfg settings ps s)) = Archived (run_summary s) + length new \<and>
       (\<forall>e\<in>set new. al_Dest e \<in> archive_dest w settings ` set ps \<and> describes w (run_disk (archive_loop w cfg settings ps s)) e))"
  using assms
proof (induction ps arbitrary: s)
  case (Cons p ps)
  note sep = separate_Cons [OF Cons.prems(1)]
  define s' where "s' = archive_one w cfg settings p s"
  define out where "out = archive_loop w cfg settings ps s'"
  have loop: "archive_loop w cfg settings (p # ps) s = out" by (simp add: archive_loop_def s'_def out_def)
  have clean: "path_Clean p = p" "\<forall>p\<in>set ps. path_Clean p = p" and ord: "orderly w settings p" "\<forall>p\<in>set ps. orderly w settings p"
    using Cons.prems(3,4) by auto
  have n: "int64 (int (length (run_entries s)) + 1)" using Cons.prems(6) by (auto simp: int64_def)
  note one = archive_one_ledger [OF clean(1) sep(2,3) ord(1) Cons.prems(5) n Cons.prems(7) s'_def [symmetric]]
  have n': "int64 (int (length (run_entries s')) + int (length ps))" using one Cons.prems(6) by (auto simp: int64_def)
  obtain new where new: "ledger_current settings out" "run_entries out = run_entries s' @ new"
    "Archived (run_summary out) = Archived (run_summary s') + length new"
    "\<forall>e\<in>set new. al_Dest e \<in> archive_dest w settings ` set ps \<and> describes w (run_disk out) e"
    using Cons.IH [OF sep(1) _ clean(2) ord(2) Cons.prems(5) n'] one Cons.prems(2) by (auto simp: out_def)
  have same: "run_disk out (archive_dest w settings p) = run_disk s' (archive_dest w settings p)"
    unfolding out_def
    by (rule archive_loop_frame [OF sep(1) clean(2)])
      (use sep(3) sep(4) in \<open>metis (no_types, lifting) UnE imageE insert_iff singletonD\<close>)
  from one consider "run_entries s' = run_entries s" "Archived (run_summary s') = Archived (run_summary s)"
    | e where "run_entries s' = run_entries s @ [e]" "Archived (run_summary s') = Archived (run_summary s) + 1"
        "al_Dest e = archive_dest w settings p" "describes w (run_disk s') e" by blast
  then show ?case
  proof cases
    case 1
    with new show ?thesis unfolding loop by (intro conjI exI [of _ new]) auto
  next
    case (2 e)
    then have "describes w (run_disk out) e" using same by (simp add: describes_def)
    with 2 new show ?thesis unfolding loop by (intro conjI exI [of _ "e # new"]) auto
  qed
qed (simp add: archive_loop_def)

lemma archive_finish_frame:
  assumes "archive_finish w io cfg settings ctext sl = (s, err)" "r \<noteq> audit_path" "archivedDefault sl \<Longrightarrow> r \<noteq> DefaultPath"
  shows "run_disk s r = run_disk sl r"
  using assms
  by (auto simp: archive_finish_def recreate_default_def Let_def split: if_splits sum.splits prod.splits)

lemma archive_finish_count:
  assumes "archive_finish w io cfg settings ctext sl = (s, err)" shows "Archived (run_summary s) = Archived (run_summary sl)"
  using assms
  by (auto simp: archive_finish_def recreate_default_def Let_def split: if_splits sum.splits prod.splits)

text \<open>C33: after a run of \<^verbatim>\<open>atb archive\<close> in which no ledger write stopped halfway, the ledger on disk loads and verifies, and it
  has one new entry for each bundle the summary counts as archived; the file each new entry names is there, has the
  recorded digest and is a bundle that verifies with the recorded head. It is assumed that the ledger loaded and verified before and
  that its file was absent, empty or ended in a line feed; that the destinations of the bundles differ from each other and from
  the bundles, the ledger and the operations bundle, which are different too; and that the paths are UTF-8 of at most 4096 bytes.\<close>

theorem archive_ledger_describes:
  assumes "resolveArchiveSettings (policy io) (clock w) cfg = Inr settings" "working_dir io = Some (cwd w)"
    and "discoverArchiveCandidates (glob io) disk (as_Scope settings) (ArchiveDir settings) = Inr candidates"
    and "separate w settings candidates" "\<forall>p\<in>set candidates. orderly w settings p" "time_ok (clock w)"
    and "LoadOrEmpty (map_option fst (disk (ledger_file settings))) = Inr es" "ledger_lf (map_option fst (disk (ledger_file settings)))"
    and "ledger_Verify es = Inr h" "int64 (int (length es) + int (length candidates))"
    and "runArchive w io formatRFC3339 cfg disk = (s, err)"
  shows "\<exists>new. LoadOrEmpty (map_option fst (run_disk s (ledger_file settings))) = Inr (es @ new) \<and>
    is_ok (ledger_Verify (es @ new)) \<and> length new = Archived (run_summary s) \<and> (\<forall>e\<in>set new. describes w (run_disk s) e)"
proof -
  note disc = remdups_sorted_clean [OF assms(3)]
  let ?s1 = "archive_start disk es h (length candidates)"
  let ?sl = "archive_loop w cfg settings candidates ?s1"
  have fin: "archive_finish w io cfg settings (formatRFC3339 (Cutoff settings)) ?sl = (s, err)"
    using assms(1-3,11) by (cases rule: runArchive_cases) (use assms(7,9) in auto)
  have "ledger_current settings ?s1" using assms(7-9) by (simp add: ledger_current_def archive_start_def)
  then obtain new where new: "ledger_current settings ?sl" "run_entries ?sl = es @ new" "Archived (run_summary ?sl) = length new"
    "\<forall>e\<in>set new. al_Dest e \<in> archive_dest w settings ` set candidates \<and> describes w (run_disk ?sl) e"
    using archive_loop_ledger [OF assms(4) disc assms(5,6), of ?s1 cfg] assms(10) by (auto simp: archive_start_def zero_summary_def)
  have same: "run_disk s r = run_disk ?sl r" if "r \<in> {ledger_file settings} \<union> archive_dest w settings ` set candidates" for r
    by (rule archive_finish_frame [OF fin])
      (use that assms(4) archive_loop_default [OF assms(4) disc(2), of cfg ?s1] in \<open>auto simp: separate_def archive_start_def\<close>)
  have "describes w (run_disk s) e" if "e \<in> set new" for e
    using new(4) that same [of "al_Dest e"] by (auto simp: describes_def)
  moreover have "Archived (run_summary s) = length new"
    using archive_finish_count [OF fin] new(3) by simp
  ultimately show ?thesis using new(1,2) same [of "ledger_file settings"] by (auto simp: ledger_current_def Let_def)
qed

section \<open>One destination for two bundles\<close>

definition calm :: archive_faults where
  "calm = \<lparr>stat_ok = True, open_ok = True, hash_ok = True, move_out = MoveRenamed, append_to = AppendDone, move_back = MoveRenamed\<rparr>"

definition sound_bundle :: "archive_world \<Rightarrow> string \<Rightarrow> bool" where
  "sound_bundle w c = (case LoadReader (bytes_read w) c of Inl _ \<Rightarrow> False | Inr b \<Rightarrow> Verify b = None)"

lemma archive_one_done:
  assumes "faults w p = calm" "\<not> DryRun cfg" "run_disk s p = Some (c, t)" "t < Cutoff settings" "sound_bundle w c" "path_Clean p = p"
    and "ledger_Verify (run_entries s) = Inr h" "int64 (int (length (run_entries s)) + 1)"
  obtains s' x e where "archive_one w cfg settings p s = s'"
    "run_disk s' = (run_disk s)(p := None, archive_dest w settings p \<mapsto> (c, t), ledger_file settings \<mapsto> x)"
    "run_entries s' = run_entries s @ [e]" "is_ok (ledger_Verify (run_entries s'))" "Archived (run_summary s') = Archived (run_summary s) + 1"
    "SkippedErrors (run_summary s') = SkippedErrors (run_summary s)"
proof -
  obtain b where b: "LoadReader (bytes_read w) c = Inr b" "Verify b = None"
    using assms(5) by (auto simp: sound_bundle_def split: sum.splits)
  define s1 where "s1 = s\<lparr>run_disk := (run_disk s)(p := None, archive_dest w settings p \<mapsto> (c, t))\<rparr>"
  define head where "head = (if Records b \<noteq> [] then Hash (last (Records b)) else GenesisHash)"
  define s' where "s' = archive_one w cfg settings p s"
  have s': "s' = record_archived w (ArchiveDir settings) p (source_display w settings p) (archive_dest w settings p)
      (archive_dest w settings p) (digest c) head s1"
    using assms(1-6) b
    by (simp add: s'_def s1_def head_def archive_one_def buildArchiveDestination_dest calm_def moveFile_def Let_def)
  obtain e where e: "NextEntry (run_entries s) (FormatRFC3339 (clock w)) (source_display w settings p) (archive_dest w settings p) (digest c) head = Inr e"
    using assms(7) by (auto simp: NextEntry_def)
  have v: "is_ok (ledger_Verify (run_entries s @ [e]))"
  proof -
    from e assms(7) have "al_PrevHash e = h" "al_Sequence e = int (length (run_entries s)) + 1" by (auto simp: NextEntry_def)
    with assms(7,8) ledger_encodable [of e] show ?thesis by (auto simp: is_ok_iff ledger_Verify_snoc)
  qed
  define x where "x = (case map_option fst (run_disk s1 (ledger_file settings)) of None \<Rightarrow> [] | Some d \<Rightarrow> d) @ ledger_line e"
  have "run_disk s' = (run_disk s1)(ledger_file settings \<mapsto> (x, instant (clock w)))" "run_entries s' = run_entries s @ [e]"
    "Archived (run_summary s') = Archived (run_summary s) + 1" "SkippedErrors (run_summary s') = SkippedErrors (run_summary s)"
    using e v assms(1) by (auto simp: s' record_archived_def s1_def x_def calm_def ledger_Append_def ledger_file_def Let_def is_ok_iff)
  with that [OF s'_def [symmetric], of "(x, instant (clock w))" e] v show ?thesis by (simp add: s1_def)
qed

text \<open>When two candidates have one destination, as bundles with one file name outside the working directory have, both are
  moved and counted as archived without an error, and the content of the first is at neither path: the second has
  overwritten it.\<close>

theorem archive_overwrites:
  assumes "archive_dest w settings p = archive_dest w settings q" "p \<noteq> q"
    and "faults w p = calm" "faults w q = calm" "\<not> DryRun cfg" "path_Clean p = p" "path_Clean q = q"
    and "disk p = Some (c, t)" "disk q = Some (c', t')" "t < Cutoff settings" "t' < Cutoff settings" "sound_bundle w c" "sound_bundle w c'"
    and "archive_dest w settings p \<notin> {p, q}" "ledger_file settings \<notin> {p, q, archive_dest w settings p}"
    and "ledger_Verify es = Inr h" "int64 (int (length es) + 2)"
  shows "let s = archive_loop w cfg settings [p, q] (archive_start disk es h 2)
    in Archived (run_summary s) = 2 \<and> SkippedErrors (run_summary s) = 0 \<and> run_disk s p = None \<and>
       run_disk s (archive_dest w settings p) = Some (c', t')"
proof -
  let ?s0 = "archive_start disk es h 2"
  have s0: "run_disk ?s0 = disk" "run_entries ?s0 = es" "Archived (run_summary ?s0) = 0" "SkippedErrors (run_summary ?s0) = 0"
    by (simp_all add: archive_start_def zero_summary_def)
  obtain s1 x e where s1: "archive_one w cfg settings p ?s0 = s1" "run_entries s1 = es @ [e]" "is_ok (ledger_Verify (run_entries s1))"
    "run_disk s1 = disk(p := None, archive_dest w settings p \<mapsto> (c, t), ledger_file settings \<mapsto> x)"
    "Archived (run_summary s1) = 1" "SkippedErrors (run_summary s1) = 0"
    by (rule archive_one_done [of w p cfg ?s0 c t settings h]) (use assms s0 in \<open>auto simp: int64_def\<close>)
  then obtain h' where h': "ledger_Verify (run_entries s1) = Inr h'" by (auto simp: is_ok_iff)
  have "run_disk s1 q = Some (c', t')" "int64 (int (length (run_entries s1)) + 1)" using s1 assms by (auto simp: int64_def)
  then obtain s2 y where "archive_one w cfg settings q s1 = s2" "Archived (run_summary s2) = 2" "SkippedErrors (run_summary s2) = 0"
    "run_disk s2 = (run_disk s1)(q := None, archive_dest w settings q \<mapsto> (c', t'), ledger_file settings \<mapsto> y)"
    by (elim archive_one_done [of w q cfg s1 c' t' settings h', rotated 2]) (use assms s1 h' in auto)
  with s1 assms show ?thesis by (auto simp: archive_loop_def Let_def)
qed

section \<open>Examples\<close>

definition demo_world :: archive_world where
  "demo_world = \<lparr>clock = \<lparr>year = 2025, month = 1, day = 2, hour = 3, minute = 4, second = 5, nsec = 0, zone = 0\<rparr>,
     cwd = ''/srv/p'', bytes_read = (\<lambda>_. 0), faults = (\<lambda>_. calm)\<rparr>"

definition demo_settings :: archiveSettings where
  "demo_settings = \<lparr>Cutoff = 1, ArchiveDir = ''archive.atb'', as_Scope = [''run.atb/*.atb''], CutoffBasis = ''file_mtime''\<rparr>"

lemma demo_fields [simp]: "faults demo_world p = calm" "Cutoff demo_settings = 1" "append_to calm = AppendDone"
  by (simp_all add: demo_world_def demo_settings_def calm_def)

lemma demo_dests:
  "archive_dest demo_world demo_settings ''../a/x.atb'' = ''archive.atb/2025/01/02/x.atb''"
  "archive_dest demo_world demo_settings ''../b/x.atb'' = ''archive.atb/2025/01/02/x.atb''"
  "archive_dest demo_world demo_settings ''run.atb/bundle.atb'' = ''archive.atb/2025/01/02/run.atb/bundle.atb''"
  "ledger_file demo_settings = ''archive.atb/index.ndjson''" "audit_path = ''.atb/operations.atb''"
  by code_simp+

lemma demo_sound: "sound_bundle demo_world []" "sound_bundle demo_world sample_text"
proof -
  show "sound_bundle demo_world []"
    by (simp add: sound_bundle_def demo_world_def LoadReader_def LoadReaderWithLimits_def MaxBundleSizeBytes_def MaxBundleRecords_def
        hasManifestRecord_def Verify_None)
  show "sound_bundle demo_world sample_text"
    using sample_loads by (auto simp: LoadVerified_def sound_bundle_def demo_world_def split: if_splits option.splits)
qed

definition demo_disk :: disk where
  "demo_disk = [''../a/x.atb'' \<mapsto> (sample_text, 0), ''../b/x.atb'' \<mapsto> ([], 0), ''run.atb/bundle.atb'' \<mapsto> (sample_text, 0)]"

definition demo_cfg :: archiveConfig where
  "demo_cfg = \<lparr>BeforeSet = True, ac_Before = 1, DryRun = False\<rparr>"

definition demo_io :: archive_io where
  "demo_io = \<lparr>policy = Some None, working_dir = Some ''/srv/p'', glob = (\<lambda>_. Some [''run.atb/bundle.atb'']),
     new_created = ''2025-01-02T03:04:05Z'', new_random = None, save_default = (\<lambda>_. True),
     audit_created = ''2025-01-02T03:04:05Z'', audit_random = None, audit_timestamp = ''2025-01-02T03:04:05Z'', save_audit = (\<lambda>_. True)\<rparr>"

lemma demo_resolve: "resolveArchiveSettings (policy demo_io) (clock demo_world) demo_cfg = Inr demo_settings"
  by (simp add: resolveArchiveSettings_def demo_io_def demo_cfg_def demo_settings_def retentionDefaultArchive_def retentionDefaultCutoff_def)

lemma demo_within: "path_Clean ''run.atb/bundle.atb'' = ''run.atb/bundle.atb''" "\<not> isPathWithin ''run.atb/bundle.atb'' ''archive.atb''"
  "path_Clean ''../a/x.atb'' = ''../a/x.atb''" "path_Clean ''../b/x.atb'' = ''../b/x.atb''"
  by code_simp+

lemma demo_discover:
  "discoverArchiveCandidates (glob demo_io) demo_disk (as_Scope demo_settings) (ArchiveDir demo_settings) = Inr [''run.atb/bundle.atb'']"
  by (simp add: discoverArchiveCandidates_def demo_io_def demo_settings_def demo_within demo_disk_def SortStrings_def)

lemma demo_separate: "separate demo_world demo_settings [''run.atb/bundle.atb'']"
  by (simp add: separate_def demo_dests)

lemma demo_world_dir: "working_dir demo_io = Some (cwd demo_world)" "time_ok (clock demo_world)"
  by (simp_all add: demo_io_def demo_world_def time_ok_def daysIn_def)

theorem archive_loses_nothing_witness:
  "\<exists>t'. run_disk (fst (runArchive demo_world demo_io (\<lambda>_. []) demo_cfg demo_disk)) ''run.atb/bundle.atb'' = Some (sample_text, t') \<or>
    run_disk (fst (runArchive demo_world demo_io (\<lambda>_. []) demo_cfg demo_disk))
      (archive_dest demo_world demo_settings ''run.atb/bundle.atb'') = Some (sample_text, t')"
  by (rule archive_loses_nothing [OF demo_resolve demo_world_dir(1) demo_discover demo_separate _ _ prod.collapse [symmetric]])
    (simp_all add: demo_disk_def)

lemma demo_orderly: "\<forall>p\<in>set [''run.atb/bundle.atb'']. orderly demo_world demo_settings p"
proof -
  have "source_display demo_world demo_settings ''run.atb/bundle.atb'' = ''run.atb/bundle.atb''" by code_simp
  then show ?thesis by (simp add: orderly_def path_ok_def demo_dests valid_utf8_literal)
qed

theorem archive_ledger_describes_witness:
  "\<exists>new. LoadOrEmpty (map_option fst (run_disk (fst (runArchive demo_world demo_io (\<lambda>_. []) demo_cfg demo_disk)) (ledger_file demo_settings))) =
      Inr ([] @ new) \<and> is_ok (ledger_Verify ([] @ new)) \<and>
    length new = Archived (run_summary (fst (runArchive demo_world demo_io (\<lambda>_. []) demo_cfg demo_disk))) \<and>
    (\<forall>e\<in>set new. describes demo_world (run_disk (fst (runArchive demo_world demo_io (\<lambda>_. []) demo_cfg demo_disk))) e)"
  by (rule archive_ledger_describes [OF demo_resolve demo_world_dir(1) demo_discover demo_separate demo_orderly demo_world_dir(2)
        _ _ _ _ prod.collapse [symmetric]])
    (simp_all add: demo_disk_def demo_dests LoadOrEmpty_def ledger_Load_def ledger_lf_def ledger_Verify_def int64_def)

theorem archive_overwrites_witness:
  "let s = archive_loop demo_world demo_cfg demo_settings [''../a/x.atb'', ''../b/x.atb''] (archive_start demo_disk [] GenesisHash 2)
   in Archived (run_summary s) = 2 \<and> SkippedErrors (run_summary s) = 0 \<and> run_disk s ''../a/x.atb'' = None \<and>
      run_disk s (archive_dest demo_world demo_settings ''../a/x.atb'') = Some ([], 0)"
  by (rule archive_overwrites [where c = sample_text and t = 0])
    (simp_all add: demo_dests demo_within demo_cfg_def demo_disk_def demo_sound ledger_Verify_def int64_def)

end
