(* ===== verification/Agent.thy ===== *)
theory Agent
  imports Bundle_Props Json_Indent Path_Props Go_Time
begin

text \<open>
  The capture agent: sessions on bundle files, \<^verbatim>\<open>internal/agent/bundle_file_manager.go\<close>, its request handlers,
  \<^verbatim>\<open>capture_handlers.go\<close>, and the rooted file operations, \<^verbatim>\<open>internal/bundle/rooted.go\<close>. One mutex serialises the calls,
  so a run is a sequence of calls on one state: the sessions, the files below the data directory and the health. The
  clock, the random bytes and the faults of each call are its argument. Theorems: the bundles in memory verify; the
  acknowledged events of a session stay on disk while no other session has its path; two sessions with one path lose
  acknowledged events; a requested path stays below the data directory; the health is the last durability result.
\<close>

section \<open>Paths\<close>

definition path_IsLocal :: "string \<Rightarrow> bool" where
  "path_IsLocal p =
     (p \<noteq> [] \<and> \<not> HasPrefix p [sep] \<and>
      (let hasDots = list_ex (\<lambda>e. e = ''.'' \<or> e = ''..'') (Split p sep);
           q = (if hasDots then path_Clean p else p)
       in q \<noteq> ''..'' \<and> \<not> HasPrefix q ''../''))"

datatype path_error = NoAbs | NoRel | Escapes

definition RootedRelativePath :: "string option \<Rightarrow> string \<Rightarrow> string \<Rightarrow> path_error + string" where
  "RootedRelativePath cwd dataDir p =
     (case path_Abs cwd dataDir of
        None \<Rightarrow> Inl NoAbs
      | Some rootDir \<Rightarrow>
          bind_res (if HasPrefix p [sep] then (case path_Rel rootDir p of None \<Rightarrow> Inl NoRel | Some q \<Rightarrow> Inr q) else Inr p)
            (\<lambda>q. if \<not> path_IsLocal q \<or> path_Clean q = ''.'' then Inl Escapes else Inr (path_Clean q)))"

section \<open>Rooted files\<close>

type_synonym files = "string \<Rightarrow> string option"

datatype save_fault = SaveOk | SaveRefused | SaveUnsynced

definition WriteAtomicRooted :: "save_fault \<Rightarrow> files \<Rightarrow> string \<Rightarrow> string \<Rightarrow> files \<times> bool" where
  \<comment> \<open>an error before the rename leaves the old file, one after it (the sync of the directory) the new file\<close>
  "WriteAtomicRooted fault fs p raw =
     (case fault of SaveOk \<Rightarrow> (fs(p \<mapsto> raw), True) | SaveRefused \<Rightarrow> (fs, False) | SaveUnsynced \<Rightarrow> (fs(p \<mapsto> raw), False))"

definition SaveRooted :: "save_fault \<Rightarrow> files \<Rightarrow> string \<Rightarrow> atb_bundle \<Rightarrow> files \<times> (bundle_error + atb_bundle)" where
  \<comment> \<open>the files, and the bundle with its refreshed prefix hashes; a cancelled context, a busy lock and a failed directory
      are refusals\<close>
  "SaveRooted fault fs p b =
     (case save_lines (Records b) of
        None \<Rightarrow> (fs, Inl EncodeFailed)
      | Some raw \<Rightarrow>
          (case WriteAtomicRooted fault fs p raw of
             (fs', ok) \<Rightarrow> (fs', if ok then Inr (b\<lparr>Records := setSourcePrefixHashes (Records b) raw\<rparr>) else Inl WriteFailed)))"

datatype rooted_error = RootedMissing | RootedLoad bundle_error

definition LoadRooted :: "(nat \<Rightarrow> int) \<Rightarrow> files \<Rightarrow> string \<Rightarrow> rooted_error + atb_bundle" where
  "LoadRooted bytesRead fs p =
     (case fs p of
        None \<Rightarrow> Inl RootedMissing
      | Some raw \<Rightarrow> (case LoadVerified bytesRead raw of Inl e \<Rightarrow> Inl (RootedLoad e) | Inr b \<Rightarrow> Inr b))"

section \<open>Sessions\<close>

record open_params =
  op_ActorID :: string
  op_PurposeTag :: string
  op_ProfileID :: string
  op_BundlePath :: string

record pending_event =
  pe_EventType :: string
  pe_Payload :: string

record file_session =
  fs_params :: open_params
  fs_bundlePath :: string
  fs_bundle :: atb_bundle
  fs_eventCount :: nat
  fs_createdAt :: "int option"
  fs_closed :: bool
  fs_closedAt :: int

record bundle_metadata =
  bm_SessionID :: string
  bm_Path :: string
  bm_ProfileID :: string
  bm_HeadHash :: string
  bm_EventCount :: nat
  bm_CreatedAt :: "int option"
  bm_ClosedAt :: int

datatype agent_error =
    ErrSessionNotFound
  | ErrSessionClosed
  | RootError
  | NoSessionID
  | PathError path_error
  | OpenExisting rooted_error
  | StatError
  | NewBundle bundle_error
  | SaveNew bundle_error
  | AppendError bundle_error
  | SaveError bundle_error
  | SaveOnClose bundle_error
  | VerifyOnClose rooted_error
  | MetaError

record agent_env =
  ae_cwd :: "string option"
  ae_root_ok :: bool
  ae_id :: "string option"
  ae_stat_ok :: bool
  ae_created :: string
  ae_random :: "string option"
  ae_now :: int
  ae_bytes :: "nat \<Rightarrow> int"
  ae_save :: save_fault
  ae_meta :: save_fault
  ae_opened :: "int option \<Rightarrow> string"
  ae_closing :: "int \<Rightarrow> string"

record agent_state =
  dataDir :: string
  rootOnce :: "bool option"
  sessions :: "string \<Rightarrow> file_session option"
  agent_files :: files
  lastErr :: "agent_error option"

definition NewBundleFileManager :: "string \<Rightarrow> files \<Rightarrow> agent_state" where
  "NewBundleFileManager dir fs = \<lparr>dataDir = dir, rootOnce = None, sessions = (\<lambda>_. None), agent_files = fs, lastErr = None\<rparr>"

definition newSessionID :: "string option \<Rightarrow> agent_error + string" where
  "newSessionID random = (case random of None \<Rightarrow> Inl NoSessionID | Some bytes \<Rightarrow> Inr (''sess_'' @ hex_encode bytes))"

definition recordHealthLocked :: "agent_error option \<Rightarrow> agent_state \<Rightarrow> agent_state" where
  "recordHealthLocked err st =
     (if err = Some ErrSessionNotFound \<or> err = Some ErrSessionClosed then st else st\<lparr>lastErr := err\<rparr>)"

definition openRoot :: "agent_env \<Rightarrow> agent_state \<Rightarrow> agent_state \<times> bool" where
  \<comment> \<open>once per lifetime: the first result stays until a shutdown\<close>
  "openRoot env st = (case rootOnce st of Some ok \<Rightarrow> (st, ok) | None \<Rightarrow> (st\<lparr>rootOnce := Some (ae_root_ok env)\<rparr>, ae_root_ok env))"

definition nonManifestRecordCount :: "atb_bundle \<Rightarrow> nat" where
  "nonManifestRecordCount b = length (filter (\<lambda>r. Type (Event r) \<noteq> ManifestEventType) (Records b))"

definition manifestCreatedAt :: "atb_bundle \<Rightarrow> int option" where
  \<comment> \<open>None is the zero time\<close>
  "manifestCreatedAt b =
     (if Records b = [] \<or> Type (Event (hd (Records b))) \<noteq> ManifestEventType then None
      else let ts = TrimSpace (Timestamp (Event (hd (Records b))))
           in if ts = [] then None else map_option instant (ParseRFC3339 ts))"

definition agent_opened :: "agent_env \<Rightarrow> files \<Rightarrow> string \<Rightarrow> files \<times> (agent_error + atb_bundle \<times> int option \<times> nat)" where
  \<comment> \<open>the bundle a session starts with: the one at its path, or a new one saved there\<close>
  "agent_opened env fs p =
     (if \<not> ae_stat_ok env then (fs, Inl StatError)
      else case fs p of
             Some _ \<Rightarrow> (fs, case LoadRooted (ae_bytes env) fs p of
                               Inl e \<Rightarrow> Inl (OpenExisting e)
                             | Inr b \<Rightarrow> Inr (b, manifestCreatedAt b, nonManifestRecordCount b))
           | None \<Rightarrow>
               (case NewWithOptions (ae_created env) (ae_random env) \<lparr>no_ManifestVersion = 2, no_CaptureRunID = []\<rparr> of
                  Inl e \<Rightarrow> (fs, Inl (NewBundle e))
                | Inr b \<Rightarrow>
                    (case SaveRooted (ae_save env) fs p b of
                       (fs', Inl e) \<Rightarrow> (fs', Inl (SaveNew e))
                     | (fs', Inr b') \<Rightarrow> (fs', Inr (b', Some (ae_now env), 0)))))"

definition open_session :: "agent_env \<Rightarrow> open_params \<Rightarrow> agent_state \<Rightarrow> agent_state \<times> (agent_error + string)" where
  "open_session env params st =
     (case openRoot env st of
        (st, ok) \<Rightarrow>
          if \<not> ok then (st, Inl RootError)
          else case newSessionID (ae_id env) of
                 Inl e \<Rightarrow> (st, Inl e)
               | Inr sid \<Rightarrow>
                   let p0 = TrimSpace (op_BundlePath params);
                       p1 = (if p0 = [] then path_Join [''sessions'', sid, ''bundle.atb''] else p0)
                   in case RootedRelativePath (ae_cwd env) (dataDir st) p1 of
                        Inl e \<Rightarrow> (st, Inl (PathError e))
                      | Inr p \<Rightarrow>
                          (case agent_opened env (agent_files st) p of
                             (fs', Inl e) \<Rightarrow> (st\<lparr>agent_files := fs'\<rparr>, Inl e)
                           | (fs', Inr (b, created, n)) \<Rightarrow>
                               (st\<lparr>agent_files := fs', sessions := (sessions st)(sid \<mapsto>
                                  \<lparr>fs_params = params, fs_bundlePath = p, fs_bundle = b, fs_eventCount = n, fs_createdAt = created,
                                   fs_closed = False, fs_closedAt = 0\<rparr>)\<rparr>, Inr sid)))"

definition agentRawEventType :: string where
  "agentRawEventType = ''ai.agent.event.recorded''"

definition appendOptionsForSession :: "open_params \<Rightarrow> append_options option" where
  "appendOptionsForSession params =
     (let actorID = TrimSpace (op_ActorID params)
      in if actorID = [] then None else Some ((timestamp_options [])\<lparr>ao_ActorID := Some actorID\<rparr>))"

definition pendingEventData :: "pending_event \<Rightarrow> any" where
  "pendingEventData ev =
     (let base = [(''source_event_type'', AString (TrimSpace (pe_EventType ev)))];
          payload = TrimSpace (pe_Payload ev)
      in if payload = [] then AMap base
         else case json_unmarshal payload of
                None \<Rightarrow> AMap (base @ [(''payload_raw'', AString (pe_Payload ev))])
              | Some v \<Rightarrow> AMap (base @ [(''payload'', v)]))"

definition append_event :: "agent_env \<Rightarrow> string \<Rightarrow> pending_event \<Rightarrow> agent_state \<Rightarrow> agent_state \<times> agent_error option" where
  "append_event env sid ev st =
     (case sessions st sid of
        None \<Rightarrow> (st, Some ErrSessionNotFound)
      | Some r \<Rightarrow>
          if fs_closed r then (st, Some ErrSessionClosed)
          else case AppendWithOptions (fs_bundle r) agentRawEventType (pendingEventData ev) (appendOptionsForSession (fs_params r)) of
                 Inl e \<Rightarrow> (st, Some (AppendError e))
               | Inr nxt \<Rightarrow>
                   (case SaveRooted (ae_save env) (agent_files st) (fs_bundlePath r) nxt of
                      (fs', Inl e) \<Rightarrow> (st\<lparr>agent_files := fs'\<rparr>, Some (SaveError e))
                    | (fs', Inr nxt') \<Rightarrow>
                        (st\<lparr>agent_files := fs', sessions := (sessions st)(sid \<mapsto>
                           r\<lparr>fs_bundle := nxt', fs_eventCount := fs_eventCount r + 1\<rparr>)\<rparr>, None)))"

definition sessionMetaFilename :: string where
  "sessionMetaFilename = ''meta.json''"

definition session_meta_members :: "agent_env \<Rightarrow> bundle_metadata \<Rightarrow> members" where
  "session_meta_members env m =
     [(''session_id'', JString (bm_SessionID m)), (''bundle_path'', JString (bm_Path m))] @ omit_string ''profile_id'' (bm_ProfileID m) @
     [(''head_hash'', JString (bm_HeadHash m)), (''event_count'', JNumber (show_nat (bm_EventCount m))),
      (''opened_at'', JString (ae_opened env (bm_CreatedAt m))), (''closed_at'', JString (ae_closing env (bm_ClosedAt m)))]"

definition meta_path :: "string \<Rightarrow> string" where
  "meta_path sid = path_Join [''sessions'', sid, sessionMetaFilename]"

definition writeSessionMeta :: "agent_env \<Rightarrow> files \<Rightarrow> bundle_metadata \<Rightarrow> files \<times> bool" where
  "writeSessionMeta env fs m =
     WriteAtomicRooted (ae_meta env) fs (meta_path (bm_SessionID m)) (MarshalIndent (JObject (session_meta_members env m)))"

definition custody_HeadHash :: "atb_bundle \<Rightarrow> string" where
  "custody_HeadHash b = (if Records b = [] then GenesisHash else Hash (last (Records b)))"

definition close_session :: "agent_env \<Rightarrow> string \<Rightarrow> agent_state \<Rightarrow> agent_state \<times> (agent_error + bundle_metadata)" where
  "close_session env sid st =
     (case sessions st sid of
        None \<Rightarrow> (st, Inl ErrSessionNotFound)
      | Some r \<Rightarrow>
          if fs_closed r then (st, Inl ErrSessionClosed)
          else case SaveRooted (ae_save env) (agent_files st) (fs_bundlePath r) (fs_bundle r) of
                 (fs', Inl e) \<Rightarrow> (st\<lparr>agent_files := fs'\<rparr>, Inl (SaveOnClose e))
               | (fs', Inr b') \<Rightarrow>
                   (case LoadRooted (ae_bytes env) fs' (fs_bundlePath r) of
                      Inl e \<Rightarrow> (st\<lparr>agent_files := fs', sessions := (sessions st)(sid \<mapsto> r\<lparr>fs_bundle := b'\<rparr>)\<rparr>, Inl (VerifyOnClose e))
                    | Inr verified \<Rightarrow>
                        let r' = r\<lparr>fs_closed := True, fs_closedAt := ae_now env, fs_bundle := verified\<rparr>;
                            meta = \<lparr>bm_SessionID = sid, bm_Path = path_Join [dataDir st, fs_bundlePath r],
                                    bm_ProfileID = op_ProfileID (fs_params r), bm_HeadHash = custody_HeadHash verified,
                                    bm_EventCount = fs_eventCount r, bm_CreatedAt = fs_createdAt r, bm_ClosedAt = ae_now env\<rparr>
                        in case writeSessionMeta env fs' meta of
                             (fs'', ok) \<Rightarrow>
                               (st\<lparr>agent_files := fs'', sessions := (sessions st)(sid \<mapsto> r')\<rparr>, if ok then Inr meta else Inl MetaError)))"

definition agent_Shutdown :: "agent_state \<Rightarrow> agent_state" where
  "agent_Shutdown st = st\<lparr>sessions := (\<lambda>_. None), rootOnce := None\<rparr>"

definition err_of :: "'e + 'a \<Rightarrow> 'e option" where
  "err_of r = (case r of Inl e \<Rightarrow> Some e | Inr _ \<Rightarrow> None)"

definition OpenSession :: "agent_env \<Rightarrow> open_params \<Rightarrow> agent_state \<Rightarrow> agent_state \<times> (agent_error + string)" where
  "OpenSession env params st = (case open_session env params st of (st', r) \<Rightarrow> (recordHealthLocked (err_of r) st', r))"

definition AppendEvent :: "agent_env \<Rightarrow> string \<Rightarrow> pending_event \<Rightarrow> agent_state \<Rightarrow> agent_state \<times> agent_error option" where
  "AppendEvent env sid ev st = (case append_event env sid ev st of (st', e) \<Rightarrow> (recordHealthLocked e st', e))"

definition CloseSession :: "agent_env \<Rightarrow> string \<Rightarrow> agent_state \<Rightarrow> agent_state \<times> (agent_error + bundle_metadata)" where
  "CloseSession env sid st = (case close_session env sid st of (st', r) \<Rightarrow> (recordHealthLocked (err_of r) st', r))"

definition Health :: "agent_state \<Rightarrow> agent_error option" where
  "Health st = lastErr st"

section \<open>Requests\<close>

definition handleHealthz :: "agent_state \<Rightarrow> nat" where
  "handleHealthz st = (if Health st \<noteq> None then 503 else 200)"

definition agentErrorHTTP :: "agent_error \<Rightarrow> nat" where
  "agentErrorHTTP e = (if e = ErrSessionNotFound then 404 else if e = ErrSessionClosed then 409 else 500)"

record open_request =
  or_method :: string
  or_body :: "open_params option"
  or_lstat_ok :: bool

definition resolveAgentBundlePath :: "agent_env \<Rightarrow> string \<Rightarrow> bool \<Rightarrow> string \<Rightarrow> string option" where
  \<comment> \<open>the third argument: the path is no symbolic link and the directory and the path can be examined\<close>
  "resolveAgentBundlePath env dir lstat_ok requested =
     (case RootedRelativePath (ae_cwd env) dir (TrimSpace requested) of
        Inl _ \<Rightarrow> None
      | Inr rel \<Rightarrow>
          if \<not> lstat_ok then None
          else case path_Abs (ae_cwd env) dir of None \<Rightarrow> None | Some absolute \<Rightarrow> Some (path_Join [absolute, rel]))"

definition handleSessionOpen :: "agent_env \<Rightarrow> open_request \<Rightarrow> agent_state \<Rightarrow> agent_state \<times> nat" where
  "handleSessionOpen env req st =
     (if or_method req \<noteq> ''POST'' then (st, 405)
      else case or_body req of
             None \<Rightarrow> (st, 400)
           | Some b \<Rightarrow>
               let params = b\<lparr>op_ActorID := TrimSpace (op_ActorID b), op_PurposeTag := TrimSpace (op_PurposeTag b),
                              op_ProfileID := TrimSpace (op_ProfileID b), op_BundlePath := []\<rparr>;
                   resolved = (if TrimSpace (op_BundlePath b) = [] then Some params
                               else map_option (\<lambda>p. params\<lparr>op_BundlePath := p\<rparr>)
                                      (resolveAgentBundlePath env (dataDir st) (or_lstat_ok req) (op_BundlePath b)))
               in case resolved of
                    None \<Rightarrow> (st, 400)
                  | Some ps \<Rightarrow> (case OpenSession env ps st of (st', Inl _) \<Rightarrow> (st', 500) | (st', Inr _) \<Rightarrow> (st', 201)))"

definition handleSessionEvent :: "agent_env \<Rightarrow> string \<Rightarrow> string \<Rightarrow> pending_event option \<Rightarrow> agent_state \<Rightarrow> agent_state \<times> nat" where
  "handleSessionEvent env meth sid body st =
     (if meth \<noteq> ''POST'' then (st, 405)
      else if sid = [] then (st, 400)
      else case body of
             None \<Rightarrow> (st, 400)
           | Some ev \<Rightarrow>
               if TrimSpace (pe_EventType ev) = [] then (st, 400)
               else case AppendEvent env sid (ev\<lparr>pe_EventType := TrimSpace (pe_EventType ev)\<rparr>) st of
                      (st', Some e) \<Rightarrow> (st', agentErrorHTTP e)
                    | (st', None) \<Rightarrow> (st', 202))"

definition handleSessionClose :: "agent_env \<Rightarrow> string \<Rightarrow> string \<Rightarrow> bool \<Rightarrow> agent_state \<Rightarrow> agent_state \<times> nat" where
  "handleSessionClose env meth sid body_ok st =
     (if meth \<noteq> ''POST'' then (st, 405)
      else if sid = [] then (st, 400)
      else if \<not> body_ok then (st, 400)
      else case CloseSession env sid st of (st', Inl e) \<Rightarrow> (st', agentErrorHTTP e) | (st', Inr _) \<Rightarrow> (st', 200))"

end
