(* ===== verification/Agent_Props.thy ===== *)
theory Agent_Props
  imports Agent
begin

text \<open>
  Properties of the capture agent: containment of paths, soundness of the bundles in memory, durability of acknowledged
  events while paths are not shared, the loss of acknowledged events when they are, a close that cannot be repeated, and
  what the health endpoint reports.
\<close>

section \<open>Containment\<close>

lemma clean_elements_from: "set (fold (clean_element rooted) es kept) \<subseteq> set kept \<union> set es"
proof (induction es arbitrary: kept)
  case (Cons e es)
  have "set (clean_element rooted e kept) \<subseteq> insert e (set kept)" by (auto simp: clean_element_def split: list.splits if_splits)
  with Cons.IH [of "clean_element rooted e kept"] show ?case by auto
qed simp

lemma cleaned_parent_first: "cleaned rooted ks \<Longrightarrow> ''..'' \<in> set ks \<Longrightarrow> last ks = ''..''"
proof (induction ks)
  case (Cons k ks)
  show ?case
  proof (cases "ks = []")
    case False
    have "''..'' \<in> set ks" if "k = ''..''"
    proof -
      have "set ks \<subseteq> {''..''}" using Cons.prems(1) that by simp
      with False show ?thesis by (metis insert_iff last_in_set singletonD subset_iff)
    qed
    with Cons False show ?thesis by auto
  qed (use Cons.prems in auto)
qed simp

lemma Join_prefix: "es \<noteq> [] \<Longrightarrow> Join es [c] = hd es \<or> HasPrefix (Join es [c]) (hd es @ [c])"
  by (cases "(es, [c])" rule: Join.cases) (auto simp: HasPrefix_iff)

text \<open>A bundle path the agent accepts stays below the data directory: it is relative and cleaned, and no element of it is
  empty, a dot or a parent.\<close>

theorem rooted_path_inside:
  assumes "RootedRelativePath cwd dir p = Inr r"
  shows "\<not> HasPrefix r [sep] \<and> path_Clean r = r \<and> set (Split r sep) \<inter> {[], ''.'', ''..''} = {}"
proof -
  from assms obtain q where q: "path_IsLocal q" "path_Clean q \<noteq> ''.''" "r = path_Clean q"
    by (auto simp: RootedRelativePath_def split: option.splits if_splits)
  define ks where "ks = clean_elements_of q"
  have rel: "\<not> HasPrefix q [sep]" using q(1) by (simp add: path_IsLocal_def)
  then have c: "cleaned False ks" using cleaned_elements_of [of q] by (simp add: ks_def)
  have ne: "ks \<noteq> []" and r: "r = Join (rev ks) [sep]"
    using q(2,3) rel by (auto simp: path_Clean_elements Let_def ks_def split: if_splits)
  have el: "e \<noteq> [] \<and> e \<noteq> ''.'' \<and> sep \<notin> set e" if "e \<in> set ks" for e by (rule cleaned_elements [OF c that])
  have split: "Split r sep = rev ks" unfolding r by (rule Split_Join) (use ne el in auto)
  have top: "''..'' \<notin> set ks"
  proof
    assume up: "''..'' \<in> set ks"
    with cleaned_parent_first [OF c] ne have "hd (rev ks) = ''..''" by (simp add: hd_rev)
    with Join_prefix [of "rev ks" sep] ne r have "r = ''..'' \<or> HasPrefix r ''../''" by simp
    moreover have "list_ex (\<lambda>e. e = ''.'' \<or> e = ''..'') (Split q sep)"
      using up clean_elements_from [of False "Split q sep" "[]"] rel by (auto simp: ks_def clean_elements_of_def list_ex_iff)
    ultimately show False using q(1,3) by (auto simp: path_IsLocal_def Let_def)
  qed
  have "last ks \<noteq> []" "sep \<notin> set (last ks)" using el [of "last ks"] ne by auto
  then have "hd (last ks) \<noteq> sep" by (cases "last ks") auto
  then have "\<not> HasPrefix r [sep]"
    using Join_head [of "rev ks" sep] ne \<open>last ks \<noteq> []\<close> unfolding r by (cases "Join (rev ks) [sep]") (auto simp: hd_rev)
  with q(3) split el top show ?thesis by auto
qed

theorem rooted_path_inside_witness:
  "\<not> HasPrefix ''a/b.atb'' [sep] \<and> path_Clean ''a/b.atb'' = ''a/b.atb'' \<and>
    set (Split ''a/b.atb'' sep) \<inter> {[], ''.'', ''..''} = {}"
proof -
  have "RootedRelativePath (Some ''/w'') ''data'' ''/w/data/x/../a//b.atb'' = Inr ''a/b.atb''" by code_simp
  then show ?thesis by (rule rooted_path_inside)
qed

section \<open>Runs\<close>

datatype agent_call =
    CallOpen agent_env open_params
  | CallAppend agent_env string pending_event
  | CallClose agent_env string
  | CallShutdown

fun agent_do :: "agent_call \<Rightarrow> agent_state \<Rightarrow> agent_state" where
  "agent_do (CallOpen env params) st = fst (OpenSession env params st)"
| "agent_do (CallAppend env sid ev) st = fst (AppendEvent env sid ev st)"
| "agent_do (CallClose env sid) st = fst (CloseSession env sid st)"
| "agent_do CallShutdown st = agent_Shutdown st"

inductive agent_reach :: "agent_state \<Rightarrow> bool" where
  reach_new: "agent_reach (NewBundleFileManager dir fs)"
| reach_call: "agent_reach st \<Longrightarrow> agent_reach (agent_do c st)"

definition session_ok :: "file_session \<Rightarrow> bool" where
  "session_ok r =
     (Verify (fs_bundle r) = None \<and> Records (fs_bundle r) \<noteq> [] \<and> Type (Event (hd (Records (fs_bundle r)))) = ManifestEventType \<and>
      (\<not> fs_closed r \<longrightarrow> fs_eventCount r = nonManifestRecordCount (fs_bundle r)))"

lemma prefix_loop_pairs: "pairs (prefix_loop raws rs t) = pairs rs"
  by (induction raws rs t rule: prefix_loop.induct) (auto simp: set_snapshot_def split: list.splits prod.splits)

lemma saved_pairs [simp]: "pairs (setSourcePrefixHashes rs raw) = pairs rs"
  by (simp add: setSourcePrefixHashes_def prefix_loop_pairs)

lemma pairs_Verify:
  assumes "pairs (Records b) = pairs (Records b')" shows "(Verify b = None) = (Verify b' = None)"
proof -
  have "map Event (Records b) = map Event (Records b')"
    using arg_cong [OF assms, of "map fst"] by (simp add: comp_def)
  moreover from this have "hasManifestRecord (Records b) = hasManifestRecord (Records b')"
    by (cases "Records b"; cases "Records b'") (auto simp: hasManifestRecord_def)
  ultimately show ?thesis using assms by (simp add: Verify_None first_seq_def)
qed

lemma SaveRooted_cases:
  assumes "SaveRooted fault fs p b = (fs', res)"
  obtains (unchanged) e where "fs' = fs" "res = Inl e"
  | (unsynced) raw e where "save_lines (Records b) = Some raw" "fs' = fs(p \<mapsto> raw)" "res = Inl e"
  | (saved) raw b' where "save_lines (Records b) = Some raw" "fs' = fs(p \<mapsto> raw)" "res = Inr b'" "pairs (Records b') = pairs (Records b)"
  using assms
  by (auto simp: SaveRooted_def WriteAtomicRooted_def split: option.splits save_fault.splits prod.splits)

lemma LoadVerified_Inr:
  assumes "LoadVerified br raw = Inr b"
  shows "Verify b = None" "Records b \<noteq> []" "Type (Event (hd (Records b))) = ManifestEventType"
proof -
  from assms obtain b0 where "(if Records b0 = [] then Inl EmptyFile
      else if Type (Event (hd (Records b0))) \<noteq> ManifestEventType then Inl (FirstNotManifest (Type (Event (hd (Records b0)))))
      else case Verify b0 of Some e \<Rightarrow> Inl e | None \<Rightarrow> Inr b0) = Inr b"
    unfolding LoadVerified_def bind_res_eq_Inr by blast
  then show "Verify b = None" "Records b \<noteq> []" "Type (Event (hd (Records b))) = ManifestEventType"
    by (simp_all split: if_splits option.splits)
qed

lemma LoadRooted_Inr:
  assumes "LoadRooted br fs p = Inr b" shows "\<exists>raw. fs p = Some raw \<and> LoadVerified br raw = Inr b"
  using assms by (simp add: LoadRooted_def split: option.splits sum.splits)

lemma pairs_lists:
  assumes "pairs rs = pairs rs'"
  shows "map Event rs = map Event rs'" "save_lines rs = save_lines rs'" "rs = [] \<longleftrightarrow> rs' = []"
proof -
  show ev: "map Event rs = map Event rs'" using arg_cong [OF assms, of "map fst"] by (simp add: comp_def)
  show "rs = [] \<longleftrightarrow> rs' = []" using arg_cong [OF assms, of length] by auto
  show "save_lines rs = save_lines rs'"
    using assms
  proof (induction rs arbitrary: rs')
    case (Cons r rs)
    then obtain r' rest where "rs' = r' # rest" "Event r = Event r'" "Hash r = Hash r'" "pairs rs = pairs rest" by (cases rs') auto
    moreover from this have "record_json r = record_json r'" by (simp add: record_json_def)
    ultimately show ?case using Cons.IH [of rest] by (simp split: option.split)
  qed simp
qed

lemma pairs_shape:
  assumes "pairs (Records b) = pairs (Records b')"
  shows "Records b \<noteq> [] \<Longrightarrow> Type (Event (hd (Records b))) = Type (Event (hd (Records b')))"
    and "nonManifestRecordCount b = nonManifestRecordCount b'"
proof -
  note ev = pairs_lists(1) [OF assms]
  show "Type (Event (hd (Records b))) = Type (Event (hd (Records b')))" if "Records b \<noteq> []"
    using arg_cong [OF ev, of hd] that pairs_lists(3) [OF assms] by (simp add: hd_map)
  have "nonManifestRecordCount x = length (filter (\<lambda>e. Type e \<noteq> ManifestEventType) (map Event (Records x)))" for x
    by (simp add: nonManifestRecordCount_def filter_map comp_def)
  with ev show "nonManifestRecordCount b = nonManifestRecordCount b'" by (simp only:)
qed

lemma session_ok_pairs:
  assumes "pairs (Records (fs_bundle r)) = pairs (Records (fs_bundle r'))" "fs_closed r = fs_closed r'" "fs_eventCount r = fs_eventCount r'"
  shows "session_ok r = session_ok r'"
  using assms pairs_Verify [OF assms(1)] pairs_shape [OF assms(1)] pairs_lists(3) [OF assms(1)]
  by (auto simp: session_ok_def)

lemma health_frame [simp]:
  "sessions (recordHealthLocked e st) = sessions st" "agent_files (recordHealthLocked e st) = agent_files st"
  "dataDir (recordHealthLocked e st) = dataDir st"
  by (simp_all add: recordHealthLocked_def)

lemma agent_opened_cases:
  assumes "agent_opened env fs p = (fs', res)"
  obtains (refused) e where "res = Inl e" "fs' = fs \<or> fs p = None \<and> (\<exists>raw. fs' = fs(p \<mapsto> raw))"
  | (resumed) raw b where "fs' = fs" "fs p = Some raw" "LoadVerified (ae_bytes env) raw = Inr b"
      "res = Inr (b, manifestCreatedAt b, nonManifestRecordCount b)"
  | (created) b b' raw where "NewWithOptions (ae_created env) (ae_random env) \<lparr>no_ManifestVersion = 2, no_CaptureRunID = []\<rparr> = Inr b"
      "fs p = None" "fs' = fs(p \<mapsto> raw)" "save_lines (Records b) = Some raw" "pairs (Records b') = pairs (Records b)"
      "res = Inr (b', Some (ae_now env), 0)"
proof (cases "ae_stat_ok env")
  case False
  with assms refused show ?thesis by (auto simp: agent_opened_def)
next
  case stat: True
  show ?thesis
  proof (cases "fs p")
    case (Some raw)
    then show ?thesis
      using assms stat refused resumed by (auto simp: agent_opened_def LoadRooted_def split: sum.splits)
  next
    case None
    show ?thesis
    proof (cases "NewWithOptions (ae_created env) (ae_random env) \<lparr>no_ManifestVersion = 2, no_CaptureRunID = []\<rparr>")
      case (Inl e)
      with None stat assms refused show ?thesis by (auto simp: agent_opened_def)
    next
      case (Inr b)
      obtain fs1 r1 where sv: "SaveRooted (ae_save env) fs p b = (fs1, r1)" by fastforce
      from sv show ?thesis
      proof (cases rule: SaveRooted_cases)
        case (saved raw b')
        with None stat assms Inr sv created [of b raw b'] show ?thesis by (auto simp: agent_opened_def)
      qed (use None stat assms Inr sv refused in \<open>auto simp: agent_opened_def\<close>)
    qed
  qed
qed

lemma open_session_cases:
  assumes "open_session env params st = (st', res)"
  obtains (refused) e where "res = Inl e" "sessions st' = sessions st"
      "agent_files st' = agent_files st \<or> (\<exists>p raw. agent_files st p = None \<and> agent_files st' = (agent_files st)(p \<mapsto> raw))"
  | (opened) sid p fs' b created n where "res = Inr sid" "newSessionID (ae_id env) = Inr sid"
      "agent_opened env (agent_files st) p = (fs', Inr (b, created, n))" "agent_files st' = fs'"
      "sessions st' = (sessions st)(sid \<mapsto>
         \<lparr>fs_params = params, fs_bundlePath = p, fs_bundle = b, fs_eventCount = n, fs_createdAt = created, fs_closed = False, fs_closedAt = 0\<rparr>)"
proof -
  obtain st1 ok where root: "openRoot env st = (st1, ok)" by fastforce
  have st1: "sessions st1 = sessions st" "agent_files st1 = agent_files st"
    using root by (auto simp: openRoot_def split: option.splits)
  consider (early) e where "st' = st1" "res = Inl e"
    | (tried) sid p fs' r where "newSessionID (ae_id env) = Inr sid" "agent_opened env (agent_files st1) p = (fs', r)"
        "(case r of Inl e \<Rightarrow> (st1\<lparr>agent_files := fs'\<rparr>, Inl e)
          | Inr (b, created, n) \<Rightarrow> (st1\<lparr>agent_files := fs', sessions := (sessions st1)(sid \<mapsto>
             \<lparr>fs_params = params, fs_bundlePath = p, fs_bundle = b, fs_eventCount = n, fs_createdAt = created,
              fs_closed = False, fs_closedAt = 0\<rparr>)\<rparr>, Inr sid)) = (st', res)"
  proof (cases "newSessionID (ae_id env)")
    case (Inl e)
    show ?thesis
      by (rule early [of "if ok then e else RootError"]) (use assms root Inl in \<open>auto simp: open_session_def split: if_splits\<close>)
  next
    case (Inr sid)
    define p1 where "p1 = (if TrimSpace (op_BundlePath params) = [] then path_Join [''sessions'', sid, ''bundle.atb''] else TrimSpace (op_BundlePath params))"
    show ?thesis
    proof (cases "RootedRelativePath (ae_cwd env) (dataDir st1) p1")
      case (Inl e)
      show ?thesis
        by (rule early [of "if ok then PathError e else RootError"])
          (use assms root Inr Inl in \<open>auto simp: open_session_def Let_def p1_def split: if_splits\<close>)
    next
      case inr: (Inr p)
      obtain fs' r where o: "agent_opened env (agent_files st1) p = (fs', r)" by fastforce
      show ?thesis
      proof (cases ok)
        case False
        with assms root early show ?thesis by (auto simp: open_session_def)
      next
        case True
        show ?thesis
          by (rule tried [OF Inr o]) (use assms root Inr inr o True in \<open>cases r; auto simp: open_session_def Let_def p1_def\<close>)
      qed
    qed
  qed
  then show ?thesis
  proof cases
    case early
    with st1 refused show ?thesis by auto
  next
    case (tried sid p fs' r)
    show ?thesis
    proof (cases r)
      case (Inl e)
      have "fs' = agent_files st \<or> (\<exists>p raw. agent_files st p = None \<and> fs' = (agent_files st)(p \<mapsto> raw))"
        using tried(2) unfolding st1(2) by (cases rule: agent_opened_cases) (use Inl in auto)
      moreover have "st' = st1\<lparr>agent_files := fs'\<rparr>" "res = Inl e" using tried(3) Inl by auto
      ultimately show ?thesis using st1 by (intro refused [of e]) auto
    next
      case (Inr x)
      with tried st1 opened [of sid p fs'] show ?thesis by (auto split: prod.splits)
    qed
  qed
qed

lemma append_event_cases:
  assumes "append_event env sid ev st = (st', err)"
  obtains (rejected) "st' = st" "err \<noteq> None"
  | (unsaved) r nxt fs' e where "sessions st sid = Some r" "\<not> fs_closed r"
      "AppendWithOptions (fs_bundle r) agentRawEventType (pendingEventData ev) (appendOptionsForSession (fs_params r)) = Inr nxt"
      "SaveRooted (ae_save env) (agent_files st) (fs_bundlePath r) nxt = (fs', Inl e)" "st' = st\<lparr>agent_files := fs'\<rparr>" "err \<noteq> None"
  | (appended) r nxt fs' nxt' where "sessions st sid = Some r" "\<not> fs_closed r"
      "AppendWithOptions (fs_bundle r) agentRawEventType (pendingEventData ev) (appendOptionsForSession (fs_params r)) = Inr nxt"
      "SaveRooted (ae_save env) (agent_files st) (fs_bundlePath r) nxt = (fs', Inr nxt')"
      "st' = st\<lparr>agent_files := fs', sessions := (sessions st)(sid \<mapsto> r\<lparr>fs_bundle := nxt', fs_eventCount := fs_eventCount r + 1\<rparr>)\<rparr>"
      "err = None"
proof (cases "sessions st sid")
  case None
  with assms rejected show ?thesis by (auto simp: append_event_def)
next
  case (Some r)
  show ?thesis
  proof (cases "fs_closed r")
    case True
    with Some assms rejected show ?thesis by (auto simp: append_event_def)
  next
    case live: False
    show ?thesis
    proof (cases "AppendWithOptions (fs_bundle r) agentRawEventType (pendingEventData ev) (appendOptionsForSession (fs_params r))")
      case (Inl e)
      with Some live assms rejected show ?thesis by (auto simp: append_event_def)
    next
      case (Inr nxt)
      obtain fs' res where sv: "SaveRooted (ae_save env) (agent_files st) (fs_bundlePath r) nxt = (fs', res)" by fastforce
      note eval = assms [unfolded append_event_def Some option.case live if_False Inr sum.case sv prod.case]
      show ?thesis
      proof (cases res)
        case (Inl e)
        show ?thesis by (rule unsaved [OF Some live Inr, of fs' e]) (use sv eval live Inl in auto)
      next
        case inr: (Inr nxt')
        show ?thesis by (rule appended [OF Some live Inr, of fs' nxt']) (use sv eval live inr in auto)
      qed
    qed
  qed
qed

lemma close_session_cases:
  assumes "close_session env sid st = (st', res)"
  obtains (rejected) e where "st' = st" "res = Inl e" "e \<in> {ErrSessionNotFound, ErrSessionClosed}"
  | (unsaved) r fs' e where "sessions st sid = Some r" "\<not> fs_closed r"
      "SaveRooted (ae_save env) (agent_files st) (fs_bundlePath r) (fs_bundle r) = (fs', Inl e)" "st' = st\<lparr>agent_files := fs'\<rparr>" "res = Inl (SaveOnClose e)"
  | (unverified) r fs' b' e where "sessions st sid = Some r" "\<not> fs_closed r"
      "SaveRooted (ae_save env) (agent_files st) (fs_bundlePath r) (fs_bundle r) = (fs', Inr b')"
      "st' = st\<lparr>agent_files := fs', sessions := (sessions st)(sid \<mapsto> r\<lparr>fs_bundle := b'\<rparr>)\<rparr>" "res = Inl (VerifyOnClose e)"
  | (closed) r fs' b' verified fs'' meta ok where "sessions st sid = Some r" "\<not> fs_closed r"
      "SaveRooted (ae_save env) (agent_files st) (fs_bundlePath r) (fs_bundle r) = (fs', Inr b')"
      "LoadRooted (ae_bytes env) fs' (fs_bundlePath r) = Inr verified"
      "writeSessionMeta env fs' meta = (fs'', ok)" "bm_SessionID meta = sid" "bm_EventCount meta = fs_eventCount r"
      "bm_HeadHash meta = custody_HeadHash verified" "res = (if ok then Inr meta else Inl MetaError)"
      "st' = st\<lparr>agent_files := fs'', sessions := (sessions st)(sid \<mapsto> r\<lparr>fs_closed := True, fs_closedAt := ae_now env, fs_bundle := verified\<rparr>)\<rparr>"
proof (cases "sessions st sid")
  case None
  with assms rejected show ?thesis by (auto simp: close_session_def)
next
  case (Some r)
  show ?thesis
  proof (cases "fs_closed r")
    case True
    with Some assms rejected show ?thesis by (auto simp: close_session_def)
  next
    case live: False
    obtain fs' res' where sv: "SaveRooted (ae_save env) (agent_files st) (fs_bundlePath r) (fs_bundle r) = (fs', res')" by fastforce
    note eval = assms [unfolded close_session_def Some option.case live if_False sv prod.case]
    show ?thesis
    proof (cases res')
      case (Inl e)
      show ?thesis by (rule unsaved [OF Some live, of fs' e]) (use sv eval live Inl in auto)
    next
      case (Inr b')
      show ?thesis
      proof (cases "LoadRooted (ae_bytes env) fs' (fs_bundlePath r)")
        case (Inl e)
        show ?thesis by (rule unverified [OF Some live, of fs' b' e]) (use sv eval live Inl Inr in auto)
      next
        case inr: (Inr verified)
        define meta where "meta = \<lparr>bm_SessionID = sid, bm_Path = path_Join [dataDir st, fs_bundlePath r],
          bm_ProfileID = op_ProfileID (fs_params r), bm_HeadHash = custody_HeadHash verified,
          bm_EventCount = fs_eventCount r, bm_CreatedAt = fs_createdAt r, bm_ClosedAt = ae_now env\<rparr>"
        obtain fs'' ok where wr: "writeSessionMeta env fs' meta = (fs'', ok)" by fastforce
        show ?thesis
          by (rule closed [OF Some live, of fs' b' verified meta fs'' ok])
            (use sv eval live Inr inr wr in \<open>auto simp: meta_def Let_def\<close>)
      qed
    qed
  qed
qed

lemma append_type [simp]: "agentRawEventType \<noteq> ManifestEventType"
  by (simp add: agentRawEventType_def ManifestEventType_def)

lemma append_record:
  assumes "AppendWithOptions b agentRawEventType d o' = Inr b'"
  obtains x where "Records b' = Records b @ [x]" "Type (Event x) = agentRawEventType" "Data (Event x) = d"
proof -
  have e: "Type (next_event b agentRawEventType d o') = agentRawEventType" "Data (next_event b agentRawEventType d o') = d"
    by (simp_all add: next_event_def apply_options_def Let_def zero_event_def split: option.splits)
  from assms have "Records b' = Records b @ [new_record (next_event b agentRawEventType d o') (event_hash (next_event b agentRawEventType d o'))]"
    by (simp add: AppendWithOptions_Inr)
  then show ?thesis
    by (rule that [of "new_record (next_event b agentRawEventType d o') (event_hash (next_event b agentRawEventType d o'))"])
      (use e in \<open>auto simp: new_record_def\<close>)
qed

lemma session_ok_new:
  assumes "NewWithOptions t rnd opts = Inr b" "pairs (Records b') = pairs (Records b)"
    and "fs_bundle r = b'" "fs_eventCount r = 0"
  shows "session_ok r"
proof -
  obtain d where "AppendWithOptions \<lparr>Records = []\<rparr> ManifestEventType d (Some (timestamp_options t)) = Inr b"
    by (rule NewWithOptions_Append [OF assms(1)])
  then obtain x where "Records b = [x]" "Type (Event x) = ManifestEventType"
    by (auto simp: AppendWithOptions_Inr new_record_def next_event_def apply_options_def timestamp_options_def Let_def zero_event_def)
  then have "session_ok (r\<lparr>fs_bundle := b\<rparr>)"
    using NewWithOptions_verifies [OF assms(1)] assms(4) by (simp add: session_ok_def nonManifestRecordCount_def)
  then show ?thesis using session_ok_pairs [of r "r\<lparr>fs_bundle := b\<rparr>"] assms(2,3) by simp
qed

lemma session_ok_append:
  assumes "session_ok r" "\<not> fs_closed r" "AppendWithOptions (fs_bundle r) agentRawEventType d o' = Inr nxt"
    and "pairs (Records nxt') = pairs (Records nxt)"
  shows "session_ok (r\<lparr>fs_bundle := nxt', fs_eventCount := fs_eventCount r + 1\<rparr>)"
proof -
  obtain x where x: "Records nxt = Records (fs_bundle r) @ [x]" "Type (Event x) = agentRawEventType"
    by (rule append_record [OF assms(3)])
  have "Verify nxt = None" using assms(1) by (intro append_verifies [OF _ assms(3)]) (simp add: session_ok_def)
  then have "session_ok (r\<lparr>fs_bundle := nxt, fs_eventCount := fs_eventCount r + 1\<rparr>)"
    using assms(1,2) x by (auto simp: session_ok_def nonManifestRecordCount_def)
  then show ?thesis
    using session_ok_pairs [of "r\<lparr>fs_bundle := nxt', fs_eventCount := fs_eventCount r + 1\<rparr>" "r\<lparr>fs_bundle := nxt, fs_eventCount := fs_eventCount r + 1\<rparr>"]
      assms(4) by simp
qed

lemma session_ok_loaded:
  assumes "LoadVerified br raw = Inr b" "fs_bundle r = b" "fs_closed r \<or> fs_eventCount r = nonManifestRecordCount b"
  shows "session_ok r"
  using LoadVerified_Inr [OF assms(1)] assms(2,3) by (auto simp: session_ok_def)

definition sessions_ok :: "agent_state \<Rightarrow> bool" where
  "sessions_ok st = (\<forall>sid r. sessions st sid = Some r \<longrightarrow> session_ok r)"

lemma sessions_okI: "(\<And>sid r. sessions st sid = Some r \<Longrightarrow> session_ok r) \<Longrightarrow> sessions_ok st"
  by (simp add: sessions_ok_def)

lemma sessions_ok_upd:
  assumes "sessions_ok st" "sessions st' = (sessions st)(sid \<mapsto> r)" "session_ok r" shows "sessions_ok st'"
  using assms by (auto simp: sessions_ok_def)

lemma sessions_ok_same: "sessions_ok st \<Longrightarrow> sessions st' = sessions st \<Longrightarrow> sessions_ok st'"
  by (simp add: sessions_ok_def)

lemma open_sessions_ok:
  assumes "sessions_ok st" "open_session env params st = (st', res)" shows "sessions_ok st'"
  using assms(2)
proof (cases rule: open_session_cases)
  case (refused e)
  with assms(1) show ?thesis by (auto intro: sessions_ok_same)
next
  case (opened sid p fs' b created n)
  have "session_ok \<lparr>fs_params = params, fs_bundlePath = p, fs_bundle = b, fs_eventCount = n, fs_createdAt = created,
      fs_closed = False, fs_closedAt = 0\<rparr>"
    using opened(3)
  proof (cases rule: agent_opened_cases)
    case (resumed raw b0)
    then show ?thesis by (intro session_ok_loaded [OF resumed(3)]) auto
  next
    case (created b0 b1 raw)
    then show ?thesis by (intro session_ok_new [OF created(1)]) auto
  qed auto
  then show ?thesis by (rule sessions_ok_upd [OF assms(1) opened(5)])
qed

lemma append_sessions_ok:
  assumes "sessions_ok st" "append_event env sid ev st = (st', err)" shows "sessions_ok st'"
  using assms(2)
proof (cases rule: append_event_cases)
  case (appended r nxt fs' nxt')
  have "session_ok r" using assms(1) appended(1) by (auto simp: sessions_ok_def)
  moreover have "pairs (Records nxt') = pairs (Records nxt)" using appended(4) by (cases rule: SaveRooted_cases) auto
  ultimately have "session_ok (r\<lparr>fs_bundle := nxt', fs_eventCount := fs_eventCount r + 1\<rparr>)"
    by (intro session_ok_append [OF _ appended(2,3)])
  then show ?thesis by (intro sessions_ok_upd [OF assms(1)]) (simp_all add: appended(5))
qed (use assms(1) in \<open>auto intro: sessions_ok_same\<close>)

lemma close_sessions_ok:
  assumes "sessions_ok st" "close_session env sid st = (st', res)" shows "sessions_ok st'"
  using assms(2)
proof (cases rule: close_session_cases)
  case (unverified r fs' b' e)
  have "session_ok r" using assms(1) unverified(1) by (auto simp: sessions_ok_def)
  moreover have "pairs (Records b') = pairs (Records (fs_bundle r))" using unverified(3) by (cases rule: SaveRooted_cases) auto
  ultimately have "session_ok (r\<lparr>fs_bundle := b'\<rparr>)" using session_ok_pairs [of "r\<lparr>fs_bundle := b'\<rparr>" r] by simp
  then show ?thesis by (intro sessions_ok_upd [OF assms(1)]) (simp_all add: unverified(4))
next
  case (closed r fs' b' verified fs'' meta ok)
  obtain raw where "LoadVerified (ae_bytes env) raw = Inr verified" using LoadRooted_Inr [OF closed(4)] by auto
  then have "session_ok (r\<lparr>fs_closed := True, fs_closedAt := ae_now env, fs_bundle := verified\<rparr>)"
    by (rule session_ok_loaded) auto
  then show ?thesis by (intro sessions_ok_upd [OF assms(1)]) (simp_all add: closed(10))
qed (use assms(1) in \<open>auto intro: sessions_ok_same\<close>)

lemma agent_do_ok: "sessions_ok st \<Longrightarrow> sessions_ok (agent_do c st)"
proof (cases c)
  case (CallOpen env params)
  assume ok: "sessions_ok st"
  obtain st' res where "open_session env params st = (st', res)" by fastforce
  with open_sessions_ok [OF ok this] CallOpen show ?thesis by (auto simp: OpenSession_def intro: sessions_ok_same)
next
  case (CallAppend env sid ev)
  assume ok: "sessions_ok st"
  obtain st' err where "append_event env sid ev st = (st', err)" by fastforce
  with append_sessions_ok [OF ok this] CallAppend show ?thesis by (auto simp: AppendEvent_def intro: sessions_ok_same)
next
  case (CallClose env sid)
  assume ok: "sessions_ok st"
  obtain st' res where "close_session env sid st = (st', res)" by fastforce
  with close_sessions_ok [OF ok this] CallClose show ?thesis by (auto simp: CloseSession_def intro: sessions_ok_same)
qed (auto simp: sessions_ok_def agent_Shutdown_def)

text \<open>C34: in every state the agent can reach, whatever the calls, their order and the faults, the bundle of every session in
  memory verifies, starts with a manifest record, and the event count of an open session is the number of its
  events.\<close>

theorem agent_bundles_sound:
  assumes "agent_reach st" "sessions st sid = Some r"
  shows "Verify (fs_bundle r) = None \<and> Records (fs_bundle r) \<noteq> [] \<and>
    Type (Event (hd (Records (fs_bundle r)))) = ManifestEventType \<and>
    (fs_closed r \<or> fs_eventCount r = nonManifestRecordCount (fs_bundle r))"
proof -
  from assms(1) have "sessions_ok st"
  proof induction
    case (reach_new dir fs)
    then show ?case by (simp add: sessions_ok_def NewBundleFileManager_def)
  qed (rule agent_do_ok)
  with assms(2) show ?thesis by (auto simp: sessions_ok_def session_ok_def)
qed

section \<open>Acknowledged events\<close>

definition stored :: "string \<Rightarrow> bundle_record list \<Rightarrow> bool" where
  \<comment> \<open>a file that the records were saved as, or loaded from\<close>
  "stored raw rs = (save_lines rs = Some raw \<or> (\<exists>br b. LoadVerified br raw = Inr b \<and> Records b = rs))"

definition durable :: "files \<Rightarrow> file_session \<Rightarrow> bool" where
  \<comment> \<open>the file of the session holds its records and at most one that was not acknowledged\<close>
  "durable fs r = (\<exists>raw extra. fs (fs_bundlePath r) = Some raw \<and> length extra \<le> 1 \<and> stored raw (Records (fs_bundle r) @ extra))"

definition exclusive :: "agent_state \<Rightarrow> bool" where
  \<comment> \<open>no two open sessions have one path, and no open session has the path of a metadata file\<close>
  "exclusive st =
     (\<forall>i r. sessions st i = Some r \<and> \<not> fs_closed r \<longrightarrow>
        (\<forall>j r'. sessions st j = Some r' \<longrightarrow>
           meta_path j \<noteq> fs_bundlePath r \<and> (\<not> fs_closed r' \<and> fs_bundlePath r' = fs_bundlePath r \<longrightarrow> j = i)))"

definition all_durable :: "agent_state \<Rightarrow> bool" where
  "all_durable st = (\<forall>sid r. sessions st sid = Some r \<longrightarrow> \<not> fs_closed r \<longrightarrow> durable (agent_files st) r)"

lemma durable_frame: "durable fs r \<Longrightarrow> fs' (fs_bundlePath r) = fs (fs_bundlePath r) \<Longrightarrow> durable fs' r"
  by (simp add: durable_def)

lemma durable_saved:
  assumes "fs (fs_bundlePath r) = Some raw" "save_lines (Records b @ extra) = Some raw" "length extra \<le> 1"
    and "pairs (Records (fs_bundle r)) = pairs (Records b)"
  shows "durable fs r"
proof -
  have "pairs (Records (fs_bundle r) @ extra) = pairs (Records b @ extra)" using assms(4) by simp
  from pairs_lists(2) [OF this] assms show ?thesis by (auto simp: durable_def stored_def)
qed

lemma all_durable_write:
  assumes ex: "exclusive st" and d: "all_durable st" and s: "sessions st sid = Some r" "\<not> fs_closed r"
    and p: "\<And>q. q \<noteq> fs_bundlePath r \<Longrightarrow> fs' q = agent_files st q"
    and st': "agent_files st' = fs'" "\<And>j. j \<noteq> sid \<Longrightarrow> sessions st' j = sessions st j"
    and own: "\<And>r'. sessions st' sid = Some r' \<Longrightarrow> \<not> fs_closed r' \<Longrightarrow> durable fs' r'"
  shows "all_durable st'"
  unfolding all_durable_def
proof (intro allI impI)
  fix j r'
  assume j: "sessions st' j = Some r'" "\<not> fs_closed r'"
  show "durable (agent_files st') r'"
  proof (cases "j = sid")
    case True
    with own j st'(1) show ?thesis by simp
  next
    case False
    then have j': "sessions st j = Some r'" using j st'(2) by simp
    have "fs_bundlePath r' \<noteq> fs_bundlePath r" using ex s j' j(2) False unfolding exclusive_def by blast
    with p d j' j(2) st'(1) show ?thesis by (auto simp: all_durable_def intro: durable_frame)
  qed
qed

lemma open_durable:
  assumes "all_durable st" "open_session env params st = (st', res)" shows "all_durable st'"
  using assms(2)
proof (cases rule: open_session_cases)
  case (refused e)
  have "agent_files st' (fs_bundlePath r) = agent_files st (fs_bundlePath r)" if "durable (agent_files st) r" for r
    using refused(3) that by (auto simp: durable_def)
  with refused(2) assms(1) show ?thesis by (auto simp: all_durable_def intro: durable_frame)
next
  case (opened sid p fs' b created n)
  let ?r = "\<lparr>fs_params = params, fs_bundlePath = p, fs_bundle = b, fs_eventCount = n, fs_createdAt = created,
      fs_closed = False, fs_closedAt = 0\<rparr>"
  have new: "durable fs' ?r \<and> (\<forall>q. agent_files st q \<noteq> None \<longrightarrow> fs' q = agent_files st q)"
    using opened(3)
  proof (cases rule: agent_opened_cases)
    case (resumed raw b0)
    then have "durable fs' ?r" unfolding durable_def stored_def by (intro exI [of _ raw] exI [of _ "[]"]) auto
    with resumed show ?thesis by simp
  next
    case (created b0 b1 raw)
    then have "durable fs' ?r" by (intro durable_saved [of _ _ raw b0 "[]"]) auto
    with created show ?thesis by auto
  qed auto
  show ?thesis
    unfolding all_durable_def
  proof (intro allI impI)
    fix j r'
    assume j: "sessions st' j = Some r'" "\<not> fs_closed r'"
    show "durable (agent_files st') r'"
    proof (cases "j = sid")
      case True
      with j opened(4,5) new show ?thesis by auto
    next
      case False
      with j opened(5) assms(1) have "durable (agent_files st) r'" by (auto simp: all_durable_def)
      moreover from this have "agent_files st (fs_bundlePath r') \<noteq> None" by (auto simp: durable_def)
      ultimately show ?thesis using new opened(4) by (auto intro: durable_frame)
    qed
  qed
qed

lemma append_durable:
  assumes "exclusive st" "all_durable st" "append_event env sid ev st = (st', err)" shows "all_durable st'"
  using assms(3)
proof (cases rule: append_event_cases)
  case (unsaved r nxt fs' e)
  obtain x where x: "Records nxt = Records (fs_bundle r) @ [x]" by (rule append_record [OF unsaved(3)])
  from unsaved(4) show ?thesis
  proof (cases rule: SaveRooted_cases)
    case (unchanged e')
    with unsaved(5) assms(2) show ?thesis by simp
  next
    case (unsynced raw e')
    have "durable fs' r" using unsynced x by (intro durable_saved [of _ _ raw "fs_bundle r" "[x]"]) auto
    then show ?thesis
      using unsynced unsaved(5) by (intro all_durable_write [OF assms(1,2) unsaved(1,2), of fs']) (auto simp: unsaved(1))
  qed auto
next
  case (appended r nxt fs' nxt')
  from appended(4) show ?thesis
  proof (cases rule: SaveRooted_cases)
    case (saved raw b')
    have "durable fs' (r\<lparr>fs_bundle := nxt', fs_eventCount := fs_eventCount r + 1\<rparr>)"
      using saved by (intro durable_saved [of _ _ raw nxt "[]"]) auto
    then show ?thesis
      using saved appended(5) by (intro all_durable_write [OF assms(1,2) appended(1,2), of fs']) auto
  qed auto
qed (use assms(2) in auto)

lemma close_durable:
  assumes "exclusive st" "all_durable st" "close_session env sid st = (st', res)" shows "all_durable st'"
  using assms(3)
proof (cases rule: close_session_cases)
  case (unsaved r fs' e)
  from unsaved(3) show ?thesis
  proof (cases rule: SaveRooted_cases)
    case (unsynced raw e')
    have "durable fs' r" using unsynced by (intro durable_saved [of _ _ raw "fs_bundle r" "[]"]) auto
    then show ?thesis
      using unsynced unsaved(4) by (intro all_durable_write [OF assms(1,2) unsaved(1,2), of fs']) (auto simp: unsaved(1))
  qed (use unsaved(4) assms(2) in auto)
next
  case (unverified r fs' b' e)
  from unverified(3) show ?thesis
  proof (cases rule: SaveRooted_cases)
    case (saved raw b'')
    have "durable fs' (r\<lparr>fs_bundle := b'\<rparr>)" using saved by (intro durable_saved [of _ _ raw "fs_bundle r" "[]"]) auto
    then show ?thesis
      using saved unverified(4) by (intro all_durable_write [OF assms(1,2) unverified(1,2), of fs']) auto
  qed auto
next
  case (closed r fs' b' verified fs'' meta ok)
  define st1 where "st1 = st\<lparr>agent_files := fs', sessions := (sessions st)(sid \<mapsto>
    r\<lparr>fs_closed := True, fs_closedAt := ae_now env, fs_bundle := verified\<rparr>)\<rparr>"
  have "fs' q = agent_files st q" if "q \<noteq> fs_bundlePath r" for q using closed(3) that by (cases rule: SaveRooted_cases) auto
  then have d1: "all_durable st1"
    by (intro all_durable_write [OF assms(1,2) closed(1,2), of fs']) (auto simp: st1_def)
  have st': "sessions st' = sessions st1" "agent_files st' = fs''" by (simp_all add: closed(10) st1_def)
  have meta: "fs'' q = fs' q" if "q \<noteq> meta_path sid" for q
    using closed(5,6) that by (auto simp: writeSessionMeta_def WriteAtomicRooted_def split: save_fault.splits)
  have "agent_files st' (fs_bundlePath r') = agent_files st1 (fs_bundlePath r')"
    if "sessions st1 j = Some r'" "\<not> fs_closed r'" for j r'
  proof -
    have "sessions st j = Some r'" using that by (auto simp: st1_def split: if_splits)
    then have "meta_path sid \<noteq> fs_bundlePath r'" using assms(1) that(2) closed(1) unfolding exclusive_def by blast
    then show ?thesis using meta st'(2) by (auto simp: st1_def)
  qed
  with d1 st'(1) durable_frame [of "agent_files st1" _ "agent_files st'"] show ?thesis unfolding all_durable_def by metis
qed (use assms(2) in auto)

lemma agent_do_durable:
  assumes "exclusive st" "all_durable st" shows "all_durable (agent_do c st)"
proof (cases c)
  case (CallOpen env params)
  obtain st' res where "open_session env params st = (st', res)" by fastforce
  with open_durable [OF assms(2) this] CallOpen show ?thesis by (simp add: OpenSession_def all_durable_def)
next
  case (CallAppend env sid ev)
  obtain st' err where "append_event env sid ev st = (st', err)" by fastforce
  with append_durable [OF assms this] CallAppend show ?thesis by (simp add: AppendEvent_def all_durable_def)
next
  case (CallClose env sid)
  obtain st' res where "close_session env sid st = (st', res)" by fastforce
  with close_durable [OF assms this] CallClose show ?thesis by (simp add: CloseSession_def all_durable_def)
qed (simp add: all_durable_def agent_Shutdown_def)

fun acked :: "string \<Rightarrow> agent_call list \<Rightarrow> agent_state \<Rightarrow> any list" where
  \<comment> \<open>the payloads of the session that a run acknowledges\<close>
  "acked sid [] st = []"
| "acked sid (c # cs) st =
     (case c of
        CallAppend env i ev \<Rightarrow> if i = sid \<and> snd (AppendEvent env i ev st) = None then [pendingEventData ev] else []
      | _ \<Rightarrow> []) @ acked sid cs (agent_do c st)"

fun runs_exclusive :: "agent_call list \<Rightarrow> agent_state \<Rightarrow> bool" where
  "runs_exclusive [] st = True"
| "runs_exclusive (c # cs) st = (exclusive st \<and> runs_exclusive cs (agent_do c st))"

definition spares :: "string \<Rightarrow> agent_call \<Rightarrow> bool" where
  \<comment> \<open>no shutdown, and the random identifier is not that of the session\<close>
  "spares sid c = (case c of CallShutdown \<Rightarrow> False | CallOpen env _ \<Rightarrow> newSessionID (ae_id env) \<noteq> Inr sid | _ \<Rightarrow> True)"

definition payloads :: "file_session \<Rightarrow> any list" where
  "payloads r = map (\<lambda>x. Data (Event x)) (Records (fs_bundle r))"

lemma payloads_pairs:
  assumes "pairs (Records (fs_bundle r)) = pairs (Records b)" shows "payloads r = map (\<lambda>x. Data (Event x)) (Records b)"
proof -
  have "map Data (map Event (Records (fs_bundle r))) = map Data (map Event (Records b))"
    by (simp only: pairs_lists(1) [OF assms])
  then show ?thesis by (simp add: payloads_def comp_def)
qed

lemma agent_do_payloads:
  assumes "sessions st sid = Some r" "spares sid c"
  shows "\<exists>r'. sessions (agent_do c st) sid = Some r' \<and> fs_bundlePath r' = fs_bundlePath r \<and>
    (\<not> fs_closed r' \<longrightarrow> \<not> fs_closed r \<and> payloads r' = payloads r @ acked sid [c] st)"
proof (cases c)
  case (CallOpen env params)
  obtain st' res where o: "open_session env params st = (st', res)" by fastforce
  then have "sessions st' sid = Some r"
    by (cases rule: open_session_cases) (use assms CallOpen in \<open>auto simp: spares_def\<close>)
  with CallOpen o show ?thesis by (simp add: OpenSession_def)
next
  case (CallAppend env i ev)
  obtain st' err where a: "append_event env i ev st = (st', err)" by fastforce
  have ack: "acked sid [c] st = (if i = sid \<and> err = None then [pendingEventData ev] else [])"
    by (simp add: CallAppend AppendEvent_def a)
  from a have "\<exists>r'. sessions st' sid = Some r' \<and> fs_bundlePath r' = fs_bundlePath r \<and>
      (\<not> fs_closed r' \<longrightarrow> \<not> fs_closed r \<and> payloads r' = payloads r @ acked sid [c] st)"
  proof (cases rule: append_event_cases)
    case (appended r0 nxt fs' nxt')
    show ?thesis
    proof (cases "i = sid")
      case True
      obtain x where x: "Records nxt = Records (fs_bundle r) @ [x]" "Data (Event x) = pendingEventData ev"
        using append_record [OF appended(3)] appended(1) assms(1) True by auto
      have "pairs (Records nxt') = pairs (Records nxt)" using appended(4) by (cases rule: SaveRooted_cases) auto
      then have "payloads (r\<lparr>fs_bundle := nxt', fs_eventCount := fs_eventCount r + 1\<rparr>) = payloads r @ [pendingEventData ev]"
        using payloads_pairs [of "r\<lparr>fs_bundle := nxt', fs_eventCount := fs_eventCount r + 1\<rparr>" nxt] x by (simp add: payloads_def)
      with appended True assms(1) ack show ?thesis by auto
    qed (use appended assms(1) ack in auto)
  qed (use assms(1) ack in auto)
  with CallAppend a show ?thesis by (simp add: AppendEvent_def)
next
  case (CallClose env i)
  obtain st' res where a: "close_session env i st = (st', res)" by fastforce
  then have "\<exists>r'. sessions st' sid = Some r' \<and> fs_bundlePath r' = fs_bundlePath r \<and>
      (\<not> fs_closed r' \<longrightarrow> \<not> fs_closed r \<and> payloads r' = payloads r)"
  proof (cases rule: close_session_cases)
    case (unverified r0 fs' b' e)
    have "pairs (Records b') = pairs (Records (fs_bundle r0))" using unverified(3) by (cases rule: SaveRooted_cases) auto
    then have "payloads (r0\<lparr>fs_bundle := b'\<rparr>) = payloads r0"
      using payloads_pairs [of "r0\<lparr>fs_bundle := b'\<rparr>" "fs_bundle r0"] by (simp add: payloads_def)
    with unverified assms(1) show ?thesis by auto
  qed (use assms(1) in auto)
  with CallClose a show ?thesis by (simp add: CloseSession_def)
qed (use assms(2) in \<open>simp add: spares_def\<close>)

inductive private_reach :: "agent_state \<Rightarrow> bool" where
  \<comment> \<open>reachable while no two open sessions share a path and none has the path of a metadata file\<close>
  private_new: "private_reach (NewBundleFileManager dir fs)"
| private_call: "private_reach st \<Longrightarrow> exclusive st \<Longrightarrow> private_reach (agent_do c st)"

lemma private_durable: "private_reach st \<Longrightarrow> all_durable st"
proof (induction rule: private_reach.induct)
  case (private_new dir fs)
  then show ?case by (simp add: all_durable_def NewBundleFileManager_def)
qed (rule agent_do_durable)

lemma run_payloads:
  assumes "sessions st sid = Some r" "list_all (spares sid) cs"
    and "sessions (fold agent_do cs st) sid = Some r'" "\<not> fs_closed r'"
  shows "fs_bundlePath r' = fs_bundlePath r \<and> \<not> fs_closed r \<and> payloads r' = payloads r @ acked sid cs st"
  using assms
proof (induction cs arbitrary: st r)
  case (Cons c cs)
  obtain r1 where r1: "sessions (agent_do c st) sid = Some r1" "fs_bundlePath r1 = fs_bundlePath r"
    "\<not> fs_closed r1 \<longrightarrow> \<not> fs_closed r \<and> payloads r1 = payloads r @ acked sid [c] st"
    using agent_do_payloads [of st sid r c] Cons.prems(1,2) by auto
  from Cons.IH [OF r1(1)] Cons.prems(2-4) r1 show ?case by auto
qed auto

lemma run_private: "private_reach st \<Longrightarrow> runs_exclusive cs st \<Longrightarrow> private_reach (fold agent_do cs st)"
  by (induction cs arbitrary: st) (auto intro: private_call)

text \<open>C6: while no two open sessions share a bundle path and no open session's bundle path is the path of a session's
  metadata file (the agent enforces neither), no acknowledged event is lost: after any further calls, with
  any faults, the records of a session that is still open are those it had and one for each event
  acknowledged since, in order, and its file holds these records, followed by at most one that was not
  acknowledged. The calls include no shutdown, and no new session draws the identifier of this one.\<close>

theorem agent_acknowledged_durable:
  assumes "private_reach st" "sessions st sid = Some r" "runs_exclusive cs st" "list_all (spares sid) cs"
    and "sessions (fold agent_do cs st) sid = Some r'" "\<not> fs_closed r'"
  shows "map (\<lambda>x. Data (Event x)) (Records (fs_bundle r')) = map (\<lambda>x. Data (Event x)) (Records (fs_bundle r)) @ acked sid cs st \<and>
    (\<exists>raw extra. agent_files (fold agent_do cs st) (fs_bundlePath r) = Some raw \<and> length extra \<le> 1 \<and>
       stored raw (Records (fs_bundle r') @ extra))"
proof -
  have "durable (agent_files (fold agent_do cs st)) r'"
    using private_durable [OF run_private [OF assms(1,3)]] assms(5,6) by (simp add: all_durable_def)
  with run_payloads [OF assms(2,4-6)] show ?thesis by (auto simp: durable_def payloads_def)
qed

section \<open>Two sessions on one path\<close>

text \<open>Two open sessions with one bundle path lose acknowledged events: after an event of the first and then one of the
  second, both acknowledged, the file holds the records the second session had and its own event, and nothing of the
  first.\<close>

theorem agent_shared_path_loses:
  assumes "sessions st i = Some r" "sessions st j = Some r'" "i \<noteq> j" "fs_bundlePath r = fs_bundlePath r'"
    and "AppendEvent env i ev st = (st1, None)" "AppendEvent env' j ev' st1 = (st2, None)"
  shows "\<exists>raw x. agent_files st2 (fs_bundlePath r) = Some raw \<and> save_lines (Records (fs_bundle r') @ [x]) = Some raw \<and>
    Data (Event x) = pendingEventData ev'"
proof -
  obtain st1' where a1: "append_event env i ev st = (st1', None)" "sessions st1 = sessions st1'"
    using assms(5) by (auto simp: AppendEvent_def split: prod.splits)
  obtain st2' where a2: "append_event env' j ev' st1 = (st2', None)" "agent_files st2 = agent_files st2'"
    using assms(6) by (auto simp: AppendEvent_def split: prod.splits)
  have j: "sessions st1 j = Some r'" using a1(1) unfolding a1(2) by (cases rule: append_event_cases) (use assms(1-3) in auto)
  from a2(1) show ?thesis
  proof (cases rule: append_event_cases)
    case (appended r0 nxt fs' nxt')
    then have r0: "r0 = r'" using j by simp
    obtain x where "Records nxt = Records (fs_bundle r') @ [x]" "Data (Event x) = pendingEventData ev'"
      using append_record [OF appended(3)] r0 by auto
    with appended(4) show ?thesis
      by (cases rule: SaveRooted_cases) (use appended(5) a2(2) assms(4) r0 in auto)
  qed auto
qed

text \<open>A session whose bundle path is the metadata path of a session loses its events when that session is closed: the
  file then holds the metadata and nothing else.\<close>

theorem agent_meta_path_loses:
  assumes "sessions st i = Some r" "fs_bundlePath r = meta_path j" "CloseSession env j st = (st', Inr meta)"
  shows "agent_files st' (fs_bundlePath r) = Some (MarshalIndent (JObject (session_meta_members env meta)))"
proof -
  obtain st1 where c: "close_session env j st = (st1, Inr meta)" "agent_files st' = agent_files st1"
    using assms(3) by (auto simp: CloseSession_def split: prod.splits)
  from c(1) show ?thesis
  proof (cases rule: close_session_cases)
    case (closed r0 fs' b' verified fs'' meta' ok)
    then have "meta' = meta" "ok" "bm_SessionID meta = j" by (auto split: if_splits)
    moreover have "fs'' (meta_path (bm_SessionID meta')) = Some (MarshalIndent (JObject (session_meta_members env meta')))"
      using closed(5) \<open>ok\<close> by (auto simp: writeSessionMeta_def WriteAtomicRooted_def split: save_fault.splits)
    ultimately show ?thesis using closed(10) c(2) assms(2) by simp
  qed auto
qed

section \<open>Closing\<close>

text \<open>When the metadata file cannot be written, the close fails with the session closed: every later close or append is
  rejected, so the metadata file that the workspace index lists a session by is never written.\<close>

theorem agent_close_not_repeatable:
  assumes "CloseSession env sid st = (st', Inl MetaError)"
  shows "CloseSession env' sid st' = (st', Inl ErrSessionClosed) \<and> AppendEvent env'' sid ev st' = (st', Some ErrSessionClosed) \<and>
    Health st' = Some MetaError"
proof -
  obtain st1 where c: "close_session env sid st = (st1, Inl MetaError)" "st' = recordHealthLocked (Some MetaError) st1"
    using assms by (auto simp: CloseSession_def err_of_def split: prod.splits)
  from c(1) obtain r where "sessions st' sid = Some r" "fs_closed r"
    by (cases rule: close_session_cases) (use c(2) in auto)
  then show ?thesis
    using c(2) by (simp add: CloseSession_def AppendEvent_def close_session_def append_event_def err_of_def recordHealthLocked_def Health_def)
qed

section \<open>Health\<close>

definition call_error :: "agent_call \<Rightarrow> agent_state \<Rightarrow> agent_error option" where
  "call_error c st =
     (case c of
        CallOpen env params \<Rightarrow> err_of (snd (OpenSession env params st))
      | CallAppend env sid ev \<Rightarrow> snd (AppendEvent env sid ev st)
      | CallClose env sid \<Rightarrow> err_of (snd (CloseSession env sid st))
      | CallShutdown \<Rightarrow> None)"

definition durability_call :: "agent_call \<Rightarrow> agent_state \<Rightarrow> bool" where
  "durability_call c st = (c \<noteq> CallShutdown \<and> call_error c st \<notin> {Some ErrSessionNotFound, Some ErrSessionClosed})"

lemma files_lastErr:
  "lastErr (fst (open_session env params st)) = lastErr st" "lastErr (fst (append_event env sid ev st)) = lastErr st"
  "lastErr (fst (close_session env sid st)) = lastErr st"
proof -
  have o: "lastErr (fst (openRoot env st)) = lastErr st" for st by (simp add: openRoot_def split: option.splits)
  show "lastErr (fst (open_session env params st)) = lastErr st"
    using o [of st] by (auto simp: open_session_def Let_def split: prod.splits sum.splits)
  obtain st' err where a: "append_event env sid ev st = (st', err)" by fastforce
  then show "lastErr (fst (append_event env sid ev st)) = lastErr st" by (cases rule: append_event_cases) (simp_all add: a)
  obtain st'' res where b: "close_session env sid st = (st'', res)" by fastforce
  then show "lastErr (fst (close_session env sid st)) = lastErr st" by (cases rule: close_session_cases) (simp_all add: b)
qed

text \<open>The health after a call is the result of the call, unless the call was rejected for an unknown or closed session or was
  a shutdown; then it is the health before. So the health endpoint answers 503 exactly when the last call that tried to
  write failed.\<close>

theorem agent_health_exact:
  "Health (agent_do c st) = (if durability_call c st then call_error c st else Health st) \<and>
   (handleHealthz (agent_do c st) = 503 \<longleftrightarrow> Health (agent_do c st) \<noteq> None)"
  by (cases c)
    (simp_all add: OpenSession_def AppendEvent_def CloseSession_def durability_call_def call_error_def Health_def recordHealthLocked_def
      agent_Shutdown_def handleHealthz_def case_prod_unfold files_lastErr)

section \<open>Examples\<close>

definition demo_agent_env :: "string \<Rightarrow> save_fault \<Rightarrow> agent_env" where
  "demo_agent_env rnd meta = \<lparr>ae_cwd = Some ''/w'', ae_root_ok = True, ae_id = Some rnd, ae_stat_ok = True, ae_created = sample_time,
     ae_random = None, ae_now = 7, ae_bytes = (\<lambda>_. 0), ae_save = SaveOk, ae_meta = meta, ae_opened = (\<lambda>_. []), ae_closing = (\<lambda>_. [])\<rparr>"

definition demo_params :: open_params where
  "demo_params = \<lparr>op_ActorID = [], op_PurposeTag = [], op_ProfileID = [], op_BundlePath = ''a.atb''\<rparr>"

definition demo_loaded :: atb_bundle where
  "demo_loaded = \<lparr>Records = bind_all [] (Records sample_first)\<rparr>"

definition demo_agent :: agent_state where
  "demo_agent = NewBundleFileManager ''data'' [''a.atb'' \<mapsto> sample_text]"

definition demo_session :: file_session where
  "demo_session = \<lparr>fs_params = demo_params, fs_bundlePath = ''a.atb'', fs_bundle = demo_loaded,
     fs_eventCount = nonManifestRecordCount demo_loaded, fs_createdAt = manifestCreatedAt demo_loaded, fs_closed = False, fs_closedAt = 0\<rparr>"

lemma demo_env_simps [simp]:
  "ae_cwd (demo_agent_env rnd m) = Some ''/w''" "ae_root_ok (demo_agent_env rnd m)" "ae_id (demo_agent_env rnd m) = Some rnd"
  "ae_stat_ok (demo_agent_env rnd m)" "ae_now (demo_agent_env rnd m) = 7" "ae_bytes (demo_agent_env rnd m) = (\<lambda>_. 0)"
  "ae_save (demo_agent_env rnd m) = SaveOk" "ae_meta (demo_agent_env rnd m) = m" "op_BundlePath demo_params = ''a.atb''"
  "op_ActorID demo_params = []"
  by (simp_all add: demo_agent_env_def demo_params_def)

lemma demo_rooted: "RootedRelativePath (Some ''/w'') ''data'' ''a.atb'' = Inr ''a.atb''" "TrimSpace ''a.atb'' = ''a.atb''"
  by code_simp+

lemma demo_open:
  assumes "agent_files st = [''a.atb'' \<mapsto> sample_text]" "dataDir st = ''data''" "rootOnce st \<noteq> Some False"
  shows "OpenSession (demo_agent_env rnd m) demo_params st =
    (st\<lparr>rootOnce := Some True, sessions := (sessions st)(''sess_'' @ hex_encode rnd \<mapsto> demo_session), lastErr := None\<rparr>, Inr (''sess_'' @ hex_encode rnd))"
proof -
  have root: "openRoot (demo_agent_env rnd m) st = (st\<lparr>rootOnce := Some True\<rparr>, True)"
    using assms(3) by (cases st) (auto simp: openRoot_def split: option.splits)
  have op: "agent_opened (demo_agent_env rnd m) [''a.atb'' \<mapsto> sample_text] ''a.atb'' =
      ([''a.atb'' \<mapsto> sample_text], Inr (demo_loaded, manifestCreatedAt demo_loaded, nonManifestRecordCount demo_loaded))"
    using sample_loads by (simp add: agent_opened_def LoadRooted_def demo_loaded_def)
  have "open_session (demo_agent_env rnd m) demo_params st =
      (st\<lparr>rootOnce := Some True, sessions := (sessions st)(''sess_'' @ hex_encode rnd \<mapsto> demo_session)\<rparr>, Inr (''sess_'' @ hex_encode rnd))"
    unfolding open_session_def root
    using assms op demo_rooted by (cases st) (simp add: newSessionID_def demo_session_def Let_def)
  then show ?thesis by (simp add: OpenSession_def err_of_def recordHealthLocked_def)
qed

definition demo_one :: agent_state where
  "demo_one = agent_do (CallOpen (demo_agent_env ''A'' SaveOk) demo_params) demo_agent"

definition demo_two :: agent_state where
  "demo_two = agent_do (CallOpen (demo_agent_env ''B'' SaveOk) demo_params) demo_one"

lemma demo_hex: "hex_encode ''A'' = ''41''" "hex_encode ''B'' = ''42''"
  by code_simp+

lemma demo_one_eq: "demo_one = demo_agent\<lparr>rootOnce := Some True, sessions := [''sess_41'' \<mapsto> demo_session], lastErr := None\<rparr>"
  using demo_open [of demo_agent "''A''" SaveOk] by (simp add: demo_one_def demo_agent_def NewBundleFileManager_def demo_hex)

lemma demo_two_eq:
  "demo_two = demo_agent\<lparr>rootOnce := Some True, sessions := [''sess_41'' \<mapsto> demo_session, ''sess_42'' \<mapsto> demo_session], lastErr := None\<rparr>"
  using demo_open [of demo_one "''B''" SaveOk] by (simp add: demo_two_def demo_one_eq demo_agent_def NewBundleFileManager_def demo_hex)

lemma demo_loaded_records: "\<exists>r. Records demo_loaded = [r] \<and> wire_ok (Event r) \<and> Type (Event r) = ManifestEventType"
proof -
  have "go_value sample_decoded" by code_simp
  moreover have "to_json sample_decoded \<noteq> None" by code_simp
  moreover have "Sequence (wire_event (Event (hd (Records sample_first)))) = Sequence (Event (hd (Records sample_first)))"
    using wire_event_spec [OF sample_first_wire] by (auto simp: coerce_event_def)
  ultimately have e: "wire_ok (wire_event (Event (hd (Records sample_first))))"
    using sample_wire_data sample_first_wire by (auto simp: wire_ok_def event_json_def)
  have t: "Type (wire_event (Event (hd (Records sample_first)))) = ManifestEventType"
    using Type_wire_event [OF sample_first_wire, of ManifestEventType] by (simp add: sample_first_def) (simp add: ManifestEventType_def)
  show ?thesis unfolding demo_loaded_def by (subst sample_records) (use e t in \<open>simp add: wire_record_def new_record_def\<close>)
qed

definition demo_pending :: "string \<Rightarrow> pending_event" where
  "demo_pending t = \<lparr>pe_EventType = t, pe_Payload = []\<rparr>"

lemma demo_agent_append:
  assumes "sessions st sid = Some demo_session"
  shows "\<exists>st'. AppendEvent (demo_agent_env rnd m) sid (demo_pending t) st = (st', None) \<and> (\<forall>j. j \<noteq> sid \<longrightarrow> sessions st' j = sessions st j)"
proof -
  obtain r where r: "Records demo_loaded = [r]" "wire_ok (Event r)" using demo_loaded_records by auto
  define d where "d = pendingEventData (demo_pending t)"
  define e where "e = next_event demo_loaded agentRawEventType d None"
  have data: "go_value d" "to_json d \<noteq> None" by (simp_all add: d_def pendingEventData_def demo_pending_def Let_def)
  have "Data e = d" "int64 (Sequence e)" using r(1) by (auto simp: e_def next_event_def apply_options_def Let_def int64_def)
  with data have w: "wire_ok e" by (simp add: wire_ok_def event_json_def)
  have ty: "event_type_ok agentRawEventType" unfolding agentRawEventType_def by code_simp
  have ap: "AppendWithOptions demo_loaded agentRawEventType d None = Inr (demo_loaded\<lparr>Records := [r, new_record e (event_hash e)]\<rparr>)"
    using ty wire_ok_encodable [OF w] r(1) by (simp add: AppendWithOptions_Inr e_def acquisition_guard_def)
  obtain raw where raw: "save_lines [r, new_record e (event_hash e)] = Some raw"
    using save_lines_Some [of "[r, new_record e (event_hash e)]"] r(2) w by (auto simp: new_record_def)
  have opts: "appendOptionsForSession (fs_params demo_session) = None" "fs_bundle demo_session = demo_loaded" "\<not> fs_closed demo_session"
    by (simp_all add: appendOptionsForSession_def demo_session_def Let_def)
  show ?thesis
    using assms opts ap raw
    by (simp add: AppendEvent_def append_event_def d_def [symmetric] SaveRooted_def WriteAtomicRooted_def recordHealthLocked_def)
qed

theorem agent_bundles_sound_witness:
  "Verify (fs_bundle demo_session) = None \<and> Records (fs_bundle demo_session) \<noteq> [] \<and>
    Type (Event (hd (Records (fs_bundle demo_session)))) = ManifestEventType \<and>
    (fs_closed demo_session \<or> fs_eventCount demo_session = nonManifestRecordCount (fs_bundle demo_session))"
proof (rule agent_bundles_sound)
  show "agent_reach demo_one" unfolding demo_one_def demo_agent_def by (intro reach_call reach_new)
  show "sessions demo_one ''sess_41'' = Some demo_session" by (simp add: demo_one_eq)
qed

lemma demo_private: "private_reach demo_one" "exclusive demo_one"
proof -
  show "private_reach demo_one"
    unfolding demo_one_def by (intro private_call) (simp_all add: demo_agent_def private_new, simp add: exclusive_def NewBundleFileManager_def)
  have "meta_path ''sess_41'' \<noteq> ''a.atb''" by code_simp
  then show "exclusive demo_one" by (auto simp: demo_one_eq exclusive_def demo_session_def split: if_splits)
qed

lemma demo_one_session: "sessions demo_one ''sess_41'' = Some demo_session"
  by (simp add: demo_one_eq)

definition demo_calls :: "agent_call list" where
  "demo_calls = [CallAppend (demo_agent_env [] SaveOk) ''sess_41'' (demo_pending ''x'')]"

definition demo_after :: file_session where
  "demo_after = the (sessions (fold agent_do demo_calls demo_one) ''sess_41'')"

lemma demo_after_open: "sessions (fold agent_do demo_calls demo_one) ''sess_41'' = Some demo_after" "\<not> fs_closed demo_after"
proof -
  have s: "sessions demo_one ''sess_41'' = Some demo_session" by (simp add: demo_one_eq)
  obtain st' where st': "append_event (demo_agent_env [] SaveOk) ''sess_41'' (demo_pending ''x'') demo_one = (st', None)"
    using demo_agent_append [OF s, of "[]" SaveOk "''x''"] by (auto simp: AppendEvent_def split: prod.splits)
  then obtain r' where "sessions st' ''sess_41'' = Some r'" "\<not> fs_closed r'" by (cases rule: append_event_cases) auto
  then show "sessions (fold agent_do demo_calls demo_one) ''sess_41'' = Some demo_after" "\<not> fs_closed demo_after"
    by (simp_all add: demo_after_def demo_calls_def AppendEvent_def st')
qed

theorem agent_acknowledged_durable_witness:
  "map (\<lambda>x. Data (Event x)) (Records (fs_bundle demo_after)) =
      map (\<lambda>x. Data (Event x)) (Records (fs_bundle demo_session)) @ acked ''sess_41'' demo_calls demo_one \<and>
    (\<exists>raw extra. agent_files (fold agent_do demo_calls demo_one) (fs_bundlePath demo_session) = Some raw \<and>
       length extra \<le> 1 \<and> stored raw (Records (fs_bundle demo_after) @ extra))"
  by (rule agent_acknowledged_durable [OF demo_private(1) demo_one_session _ _ demo_after_open])
    (use demo_private(2) in \<open>simp_all add: demo_calls_def spares_def\<close>)

theorem agent_shared_path_loses_witness:
  "\<exists>st1 st2 raw x. AppendEvent (demo_agent_env [] SaveOk) ''sess_41'' (demo_pending ''x'') demo_two = (st1, None) \<and>
    AppendEvent (demo_agent_env [] SaveOk) ''sess_42'' (demo_pending ''y'') st1 = (st2, None) \<and>
    agent_files st2 (fs_bundlePath demo_session) = Some raw \<and> save_lines (Records (fs_bundle demo_session) @ [x]) = Some raw \<and>
    Data (Event x) = pendingEventData (demo_pending ''y'')"
proof -
  have s: "sessions demo_two ''sess_41'' = Some demo_session" "sessions demo_two ''sess_42'' = Some demo_session"
    by (simp_all add: demo_two_eq)
  obtain st1 where st1: "AppendEvent (demo_agent_env [] SaveOk) ''sess_41'' (demo_pending ''x'') demo_two = (st1, None)"
    "sessions st1 ''sess_42'' = Some demo_session"
    using demo_agent_append [OF s(1), of "[]" SaveOk "''x''"] s(2) by auto
  obtain st2 where st2: "AppendEvent (demo_agent_env [] SaveOk) ''sess_42'' (demo_pending ''y'') st1 = (st2, None)"
    using demo_agent_append [OF st1(2), of "[]" SaveOk "''y''"] by auto
  from agent_shared_path_loses [OF s _ refl st1(1) st2] st1(1) st2 show ?thesis by auto
qed

lemma demo_saved: "save_lines (Records demo_loaded) = Some sample_text"
proof -
  define e where "e = Event (hd (Records sample_first))"
  define d where "d = JObject [(''bundle_id'', JString ''30313233343536373839616263646566''),
    (''created_at'', JString ''2025-01-01T00:00:00Z''), (''version'', JNumber ''3'')]"
  have d: "coerce_json d = d" unfolding d_def by code_simp
  have d': "to_json sample_decoded = Some d" unfolding d_def by code_simp
  have "to_any (coerce_json d) = Some sample_decoded" unfolding d_def by code_simp
  moreover have dj: "to_json (Data e) = Some d" using sample_payload by (simp add: sample_first_def d_def e_def)
  ultimately have w: "wire_event e = coerce_event e sample_decoded"
    using wire_event_payload [of e d] sample_first_wire by (simp add: wire_ok_def e_def)
  have we: "wire_event e = e\<lparr>Data := sample_decoded\<rparr>"
    unfolding w
    by (simp add: e_def coerce_event_def sample_first_def first_bundle_def new_record_def next_event_def apply_options_def
        timestamp_options_def zero_event_def Let_def valid_utf8_sample_time valid_utf8_Genesis valid_utf8_literal ManifestEventType_def)
  have "event_json (wire_event e) = event_json e" unfolding we event_json_def by (simp add: dj d' event_members_def)
  moreover have "coerce_utf8 (Hash (hd (Records sample_first))) = Hash (hd (Records sample_first))"
    by (simp add: sample_first_def first_bundle_def new_record_def Let_def event_hash_def valid_utf8_digest)
  ultimately have "record_json (bind_prefix [] (wire_record (hd (Records sample_first)))) = Some sample_json"
    using sample_record_json by (simp add: record_json_def wire_record_def new_record_def e_def)
  then show ?thesis unfolding demo_loaded_def by (subst sample_records) (simp add: sample_text_def)
qed

theorem agent_close_not_repeatable_witness:
  "\<exists>st'. CloseSession (demo_agent_env [] SaveOk) ''sess_41'' st' = (st', Inl ErrSessionClosed) \<and>
    AppendEvent (demo_agent_env [] SaveOk) ''sess_41'' (demo_pending ''x'') st' = (st', Some ErrSessionClosed) \<and> Health st' = Some MetaError"
proof -
  have "\<exists>st'. CloseSession (demo_agent_env [] SaveRefused) ''sess_41'' demo_one = (st', Inl MetaError)"
    using demo_one_session demo_saved sample_loads
    by (simp add: CloseSession_def close_session_def demo_session_def SaveRooted_def WriteAtomicRooted_def LoadRooted_def
        writeSessionMeta_def Let_def)
  then obtain st' where "CloseSession (demo_agent_env [] SaveRefused) ''sess_41'' demo_one = (st', Inl MetaError)" by blast
  from agent_close_not_repeatable [OF this] show ?thesis by blast
qed

end
