(* ===== verification/Locator.thy ===== *)
theory Locator
  imports Bundle_Props Path_Props Profile_Props
begin

text \<open>
  Evidence locators, \<^verbatim>\<open>internal/locator/locator.go\<close>: the text form of a reference to one record of a bundle, its parser and
  its resolution. Theorems: what \<^verbatim>\<open>String\<close> writes parses back; \<^verbatim>\<open>Parse\<close> accepts that text and exactly one other, with the
  parameters swapped; the locator of a record of a bundle that verifies resolves to it; in two bundles that verify, a
  locator finds the same record.
\<close>

section \<open>The text form\<close>

record locator =
  BundleHeadHash :: string
  EventSequence :: int
  RecordHash :: string

datatype locator_error = LocMalformed | LocUnsupportedVersion | LocBundleUnavailable | LocEventNotFound | LocRecordHashMismatch

definition GrammarVersion :: int where "GrammarVersion = 1"
definition loc_scheme :: string where "loc_scheme = ''atb''"
definition loc_authority :: string where "loc_authority = ''evidence''"

definition hex64 :: "string \<Rightarrow> bool" where
  \<comment> \<open>\<^verbatim>\<open>^[0-9a-f]{64}$\<close>\<close>
  "hex64 s = (length s = 64 \<and> list_all (\<lambda>c. is_digit c \<or> (97 \<le> ord c \<and> ord c \<le> 102)) s)"

definition seq_text :: "string \<Rightarrow> bool" where
  \<comment> \<open>\<^verbatim>\<open>^(0|[1-9][0-9]*)$\<close>\<close>
  "seq_text s = (s = ''0'' \<or> (s \<noteq> [] \<and> hd s \<noteq> CHR ''0'' \<and> list_all is_digit s))"

definition locator_Validate :: "locator \<Rightarrow> locator_error option" where
  "locator_Validate l =
     (if \<not> hex64 (BundleHeadHash l) then Some LocMalformed
      else if EventSequence l < 0 then Some LocMalformed
      else if RecordHash l \<noteq> [] \<and> \<not> hex64 (RecordHash l) then Some LocMalformed
      else None)"

definition locator_String :: "locator \<Rightarrow> string" where
  "locator_String l =
     loc_scheme @ ''://'' @ loc_authority @ ''/'' @ show_int GrammarVersion @ ''/'' @ BundleHeadHash l @ ''?seq='' @ show_int (EventSequence l) @
     (if RecordHash l \<noteq> [] then ''&record='' @ RecordHash l else [])"

section \<open>Parsing\<close>

definition Atoi :: "string \<Rightarrow> int option" where
  "Atoi s = (if HasPrefix s ''+'' then (if HasPrefix (tl s) ''-'' then None else ParseInt (tl s)) else ParseInt s)"

definition url_parts :: "string \<Rightarrow> (string \<times> string) option" where
  \<comment> \<open>\<^verbatim>\<open>url.Parse\<close> on a text with the scheme and the authority in front and without percent sign and fragment: the path and
      the query; None on a control byte\<close>
  "url_parts s =
     (if list_ex (\<lambda>c. ord c < 32 \<or> ord c = 127) s then None
      else let rest = drop (length (loc_scheme @ ''://'' @ loc_authority)) s
           in Some (takeWhile (\<lambda>c. c \<noteq> CHR ''?'') rest, tl (dropWhile (\<lambda>c. c \<noteq> CHR ''?'') rest)))"

definition unplus :: "string \<Rightarrow> string" where
  \<comment> \<open>\<^verbatim>\<open>url.QueryUnescape\<close> without percent signs\<close>
  "unplus s = map (\<lambda>c. if c = CHR ''+'' then CHR '' '' else c) s"

definition query_pair :: "string \<Rightarrow> string \<times> string" where
  "query_pair part =
     (unplus (takeWhile (\<lambda>c. c \<noteq> CHR ''='') part), unplus (tl (dropWhile (\<lambda>c. c \<noteq> CHR ''='') part)))"

definition query_values :: "string list \<Rightarrow> string \<Rightarrow> string list" where
  "query_values parts k = map snd (filter (\<lambda>(k', _). k' = k) (map query_pair parts))"

definition parse_query :: "string \<Rightarrow> string \<Rightarrow> locator_error + locator" where
  \<comment> \<open>the part of \<^verbatim>\<open>Parse\<close> after the path\<close>
  "parse_query head rawQuery =
     (let parts = Split rawQuery (CHR ''&'')
      in if list_ex (\<lambda>p. p = []) parts then Inl LocMalformed
         else if list_ex (\<lambda>p. CHR '';'' \<in> set p) parts then Inl LocMalformed
         else if list_ex (\<lambda>p. fst (query_pair p) \<noteq> ''seq'' \<and> fst (query_pair p) \<noteq> ''record'') parts then Inl LocMalformed
         else case query_values parts ''seq'' of
                [v] \<Rightarrow>
                  if \<not> seq_text v then Inl LocMalformed
                  else (case Atoi v of
                          None \<Rightarrow> Inl LocMalformed
                        | Some n \<Rightarrow>
                            (case query_values parts ''record'' of
                               [] \<Rightarrow> Inr \<lparr>BundleHeadHash = head, EventSequence = n, RecordHash = []\<rparr>
                             | [h] \<Rightarrow> if hex64 h then Inr \<lparr>BundleHeadHash = head, EventSequence = n, RecordHash = h\<rparr> else Inl LocMalformed
                             | _ \<Rightarrow> Inl LocMalformed))
              | _ \<Rightarrow> Inl LocMalformed)"

definition locator_Parse :: "string \<Rightarrow> locator_error + locator" where
  \<comment> \<open>without the prefix, \<^verbatim>\<open>url.Parse\<close> cannot give this scheme and host with a path that starts with a slash\<close>
  "locator_Parse raw =
     (let s = TrimSpace raw
      in if s = [] then Inl LocMalformed
         else if \<not> HasPrefix s (loc_scheme @ ''://'' @ loc_authority @ ''/'') then Inl LocMalformed
         else if CHR ''%'' \<in> set s then Inl LocMalformed
         else if CHR ''#'' \<in> set s then Inl LocMalformed
         else case url_parts s of
                None \<Rightarrow> Inl LocMalformed
              | Some (p, q) \<Rightarrow>
                  (case Split p (CHR ''/'') of
                     [e, version, head] \<Rightarrow>
                       if e \<noteq> [] then Inl LocMalformed
                       else (case Atoi version of
                               None \<Rightarrow> Inl LocMalformed
                             | Some v \<Rightarrow>
                                 if v \<noteq> GrammarVersion then Inl LocUnsupportedVersion
                                 else if version \<noteq> show_int GrammarVersion then Inl LocMalformed
                                 else if \<not> hex64 head then Inl LocMalformed
                                 else bind_res (parse_query head q) (\<lambda>l.
                                   case locator_Validate l of Some e \<Rightarrow> Inl e | None \<Rightarrow> Inr l))
                   | _ \<Rightarrow> Inl LocMalformed))"

section \<open>Resolution\<close>

record resolution =
  res_Locator :: locator
  res_Index :: nat
  res_Seq :: int
  RecordHashMatched :: bool

fun resolve_loop :: "locator \<Rightarrow> nat \<Rightarrow> bundle_record list \<Rightarrow> locator_error + resolution" where
  "resolve_loop l i [] = Inl LocEventNotFound"
| "resolve_loop l i (r # rs) =
     (if Sequence (Event r) \<noteq> EventSequence l then resolve_loop l (i + 1) rs
      else if RecordHash l \<noteq> [] \<and> RecordHash l \<noteq> Hash r then Inl LocRecordHashMismatch
      else Inr \<lparr>res_Locator = l, res_Index = i, res_Seq = EventSequence l, RecordHashMatched = (RecordHash l \<noteq> [])\<rparr>)"

definition Resolve :: "locator \<Rightarrow> atb_bundle option \<Rightarrow> locator_error + resolution" where
  "Resolve l b =
     (case locator_Validate l of
        Some e \<Rightarrow> Inl e
      | None \<Rightarrow>
          (case b of
             None \<Rightarrow> Inl LocBundleUnavailable
           | Some b \<Rightarrow>
               if Records b = [] then Inl LocBundleUnavailable
               else if BundleHeadHash l \<noteq> Hash (last (Records b)) then Inl LocBundleUnavailable
               else resolve_loop l 0 (Records b)))"

section \<open>What is written parses\<close>

lemma Join_Split: "Join (Split s c) [c] = s"
proof -
  have "Join (split_acc c acc s) [c] = rev acc @ s" for acc
  proof (induction c acc s rule: split_acc.induct)
    case (2 c acc d s)
    then show ?case
    proof (cases "d = c")
      case True
      obtain x xs where "split_acc c [] s = x # xs" by (cases "split_acc c [] s") auto
      with 2 True show ?thesis by simp
    qed simp
  qed simp
  then show ?thesis by (simp add: Split_def)
qed

lemma hex64_chars: "hex64 s \<Longrightarrow> c \<in> set s \<Longrightarrow> is_digit c \<or> (97 \<le> ord c \<and> ord c \<le> 102)"
  by (auto simp: hex64_def list_all_iff)

lemma digit_chars: "is_digit c \<Longrightarrow> c \<notin> {CHR ''/'', CHR ''?'', CHR ''&'', CHR ''='', CHR '';'', CHR ''%'', CHR ''#'', CHR ''+'', CHR '' '', CHR ''-''} \<and> 32 \<le> ord c \<and> ord c \<noteq> 127"
  by (auto simp: is_digit_def)

lemma hex_chars: "hex64 s \<Longrightarrow> c \<in> set s \<Longrightarrow> c \<notin> {CHR ''/'', CHR ''?'', CHR ''&'', CHR ''='', CHR '';'', CHR ''%'', CHR ''#'', CHR ''+'', CHR '' ''} \<and> 32 \<le> ord c \<and> ord c \<noteq> 127"
  by (drule (1) hex64_chars) (auto simp: is_digit_def)

lemma digits_value_nonneg: "0 \<le> digits_value ds"
  by (induction ds rule: rev_induct) auto

lemma int_digits_value:
  assumes "list_all (\<lambda>d. d < 10) ds" "ds \<noteq> []" "ds = [0] \<or> hd ds \<noteq> 0"
  shows "int_digits (digits_value ds) = ds"
  using assms
proof (induction ds rule: rev_induct)
  case (snoc d ds)
  show ?case
  proof (cases "ds = []")
    case True
    with snoc.prems show ?thesis by (subst int_digits.simps) (simp add: digits_value_def)
  next
    case False
    then have ds: "hd ds \<noteq> 0" "list_all (\<lambda>d. d < 10) ds" "d < 10" using snoc.prems by auto
    have "int_digits (digits_value ds) = ds" using snoc.IH ds False by simp
    moreover have "1 \<le> digits_value ds"
    proof -
      obtain x xs where x: "ds = x # xs" using False by (cases ds) auto
      have "digits_value ds = int x * 10 ^ length xs + digits_value xs" using digits_value_append [of "[x]" xs] x by (simp add: digits_value_def)
      moreover note digits_value_nonneg [of xs]
      moreover have "1 \<le> int x * 10 ^ length xs" using ds(1) x by (simp add: mult_pos_pos order_less_le_trans zero_less_mult_iff int_one_le_iff_zero_less)
      ultimately show ?thesis by (metis add_increasing2)
    qed
    moreover have "(10 * digits_value ds + int d) div 10 = digits_value ds" "(10 * digits_value ds + int d) mod 10 = int d" using ds(3) by auto
    ultimately show ?thesis by (subst int_digits.simps) simp
  qed
qed simp

lemma seq_text_show:
  assumes "seq_text s" "Atoi s = Some n" shows "show_int n = s \<and> 0 \<le> n"
proof -
  have dig: "list_all is_digit s" "s \<noteq> []" using assms(1) by (auto simp: seq_text_def is_digit_def)
  then have first: "is_digit (hd s)" by (cases s) auto
  then have sgn: "\<not> HasPrefix s ''+''" "\<not> HasPrefix s ''-''" using dig(2) by (cases s; auto simp: is_digit_def)+
  with assms(2) have n: "n = digits_value (map digit_value s)" by (auto simp: Atoi_def ParseInt_def Let_def split: if_splits)
  have v: "list_all (\<lambda>d. d < 10) (map digit_value s)" using dig(1) by (auto simp: list_all_iff is_digit_def digit_value_def)
  have z: "map digit_value s = [0] \<or> hd (map digit_value s) \<noteq> 0"
  proof (cases "s = ''0''")
    case False
    with assms(1) have "hd s \<noteq> CHR ''0''" by (simp add: seq_text_def)
    with first dig(2) have "ord (hd s) \<noteq> 48" using ord_eq_iff [of "hd s" "CHR ''0''"] by auto
    with first dig(2) show ?thesis by (simp add: hd_map digit_value_def is_digit_def)
  qed (simp add: digit_value_def)
  have "int_digits n = map digit_value s" unfolding n by (rule int_digits_value [OF v _ z]) (use dig(2) in simp)
  moreover have "show_digits (map digit_value s) = s"
    using dig(1) by (induction s) (auto simp: show_digits_def digit_value_def is_digit_def ord_eq_iff ord_byte)
  moreover have "0 \<le> n" unfolding n by (rule digits_value_nonneg)
  ultimately show ?thesis by (simp add: show_int_def)
qed

lemma show_seq_text: assumes "0 \<le> n" shows "seq_text (show_int n)" "\<forall>c\<in>set (show_int n). is_digit c" "show_int n \<noteq> []"
proof -
  have small: "d < 10" if "d \<in> set (int_digits n)" for d by (rule int_digits_small [OF assms that])
  show dig: "\<forall>c\<in>set (show_int n). is_digit c"
  proof -
    have "is_digit (byte (48 + d))" if "d \<in> set (int_digits n)" for d using small [OF that] by (simp add: is_digit_def ord_byte)
    then show ?thesis using assms by (auto simp: show_int_def show_digits_def)
  qed
  show ne: "show_int n \<noteq> []" by (simp add: show_int_def show_digits_def)
  show "seq_text (show_int n)"
  proof (cases "n = 0")
    case True
    have "show_int 0 = ''0''" by code_simp
    with True show ?thesis by (simp add: seq_text_def)
  next
    case False
    then have "hd (int_digits n) \<noteq> 0" using assms by (intro int_digits_first) simp
    moreover have "hd (int_digits n) < 10" by (intro small hd_in_set) simp
    ultimately have "hd (show_int n) \<noteq> CHR ''0''"
      using assms by (simp add: show_int_def show_digits_def hd_map ord_eq_iff ord_byte)
    with dig ne show ?thesis by (auto simp: seq_text_def list_all_iff)
  qed
qed

lemma Atoi_show: "int64 n \<Longrightarrow> 0 \<le> n \<Longrightarrow> Atoi (show_int n) = Some n"
  using show_seq_text [of n] ParseInt_show_int [of n]
  by (cases "show_int n") (auto simp: Atoi_def int64_def is_digit_def)

lemma unplus_id: "CHR ''+'' \<notin> set s \<Longrightarrow> unplus s = s"
  unfolding unplus_def by (rule map_idI) auto

lemma query_pair_simp:
  assumes "CHR ''='' \<notin> set k" "CHR ''+'' \<notin> set k" "CHR ''+'' \<notin> set v"
  shows "query_pair (k @ CHR ''='' # v) = (k, v)"
proof -
  have "takeWhile (\<lambda>c. c \<noteq> CHR ''='') (k @ CHR ''='' # v) = k" "dropWhile (\<lambda>c. c \<noteq> CHR ''='') (k @ CHR ''='' # v) = CHR ''='' # v"
    using assms(1) by (induction k) auto
  then show ?thesis using assms(2,3) by (simp add: query_pair_def unplus_id)
qed

definition seq_part :: "int \<Rightarrow> string" where "seq_part n = ''seq='' @ show_int n"
definition record_part :: "string \<Rightarrow> string" where "record_part h = ''record='' @ h"

lemma parts_simps:
  "0 \<le> n \<Longrightarrow> query_pair (seq_part n) = (''seq'', show_int n)" "hex64 h \<Longrightarrow> query_pair (record_part h) = (''record'', h)"
  "0 \<le> n \<Longrightarrow> CHR ''&'' \<notin> set (seq_part n) \<and> CHR '';'' \<notin> set (seq_part n) \<and> seq_part n \<noteq> []"
  "hex64 h \<Longrightarrow> CHR ''&'' \<notin> set (record_part h) \<and> CHR '';'' \<notin> set (record_part h) \<and> record_part h \<noteq> []"
  using show_seq_text(2) [of n] digit_chars hex_chars [of h] query_pair_simp [of "''seq''" "show_int n"] query_pair_simp [of "''record''" h]
  by (auto simp: seq_part_def record_part_def)

lemma parse_query_written:
  assumes "0 \<le> n" "int64 n"
  shows "parse_query head (seq_part n) = Inr \<lparr>BundleHeadHash = head, EventSequence = n, RecordHash = []\<rparr>"
    and "hex64 h \<Longrightarrow> parse_query head (seq_part n @ ''&'' @ record_part h) = Inr \<lparr>BundleHeadHash = head, EventSequence = n, RecordHash = h\<rparr>"
    and "hex64 h \<Longrightarrow> parse_query head (record_part h @ ''&'' @ seq_part n) = Inr \<lparr>BundleHeadHash = head, EventSequence = n, RecordHash = h\<rparr>"
proof -
  have sp: "Split (seq_part n) (CHR ''&'') = [seq_part n]" using Split_Join [of "[seq_part n]" "CHR ''&''"] parts_simps(3) [OF assms(1)] by simp
  show "parse_query head (seq_part n) = Inr \<lparr>BundleHeadHash = head, EventSequence = n, RecordHash = []\<rparr>"
    using parts_simps(1,3) [OF assms(1)] Atoi_show [OF assms(2,1)] show_seq_text(1) [OF assms(1)]
    by (simp add: parse_query_def sp query_values_def)
  show "parse_query head (seq_part n @ ''&'' @ record_part h) = Inr \<lparr>BundleHeadHash = head, EventSequence = n, RecordHash = h\<rparr>" if h: "hex64 h"
  proof -
    have "Split (seq_part n @ ''&'' @ record_part h) (CHR ''&'') = [seq_part n, record_part h]"
      using Split_Join [of "[seq_part n, record_part h]" "CHR ''&''"] parts_simps(3) [OF assms(1)] parts_simps(4) [OF h] by simp
    then show ?thesis
      using parts_simps(1,3) [OF assms(1)] parts_simps(2,4) [OF h] Atoi_show [OF assms(2,1)] show_seq_text(1) [OF assms(1)] h
      by (simp add: parse_query_def query_values_def)
  qed
  show "parse_query head (record_part h @ ''&'' @ seq_part n) = Inr \<lparr>BundleHeadHash = head, EventSequence = n, RecordHash = h\<rparr>" if h: "hex64 h"
  proof -
    have "Split (record_part h @ ''&'' @ seq_part n) (CHR ''&'') = [record_part h, seq_part n]"
      using Split_Join [of "[record_part h, seq_part n]" "CHR ''&''"] parts_simps(3) [OF assms(1)] parts_simps(4) [OF h] by simp
    then show ?thesis
      using parts_simps(1,3) [OF assms(1)] parts_simps(2,4) [OF h] Atoi_show [OF assms(2,1)] show_seq_text(1) [OF assms(1)] h
      by (simp add: parse_query_def query_values_def)
  qed
qed

lemma not_space_ascii:
  assumes "33 \<le> ord c" "ord c < 127" "w \<in> set space_encodings" shows "hd w \<noteq> c" "last w \<noteq> c" "w \<noteq> []"
proof -
  have "list_all (\<lambda>w. w \<noteq> [] \<and> (ord (hd w) < 33 \<or> 127 \<le> ord (hd w)) \<and> (ord (last w) < 33 \<or> 127 \<le> ord (last w))) space_encodings"
    by code_simp
  with assms(3) have "w \<noteq> []" "ord (hd w) < 33 \<or> 127 \<le> ord (hd w)" "ord (last w) < 33 \<or> 127 \<le> ord (last w)"
    by (auto simp: list_all_iff)
  with assms(1,2) show "hd w \<noteq> c" "last w \<noteq> c" "w \<noteq> []" by auto
qed

lemma TrimSpace_inked:
  assumes "s \<noteq> []" "33 \<le> ord (hd s)" "ord (hd s) < 127" "33 \<le> ord (last s)" "ord (last s) < 127" shows "TrimSpace s = s"
proof -
  have "\<not> HasPrefix s w" if "w \<in> set space_encodings" for w
    using not_space_ascii [OF assms(2,3) that] assms(1) by (cases s; cases w) auto
  then have 1: "trim_prefixes space_encodings s = s" by (intro trim_prefixes_id) auto
  have "\<not> HasPrefix (rev s) w" if w: "w \<in> set (map rev space_encodings)" for w
  proof -
    obtain v where v: "w = rev v" "v \<in> set space_encodings" using w by auto
    have "hd w \<noteq> hd (rev s)" "w \<noteq> []" using not_space_ascii [OF assms(4,5) v(2)] assms(1) v(1) by (auto simp: hd_rev)
    then show ?thesis using assms(1) by (cases "rev s"; cases w) auto
  qed
  then have "trim_prefixes (map rev space_encodings) (rev s) = rev s" by (intro trim_prefixes_id) auto
  with 1 show ?thesis by (simp add: TrimSpace_def)
qed

definition locator_text :: "string \<Rightarrow> string \<Rightarrow> string" where
  "locator_text head q = ''atb://evidence/1/'' @ head @ ''?'' @ q"

lemma Parse_text:
  assumes h: "hex64 head" and q: "q \<noteq> []" "\<forall>c\<in>set q. 33 \<le> ord c \<and> ord c < 127 \<and> c \<noteq> CHR ''%'' \<and> c \<noteq> CHR ''#''"
  shows "locator_Parse (locator_text head q) =
    bind_res (parse_query head q) (\<lambda>l. case locator_Validate l of Some e \<Rightarrow> Inl e | None \<Rightarrow> Inr l)"
proof -
  define s where "s = locator_text head q"
  have hc: "\<forall>c\<in>set head. 33 \<le> ord c \<and> ord c < 127 \<and> c \<noteq> CHR ''%'' \<and> c \<noteq> CHR ''#'' \<and> c \<noteq> CHR ''/'' \<and> c \<noteq> CHR ''?''"
  proof
    fix c assume c: "c \<in> set head"
    have "48 \<le> ord c \<and> ord c \<le> 102" using hex64_chars [OF h c] by (auto simp: is_digit_def)
    with hex_chars [OF h c] show "33 \<le> ord c \<and> ord c < 127 \<and> c \<noteq> CHR ''%'' \<and> c \<noteq> CHR ''#'' \<and> c \<noteq> CHR ''/'' \<and> c \<noteq> CHR ''?''" by simp
  qed
  have all: "\<forall>c\<in>set s. 33 \<le> ord c \<and> ord c < 127 \<and> c \<noteq> CHR ''%'' \<and> c \<noteq> CHR ''#''"
    using hc q by (auto simp: s_def locator_text_def)
  have "s \<noteq> []" by (simp add: s_def locator_text_def)
  then have trim: "TrimSpace s = s" by (intro TrimSpace_inked) (use all in auto)
  have pre: "HasPrefix s (loc_scheme @ ''://'' @ loc_authority @ ''/'')" by (simp add: s_def locator_text_def loc_scheme_def loc_authority_def)
  have tw: "takeWhile (\<lambda>c. c \<noteq> CHR ''?'') (head @ CHR ''?'' # q) = head" "dropWhile (\<lambda>c. c \<noteq> CHR ''?'') (head @ CHR ''?'' # q) = CHR ''?'' # q"
    using hc by (induction head) auto
  have "\<not> list_ex (\<lambda>c. ord c < 32 \<or> ord c = 127) s" using all by (fastforce simp: list_ex_iff)
  then have url: "url_parts s = Some (''/1/'' @ head, q)"
    using tw by (simp add: url_parts_def s_def locator_text_def loc_scheme_def loc_authority_def)
  have sp: "Split (''/1/'' @ head) (CHR ''/'') = [[], ''1'', head]"
    using Split_Join [of "[[], ''1'', head]" "CHR ''/''"] hc by auto
  have one: "show_int GrammarVersion = ''1''" "Atoi ''1'' = Some GrammarVersion" unfolding GrammarVersion_def by code_simp+
  have pc: "CHR ''%'' \<notin> set s" "CHR ''#'' \<notin> set s" using all by auto
  show ?thesis
    unfolding s_def [symmetric] locator_Parse_def Let_def trim
    using \<open>s \<noteq> []\<close> pre pc url sp one h by simp
qed

definition query_of :: "locator \<Rightarrow> string" where
  "query_of l = (if RecordHash l = [] then seq_part (EventSequence l) else seq_part (EventSequence l) @ ''&'' @ record_part (RecordHash l))"

definition swapped_query :: "locator \<Rightarrow> string" where
  "swapped_query l = record_part (RecordHash l) @ ''&'' @ seq_part (EventSequence l)"

lemma String_text: "locator_String l = locator_text (BundleHeadHash l) (query_of l)"
proof -
  have "show_int GrammarVersion = ''1''" unfolding GrammarVersion_def by code_simp
  then show ?thesis
    by (simp add: locator_String_def locator_text_def query_of_def seq_part_def record_part_def loc_scheme_def loc_authority_def)
qed

lemma part_chars:
  "0 \<le> n \<Longrightarrow> \<forall>c\<in>set (seq_part n). 33 \<le> ord c \<and> ord c < 127 \<and> c \<noteq> CHR ''%'' \<and> c \<noteq> CHR ''#''"
  "hex64 h \<Longrightarrow> \<forall>c\<in>set (record_part h). 33 \<le> ord c \<and> ord c < 127 \<and> c \<noteq> CHR ''%'' \<and> c \<noteq> CHR ''#''"
proof -
  show "\<forall>c\<in>set (seq_part n). 33 \<le> ord c \<and> ord c < 127 \<and> c \<noteq> CHR ''%'' \<and> c \<noteq> CHR ''#''" if "0 \<le> n"
  proof -
    have "33 \<le> ord c \<and> ord c < 127 \<and> c \<noteq> CHR ''%'' \<and> c \<noteq> CHR ''#''" if "c \<in> set (show_int n)" for c
      using show_seq_text(2) [OF \<open>0 \<le> n\<close>] that digit_chars [of c] by (auto simp: is_digit_def)
    then show ?thesis by (auto simp: seq_part_def)
  qed
  show "\<forall>c\<in>set (record_part h). 33 \<le> ord c \<and> ord c < 127 \<and> c \<noteq> CHR ''%'' \<and> c \<noteq> CHR ''#''" if "hex64 h"
  proof -
    have "33 \<le> ord c \<and> ord c < 127 \<and> c \<noteq> CHR ''%'' \<and> c \<noteq> CHR ''#''" if c: "c \<in> set h" for c
      using hex64_chars [OF \<open>hex64 h\<close> c] hex_chars [OF \<open>hex64 h\<close> c] by (auto simp: is_digit_def)
    then show ?thesis by (auto simp: record_part_def)
  qed
qed

lemma valid_locator:
  assumes "locator_Validate l = None"
  shows "hex64 (BundleHeadHash l)" "0 \<le> EventSequence l" "RecordHash l = [] \<or> hex64 (RecordHash l)"
  using assms by (auto simp: locator_Validate_def split: if_splits)

lemma Parse_written:
  assumes "locator_Validate l = None" "int64 (EventSequence l)"
  shows "locator_Parse (locator_String l) = Inr l"
    and "RecordHash l \<noteq> [] \<Longrightarrow> locator_Parse (locator_text (BundleHeadHash l) (swapped_query l)) = Inr l"
proof -
  note v = valid_locator [OF assms(1)]
  have l: "\<lparr>BundleHeadHash = BundleHeadHash l, EventSequence = EventSequence l, RecordHash = RecordHash l\<rparr> = l" by simp
  have q: "query_of l \<noteq> []" "swapped_query l \<noteq> []" by (auto simp: query_of_def swapped_query_def seq_part_def)
  have "parse_query (BundleHeadHash l) (query_of l) = Inr l"
    using parse_query_written(1,2) [OF v(2) assms(2)] v(3) by (cases l; cases "RecordHash l = []") (auto simp: query_of_def)
  moreover have "\<forall>c\<in>set (query_of l). 33 \<le> ord c \<and> ord c < 127 \<and> c \<noteq> CHR ''%'' \<and> c \<noteq> CHR ''#''"
    using part_chars(1) [OF v(2)] part_chars(2) [of "RecordHash l"] v(3) by (auto simp: query_of_def)
  ultimately show "locator_Parse (locator_String l) = Inr l"
    using assms(1) by (simp add: String_text Parse_text [OF v(1) q(1)])
  assume r: "RecordHash l \<noteq> []"
  then have h: "hex64 (RecordHash l)" using v(3) by simp
  have "parse_query (BundleHeadHash l) (swapped_query l) = Inr l"
    using parse_query_written(3) [OF v(2) assms(2) h] by (simp add: swapped_query_def l)
  moreover have "\<forall>c\<in>set (swapped_query l). 33 \<le> ord c \<and> ord c < 127 \<and> c \<noteq> CHR ''%'' \<and> c \<noteq> CHR ''#''"
    using part_chars(1) [OF v(2)] part_chars(2) [OF h] by (auto simp: swapped_query_def)
  ultimately show "locator_Parse (locator_text (BundleHeadHash l) (swapped_query l)) = Inr l"
    using assms(1) by (simp add: Parse_text [OF v(1) q(2)])
qed

section \<open>What parses\<close>

lemma unplus_plain:
  assumes "unplus s = t" "CHR '' '' \<notin> set t" shows "s = t"
proof -
  have "CHR ''+'' \<notin> set s" using assms by (auto simp: unplus_def)
  with assms(1) show ?thesis by (simp add: unplus_id)
qed

lemma query_pair_inv:
  assumes "query_pair p = (k, v)" "CHR '' '' \<notin> set k" "CHR '' '' \<notin> set v" "v \<noteq> []"
  shows "p = k @ CHR ''='' # v"
proof -
  from assms have k: "takeWhile (\<lambda>c. c \<noteq> CHR ''='') p = k" and v: "tl (dropWhile (\<lambda>c. c \<noteq> CHR ''='') p) = v"
    using unplus_plain by (auto simp: query_pair_def)
  from v assms(4) have ne: "dropWhile (\<lambda>c. c \<noteq> CHR ''='') p \<noteq> []" by (metis list.sel(2))
  then have "hd (dropWhile (\<lambda>c. c \<noteq> CHR ''='') p) = CHR ''=''" using hd_dropWhile [OF ne] by simp
  with v ne have "dropWhile (\<lambda>c. c \<noteq> CHR ''='') p = CHR ''='' # v" by (metis list.collapse)
  with k show ?thesis by (metis takeWhile_dropWhile_id)
qed

lemma hex64_plain: "hex64 h \<Longrightarrow> CHR '' '' \<notin> set h \<and> h \<noteq> []"
  using hex_chars [of h] by (auto simp: hex64_def)

lemma seq_text_plain: "seq_text v \<Longrightarrow> CHR '' '' \<notin> set v \<and> v \<noteq> []"
  by (auto simp: seq_text_def list_all_iff is_digit_def)

lemma parse_query_inv:
  assumes "parse_query head q = Inr l"
  shows "BundleHeadHash l = head \<and> int64 (EventSequence l) \<and> 0 \<le> EventSequence l \<and> (RecordHash l = [] \<or> hex64 (RecordHash l)) \<and>
    (q = query_of l \<or> RecordHash l \<noteq> [] \<and> q = swapped_query l)"
proof -
  define parts where "parts = Split q (CHR ''&'')"
  have join: "Join parts ''&'' = q" unfolding parts_def by (rule Join_Split)
  have keys: "fst (query_pair p) = ''seq'' \<or> fst (query_pair p) = ''record''" if "p \<in> set parts" for p
    using assms that by (auto simp: parse_query_def Let_def parts_def list_ex_iff split: if_splits)
  obtain v n where v: "query_values parts ''seq'' = [v]" "seq_text v" "Atoi v = Some n"
    and rec: "query_values parts ''record'' = [] \<and> l = \<lparr>BundleHeadHash = head, EventSequence = n, RecordHash = []\<rparr> \<or>
      (\<exists>h. query_values parts ''record'' = [h] \<and> hex64 h \<and> l = \<lparr>BundleHeadHash = head, EventSequence = n, RecordHash = h\<rparr>)"
    using assms by (auto simp: parse_query_def Let_def parts_def split: if_splits list.splits option.splits)
  have n: "show_int n = v" "0 \<le> n" using seq_text_show [OF v(2,3)] by auto
  have i: "int64 n" using v(3) by (auto simp: Atoi_def ParseInt_def int64_def Let_def split: if_splits)
  have sp: "p = seq_part n" if "query_pair p = (''seq'', v)" for p
    using query_pair_inv [OF that] seq_text_plain [OF v(2)] n(1) by (simp add: seq_part_def)
  have rp: "p = record_part h" if "query_pair p = (''record'', h)" "hex64 h" for p h
    using query_pair_inv [OF that(1)] hex64_plain [OF that(2)] by (simp add: record_part_def)
  have count: "length parts = length (query_values parts ''seq'') + length (query_values parts ''record'')"
  proof -
    have "length ps = length (query_values ps ''seq'') + length (query_values ps ''record'')"
      if "\<forall>p\<in>set ps. fst (query_pair p) = ''seq'' \<or> fst (query_pair p) = ''record''" for ps
      using that by (induction ps) (auto simp: query_values_def split: prod.splits)
    then show ?thesis using keys by blast
  qed
  from rec show ?thesis
  proof (elim disjE conjE exE)
    assume r: "query_values parts ''record'' = []" and l: "l = \<lparr>BundleHeadHash = head, EventSequence = n, RecordHash = []\<rparr>"
    then obtain p where p: "parts = [p]" using count v(1) by (auto simp: length_Suc_conv)
    then have "query_pair p = (''seq'', v)" using v(1) by (auto simp: query_values_def split: prod.splits if_splits)
    with sp p join have "q = seq_part n" by simp
    with l i n show ?thesis by (simp add: query_of_def)
  next
    fix h
    assume r: "query_values parts ''record'' = [h]" "hex64 h" and l: "l = \<lparr>BundleHeadHash = head, EventSequence = n, RecordHash = h\<rparr>"
    then obtain p p' where p: "parts = [p, p']" using count v(1) by (auto simp: length_Suc_conv)
    have "query_pair p = (''seq'', v) \<and> query_pair p' = (''record'', h) \<or> query_pair p = (''record'', h) \<and> query_pair p' = (''seq'', v)"
      using v(1) r(1) p by (cases "query_pair p"; cases "query_pair p'") (auto simp: query_values_def split: if_splits)
    then have "q = seq_part n @ ''&'' @ record_part h \<or> q = record_part h @ ''&'' @ seq_part n"
      using sp rp [OF _ r(2)] p join by auto
    with l i n r(2) hex64_plain [OF r(2)] show ?thesis by (auto simp: query_of_def swapped_query_def)
  qed
qed

lemma Parse_inv:
  assumes "locator_Parse raw = Inr l"
  shows "locator_Validate l = None \<and> int64 (EventSequence l) \<and>
    (TrimSpace raw = locator_String l \<or> RecordHash l \<noteq> [] \<and> TrimSpace raw = locator_text (BundleHeadHash l) (swapped_query l))"
proof -
  define s where "s = TrimSpace raw"
  from assms obtain p q where pre: "HasPrefix s (loc_scheme @ ''://'' @ loc_authority @ ''/'')" and url: "url_parts s = Some (p, q)"
    and rest: "(case Split p (CHR ''/'') of
                     [e, version, head] \<Rightarrow>
                       if e \<noteq> [] then Inl LocMalformed
                       else (case Atoi version of
                               None \<Rightarrow> Inl LocMalformed
                             | Some v \<Rightarrow>
                                 if v \<noteq> GrammarVersion then Inl LocUnsupportedVersion
                                 else if version \<noteq> show_int GrammarVersion then Inl LocMalformed
                                 else if \<not> hex64 head then Inl LocMalformed
                                 else bind_res (parse_query head q) (\<lambda>l.
                                   case locator_Validate l of Some e \<Rightarrow> Inl e | None \<Rightarrow> Inr l))
                   | _ \<Rightarrow> Inl LocMalformed) = Inr l"
    by (auto simp: locator_Parse_def Let_def s_def split: if_splits option.splits)
  from rest obtain head where sp: "Split p (CHR ''/'') = [[], show_int GrammarVersion, head]" and h: "hex64 head"
    and pq: "parse_query head q = Inr l" and val: "locator_Validate l = None"
    by (auto split: list.splits if_splits option.splits)
  have one: "show_int GrammarVersion = ''1''" unfolding GrammarVersion_def by code_simp
  have p: "p = ''/1/'' @ head" using Join_Split [of p "CHR ''/''"] sp one by simp
  note inv = parse_query_inv [OF pq]
  then have q: "q \<noteq> []" by (auto simp: query_of_def swapped_query_def seq_part_def split: if_splits)
  obtain t where t: "s = ''atb://evidence/'' @ t" using pre by (auto simp: HasPrefix_iff loc_scheme_def loc_authority_def)
  have "s = locator_text head q"
  proof -
    define rs where "rs = CHR ''/'' # t"
    have u: "takeWhile (\<lambda>c. c \<noteq> CHR ''?'') rs = p" "tl (dropWhile (\<lambda>c. c \<noteq> CHR ''?'') rs) = q"
      using url t by (auto simp: url_parts_def rs_def loc_scheme_def loc_authority_def split: if_splits)
    from u(2) q have ne: "dropWhile (\<lambda>c. c \<noteq> CHR ''?'') rs \<noteq> []" by (metis list.sel(2))
    then have "dropWhile (\<lambda>c. c \<noteq> CHR ''?'') rs = CHR ''?'' # q" using hd_dropWhile [OF ne] u(2) by (metis list.collapse)
    with u(1) p have "rs = ''/1/'' @ head @ CHR ''?'' # q" by (metis takeWhile_dropWhile_id append_assoc)
    then show ?thesis using t by (simp add: rs_def locator_text_def)
  qed
  with inv val show ?thesis by (auto simp: s_def [symmetric] String_text)
qed

text \<open>C35: parsing inverts printing, and accepts nothing else but surrounding space and one other order of the parameters: a text
  parses as a locator exactly when, trimmed, it is what \<^verbatim>\<open>String\<close> writes for it, or the same with the record hash first;
  the locator is then valid and its sequence number is in range.\<close>

theorem locator_Parse_exact:
  "locator_Parse raw = Inr l \<longleftrightarrow>
     locator_Validate l = None \<and> int64 (EventSequence l) \<and>
     (TrimSpace raw = locator_String l \<or>
      RecordHash l \<noteq> [] \<and>
      TrimSpace raw = ''atb://evidence/1/'' @ BundleHeadHash l @ ''?record='' @ RecordHash l @ ''&seq='' @ show_int (EventSequence l))"
proof -
  have sw: "''atb://evidence/1/'' @ BundleHeadHash l @ ''?record='' @ RecordHash l @ ''&seq='' @ show_int (EventSequence l) =
      locator_text (BundleHeadHash l) (swapped_query l)"
    by (simp add: locator_text_def swapped_query_def record_part_def seq_part_def)
  have trim: "locator_Parse raw = locator_Parse (TrimSpace raw)" by (simp add: locator_Parse_def)
  show ?thesis
    unfolding sw using Parse_inv [of raw l] Parse_written [of l] trim by metis
qed


section \<open>What resolves\<close>

lemma resolve_loop_numbered:
  assumes "numbered n (map Event rs)"
  shows "resolve_loop l k rs = Inr x \<longleftrightarrow>
    (\<exists>i < length rs. EventSequence l = n + int i \<and> (RecordHash l = [] \<or> RecordHash l = Hash (rs ! i)) \<and>
       x = \<lparr>res_Locator = l, res_Index = k + i, res_Seq = EventSequence l, RecordHashMatched = (RecordHash l \<noteq> [])\<rparr>)"
  using assms
proof (induction rs arbitrary: n k)
  case (Cons r rs)
  then have r: "Sequence (Event r) = n" "numbered (n + 1) (map Event rs)" by simp_all
  note IH = Cons.IH [OF r(2), of "k + 1"]
  show ?case
  proof (cases "EventSequence l = n")
    case True
    then show ?thesis using r(1) by (auto simp: less_Suc_eq_0_disj)
  next
    case False
    let ?P = "\<lambda>i. EventSequence l = n + int i \<and> (RecordHash l = [] \<or> RecordHash l = Hash ((r # rs) ! i)) \<and>
      x = \<lparr>res_Locator = l, res_Index = k + i, res_Seq = EventSequence l, RecordHashMatched = (RecordHash l \<noteq> [])\<rparr>"
    have "(\<exists>i < length (r # rs). ?P i) \<longleftrightarrow> ?P 0 \<or> (\<exists>i < length rs. ?P (Suc i))"
      by (auto simp: less_Suc_eq_0_disj simp del: nth_Cons_Suc of_nat_Suc)
    with False IH r(1) show ?thesis by (simp add: algebra_simps)
  qed
qed simp

text \<open>In a bundle that verifies, resolution finds a record exactly when the locator names the head and the record's number, and
  it is the only one with that number.\<close>

lemma Resolve_verified:
  assumes "Verify b = None"
  shows "Resolve l (Some b) = Inr x \<longleftrightarrow>
    locator_Validate l = None \<and> Records b \<noteq> [] \<and> BundleHeadHash l = Hash (last (Records b)) \<and>
    (\<exists>i < length (Records b). EventSequence l = Sequence (Event (Records b ! i)) \<and>
       (RecordHash l = [] \<or> RecordHash l = Hash (Records b ! i)) \<and>
       x = \<lparr>res_Locator = l, res_Index = i, res_Seq = EventSequence l, RecordHashMatched = (RecordHash l \<noteq> [])\<rparr>)"
proof -
  have num: "numbered (first_seq (Records b)) (map Event (Records b))" using assms by (simp add: Verify_None)
  have seq: "Sequence (Event (Records b ! i)) = first_seq (Records b) + int i" if "i < length (Records b)" for i
    using numbered_nth [OF num, of i] that by simp
  show ?thesis
    using resolve_loop_numbered [OF num, of l 0 x] seq by (auto simp: Resolve_def split: option.splits)
qed

lemma hex_digit_hex: "n < 16 \<Longrightarrow> is_digit (hex_digit n) \<or> 97 \<le> ord (hex_digit n) \<and> ord (hex_digit n) \<le> 102"
  by (auto simp: hex_digit_def is_digit_def)

lemma hex64_digest: "hex64 (digest s)"
proof -
  have "list_all (\<lambda>c. is_digit c \<or> (97 \<le> ord c \<and> ord c \<le> 102)) (hex_encode t)" for t
    by (induction t) (use hex_digit_hex in \<open>simp_all add: hex_encode_def less_mult_imp_div_less\<close>)
  then show ?thesis using length_digest [of s] by (simp add: hex64_def digest_def)
qed

lemma verified_hash: "Verify b = None \<Longrightarrow> r \<in> set (Records b) \<Longrightarrow> hex64 (Hash r)"
proof -
  assume "Verify b = None" "r \<in> set (Records b)"
  then have "linked_events GenesisHash (pairs (Records b))" "(Event r, Hash r) \<in> set (pairs (Records b))"
    by (auto simp: Verify_None)
  then show ?thesis using events.linked_nth [of GenesisHash "pairs (Records b)"] hex64_digest by (fastforce simp: in_set_conv_nth)
qed

text \<open>Every record of a bundle that verifies can be cited: the locator with the bundle's head, the record's number and its
  hash, written and parsed back, resolves in that bundle to that record's position, with the hash confirmed.\<close>

theorem locator_finds_record:
  assumes "Verify b = None" "i < length (Records b)" "int (length (Records b)) < 2 ^ 63"
    and "l = \<lparr>BundleHeadHash = Hash (last (Records b)), EventSequence = Sequence (Event (Records b ! i)), RecordHash = Hash (Records b ! i)\<rparr>"
  shows "bind_res (locator_Parse (locator_String l)) (\<lambda>l. Resolve l (Some b)) =
    Inr \<lparr>res_Locator = l, res_Index = i, res_Seq = EventSequence l, RecordHashMatched = True\<rparr>"
proof -
  have ne: "Records b \<noteq> []" using assms(2) by auto
  have hx: "hex64 (Hash (last (Records b)))" "hex64 (Hash (Records b ! i))"
    using verified_hash [OF assms(1)] assms(2) ne by simp_all
  have "Sequence (Event (Records b ! i)) = first_seq (Records b) + int i"
    using assms(1,2) numbered_nth [of "first_seq (Records b)" "map Event (Records b)" i] by (simp add: Verify_None)
  then have sq: "0 \<le> EventSequence l" "int64 (EventSequence l)"
    using assms(2-4) by (auto simp: first_seq_def int64_def)
  have v: "locator_Validate l = None" using hx sq assms(4) by (simp add: locator_Validate_def)
  have "RecordHash l \<noteq> []" using hx(2) assms(4) by (auto simp: hex64_def)
  then have "Resolve l (Some b) = Inr \<lparr>res_Locator = l, res_Index = i, res_Seq = EventSequence l, RecordHashMatched = True\<rparr>"
    unfolding Resolve_verified [OF assms(1)] using v ne assms(2,4) by auto
  then show ?thesis using Parse_written [OF v sq(2)] by auto
qed

definition sample_cited :: locator where
  "sample_cited = \<lparr>BundleHeadHash = Hash (last (Records sample_bundle)), EventSequence = Sequence (Event (Records sample_bundle ! 1)),
     RecordHash = Hash (Records sample_bundle ! 1)\<rparr>"

lemma sample_length: "length (Records sample_bundle) = 2"
  by (simp add: sample_bundle_def sample_first_def)

theorem locator_finds_record_witness:
  "bind_res (locator_Parse (locator_String sample_cited)) (\<lambda>l. Resolve l (Some sample_bundle)) =
    Inr \<lparr>res_Locator = sample_cited, res_Index = 1, res_Seq = EventSequence sample_cited, RecordHashMatched = True\<rparr>"
  by (rule locator_finds_record [OF sample_verifies(1) _ _ sample_cited_def]) (simp_all add: sample_length)

text \<open>C36: a locator means one record. In whatever two bundles it resolves that verify, both with a manifest or both without, it
  finds the same position, the same hash and the same canonical event in both; otherwise their records exhibit a SHA-256 collision or
  an event that hashes to the genesis constant.\<close>

theorem locator_names_one_record:
  assumes "Verify b = None" "Verify b' = None" "hasManifestRecord (Records b) = hasManifestRecord (Records b')"
    and "Resolve l (Some b) = Inr x" "Resolve l (Some b') = Inr x'"
  shows "x = x' \<and> Hash (Records b ! res_Index x) = Hash (Records b' ! res_Index x) \<and>
      Marshal event_marshal (Event (Records b ! res_Index x)) = Marshal event_marshal (Event (Records b' ! res_Index x)) \<or>
    (\<exists>r\<in>set (Records b). \<exists>r'\<in>set (Records b').
       collide digest (PrevHash (Event r) @ event_body (Event r)) (PrevHash (Event r') @ event_body (Event r'))) \<or>
    (\<exists>r\<in>set (Records b) \<union> set (Records b'). digest (PrevHash (Event r) @ event_body (Event r)) = GenesisHash)"
proof -
  note r = assms(4) [unfolded Resolve_verified [OF assms(1)]] assms(5) [unfolded Resolve_verified [OF assms(2)]]
  from r have hd: "bundle_head b = bundle_head b'" by (auto simp: bundle_head_def)
  have same: "x = x' \<and> Hash (Records b ! res_Index x) = Hash (Records b' ! res_Index x) \<and>
      Marshal event_marshal (Event (Records b ! res_Index x)) = Marshal event_marshal (Event (Records b' ! res_Index x))"
    if eq: "list_all2 (\<lambda>r r'. Hash r = Hash r' \<and> PrevHash (Event r) = PrevHash (Event r') \<and>
      Marshal event_marshal (Event r) = Marshal event_marshal (Event r')) (Records b) (Records b')"
  proof -
    from r obtain i j where ij: "i < length (Records b)" "j < length (Records b')" "res_Index x = i" "res_Index x' = j"
      "Sequence (Event (Records b ! i)) = Sequence (Event (Records b' ! j))"
      "x' = x\<lparr>res_Index := j\<rparr>" by (elim conjE exE) simp
    have sq: "Sequence (Event (Records b ! i)) = first_seq (Records b) + int i"
      "Sequence (Event (Records b' ! j)) = first_seq (Records b') + int j"
      using assms(1,2) ij(1,2) numbered_nth [of "first_seq (Records b)" "map Event (Records b)" i]
        numbered_nth [of "first_seq (Records b')" "map Event (Records b')" j] by (simp_all add: Verify_None)
    with assms(3) ij(5) have "i = j" by (simp add: first_seq_def)
    with ij eq show ?thesis by (simp add: list_all2_conv_all_nth)
  qed
  show ?thesis using verified_same_head [OF assms(1,2) hd] same by blast
qed

text \<open>The sample bundle and the one that is loaded after saving it differ (the payload of the manifest is read back with its keys
  sorted and its version as a floating-point number); one locator finds the same record in both.\<close>

definition reloaded :: atb_bundle where
  "reloaded = \<lparr>Records = bind_all [] (Records sample_bundle)\<rparr>"

lemma cited_resolves:
  assumes "Verify b = None" "length (Records b) = 2" "Hash (last (Records b)) = Hash (last (Records sample_bundle))"
    and "Hash (Records b ! 1) = Hash (Records sample_bundle ! 1)" "first_seq (Records b) = first_seq (Records sample_bundle)"
  shows "Resolve sample_cited (Some b) =
    Inr \<lparr>res_Locator = sample_cited, res_Index = 1, res_Seq = EventSequence sample_cited, RecordHashMatched = True\<rparr>"
proof -
  have r: "Records b ! 1 \<in> set (Records b)" "last (Records b) \<in> set (Records b)" "Records b \<noteq> []"
    using assms(2) by (auto intro: last_in_set simp flip: length_greater_0_conv)
  have h: "hex64 (RecordHash sample_cited)" "hex64 (BundleHeadHash sample_cited)"
    using verified_hash [OF assms(1) r(1)] verified_hash [OF assms(1) r(2)] assms(3,4) by (simp_all add: sample_cited_def)
  have sq: "Sequence (Event (Records c ! 1)) = first_seq (Records c) + 1" if "Verify c = None" "length (Records c) = 2" for c :: atb_bundle
    using that numbered_nth [of "first_seq (Records c)" "map Event (Records c)" 1] by (simp add: Verify_None)
  have e: "EventSequence sample_cited = Sequence (Event (Records b ! 1))" "0 \<le> EventSequence sample_cited"
    using sq [OF assms(1,2)] sq [OF sample_verifies(1) sample_length] assms(5) by (simp_all add: sample_cited_def first_seq_def)
  have "locator_Validate sample_cited = None" using h e(2) by (simp add: locator_Validate_def)
  moreover have "RecordHash sample_cited \<noteq> []" using h(1) by (auto simp: hex64_def)
  moreover have "BundleHeadHash sample_cited = Hash (last (Records b))" "RecordHash sample_cited = Hash (Records b ! 1)"
    using assms(3,4) by (simp_all add: sample_cited_def)
  ultimately show ?thesis
    unfolding Resolve_verified [OF assms(1)] using assms(2) r(3) e(1) by auto
qed

lemma reloaded_facts:
  "Verify reloaded = None" "length (Records reloaded) = 2" "hasManifestRecord (Records reloaded) = hasManifestRecord (Records sample_bundle)"
  "map Hash (Records reloaded) = map Hash (Records sample_bundle)" "reloaded \<noteq> sample_bundle"
proof -
  have w: "list_all (\<lambda>r. wire_ok (Event r)) (Records sample_bundle)"
    unfolding sample_bundle_def using sample_first_wire sample_wire by (subst sample_records) (simp add: new_record_def)
  show "Verify reloaded = None" unfolding reloaded_def by (rule Verify_bind_all [OF sample_verifies(1) w])
  show "hasManifestRecord (Records reloaded) = hasManifestRecord (Records sample_bundle)"
    using hasManifestRecord_bind_all [OF w] by (simp add: reloaded_def)
  show m: "map Hash (Records reloaded) = map Hash (Records sample_bundle)"
    using bind_all_Hash [OF sample_verifies(1)] by (simp add: reloaded_def)
  from arg_cong [OF m, of length] show "length (Records reloaded) = 2" by (simp add: sample_length)
  have "Data (Event (hd (Records reloaded))) = sample_decoded"
    unfolding reloaded_def sample_bundle_def using sample_wire_data by (subst sample_records) (simp add: wire_record_def new_record_def)
  moreover have "Data (Event (hd (Records sample_bundle))) = v2_payload sample_time ''0123456789abcdef'' sample_options"
    unfolding sample_bundle_def by (subst sample_records) (simp add: sample_first_def)
  ultimately show "reloaded \<noteq> sample_bundle" by (auto simp: sample_decoded_def v2_payload_def)
qed

lemma both_resolve:
  "Resolve sample_cited (Some b) = Inr \<lparr>res_Locator = sample_cited, res_Index = 1, res_Seq = EventSequence sample_cited, RecordHashMatched = True\<rparr>"
  if "b \<in> {sample_bundle, reloaded}"
proof -
  have ne: "Records reloaded \<noteq> []" "Records sample_bundle \<noteq> []" using reloaded_facts(2) sample_length by auto
  have "Hash (last (Records reloaded)) = Hash (last (Records sample_bundle))"
    using arg_cong [OF reloaded_facts(4), of last] ne by (simp add: last_map)
  moreover have "Hash (Records reloaded ! 1) = Hash (Records sample_bundle ! 1)"
    using arg_cong [OF reloaded_facts(4), of "\<lambda>xs. xs ! 1"] reloaded_facts(2) sample_length by simp
  moreover have "first_seq (Records reloaded) = first_seq (Records sample_bundle)" using reloaded_facts(3) by (simp add: first_seq_def)
  ultimately show ?thesis
    using that cited_resolves [OF sample_verifies(1) sample_length refl refl refl] cited_resolves [OF reloaded_facts(1,2)] by auto
qed

theorem locator_names_one_record_witness:
  "\<exists>x. reloaded \<noteq> sample_bundle \<and> Resolve sample_cited (Some sample_bundle) = Inr x \<and> Resolve sample_cited (Some reloaded) = Inr x \<and>
    (Hash (Records sample_bundle ! res_Index x) = Hash (Records reloaded ! res_Index x) \<and>
      Marshal event_marshal (Event (Records sample_bundle ! res_Index x)) = Marshal event_marshal (Event (Records reloaded ! res_Index x)) \<or>
    (\<exists>r\<in>set (Records sample_bundle). \<exists>r'\<in>set (Records reloaded).
       collide digest (PrevHash (Event r) @ event_body (Event r)) (PrevHash (Event r') @ event_body (Event r'))) \<or>
    (\<exists>r\<in>set (Records sample_bundle) \<union> set (Records reloaded). digest (PrevHash (Event r) @ event_body (Event r)) = GenesisHash))"
proof -
  define x where "x = \<lparr>res_Locator = sample_cited, res_Index = 1, res_Seq = EventSequence sample_cited, RecordHashMatched = True\<rparr>"
  have r: "Resolve sample_cited (Some sample_bundle) = Inr x" "Resolve sample_cited (Some reloaded) = Inr x"
    using both_resolve by (simp_all add: x_def)
  from locator_names_one_record [OF sample_verifies(1) reloaded_facts(1) reloaded_facts(3) [symmetric] r] r reloaded_facts(5)
  show ?thesis by blast
qed

end
