(* ===== verification/Lineage.thy ===== *)
theory Lineage
  imports Session_Index
begin

text \<open>
  The context lineage of a bundle, \<^verbatim>\<open>internal/contextlineage/lineage.go\<close>: content units and the operations on them, read from the
  records, with a warning for everything that does not fit. Theorems: the units and operations are the first well-formed ones of
  each id, in the order of the file; there is no warning exactly when every context record is well formed, no id is used twice,
  no token count is negative and every reference is to a unit of the bundle. A slice of strings is a list of dynamic strings:
  \<^verbatim>\<open>texts\<close> treats both in the same way.
\<close>

section \<open>Units and operations\<close>

definition TypeAIContextUnit :: string where "TypeAIContextUnit = ''ai.context.unit''"
definition TypeAIContextOperation :: string where "TypeAIContextOperation = ''ai.context.operation''"

definition metadata_provenances :: "string list" where
  "metadata_provenances = [''asserted'', ''derived'', ''attested'']"

record context_unit =
  cu_ID :: string
  cu_Kind :: string
  cu_Digest :: string
  cu_Source :: string
  cu_ParentIDs :: "string list"
  cu_Scope :: string
  cu_Sensitivity :: string
  cu_CreatedAt :: string
  cu_MetadataProvenance :: "(string \<times> string) list option"
  cu_EventSequence :: int

record context_operation =
  co_ID :: string
  co_Type :: string
  co_InputUnitIDs :: "string list"
  co_OutputUnitIDs :: "string list"
  co_Method :: string
  co_ProcessorID :: string
  co_ProcessorVersion :: string
  co_InputTokenCount :: "int option"
  co_OutputTokenCount :: "int option"
  co_PreservedReferences :: "string list"
  co_DroppedReferences :: "string list"
  co_InvocationID :: string
  co_EventSequence :: int

record lineage =
  lin_Units :: "context_unit list"
  lin_Operations :: "context_operation list"
  lin_Warnings :: "string list"

section \<open>Fields\<close>

definition lin_text :: "(string \<times> any) list \<Rightarrow> string \<Rightarrow> string" where
  "lin_text data key = TrimSpace (field_string data key)"

fun trimmed_texts :: "any list \<Rightarrow> string list" where
  "trimmed_texts [] = []"
| "trimmed_texts (v # vs) =
     (case as_string v of
        None \<Rightarrow> trimmed_texts vs
      | Some s \<Rightarrow> if TrimSpace s \<noteq> [] then TrimSpace s # trimmed_texts vs else trimmed_texts vs)"

definition lin_texts :: "(string \<times> any) list \<Rightarrow> string \<Rightarrow> string list" where
  "lin_texts data key = (case field data key of AList vs \<Rightarrow> trimmed_texts vs | _ \<Rightarrow> [])"

definition requiredTexts :: "(string \<times> any) list \<Rightarrow> string \<Rightarrow> string list option" where
  "requiredTexts data key =
     (if key \<notin> fst ` set data then None
      else case field data key of AList _ \<Rightarrow> Some (lin_texts data key) | _ \<Rightarrow> None)"

definition numberValue :: "(string \<times> any) list \<Rightarrow> string \<Rightarrow> float64 option" where
  "numberValue data key = (case field data key of AInt n \<Rightarrow> Some (float_of_int n) | AFloat f \<Rightarrow> Some f | _ \<Rightarrow> None)"

definition lin_integer :: "(string \<times> any) list \<Rightarrow> string \<Rightarrow> int option" where
  "lin_integer data key =
     (case numberValue data key of
        None \<Rightarrow> None
      | Some f \<Rightarrow>
          (let converted = int_of_float f
           in if \<not> (f_le f (float_of_int converted) \<and> f_le (float_of_int converted) f) \<or> converted < 0 then None
              else Some converted))"

definition negativeInteger :: "(string \<times> any) list \<Rightarrow> string \<Rightarrow> bool" where
  "negativeInteger data key = (case numberValue data key of None \<Rightarrow> False | Some f \<Rightarrow> f_less f (Fin False 0))"

fun provenance_values :: "(string \<times> any) list \<Rightarrow> (string \<times> string) list" where
  "provenance_values [] = []"
| "provenance_values ((k, v) # m) =
     (case as_string v of
        None \<Rightarrow> provenance_values m
      | Some s \<Rightarrow> if s \<in> set metadata_provenances then (k, s) # provenance_values m else provenance_values m)"

definition provenance :: "any \<Rightarrow> (string \<times> string) list option" where
  "provenance raw =
     (case as_map raw of
        None \<Rightarrow> None
      | Some m \<Rightarrow> (let vs = provenance_values m in if vs = [] then None else Some vs))"

definition unitFromData :: "int \<Rightarrow> (string \<times> any) list \<Rightarrow> context_unit option" where
  \<comment> \<open>None when the flag is false\<close>
  "unitFromData sequence data =
     (let u = \<lparr>cu_ID = lin_text data ''unit_id'', cu_Kind = lin_text data ''kind'', cu_Digest = lin_text data ''digest'',
                cu_Source = lin_text data ''source'', cu_ParentIDs = lin_texts data ''parent_unit_ids'', cu_Scope = lin_text data ''scope'',
                cu_Sensitivity = lin_text data ''sensitivity'', cu_CreatedAt = lin_text data ''created_at'',
                cu_MetadataProvenance = provenance (field data ''metadata_provenance''), cu_EventSequence = sequence\<rparr>
      in if cu_ID u \<noteq> [] \<and> cu_Kind u \<noteq> [] \<and> cu_Digest u \<noteq> [] then Some u else None)"

definition operation_types :: "string list" where
  "operation_types = [''select'', ''transform'', ''compact'', ''cache_reuse'', ''assemble'']"

definition operationFromData :: "int \<Rightarrow> (string \<times> any) list \<Rightarrow> context_operation option" where
  "operationFromData sequence data =
     (case (requiredTexts data ''input_unit_ids'', requiredTexts data ''output_unit_ids'') of
        (Some inputs, Some outputs) \<Rightarrow>
          (let op = \<lparr>co_ID = lin_text data ''operation_id'', co_Type = lin_text data ''operation'', co_InputUnitIDs = inputs,
                     co_OutputUnitIDs = outputs, co_Method = lin_text data ''method'', co_ProcessorID = lin_text data ''processor_id'',
                     co_ProcessorVersion = lin_text data ''processor_version'',
                     co_InputTokenCount = lin_integer data ''input_token_count'', co_OutputTokenCount = lin_integer data ''output_token_count'',
                     co_PreservedReferences = lin_texts data ''preserved_references'',
                     co_DroppedReferences = lin_texts data ''dropped_references'', co_InvocationID = lin_text data ''invocation_id'',
                     co_EventSequence = sequence\<rparr>
           in if co_ID op \<noteq> [] \<and> co_Type op \<in> set operation_types then Some op else None)
      | _ \<Rightarrow> None)"

section \<open>The pass over the records\<close>

record lineage_state =
  ls_Units :: "context_unit list"
  ls_Operations :: "context_operation list"
  ls_Warnings :: "string list"
  ls_unitIDs :: "string \<rightharpoonup> int"
  ls_operationIDs :: "string \<rightharpoonup> int"

definition ls_warn :: "string list \<Rightarrow> lineage_state \<Rightarrow> lineage_state" where
  "ls_warn ws st = st\<lparr>ls_Warnings := ls_Warnings st @ ws\<rparr>"

definition seq_prefix :: "event \<Rightarrow> string" where
  "seq_prefix e = ''seq '' @ show_int (Sequence e) @ '': ''"

definition add_unit :: "event \<Rightarrow> lineage_state \<Rightarrow> lineage_state" where
  "add_unit e st =
     (case Option.bind (as_map (Data e)) (unitFromData (Sequence e)) of
        None \<Rightarrow> ls_warn [seq_prefix e @ ''malformed context unit''] st
      | Some u \<Rightarrow>
          (case ls_unitIDs st (cu_ID u) of
             Some previous \<Rightarrow>
               ls_warn [seq_prefix e @ ''duplicate context unit '' @ Quote (cu_ID u) @ '' first seen at seq '' @ show_int previous] st
           | None \<Rightarrow> st\<lparr>ls_unitIDs := (ls_unitIDs st)(cu_ID u \<mapsto> Sequence e), ls_Units := ls_Units st @ [u]\<rparr>))"

definition negative_warnings :: "event \<Rightarrow> (string \<times> any) list \<Rightarrow> string list" where
  "negative_warnings e data =
     map (\<lambda>key. seq_prefix e @ key @ '' must not be negative'')
       (filter (negativeInteger data) [''input_token_count'', ''output_token_count''])"

definition add_operation :: "event \<Rightarrow> lineage_state \<Rightarrow> lineage_state" where
  "add_operation e st =
     (case as_map (Data e) of
        None \<Rightarrow> ls_warn [seq_prefix e @ ''malformed context operation''] st
      | Some data \<Rightarrow>
          (case operationFromData (Sequence e) data of
             None \<Rightarrow> ls_warn [seq_prefix e @ ''malformed context operation''] st
           | Some op \<Rightarrow>
               (let st = ls_warn (negative_warnings e data) st
                in case ls_operationIDs st (co_ID op) of
                     Some previous \<Rightarrow>
                       ls_warn [seq_prefix e @ ''duplicate context operation '' @ Quote (co_ID op) @ '' first seen at seq '' @ show_int previous] st
                   | None \<Rightarrow>
                       st\<lparr>ls_operationIDs := (ls_operationIDs st)(co_ID op \<mapsto> Sequence e), ls_Operations := ls_Operations st @ [op]\<rparr>)))"

definition add_record :: "lineage_state \<Rightarrow> bundle_record \<Rightarrow> lineage_state" where
  "add_record st r =
     (let e = Event r
      in if Type e = TypeAIContextUnit then add_unit e st
         else if Type e = TypeAIContextOperation then add_operation e st
         else st)"

definition empty_lineage :: lineage_state where
  "empty_lineage = \<lparr>ls_Units = [], ls_Operations = [], ls_Warnings = [], ls_unitIDs = Map.empty, ls_operationIDs = Map.empty\<rparr>"

definition parent_warnings :: "(string \<rightharpoonup> int) \<Rightarrow> context_unit \<Rightarrow> string list" where
  "parent_warnings ids u =
     map (\<lambda>p. ''context unit '' @ Quote (cu_ID u) @ '' references unavailable parent unit '' @ Quote p)
       (filter (\<lambda>p. ids p = None) (cu_ParentIDs u))"

definition reference_warnings :: "(string \<rightharpoonup> int) \<Rightarrow> context_operation \<Rightarrow> string list" where
  "reference_warnings ids op =
     map (\<lambda>u. ''operation '' @ Quote (co_ID op) @ '' references unavailable context unit '' @ Quote u)
       (filter (\<lambda>u. ids u = None) (co_InputUnitIDs op @ co_OutputUnitIDs op))"

definition lineage_Build :: "bundle_record list \<Rightarrow> lineage" where
  "lineage_Build rs =
     (let st = foldl add_record empty_lineage rs
      in \<lparr>lin_Units = ls_Units st, lin_Operations = ls_Operations st,
          lin_Warnings = sort (ls_Warnings st @ concat (map (parent_warnings (ls_unitIDs st)) (ls_Units st)) @
            concat (map (reference_warnings (ls_unitIDs st)) (ls_Operations st)))\<rparr>)"

section \<open>What the records say\<close>

definition unit_of :: "bundle_record \<Rightarrow> context_unit option" where
  \<comment> \<open>the well-formed unit a record carries\<close>
  "unit_of r =
     (if Type (Event r) = TypeAIContextUnit then Option.bind (as_map (Data (Event r))) (unitFromData (Sequence (Event r))) else None)"

definition operation_of :: "bundle_record \<Rightarrow> context_operation option" where
  "operation_of r =
     (if Type (Event r) = TypeAIContextOperation then Option.bind (as_map (Data (Event r))) (operationFromData (Sequence (Event r))) else None)"

definition counts_ok :: "bundle_record \<Rightarrow> bool" where
  "counts_ok r = (case as_map (Data (Event r)) of
     None \<Rightarrow> True | Some data \<Rightarrow> \<not> negativeInteger data ''input_token_count'' \<and> \<not> negativeInteger data ''output_token_count'')"

definition context_ok :: "bundle_record \<Rightarrow> bool" where
  \<comment> \<open>a context record is well formed, with token counts that are not negative; any other record is ignored\<close>
  "context_ok r =
     ((Type (Event r) = TypeAIContextUnit \<longrightarrow> unit_of r \<noteq> None) \<and>
      (Type (Event r) = TypeAIContextOperation \<longrightarrow> operation_of r \<noteq> None \<and> counts_ok r))"

definition firsts :: "('a \<Rightarrow> string) \<Rightarrow> 'a list \<Rightarrow> 'a list" where
  \<comment> \<open>the first element of every key\<close>
  "firsts key xs = foldl (\<lambda>acc x. if key x \<in> key ` set acc then acc else acc @ [x]) [] xs"

definition units_of :: "bundle_record list \<Rightarrow> context_unit list" where
  "units_of rs = List.map_filter unit_of rs"

definition operations_of :: "bundle_record list \<Rightarrow> context_operation list" where
  "operations_of rs = List.map_filter operation_of rs"

lemma firsts_snoc: "firsts key (xs @ [x]) = (if key x \<in> key ` set (firsts key xs) then firsts key xs else firsts key xs @ [x])"
  by (simp add: firsts_def)

lemma firsts_Nil [simp]: "firsts key [] = []"
  by (simp add: firsts_def)

lemma firsts_keys: "key ` set (firsts key xs) = key ` set xs"
  by (induction xs rule: rev_induct) (auto simp: firsts_snoc)

lemma firsts_distinct: "distinct (map key (firsts key xs))"
  by (induction xs rule: rev_induct) (auto simp: firsts_snoc)

lemma firsts_all: "distinct (map key xs) \<Longrightarrow> firsts key xs = xs"
  by (induction xs rule: rev_induct) (auto simp: firsts_snoc)

lemma types_differ: "TypeAIContextUnit \<noteq> TypeAIContextOperation"
  by (simp add: TypeAIContextUnit_def TypeAIContextOperation_def)

lemma collected_snoc:
  "units_of (rs @ [r]) = units_of rs @ (case unit_of r of None \<Rightarrow> [] | Some u \<Rightarrow> [u])"
  "operations_of (rs @ [r]) = operations_of rs @ (case operation_of r of None \<Rightarrow> [] | Some op \<Rightarrow> [op])"
  by (simp_all add: units_of_def operations_of_def List.map_filter_def split: option.splits)

lemma collected_Nil [simp]: "units_of [] = []" "operations_of [] = []"
  by (simp_all add: units_of_def operations_of_def List.map_filter_def)

section \<open>Properties\<close>

definition follows :: "bundle_record list \<Rightarrow> lineage_state \<Rightarrow> bool" where
  \<comment> \<open>the state of the pass after the records\<close>
  "follows rs st =
     (ls_Units st = firsts cu_ID (units_of rs) \<and> ls_Operations st = firsts co_ID (operations_of rs) \<and>
      dom (ls_unitIDs st) = cu_ID ` set (units_of rs) \<and> dom (ls_operationIDs st) = co_ID ` set (operations_of rs) \<and>
      (ls_Warnings st = [] \<longleftrightarrow>
         list_all context_ok rs \<and> distinct (map cu_ID (units_of rs)) \<and> distinct (map co_ID (operations_of rs))))"

lemma add_unit_follows:
  assumes "follows rs st" "Type (Event r) = TypeAIContextUnit"
  shows "follows (rs @ [r]) (add_unit (Event r) st)"
proof -
  have no: "operation_of r = None" "context_ok r = (unit_of r \<noteq> None)"
    using assms(2) types_differ by (auto simp: operation_of_def context_ok_def)
  have u: "unit_of r = Option.bind (as_map (Data (Event r))) (unitFromData (Sequence (Event r)))"
    using assms(2) by (simp add: unit_of_def)
  show ?thesis
  proof (cases "unit_of r")
    case None
    then show ?thesis using assms(1) no u by (simp add: follows_def add_unit_def collected_snoc ls_warn_def)
  next
    case (Some v)
    then have a: "add_unit (Event r) st = (case ls_unitIDs st (cu_ID v) of
         Some previous \<Rightarrow> ls_warn [seq_prefix (Event r) @ ''duplicate context unit '' @ Quote (cu_ID v) @ '' first seen at seq '' @ show_int previous] st
       | None \<Rightarrow> st\<lparr>ls_unitIDs := (ls_unitIDs st)(cu_ID v \<mapsto> Sequence (Event r)), ls_Units := ls_Units st @ [v]\<rparr>)"
      using u by (simp add: add_unit_def)
    show ?thesis
    proof (cases "cu_ID v \<in> cu_ID ` set (units_of rs)")
      case True
      then obtain n where "ls_unitIDs st (cu_ID v) = Some n" using assms(1) unfolding follows_def by blast
      with assms(1) Some no a True show ?thesis
        by (auto simp: follows_def collected_snoc firsts_snoc firsts_keys ls_warn_def)
    next
      case False
      then have "ls_unitIDs st (cu_ID v) = None" using assms(1) unfolding follows_def by blast
      with assms(1) Some no a False show ?thesis
        by (auto simp: follows_def collected_snoc firsts_snoc firsts_keys)
    qed
  qed
qed

lemma negative_warnings_Nil: "as_map (Data (Event r)) = Some data \<Longrightarrow> negative_warnings (Event r) data = [] \<longleftrightarrow> counts_ok r"
  by (simp add: negative_warnings_def counts_ok_def)

lemma add_operation_follows:
  assumes "follows rs st" "Type (Event r) = TypeAIContextOperation"
  shows "follows (rs @ [r]) (add_operation (Event r) st)"
proof -
  have no: "unit_of r = None" "context_ok r = (operation_of r \<noteq> None \<and> counts_ok r)"
    using assms(2) types_differ by (auto simp: unit_of_def context_ok_def)
  have u: "operation_of r = Option.bind (as_map (Data (Event r))) (operationFromData (Sequence (Event r)))"
    using assms(2) by (simp add: operation_of_def)
  show ?thesis
  proof (cases "operation_of r")
    case None
    then have "add_operation (Event r) st = ls_warn [seq_prefix (Event r) @ ''malformed context operation''] st"
      using u by (auto simp: add_operation_def split: option.splits)
    then show ?thesis using assms(1) no None by (simp add: follows_def collected_snoc ls_warn_def)
  next
    case (Some v)
    then obtain data where d: "as_map (Data (Event r)) = Some data" "operationFromData (Sequence (Event r)) data = Some v"
      using u by (auto simp: bind_eq_Some_conv)
    show ?thesis
    proof (cases "co_ID v \<in> co_ID ` set (operations_of rs)")
      case True
      then obtain n where "ls_operationIDs st (co_ID v) = Some n" using assms(1) unfolding follows_def by blast
      with assms(1) Some no d True show ?thesis
        by (auto simp: follows_def collected_snoc firsts_snoc firsts_keys ls_warn_def add_operation_def)
    next
      case False
      then have "ls_operationIDs st (co_ID v) = None" using assms(1) unfolding follows_def by blast
      with assms(1) Some no d False negative_warnings_Nil [OF d(1)] show ?thesis
        by (auto simp: follows_def collected_snoc firsts_snoc firsts_keys ls_warn_def add_operation_def)
    qed
  qed
qed

lemma pass_follows: "follows rs (foldl add_record empty_lineage rs)"
proof (induction rs rule: rev_induct)
  case Nil
  show ?case by (simp add: follows_def empty_lineage_def)
next
  case (snoc r rs)
  show ?case
  proof (cases "Type (Event r) = TypeAIContextUnit \<or> Type (Event r) = TypeAIContextOperation")
    case True
    then show ?thesis
      using add_unit_follows [OF snoc, of r] add_operation_follows [OF snoc, of r] types_differ by (auto simp: add_record_def Let_def)
  next
    case False
    then have "unit_of r = None" "operation_of r = None" "context_ok r" by (auto simp: unit_of_def operation_of_def context_ok_def)
    with False snoc show ?thesis by (simp add: follows_def add_record_def Let_def collected_snoc)
  qed
qed

text \<open>The lineage of a bundle holds, in the order of the file, the first well-formed unit and the first well-formed operation
  of every id; the ids are therefore distinct, and none of the file is lost but repetitions of an id.\<close>

theorem lineage_first_of_each:
  "lin_Units (lineage_Build rs) = firsts cu_ID (units_of rs) \<and>
   lin_Operations (lineage_Build rs) = firsts co_ID (operations_of rs) \<and>
   distinct (map cu_ID (lin_Units (lineage_Build rs))) \<and> distinct (map co_ID (lin_Operations (lineage_Build rs))) \<and>
   cu_ID ` set (lin_Units (lineage_Build rs)) = cu_ID ` set (units_of rs) \<and>
   co_ID ` set (lin_Operations (lineage_Build rs)) = co_ID ` set (operations_of rs)"
  using pass_follows [of rs] by (simp add: follows_def lineage_Build_def Let_def firsts_distinct firsts_keys)

lemma reference_warnings_Nil:
  "concat (map (parent_warnings ids) us) = [] \<longleftrightarrow> (\<Union>u\<in>set us. set (cu_ParentIDs u)) \<subseteq> dom ids"
  "concat (map (reference_warnings ids) ops) = [] \<longleftrightarrow> (\<Union>op\<in>set ops. set (co_InputUnitIDs op) \<union> set (co_OutputUnitIDs op)) \<subseteq> dom ids"
  by (auto simp: parent_warnings_def reference_warnings_def filter_empty_conv)

text \<open>C37: a lineage without a warning is complete and closed: there is no warning exactly when every context record is well
  formed and no token count is negative, no id is used twice, and every parent, input and output is a unit of the same bundle,
  wherever in the file it stands.\<close>

theorem lineage_clean_iff:
  "lin_Warnings (lineage_Build rs) = [] \<longleftrightarrow>
     list_all context_ok rs \<and> distinct (map cu_ID (units_of rs)) \<and> distinct (map co_ID (operations_of rs)) \<and>
     (\<Union>u\<in>set (units_of rs). set (cu_ParentIDs u)) \<subseteq> cu_ID ` set (units_of rs) \<and>
     (\<Union>op\<in>set (operations_of rs). set (co_InputUnitIDs op) \<union> set (co_OutputUnitIDs op)) \<subseteq> cu_ID ` set (units_of rs)"
proof -
  define st where "st = foldl add_record empty_lineage rs"
  note f = pass_follows [of rs, folded st_def, unfolded follows_def]
  have "lin_Warnings (lineage_Build rs) = [] \<longleftrightarrow> ls_Warnings st = [] \<and>
      concat (map (parent_warnings (ls_unitIDs st)) (ls_Units st)) = [] \<and>
      concat (map (reference_warnings (ls_unitIDs st)) (ls_Operations st)) = []"
    unfolding lineage_Build_def Let_def st_def [symmetric] by (simp flip: set_empty)
  also have "\<dots> \<longleftrightarrow> ls_Warnings st = [] \<and> (\<Union>u\<in>set (firsts cu_ID (units_of rs)). set (cu_ParentIDs u)) \<subseteq> cu_ID ` set (units_of rs) \<and>
      (\<Union>op\<in>set (firsts co_ID (operations_of rs)). set (co_InputUnitIDs op) \<union> set (co_OutputUnitIDs op)) \<subseteq> cu_ID ` set (units_of rs)"
    unfolding reference_warnings_Nil using f by simp
  finally show ?thesis
    using f by (cases "distinct (map cu_ID (units_of rs)) \<and> distinct (map co_ID (operations_of rs))") (auto simp: firsts_all)
qed

end
