(* ===== verification/Capture.thy ===== *)
theory Capture
  imports Journal Acquire Agent Locator
begin

text \<open>
  Continuous capture in the proxy, \<^verbatim>\<open>internal/proxy/capture.go\<close> and the recorder of \<^verbatim>\<open>recorder.go\<close>: every observation goes
  into the durable journal, then into the bundle, then the checkpoint is bound to the bundle and advanced to the journal's
  position; at the start whatever is in the journal and not in the bundle is replayed. The recorder's mutex makes every call
  one step on three files: the journal, the bundle and the checkpoint. The clock, the random bytes and the faults of each call
  are its argument, so that every point at which the process can stop is the end of a call with a fault, followed by the loss of
  the memory. A payload is held as the tree its text scans to.
\<close>

section \<open>Observations\<close>

definition captureSourceSystem :: string where "captureSourceSystem = ''atb.proxy''"
definition captureAdapter :: string where "captureAdapter = ''atb.intercept''"
definition captureAdapterVersion :: string where "captureAdapterVersion = ''1.0.0''"
definition captureRepresentationVersion :: string where "captureRepresentationVersion = ''atb.intercept.event.v1''"
definition captureJournalDir :: string where "captureJournalDir = ''.atb/capture''"

datatype capture_state = captureHealthy | captureRecoveryRequired | captureDegraded | captureUnknown

datatype capture_error =
    CaptureJournal journal_error
  | CaptureBundle bundle_error
  | CaptureStat
  | CaptureCheckpoint checkpoint_error
  | CaptureNotV3
  | CapturePrefixMismatch
  | CapturePositionInvalid
  | CaptureContinuityLost
  | CaptureAhead
  | CaptureForeignEntry
  | CaptureDigest canon_error
  | CaptureDigestMismatch
  | CaptureOtherDigest
  | CaptureDecode
  | CaptureMarshal
  | CaptureIncarnation
  | CaptureRecordMissing
  | CaptureStopped

record observation_payload =
  ob_Type :: string
  ob_Data :: "json option"
  ob_ActorID :: "string option"
  ob_OrgID :: "string option"
  ob_WorkspaceID :: "string option"
  ob_Timestamp :: string
  ob_TraceID :: string
  ob_SpanID :: string
  ob_ParentSpanID :: string

definition observation_members :: "event \<Rightarrow> json \<Rightarrow> members" where
  "observation_members ev data =
     [(''type'', JString (Type ev)), (''data'', data)] @
     omit_ptr JString ''actor_id'' (ActorID ev) @ omit_ptr JString ''org_id'' (OrgID ev) @ omit_ptr JString ''workspace_id'' (WorkspaceID ev) @
     omit_string ''timestamp'' (Timestamp ev) @ omit_string ''trace_id'' (TraceID ev) @ omit_string ''span_id'' (SpanID ev) @
     omit_string ''parent_span_id'' (ParentSpanID ev)"

definition marshalObservation :: "event \<Rightarrow> capture_error + json" where
  "marshalObservation ev =
     (case to_json (Data ev) of
        None \<Rightarrow> Inl CaptureMarshal
      | Some d \<Rightarrow> Inr (coerce_json (JObject (observation_members ev d))))"

definition observation_names :: "string list" where
  "observation_names = [''type'', ''data'', ''actor_id'', ''org_id'', ''workspace_id'', ''timestamp'', ''trace_id'', ''span_id'', ''parent_span_id'']"

definition set_observation :: "string \<Rightarrow> json \<Rightarrow> observation_payload \<Rightarrow> observation_payload option" where
  \<comment> \<open>a raw message takes any value, null too\<close>
  "set_observation n j p =
     (if n = ''type'' then map_option (\<lambda>s. p\<lparr>ob_Type := s\<rparr>) (decode_string j (ob_Type p))
      else if n = ''data'' then Some (p\<lparr>ob_Data := Some j\<rparr>)
      else if n = ''actor_id'' then map_option (\<lambda>x. p\<lparr>ob_ActorID := x\<rparr>) (decode_ptr decode_string [] j (ob_ActorID p))
      else if n = ''org_id'' then map_option (\<lambda>x. p\<lparr>ob_OrgID := x\<rparr>) (decode_ptr decode_string [] j (ob_OrgID p))
      else if n = ''workspace_id'' then map_option (\<lambda>x. p\<lparr>ob_WorkspaceID := x\<rparr>) (decode_ptr decode_string [] j (ob_WorkspaceID p))
      else if n = ''timestamp'' then map_option (\<lambda>s. p\<lparr>ob_Timestamp := s\<rparr>) (decode_string j (ob_Timestamp p))
      else if n = ''trace_id'' then map_option (\<lambda>s. p\<lparr>ob_TraceID := s\<rparr>) (decode_string j (ob_TraceID p))
      else if n = ''span_id'' then map_option (\<lambda>s. p\<lparr>ob_SpanID := s\<rparr>) (decode_string j (ob_SpanID p))
      else map_option (\<lambda>s. p\<lparr>ob_ParentSpanID := s\<rparr>) (decode_string j (ob_ParentSpanID p)))"

definition zero_observation :: observation_payload where
  "zero_observation = \<lparr>ob_Type = [], ob_Data = None, ob_ActorID = None, ob_OrgID = None, ob_WorkspaceID = None, ob_Timestamp = [],
     ob_TraceID = [], ob_SpanID = [], ob_ParentSpanID = []\<rparr>"

definition digestRepresentation :: "json \<Rightarrow> capture_error + string" where
  "digestRepresentation payload =
     (case Marshal (\<lambda>p. Some (render_html p)) payload of
        Inl e \<Rightarrow> Inl (CaptureDigest e)
      | Inr canonical \<Rightarrow> Inr (hex_encode (Sum256 canonical)))"

section \<open>Into the bundle\<close>

definition acquisition_of :: "entry \<Rightarrow> string \<Rightarrow> string \<Rightarrow> acquisition_info" where
  "acquisition_of e streamID rep =
     \<lparr>acq_Mode = ''live'', acq_SourceSystem = SourceSystem e, acq_SourceRecordID = ObservationID e, acq_SourceTimestamp = SourceTimestamp e,
      acq_AcquiredAt = ObservedAt e, acq_SourceDigest = rep, acq_Adapter = Adapter e, acq_AdapterVersion = AdapterVersion e,
      acq_Checkpoint = Some \<lparr>cp_SourceSystem = SourceSystem e, cp_AcquisitionStream = streamID, cp_Position = show_int (Position e),
        cp_ObservedAt = ObservedAt e, cp_Adapter = Adapter e, cp_AdapterVersion = AdapterVersion e\<rparr>\<rparr>"

definition appendMaterialised :: "atb_bundle \<Rightarrow> entry \<Rightarrow> string \<Rightarrow> capture_error + atb_bundle" where
  "appendMaterialised b e streamID =
     (case decode_struct set_observation observation_names (Payload e) zero_observation of
        None \<Rightarrow> Inl CaptureDecode
      | Some p \<Rightarrow>
          (case digestRepresentation (Payload e) of
             Inl err \<Rightarrow> Inl err
           | Inr rep \<Rightarrow>
               if rep \<noteq> RepresentationDigest e then Inl CaptureDigestMismatch
               else case (case ob_Data p of None \<Rightarrow> Some ANil | Some d \<Rightarrow> to_any d) of
                      None \<Rightarrow> Inl CaptureDecode
                    | Some data \<Rightarrow>
                        (case AppendWithOptions b (ob_Type p) data
                           (Some \<lparr>ao_ActorID = ob_ActorID p, ao_OrgID = ob_OrgID p, ao_WorkspaceID = ob_WorkspaceID p, ao_Timestamp = ob_Timestamp p,
                              ao_TraceID = ob_TraceID p, ao_SpanID = ob_SpanID p, ao_ParentSpanID = ob_ParentSpanID p,
                              ao_Acquisition = Some (acquisition_of e streamID rep)\<rparr>) of
                           Inl err \<Rightarrow> Inl (CaptureBundle err)
                         | Inr b' \<Rightarrow> Inr b')))"

definition indexAcquisition :: "atb_bundle \<Rightarrow> string \<Rightarrow> string option" where
  "indexAcquisition b =
     fold (\<lambda>r out. case Acquisition (Event r) of
                       None \<Rightarrow> out
                     | Some acq \<Rightarrow> if acq_SourceRecordID acq = [] then out else out(acq_SourceRecordID acq \<mapsto> acq_SourceDigest acq))
       (Records b) (\<lambda>_. None)"

definition live_acquisition :: "acquisition_info \<Rightarrow> bool" where
  "live_acquisition acq = (acq_Mode acq = ''live'' \<and> acq_SourceSystem acq = captureSourceSystem \<and> acq_Adapter acq = captureAdapter)"

definition bundleHasAcquisition :: "atb_bundle \<Rightarrow> bool" where
  "bundleHasAcquisition b = list_ex (\<lambda>r. case Acquisition (Event r) of None \<Rightarrow> False | Some acq \<Rightarrow> live_acquisition acq) (Records b)"

definition journalAccountsForEvidence :: "atb_bundle \<Rightarrow> entry list \<Rightarrow> bool" where
  "journalAccountsForEvidence b es =
     (\<not> bundleHasAcquisition b \<or>
      list_all (\<lambda>r. case Acquisition (Event r) of
                       None \<Rightarrow> True
                     | Some acq \<Rightarrow> acq_SourceRecordID acq = [] \<or> \<not> live_acquisition acq \<or> acq_SourceRecordID acq \<in> ObservationID ` set es)
        (Records b))"

definition committedHead :: "atb_bundle \<Rightarrow> string" where
  "committedHead b = (if Records b = [] then [] else Hash (last (Records b)))"

section \<open>Checkpoints and entries\<close>

definition validateCheckpointPrefix :: "checkpoint option \<Rightarrow> atb_bundle \<Rightarrow> capture_error option" where
  "validateCheckpointPrefix cp b =
     (case cp of
        None \<Rightarrow> None
      | Some c \<Rightarrow>
          if ck_BundleHeadHash c = [] \<and> ck_BundleRecordCount c = 0 then None
          else if ck_BundleHeadHash c = [] \<or> ck_BundleRecordCount c \<le> 0 then Some CapturePrefixMismatch
          else if ck_BundleRecordCount c > int (length (Records b)) then Some CapturePrefixMismatch
          else if Hash (Records b ! nat (ck_BundleRecordCount c - 1)) \<noteq> ck_BundleHeadHash c then Some CapturePrefixMismatch
          else None)"

definition checkpointPosition :: "checkpoint option \<Rightarrow> capture_error + int" where
  "checkpointPosition cp =
     (case cp of
        None \<Rightarrow> Inr 0
      | Some c \<Rightarrow>
          let pos = TrimSpace (ck_Position c)
          in if pos = [] \<or> pos = ''start'' then Inr 0
             else case Atoi pos of
                    None \<Rightarrow> Inl CapturePositionInvalid
                  | Some n \<Rightarrow> if n < 0 then Inl CapturePositionInvalid else Inr n)"

definition verifyEntryDigest :: "entry \<Rightarrow> capture_error option" where
  "verifyEntryDigest e =
     (case digestRepresentation (Payload e) of
        Inl err \<Rightarrow> Some err
      | Inr got \<Rightarrow> if got \<noteq> RepresentationDigest e then Some CaptureDigestMismatch else None)"

definition validateEntry :: "string \<Rightarrow> entry \<Rightarrow> capture_error option" where
  \<comment> \<open>the first argument is the coordinator's incarnation\<close>
  "validateEntry incarnation e =
     (if SourceSystem e \<noteq> captureSourceSystem then Some CaptureForeignEntry
      else if Adapter e \<noteq> captureAdapter then Some CaptureForeignEntry
      else if AdapterVersion e \<noteq> captureAdapterVersion then Some CaptureForeignEntry
      else if RepresentationVersion e \<noteq> captureRepresentationVersion then Some CaptureForeignEntry
      else if SourceIncarnation e \<noteq> [] \<and> SourceIncarnation e \<noteq> incarnation then Some CaptureForeignEntry
      else verifyEntryDigest e)"

definition journalIncarnation :: "journal \<Rightarrow> string" where
  "journalIncarnation j = (if entries j = [] then [] else TrimSpace (SourceIncarnation (hd (entries j))))"

definition newIncarnation :: "string option \<Rightarrow> capture_error + string" where
  "newIncarnation random = (case random of None \<Rightarrow> Inl CaptureIncarnation | Some bytes \<Rightarrow> Inr (''inc-'' @ hex_encode bytes))"

section \<open>The coordinator\<close>

record capture_env =
  ce_stat_ok :: bool
  ce_bytes :: "nat \<Rightarrow> int"
  ce_created :: string
  ce_random :: "string option"
  ce_now :: string
  ce_write :: outcome
  ce_sync :: bool
  ce_mark :: bool
  ce_error_text :: "capture_error \<Rightarrow> string"
  ce_marker_ok :: bool
  ce_truncate_ok :: bool
  ce_save :: save_fault
  ce_checkpoint :: save_faults
  ce_readable :: "string \<Rightarrow> bool"
  ce_incarnation :: "string option"

record capture_files =
  cf_bundle :: "string option"
  cf_journal :: Journal.disk
  cf_checkpoints :: Acquire.disk

record coordinator =
  cc_streamID :: string
  cc_incarnation :: string
  cc_journal :: journal
  cc_cm :: checkpoint_manager
  cc_fresh :: bool
  cc_state :: capture_state
  cc_lastObservationAt :: string
  cc_lastCommitAt :: string
  cc_replayed :: nat
  cc_lastErr :: "capture_error option"
  cc_knownGap :: bool

definition loadBundleForCapture :: "capture_env \<Rightarrow> string option \<Rightarrow> capture_error + atb_bundle \<times> bool" where
  "loadBundleForCapture env content =
     (if \<not> ce_stat_ok env then Inl CaptureStat
      else case content of
             None \<Rightarrow>
               (case NewWithOptions (ce_created env) (ce_random env) \<lparr>no_ManifestVersion = 3, no_CaptureRunID = []\<rparr> of
                  Inl e \<Rightarrow> Inl (CaptureBundle e)
                | Inr b \<Rightarrow> Inr (b, True))
           | Some raw \<Rightarrow> (case LoadVerified (ce_bytes env) raw of Inl e \<Rightarrow> Inl (CaptureBundle e) | Inr b \<Rightarrow> Inr (b, False)))"

definition saveBundle :: "save_fault \<Rightarrow> string option \<Rightarrow> atb_bundle \<Rightarrow> string option \<times> capture_error option" where
  \<comment> \<open>\<^verbatim>\<open>Bundle.Save\<close>: the file afterwards; a lock that is held is a refusal\<close>
  "saveBundle fault content b =
     (case save_lines (Records b) of
        None \<Rightarrow> (content, Some (CaptureBundle EncodeFailed))
      | Some raw \<Rightarrow>
          (case fault of
             SaveOk \<Rightarrow> (Some raw, None)
           | SaveRefused \<Rightarrow> (content, Some (CaptureBundle WriteFailed))
           | SaveUnsynced \<Rightarrow> (Some raw, Some (CaptureBundle WriteFailed))))"

fun pending_loop :: "(entry \<Rightarrow> capture_error option) \<Rightarrow> string \<Rightarrow> entry list \<Rightarrow> (string \<Rightarrow> string option) \<Rightarrow> nat \<Rightarrow> atb_bundle \<Rightarrow>
    capture_error + atb_bundle \<times> nat" where
  \<comment> \<open>the loop over the pending entries: checked, skipped when the bundle has them already, appended otherwise; the arguments are
      the check, the index and the number appended so far\<close>
  "pending_loop check streamID [] index appended b = Inr (b, appended)"
| "pending_loop check streamID (e # es) index appended b =
     (case check e of
        Some err \<Rightarrow> Inl err
      | None \<Rightarrow>
          (case index (ObservationID e) of
             Some d \<Rightarrow>
               if d \<noteq> RepresentationDigest e then Inl CaptureOtherDigest
               else pending_loop check streamID es index appended b
           | None \<Rightarrow>
               (case appendMaterialised b e streamID of
                  Inl err \<Rightarrow> Inl err
                | Inr b' \<Rightarrow>
                    pending_loop check streamID es (index(ObservationID e \<mapsto> RepresentationDigest e)) (appended + 1) b')))"

definition is_v3 :: "atb_bundle \<Rightarrow> bool" where
  "is_v3 b = (case Manifest b of None \<Rightarrow> False | Some m \<Rightarrow> md_Version m = ''3'')"

definition record_for :: "atb_bundle \<Rightarrow> string \<Rightarrow> capture_error + string" where
  \<comment> \<open>the search from the end for the record of an observation\<close>
  "record_for b wantID =
     (case find (\<lambda>r. case Acquisition (Event r) of None \<Rightarrow> False | Some acq \<Rightarrow> acq_SourceRecordID acq = wantID) (rev (Records b)) of
        None \<Rightarrow> Inl CaptureRecordMissing
      | Some r \<Rightarrow> Inr (Hash r))"

definition commitPending :: "capture_env \<Rightarrow> string \<Rightarrow> capture_files \<Rightarrow> coordinator \<Rightarrow> capture_files \<times> coordinator \<times> (capture_error + string)" where
  "commitPending env wantID f c =
     (case checkpointPosition (cm_Checkpoint (cc_cm c)) of
        Inl e \<Rightarrow> (f, c, Inl e)
      | Inr committedPos \<Rightarrow>
          (case loadBundleForCapture env (cf_bundle f) of
             Inl e \<Rightarrow> (f, c, Inl e)
           | Inr (b, created) \<Rightarrow>
               if created \<and> \<not> is_v3 b then (f, c, Inl CaptureNotV3)
               else case pending_loop (validateEntry (cc_incarnation c)) (cc_streamID c) (EntriesFrom (cc_journal c) committedPos)
                           (indexAcquisition b) 0 b of
                      Inl e \<Rightarrow> (f, c, Inl e)
                    | Inr (b', appended) \<Rightarrow>
                        (case (if 0 < appended then saveBundle (ce_save env) (cf_bundle f) b' else (cf_bundle f, None)) of
                           (content, Some e) \<Rightarrow> (f\<lparr>cf_bundle := content\<rparr>, c, Inl e)
                         | (content, None) \<Rightarrow>
                             let j = cc_journal c;
                                 cm = cm_BindBundle (committedHead b') (int (length (Records b')))
                                        (UpdateCheckpoint (ce_now env) (show_int (LastPosition j)) [] (int (length (entries j))) (cc_cm c))
                             in case cm_Save (ce_checkpoint env) cm (cf_checkpoints f) of
                                  (cm', cks, err) \<Rightarrow>
                                    (f\<lparr>cf_bundle := content, cf_checkpoints := cks\<rparr>, c\<lparr>cc_cm := cm'\<rparr>,
                                     case err of Some e \<Rightarrow> Inl (CaptureCheckpoint e) | None \<Rightarrow> record_for b' wantID))))"

definition observation_entry :: "capture_env \<Rightarrow> coordinator \<Rightarrow> event \<Rightarrow> json \<Rightarrow> string \<Rightarrow> entry" where
  "observation_entry env c ev payload rep =
     zero_entry\<lparr>ObservationID := cc_incarnation c @ ''/'' @ cc_streamID c @ '':'' @ show_int (LastPosition (cc_journal c) + 1),
       SourceSystem := captureSourceSystem, SourceIncarnation := cc_incarnation c, RepresentationVersion := captureRepresentationVersion,
       RepresentationDigest := rep, ObservationType := Type ev, Payload := payload, SourceTimestamp := Timestamp ev,
       ObservedAt := ce_now env, Adapter := captureAdapter, AdapterVersion := captureAdapterVersion\<rparr>"

definition journalObservation :: "capture_env \<Rightarrow> event \<Rightarrow> coordinator \<Rightarrow> coordinator \<times> (capture_error + entry)" where
  \<comment> \<open>an error before the journal leaves a marker, as far as it can be written\<close>
  "journalObservation env ev c =
     (case (case marshalObservation ev of
              Inl e \<Rightarrow> Inl e
            | Inr payload \<Rightarrow> (case digestRepresentation payload of Inl e \<Rightarrow> Inl e | Inr rep \<Rightarrow> Inr (payload, rep))) of
        Inl e \<Rightarrow> (c\<lparr>cc_journal := mark_degraded (ce_mark env) (ce_error_text env e) (cc_journal c)\<rparr>, Inl e)
      | Inr (payload, rep) \<Rightarrow>
          (case Journal.Append (ce_write env) (ce_sync env) (ce_mark env) (cc_journal c) (observation_entry env c ev payload rep) of
             (j, Inl e) \<Rightarrow> (c\<lparr>cc_journal := j\<rparr>, Inl (CaptureJournal e))
           | (j, Inr e) \<Rightarrow> (c\<lparr>cc_journal := j\<rparr>, Inr e)))"

definition capture_fail :: "capture_error \<Rightarrow> coordinator \<Rightarrow> coordinator" where
  "capture_fail e c = c\<lparr>cc_lastErr := Some e, cc_state := captureDegraded\<rparr>"

definition commit :: "capture_env \<Rightarrow> event \<Rightarrow> capture_files \<Rightarrow> coordinator \<Rightarrow> capture_files \<times> coordinator \<times> (capture_error + string)" where
  "commit env ev f c =
     (case journalObservation env ev c of
        (c1, Inl e) \<Rightarrow> (f\<lparr>cf_journal := store (cc_journal c1)\<rparr>, capture_fail e (c1\<lparr>cc_knownGap := True\<rparr>), Inl e)
      | (c1, Inr entry) \<Rightarrow>
          (case commitPending env (ObservationID entry) (f\<lparr>cf_journal := store (cc_journal c1)\<rparr>) c1 of
             (f2, c2, Inl e) \<Rightarrow> (f2, capture_fail e c2, Inl e)
           | (f2, c2, Inr h) \<Rightarrow>
               (f2, c2\<lparr>cc_lastErr := None, cc_lastObservationAt := ObservedAt entry, cc_lastCommitAt := ce_now env,
                        cc_state := (if cc_knownGap c2 then captureDegraded else captureHealthy)\<rparr>, Inr h)))"

section \<open>Recovery\<close>

definition replay :: "capture_env \<Rightarrow> atb_bundle \<Rightarrow> bool \<Rightarrow> int \<Rightarrow> capture_files \<Rightarrow> coordinator \<Rightarrow> capture_files \<times> (capture_error + coordinator)" where
  \<comment> \<open>the part of \<^verbatim>\<open>recover\<close> after its checks\<close>
  "replay env b created committedPos f c =
     (case pending_loop (\<lambda>_. None) (cc_streamID c) (EntriesFrom (cc_journal c) committedPos) (indexAcquisition b) 0 b of
        Inl e \<Rightarrow> (f, Inl e)
      | Inr (b', appended) \<Rightarrow>
          (case (if 0 < appended then saveBundle (ce_save env) (cf_bundle f) b' else (cf_bundle f, None)) of
             (content, Some e) \<Rightarrow> (f\<lparr>cf_bundle := content\<rparr>, Inl e)
           | (content, None) \<Rightarrow>
               let j = cc_journal c;
                   cm = (if \<not> created \<or> 0 < appended
                         then UpdateCheckpoint (ce_now env) (show_int (LastPosition j)) [] (int (length (entries j)))
                                (cm_BindBundle (committedHead b') (int (length (Records b'))) (cc_cm c))
                         else cc_cm c)
               in case cm_Save (ce_checkpoint env) cm (cf_checkpoints f) of
                    (cm', cks, Some e) \<Rightarrow> (f\<lparr>cf_bundle := content, cf_checkpoints := cks\<rparr>, Inl (CaptureCheckpoint e))
                  | (cm', cks, None) \<Rightarrow>
                      (f\<lparr>cf_bundle := content, cf_checkpoints := cks\<rparr>,
                       Inr (c\<lparr>cc_cm := cm', cc_replayed := appended,
                              cc_lastCommitAt := (case cm_Checkpoint cm' of None \<Rightarrow> [] | Some ck \<Rightarrow> ck_ObservedAt ck),
                              cc_state := (if cc_knownGap c then captureDegraded else captureHealthy)\<rparr>))))"

definition recover :: "capture_env \<Rightarrow> capture_files \<Rightarrow> coordinator \<Rightarrow> capture_files \<times> (capture_error + coordinator)" where
  "recover env f c =
     (case loadBundleForCapture env (cf_bundle f) of
        Inl e \<Rightarrow> (f, Inl e)
      | Inr (b, created) \<Rightarrow>
          if \<not> created \<and> Verify b \<noteq> None then (f, Inl (CaptureBundle (the (Verify b))))
          else if \<not> created \<and> \<not> is_v3 b then (f, Inl CaptureNotV3)
          else case validateCheckpointPrefix (cm_Checkpoint (cc_cm c)) b of
                 Some e \<Rightarrow> (f, Inl e)
               | None \<Rightarrow>
                   (case checkpointPosition (cm_Checkpoint (cc_cm c)) of
                      Inl e \<Rightarrow> (f, Inl e)
                    | Inr committedPos \<Rightarrow>
                        if bundleHasAcquisition b \<and> entries (cc_journal c) = [] \<and> committedPos = 0 then (f, Inl CaptureContinuityLost)
                        else if cc_fresh c \<and> \<not> journalAccountsForEvidence b (entries (cc_journal c)) then (f, Inl CaptureContinuityLost)
                        else if committedPos > LastPosition (cc_journal c) then (f, Inl CaptureAhead)
                        else case List.find (\<lambda>e. validateEntry (cc_incarnation c) e \<noteq> None) (entries (cc_journal c)) of
                               Some e \<Rightarrow> (f, Inl (the (validateEntry (cc_incarnation c) e)))
                             | None \<Rightarrow> replay env b created committedPos f c))"

definition journal_path :: "string \<Rightarrow> string" where
  "journal_path bundlePath = path_Join [path_Dir bundlePath, captureJournalDir, path_Base bundlePath @ ''.journal.ndjson'']"

definition choose_incarnation :: "capture_env \<Rightarrow> string \<Rightarrow> checkpoint option \<Rightarrow> journal \<Rightarrow> capture_error + string" where
  \<comment> \<open>the token of the operator, that of the checkpoint, that of the journal, or a new one\<close>
  "choose_incarnation env sourceIncarnation existing j =
     (if TrimSpace sourceIncarnation \<noteq> [] then Inr (TrimSpace sourceIncarnation)
      else case existing of
             Some c \<Rightarrow>
               if ck_SourceIncarnation c \<noteq> [] then Inr (ck_SourceIncarnation c)
               else if journalIncarnation j \<noteq> [] then Inr (journalIncarnation j)
               else newIncarnation (ce_incarnation env)
           | None \<Rightarrow> if journalIncarnation j \<noteq> [] then Inr (journalIncarnation j) else newIncarnation (ce_incarnation env))"

definition capture_manager :: "capture_env \<Rightarrow> Acquire.disk \<Rightarrow> string \<Rightarrow> string \<Rightarrow> bool \<Rightarrow> capture_error + checkpoint_manager" where
  \<comment> \<open>the checkpoint manager of a start: loaded, validated unless it is fresh, bound to the incarnation\<close>
  "capture_manager env cks bundlePath incarnation fresh =
     (let streamID = path_Base bundlePath;
          cm0 = (NewCheckpointManager (ResolveCheckpointPath bundlePath streamID) captureSourceSystem streamID captureAdapter captureAdapterVersion
                   \<lparr>si_System = captureSourceSystem, si_RecordID = streamID, si_Derived = True\<rparr>)\<lparr>cm_SourceIncarnation := incarnation\<rparr>
      in case LoadOrInitialize (ce_readable env) cks (ce_now env) cm0 of
           Inl e \<Rightarrow> Inl (CaptureCheckpoint e)
         | Inr cm \<Rightarrow>
             (case (if fresh then None else ValidateSource cm) of
                Some e \<Rightarrow> Inl (CaptureCheckpoint e)
              | None \<Rightarrow>
                  Inr (cm\<lparr>cm_Checkpoint := map_option (\<lambda>ck. if ck_SourceIncarnation ck = [] then ck\<lparr>ck_SourceIncarnation := incarnation\<rparr> else ck)
                                             (cm_Checkpoint cm)\<rparr>)))"

definition start_with :: "capture_env \<Rightarrow> string \<Rightarrow> string \<Rightarrow> checkpoint option \<Rightarrow> capture_files \<Rightarrow> capture_files \<times> (capture_error + coordinator)" where
  \<comment> \<open>the part of \<^verbatim>\<open>enableCapture\<close> after the checkpoint was looked for; the texts for the operator are left out\<close>
  "start_with env bundlePath sourceIncarnation existing f =
     (case Journal.Open (ce_marker_ok env) (ce_truncate_ok env) (cf_journal f) of
        (d, Inl e) \<Rightarrow> (f\<lparr>cf_journal := d\<rparr>, Inl (CaptureJournal e))
      | (d, Inr j) \<Rightarrow>
          (case choose_incarnation env sourceIncarnation existing j of
             Inl e \<Rightarrow> (f\<lparr>cf_journal := d\<rparr>, Inl e)
           | Inr incarnation \<Rightarrow>
               (case capture_manager env (cf_checkpoints f) bundlePath incarnation (existing = None) of
                  Inl e \<Rightarrow> (f\<lparr>cf_journal := d\<rparr>, Inl e)
                | Inr cm \<Rightarrow>
                    recover env (f\<lparr>cf_journal := d\<rparr>)
                      \<lparr>cc_streamID = path_Base bundlePath, cc_incarnation = incarnation, cc_journal = j, cc_cm = cm, cc_fresh = (existing = None),
                       cc_state = captureUnknown, cc_lastObservationAt = [], cc_lastCommitAt = [], cc_replayed = 0, cc_lastErr = None,
                       cc_knownGap = (repaired j \<or> degraded_marker d \<noteq> None)\<rparr>)))"

definition start_capture :: "capture_env \<Rightarrow> string \<Rightarrow> string \<Rightarrow> capture_files \<Rightarrow> capture_files \<times> (capture_error + coordinator)" where
  "start_capture env bundlePath sourceIncarnation f =
     (case checkpoint_Load (ce_readable env) (cf_checkpoints f) (ResolveCheckpointPath bundlePath (path_Base bundlePath)) of
        Inl e \<Rightarrow>
          if e \<noteq> CheckpointNotFound then (f, Inl (CaptureCheckpoint e)) else start_with env bundlePath sourceIncarnation None f
      | Inr ck \<Rightarrow> start_with env bundlePath sourceIncarnation (Some ck) f)"

section \<open>The recorder\<close>

record recorder =
  rc_path :: string
  rc_files :: capture_files
  rc_capture :: "coordinator option"
  rc_stopped :: bool

definition enableCapture :: "capture_env \<Rightarrow> string \<Rightarrow> recorder \<Rightarrow> recorder \<times> capture_error option" where
  "enableCapture env sourceIncarnation r =
     (if rc_capture r \<noteq> None \<and> \<not> rc_stopped r then (r, None)
      else let r0 = r\<lparr>rc_capture := None, rc_stopped := False\<rparr>
           in case start_capture env (rc_path r) sourceIncarnation (rc_files r) of
                (f, Inl e) \<Rightarrow> (r0\<lparr>rc_files := f\<rparr>, Some e)
              | (f, Inr c) \<Rightarrow> (r0\<lparr>rc_files := f, rc_capture := Some c\<rparr>, None))"

definition loadBundleForAppend :: "capture_env \<Rightarrow> string option \<Rightarrow> capture_error + atb_bundle" where
  "loadBundleForAppend env content =
     (if \<not> ce_stat_ok env then Inl CaptureStat
      else case content of
             None \<Rightarrow>
               (case NewWithOptions (ce_created env) (ce_random env) \<lparr>no_ManifestVersion = 0, no_CaptureRunID = []\<rparr> of
                  Inl e \<Rightarrow> Inl (CaptureBundle e)
                | Inr b \<Rightarrow> Inr b)
           | Some raw \<Rightarrow> (case LoadVerified (ce_bytes env) raw of Inl e \<Rightarrow> Inl (CaptureBundle e) | Inr b \<Rightarrow> Inr b))"

definition append_direct :: "capture_env \<Rightarrow> event \<Rightarrow> capture_files \<Rightarrow> capture_files \<times> (capture_error + string)" where
  \<comment> \<open>the part of \<^verbatim>\<open>appendEventLocked\<close> for a recorder that does not capture\<close>
  "append_direct env ev f =
     (case loadBundleForAppend env (cf_bundle f) of
        Inl e \<Rightarrow> (f, Inl e)
      | Inr b \<Rightarrow>
          (case AppendWithOptions b (Type ev) (Data ev) (Some ((timestamp_options (Timestamp ev))\<lparr>ao_ActorID := ActorID ev\<rparr>)) of
             Inl e \<Rightarrow> (f, Inl (CaptureBundle e))
           | Inr b' \<Rightarrow>
               if Records b' = [] then (f, Inl CaptureRecordMissing)
               else case saveBundle (ce_save env) (cf_bundle f) b' of
                      (content, Some e) \<Rightarrow> (f\<lparr>cf_bundle := content\<rparr>, Inl e)
                    | (content, None) \<Rightarrow> (f\<lparr>cf_bundle := content\<rparr>, Inr (Hash (last (Records b'))))))"

definition appendEventLocked :: "capture_env \<Rightarrow> event \<Rightarrow> recorder \<Rightarrow> recorder \<times> (capture_error + string)" where
  "appendEventLocked env ev r =
     (if rc_stopped r then (r, Inl CaptureStopped)
      else case rc_capture r of
             Some c \<Rightarrow> (case commit env ev (rc_files r) c of (f, c', res) \<Rightarrow> (r\<lparr>rc_files := f, rc_capture := Some c'\<rparr>, res))
           | None \<Rightarrow> (case append_direct env ev (rc_files r) of (f, res) \<Rightarrow> (r\<lparr>rc_files := f\<rparr>, res)))"

definition close_journal :: "recorder \<Rightarrow> recorder" where
  "close_journal r = r\<lparr>rc_capture := map_option (\<lambda>c. c\<lparr>cc_journal := Journal.Close (cc_journal c)\<rparr>) (rc_capture r)\<rparr>"

definition closeCapture :: "recorder \<Rightarrow> recorder" where
  "closeCapture r = (close_journal r)\<lparr>rc_stopped := True\<rparr>"

definition recorder_Close :: "recorder \<Rightarrow> recorder" where
  "recorder_Close r = close_journal r"

definition CaptureHealth :: "recorder \<Rightarrow> capture_error option" where
  "CaptureHealth r = (case rc_capture r of None \<Rightarrow> None | Some c \<Rightarrow> cc_lastErr c)"

end
