(* ===== verification/Capture_Props.thy ===== *)
theory Capture_Props
  imports Capture Agent_Props Acquire_Props Sign
begin

text \<open>
  Continuous capture over whole runs: starts, observations, stops and crashes, with any faults. Theorems: every durable
  observation is in the bundle exactly once, in the order of the journal, up to a point that never falls behind the checkpoint;
  an acknowledged observation is in the bundle, under the hash that was returned.
\<close>

section \<open>Loading what was saved\<close>

lemma wire_again:
  assumes "wire_ok e"
  shows "wire_ok (wire_event e)" "Acquisition (wire_event e) = map_option coerce_acquisition (Acquisition e)"
    "Type (wire_event e) = coerce_utf8 (Type e)"
proof -
  obtain w where w: "decoded w" "wire_event e = coerce_event e w" using wire_event_spec [OF assms] by blast
  obtain d where "to_json w = Some d" using to_json_wire [OF w(1)] by blast
  then have "event_json (coerce_event e w) \<noteq> None" by (simp add: event_json_def coerce_event_def)
  then show "wire_ok (wire_event e)"
    using assms w decoded_go_value [OF w(1)] by (simp add: wire_ok_def) (simp add: coerce_event_def)
  show "Acquisition (wire_event e) = map_option coerce_acquisition (Acquisition e)" "Type (wire_event e) = coerce_utf8 (Type e)"
    by (simp_all add: w(2) coerce_event_def)
qed

lemma load_loop_inv:
  assumes "save_lines rs = Some raw" "list_all (\<lambda>r. wire_ok (Event r)) rs" "tracks t p"
    and "load_loop limits br i (raw_lines raw) recs t = Inr out"
  shows "out = recs @ bind_all p rs"
  using assms
proof (induction rs arbitrary: raw i recs t p)
  case (Cons r rs)
  from Cons.prems(1) obtain j raw' where j: "record_json r = Some j" and raw': "save_lines rs = Some raw'"
    and raw: "raw = render_html j @ CHR 0x0A # raw'" by (auto split: option.splits)
  have dec: "decode_record (render_html j) = Some (wire_record r)" and wf: "wf_json j"
    using decode_record_render [of r j] Cons.prems(2) j by auto
  have pr: "printable (render_html j)" by (rule printable_render_html [OF wf])
  from Cons.prems(4) have "load_loop limits br (i + 1) (raw_lines raw') (recs @ [bind_prefix p (wire_record r)])
      (tracker_add t (render_html j @ [CHR 0x0A])) = Inr out"
    unfolding raw raw_lines_step [OF pr] using dec render_html_nonempty [OF wf]
    by (simp add: Let_def trim_line_printable [OF pr] set_snapshot_tracks [OF Cons.prems(3)] split: if_splits)
  from Cons.IH [OF raw' _ _ this, of "p @ render_html j @ [CHR 0x0A]"] Cons.prems(2,3) j show ?case
    by (simp add: tracks_add)
qed simp

lemma LoadVerified_reader: "LoadVerified br raw = Inr b \<Longrightarrow> LoadReader br raw = Inr b"
  unfolding LoadVerified_def bind_res_eq_Inr by (auto split: if_splits option.splits)

lemma LoadReader_saved:
  assumes "LoadReader br raw = Inr b" "save_lines (Records b0) = Some raw" "list_all (\<lambda>r. wire_ok (Event r)) (Records b0)"
  shows "Records b = bind_all [] (Records b0)"
proof -
  from assms(1) obtain out where out: "load_loop \<lparr>MaxBytes = MaxBundleSizeBytes, MaxRecords = MaxBundleRecords\<rparr> br 0 (raw_lines raw) [] new_tracker = Inr out"
    "Records b = out"
    by (auto simp: LoadReader_def LoadReaderWithLimits_def split: if_splits sum.splits)
  show ?thesis using load_loop_inv [OF assms(2,3) tracks_new out(1)] out(2) by simp
qed

lemma LoadReader_length:
  assumes "LoadReader br raw = Inr b" shows "int (length (Records b)) \<le> MaxBundleRecords"
proof -
  have len: "int (length out) \<le> max (int (length recs)) (MaxRecords limits)" if "load_loop limits br i lines recs t = Inr out" for limits i lines recs t out
    using that by (induction limits br i lines recs t rule: load_loop.induct) (fastforce simp: Let_def split: if_splits option.splits)+
  from assms show ?thesis
    using len by (force simp: LoadReader_def LoadReaderWithLimits_def MaxBundleRecords_def split: if_splits sum.splits)
qed

lemmas LoadVerified_saved = LoadReader_saved [OF LoadVerified_reader]
  and LoadVerified_length = LoadReader_length [OF LoadVerified_reader]

section \<open>Evidence\<close>

definition evidence_of :: "bundle_record \<Rightarrow> (string \<times> string) option" where
  \<comment> \<open>the observation and digest a record is evidence of\<close>
  "evidence_of r =
     (case Acquisition (Event r) of
        None \<Rightarrow> None
      | Some acq \<Rightarrow> if acq_SourceRecordID acq = [] then None else Some (acq_SourceRecordID acq, acq_SourceDigest acq))"

definition evidence :: "bundle_record list \<Rightarrow> (string \<times> string) list" where
  "evidence rs = List.map_filter evidence_of rs"

definition obs :: "entry \<Rightarrow> string \<times> string" where
  "obs e = (ObservationID e, RepresentationDigest e)"

lemma evidence_simps [simp]:
  "evidence [] = []" "evidence (r # rs) = (case evidence_of r of None \<Rightarrow> evidence rs | Some x \<Rightarrow> x # evidence rs)"
  "evidence (rs @ ss) = evidence rs @ evidence ss"
  by (simp_all add: evidence_def List.map_filter_def split: option.splits)

lemma evidence_member: "r \<in> set rs \<Longrightarrow> evidence_of r = Some p \<Longrightarrow> p \<in> set (evidence rs)"
  by (induction rs) (auto split: option.splits)

lemma evidence_bind_all:
  assumes "list_all (\<lambda>r. wire_ok (Event r)) rs"
  shows "evidence (bind_all p rs) = map (\<lambda>(i, d). (coerce_utf8 i, coerce_utf8 d)) (evidence rs)"
  using assms
proof (induction rs arbitrary: p)
  case (Cons r rs)
  have "evidence_of (bind_prefix p (wire_record r)) = map_option (\<lambda>(i, d). (coerce_utf8 i, coerce_utf8 d)) (evidence_of r)"
    using wire_again(2) [of "Event r"] Cons.prems
    by (cases "Acquisition (Event r)") (auto simp: evidence_of_def wire_record_def new_record_def coerce_acquisition_def)
  with Cons show ?case by (cases "evidence_of r") auto
qed simp

lemma wire_bind_all: "list_all (\<lambda>r. wire_ok (Event r)) rs \<Longrightarrow> list_all (\<lambda>r. wire_ok (Event r)) (bind_all p rs)"
  by (induction rs arbitrary: p) (simp_all add: wire_record_def new_record_def wire_again)

lemma indexAcquisition_evidence: "indexAcquisition b = map_of (rev (evidence (Records b)))"
proof -
  have "fold (\<lambda>r out. case Acquisition (Event r) of
                       None \<Rightarrow> out
                     | Some acq \<Rightarrow> if acq_SourceRecordID acq = [] then out else out(acq_SourceRecordID acq \<mapsto> acq_SourceDigest acq))
       rs m = m ++ map_of (rev (evidence rs))" for rs and m :: "string \<Rightarrow> string option"
    by (induction rs arbitrary: m) (auto simp: evidence_of_def map_add_upd_left split: option.splits)
  then show ?thesis by (simp add: indexAcquisition_def)
qed

section \<open>The loop over pending entries\<close>

lemma appendMaterialised_Inr:
  assumes "appendMaterialised b e sid = Inr b'"
  obtains t d x o' where "Records b' = Records b @ [x]" "AppendWithOptions b t d (Some o') = Inr b'" "decoded d \<or> \<not> utf8_json (Payload e)"
    "Acquisition (Event x) = Some (acquisition_of e sid (RepresentationDigest e))" "Data (Event x) = d"
proof -
  from assms obtain p rep d where p: "decode_struct set_observation observation_names (Payload e) zero_observation = Some p"
    "rep = RepresentationDigest e" "(case ob_Data p of None \<Rightarrow> Some ANil | Some d \<Rightarrow> to_any d) = Some d"
    "AppendWithOptions b (ob_Type p) d
       (Some \<lparr>ao_ActorID = ob_ActorID p, ao_OrgID = ob_OrgID p, ao_WorkspaceID = ob_WorkspaceID p, ao_Timestamp = ob_Timestamp p,
          ao_TraceID = ob_TraceID p, ao_SpanID = ob_SpanID p, ao_ParentSpanID = ob_ParentSpanID p,
          ao_Acquisition = Some (acquisition_of e sid rep)\<rparr>) = Inr b'"
    by (auto simp: appendMaterialised_def split: option.splits sum.splits if_splits)
  define o' where "o' = \<lparr>ao_ActorID = ob_ActorID p, ao_OrgID = ob_OrgID p, ao_WorkspaceID = ob_WorkspaceID p, ao_Timestamp = ob_Timestamp p,
          ao_TraceID = ob_TraceID p, ao_SpanID = ob_SpanID p, ao_ParentSpanID = ob_ParentSpanID p,
          ao_Acquisition = Some (acquisition_of e sid rep)\<rparr>"
  have data: "utf8_json d'" if "utf8_json (Payload e)" "ob_Data p = Some d'" for d'
  proof -
    have set: "pred_option utf8_json (ob_Data q')" if "set_observation n v q = Some q'" "pred_option utf8_json (ob_Data q)" "utf8_json v" for n v q q'
      using that by (auto simp: set_observation_def split: if_splits)
    have "pred_option utf8_json (ob_Data p)"
      by (rule decode_struct_keeps [OF p(1) that(1) _ set]) (simp_all add: zero_observation_def)
    with that(2) show ?thesis by simp
  qed
  have dec: "decoded d \<or> \<not> utf8_json (Payload e)"
    using p(3) data to_any_decoded(1) by (cases "ob_Data p") auto
  note app = p(4) [folded o'_def]
  define x where "x = new_record (next_event b (ob_Type p) d (Some o')) (event_hash (next_event b (ob_Type p) d (Some o')))"
  have "Records b' = Records b @ [x]" using app by (simp add: AppendWithOptions_Inr x_def)
  moreover have "Acquisition (Event x) = Some (acquisition_of e sid (RepresentationDigest e))" "Data (Event x) = d"
    by (simp_all add: x_def new_record_def next_event_def apply_options_def Let_def o'_def p(2) zero_event_def)
  ultimately show ?thesis using that [OF _ app dec] by blast
qed

definition good_entry :: "entry \<Rightarrow> bool" where
  \<comment> \<open>an entry as the coordinator writes it: valid UTF-8 throughout, a trimmed incarnation, an id that ends in its position\<close>
  "good_entry e \<longleftrightarrow> coerce_entry e = e \<and> TrimSpace (SourceIncarnation e) = SourceIncarnation e \<and>
     (\<exists>p. ObservationID e = p @ '':'' @ show_int (Position e))"

lemma good_entry_id:
  assumes "good_entry e"
  shows "ObservationID e \<noteq> []" "valid_utf8 (ObservationID e)" "valid_utf8 (RepresentationDigest e)" "utf8_json (Payload e)"
proof -
  have c: "coerce_utf8 (ObservationID e) = ObservationID e" "coerce_utf8 (RepresentationDigest e) = RepresentationDigest e"
    "coerce_json (Payload e) = Payload e"
    using assms by (auto simp: good_entry_def coerce_entry_def) (metis entry.select_convs)+
  show "ObservationID e \<noteq> []" using assms by (auto simp: good_entry_def)
  show "valid_utf8 (ObservationID e)" "valid_utf8 (RepresentationDigest e)" using c by simp_all
  show "utf8_json (Payload e)" using c(3) utf8_coerce_json by metis
qed

lemma appendMaterialised_good:
  assumes "appendMaterialised b e sid = Inr b'" "good_entry e" "Verify b = None" "list_all (\<lambda>r. wire_ok (Event r)) (Records b)"
    and "int (length (Records b)) < 2 ^ 62"
  shows "Verify b' = None" "list_all (\<lambda>r. wire_ok (Event r)) (Records b')" "evidence (Records b') = evidence (Records b) @ [obs e]"
    "length (Records b') = length (Records b) + 1" "\<exists>x. Records b' = Records b @ [x] \<and> evidence_of x = Some (obs e)"
proof -
  obtain t d x o' where x: "Records b' = Records b @ [x]" "AppendWithOptions b t d (Some o') = Inr b'" "decoded d \<or> \<not> utf8_json (Payload e)"
    "Acquisition (Event x) = Some (acquisition_of e sid (RepresentationDigest e))" "Data (Event x) = d"
    by (rule appendMaterialised_Inr [OF assms(1)])
  show v: "Verify b' = None" by (rule append_verifies [OF assms(3) x(2)])
  have dec: "decoded d" using x(3) good_entry_id(4) [OF assms(2)] by simp
  then obtain j where "to_json d = Some j" using to_json_wire by blast
  moreover have "Sequence (Event x) = first_seq (Records b') + int (length (Records b))"
    using v x(1) numbered_nth [of "first_seq (Records b')" "map Event (Records b')" "length (Records b)"] by (simp add: Verify_None nth_append)
  ultimately have "wire_ok (Event x)"
    using assms(5) decoded_go_value [OF dec] x(5) by (auto simp: wire_ok_def int64_def first_seq_def event_json_def)
  with x(1) assms(4) show "list_all (\<lambda>r. wire_ok (Event r)) (Records b')" by simp
  have ev: "evidence_of x = Some (obs e)"
    using x(4) good_entry_id(1) [OF assms(2)] by (simp add: evidence_of_def acquisition_of_def obs_def)
  with x(1) show "evidence (Records b') = evidence (Records b) @ [obs e]" "length (Records b') = length (Records b) + 1"
    "\<exists>x. Records b' = Records b @ [x] \<and> evidence_of x = Some (obs e)" by simp_all
qed

text \<open>What the loop does to a bundle whose observations are a prefix of the journal, started anywhere in that prefix: the bundle
  has all of them afterwards, once each and in order.\<close>

lemma pending_loop_evidence:
  assumes "pending_loop check sid es index n b = Inr (b', n')" "list_all good_entry es" "distinct (map ObservationID es)"
    and "index = map_of (rev (evidence (Records b)))" "Verify b = None" "list_all (\<lambda>r. wire_ok (Event r)) (Records b)"
    and "int (length (Records b)) + int (length es) < 2 ^ 62"
  shows "Verify b' = None \<and> list_all (\<lambda>r. wire_ok (Event r)) (Records b') \<and>
    evidence (Records b') = evidence (Records b) @ map obs (filter (\<lambda>e. ObservationID e \<notin> fst ` set (evidence (Records b))) es) \<and>
    (\<exists>new. Records b' = Records b @ new \<and> n' = n + length new \<and> list_all (\<lambda>r. evidence_of r \<noteq> None) new)"
  using assms
proof (induction check sid es index n b rule: pending_loop.induct)
  case (2 check sid e es index n b)
  have ok: "check e = None" using 2(3) by (cases "check e") auto
  show ?case
  proof (cases "index (ObservationID e)")
    case (Some d)
    with 2(3) ok have d: "d = RepresentationDigest e" "pending_loop check sid es index n b = Inr (b', n')" by (auto split: if_splits)
    have "ObservationID e \<in> fst ` set (evidence (Records b))" using Some 2(6) by (force dest: map_of_SomeD)
    with 2(2) [OF ok Some] d 2(4-9) show ?thesis by simp
  next
    case None
    with 2(3) ok obtain b1 where b1: "appendMaterialised b e sid = Inr b1"
      "pending_loop check sid es (index(ObservationID e \<mapsto> RepresentationDigest e)) (n + 1) b1 = Inr (b', n')" by (auto split: sum.splits)
    have e: "good_entry e" using 2(4) by simp
    have small: "int (length (Records b)) < 2 ^ 62" using 2(9) by simp
    note g = appendMaterialised_good [OF b1(1) e 2(7,8) small]
    have out: "ObservationID e \<notin> fst ` set (evidence (Records b))"
      using None 2(6) by (auto simp: map_of_eq_None_iff)
    have idx: "index(ObservationID e \<mapsto> RepresentationDigest e) = map_of (rev (evidence (Records b1)))"
      unfolding g(3) 2(6) by (simp add: obs_def)
    have "Verify b' = None \<and> list_all (\<lambda>r. wire_ok (Event r)) (Records b') \<and>
        evidence (Records b') = evidence (Records b1) @ map obs (filter (\<lambda>e. ObservationID e \<notin> fst ` set (evidence (Records b1))) es) \<and>
        (\<exists>new. Records b' = Records b1 @ new \<and> n' = n + 1 + length new \<and> list_all (\<lambda>r. evidence_of r \<noteq> None) new)"
      by (rule 2(1) [OF ok None b1(1) b1(2) _ _ idx g(1,2)]) (use 2(4,5,9) g(4) in auto)
    moreover have "filter (\<lambda>e. ObservationID e \<notin> fst ` set (evidence (Records b1))) es =
        filter (\<lambda>e. ObservationID e \<notin> fst ` set (evidence (Records b))) es"
    proof (rule filter_cong [OF refl])
      fix x assume "x \<in> set es"
      then have "ObservationID x \<in> set (map ObservationID es)" by simp
      then have "ObservationID x \<noteq> ObservationID e" using 2(5) by fastforce
      then show "(ObservationID x \<notin> fst ` set (evidence (Records b1))) = (ObservationID x \<notin> fst ` set (evidence (Records b)))"
        by (auto simp: g(3) obs_def)
    qed
    moreover obtain x where "Records b1 = Records b @ [x]" "evidence_of x = Some (obs e)" using g(5) by blast
    ultimately show ?thesis using g(3) out by auto
  qed
qed simp

section \<open>The three files\<close>

definition journal_holds :: "Journal.disk \<Rightarrow> entry list \<Rightarrow> bool" where
  \<comment> \<open>the journal on disk: the lines of the entries, and perhaps the beginning of another one\<close>
  "journal_holds d es \<longleftrightarrow>
     chained [] es \<and> list_all good_entry es \<and>
     (\<exists>t. (case disk_file d of None \<Rightarrow> [] | Some c \<Rightarrow> c) = lines_of es @ t \<and> CHR 0x0A \<notin> set t)"

definition bundle_holds :: "string option \<Rightarrow> entry list \<Rightarrow> bool" where
  "bundle_holds content es =
     (case content of
        None \<Rightarrow> es = []
      | Some raw \<Rightarrow>
          \<exists>b. save_lines (Records b) = Some raw \<and> Verify b = None \<and> list_all (\<lambda>r. wire_ok (Event r)) (Records b) \<and>
              evidence (Records b) = map obs es)"

definition position_le :: "checkpoint \<Rightarrow> nat \<Rightarrow> bool" where
  "position_le c k = (case checkpointPosition (Some c) of Inl _ \<Rightarrow> False | Inr p \<Rightarrow> 0 \<le> p \<and> p \<le> int k)"

definition ck_good :: "checkpoint \<Rightarrow> nat \<Rightarrow> bool" where
  \<comment> \<open>a checkpoint of the coordinator that is not ahead of the bundle\<close>
  "ck_good c k \<longleftrightarrow> ck_ok c \<and> TrimSpace (ck_SourceIncarnation c) = ck_SourceIncarnation c \<and> position_le c k"

definition checkpoint_holds :: "Acquire.disk \<Rightarrow> string \<Rightarrow> nat \<Rightarrow> bool" where
  "checkpoint_holds dsk path k =
     (case dsk (path_Clean path) of
        None \<Rightarrow> True
      | Some raw \<Rightarrow> \<exists>c. raw = MarshalIndent (JObject (checkpoint_members c)) \<and> ck_FormatVersion c = 1 \<and> ck_good c k)"

lemma chained_positions: "chained [] es \<Longrightarrow> i < length es \<Longrightarrow> Position (es ! i) = int i + 1"
proof (induction es rule: rev_induct)
  case (snoc e es)
  then show ?case by (cases "i = length es") (auto simp: chained_append next_ok_def nth_append)
qed simp

lemma good_id_position:
  assumes "good_entry e" "good_entry e'" "ObservationID e = ObservationID e'"
    and "0 < Position e" "0 < Position e'" "int64 (Position e)" "int64 (Position e')"
  shows "Position e = Position e'"
proof -
  have last: "rev (takeWhile (\<lambda>c. c \<noteq> CHR '':'') (rev (p @ '':'' @ show_int n))) = show_int n" if "0 < n" for p n
  proof -
    have "CHR '':'' \<notin> set (show_int n)" using show_seq_text(2) [of n] that by (auto simp: is_digit_def)
    then have "takeWhile (\<lambda>c. c \<noteq> CHR '':'') (rev (show_int n) @ CHR '':'' # rev p) = rev (show_int n)"
      by (subst takeWhile_append2) auto
    then show ?thesis by simp
  qed
  obtain p q where "p @ '':'' @ show_int (Position e) = q @ '':'' @ show_int (Position e')" using assms(1-3) unfolding good_entry_def by metis
  then have "show_int (Position e) = show_int (Position e')" using last [OF assms(4), of p] last [OF assms(5), of q] by metis
  then show ?thesis using ParseInt_show_int assms(6,7) by (metis int64_def option.inject)
qed

lemma good_ids_distinct:
  assumes "chained [] es" "list_all good_entry es"
  shows "distinct (map ObservationID es)"
proof -
  have pos: "int64 (Position (es ! i))" if "i < length es" for i
  proof -
    have "chained [] (take i es @ es ! i # drop (Suc i) es)" using assms(1) id_take_nth_drop [OF that] by simp
    then have "next_ok (take i es) (es ! i)" by (simp add: chained_append)
    then show ?thesis unfolding next_ok_def storable_def by blast
  qed
  have "i = j" if "i < length es" "j < length es" "ObservationID (es ! i) = ObservationID (es ! j)" for i j
    using good_id_position [OF _ _ that(3)] assms(2) chained_positions [OF assms(1)] pos that by (simp add: list_all_length)
  then show ?thesis unfolding distinct_conv_nth by auto
qed

lemma valid_show_int: "0 \<le> n \<Longrightarrow> valid_utf8 (show_int n)"
  by (rule valid_utf8_literal) (use show_seq_text(2) [of n] in \<open>auto simp: list_all_iff is_digit_def\<close>)

subsection \<open>The bundle\<close>

lemma obs_coerce: "list_all good_entry es \<Longrightarrow> map (\<lambda>(i, d). (coerce_utf8 i, coerce_utf8 d)) (map obs es) = map obs es"
  using good_entry_id(2,3) by (auto simp: obs_def list_all_iff)

lemma NewWithOptions_v3:
  assumes "NewWithOptions t rnd \<lparr>no_ManifestVersion = v, no_CaptureRunID = []\<rparr> = Inr b"
  shows "Verify b = None" "list_all (\<lambda>r. wire_ok (Event r)) (Records b)" "evidence (Records b) = []" "length (Records b) = 1"
proof -
  show "Verify b = None" by (rule NewWithOptions_verifies [OF assms])
  from assms obtain d where d: "AppendWithOptions \<lparr>Records = []\<rparr> ManifestEventType d (Some (timestamp_options t)) = Inr b"
    "go_value d" "to_json d \<noteq> None"
    by (auto simp: NewWithOptions_def Let_def split: option.splits if_splits sum.splits)
  define e where "e = next_event \<lparr>Records = []\<rparr> ManifestEventType d (Some (timestamp_options t))"
  have r: "Records b = [new_record e (event_hash e)]" using d(1) by (simp add: AppendWithOptions_Inr e_def)
  have "Acquisition e = None" "Data e = d" "Sequence e = 0"
    by (simp_all add: e_def next_event_def apply_options_def timestamp_options_def Let_def zero_event_def)
  with d(2,3) r show "list_all (\<lambda>r. wire_ok (Event r)) (Records b)" "evidence (Records b) = []" "length (Records b) = 1"
    by (auto simp: wire_ok_def new_record_def int64_def event_json_def evidence_of_def)
qed

lemma bundle_loads:
  assumes "bundle_holds (Some raw) es" "list_all good_entry es" "LoadVerified br raw = Inr b"
  shows "Verify b = None" "list_all (\<lambda>r. wire_ok (Event r)) (Records b)" "evidence (Records b) = map obs es" "int (length (Records b)) < 2 ^ 60"
proof -
  from assms(1) obtain b0 :: atb_bundle where b0: "save_lines (Records b0) = Some raw" "list_all (\<lambda>r. wire_ok (Event r)) (Records b0)"
    "evidence (Records b0) = map obs es" unfolding bundle_holds_def option.case by blast
  note rs = LoadVerified_saved [OF assms(3) b0(1,2)]
  show "Verify b = None" by (rule LoadVerified_Inr(1) [OF assms(3)])
  show "list_all (\<lambda>r. wire_ok (Event r)) (Records b)" unfolding rs by (rule wire_bind_all [OF b0(2)])
  show "evidence (Records b) = map obs es" unfolding rs evidence_bind_all [OF b0(2)] b0(3) by (rule obs_coerce [OF assms(2)])
  show "int (length (Records b)) < 2 ^ 60" using LoadVerified_length [OF assms(3)] by (simp add: MaxBundleRecords_def)
qed

lemma capture_loads:
  assumes "bundle_holds content es" "list_all good_entry es" "loadBundleForCapture env content = Inr (b, created)"
  shows "Verify b = None" "list_all (\<lambda>r. wire_ok (Event r)) (Records b)" "evidence (Records b) = map obs es" "int (length (Records b)) < 2 ^ 60"
proof -
  have "Verify b = None \<and> list_all (\<lambda>r. wire_ok (Event r)) (Records b) \<and> evidence (Records b) = map obs es \<and> int (length (Records b)) < 2 ^ 60"
  proof (cases content)
    case None
    with assms(3) have "NewWithOptions (ce_created env) (ce_random env) \<lparr>no_ManifestVersion = 3, no_CaptureRunID = []\<rparr> = Inr b"
      by (auto simp: loadBundleForCapture_def split: if_splits sum.splits)
    from NewWithOptions_v3 [OF this] None assms(1) show ?thesis by (simp add: bundle_holds_def)
  next
    case (Some raw)
    with assms(3) have "LoadVerified (ce_bytes env) raw = Inr b" by (auto simp: loadBundleForCapture_def split: if_splits sum.splits)
    from bundle_loads [OF assms(1) [unfolded Some] assms(2) this] show ?thesis by blast
  qed
  then show "Verify b = None" "list_all (\<lambda>r. wire_ok (Event r)) (Records b)" "evidence (Records b) = map obs es" "int (length (Records b)) < 2 ^ 60"
    by blast+
qed

lemma saveBundle_holds:
  assumes "saveBundle fault content b = (content', err)" "Verify b = None" "list_all (\<lambda>r. wire_ok (Event r)) (Records b)" "evidence (Records b) = map obs es"
  shows "content' = content \<and> err \<noteq> None \<or> bundle_holds content' es \<and> content' = save_lines (Records b)"
proof (cases "save_lines (Records b)")
  case (Some raw)
  then have "bundle_holds (Some raw) es" using assms(2-4) unfolding bundle_holds_def option.case by blast
  with assms(1) Some show ?thesis by (auto simp: saveBundle_def split: save_fault.splits)
qed (use assms(1) in \<open>auto simp: saveBundle_def\<close>)

subsection \<open>The checkpoint\<close>

lemma position_written:
  assumes "0 \<le> n" "n \<le> int k" "int64 n" "ck_Position c = show_int n"
  shows "position_le c k"
proof -
  have "list_all (\<lambda>c. 33 \<le> ord c \<and> ord c < 127) (show_int n)" using show_seq_text(2) [OF assms(1)] by (auto simp: list_all_iff is_digit_def)
  then have t: "TrimSpace (show_int n) = show_int n" by (rule TrimSpace_graphic)
  have "show_int n \<noteq> ''start''" using show_seq_text(2) [OF assms(1)] by (auto simp: is_digit_def)
  then show ?thesis
    using assms t show_seq_text(3) [OF assms(1)] Atoi_show [OF assms(3,1)] by (simp add: position_le_def checkpointPosition_def)
qed

lemma position_le_mono: "position_le c k \<Longrightarrow> k \<le> k' \<Longrightarrow> position_le c k'"
  by (auto simp: position_le_def split: sum.splits)

lemma ck_good_mono: "ck_good c k \<Longrightarrow> k \<le> k' \<Longrightarrow> ck_good c k'"
  by (auto simp: ck_good_def position_le_mono)

lemma checkpoint_holds_mono: "checkpoint_holds dsk path k \<Longrightarrow> k \<le> k' \<Longrightarrow> checkpoint_holds dsk path k'"
  by (auto simp: checkpoint_holds_def dest: ck_good_mono split: option.splits)

lemma cm_Save_holds:
  assumes "cm_Checkpoint cm = Some c" "ck_good c k" "checkpoint_holds dsk (cm_CheckpointPath cm) k" "cm_Save sf cm dsk = (cm', dsk', err)"
  shows "checkpoint_holds dsk' (cm_CheckpointPath cm) k" "cm' = cm\<lparr>cm_Checkpoint := Some (save_version c)\<rparr>" "ck_good (save_version c) k"
proof -
  have g: "ck_good (save_version c) k" "ck_FormatVersion (save_version c) = 1"
    using assms(2) ck_ok_save [of c] by (auto simp: ck_good_def position_le_def checkpointPosition_def save_version_def)
  obtain c' where s: "checkpoint_Save sf c (cm_CheckpointPath cm) dsk = (c', dsk', err)" "cm' = cm\<lparr>cm_Checkpoint := Some c'\<rparr>"
    using assms(1,4) by (auto simp: cm_Save_def split: prod.splits)
  have c': "c' = save_version c" "dsk' = dsk \<or> dsk' = dsk(path_Clean (cm_CheckpointPath cm) \<mapsto> MarshalIndent (JObject (checkpoint_members c')))"
    using s(1) by (auto simp: checkpoint_Save_def Let_def split: if_splits)
  then show "checkpoint_holds dsk' (cm_CheckpointPath cm) k" using assms(3) g by (auto simp: checkpoint_holds_def)
  show "cm' = cm\<lparr>cm_Checkpoint := Some (save_version c)\<rparr>" "ck_good (save_version c) k" using s(2) c'(1) g by simp_all
qed

subsection \<open>The journal\<close>

lemma EntriesFrom_drop:
  assumes "chained [] (entries j)" "0 \<le> p"
  shows "EntriesFrom j p = drop (nat p) (entries j)"
proof -
  have "filter (\<lambda>e. p < Position e) es = drop (nat p) es" if "chained [] es" for es
    using that
  proof (induction es rule: rev_induct)
    case (snoc e es)
    then have "filter (\<lambda>e. p < Position e) es = drop (nat p) es" "Position e = int (length es) + 1"
      by (auto simp: chained_append next_ok_def)
    then show ?case using assms(2) by (cases "p < int (length es) + 1") auto
  qed simp
  with assms(1) show ?thesis by (simp add: EntriesFrom_def)
qed

lemma pending_fresh:
  assumes "distinct (map ObservationID es)" "p \<le> k"
  shows "filter (\<lambda>e. ObservationID e \<notin> fst ` set (map obs (take k es))) (drop p es) = drop k es"
proof -
  have ids: "fst ` set (map obs (take k es)) = set (take k (map ObservationID es))" by (force simp: obs_def take_map)
  have split: "drop p es = drop p (take k es) @ drop k es"
    using assms(2) by (metis append_take_drop_id drop_append drop_drop le_add_diff_inverse2 drop_take length_take min_def append_Nil2 take_drop)
  have old: "ObservationID e \<in> set (take k (map ObservationID es))" if "e \<in> set (drop p (take k es))" for e
    using in_set_dropD [OF that] by (force simp: take_map)
  have new: "ObservationID e \<notin> set (take k (map ObservationID es))" if "e \<in> set (drop k es)" for e
  proof -
    have "ObservationID e \<in> set (drop k (map ObservationID es))" using that by (simp add: drop_map)
    then show ?thesis using assms(1) set_take_disj_set_drop_if_distinct [of "map ObservationID es" k k] by blast
  qed
  show ?thesis unfolding ids split using old new by (simp add: filter_id_conv filter_empty_conv)
qed

lemma pending_all:
  assumes "pending_loop check sid (EntriesFrom j p) (indexAcquisition b) 0 b = Inr (b', n)"
    and "chained [] (entries j)" "list_all good_entry (entries j)" "int (length (entries j)) < 2 ^ 61"
    and "evidence (Records b) = map obs (take k (entries j))" "k \<le> length (entries j)" "0 \<le> p" "p \<le> int k"
    and "Verify b = None" "list_all (\<lambda>r. wire_ok (Event r)) (Records b)" "int (length (Records b)) < 2 ^ 60"
  shows "Verify b' = None \<and> list_all (\<lambda>r. wire_ok (Event r)) (Records b') \<and> evidence (Records b') = map obs (entries j) \<and>
    n = length (entries j) - k \<and> int (length (Records b')) < 2 ^ 62"
proof -
  have dist: "distinct (map ObservationID (entries j))" by (rule good_ids_distinct [OF assms(2,3)])
  note dr = EntriesFrom_drop [OF assms(2,7)]
  have loop: "pending_loop check sid (drop (nat p) (entries j)) (map_of (rev (evidence (Records b)))) 0 b = Inr (b', n)"
    using assms(1) unfolding dr indexAcquisition_evidence .
  have "list_all good_entry (drop (nat p) (entries j))" using assms(3) by (auto simp: list_all_iff dest: in_set_dropD)
  moreover have "distinct (map ObservationID (drop (nat p) (entries j)))" using dist by (simp flip: drop_map)
  ultimately have r: "Verify b' = None \<and> list_all (\<lambda>r. wire_ok (Event r)) (Records b') \<and>
      evidence (Records b') = evidence (Records b) @ map obs (filter (\<lambda>e. ObservationID e \<notin> fst ` set (evidence (Records b))) (drop (nat p) (entries j))) \<and>
      (\<exists>new. Records b' = Records b @ new \<and> n = 0 + length new \<and> list_all (\<lambda>r. evidence_of r \<noteq> None) new)"
    by (intro pending_loop_evidence [OF loop _ _ refl assms(9,10)]) (use assms(4,11) in auto)
  have "evidence (Records b') = map obs (take k (entries j)) @ map obs (drop k (entries j))"
    using r pending_fresh [OF dist, of "nat p" k] assms(5,8) by simp
  then have ev: "evidence (Records b') = map obs (entries j)" by (simp flip: map_append)
  obtain new where new: "Records b' = Records b @ new" "n = length new" "list_all (\<lambda>r. evidence_of r \<noteq> None) new" using r by auto
  have "length (evidence new) = length new" using new(3) by (induction new) auto
  then have "n = length (entries j) - k" using new(1,2) assms(5,6) arg_cong [OF ev, of length] by simp
  with r ev new assms(4,11) show ?thesis by simp
qed

section \<open>The coordinator\<close>

definition files_hold :: "string \<Rightarrow> capture_files \<Rightarrow> entry list \<Rightarrow> nat \<Rightarrow> bool" where
  \<comment> \<open>the journal holds the entries, the bundle the first \<open>k\<close> of them, and the checkpoint is not ahead of the bundle\<close>
  "files_hold path f es k \<longleftrightarrow>
     journal_holds (cf_journal f) es \<and> k \<le> length es \<and> bundle_holds (cf_bundle f) (take k es) \<and> checkpoint_holds (cf_checkpoints f) path k"

definition running :: "string \<Rightarrow> capture_files \<Rightarrow> coordinator \<Rightarrow> entry list \<Rightarrow> nat \<Rightarrow> bool" where
  \<comment> \<open>the memory of the coordinator: its entries are those on disk, but for one whose write or sync failed\<close>
  "running path f c es k \<longleftrightarrow>
     store (cc_journal c) = cf_journal f \<and> journal_ok (cc_journal c) \<and> k \<le> length (entries (cc_journal c)) \<and>
     int (length (entries (cc_journal c))) < 2 ^ 61 \<and>
     (\<exists>ext. es = entries (cc_journal c) @ ext \<and> (ext \<noteq> [] \<longrightarrow> failed (cc_journal c))) \<and>
     valid_utf8 (cc_incarnation c) \<and> TrimSpace (cc_incarnation c) = cc_incarnation c \<and> valid_utf8 (cc_streamID c) \<and>
     cm_CheckpointPath (cc_cm c) = path \<and> (\<exists>ck. cm_Checkpoint (cc_cm c) = Some ck \<and> ck_good ck k)"

lemma running_cong:
  "running path f c es k \<Longrightarrow> cc_journal c' = cc_journal c \<Longrightarrow> cc_cm c' = cc_cm c \<Longrightarrow> cc_incarnation c' = cc_incarnation c \<Longrightarrow>
     cc_streamID c' = cc_streamID c \<Longrightarrow> running path f c' es k"
  by (simp add: running_def)

lemma ck_good_commit:
  assumes "ck_good ck k" "valid_utf8 now" "valid_utf8 h" "int64 m" "int64 n" "0 \<le> n" "n \<le> int k'" "int64 n'"
  shows "ck_good (BindBundle h m (UpdatePosition now (show_int n) [] n' ck)) k'" "ck_good (UpdatePosition now (show_int n) [] n' (BindBundle h m ck)) k'"
  using assms position_written [of n k'] valid_show_int [of n]
  by (auto simp: ck_good_def ck_ok_def BindBundle_def UpdatePosition_def)

lemma verified_head: "Verify b = None \<Longrightarrow> valid_utf8 (committedHead b)"
proof -
  assume "Verify b = None"
  then have "Hash r = digest (PrevHash (Event r) @ event_body (Event r))" if "r \<in> set (Records b)" for r
    using that events.linked_nth [of GenesisHash "pairs (Records b)"] by (fastforce simp: Verify_None in_set_conv_nth)
  then show ?thesis using valid_utf8_digest by (simp add: committedHead_def)
qed

lemma bundle_step:
  assumes "bundle_holds content (take k es)" "Verify b = None" "list_all (\<lambda>r. wire_ok (Event r)) (Records b)" "evidence (Records b) = map obs es"
    and "n = length es - k" "(if 0 < n then saveBundle fault content b else (content, None)) = (content', err)"
  shows "bundle_holds content' (take k es) \<and> err \<noteq> None \<or> bundle_holds content' es"
proof (cases "0 < n")
  case True
  with assms(6) have "saveBundle fault content b = (content', err)" by simp
  from saveBundle_holds [OF this assms(2-4)] assms(1) show ?thesis by blast
next
  case False
  with assms(1,5,6) show ?thesis by simp
qed

text \<open>The end of a commit and of a recovery: the bundle is written, then the checkpoint.\<close>

lemma finish_step:
  assumes "files_hold path f es k" "running path f c es k" "bundle_holds content es'" "es' = entries (cc_journal c)"
    and "cm_Checkpoint cm = Some ck" "ck_good ck (length es')" "cm_CheckpointPath cm = path" "cm_Save sf cm (cf_checkpoints f) = (cm', cks, err)"
  shows "files_hold path (f\<lparr>cf_bundle := content, cf_checkpoints := cks\<rparr>) es (length es') \<and>
    running path (f\<lparr>cf_bundle := content, cf_checkpoints := cks\<rparr>) (c\<lparr>cc_cm := cm'\<rparr>) es (length es')"
proof -
  have k: "k \<le> length es'" "take (length es') es = es'" "length es' \<le> length es"
    using assms(2,4) by (auto simp: running_def)
  have "checkpoint_holds (cf_checkpoints f) (cm_CheckpointPath cm) (length es')"
    using assms(1,7) k(1) checkpoint_holds_mono by (auto simp: files_hold_def)
  note s = cm_Save_holds [OF assms(5,6) this assms(8)]
  have f: "journal_holds (cf_journal f) es" using assms(1) by (simp add: files_hold_def)
  show ?thesis
    using f k assms(3,7) s assms(2) assms(4) by (auto simp: files_hold_def running_def)
qed

lemma running_parts:
  assumes "files_hold path f es k" "running path f c es k"
  obtains ck p where "cm_Checkpoint (cc_cm c) = Some ck" "ck_good ck k" "checkpointPosition (Some ck) = Inr p" "0 \<le> p" "p \<le> int k"
    "chained [] (entries (cc_journal c))" "list_all good_entry (entries (cc_journal c))" "k \<le> length (entries (cc_journal c))"
    "bundle_holds (cf_bundle f) (take k (entries (cc_journal c)))" "int (length (entries (cc_journal c))) < 2 ^ 61"
    "LastPosition (cc_journal c) = int (length (entries (cc_journal c)))"
proof -
  from assms(2) obtain ck ext where c: "cm_Checkpoint (cc_cm c) = Some ck" "ck_good ck k" "es = entries (cc_journal c) @ ext"
    "journal_ok (cc_journal c)" "k \<le> length (entries (cc_journal c))" "int (length (entries (cc_journal c))) < 2 ^ 61"
    by (auto simp: running_def)
  obtain p where p: "checkpointPosition (Some ck) = Inr p" "0 \<le> p" "p \<le> int k"
    using c(2) by (auto simp: ck_good_def position_le_def split: sum.splits)
  have "list_all good_entry (entries (cc_journal c))" "bundle_holds (cf_bundle f) (take k (entries (cc_journal c)))"
    using assms(1) c(3,5) by (auto simp: files_hold_def journal_holds_def)
  with that [OF c(1,2) p _ _ c(5) _ c(6) LastPosition_ok [OF c(4)]] c(4) show ?thesis by (simp add: journal_ok_def)
qed

lemma record_for_Inr:
  assumes "record_for b want = Inr h" "want \<noteq> []"
  obtains x d where "x \<in> set (Records b)" "Hash x = h" "evidence_of x = Some (want, d)"
proof -
  from assms(1) obtain x where "find (\<lambda>r. case Acquisition (Event r) of None \<Rightarrow> False | Some acq \<Rightarrow> acq_SourceRecordID acq = want) (rev (Records b)) = Some x"
    "Hash x = h" by (auto simp: record_for_def split: option.splits)
  moreover have "y \<in> set ys \<and> P y" if "find P ys = Some y" for P and y :: bundle_record and ys
    using that by (induction ys) (auto split: if_splits)
  ultimately have "x \<in> set (Records b)" "Hash x = h" "case Acquisition (Event x) of None \<Rightarrow> False | Some acq \<Rightarrow> acq_SourceRecordID acq = want"
    by fastforce+
  with assms(2) that show ?thesis by (auto simp: evidence_of_def split: option.splits)
qed

lemma commitPending_cases:
  assumes cp: "commitPending env want f c = (f', c', res)" and r: "checkpointPosition (cm_Checkpoint (cc_cm c)) = Inr p"
  obtains (none) "f' = f" "c' = c" "\<not> is_ok res"
    | (loop) b created b' n where "loadBundleForCapture env (cf_bundle f) = Inr (b, created)"
        "pending_loop (validateEntry (cc_incarnation c)) (cc_streamID c) (EntriesFrom (cc_journal c) p) (indexAcquisition b) 0 b = Inr (b', n)"
        "(case (if 0 < n then saveBundle (ce_save env) (cf_bundle f) b' else (cf_bundle f, None)) of
           (content, Some e) \<Rightarrow> (f\<lparr>cf_bundle := content\<rparr>, c, Inl e)
         | (content, None) \<Rightarrow>
             let j = cc_journal c;
                 cm = cm_BindBundle (committedHead b') (int (length (Records b')))
                        (UpdateCheckpoint (ce_now env) (show_int (LastPosition j)) [] (int (length (entries j))) (cc_cm c))
             in case cm_Save (ce_checkpoint env) cm (cf_checkpoints f) of
                  (cm', cks, err) \<Rightarrow>
                    (f\<lparr>cf_bundle := content, cf_checkpoints := cks\<rparr>, c\<lparr>cc_cm := cm'\<rparr>,
                     case err of Some e \<Rightarrow> Inl (CaptureCheckpoint e) | None \<Rightarrow> record_for b' want)) = (f', c', res)"
proof (cases "loadBundleForCapture env (cf_bundle f)")
  case (Inl e)
  with cp r none show ?thesis by (auto simp: commitPending_def)
next
  case (Inr x)
  obtain b created where x: "x = (b, created)" by force
  show ?thesis
  proof (cases "created \<and> \<not> is_v3 b")
    case True
    with cp r Inr x none show ?thesis by (auto simp: commitPending_def)
  next
    case v3: False
    note cp' = cp [unfolded commitPending_def r sum.case Inr x prod.case if_not_P [OF v3]]
    show ?thesis
    proof (cases "pending_loop (validateEntry (cc_incarnation c)) (cc_streamID c) (EntriesFrom (cc_journal c) p) (indexAcquisition b) 0 b")
      case (Inl e)
      with cp' none show ?thesis by auto
    next
      case l: (Inr y)
      obtain b' n where "y = (b', n)" by force
      with cp' l Inr x loop [of b created b' n] show ?thesis by simp
    qed
  qed
qed

lemma commitPending_keeps:
  assumes fh: "files_hold path f es k" and rn: "running path f c es k" and now: "valid_utf8 (ce_now env)"
    and cp: "commitPending env want f c = (f', c', res)"
  shows "\<exists>k'. k \<le> k' \<and> files_hold path f' es k' \<and> running path f' c' es k' \<and> cc_journal c' = cc_journal c \<and>
    (\<forall>h. res = Inr h \<longrightarrow> k' = length (entries (cc_journal c)) \<and>
      (k < k' \<longrightarrow> (\<exists>b. Verify b = None \<and> list_all (\<lambda>r. wire_ok (Event r)) (Records b) \<and> evidence (Records b) = map obs (entries (cc_journal c)) \<and> cf_bundle f' = save_lines (Records b) \<and> cf_bundle f' \<noteq> None \<and> record_for b want = Inr h)))"
proof -
  let ?es = "entries (cc_journal c)"
  obtain ck p where r: "cm_Checkpoint (cc_cm c) = Some ck" "ck_good ck k" "checkpointPosition (Some ck) = Inr p" "0 \<le> p" "p \<le> int k"
    "chained [] ?es" "list_all good_entry ?es" "k \<le> length ?es" "bundle_holds (cf_bundle f) (take k ?es)" "int (length ?es) < 2 ^ 61"
    "LastPosition (cc_journal c) = int (length ?es)"
    by (rule running_parts [OF fh rn])
  have pos: "checkpointPosition (cm_Checkpoint (cc_cm c)) = Inr p" using r(1,3) by simp
  from cp pos show ?thesis
  proof (cases rule: commitPending_cases)
    case none
    with fh rn show ?thesis by (auto intro!: exI [of _ k])
  next
    case (loop b created b' n)
    have "list_all good_entry (take k ?es)" using r(7) by (auto simp: list_all_iff dest: in_set_takeD)
    note b = capture_loads [OF r(9) this loop(1)]
    note b' = pending_all [OF loop(2) r(6,7,10) b(3) r(8,4,5) b(1,2,4)]
    then have v: "Verify b' = None" "list_all (\<lambda>r. wire_ok (Event r)) (Records b')" "evidence (Records b') = map obs ?es" "n = length ?es - k"
      "int (length (Records b')) < 2 ^ 62" by blast+
    obtain content err where sv: "(if 0 < n then saveBundle (ce_save env) (cf_bundle f) b' else (cf_bundle f, None)) = (content, err)" by force
    note step = bundle_step [OF r(9) v(1-4) sv]
    have saved: "content = save_lines (Records b') \<and> content \<noteq> None" if "k < length ?es" "err = None"
    proof -
      have "saveBundle (ce_save env) (cf_bundle f) b' = (content, None)" using sv that v(4) by simp
      then show ?thesis by (simp add: saveBundle_def split: option.splits save_fault.splits) (metis option.distinct(1))
    qed
    show ?thesis
    proof (cases err)
      case (Some e)
      with loop(3) sv have out: "f' = f\<lparr>cf_bundle := content\<rparr>" "c' = c" "res = Inl e" by simp_all
      from step show ?thesis
      proof
        assume "bundle_holds content (take k ?es) \<and> err \<noteq> None"
        then have "files_hold path f' es k" "running path f' c' es k" using fh rn out r(8) by (auto simp: files_hold_def running_def)
        with out show ?thesis by (intro exI [of _ k]) simp
      next
        assume bh: "bundle_holds content ?es"
        have "files_hold path f' es (length ?es)"
          using fh bh out rn r(8) checkpoint_holds_mono [OF _ r(8)] by (auto simp: files_hold_def running_def)
        moreover have "running path f' c' es (length ?es)" using rn out ck_good_mono [OF r(2,8)] r(1) by (auto simp: running_def)
        ultimately show ?thesis using out r(8) by (intro exI [of _ "length ?es"]) simp
      qed
    next
      case None
      define cm where "cm = cm_BindBundle (committedHead b') (int (length (Records b')))
        (UpdateCheckpoint (ce_now env) (show_int (LastPosition (cc_journal c))) [] (int (length ?es)) (cc_cm c))"
      obtain cm' cks e' where cs: "cm_Save (ce_checkpoint env) cm (cf_checkpoints f) = (cm', cks, e')" by (metis prod_cases3)
      have out: "f' = f\<lparr>cf_bundle := content, cf_checkpoints := cks\<rparr>" "c' = c\<lparr>cc_cm := cm'\<rparr>"
        "res = (case e' of Some e \<Rightarrow> Inl (CaptureCheckpoint e) | None \<Rightarrow> record_for b' want)"
        using loop(3) [unfolded sv None prod.case option.case Let_def cm_def [symmetric] cs] by simp_all
      define ck' where "ck' = BindBundle (committedHead b') (int (length (Records b'))) (UpdatePosition (ce_now env) (show_int (int (length ?es))) [] (int (length ?es)) ck)"
      have cm: "cm_Checkpoint cm = Some ck'" "cm_CheckpointPath cm = path"
        using r(1,11) rn by (simp_all add: cm_def ck'_def cm_BindBundle_def UpdateCheckpoint_def running_def)
      have "ck_good ck' (length ?es)"
        unfolding ck'_def by (rule ck_good_commit [OF r(2) now verified_head [OF v(1)]]) (use r(10) v(5) in \<open>auto simp: int64_def\<close>)
      from finish_step [OF fh rn _ refl cm(1) this cm(2) cs] step None
      have "files_hold path f' es (length ?es) \<and> running path f' c' es (length ?es)" using out by simp
      moreover have "\<exists>b. Verify b = None \<and> list_all (\<lambda>r. wire_ok (Event r)) (Records b) \<and> evidence (Records b) = map obs (entries (cc_journal c)) \<and> cf_bundle f' = save_lines (Records b) \<and> cf_bundle f' \<noteq> None \<and> record_for b want = Inr h"
        if "res = Inr h" "k < length ?es" for h
      proof -
        have "cf_bundle f' = content" "record_for b' want = Inr h" using out that(1) by (auto split: option.splits)
        with saved [OF that(2) None] v(1-3) show ?thesis by metis
      qed
      ultimately show ?thesis using out r(8) by (intro exI [of _ "length ?es"]) simp
    qed
  qed
qed

lemma replay_keeps:
  assumes fh: "files_hold path f es k" and rn: "running path f c es k" and now: "valid_utf8 (ce_now env)"
    and ld: "loadBundleForCapture env (cf_bundle f) = Inr (b, created)" and ps: "checkpointPosition (cm_Checkpoint (cc_cm c)) = Inr p"
    and rp: "replay env b created p f c = (f', res)"
  shows "\<exists>k'. k \<le> k' \<and> files_hold path f' es k' \<and>
    (\<forall>c'. res = Inr c' \<longrightarrow> running path f' c' es k' \<and> cc_journal c' = cc_journal c \<and> k' = length (entries (cc_journal c)))"
proof -
  let ?es = "entries (cc_journal c)"
  obtain ck q where r: "cm_Checkpoint (cc_cm c) = Some ck" "ck_good ck k" "checkpointPosition (Some ck) = Inr q" "0 \<le> q" "q \<le> int k"
    "chained [] ?es" "list_all good_entry ?es" "k \<le> length ?es" "bundle_holds (cf_bundle f) (take k ?es)" "int (length ?es) < 2 ^ 61"
    "LastPosition (cc_journal c) = int (length ?es)"
    by (rule running_parts [OF fh rn])
  have p: "p = q" using ps r(1,3) by simp
  show ?thesis
  proof (cases "pending_loop (\<lambda>_. None) (cc_streamID c) (EntriesFrom (cc_journal c) p) (indexAcquisition b) 0 b")
    case (Inl e)
    with rp fh show ?thesis by (auto simp: replay_def)
  next
    case (Inr y)
    obtain b' n where y: "y = (b', n)" by force
    have "list_all good_entry (take k ?es)" using r(7) by (auto simp: list_all_iff dest: in_set_takeD)
    note b = capture_loads [OF r(9) this ld]
    have v: "Verify b' = None" "list_all (\<lambda>r. wire_ok (Event r)) (Records b')" "evidence (Records b') = map obs ?es" "n = length ?es - k"
      "int (length (Records b')) < 2 ^ 62"
      using pending_all [OF Inr [unfolded y p] r(6,7,10) b(3) r(8,4,5) b(1,2,4)] by blast+
    obtain content err where sv: "(if 0 < n then saveBundle (ce_save env) (cf_bundle f) b' else (cf_bundle f, None)) = (content, err)" by force
    note step = bundle_step [OF r(9) v(1-4) sv]
    note rp' = rp [unfolded replay_def Inr y sum.case prod.case sv]
    show ?thesis
    proof (cases err)
      case (Some e)
      with rp' have out: "f' = f\<lparr>cf_bundle := content\<rparr>" "res = Inl e" by simp_all
      from step show ?thesis
      proof
        assume "bundle_holds content (take k ?es) \<and> err \<noteq> None"
        then have "files_hold path f' es k" using fh rn out r(8) by (auto simp: files_hold_def running_def)
        with out show ?thesis by (intro exI [of _ k]) simp
      next
        assume "bundle_holds content ?es"
        then have "files_hold path f' es (length ?es)"
          using fh out rn r(8) checkpoint_holds_mono [OF _ r(8)] by (auto simp: files_hold_def running_def)
        with out r(8) show ?thesis by (intro exI [of _ "length ?es"]) simp
      qed
    next
      case None
      define cm where "cm = (if \<not> created \<or> 0 < n
         then UpdateCheckpoint (ce_now env) (show_int (LastPosition (cc_journal c))) [] (int (length ?es))
                (cm_BindBundle (committedHead b') (int (length (Records b'))) (cc_cm c))
         else cc_cm c)"
      obtain cm' cks e' where cs: "cm_Save (ce_checkpoint env) cm (cf_checkpoints f) = (cm', cks, e')" by (metis prod_cases3)
      define ck' where "ck' = (if \<not> created \<or> 0 < n
         then UpdatePosition (ce_now env) (show_int (int (length ?es))) [] (int (length ?es)) (BindBundle (committedHead b') (int (length (Records b'))) ck)
         else ck)"
      have cm: "cm_Checkpoint cm = Some ck'" "cm_CheckpointPath cm = path"
        using r(1,11) rn by (simp_all add: cm_def ck'_def cm_BindBundle_def UpdateCheckpoint_def running_def)
      have "ck_good (UpdatePosition (ce_now env) (show_int (int (length ?es))) [] (int (length ?es)) (BindBundle (committedHead b') (int (length (Records b'))) ck)) (length ?es)"
        by (rule ck_good_commit [OF r(2) now verified_head [OF v(1)]]) (use r(10) v(5) in \<open>auto simp: int64_def\<close>)
      then have "ck_good ck' (length ?es)" using ck_good_mono [OF r(2,8)] by (simp add: ck'_def)
      from finish_step [OF fh rn _ refl cm(1) this cm(2) cs] step None
      have fin: "files_hold path (f\<lparr>cf_bundle := content, cf_checkpoints := cks\<rparr>) es (length ?es)"
        "running path (f\<lparr>cf_bundle := content, cf_checkpoints := cks\<rparr>) (c\<lparr>cc_cm := cm'\<rparr>) es (length ?es)" by auto
      have out: "f' = f\<lparr>cf_bundle := content, cf_checkpoints := cks\<rparr>"
        "\<And>c'. res = Inr c' \<Longrightarrow> cc_journal c' = cc_journal c \<and> cc_cm c' = cm' \<and> cc_incarnation c' = cc_incarnation c \<and> cc_streamID c' = cc_streamID c"
        using rp' [unfolded None prod.case option.case Let_def cm_def [symmetric] cs] by (auto split: option.splits)
      have "running path f' c' es (length ?es) \<and> cc_journal c' = cc_journal c" if "res = Inr c'" for c'
        using running_cong [OF fin(2), of c'] out(2) [OF that] out(1) by simp
      with fin(1) out(1) r(8) show ?thesis by blast
    qed
  qed
qed

lemma recover_keeps:
  assumes "files_hold path f es k" "running path f c es k" "valid_utf8 (ce_now env)" "recover env f c = (f', res)"
  shows "\<exists>k'. k \<le> k' \<and> files_hold path f' es k' \<and>
    (\<forall>c'. res = Inr c' \<longrightarrow> running path f' c' es k' \<and> cc_journal c' = cc_journal c \<and> k' = length (entries (cc_journal c)))"
proof -
  consider "f' = f" "\<exists>e. res = Inl e"
    | b created p where "loadBundleForCapture env (cf_bundle f) = Inr (b, created)" "checkpointPosition (cm_Checkpoint (cc_cm c)) = Inr p"
        "replay env b created p f c = (f', res)"
    using assms(4) unfolding recover_def by (auto split: sum.splits prod.splits if_splits option.splits)
  then show ?thesis
  proof cases
    case 1
    with assms(1) show ?thesis by auto
  next
    case 2
    from replay_keeps [OF assms(1-3) 2] show ?thesis .
  qed
qed

subsection \<open>An observation\<close>

definition plain_event :: "event \<Rightarrow> bool" where
  \<comment> \<open>an event of the proxy: a payload of a running program, a type and a timestamp in valid UTF-8\<close>
  "plain_event ev \<longleftrightarrow> go_value (Data ev) \<and> valid_utf8 (Type ev) \<and> valid_utf8 (Timestamp ev)"

lemma marshalObservation_wf:
  assumes "marshalObservation ev = Inr payload" "go_value (Data ev)"
  shows "wf_json payload" "coerce_json payload = payload"
proof -
  from assms(1) obtain d where d: "to_json (Data ev) = Some d" "payload = coerce_json (JObject (observation_members ev d))"
    by (auto simp: marshalObservation_def split: option.splits)
  have "wf_json d" using to_json_readable(1) [OF d(1) assms(2)] by (simp add: readable_def)
  then have "wf_json (JObject (observation_members ev d))"
    by (auto simp: observation_members_def omit_string_def omit_ptr_def split: option.splits)
  then show "wf_json payload" "coerce_json payload = payload" using d(2) wf_coerce coerce_json_idem by metis+
qed

lemma capture_literals: "valid_utf8 captureSourceSystem" "valid_utf8 captureAdapter" "valid_utf8 captureAdapterVersion" "valid_utf8 captureRepresentationVersion"
  by (rule valid_utf8_literal, simp add: captureSourceSystem_def captureAdapter_def captureAdapterVersion_def captureRepresentationVersion_def)+

lemma digestRepresentation_valid: "digestRepresentation payload = Inr rep \<Longrightarrow> valid_utf8 rep"
  using valid_utf8_digest by (auto simp: digestRepresentation_def digest_def split: sum.splits)

lemma observation_good:
  assumes "journal_ok (cc_journal c)" "valid_utf8 (cc_incarnation c)" "TrimSpace (cc_incarnation c) = cc_incarnation c" "valid_utf8 (cc_streamID c)"
    and "plain_event ev" "valid_utf8 (ce_now env)" "marshalObservation ev = Inr payload" "digestRepresentation payload = Inr rep"
    and "computeHash (prepare (cc_journal c) (observation_entry env c ev payload rep)) = Inr h"
  shows "good_entry ((prepare (cc_journal c) (observation_entry env c ev payload rep))\<lparr>je_Hash := h\<rparr>)"
    "fresh_entry (observation_entry env c ev payload rep)"
proof -
  note lp = LastPosition_ok [OF assms(1)]
  have id: "valid_utf8 (cc_incarnation c @ ''/'' @ cc_streamID c @ '':'' @ show_int (LastPosition (cc_journal c) + 1))"
    by (intro valid_append valid_show_int assms(2,4)) (simp_all add: lp valid_utf8_literal)
  have tip: "valid_utf8 (if entries (cc_journal c) = [] then GenesisHash else je_Hash (last (entries (cc_journal c))))"
    using valid_chain_tip [of "entries (cc_journal c)"] assms(1) by (simp add: journal_ok_def chain_tip_def split: if_splits)
  have hash: "valid_utf8 h" using computeHash_Inr [OF assms(9)] valid_utf8_digest by simp
  have ev: "go_value (Data ev)" "valid_utf8 (Type ev)" "valid_utf8 (Timestamp ev)" using assms(5) by (simp_all add: plain_event_def)
  note m = marshalObservation_wf [OF assms(7) ev(1)]
  show "fresh_entry (observation_entry env c ev payload rep)" using m(1) by (simp add: fresh_entry_def observation_entry_def zero_entry_def)
  define e where "e = (prepare (cc_journal c) (observation_entry env c ev payload rep))\<lparr>je_Hash := h\<rparr>"
  have "coerce_entry e = e"
    using id tip hash ev m(2) assms(2,6) capture_literals digestRepresentation_valid [OF assms(8)]
    by (simp add: coerce_entry_def e_def prepare_def Let_def observation_entry_def zero_entry_def)
  moreover have "ObservationID e = (cc_incarnation c @ ''/'' @ cc_streamID c) @ '':'' @ show_int (Position e)"
    by (simp add: e_def prepare_def Let_def observation_entry_def zero_entry_def)
  moreover have "TrimSpace (SourceIncarnation e) = SourceIncarnation e"
    using assms(3) by (simp add: e_def prepare_def Let_def observation_entry_def zero_entry_def)
  ultimately show "good_entry ((prepare (cc_journal c) (observation_entry env c ev payload rep))\<lparr>je_Hash := h\<rparr>)"
    unfolding good_entry_def e_def [symmetric] by blast
qed

lemma lines_of_snoc: "lines_of es @ entry_line e = lines_of (es @ [e])"
  by (simp add: lines_of_def)

lemma entry_line_break: "wf_json (Payload e) \<Longrightarrow> n < length (entry_line e) \<Longrightarrow> CHR 0x0A \<notin> set (take n (entry_line e))"
proof -
  assume wf: "wf_json (Payload e)" and n: "n < length (entry_line e)"
  have "CHR 0x0A \<notin> set (render_html (JObject (entry_members e)))"
  proof -
    have "CHR 0x0A \<notin> set t" if "printable t" for t using that by (induction t) auto
    then show ?thesis using entry_line_printable [OF wf] by blast
  qed
  with n show ?thesis by (auto simp: entry_line_def dest: in_set_takeD)
qed

text \<open>What an append does to the journal on disk: nothing, or the beginning of the new line, or all of it.\<close>

lemma Append_disk:
  assumes "journal_holds (store j) es" "journal_ok j" "es = entries j @ ext" "ext \<noteq> [] \<longrightarrow> failed j" "fresh_entry e" "int (length (entries j)) < 2 ^ 62"
    and "\<And>h. computeHash (prepare j e) = Inr h \<Longrightarrow> good_entry ((prepare j e)\<lparr>je_Hash := h\<rparr>)" "Journal.Append w s m j e = (j', r)"
  shows "\<exists>es' ext'. journal_holds (store j') es' \<and> journal_ok j' \<and> es' = entries j' @ ext' \<and> (ext' \<noteq> [] \<longrightarrow> failed j') \<and> take (length es) es' = es \<and> length es' \<le> length es + 1 \<and>
    (case r of Inl _ \<Rightarrow> entries j' = entries j | Inr e' \<Rightarrow> entries j' = entries j @ [e'] \<and> ext' = [])"
proof (cases "is_open j \<and> \<not> failed j")
  case False
  then have "j' = j" "\<exists>err. r = Inl err" using assms(8) by (cases "is_open j"; simp add: Journal.Append_def; auto)+
  with assms(1-4) show ?thesis by (intro exI [of _ es] exI [of _ ext]) auto
next
  case True
  then have op: "is_open j" "\<not> failed j" by auto
  have es: "es = entries j" "ext = []" using assms(3,4) op by auto
  have jo: "journal_ok j'" using Append_cases_ok [OF assms(2,5,6,8)] by blast
  have hold: "chained [] es" "list_all good_entry es" using assms(1) by (simp_all add: journal_holds_def)
  show ?thesis
    using op
  proof (cases rule: Append_cases [where w = w and s = s and m = m and e = e])
    case (refused err)
    with assms(8) have "disk_file (store j') = disk_file (store j)" "entries j' = entries j" "r = Inl err" by (auto simp: mark_degraded_def)
    with assms(1) es jo show ?thesis by (auto simp: journal_holds_def)
  next
    case (attempted h e2 content)
    have nx: "next_ok es e2" "good_entry e2"
      using prepare_ok [OF assms(2,5,6) attempted(1)] attempted(2,3) assms(7) [OF attempted(1)] es by simp_all
    have c: "content = lines_of es" using assms(2) op attempted(4) es by (auto simp: journal_ok_def)
    have wf: "wf_json (Payload e2)" using nx(1) by (simp add: next_ok_def storable_def)
    have grown: "chained [] (es @ [e2])" "list_all good_entry (es @ [e2])" using hold nx by (simp_all add: chained_append)
    have whole: "journal_holds (store j') (es @ [e2])" if "disk_file (store j') = Some (content @ entry_line e2)"
      using that grown c by (auto simp: journal_holds_def lines_of_snoc intro!: exI [of _ "[]"])
    have part: "journal_holds (store j') es" if "disk_file (store j') = Some (content @ take n (entry_line e2))" "n < length (entry_line e2)" for n
      using that hold c entry_line_break [OF wf that(2)] by (auto simp: journal_holds_def)
    from attempted(5) assms(8) consider
      (short) n where "disk_file (store j') = Some (content @ take n (entry_line e2))" "entries j' = entries j" "failed j'" "\<exists>x. r = Inl x"
      | (unsynced) "disk_file (store j') = Some (content @ entry_line e2)" "entries j' = entries j" "failed j'" "\<exists>x. r = Inl x"
      | (ok) "disk_file (store j') = Some (content @ entry_line e2)" "entries j' = entries j @ [e2]" "r = Inr e2"
      by (auto split: outcome.splits if_splits)
    then show ?thesis
    proof cases
      case short
      show ?thesis
      proof (cases "n < length (entry_line e2)")
        case True
        from part [OF short(1) True] show ?thesis
          by (intro exI [of _ es] exI [of _ "[]"]) (use jo short es in auto)
      next
        case False
        with short(1) have "journal_holds (store j') (es @ [e2])" by (intro whole) simp
        then show ?thesis by (intro exI [of _ "es @ [e2]"] exI [of _ "[e2]"]) (use jo short es in auto)
      qed
    next
      case unsynced
      from whole [OF unsynced(1)] show ?thesis by (intro exI [of _ "es @ [e2]"] exI [of _ "[e2]"]) (use jo unsynced es in auto)
    next
      case ok
      from whole [OF ok(1)] show ?thesis by (intro exI [of _ "es @ [e2]"] exI [of _ "[]"]) (use jo ok es in auto)
    qed
  qed
qed

lemma files_hold_journal:
  assumes "files_hold path f es k" "journal_holds d es'" "take (length es) es' = es"
  shows "files_hold path (f\<lparr>cf_journal := d\<rparr>) es' k"
proof -
  have k: "k \<le> length es" using assms(1) by (simp add: files_hold_def)
  have "length es \<le> length es'" using arg_cong [OF assms(3), of length] by simp
  moreover have "take k es' = take k es" using k arg_cong [OF assms(3), of "take k"] by (simp add: min_absorb1)
  ultimately show ?thesis using assms(1,2) k by (simp add: files_hold_def)
qed

lemma journalObservation_keeps:
  assumes fh: "files_hold path f es k" and rn: "running path f c es k" and now: "valid_utf8 (ce_now env)" and ev: "plain_event ev"
    and small: "int (length (entries (cc_journal c))) + 1 < 2 ^ 61" and jo: "journalObservation env ev c = (c1, res)"
  shows "\<exists>es'. take (length es) es' = es \<and> length es' \<le> length es + 1 \<and> files_hold path (f\<lparr>cf_journal := store (cc_journal c1)\<rparr>) es' k \<and>
    running path (f\<lparr>cf_journal := store (cc_journal c1)\<rparr>) c1 es' k \<and>
    (\<forall>e. res = Inr e \<longrightarrow> es' = es @ [e] \<and> entries (cc_journal c1) = es' \<and> marshalObservation ev = Inr (Payload e))"
proof -
  obtain ext where c: "es = entries (cc_journal c) @ ext" "ext \<noteq> [] \<longrightarrow> failed (cc_journal c)" "journal_ok (cc_journal c)" "store (cc_journal c) = cf_journal f"
    "valid_utf8 (cc_incarnation c)" "TrimSpace (cc_incarnation c) = cc_incarnation c" "valid_utf8 (cc_streamID c)" "k \<le> length (entries (cc_journal c))"
    using rn by (auto simp: running_def)
  have jh: "journal_holds (store (cc_journal c)) es" using fh c(4) by (simp add: files_hold_def)
  consider (early) e where "c1 = c\<lparr>cc_journal := mark_degraded (ce_mark env) (ce_error_text env e) (cc_journal c)\<rparr>" "res = Inl e"
    | (tried) payload rep j r where "marshalObservation ev = Inr payload" "digestRepresentation payload = Inr rep"
        "Journal.Append (ce_write env) (ce_sync env) (ce_mark env) (cc_journal c) (observation_entry env c ev payload rep) = (j, r)"
        "c1 = c\<lparr>cc_journal := j\<rparr>" "res = (case r of Inl e \<Rightarrow> Inl (CaptureJournal e) | Inr e \<Rightarrow> Inr e)"
    using jo by (auto simp: journalObservation_def split: sum.splits prod.splits)
  then show ?thesis
  proof cases
    case early
    have "journal_holds (store (cc_journal c1)) es" "journal_ok (cc_journal c1)" "entries (cc_journal c1) = entries (cc_journal c)"
      using jh c(3) early(1) by (simp_all add: journal_holds_def journal_ok_def)
    moreover from this have "running path (f\<lparr>cf_journal := store (cc_journal c1)\<rparr>) c1 es k" using rn early(1) by (simp add: running_def)
    ultimately show ?thesis using files_hold_journal [OF fh, of "store (cc_journal c1)" es] early(2) by (intro exI [of _ es]) simp
  next
    case tried
    note good = observation_good [OF c(3,5-7) ev now tried(1,2)]
    have fresh: "fresh_entry (observation_entry env c ev payload rep)"
      using marshalObservation_wf(1) [OF tried(1)] ev by (simp add: plain_event_def fresh_entry_def observation_entry_def zero_entry_def)
    obtain es' ext' where a: "journal_holds (store j) es'" "journal_ok j" "es' = entries j @ ext'" "ext' \<noteq> [] \<longrightarrow> failed j" "take (length es) es' = es" "length es' \<le> length es + 1"
      "case r of Inl _ \<Rightarrow> entries j = entries (cc_journal c) | Inr e' \<Rightarrow> entries j = entries (cc_journal c) @ [e'] \<and> ext' = []"
    proof -
      have "int (length (entries (cc_journal c))) < 2 ^ 62" using small by simp
      from Append_disk [OF jh c(3,1,2) fresh this good(1) tried(3)] show ?thesis using that by blast
    qed
    have len: "length (entries (cc_journal c)) \<le> length (entries j)" "int (length (entries j)) < 2 ^ 61"
      using a(7) small by (auto split: sum.splits)
    have run: "running path (f\<lparr>cf_journal := store (cc_journal c1)\<rparr>) c1 es' k"
      using rn tried(4) a(2-4) len by (auto simp: running_def)
    have "es' = es @ [e] \<and> entries j = es' \<and> marshalObservation ev = Inr (Payload e)" if "res = Inr e" for e
    proof -
      have r: "r = Inr e" using that tried(5) by (cases r) auto
      with a(3,7) have e: "es' = entries (cc_journal c) @ [e]" "entries j = es'" by auto
      have "Payload e = payload"
        using tried(3) r by (auto simp: Journal.Append_def Let_def prepare_def observation_entry_def split: if_splits sum.splits outcome.splits)
      have "\<not> failed (cc_journal c)" using tried(3) r by (auto simp: Journal.Append_def split: if_splits)
      then have "es = entries (cc_journal c)" using c(1,2) by auto
      with e tried(1) \<open>Payload e = payload\<close> show ?thesis by simp
    qed
    with run files_hold_journal [OF fh a(1,5)] tried(4) a(5,6) show ?thesis by auto
  qed
qed

definition acknowledged :: "event \<Rightarrow> capture_files \<Rightarrow> entry list \<Rightarrow> entry list \<Rightarrow> string \<Rightarrow> bool" where
  \<comment> \<open>the journal grew by the observation, and the bundle on disk has its record under the hash\<close>
  "acknowledged ev f es es' h \<longleftrightarrow>
     (\<exists>e b. es' = es @ [e] \<and> marshalObservation ev = Inr (Payload e) \<and> Verify b = None \<and>
        list_all (\<lambda>r. wire_ok (Event r)) (Records b) \<and> evidence (Records b) = map obs es' \<and> cf_bundle f = save_lines (Records b) \<and>
        cf_bundle f \<noteq> None \<and> record_for b (ObservationID e) = Inr h)"

lemma commit_keeps:
  assumes "files_hold path f es k" "running path f c es k" "valid_utf8 (ce_now env)" "plain_event ev"
    and "int (length (entries (cc_journal c))) + 1 < 2 ^ 61" "commit env ev f c = (f', c', res)"
  shows "\<exists>es' k'. take (length es) es' = es \<and> length es' \<le> length es + 1 \<and> k \<le> k' \<and> files_hold path f' es' k' \<and> running path f' c' es' k' \<and>
    (\<forall>h. res = Inr h \<longrightarrow> k' = length es' \<and> acknowledged ev f' es es' h)"
proof -
  obtain c1 r1 where j: "journalObservation env ev c = (c1, r1)" by force
  define f1 where "f1 = f\<lparr>cf_journal := store (cc_journal c1)\<rparr>"
  obtain es' where a: "take (length es) es' = es" "files_hold path f1 es' k" "running path f1 c1 es' k"
    "\<And>e. r1 = Inr e \<Longrightarrow> es' = es @ [e] \<and> entries (cc_journal c1) = es' \<and> marshalObservation ev = Inr (Payload e)" "length es' \<le> length es + 1"
    using journalObservation_keeps [OF assms(1-5) j] unfolding f1_def by blast
  show ?thesis
  proof (cases r1)
    case (Inl e)
    with assms(6) j have "f' = f1" "c' = capture_fail e (c1\<lparr>cc_knownGap := True\<rparr>)" "res = Inl e" by (auto simp: commit_def f1_def)
    with a(1,2,5) running_cong [OF a(3), of c'] show ?thesis by (auto simp: capture_fail_def)
  next
    case (Inr e)
    note e = a(4) [OF Inr]
    obtain f2 c2 r2 where p: "commitPending env (ObservationID e) f1 c1 = (f2, c2, r2)" by (metis prod_cases3)
    obtain k' where k': "k \<le> k'" "files_hold path f2 es' k'" "running path f2 c2 es' k'"
      "\<And>h. r2 = Inr h \<Longrightarrow> k' = length (entries (cc_journal c1)) \<and>
        (k < k' \<longrightarrow> (\<exists>b. Verify b = None \<and> list_all (\<lambda>r. wire_ok (Event r)) (Records b) \<and> evidence (Records b) = map obs (entries (cc_journal c1)) \<and> cf_bundle f2 = save_lines (Records b) \<and> cf_bundle f2 \<noteq> None \<and> record_for b (ObservationID e) = Inr h))"
      using commitPending_keeps [OF a(2,3) assms(3) p] by blast
    have out: "f' = f2" "res = r2" "running path f' c' es' k'"
    proof -
      show "f' = f2" "res = r2" using assms(6) j Inr p by (auto simp: commit_def f1_def split: sum.splits)
      then show "running path f' c' es' k'"
        using assms(6) j Inr p k'(3) running_cong [of path f2 c2 es' k' c'] by (auto simp: commit_def f1_def capture_fail_def split: sum.splits)
    qed
    have kl: "k \<le> length es" using assms(1) by (simp add: files_hold_def)
    have "k' = length es' \<and> acknowledged ev f' es es' h" if "res = Inr h" for h
    proof -
      have "r2 = Inr h" using that out(2) by simp
      from k'(4) [OF this] e kl out(1) show ?thesis unfolding acknowledged_def by auto
    qed
    with a(1,5) k'(1,2) out e show ?thesis by blast
  qed
qed

subsection \<open>A start\<close>

lemma Open_holds:
  assumes "journal_holds d es" "Journal.Open mk tr d = (d', Inr j)"
  shows "journal_holds d' es" "entries j = es" "journal_ok j" "store j = d'"
proof -
  obtain t where t: "(case disk_file d of None \<Rightarrow> [] | Some c \<Rightarrow> c) = lines_of es @ t" "CHR 0x0A \<notin> set t" "chained [] es" "list_all good_entry es"
    using assms(1) by (auto simp: journal_holds_def)
  have same: "map coerce_entry es = es" using t(4) by (auto simp: list_all_iff good_entry_def intro: map_idI)
  have read: "readEntries (disk_file d) = Inr (es, t \<noteq> [])"
  proof (cases "disk_file d")
    case None
    with t(1) have "es = []" "t = []" by (auto simp: lines_of_def entry_line_def)
    with None show ?thesis by (simp add: readEntries_def)
  next
    case (Some c)
    with t(1) readEntries_lines [OF t(3,2)] same show ?thesis by simp
  qed
  have cut: "take (nat (lastCompleteOffset (lines_of es @ t))) (lines_of es @ t) = lines_of es" by (simp add: lastCompleteOffset_torn [OF t(2)])
  define d1 where "d1 = (if disk_file d = None then d\<lparr>repair_marker := None\<rparr> else d)"
  have d1: "disk_file d1 = disk_file d" by (simp add: d1_def)
  have content: "(case disk_file d1 of None \<Rightarrow> [] | Some c \<Rightarrow> c) = lines_of es @ t" using t(1) d1 by simp
  note op = assms(2) [unfolded Journal.Open_def Let_def d1_def [symmetric] d1 read sum.case prod.case, unfolded content [unfolded d1]]
  then have j: "entries j = es" "store j = d'" "\<not> failed j" "disk_file d' = Some (lines_of es)"
    using cut by (auto split: if_splits)
  then show "entries j = es" "store j = d'" by simp_all
  show "journal_ok j" using j t(3) by (simp add: journal_ok_def)
  show "journal_holds d' es" using j(4) t(3,4) by (auto simp: journal_holds_def)
qed

lemma Open_fails:
  assumes "journal_holds d es" "Journal.Open mk tr d = (d', Inl e)"
  shows "journal_holds d' es"
proof -
  have "disk_file d' = disk_file d" using assms(2) by (auto simp: Journal.Open_def Let_def split: sum.splits prod.splits if_splits)
  with assms(1) show ?thesis by (simp add: journal_holds_def)
qed

lemma checkpoint_loaded:
  assumes "checkpoint_holds dsk path k" "checkpoint_Load rf dsk path = Inr c"
  shows "ck_good c k"
proof -
  obtain raw where raw: "dsk (path_Clean path) = Some raw" "rf path" using assms(2) by (auto simp: checkpoint_Load_def split: option.splits if_splits)
  then obtain c0 where "raw = MarshalIndent (JObject (checkpoint_members c0))" "ck_FormatVersion c0 = 1" "ck_good c0 k"
    using assms(1) by (auto simp: checkpoint_holds_def)
  with Load_saved [of c0 rf path dsk] raw assms(2) show ?thesis by (simp add: ck_good_def)
qed

lemma choose_incarnation_good:
  assumes "choose_incarnation env token existing j = Inr inc" "valid_utf8 (TrimSpace token)" "pred_option (\<lambda>c. ck_good c k) existing"
    and "list_all good_entry (entries j)"
  shows "valid_utf8 inc" "TrimSpace inc = inc"
proof -
  have jn: "valid_utf8 (journalIncarnation j)" "TrimSpace (journalIncarnation j) = journalIncarnation j"
  proof -
    have "coerce_entry e = e \<Longrightarrow> valid_utf8 (SourceIncarnation e)" for e by (metis coerce_entry_def entry.select_convs(6))
    then show "valid_utf8 (journalIncarnation j)" "TrimSpace (journalIncarnation j) = journalIncarnation j"
      using assms(4) by (cases "entries j"; simp add: journalIncarnation_def good_entry_def)+
  qed
  have nw: "valid_utf8 i \<and> TrimSpace i = i" if "newIncarnation r = Inr i" for r i
  proof -
    from that obtain x where i: "i = ''inc-'' @ hex_encode x" by (auto simp: newIncarnation_def split: option.splits)
    have "list_all (\<lambda>c. 33 \<le> ord c \<and> ord c < 127) i" unfolding i using graphic_hex [of x] by simp
    moreover from this have "valid_utf8 i" by (intro valid_utf8_literal) (auto simp: list_all_iff)
    ultimately show ?thesis using TrimSpace_graphic by blast
  qed
  have ex: "valid_utf8 (ck_SourceIncarnation c)" "TrimSpace (ck_SourceIncarnation c) = ck_SourceIncarnation c" if "existing = Some c" for c
    using assms(3) that by (simp_all add: ck_good_def ck_ok_def)
  show "valid_utf8 inc" "TrimSpace inc = inc"
    using assms(1,2) jn nw ex by (auto simp: choose_incarnation_def split: if_splits option.splits)
qed

lemma capture_manager_good:
  assumes "capture_manager env cks bundlePath inc fresh = Inr cm" "path = ResolveCheckpointPath bundlePath (path_Base bundlePath)"
    and "checkpoint_holds cks path k" "valid_utf8 inc" "TrimSpace inc = inc" "valid_utf8 (path_Base bundlePath)" "valid_utf8 (ce_now env)"
  shows "cm_CheckpointPath cm = path \<and> (\<exists>ck. cm_Checkpoint cm = Some ck \<and> ck_good ck k)"
proof -
  let ?i = "\<lparr>si_System = captureSourceSystem, si_RecordID = path_Base bundlePath, si_Derived = True\<rparr>"
  from assms(1,2) obtain c where c: "LoadOrCreate (ce_readable env) cks (ce_now env) path captureSourceSystem (path_Base bundlePath) captureAdapter
      captureAdapterVersion inc ?i = Inr c"
    "cm_CheckpointPath cm = path" "cm_Checkpoint cm = Some (if ck_SourceIncarnation c = [] then c\<lparr>ck_SourceIncarnation := inc\<rparr> else c)"
    by (auto simp: capture_manager_def Let_def LoadOrInitialize_def NewCheckpointManager_def split: sum.splits option.splits)
  have "ck_good c k"
  proof (cases "checkpoint_Load (ce_readable env) cks path")
    case (Inl e)
    with c(1) have e: "e = CheckpointNotFound" and "c = zero_ck\<lparr>ck_FormatVersion := 1, ck_SourceSystem := captureSourceSystem,
        ck_AcquisitionStream := path_Base bundlePath, ck_Adapter := captureAdapter, ck_AdapterVersion := captureAdapterVersion,
        ck_SourceIncarnation := inc, ck_SourceIdentity := ?i, ck_ObservedAt := ce_now env, ck_Position := ''start''\<rparr>"
      by (cases e; simp add: LoadOrCreate_def)+
    then show ?thesis
      using assms(4-7) capture_literals TrimSpace_graphic [of "''start''"]
      by (simp add: ck_good_def ck_ok_def zero_ck_def int64_def valid_utf8_literal position_le_def checkpointPosition_def Let_def)
  next
    case (Inr c')
    with c(1) checkpoint_loaded [OF assms(3)] show ?thesis by (simp add: LoadOrCreate_def)
  qed
  then have "ck_good (if ck_SourceIncarnation c = [] then c\<lparr>ck_SourceIncarnation := inc\<rparr> else c) k"
    using assms(4,5) by (simp add: ck_good_def ck_ok_def position_le_def checkpointPosition_def)
  with c(2,3) show ?thesis by simp
qed

lemma start_keeps:
  assumes "files_hold path f es k" "path = ResolveCheckpointPath bundlePath (path_Base bundlePath)" "valid_utf8 (path_Base bundlePath)"
    and "valid_utf8 (ce_now env)" "valid_utf8 (TrimSpace token)" "int (length es) < 2 ^ 61" "start_capture env bundlePath token f = (f', res)"
  shows "\<exists>k'. files_hold path f' es k' \<and> (\<forall>c'. res = Inr c' \<longrightarrow> running path f' c' es k' \<and> k' = length es)"
proof -
  have jh: "journal_holds (cf_journal f) es" "list_all good_entry es" using assms(1) by (auto simp: files_hold_def journal_holds_def)
  consider (refused) "f' = f" "\<exists>e. res = Inl e"
    | (started) existing where "start_with env bundlePath token existing f = (f', res)" "pred_option (\<lambda>c. ck_good c k) existing"
  proof (cases "checkpoint_Load (ce_readable env) (cf_checkpoints f) path")
    case (Inl e)
    with assms(2,7) refused started [of None] show ?thesis by (auto simp: start_capture_def split: if_splits)
  next
    case (Inr ck)
    have "ck_good ck k" using checkpoint_loaded [OF _ Inr] assms(1) by (simp add: files_hold_def)
    with assms(2,7) Inr started [of "Some ck"] show ?thesis by (auto simp: start_capture_def)
  qed
  then show ?thesis
  proof cases
    case refused
    with assms(1) show ?thesis by auto
  next
    case started
    obtain d r where op: "Journal.Open (ce_marker_ok env) (ce_truncate_ok env) (cf_journal f) = (d, r)" by force
    note sw = started(1) [unfolded start_with_def op prod.case]
    show ?thesis
    proof (cases r)
      case (Inl e)
      with sw op Open_fails [OF jh(1)] assms(1) show ?thesis by (auto intro!: exI [of _ k] files_hold_journal)
    next
      case (Inr j)
      note j = Open_holds [OF jh(1) op [unfolded Inr]]
      have fh: "files_hold path (f\<lparr>cf_journal := d\<rparr>) es k" by (rule files_hold_journal [OF assms(1) j(1)]) simp
      show ?thesis
      proof (cases "choose_incarnation env token existing j")
        case (Inl e)
        with sw Inr fh show ?thesis by auto
      next
        case ci: (Inr inc)
        have "list_all good_entry (entries j)" using jh(2) j(2) by simp
        note inc = choose_incarnation_good [OF ci assms(5) started(2) this]
        show ?thesis
        proof (cases "capture_manager env (cf_checkpoints f) bundlePath inc (existing = None)")
          case (Inl e)
          with sw Inr ci fh show ?thesis by auto
        next
          case cm: (Inr cm)
          have "checkpoint_holds (cf_checkpoints f) path k" using assms(1) by (simp add: files_hold_def)
          note cmg = capture_manager_good [OF cm assms(2) this inc assms(3,4)]
          define c where "c = \<lparr>cc_streamID = path_Base bundlePath, cc_incarnation = inc, cc_journal = j, cc_cm = cm, cc_fresh = (existing = None),
             cc_state = captureUnknown, cc_lastObservationAt = [], cc_lastCommitAt = [], cc_replayed = 0, cc_lastErr = None,
             cc_knownGap = (repaired j \<or> degraded_marker d \<noteq> None)\<rparr>"
          have "k \<le> length es" using assms(1) by (simp add: files_hold_def)
          then have rn: "running path (f\<lparr>cf_journal := d\<rparr>) c es k"
            using j cmg inc assms(3,6) by (simp add: running_def c_def)
          have "recover env (f\<lparr>cf_journal := d\<rparr>) c = (f', res)" using sw Inr ci cm by (simp add: c_def)
          from recover_keeps [OF fh rn assms(4) this] obtain k' where k': "files_hold path f' es k'"
            "\<And>c'. res = Inr c' \<Longrightarrow> running path f' c' es k' \<and> k' = length (entries (cc_journal c))" by blast
          have "entries (cc_journal c) = es" using j(2) by (simp add: c_def)
          with k' show ?thesis by auto
        qed
      qed
    qed
  qed
qed

subsection \<open>An append without capture\<close>

lemma append_direct_keeps:
  assumes "files_hold path f es k" "plain_event ev" "append_direct env ev f = (f', res)"
  shows "files_hold path f' es k"
proof -
  have good: "list_all good_entry (take k es)" using assms(1) by (auto simp: files_hold_def journal_holds_def list_all_iff dest: in_set_takeD)
  have bh: "bundle_holds (cf_bundle f) (take k es)" using assms(1) by (simp add: files_hold_def)
  consider "f' = f" | b b' content err o' where "loadBundleForAppend env (cf_bundle f) = Inr b"
      "AppendWithOptions b (Type ev) (Data ev) (Some o') = Inr b'" "ao_Acquisition o' = None"
      "saveBundle (ce_save env) (cf_bundle f) b' = (content, err)" "f' = f\<lparr>cf_bundle := content\<rparr>"
  proof (cases "loadBundleForAppend env (cf_bundle f)")
    case (Inl e)
    with assms(3) that(1) show ?thesis by (auto simp: append_direct_def)
  next
    case (Inr b)
    define o' where "o' = (timestamp_options (Timestamp ev))\<lparr>ao_ActorID := ActorID ev\<rparr>"
    note ad = assms(3) [unfolded append_direct_def Inr sum.case o'_def [symmetric]]
    show ?thesis
    proof (cases "AppendWithOptions b (Type ev) (Data ev) (Some o')")
      case (Inl e)
      with ad that(1) show ?thesis by auto
    next
      case app: (Inr b')
      obtain content err where sv: "saveBundle (ce_save env) (cf_bundle f) b' = (content, err)" by force
      have o': "ao_Acquisition o' = None" by (simp add: o'_def timestamp_options_def)
      show ?thesis
      proof (cases "Records b' = []")
        case True
        with ad app that(1) show ?thesis by auto
      next
        case False
        with ad app sv have "f' = f\<lparr>cf_bundle := content\<rparr>" by (cases err) auto
        with that(2) [OF Inr app o' sv] show ?thesis by simp
      qed
    qed
  qed
  then show ?thesis
  proof cases
    case 1
    with assms(1) show ?thesis by simp
  next
    case 2
    have b: "Verify b = None" "list_all (\<lambda>r. wire_ok (Event r)) (Records b)" "evidence (Records b) = map obs (take k es)" "int (length (Records b)) < 2 ^ 60"
    proof -
      have "Verify b = None \<and> list_all (\<lambda>r. wire_ok (Event r)) (Records b) \<and> evidence (Records b) = map obs (take k es) \<and> int (length (Records b)) < 2 ^ 60"
      proof (cases "cf_bundle f")
        case None
        with 2(1) have "NewWithOptions (ce_created env) (ce_random env) \<lparr>no_ManifestVersion = 0, no_CaptureRunID = []\<rparr> = Inr b"
          by (auto simp: loadBundleForAppend_def split: if_splits sum.splits)
        from NewWithOptions_v3 [OF this] None bh show ?thesis by (simp add: bundle_holds_def)
      next
        case (Some raw)
        with 2(1) have "LoadVerified (ce_bytes env) raw = Inr b" by (auto simp: loadBundleForAppend_def split: if_splits sum.splits)
        from bundle_loads [OF bh [unfolded Some] good this] show ?thesis by blast
      qed
      then show "Verify b = None" "list_all (\<lambda>r. wire_ok (Event r)) (Records b)" "evidence (Records b) = map obs (take k es)" "int (length (Records b)) < 2 ^ 60"
        by blast+
    qed
    define e where "e = next_event b (Type ev) (Data ev) (Some o')"
    have r: "Records b' = Records b @ [new_record e (event_hash e)]" "encodable e" using 2(2) by (simp_all add: AppendWithOptions_Inr e_def)
    have v: "Verify b' = None" by (rule append_verifies [OF b(1) 2(2)])
    have e: "Acquisition e = None" "Data e = Data ev" "Sequence e \<in> {0, int (length (Records b)), int (length (Records b)) + 1}"
      using 2(3) by (auto simp: e_def next_event_def apply_options_def Let_def zero_event_def)
    have "event_json e \<noteq> None" using r(2) by (auto simp: encodable_def Marshal_def event_marshal_def is_ok_def split: option.splits)
    then have "wire_ok e" using e(2,3) assms(2) b(4) by (auto simp: wire_ok_def plain_event_def int64_def)
    then have w: "list_all (\<lambda>r. wire_ok (Event r)) (Records b')" "evidence (Records b') = map obs (take k es)"
      using r(1) b(2,3) e(1) by (simp_all add: new_record_def evidence_of_def)
    have "bundle_holds content (take k es)" using saveBundle_holds [OF 2(4) v w] bh by blast
    with assms(1) 2(5) show ?thesis by (simp add: files_hold_def)
  qed
qed

section \<open>Runs\<close>

datatype capture_call =
    CapStart capture_env string
  | CapAppend capture_env event
  | CapStop
  | CapClose
  | CapCrash

fun capture_do :: "capture_call \<Rightarrow> recorder \<Rightarrow> recorder" where
  \<comment> \<open>a crash loses the memory; the next process has a new recorder on the same files\<close>
  "capture_do (CapStart env token) r = fst (enableCapture env token r)"
| "capture_do (CapAppend env ev) r = fst (appendEventLocked env ev r)"
| "capture_do CapStop r = closeCapture r"
| "capture_do CapClose r = recorder_Close r"
| "capture_do CapCrash r = r\<lparr>rc_capture := None, rc_stopped := False\<rparr>"

fun call_ok :: "capture_call \<Rightarrow> bool" where
  \<comment> \<open>the texts of the caller and of the clock are valid UTF-8; faults are not restricted\<close>
  "call_ok (CapStart env token) \<longleftrightarrow> valid_utf8 (ce_now env) \<and> valid_utf8 (TrimSpace token)"
| "call_ok (CapAppend env ev) \<longleftrightarrow> valid_utf8 (ce_now env) \<and> plain_event ev"
| "call_ok _ \<longleftrightarrow> True"

definition new_recorder :: "string \<Rightarrow> recorder" where
  "new_recorder path = \<lparr>rc_path = path,
     rc_files = \<lparr>cf_bundle = None, cf_journal = \<lparr>disk_file = None, repair_marker = None, degraded_marker = None\<rparr>, cf_checkpoints = (\<lambda>_. None)\<rparr>,
     rc_capture = None, rc_stopped = False\<rparr>"

inductive capture_run :: "recorder \<Rightarrow> nat \<Rightarrow> bool" where
  \<comment> \<open>the recorders that calls can lead to, with the number of calls\<close>
  run_new: "valid_utf8 (path_Base path) \<Longrightarrow> capture_run (new_recorder path) 0"
| run_call: "capture_run r n \<Longrightarrow> call_ok c \<Longrightarrow> capture_run (capture_do c r) (Suc n)"

definition ck_path :: "recorder \<Rightarrow> string" where
  "ck_path r = ResolveCheckpointPath (rc_path r) (path_Base (rc_path r))"

definition capture_inv :: "recorder \<Rightarrow> entry list \<Rightarrow> nat \<Rightarrow> bool" where
  "capture_inv r es k \<longleftrightarrow>
     valid_utf8 (path_Base (rc_path r)) \<and> files_hold (ck_path r) (rc_files r) es k \<and>
     (\<forall>c. rc_capture r = Some c \<longrightarrow> running (ck_path r) (rc_files r) c es k)"

lemma append_keeps:
  assumes "capture_inv r es k" "valid_utf8 (ce_now env)" "plain_event ev" "int (length es) + 1 < 2 ^ 61" "appendEventLocked env ev r = (r', res)"
  shows "\<exists>es' k'. take (length es) es' = es \<and> length es' \<le> length es + 1 \<and> k \<le> k' \<and> capture_inv r' es' k' \<and>
    (\<forall>h. rc_capture r \<noteq> None \<longrightarrow> res = Inr h \<longrightarrow> k' = length es' \<and> acknowledged ev (rc_files r') es es' h)"
proof (cases "rc_stopped r")
  case True
  with assms(5) have "r' = r" "res = Inl CaptureStopped" by (auto simp: appendEventLocked_def)
  with assms(1) show ?thesis by (intro exI [of _ es] exI [of _ k]) simp
next
  case False
  show ?thesis
  proof (cases "rc_capture r")
    case None
    with False assms(5) obtain f where "append_direct env ev (rc_files r) = (f, res)" "r' = r\<lparr>rc_files := f\<rparr>"
      by (auto simp: appendEventLocked_def split: prod.splits)
    with append_direct_keeps [OF _ assms(3)] assms(1) None show ?thesis
      by (intro exI [of _ es] exI [of _ k]) (auto simp: capture_inv_def ck_path_def)
  next
    case (Some c)
    obtain f c' where cm: "commit env ev (rc_files r) c = (f, c', res)" and r': "r' = r\<lparr>rc_files := f, rc_capture := Some c'\<rparr>"
      using False Some assms(5) by (auto simp: appendEventLocked_def split: prod.splits)
    have h: "files_hold (ck_path r) (rc_files r) es k" "running (ck_path r) (rc_files r) c es k" using assms(1) Some by (simp_all add: capture_inv_def)
    have "int (length (entries (cc_journal c))) + 1 < 2 ^ 61" using h(2) assms(4) by (auto simp: running_def)
    from commit_keeps [OF h assms(2,3) this cm] obtain es' k' where k': "take (length es) es' = es" "length es' \<le> length es + 1" "k \<le> k'"
      "files_hold (ck_path r) f es' k'" "running (ck_path r) f c' es' k'"
      "\<And>h. res = Inr h \<Longrightarrow> k' = length es' \<and> acknowledged ev f es es' h" by blast
    have "capture_inv r' es' k'" using assms(1) k'(4,5) r' by (simp add: capture_inv_def ck_path_def)
    then show ?thesis
      by (intro exI [of _ es'] exI [of _ k'] conjI k'(1-3)) (use k'(6) r' in simp_all)
  qed
qed

lemma enable_keeps:
  assumes "capture_inv r es k" "valid_utf8 (ce_now env)" "valid_utf8 (TrimSpace token)" "int (length es) < 2 ^ 61" "enableCapture env token r = (r', err)"
  shows "\<exists>k'. capture_inv r' es k' \<and> (err = None \<longrightarrow> rc_capture r = None \<longrightarrow> k' = length es)"
proof (cases "rc_capture r \<noteq> None \<and> \<not> rc_stopped r")
  case True
  with assms(1,5) show ?thesis by (auto simp: enableCapture_def)
next
  case False
  obtain f res where st: "start_capture env (rc_path r) token (rc_files r) = (f, res)" by force
  have "files_hold (ck_path r) (rc_files r) es k" "valid_utf8 (path_Base (rc_path r))" using assms(1) by (simp_all add: capture_inv_def)
  from start_keeps [OF this(1) _ this(2) assms(2-4) st] obtain k' where k': "files_hold (ck_path r) f es k'"
    "\<And>c. res = Inr c \<Longrightarrow> running (ck_path r) f c es k' \<and> k' = length es" by (auto simp: ck_path_def)
  show ?thesis
  proof (cases res)
    case (Inl e)
    with assms(5) False st have "r' = r\<lparr>rc_capture := None, rc_stopped := False, rc_files := f\<rparr>" "err = Some e" by (auto simp: enableCapture_def)
    with assms(1) k'(1) show ?thesis by (intro exI [of _ k']) (simp add: capture_inv_def ck_path_def)
  next
    case (Inr c)
    with assms(5) False st have "r' = r\<lparr>rc_capture := Some c, rc_stopped := False, rc_files := f\<rparr>" "err = None" by (auto simp: enableCapture_def)
    with assms(1) k'(1) k'(2) [OF Inr, THEN conjunct1] have "capture_inv r' es k'" by (simp add: capture_inv_def ck_path_def)
    with k'(2) [OF Inr] show ?thesis by blast
  qed
qed

lemma close_keeps: "capture_inv r es k \<Longrightarrow> capture_inv (close_journal r) es k"
  by (auto simp: capture_inv_def ck_path_def close_journal_def running_def Journal.Close_def journal_ok_def)

lemma run_inv:
  assumes "capture_run r n" "int n < 2 ^ 60"
  shows "\<exists>es k. length es \<le> n \<and> capture_inv r es k"
  using assms
proof (induction rule: capture_run.induct)
  case (run_new path)
  have "capture_inv (new_recorder path) [] 0"
    using run_new by (simp add: capture_inv_def new_recorder_def files_hold_def journal_holds_def bundle_holds_def checkpoint_holds_def lines_of_def)
  then show ?case by (intro exI [of _ "[]"]) auto
next
  case (run_call r n c)
  then obtain es k where i: "length es \<le> n" "capture_inv r es k" by auto
  have small: "int (length es) + 1 < 2 ^ 61" using i(1) run_call.prems by simp
  show ?case
  proof (cases c)
    case (CapStart env token)
    obtain r' err where e: "enableCapture env token r = (r', err)" by force
    have "valid_utf8 (ce_now env)" "valid_utf8 (TrimSpace token)" using run_call(2) CapStart by simp_all
    from enable_keeps [OF i(2) this _ e] small obtain k' where "capture_inv r' es k'" by auto
    with CapStart e i(1) show ?thesis by (intro exI [of _ es] exI [of _ k']) simp
  next
    case (CapAppend env ev)
    obtain r' res where e: "appendEventLocked env ev r = (r', res)" by force
    have "valid_utf8 (ce_now env)" "plain_event ev" using run_call(2) CapAppend by simp_all
    from append_keeps [OF i(2) this small e] obtain es' k' where "length es' \<le> length es + 1" "capture_inv r' es' k'" by blast
    with CapAppend e i(1) show ?thesis by (intro exI [of _ es'] exI [of _ k']) simp
  next
    case CapStop
    have "capture_inv (closeCapture r) es k" using close_keeps [OF i(2)] by (simp add: closeCapture_def capture_inv_def ck_path_def)
    with CapStop i(1) show ?thesis by (intro exI [of _ es] exI [of _ k]) simp
  next
    case CapClose
    with close_keeps [OF i(2)] i(1) show ?thesis by (intro exI [of _ es] exI [of _ k]) (simp add: recorder_Close_def)
  next
    case CapCrash
    with i show ?thesis by (intro exI [of _ es] exI [of _ k]) (simp add: capture_inv_def ck_path_def)
  qed
qed

section \<open>Durable, exactly once\<close>

lemma journal_read:
  assumes "journal_holds d es"
  shows "\<exists>torn. readEntries (disk_file d) = Inr (es, torn)"
proof -
  obtain t where t: "(case disk_file d of None \<Rightarrow> [] | Some c \<Rightarrow> c) = lines_of es @ t" "CHR 0x0A \<notin> set t" "chained [] es" "list_all good_entry es"
    using assms by (auto simp: journal_holds_def)
  have same: "map coerce_entry es = es" using t(4) by (auto simp: list_all_iff good_entry_def intro: map_idI)
  show ?thesis
  proof (cases "disk_file d")
    case None
    with t(1) have "es = []" by (auto simp: lines_of_def entry_line_def)
    with None show ?thesis by (intro exI [of _ False]) (simp add: readEntries_def)
  next
    case (Some c)
    with t(1) readEntries_lines [OF t(3,2)] same show ?thesis by simp
  qed
qed

lemma inv_evidence:
  assumes "capture_inv r es k"
  shows "case cf_bundle (rc_files r) of
      None \<Rightarrow> k = 0
    | Some raw \<Rightarrow> \<forall>br b. LoadVerified br raw = Inr b \<longrightarrow> evidence (Records b) = map obs (take k es)"
proof -
  have h: "bundle_holds (cf_bundle (rc_files r)) (take k es)" "list_all good_entry (take k es)" "k \<le> length es"
    using assms by (auto simp: capture_inv_def files_hold_def journal_holds_def list_all_iff dest: in_set_takeD)
  show ?thesis
  proof (cases "cf_bundle (rc_files r)")
    case None
    with h show ?thesis by (auto simp: bundle_holds_def)
  next
    case (Some raw)
    with bundle_loads(3) [OF _ h(2)] h(1) show ?thesis by auto
  qed
qed

lemma inv_distinct: "capture_inv r es k \<Longrightarrow> distinct (map ObservationID es)"
  by (rule good_ids_distinct) (simp_all add: capture_inv_def files_hold_def journal_holds_def)

lemma inv_position:
  assumes "capture_inv r es k" "checkpoint_Load rf (cf_checkpoints (rc_files r)) (ck_path r) = Inr ck"
  shows "position_le ck k"
  using checkpoint_loaded [OF _ assms(2)] assms(1) by (simp add: capture_inv_def files_hold_def ck_good_def)

lemma acknowledged_record:
  assumes "capture_inv r es' k" "k = length es'" "acknowledged ev (rc_files r) es es' h"
  shows "\<exists>e raw. es' = es @ [e] \<and> marshalObservation ev = Inr (Payload e) \<and> cf_bundle (rc_files r) = Some raw \<and>
    (\<exists>b x. save_lines (Records b) = Some raw \<and> Verify b = None \<and> evidence (Records b) = map obs es' \<and>
       x \<in> set (Records b) \<and> Hash x = h \<and> evidence_of x = Some (obs e)) \<and>
    (\<forall>br b. LoadVerified br raw = Inr b \<longrightarrow> (\<exists>x. x \<in> set (Records b) \<and> Hash x = h \<and> evidence_of x = Some (obs e)))"
proof -
  obtain e raw and b0 :: atb_bundle where a: "es' = es @ [e]" "marshalObservation ev = Inr (Payload e)" "Verify b0 = None" "cf_bundle (rc_files r) = Some raw"
    "list_all (\<lambda>r. wire_ok (Event r)) (Records b0)" "save_lines (Records b0) = Some raw" "record_for b0 (ObservationID e) = Inr h" "evidence (Records b0) = map obs es'"
    using assms(3) unfolding acknowledged_def by (metis option.exhaust)
  have g: "list_all good_entry es'" using assms(1) by (simp add: capture_inv_def files_hold_def journal_holds_def)
  then have e: "ObservationID e \<noteq> []" "valid_utf8 (ObservationID e)" using good_entry_id(1,2) a(1) by simp_all
  obtain x d where x: "x \<in> set (Records b0)" "Hash x = h" "evidence_of x = Some (ObservationID e, d)" by (rule record_for_Inr [OF a(7) e(1)])
  have "(ObservationID e, d) \<in> set (map obs es')" using evidence_member [OF x(1,3)] a(8) by metis
  then have "d = RepresentationDigest e" using inv_distinct [OF assms(1)] a(1) by (auto simp: obs_def)
  with x a have rec: "\<exists>b x. save_lines (Records b) = Some raw \<and> Verify b = None \<and> evidence (Records b) = map obs es' \<and>
       x \<in> set (Records b) \<and> Hash x = h \<and> evidence_of x = Some (obs e)"
    by (intro exI [of _ b0] exI [of _ x]) (simp add: obs_def)
  have "\<exists>y. y \<in> set (Records b) \<and> Hash y = h \<and> evidence_of y = Some (obs e)" if ld: "LoadVerified br raw = Inr b" for br b
  proof -
    have rs: "Records b = bind_all [] (Records b0)" by (rule LoadVerified_saved [OF ld a(6,5)])
    have ev: "evidence (Records b) = map obs es'" using inv_evidence [OF assms(1)] a(4) ld assms(2) by simp
    obtain i where i: "i < length (Records b0)" "Records b0 ! i = x" using x(1) by (auto simp: in_set_conv_nth)
    have len: "length (Records b) = length (Records b0)" using arg_cong [OF pairs_bind_all [of "[]" "Records b0"], of length] rs by simp
    define y where "y = Records b ! i"
    have y: "y \<in> set (Records b)" using i(1) len by (simp add: y_def)
    have "pairs (Records b) ! i = (wire_event (Event x), coerce_utf8 (Hash x))" unfolding rs pairs_bind_all using i by simp
    then have p: "Event y = wire_event (Event x)" "Hash y = coerce_utf8 (Hash x)" using i(1) len by (simp_all add: y_def)
    have "valid_utf8 (Hash x)"
      using a(3) x(1) events.linked_nth [of GenesisHash "pairs (Records b0)"] valid_utf8_digest by (fastforce simp: Verify_None in_set_conv_nth)
    then have hash: "Hash y = h" using p(2) x(2) by simp
    have "wire_ok (Event x)" using a(5) x(1) by (simp add: list_all_iff)
    then have "evidence_of y = Some (ObservationID e, coerce_utf8 d)"
      using p(1) wire_again(2) x(3) e by (auto simp: evidence_of_def coerce_acquisition_def split: option.splits if_splits)
    moreover from this have "(ObservationID e, coerce_utf8 d) \<in> set (map obs es')" using evidence_member [OF y] ev by metis
    then have "coerce_utf8 d = RepresentationDigest e"
      using inv_distinct [OF assms(1)] a(1) by (auto simp: obs_def)
    ultimately show ?thesis using y hash by (auto simp: obs_def)
  qed
  with a(1,2,4) rec show ?thesis by blast
qed

lemma inv_read: "capture_inv r es k \<Longrightarrow> \<exists>torn. readEntries (disk_file (cf_journal (rc_files r))) = Inr (es, torn)"
  by (rule journal_read) (simp add: capture_inv_def files_hold_def)

text \<open>C7: However starts, observations, stops and crashes follow each other, with any faults of the disk: the journal can be
  read, its observations are distinct, and the bundle holds a prefix of them, each exactly once and in the order of the journal;
  the bundle on disk is the saved text of a bundle that verifies, and the checkpoint never counts an observation that the bundle
  lacks. (Fewer than 2 to the 60 calls, texts of callers and clock in valid UTF-8.)\<close>

theorem capture_exactly_once:
  assumes "capture_run r n" "int n < 2 ^ 60"
  shows "\<exists>es torn k. readEntries (disk_file (cf_journal (rc_files r))) = Inr (es, torn) \<and> distinct (map ObservationID es) \<and> k \<le> length es \<and>
    (case cf_bundle (rc_files r) of
       None \<Rightarrow> k = 0
     | Some raw \<Rightarrow>
         (\<exists>b. save_lines (Records b) = Some raw \<and> Verify b = None \<and> evidence (Records b) = map obs (take k es)) \<and>
         (\<forall>br b. LoadVerified br raw = Inr b \<longrightarrow> evidence (Records b) = map obs (take k es))) \<and>
    (\<forall>rf ck. checkpoint_Load rf (cf_checkpoints (rc_files r)) (ck_path r) = Inr ck \<longrightarrow> position_le ck k)"
proof -
  obtain es k where i: "capture_inv r es k" using run_inv [OF assms] by blast
  obtain torn where "readEntries (disk_file (cf_journal (rc_files r))) = Inr (es, torn)" using inv_read [OF i] by blast
  moreover have "k \<le> length es" "bundle_holds (cf_bundle (rc_files r)) (take k es)" using i by (simp_all add: capture_inv_def files_hold_def)
  moreover from this(2) have "\<exists>b. save_lines (Records b) = Some raw \<and> Verify b = None \<and> evidence (Records b) = map obs (take k es)"
    if "cf_bundle (rc_files r) = Some raw" for raw
    using that unfolding bundle_holds_def by auto
  ultimately show ?thesis
    using inv_distinct [OF i] inv_evidence [OF i] inv_position [OF i]
    by (intro exI [of _ es] exI [of _ torn] exI [of _ k]) (simp split: option.splits)
qed

text \<open>C8: While capture runs, an append that returns a hash has put the observation at the end of the journal, and the file of
  the bundle is the saved text of a bundle that verifies and holds every observation of the journal once and in order, the new one in a
  record with that hash; whatever loads from the file has the same evidence and such a record too. An append that fails loses
  nothing the journal had.\<close>

theorem capture_acknowledged:
  assumes "capture_run r n" "int n < 2 ^ 60" "rc_capture r \<noteq> None" "valid_utf8 (ce_now env)" "plain_event ev"
  shows "\<exists>es torn es' torn'. readEntries (disk_file (cf_journal (rc_files r))) = Inr (es, torn) \<and>
    (case appendEventLocked env ev r of
       (r', Inl err) \<Rightarrow> readEntries (disk_file (cf_journal (rc_files r'))) = Inr (es', torn') \<and> take (length es) es' = es
     | (r', Inr h) \<Rightarrow>
         readEntries (disk_file (cf_journal (rc_files r'))) = Inr (es', torn') \<and>
         (\<exists>e raw. es' = es @ [e] \<and> marshalObservation ev = Inr (Payload e) \<and> cf_bundle (rc_files r') = Some raw \<and>
            (\<exists>b x. save_lines (Records b) = Some raw \<and> Verify b = None \<and> evidence (Records b) = map obs es' \<and>
               x \<in> set (Records b) \<and> Hash x = h \<and> evidence_of x = Some (obs e)) \<and>
            (\<forall>br b. LoadVerified br raw = Inr b \<longrightarrow>
               evidence (Records b) = map obs es' \<and> (\<exists>x. x \<in> set (Records b) \<and> Hash x = h \<and> evidence_of x = Some (obs e)))))"
proof -
  obtain es k where i: "length es \<le> n" "capture_inv r es k" using run_inv [OF assms(1,2)] by blast
  have small: "int (length es) + 1 < 2 ^ 61" using i(1) assms(2) by simp
  obtain r' res where ap: "appendEventLocked env ev r = (r', res)" by force
  obtain es' k' where k': "take (length es) es' = es" "capture_inv r' es' k'"
    "\<And>h. res = Inr h \<Longrightarrow> k' = length es' \<and> acknowledged ev (rc_files r') es es' h"
    using append_keeps [OF i(2) assms(4,5) small ap] assms(3) by blast
  obtain torn torn' where rd: "readEntries (disk_file (cf_journal (rc_files r))) = Inr (es, torn)"
    "readEntries (disk_file (cf_journal (rc_files r'))) = Inr (es', torn')" using inv_read [OF i(2)] inv_read [OF k'(2)] by blast
  have "\<exists>e raw. es' = es @ [e] \<and> marshalObservation ev = Inr (Payload e) \<and> cf_bundle (rc_files r') = Some raw \<and>
            (\<exists>b x. save_lines (Records b) = Some raw \<and> Verify b = None \<and> evidence (Records b) = map obs es' \<and>
               x \<in> set (Records b) \<and> Hash x = h \<and> evidence_of x = Some (obs e)) \<and>
            (\<forall>br b. LoadVerified br raw = Inr b \<longrightarrow>
               evidence (Records b) = map obs es' \<and> (\<exists>x. x \<in> set (Records b) \<and> Hash x = h \<and> evidence_of x = Some (obs e)))"
    if "res = Inr h" for h
  proof -
    have all: "k' = length es'" "acknowledged ev (rc_files r') es es' h" using k'(3) [OF that] by simp_all
    have ev: "\<forall>raw. cf_bundle (rc_files r') = Some raw \<longrightarrow> (\<forall>br b. LoadVerified br raw = Inr b \<longrightarrow> evidence (Records b) = map obs es')"
      using inv_evidence [OF k'(2)] all(1) by auto
    from acknowledged_record [OF k'(2) all] ev show ?thesis by blast
  qed
  with rd k'(1) ap show ?thesis
    by (intro exI [of _ es] exI [of _ torn] exI [of _ es'] exI [of _ torn']) (simp split: sum.splits)
qed

text \<open>C38: When no capture is running, a start of capture that succeeds leaves no observation behind: whatever earlier processes
  had journaled, and crashed before committing, is in the bundle, whose file is the saved text of a bundle that verifies and holds the
  observations of the journal in order and once each. Whether the start succeeds or fails, the journal has the entries it had.\<close>

theorem capture_start_recovers:
  assumes "capture_run r n" "int n < 2 ^ 60" "rc_capture r = None" "valid_utf8 (ce_now env)" "valid_utf8 (TrimSpace token)"
  shows "\<exists>es torn torn'. readEntries (disk_file (cf_journal (rc_files r))) = Inr (es, torn) \<and>
    (case enableCapture env token r of
       (r', err) \<Rightarrow>
         readEntries (disk_file (cf_journal (rc_files r'))) = Inr (es, torn') \<and>
         (err = None \<longrightarrow>
            (case cf_bundle (rc_files r') of
               None \<Rightarrow> es = []
             | Some raw \<Rightarrow>
                 (\<exists>b. save_lines (Records b) = Some raw \<and> Verify b = None \<and> evidence (Records b) = map obs es) \<and>
                 (\<forall>br b. LoadVerified br raw = Inr b \<longrightarrow> evidence (Records b) = map obs es))))"
proof -
  obtain es k where i: "length es \<le> n" "capture_inv r es k" using run_inv [OF assms(1,2)] by blast
  have small: "int (length es) < 2 ^ 61" using i(1) assms(2) by simp
  obtain r' err where en: "enableCapture env token r = (r', err)" by force
  obtain k' where k': "capture_inv r' es k'" "err = None \<longrightarrow> k' = length es"
    using enable_keeps [OF i(2) assms(4,5) small en] assms(3) by blast
  obtain torn torn' where rd: "readEntries (disk_file (cf_journal (rc_files r))) = Inr (es, torn)"
    "readEntries (disk_file (cf_journal (rc_files r'))) = Inr (es, torn')" using inv_read [OF i(2)] inv_read [OF k'(1)] by blast
  have "bundle_holds (cf_bundle (rc_files r')) (take k' es)" using k'(1) by (simp add: capture_inv_def files_hold_def)
  with rd en k' inv_evidence [OF k'(1)] show ?thesis
    by (intro exI [of _ es] exI [of _ torn] exI [of _ torn']) (auto simp: bundle_holds_def split: option.splits)
qed

section \<open>An example\<close>

definition demo_env :: capture_env where
  "demo_env =
     \<lparr>ce_stat_ok = True, ce_bytes = (\<lambda>_. 0), ce_created = sample_time, ce_random = Some ''0123456789abcdef'', ce_now = sample_time,
      ce_write = Done, ce_sync = True, ce_mark = True, ce_error_text = (\<lambda>_. []), ce_marker_ok = True, ce_truncate_ok = True, ce_save = SaveOk,
      ce_checkpoint = \<lparr>sf_mkdir = False, sf_temp = False, sf_rename = False, sf_sync = False\<rparr>, ce_readable = (\<lambda>_. True), ce_incarnation = None\<rparr>"

definition demo_recorder :: recorder where
  "demo_recorder = capture_do (CapStart demo_env ''run-1'') (new_recorder ''b.atb'')"

definition demo_observation :: event where
  "demo_observation = zero_event\<lparr>Type := ''ai.tool.exec'', Data := AString ''ls'', Timestamp := sample_time\<rparr>"

definition demo_crashed :: recorder where
  "demo_crashed = capture_do CapCrash (capture_do (CapAppend demo_env demo_observation) demo_recorder)"

lemma demo_texts:
  "TrimSpace ''run-1'' = ''run-1''" "TrimSpace ''start'' = ''start''" "valid_utf8 (path_Base ''b.atb'')" "valid_utf8 ''run-1''" "valid_utf8 ''ai.tool.exec''"
proof -
  show "TrimSpace ''run-1'' = ''run-1''" "TrimSpace ''start'' = ''start''" by code_simp+
  have "path_Base ''b.atb'' = ''b.atb''" by code_simp
  then show "valid_utf8 (path_Base ''b.atb'')" by (simp add: valid_utf8_literal)
  show "valid_utf8 ''run-1''" "valid_utf8 ''ai.tool.exec''" by (rule valid_utf8_literal, simp)+
qed

lemma demo_new: "loadBundleForCapture demo_env None = Inr (sample_first, True)"
  using sample_new by (simp add: loadBundleForCapture_def demo_env_def sample_options_def)

lemma demo_no_evidence: "\<not> bundleHasAcquisition sample_first"
  by (simp add: bundleHasAcquisition_def sample_first_def first_bundle_def new_record_def next_event_def apply_options_def timestamp_options_def
      Let_def zero_event_def)

lemma demo_run: "capture_run demo_recorder 1" "capture_run demo_crashed 3" "valid_utf8 (ce_now demo_env)" "plain_event demo_observation"
proof -
  have p: "plain_event demo_observation" using valid_utf8_sample_time demo_texts(5) by (simp add: plain_event_def demo_observation_def)
  have n: "valid_utf8 (ce_now demo_env)" using valid_utf8_sample_time by (simp add: demo_env_def)
  have r0: "capture_run (new_recorder ''b.atb'') 0" by (rule run_new) (rule demo_texts(3))
  have r1: "capture_run demo_recorder (Suc 0)" unfolding demo_recorder_def by (rule run_call [OF r0]) (use n demo_texts(1,4) in simp)
  have r2: "capture_run (capture_do (CapAppend demo_env demo_observation) demo_recorder) (Suc (Suc 0))" by (rule run_call [OF r1]) (use n p in simp)
  have r3: "capture_run demo_crashed (Suc (Suc (Suc 0)))" unfolding demo_crashed_def by (rule run_call [OF r2]) simp
  from r1 r3 n p show "capture_run demo_recorder 1" "capture_run demo_crashed 3" "valid_utf8 (ce_now demo_env)" "plain_event demo_observation"
    by (simp_all add: numeral_3_eq_3)
qed

definition demo_ck :: checkpoint where
  \<comment> \<open>the checkpoint of the first start\<close>
  "demo_ck = zero_ck\<lparr>ck_FormatVersion := 1, ck_SourceSystem := captureSourceSystem, ck_AcquisitionStream := ''b.atb'', ck_Adapter := captureAdapter,
     ck_AdapterVersion := captureAdapterVersion, ck_SourceIncarnation := ''run-1'',
     ck_SourceIdentity := \<lparr>si_System = captureSourceSystem, si_RecordID = ''b.atb'', si_Derived = True\<rparr>, ck_ObservedAt := sample_time, ck_Position := ''start''\<rparr>"

definition demo_cm :: checkpoint_manager where
  "demo_cm = (NewCheckpointManager (ResolveCheckpointPath ''b.atb'' ''b.atb'') captureSourceSystem ''b.atb'' captureAdapter captureAdapterVersion
     \<lparr>si_System = captureSourceSystem, si_RecordID = ''b.atb'', si_Derived = True\<rparr>)\<lparr>cm_SourceIncarnation := ''run-1'', cm_Checkpoint := Some demo_ck\<rparr>"

definition demo_journal :: journal where
  "demo_journal = \<lparr>store = \<lparr>disk_file = Some [], repair_marker = None, degraded_marker = None\<rparr>, is_open = True, entries = [], repaired = False, failed = False\<rparr>"

definition demo_disk :: Acquire.disk where
  "demo_disk = (\<lambda>_. None)(path_Clean (ResolveCheckpointPath ''b.atb'' ''b.atb'') \<mapsto> MarshalIndent (JObject (checkpoint_members demo_ck)))"

definition demo_coordinator :: "journal \<Rightarrow> bool \<Rightarrow> coordinator" where
  "demo_coordinator j fresh = \<lparr>cc_streamID = ''b.atb'', cc_incarnation = ''run-1'', cc_journal = j, cc_cm = demo_cm, cc_fresh = fresh,
     cc_state = captureUnknown, cc_lastObservationAt = [], cc_lastCommitAt = [], cc_replayed = 0, cc_lastErr = None, cc_knownGap = False\<rparr>"

definition demo_capture :: coordinator where
  "demo_capture = (demo_coordinator demo_journal True)\<lparr>cc_lastCommitAt := sample_time, cc_state := captureHealthy\<rparr>"

lemma demo_base: "path_Base ''b.atb'' = ''b.atb''"
  by code_simp

lemma demo_cm_simps:
  "cm_Checkpoint demo_cm = Some demo_ck" "cm_CheckpointPath demo_cm = ResolveCheckpointPath ''b.atb'' ''b.atb''"
  "checkpointPosition (Some demo_ck) = Inr 0" "validateCheckpointPrefix (Some demo_ck) b = None"
  "ck_FormatVersion demo_ck = 1" "ck_ObservedAt demo_ck = sample_time"
  using demo_texts(2) by (simp_all add: demo_cm_def demo_ck_def zero_ck_def checkpointPosition_def validateCheckpointPrefix_def NewCheckpointManager_def)

lemma demo_save_ck:
  assumes "cm_Checkpoint cm = Some c"
  shows "cm_Save (ce_checkpoint demo_env) cm dsk =
    (cm\<lparr>cm_Checkpoint := Some (save_version c)\<rparr>,
     dsk(path_Clean (cm_CheckpointPath cm) \<mapsto> MarshalIndent (JObject (checkpoint_members (save_version c)))), None)"
  using assms by (simp add: cm_Save_def checkpoint_Save_def demo_env_def Let_def)

lemma demo_recover_first:
  assumes "cf_bundle f = None"
  shows "recover demo_env f (demo_coordinator demo_journal True) =
    (f\<lparr>cf_checkpoints := (cf_checkpoints f)(path_Clean (ResolveCheckpointPath ''b.atb'' ''b.atb'') \<mapsto> MarshalIndent (JObject (checkpoint_members demo_ck)))\<rparr>,
     Inr demo_capture)"
proof -
  have v: "save_version demo_ck = demo_ck" using demo_cm_simps(5) by (simp add: save_version_def)
  have cm: "demo_cm\<lparr>cm_Checkpoint := Some demo_ck\<rparr> = demo_cm" by (simp add: demo_cm_def)
  have "replay demo_env sample_first True 0 f (demo_coordinator demo_journal True) =
     (f\<lparr>cf_checkpoints := (cf_checkpoints f)(path_Clean (ResolveCheckpointPath ''b.atb'' ''b.atb'') \<mapsto> MarshalIndent (JObject (checkpoint_members demo_ck)))\<rparr>,
     Inr demo_capture)"
    using assms cm v by (simp add: replay_def EntriesFrom_def demo_coordinator_def demo_journal_def demo_capture_def demo_cm_simps demo_save_ck Let_def)
  then show ?thesis
    using assms demo_new demo_no_evidence
    by (simp add: recover_def LastPosition_def journalAccountsForEvidence_def demo_coordinator_def demo_journal_def demo_cm_simps)
qed

lemma demo_recorder_eq:
  "demo_recorder = (new_recorder ''b.atb'')\<lparr>rc_files := \<lparr>cf_bundle = None, cf_journal = store demo_journal, cf_checkpoints = demo_disk\<rparr>, rc_capture := Some demo_capture\<rparr>"
proof -
  have load: "checkpoint_Load rf (\<lambda>_. None) p = Inl CheckpointNotFound" for rf p by (simp add: checkpoint_Load_def)
  have cm: "capture_manager demo_env (\<lambda>_. None) ''b.atb'' ''run-1'' True = Inr demo_cm"
    by (simp add: capture_manager_def demo_base LoadOrInitialize_def LoadOrCreate_def load NewCheckpointManager_def Let_def demo_cm_def demo_ck_def zero_ck_def)
      (simp add: demo_env_def)
  have op: "Journal.Open mk tr \<lparr>disk_file = None, repair_marker = None, degraded_marker = None\<rparr> = (store demo_journal, Inr demo_journal)" for mk tr
    by (simp add: Journal.Open_def readEntries_def demo_journal_def Let_def)
  have fl: "cf_checkpoints (rc_files (new_recorder ''b.atb'')) = (\<lambda>_. None)" "cf_bundle (rc_files (new_recorder ''b.atb'')) = None"
    "cf_journal (rc_files (new_recorder ''b.atb'')) = \<lparr>disk_file = None, repair_marker = None, degraded_marker = None\<rparr>"
    by (simp_all add: new_recorder_def)
  have "start_with demo_env ''b.atb'' ''run-1'' None (rc_files (new_recorder ''b.atb'')) =
      recover demo_env ((rc_files (new_recorder ''b.atb''))\<lparr>cf_journal := store demo_journal\<rparr>) (demo_coordinator demo_journal True)"
    by (simp add: start_with_def fl op choose_incarnation_def demo_texts cm demo_base)
      (simp add: demo_coordinator_def demo_journal_def)
  then have "start_capture demo_env ''b.atb'' ''run-1'' (rc_files (new_recorder ''b.atb'')) =
      (\<lparr>cf_bundle = None, cf_journal = store demo_journal, cf_checkpoints = demo_disk\<rparr>, Inr demo_capture)"
    by (simp add: start_capture_def fl load demo_recover_first) (simp add: new_recorder_def demo_disk_def)
  then show ?thesis by (simp add: demo_recorder_def enableCapture_def) (simp add: new_recorder_def)
qed

lemma demo_started: "rc_capture demo_recorder \<noteq> None"
  by (simp add: demo_recorder_eq)

definition demo_payload :: json where
  "demo_payload = JObject [(''type'', JString ''ai.tool.exec''), (''data'', JString ''ls''), (''timestamp'', JString ''2025-01-01T00:00:00Z'')]"

definition demo_rep :: string where
  "demo_rep = digest (case canonicalizeRaw (render_html demo_payload) of Inl _ \<Rightarrow> [] | Inr t \<Rightarrow> t)"

lemma demo_represented: "marshalObservation demo_observation = Inr demo_payload" "digestRepresentation demo_payload = Inr demo_rep"
proof -
  show "marshalObservation demo_observation = Inr demo_payload" unfolding demo_observation_def sample_time_def demo_payload_def by code_simp
  obtain w where "to_any (coerce_json demo_payload) = Some w" by (simp add: demo_payload_def)
  moreover have "wf_json demo_payload" by (simp add: demo_payload_def)
  ultimately have "is_ok (canonicalizeRaw (render_html demo_payload))" by (simp add: canonicalizeRaw_ok json_unmarshal_render_html)
  then show "digestRepresentation demo_payload = Inr demo_rep"
    by (auto simp: digestRepresentation_def Marshal_def demo_rep_def digest_def is_ok_iff)
qed

definition demo_entry :: entry where
  "demo_entry = observation_entry demo_env demo_capture demo_observation demo_payload demo_rep"

definition demo_stored :: entry where
  \<comment> \<open>the first entry of the journal, as it is stored\<close>
  "demo_stored = (prepare demo_journal demo_entry)\<lparr>je_Hash := digest (GenesisHash @ entry_body (prepare demo_journal demo_entry))\<rparr>"

lemma demo_entry_eq:
  "demo_entry = zero_entry\<lparr>ObservationID := ''run-1/b.atb:1'', SourceSystem := captureSourceSystem, SourceIncarnation := ''run-1'',
     RepresentationVersion := captureRepresentationVersion, RepresentationDigest := demo_rep, ObservationType := ''ai.tool.exec'', Payload := demo_payload,
     SourceTimestamp := sample_time, ObservedAt := sample_time, Adapter := captureAdapter, AdapterVersion := captureAdapterVersion\<rparr>"
proof -
  have "show_int 1 = ''1''" by code_simp
  then show ?thesis
    by (simp add: demo_entry_def observation_entry_def demo_capture_def demo_coordinator_def demo_journal_def LastPosition_def demo_env_def demo_observation_def)
qed

lemma demo_stored_eq:
  "demo_stored = demo_entry\<lparr>FormatVersion := JournalFormatVersion, Position := 1, je_PrevHash := GenesisHash, je_Hash := je_Hash demo_stored\<rparr>"
  by (simp add: demo_stored_def prepare_def demo_journal_def LastPosition_def Let_def demo_entry_eq zero_entry_def)

lemma demo_journaled:
  "computeHash (prepare demo_journal demo_entry) = Inr (je_Hash demo_stored)" "int (length (entry_line demo_stored)) \<le> maxLineBytes"
proof -
  define e where "e = prepare demo_journal demo_entry"
  have e: "readable (Payload e)" "je_PrevHash e = GenesisHash" "int64 (Position e)"
    by (simp_all add: e_def prepare_def demo_journal_def demo_entry_eq zero_entry_def readable_def LastPosition_def int64_def demo_payload_def Let_def)
  from computeHash_readable [OF e(1,3)] e(2) show "computeHash (prepare demo_journal demo_entry) = Inr (je_Hash demo_stored)"
    by (simp add: e_def demo_stored_def)
  have "show_int 1 = ''1''" "length GenesisHash = 64" by code_simp+
  then have "text_bound (JObject (entry_members demo_stored)) \<le> 9000"
    by (simp add: demo_stored_def entry_members_def prepare_def demo_journal_def demo_entry_eq zero_entry_def demo_rep_def demo_payload_def
        LastPosition_def JournalFormatVersion_def omit_string_def digest_def sample_time_def captureSourceSystem_def captureRepresentationVersion_def
        captureAdapter_def captureAdapterVersion_def Let_def)
  then show "int (length (entry_line demo_stored)) \<le> maxLineBytes"
    using length_render(1) [OF refl, of "JObject (entry_members demo_stored)"]
    by (simp add: entry_line_def render_html_def maxLineBytes_def)
qed

definition demo_grown :: journal where
  \<comment> \<open>the journal after the append\<close>
  "demo_grown = demo_journal\<lparr>store := (store demo_journal)\<lparr>disk_file := Some (entry_line demo_stored)\<rparr>, entries := [demo_stored]\<rparr>"

lemma demo_journal_append: "Journal.Append Done True mk demo_journal demo_entry = (demo_grown, Inr demo_stored)"
proof -
  have "TrimSpace (ObservationID demo_entry) \<noteq> []" unfolding demo_entry_eq zero_entry_def by simp code_simp
  moreover have "(prepare demo_journal demo_entry)\<lparr>je_Hash := je_Hash demo_stored\<rparr> = demo_stored" by (simp add: demo_stored_def)
  moreover have "FormatVersion demo_entry = 0" by (simp add: demo_entry_eq zero_entry_def)
  ultimately show ?thesis
    using demo_journaled by (simp add: Journal.Append_def Let_def demo_grown_def) (simp add: demo_journal_def JournalFormatVersion_def)
qed

definition demo_options :: append_options where
  "demo_options = (timestamp_options sample_time)\<lparr>ao_Acquisition := Some (acquisition_of demo_stored ''b.atb'' demo_rep)\<rparr>"

definition demo_event :: event where
  "demo_event = next_event sample_first ''ai.tool.exec'' (AString ''ls'') (Some demo_options)"

definition demo_bundle :: atb_bundle where
  \<comment> \<open>the bundle with the observation\<close>
  "demo_bundle = \<lparr>Records = Records sample_first @ [new_record demo_event (event_hash demo_event)]\<rparr>"

lemma demo_stored_fields:
  "Payload demo_stored = demo_payload" "RepresentationDigest demo_stored = demo_rep" "ObservationID demo_stored = ''run-1/b.atb:1''"
  "Position demo_stored = 1" "ObservedAt demo_stored = sample_time"
  by (subst demo_stored_eq, simp add: demo_entry_eq zero_entry_def)+

lemma demo_valid: "validateEntry ''run-1'' demo_stored = None"
  using demo_represented(2)
  by (subst demo_stored_eq) (simp add: validateEntry_def verifyEntryDigest_def demo_entry_eq zero_entry_def)

lemma demo_wire: "wire_ok demo_event"
  by (simp add: wire_ok_def demo_event_def event_json_def int64_def next_event_def Let_def sample_first_def
      first_bundle_def hasManifestRecord_def new_record_def)

lemma demo_materialised: "appendMaterialised sample_first demo_stored ''b.atb'' = Inr demo_bundle"
proof -
  have p: "decode_struct set_observation observation_names demo_payload zero_observation =
      Some (zero_observation\<lparr>ob_Type := ''ai.tool.exec'', ob_Data := Some (JString ''ls''), ob_Timestamp := sample_time\<rparr>)"
    unfolding demo_payload_def sample_time_def by code_simp
  have "''ai.tool.exec'' \<noteq> ManifestEventType" by code_simp
  moreover have "acquisition_guard sample_first ''ai.tool.exec'' (Some demo_options) = None"
    using sample_manifest by (auto simp: acquisition_guard_def ManifestE_def sample_first_def)
  moreover have "encodable demo_event" by (rule wire_ok_encodable [OF demo_wire])
  ultimately have "AppendWithOptions sample_first ''ai.tool.exec'' (AString ''ls'') (Some demo_options) = Inr demo_bundle"
    by (simp add: AppendWithOptions_Inr sample_type_ok demo_bundle_def demo_event_def)
  then show ?thesis
    by (simp add: appendMaterialised_def demo_stored_fields p demo_represented(2) demo_options_def timestamp_options_def)
      (simp add: zero_observation_def)
qed

lemma demo_pending_loop:
  assumes "check demo_stored = None"
  shows "pending_loop check ''b.atb'' [demo_stored] (indexAcquisition sample_first) 0 sample_first = Inr (demo_bundle, 1)"
proof -
  have "indexAcquisition sample_first = Map.empty"
    by (simp add: indexAcquisition_def sample_first_def first_bundle_def new_record_def next_event_def apply_options_def timestamp_options_def
      Let_def zero_event_def)
  then show ?thesis using assms demo_materialised by simp
qed

lemma demo_bundle_saved: "\<exists>raw. save_lines (Records demo_bundle) = Some raw"
proof (rule save_lines_Some)
  have "list_all (\<lambda>r. wire_ok (Event r)) (Records sample_first)" by (subst sample_records) (simp add: sample_first_wire)
  then show "list_all (\<lambda>r. wire_ok (Event r)) (Records demo_bundle)" by (simp add: demo_bundle_def demo_wire new_record_def)
qed

lemma demo_record: "record_for demo_bundle ''run-1/b.atb:1'' = Inr (event_hash demo_event)"
proof -
  have "Acquisition demo_event = Some (acquisition_of demo_stored ''b.atb'' demo_rep)"
    by (simp add: demo_event_def next_event_def apply_options_def demo_options_def Let_def)
  then show ?thesis by (simp add: record_for_def demo_bundle_def new_record_def acquisition_of_def demo_stored_fields)
qed

lemma demo_entries: "EntriesFrom demo_grown 0 = [demo_stored]" "LastPosition demo_grown = 1" "entries demo_grown = [demo_stored]"
  by (simp_all add: EntriesFrom_def demo_grown_def LastPosition_def demo_stored_fields)

lemma demo_v3: "is_v3 sample_first"
  using sample_manifest by (auto simp: is_v3_def Manifest_def ManifestE_def split: if_splits)

lemma demo_commits:
  assumes "cc_streamID c = ''b.atb''" "cc_incarnation c = ''run-1''" "cc_journal c = demo_grown" "cc_cm c = demo_cm" "cf_bundle f = None"
  shows "\<exists>f' c'. commitPending demo_env ''run-1/b.atb:1'' f c = (f', c', Inr (event_hash demo_event)) \<and> cf_bundle f' = save_lines (Records demo_bundle) \<and> cf_journal f' = cf_journal f"
    and "commitPending (demo_env\<lparr>ce_save := SaveRefused\<rparr>) ''run-1/b.atb:1'' f c = (f, c, Inl (CaptureBundle WriteFailed))"
proof -
  obtain raw where raw: "save_lines (Records demo_bundle) = Some raw" using demo_bundle_saved by blast
  have sv: "saveBundle (ce_save demo_env) None demo_bundle = (Some raw, None)"
    "saveBundle SaveRefused None demo_bundle = (None, Some (CaptureBundle WriteFailed))"
    using raw by (simp_all add: saveBundle_def demo_env_def)
  have lp: "pending_loop (validateEntry ''run-1'') ''b.atb'' [demo_stored] (indexAcquisition sample_first) 0 sample_first = Inr (demo_bundle, 1)"
    by (rule demo_pending_loop) (rule demo_valid)
  have new: "loadBundleForCapture (demo_env\<lparr>ce_save := SaveRefused\<rparr>) None = Inr (sample_first, True)"
    using sample_new by (simp add: loadBundleForCapture_def demo_env_def sample_options_def)
  define cm where "cm = cm_BindBundle (committedHead demo_bundle) (int (length (Records demo_bundle)))
    (UpdateCheckpoint (ce_now demo_env) (show_int 1) [] 1 demo_cm)"
  obtain ck where ck: "cm_Checkpoint cm = Some ck" by (simp add: cm_def cm_BindBundle_def UpdateCheckpoint_def demo_cm_simps)
  show "\<exists>f' c'. commitPending demo_env ''run-1/b.atb:1'' f c = (f', c', Inr (event_hash demo_event)) \<and> cf_bundle f' = save_lines (Records demo_bundle) \<and> cf_journal f' = cf_journal f"
    unfolding commitPending_def
    using demo_new demo_save_ck [OF ck] demo_record
    by (simp add: assms demo_cm_simps demo_v3 demo_entries lp sv raw Let_def cm_def [symmetric] del: pending_loop.simps)
  show "commitPending (demo_env\<lparr>ce_save := SaveRefused\<rparr>) ''run-1/b.atb:1'' f c = (f, c, Inl (CaptureBundle WriteFailed))"
    unfolding commitPending_def
    by (simp add: assms new demo_cm_simps demo_v3 demo_entries lp sv del: pending_loop.simps)
qed

lemma demo_observed:
  "journalObservation demo_env demo_observation demo_capture = (demo_capture\<lparr>cc_journal := demo_grown\<rparr>, Inr demo_stored)"
  "journalObservation (demo_env\<lparr>ce_save := SaveRefused\<rparr>) demo_observation demo_capture = (demo_capture\<lparr>cc_journal := demo_grown\<rparr>, Inr demo_stored)"
proof -
  have e: "observation_entry (demo_env\<lparr>ce_save := SaveRefused\<rparr>) demo_capture demo_observation demo_payload demo_rep = demo_entry"
    by (simp add: demo_entry_def observation_entry_def)
  have j: "cc_journal demo_capture = demo_journal" by (simp add: demo_capture_def demo_coordinator_def)
  have w: "ce_write demo_env = Done" "ce_sync demo_env" by (simp_all add: demo_env_def)
  show "journalObservation demo_env demo_observation demo_capture = (demo_capture\<lparr>cc_journal := demo_grown\<rparr>, Inr demo_stored)"
    "journalObservation (demo_env\<lparr>ce_save := SaveRefused\<rparr>) demo_observation demo_capture = (demo_capture\<lparr>cc_journal := demo_grown\<rparr>, Inr demo_stored)"
    by (simp_all add: journalObservation_def demo_represented demo_entry_def [symmetric] e j w demo_journal_append)
qed

lemma demo_acknowledged: "\<exists>r'. appendEventLocked demo_env demo_observation demo_recorder = (r', Inr (event_hash demo_event))"
proof -
  define c where "c = demo_capture\<lparr>cc_journal := demo_grown\<rparr>"
  have c: "cc_streamID c = ''b.atb''" "cc_incarnation c = ''run-1''" "cc_journal c = demo_grown" "cc_cm c = demo_cm"
    by (simp_all add: c_def demo_capture_def demo_coordinator_def)
  define f where "f = (rc_files demo_recorder)\<lparr>cf_journal := store demo_grown\<rparr>"
  have "cf_bundle f = None" by (simp add: f_def demo_recorder_eq)
  from demo_commits(1) [OF c this] obtain f' c' where "commitPending demo_env ''run-1/b.atb:1'' f c = (f', c', Inr (event_hash demo_event))" by blast
  then have "\<exists>f' c'. commit demo_env demo_observation (rc_files demo_recorder) demo_capture = (f', c', Inr (event_hash demo_event))"
    by (simp add: commit_def demo_observed c_def [symmetric] demo_stored_fields c f_def)
  then show ?thesis by (auto simp: appendEventLocked_def demo_recorder_eq new_recorder_def)
qed

definition demo_lost :: recorder where
  \<comment> \<open>a start, an observation whose bundle could not be written, and a crash\<close>
  "demo_lost = capture_do CapCrash (capture_do (CapAppend (demo_env\<lparr>ce_save := SaveRefused\<rparr>) demo_observation) demo_recorder)"

lemma demo_lost_eq:
  "demo_lost = (new_recorder ''b.atb'')\<lparr>rc_files := \<lparr>cf_bundle = None, cf_journal = store demo_grown, cf_checkpoints = demo_disk\<rparr>\<rparr>"
proof -
  define c where "c = demo_capture\<lparr>cc_journal := demo_grown\<rparr>"
  have c: "cc_streamID c = ''b.atb''" "cc_incarnation c = ''run-1''" "cc_journal c = demo_grown" "cc_cm c = demo_cm"
    by (simp_all add: c_def demo_capture_def demo_coordinator_def)
  define f where "f = \<lparr>cf_bundle = None, cf_journal = store demo_grown, cf_checkpoints = demo_disk\<rparr>"
  have f: "cf_bundle f = None" "(rc_files demo_recorder)\<lparr>cf_journal := store demo_grown\<rparr> = f" by (simp_all add: f_def demo_recorder_eq)
  have "fst (commit (demo_env\<lparr>ce_save := SaveRefused\<rparr>) demo_observation (rc_files demo_recorder) demo_capture) = f"
    using demo_commits(2) [OF c f(1)] by (simp add: commit_def demo_observed c_def [symmetric] demo_stored_fields c f(2))
  then show ?thesis
    by (auto simp: demo_lost_def appendEventLocked_def demo_recorder_eq new_recorder_def f_def split: prod.splits)
qed

lemma demo_stored_good: "good_entry demo_stored"
proof -
  have c: "cc_journal demo_capture = demo_journal" "cc_incarnation demo_capture = ''run-1''" "cc_streamID demo_capture = ''b.atb''"
    by (simp_all add: demo_capture_def demo_coordinator_def)
  have j: "journal_ok (cc_journal demo_capture)" by (simp add: c demo_journal_def journal_ok_def lines_of_def)
  have h: "computeHash (prepare (cc_journal demo_capture) (observation_entry demo_env demo_capture demo_observation demo_payload demo_rep)) = Inr (je_Hash demo_stored)"
    using demo_journaled(1) by (simp add: c(1) demo_entry_def)
  have "good_entry ((prepare (cc_journal demo_capture) (observation_entry demo_env demo_capture demo_observation demo_payload demo_rep))\<lparr>je_Hash := je_Hash demo_stored\<rparr>)"
    by (rule observation_good(1) [OF j _ _ _ demo_run(4,3) demo_represented h]) (use demo_texts demo_base in \<open>simp_all add: c\<close>)
  moreover have "(prepare demo_journal demo_entry)\<lparr>je_Hash := je_Hash demo_stored\<rparr> = demo_stored" by (simp add: demo_stored_def)
  ultimately show ?thesis unfolding demo_entry_def [symmetric] c(1) by metis
qed

lemma demo_next: "next_ok [] demo_stored"
proof -
  have "journal_ok demo_journal" by (simp add: demo_journal_def journal_ok_def lines_of_def)
  moreover have "fresh_entry demo_entry" by (simp add: fresh_entry_def demo_entry_eq zero_entry_def demo_payload_def)
  ultimately have "next_ok (entries demo_journal) ((prepare demo_journal demo_entry)\<lparr>je_Hash := je_Hash demo_stored\<rparr>)"
    using demo_journaled by (intro prepare_ok) (simp_all add: demo_journal_def demo_stored_def)
  then show ?thesis by (simp add: demo_journal_def demo_stored_def)
qed

lemma demo_grown_read: "readEntries (disk_file (store demo_grown)) = Inr ([demo_stored], False)"
proof -
  have d: "disk_file (store demo_grown) = Some (lines_of [demo_stored])" by (simp add: demo_grown_def lines_of_def)
  have "coerce_entry demo_stored = demo_stored" using demo_stored_good by (simp add: good_entry_def)
  moreover have "chained [] [demo_stored]" using demo_next by simp
  ultimately show ?thesis unfolding d using readEntries_lines [of "[demo_stored]" "[]"] by simp
qed

lemma demo_journal_open: "Journal.Open mk tr (store demo_grown) = (store demo_grown, Inr demo_grown)"
  using demo_grown_read by (simp add: Journal.Open_def Let_def) (simp add: demo_grown_def demo_journal_def lines_of_def)

lemma demo_loaded_ck: "checkpoint_Load (ce_readable demo_env) demo_disk (ResolveCheckpointPath ''b.atb'' ''b.atb'') = Inr demo_ck"
proof (rule Load_saved)
  show "ck_ok demo_ck"
    using valid_utf8_sample_time capture_literals
    by (simp add: ck_ok_def demo_ck_def zero_ck_def valid_utf8_literal int64_def)
qed (simp_all add: demo_ck_def zero_ck_def demo_env_def demo_disk_def)

lemma demo_replay:
  assumes "cf_bundle f = None"
  shows "\<exists>f' c'. recover demo_env f (demo_coordinator demo_grown False) = (f', Inr c') \<and> cf_bundle f' = save_lines (Records demo_bundle)"
proof -
  obtain raw where raw: "save_lines (Records demo_bundle) = Some raw" using demo_bundle_saved by blast
  have sv: "saveBundle (ce_save demo_env) None demo_bundle = (Some raw, None)" using raw by (simp add: saveBundle_def demo_env_def)
  have lp: "pending_loop (\<lambda>_. None) ''b.atb'' [demo_stored] (indexAcquisition sample_first) 0 sample_first = Inr (demo_bundle, 1)"
    by (rule demo_pending_loop) simp
  define cm where "cm = UpdateCheckpoint (ce_now demo_env) (show_int 1) [] 1
    (cm_BindBundle (committedHead demo_bundle) (int (length (Records demo_bundle))) demo_cm)"
  obtain ck where ck: "cm_Checkpoint cm = Some ck" by (simp add: cm_def cm_BindBundle_def UpdateCheckpoint_def demo_cm_simps)
  have "\<exists>f' c'. replay demo_env sample_first True 0 f (demo_coordinator demo_grown False) = (f', Inr c') \<and> cf_bundle f' = save_lines (Records demo_bundle)"
    unfolding replay_def
    using demo_save_ck [OF ck]
    by (simp add: assms demo_entries demo_coordinator_def lp sv raw Let_def cm_def [symmetric] del: pending_loop.simps)
  then show ?thesis
    using assms demo_new demo_no_evidence demo_valid
    by (simp add: recover_def demo_coordinator_def demo_cm_simps demo_entries)
qed

lemma demo_restart: "\<exists>r'. enableCapture demo_env ''run-1'' demo_lost = (r', None) \<and> cf_bundle (rc_files r') = save_lines (Records demo_bundle)"
proof -
  define f where "f = \<lparr>cf_bundle = None, cf_journal = store demo_grown, cf_checkpoints = demo_disk\<rparr>"
  have cm: "capture_manager demo_env demo_disk ''b.atb'' ''run-1'' False = Inr demo_cm"
    using demo_loaded_ck
    by (simp add: capture_manager_def demo_base LoadOrInitialize_def LoadOrCreate_def NewCheckpointManager_def Let_def demo_cm_def ValidateSource_def
        checkpoint_Validate_def) (simp add: demo_ck_def zero_ck_def)
  have "start_capture demo_env ''b.atb'' ''run-1'' f = recover demo_env f (demo_coordinator demo_grown False)"
    using demo_loaded_ck
    by (simp add: start_capture_def start_with_def demo_base f_def demo_journal_open choose_incarnation_def demo_texts cm)
      (simp add: demo_coordinator_def demo_grown_def demo_journal_def)
  with demo_replay [of f] obtain f' c' where "start_capture demo_env ''b.atb'' ''run-1'' f = (f', Inr c')" "cf_bundle f' = save_lines (Records demo_bundle)"
    by (auto simp: f_def)
  then show ?thesis by (simp add: enableCapture_def demo_lost_eq f_def [symmetric]) (simp add: new_recorder_def)
qed

lemma demo_lost_run: "capture_run demo_lost 3" "rc_capture demo_lost = None"
proof -
  have r: "capture_run demo_recorder (Suc 0)" using demo_run(1) by simp
  have "capture_run (capture_do (CapAppend (demo_env\<lparr>ce_save := SaveRefused\<rparr>) demo_observation) demo_recorder) (Suc (Suc 0))"
    by (rule run_call [OF r]) (use demo_run(3,4) in simp)
  from run_call [OF this, of CapCrash] show "capture_run demo_lost 3" by (simp add: demo_lost_def numeral_3_eq_3)
  show "rc_capture demo_lost = None" by (simp add: demo_lost_def)
qed

lemma demo_read:
  "readEntries (disk_file (cf_journal (rc_files demo_recorder))) = Inr ([], False)"
  "readEntries (disk_file (cf_journal (rc_files demo_lost))) = Inr ([demo_stored], False)"
  by (simp_all add: demo_recorder_eq demo_journal_def demo_lost_eq demo_grown_read readEntries_def [of "Some []"])

theorem capture_exactly_once_witness:
  "\<exists>es torn k. readEntries (disk_file (cf_journal (rc_files demo_crashed))) = Inr (es, torn) \<and> distinct (map ObservationID es) \<and> k \<le> length es"
  using capture_exactly_once [OF demo_run(2)] by auto

theorem capture_acknowledged_witness:
  "\<exists>r' e torn raw b x. appendEventLocked demo_env demo_observation demo_recorder = (r', Inr (event_hash demo_event)) \<and>
     readEntries (disk_file (cf_journal (rc_files r'))) = Inr ([e], torn) \<and> Payload e = demo_payload \<and>
     cf_bundle (rc_files r') = Some raw \<and> save_lines (Records b) = Some raw \<and> Verify b = None \<and> evidence (Records b) = [obs e] \<and>
     x \<in> set (Records b) \<and> Hash x = event_hash demo_event \<and> evidence_of x = Some (obs e)"
proof -
  obtain r' where r': "appendEventLocked demo_env demo_observation demo_recorder = (r', Inr (event_hash demo_event))"
    using demo_acknowledged by blast
  have "int 1 < 2 ^ 60" by simp
  from capture_acknowledged [OF demo_run(1) this demo_started demo_run(3,4)] r' demo_read(1)
  obtain e torn raw b x where w: "readEntries (disk_file (cf_journal (rc_files r'))) = Inr ([e], torn)" "marshalObservation demo_observation = Inr (Payload e)"
    "cf_bundle (rc_files r') = Some raw" "save_lines (Records b) = Some raw" "Verify b = None" "evidence (Records b) = map obs [e]"
    "x \<in> set (Records b)" "Hash x = event_hash demo_event" "evidence_of x = Some (obs e)"
    by auto
  have "Payload e = demo_payload" using w(2) demo_represented(1) by simp
  with r' w show ?thesis
    by (intro exI [of _ r'] exI [of _ e] exI [of _ torn] exI [of _ raw] exI [of _ b] exI [of _ x]) simp
qed

theorem capture_start_recovers_witness:
  "\<exists>r' torn raw b. readEntries (disk_file (cf_journal (rc_files demo_lost))) = Inr ([demo_stored], False) \<and> cf_bundle (rc_files demo_lost) = None \<and>
     enableCapture demo_env ''run-1'' demo_lost = (r', None) \<and> readEntries (disk_file (cf_journal (rc_files r'))) = Inr ([demo_stored], torn) \<and>
     cf_bundle (rc_files r') = Some raw \<and> save_lines (Records b) = Some raw \<and> Verify b = None \<and> evidence (Records b) = [obs demo_stored]"
proof -
  obtain r' raw where r': "enableCapture demo_env ''run-1'' demo_lost = (r', None)" "cf_bundle (rc_files r') = Some raw"
    using demo_restart demo_bundle_saved by auto
  have u: "int 3 < 2 ^ 60" "valid_utf8 (TrimSpace ''run-1'')" using demo_texts(1,4) by simp_all
  from capture_start_recovers [OF demo_lost_run(1) u(1) demo_lost_run(2) demo_run(3) u(2)] r' demo_read(2)
  obtain torn b where "readEntries (disk_file (cf_journal (rc_files r'))) = Inr ([demo_stored], torn)"
    "save_lines (Records b) = Some raw" "Verify b = None" "evidence (Records b) = map obs [demo_stored]" by auto
  moreover have "cf_bundle (rc_files demo_lost) = None" by (simp add: demo_lost_eq)
  ultimately show ?thesis
    using r' demo_read(2) by (intro exI [of _ r'] exI [of _ torn] exI [of _ raw] exI [of _ b]) simp
qed

end
