(* ===== verification/Spec2Isabelle.thy ===== *)
theory Spec2Isabelle
  imports Bundle_Sign Policy_Sign Journal Cas_Props Report_Props Lock Incident_Props Acquire_Props Archive Agent_Props Locator Lineage Capture_Props
begin

text \<open>
  A verification library for ATB, a recorder of tamper-evident evidence about AI systems. It models the Go program under
  \<^verbatim>\<open>src/internal\<close>, with the command \<^verbatim>\<open>atb archive\<close> of \<^verbatim>\<open>src/cmd/atb\<close>, as functions of Isabelle/HOL.

  \<^bold>\<open>The program.\<close> A bundle is a file of JSON lines; every line holds an event, its hash and the hash of the line before, so that
  the last hash, the head, stands for the whole file. Events come from the proxy, which puts every observation into a journal first
  and into the bundle afterwards (\<^verbatim>\<open>internal/proxy\<close>, \<^verbatim>\<open>internal/capturejournal\<close>), from the agent, which keeps one bundle for each
  session (\<^verbatim>\<open>internal/agent\<close>), and from imports that are reconciled with what was imported before (\<^verbatim>\<open>internal/acquisition\<close>). Writers
  of one bundle exclude each other by a lock file (\<^verbatim>\<open>internal/bundle/lock*.go\<close>). Readers verify the chain, the signatures and the
  anchors, evaluate profiles and give a score and a gate result (\<^verbatim>\<open>internal/verify\<close>, \<^verbatim>\<open>internal/profiles\<close>, \<^verbatim>\<open>internal/sign\<close>), group
  events into sessions and report on them (\<^verbatim>\<open>internal/sessionindex\<close>, \<^verbatim>\<open>internal/incident\<close>), follow references to single records
  (\<^verbatim>\<open>internal/locator\<close>) and the use of context (\<^verbatim>\<open>internal/contextlineage\<close>). Old bundles move to an archive with a ledger
  (\<^verbatim>\<open>internal/archive\<close>).

  \<^bold>\<open>The theories.\<close> Every theory opens with what it holds; the definitions have the names of the Go functions, with a prefix where
  two packages use one name.

  \<^item> Go and its library: \<^verbatim>\<open>Go_Prelude\<close> (strings as byte lists, errors as sums, sorting), \<^verbatim>\<open>Utf8\<close>, \<^verbatim>\<open>Go_Time\<close>, \<^verbatim>\<open>Go_Path\<close> with
    \<^verbatim>\<open>Path_Props\<close>, \<^verbatim>\<open>Float64\<close>, \<^verbatim>\<open>Float_Arith\<close> and \<^verbatim>\<open>Float_Text\<close> (doubles as rational numbers with rounding, printing and
    parsing), \<^verbatim>\<open>Sha256\<close> (executable, on 32-bit words), \<^verbatim>\<open>Json\<close>, \<^verbatim>\<open>Json_Codec\<close>, \<^verbatim>\<open>Json_Wire\<close>, \<^verbatim>\<open>Json_Indent\<close>
    (\<^verbatim>\<open>encoding/json\<close>: scanner, encoder, struct decoding with case folding and repeated keys).

  \<^item> \<^verbatim>\<open>Canonicalize\<close> (\<^verbatim>\<open>internal/canonicalize\<close>), \<^verbatim>\<open>Event\<close> (\<^verbatim>\<open>internal/event\<close>), \<^verbatim>\<open>Hash_Chain\<close> (\<^verbatim>\<open>internal/hash\<close>): canonical text is
    the same exactly for the same JSON value, and scans back to it; chains with one head agree or exhibit a collision. The locale of
    linked chains is used for bundles, for the journal and for the ledger.

  \<^item> \<^verbatim>\<open>Bundle\<close>, \<^verbatim>\<open>Bundle_IO\<close>, \<^verbatim>\<open>Bundle_Props\<close> (\<^verbatim>\<open>internal/bundle/bundle.go\<close>, \<^verbatim>\<open>write.go\<close>, \<^verbatim>\<open>errors.go\<close>): creating and appending give
    bundles that verify, saving and loading keeps them, equal heads mean equal records, the limits of the loader, which error each
    damage gives. \<^verbatim>\<open>Lock\<close> (\<^verbatim>\<open>lock.go\<close>, \<^verbatim>\<open>lock_open.go\<close>, \<^verbatim>\<open>lock_unix.go\<close>): a step relation of concurrent processes with mutual
    exclusion while the lock file stays, its failure when the file is removed, and the bounded wait.

  \<^item> \<^verbatim>\<open>Sign\<close> (\<^verbatim>\<open>internal/sign\<close>), \<^verbatim>\<open>Bundle_Sign\<close> (\<^verbatim>\<open>internal/bundle/sign.go\<close>), \<^verbatim>\<open>Policy_Sign\<close> (policy decisions): what is signed
    verifies afterwards and is bound to the bytes before it.

  \<^item> \<^verbatim>\<open>Profiles\<close>, \<^verbatim>\<open>Profile_Eval\<close>, \<^verbatim>\<open>Profile_Props\<close> (\<^verbatim>\<open>internal/profiles\<close>): schemas that parse are well formed, and evaluation refines
    a declarative reading of the rules. \<^verbatim>\<open>Cas\<close>, \<^verbatim>\<open>Cas_Props\<close>, \<^verbatim>\<open>Verify_Report\<close>, \<^verbatim>\<open>Verifier_Report\<close>, \<^verbatim>\<open>Report_Props\<close>
    (\<^verbatim>\<open>internal/verify\<close>, \<^verbatim>\<open>internal/trust/cas.go\<close>): bounds of the scores, and exactly when the gate passes.

  \<^item> \<^verbatim>\<open>Session_Index\<close>, \<^verbatim>\<open>Session_Props\<close> (\<^verbatim>\<open>internal/sessionindex\<close>), \<^verbatim>\<open>Findings\<close>, \<^verbatim>\<open>Incident\<close>, \<^verbatim>\<open>Incident_Props\<close>
    (\<^verbatim>\<open>internal/incident\<close>, \<^verbatim>\<open>internal/identityevidence\<close>): sessions partition the events, anomaly flags mean what they say, reports
    list what the bundle holds, and evidence text adds no Markdown structure, the signature line excepted.

  \<^item> \<^verbatim>\<open>Locator\<close> (\<^verbatim>\<open>internal/locator\<close>): a locator parses as it was printed and names one record. \<^verbatim>\<open>Lineage\<close>
    (\<^verbatim>\<open>internal/contextlineage\<close>): no warning means a complete and closed lineage.

  \<^item> \<^verbatim>\<open>Journal\<close> (\<^verbatim>\<open>internal/capturejournal\<close>): appending keeps the chain, a crash at any byte loses no durable entry. \<^verbatim>\<open>Acquire\<close>,
    \<^verbatim>\<open>Acquire_Props\<close> (\<^verbatim>\<open>internal/acquisition\<close>): reconciliation refines a map from source identities to digests; checkpoints are
    replaced as a whole. \<^verbatim>\<open>Capture\<close>, \<^verbatim>\<open>Capture_Props\<close> (\<^verbatim>\<open>internal/proxy/capture.go\<close>, \<^verbatim>\<open>recorder.go\<close>): over all runs of starts,
    observations, stops and crashes, every durable observation enters the bundle exactly once.

  \<^item> \<^verbatim>\<open>Agent\<close>, \<^verbatim>\<open>Agent_Props\<close> (\<^verbatim>\<open>internal/agent\<close>, \<^verbatim>\<open>internal/bundle/rooted.go\<close>): acknowledged events are on disk while no two open
    sessions share a bundle path and none has the path of a session's metadata file. \<^verbatim>\<open>Ledger\<close>, \<^verbatim>\<open>Archive\<close> (\<^verbatim>\<open>internal/archive\<close>, \<^verbatim>\<open>cmd/atb/archive.go\<close>, \<^verbatim>\<open>internal/retentionaudit\<close>): no
    content is lost, whatever modelled step fails, and the ledger describes the archived files.

  \<^bold>\<open>State, errors and faults.\<close> Stateful code passes its state explicitly: files as maps from paths to bytes or as optional bytes, the
  memory of a manager as a record. Errors are constructors; their texts are modelled only where the program compares them, and are an argument where it stores
  them (the reason in the journal's marker). A call
  that touches the disk takes a description of the fault as an argument, so that a crash is a call with a fault followed by the
  loss of the memory; theorems quantify over all of them. Errors that the code ignores when it closes a file it wrote (\<^verbatim>\<open>copyFile\<close>, \<^verbatim>\<open>Append\<close> of the
  ledger) are not among the faults. Calls under one mutex are single steps.

  \<^bold>\<open>Bounds.\<close> Machine integers are \<open>int\<close> with the 64-bit range as a condition where it matters (sequence numbers and positions, hence
  the bound of \<open>2 ^ 60\<close> calls in the theorems on runs); words are used for SHA-256. Every loop is total, except the wait for the lock:
  there, not returning is the value None, and returning is a theorem, provided that each attempt returns (the loop of \<^verbatim>\<open>openLockFile\<close>,
  which an attempt runs through, is a step of the relation on processes). Go's JSON scanner refuses documents nested deeper than 10000
  levels; the scanner of \<^verbatim>\<open>Json\<close> has no such limit and agrees with it on every document within the limit, and raw JSON that a struct
  carries (\<^verbatim>\<open>json.RawMessage\<close>) is the tree it scans to, written again. Doubles are added and multiplied with one rounding each, as on
  amd64, without fused operations. \<^verbatim>\<open>sort.Slice\<close>, which leaves the order of equal
  keys open, is modelled by a stable sort.

  \<^bold>\<open>Arguments.\<close> Code that is not part of the repository is an argument with its documented behaviour as a hypothesis, shown to be
  satisfiable by a witness: signature schemes, YAML, globbing, the clock, random bytes, the operating system's file operations. The
  comparison \<^verbatim>\<open>EqualFold\<close> and \<^verbatim>\<open>%q\<close> are exact when one side is ASCII.

  \<^bold>\<open>Not modelled.\<close> Network code (the forwarding half of the proxy, the HTTP and JSON-RPC servers, pushing, key services, time-stamping
  requests), since its behaviour is that of libraries; text renderings of results (packs, exports, views, the readiness
  report), since they decide nothing; ciphers of \<^verbatim>\<open>internal/encrypt\<close>; the translation of traces in \<^verbatim>\<open>pkg/otel\<close>; flag parsing and
  printing of the commands; the Windows variants; the web interface and the clients in other languages.
\<close>

end
